(* ===== verification/Prelude.thy ===== *)
theory Prelude
  imports Main "HOL-Library.AList"
begin

text \<open>
  Prelude of the development: the exceptions a Python function can raise, the results of
  fallible functions as sums, dictionaries as insertion-ordered association lists
  (\<^verbatim>\<open>AList.update\<close> overwrites in place or appends, as a Python \<^verbatim>\<open>dict\<close> does), sets
  kept as duplicate-free lists, the interface of a keyed store, and the lemma collections
  that the component theories share.
\<close>

named_theorems pystr \<open>facts about the Python string and bytes built-ins\<close>
named_theorems dict_simps \<open>lookup, keys and distinctness of dictionaries\<close>
named_theorems handler_defs \<open>definitions of message handlers, to be unfolded together\<close>

section \<open>Exceptions\<close>

datatype exn =
    ValueError
  | KeyError
  | IndexError
  | TypeError
  | AttributeError
  | RuntimeError
  | PermissionError
  | StructError
  | NamespaceNotFoundError
  | NamespaceExistsError
  | ConnectionError
  | TimeoutError
  | OSError
  | OtherError

type_synonym 'a result = "exn + 'a"

fun seq_results :: "'a result list \<Rightarrow> 'a list result" where
  "seq_results [] = Inr []"
| "seq_results (r # rs) =
     (case r of
        Inl e \<Rightarrow> Inl e
      | Inr x \<Rightarrow> (case seq_results rs of Inl e \<Rightarrow> Inl e | Inr xs \<Rightarrow> Inr (x # xs)))"

lemma seq_results_Inr: "seq_results (map Inr xs) = Inr xs"
  by (induction xs) auto

lemma seq_results_all:
  "(\<And>x. x \<in> set xs \<Longrightarrow> f x = Inr (g x)) \<Longrightarrow> seq_results (map f xs) = Inr (map g xs)"
  by (induction xs) auto

lemma seq_results_length: "seq_results rs = Inr xs \<Longrightarrow> length xs = length rs"
  by (induction rs arbitrary: xs) (auto split: sum.splits)

section \<open>Dictionaries\<close>

type_synonym ('k, 'v) dict = "('k \<times> 'v) list"

abbreviation dget :: "('k, 'v) dict \<Rightarrow> 'k \<Rightarrow> 'v option" where
  "dget d k \<equiv> map_of d k"

abbreviation dset :: "'k \<Rightarrow> 'v \<Rightarrow> ('k, 'v) dict \<Rightarrow> ('k, 'v) dict" where
  "dset \<equiv> AList.update"

abbreviation ddel :: "'k \<Rightarrow> ('k, 'v) dict \<Rightarrow> ('k, 'v) dict" where
  "ddel \<equiv> AList.delete"

abbreviation dkeys :: "('k, 'v) dict \<Rightarrow> 'k list" where
  "dkeys d \<equiv> map fst d"

abbreviation dvalues :: "('k, 'v) dict \<Rightarrow> 'v list" where
  "dvalues d \<equiv> map snd d"

definition has_key :: "('k, 'v) dict \<Rightarrow> 'k \<Rightarrow> bool" where
  "has_key d k \<longleftrightarrow> k \<in> set (dkeys d)"

lemma has_key_iff [dict_simps]: "has_key d k \<longleftrightarrow> dget d k \<noteq> None"
  by (simp add: has_key_def map_of_eq_None_iff)

lemma dget_dset [simp, dict_simps]: "dget (dset k v d) k' = (if k' = k then Some v else dget d k')"
  by (simp add: update_conv')

lemma dget_ddel [simp, dict_simps]: "dget (ddel k d) k' = (if k' = k then None else dget d k')"
  by (simp add: delete_conv')

lemma dkeys_dset [dict_simps]:
  "dkeys (dset k v d) = (if has_key d k then dkeys d else dkeys d @ [k])"
  by (simp add: update_keys has_key_def)

lemma dkeys_ddel [dict_simps]: "dkeys (ddel k d) = filter (\<lambda>x. x \<noteq> k) (dkeys d)"
  by (induction d) auto

lemma fst_set_dset [simp, dict_simps]: "fst ` set (dset k v d) = insert k (fst ` set d)"
  by (induction d) auto

lemma fst_set_ddel [simp, dict_simps]: "fst ` set (ddel k d) = fst ` set d - {k}"
  by (induction d) auto

lemma dset_new: "k \<notin> set (dkeys d) \<Longrightarrow> dset k v d = d @ [(k, v)]"
  by (induction d) auto

lemma distinct_dset [simp]: "distinct (dkeys d) \<Longrightarrow> distinct (dkeys (dset k v d))"
  by (rule distinct_update)

lemma distinct_ddel [simp]: "distinct (dkeys d) \<Longrightarrow> distinct (dkeys (ddel k d))"
  by (rule distinct_delete)

lemma set_dset: "distinct (dkeys d) \<Longrightarrow> set (dset k v d) = {(k, v)} \<union> {p \<in> set d. fst p \<noteq> k}"
  by (induction d) (auto simp: rev_image_eqI)

lemma set_ddel: "set (ddel k d) = {p \<in> set d. fst p \<noteq> k}"
  by (induction d) auto

lemma dvalues_dset_subset: "set (dvalues (dset k v d)) \<subseteq> insert v (set (dvalues d))"
  by (induction d) auto

lemma dvalues_ddel_subset: "set (dvalues (ddel k d)) \<subseteq> set (dvalues d)"
  by (induction d) auto

lemma dict_eqI:
  "distinct (dkeys d) \<Longrightarrow> distinct (dkeys d') \<Longrightarrow> dget d = dget d' \<Longrightarrow> set d = set d'"
  by (rule map_of_inject_set [THEN iffD1])

text \<open>Truth value of an optional string: \<^verbatim>\<open>None\<close> and the empty string are false.\<close>

fun truthy :: "'a list option \<Rightarrow> bool" where
  "truthy None = False"
| "truthy (Some s) = (s \<noteq> [])"

lemma truthy_iff: "truthy x \<longleftrightarrow> x \<noteq> None \<and> x \<noteq> Some []"
  by (cases x) auto

text \<open>Python's \<^verbatim>\<open>a or b\<close> on optional strings.\<close>

definition or_else :: "'a list option \<Rightarrow> 'a list option \<Rightarrow> 'a list option" where
  "or_else a b = (if truthy a then a else b)"

section \<open>Sets kept as duplicate-free lists\<close>

definition sadd :: "'a \<Rightarrow> 'a list \<Rightarrow> 'a list" where
  "sadd x xs = (if x \<in> set xs then xs else xs @ [x])"

definition sdiscard :: "'a \<Rightarrow> 'a list \<Rightarrow> 'a list" where
  "sdiscard x xs = filter (\<lambda>y. y \<noteq> x) xs"

lemma set_sadd [simp]: "set (sadd x xs) = insert x (set xs)"
  by (auto simp: sadd_def)

lemma set_sdiscard [simp]: "set (sdiscard x xs) = set xs - {x}"
  by (auto simp: sdiscard_def)

lemma distinct_sadd [simp]: "distinct (sadd x xs) = distinct xs"
  by (auto simp: sadd_def)

lemma distinct_sdiscard [simp]: "distinct xs \<Longrightarrow> distinct (sdiscard x xs)"
  by (simp add: sdiscard_def)

lemma length_sadd: "length (sadd x xs) = (if x \<in> set xs then length xs else Suc (length xs))"
  by (simp add: sadd_def)

lemma length_sdiscard_le: "length (sdiscard x xs) \<le> length xs"
  by (simp add: sdiscard_def)

lemma sdiscard_sadd: "x \<notin> set xs \<Longrightarrow> sdiscard x (sadd x xs) = xs"
  by (auto simp: sdiscard_def sadd_def filter_id_conv)

section \<open>Sorting by a key\<close>

lemma insort_key_cong_set:
  "(\<And>y. y \<in> set (x # ys) \<Longrightarrow> f y = g y) \<Longrightarrow> insort_key f x ys = insort_key g x ys"
  by (induction ys) auto

lemma sort_key_cong_set:
  "(\<And>x. x \<in> set xs \<Longrightarrow> f x = g x) \<Longrightarrow> sort_key f xs = sort_key g xs"
  by (induction xs) (auto intro!: insort_key_cong_set)

lemma sorted_key_take_drop:
  assumes "x \<in> set (take k (sort_key f xs))" "y \<in> set (drop k (sort_key f xs))"
  shows "f x \<le> f y"
proof -
  have "sorted (map f (take k (sort_key f xs) @ drop k (sort_key f xs)))" by simp
  then show ?thesis using assms unfolding map_append sorted_append by auto
qed

section \<open>The interface of a keyed store\<close>

text \<open>
  Aliases, name claims, advertisements, relay configurations and known hosts are all stores
  with a lookup, an insertion that overwrites and a removal. The laws below are what their
  clients rely on; a history of insertions and removals then behaves like a finite map.
\<close>

datatype ('k, 'v) store_op = Put 'k 'v | Del 'k

fun map_run :: "('k, 'v) store_op list \<Rightarrow> ('k \<rightharpoonup> 'v) \<Rightarrow> ('k \<rightharpoonup> 'v)" where
  "map_run [] m = m"
| "map_run (Put k v # ops) m = map_run ops (m(k \<mapsto> v))"
| "map_run (Del k # ops) m = map_run ops (m(k := None))"

locale kv_store =
  fixes get :: "'s \<Rightarrow> 'k \<Rightarrow> 'v option"
    and put :: "'k \<Rightarrow> 'v \<Rightarrow> 's \<Rightarrow> 's"
    and del :: "'k \<Rightarrow> 's \<Rightarrow> 's"
  assumes get_put: "get (put k v s) k' = (if k' = k then Some v else get s k')"
    and get_del: "get (del k s) k' = (if k' = k then None else get s k')"
begin

fun run :: "('k, 'v) store_op list \<Rightarrow> 's \<Rightarrow> 's" where
  "run [] s = s"
| "run (Put k v # ops) s = run ops (put k v s)"
| "run (Del k # ops) s = run ops (del k s)"

lemma get_put_fun: "get (put k v s) = (get s)(k \<mapsto> v)"
  by (rule ext) (simp add: get_put)

lemma get_del_fun: "get (del k s) = (get s)(k := None)"
  by (rule ext) (simp add: get_del)

lemma run_refines: "get (run ops s) = map_run ops (get s)"
  by (induction ops s rule: run.induct) (simp_all add: get_put_fun get_del_fun del: fun_upd_apply)

lemma put_put: "get (put k v (put k w s)) = get (put k v s)"
  by (simp add: get_put_fun)

lemma put_comm: "k \<noteq> k' \<Longrightarrow> get (put k v (put k' w s)) = get (put k' w (put k v s))"
  by (auto simp: get_put_fun)

lemma del_put: "get s k = None \<Longrightarrow> get (del k (put k v s)) = get s"
  by (rule ext) (simp add: get_put get_del)

end

interpretation dict: kv_store "map_of" "AList.update" "AList.delete"
  by unfold_locales simp_all

end
