(* ===== verification/Py_Text.thy ===== *)
theory Py_Text
  imports Prelude "HOL-Library.Char_ord"
begin

text \<open>
  The Python \<^verbatim>\<open>str\<close> built-ins the sources call. A string is a list of characters, each
  read as one code point below 256 (the Latin-1 range): that is the domain of the model, and
  the character classes and case maps below are Python's on that range.
\<close>

section \<open>Characters\<close>

definition cp :: "char \<Rightarrow> nat" where
  "cp c = of_char c"

definition is_space :: "char \<Rightarrow> bool" where
  "is_space c \<longleftrightarrow> (9 \<le> cp c \<and> cp c \<le> 13) \<or> (28 \<le> cp c \<and> cp c \<le> 32) \<or> cp c = 133 \<or> cp c = 160"

definition is_dec :: "char \<Rightarrow> bool" where
  "is_dec c \<longleftrightarrow> 48 \<le> cp c \<and> cp c \<le> 57"

definition is_digit :: "char \<Rightarrow> bool" where
  "is_digit c \<longleftrightarrow> is_dec c \<or> cp c = 178 \<or> cp c = 179 \<or> cp c = 185"

definition is_alnum_char :: "char \<Rightarrow> bool" where
  "is_alnum_char c \<longleftrightarrow>
     is_dec c \<or> (65 \<le> cp c \<and> cp c \<le> 90) \<or> (97 \<le> cp c \<and> cp c \<le> 122)
     \<or> cp c \<in> {170, 178, 179, 181, 185, 186, 188, 189, 190}
     \<or> (192 \<le> cp c \<and> cp c \<noteq> 215 \<and> cp c \<noteq> 247)"

definition lower_char :: "char \<Rightarrow> char" where
  "lower_char c =
     (if (65 \<le> cp c \<and> cp c \<le> 90) \<or> (192 \<le> cp c \<and> cp c \<le> 222 \<and> cp c \<noteq> 215)
      then char_of (cp c + 32) else c)"

lemma cp_char_of [simp]: "n < 256 \<Longrightarrow> cp (char_of n) = n"
  by (simp add: cp_def)

lemma cp_less [simp]: "cp c < 256"
  using of_char_mod_256 [of c, where ?'a = nat] by (metis cp_def mod_less_divisor zero_less_numeral)

lemma cp_inject: "cp c = cp d \<longleftrightarrow> c = d"
  by (simp add: cp_def)

lemma char_of_cp [simp]: "char_of (cp c) = c"
  by (simp add: cp_def)

lemma lower_char_idem [pystr]: "lower_char (lower_char c) = lower_char c"
  by (auto simp: lower_char_def)

lemma is_alnum_lower [pystr]: "is_alnum_char (lower_char c) \<longleftrightarrow> is_alnum_char c"
  by (auto simp: lower_char_def is_alnum_char_def is_dec_def)

lemma is_digit_lower [pystr]: "is_digit (lower_char c) \<longleftrightarrow> is_digit c"
  by (auto simp: lower_char_def is_digit_def is_dec_def)

lemma alnum_not_space: "is_alnum_char c \<Longrightarrow> \<not> is_space c"
  by (auto simp: is_alnum_char_def is_space_def is_dec_def)

section \<open>Strings\<close>

definition startswith :: "'a list \<Rightarrow> 'a list \<Rightarrow> bool" where
  "startswith s p \<longleftrightarrow> take (length p) s = p"

definition endswith :: "'a list \<Rightarrow> 'a list \<Rightarrow> bool" where
  "endswith s p \<longleftrightarrow> length p \<le> length s \<and> drop (length s - length p) s = p"

fun contains :: "'a list \<Rightarrow> 'a list \<Rightarrow> bool" where
  "contains [] p = (p = [])"
| "contains (c # s) p = (startswith (c # s) p \<or> contains s p)"

definition lstrip :: "string \<Rightarrow> string" where
  "lstrip s = dropWhile is_space s"

definition rstrip :: "string \<Rightarrow> string" where
  "rstrip s = rev (dropWhile is_space (rev s))"

definition strip :: "string \<Rightarrow> string" where
  "strip s = rstrip (lstrip s)"

definition lower :: "string \<Rightarrow> string" where
  "lower s = map lower_char s"

definition isalnum :: "string \<Rightarrow> bool" where
  "isalnum s \<longleftrightarrow> s \<noteq> [] \<and> (\<forall>c \<in> set s. is_alnum_char c)"

text \<open>\<^verbatim>\<open>s.replace(c, "")\<close> for a one-character \<^verbatim>\<open>c\<close>.\<close>

definition remove_char :: "char \<Rightarrow> string \<Rightarrow> string" where
  "remove_char c s = filter (\<lambda>x. x \<noteq> c) s"

text \<open>
  \<^verbatim>\<open>name.replace("-", "").replace("_", "").isalnum()\<close>, the check that alias, scoped, global
  and namespace names share.
\<close>

definition dashed_alnum :: "string \<Rightarrow> bool" where
  "dashed_alnum s \<longleftrightarrow> isalnum (remove_char (CHR ''_'') (remove_char (CHR ''-'') s))"

text \<open>\<^verbatim>\<open>s.rsplit(c, 1)\<close> and \<^verbatim>\<open>s.split(c, 1)\<close> for a one-character \<^verbatim>\<open>c\<close> that occurs in \<^verbatim>\<open>s\<close>.\<close>

definition rsplit1 :: "char \<Rightarrow> string \<Rightarrow> string \<times> string" where
  "rsplit1 c s =
     (rev (tl (dropWhile (\<lambda>x. x \<noteq> c) (rev s))), rev (takeWhile (\<lambda>x. x \<noteq> c) (rev s)))"

definition split1 :: "char \<Rightarrow> string \<Rightarrow> string \<times> string" where
  "split1 c s = (takeWhile (\<lambda>x. x \<noteq> c) s, tl (dropWhile (\<lambda>x. x \<noteq> c) s))"

text \<open>\<^verbatim>\<open>s.split(c)\<close>: never empty, one piece more than there are separators.\<close>

fun split_on :: "char \<Rightarrow> string \<Rightarrow> string list" where
  "split_on c [] = [ [] ]"
| "split_on c (x # s) =
     (if x = c then [] # split_on c s
      else (case split_on c s of [] \<Rightarrow> [ [x] ] | p # ps \<Rightarrow> (x # p) # ps))"

text \<open>\<^verbatim>\<open>sep.join(parts)\<close>.\<close>

fun join_with :: "string \<Rightarrow> string list \<Rightarrow> string" where
  "join_with sep [] = []"
| "join_with sep [s] = s"
| "join_with sep (s # t # ss) = s @ sep @ join_with sep (t # ss)"

text \<open>
  \<^verbatim>\<open>template.format(field=u)\<close> for templates whose replacement fields are plain names, with doubled
  braces for literal ones; \<^const>\<open>None\<close> for any other field, which raises.
\<close>

fun format_field :: "string \<Rightarrow> string \<Rightarrow> string \<Rightarrow> string option" where
  "format_field fld u [] = Some []"
| "format_field fld u (c # s) =
     (if c = CHR ''{'' then
        (if take 1 s = ''{'' then map_option ((#) c) (format_field fld u (tl s))
         else if startswith s (fld @ ''}'') then map_option ((@) u) (format_field fld u (drop (length fld + 1) s))
         else None)
      else if c = CHR ''}'' then
        (if take 1 s = ''}'' then map_option ((#) c) (format_field fld u (tl s)) else None)
      else map_option ((#) c) (format_field fld u s))"

subsection \<open>Lemmas\<close>

lemma startswith_append [simp, pystr]: "startswith (p @ s) p"
  by (simp add: startswith_def)

lemma startswith_iff: "startswith s p \<longleftrightarrow> (\<exists>t. s = p @ t)"
  by (auto simp: startswith_def) (metis append_take_drop_id)

lemma endswith_append [simp, pystr]: "endswith (s @ p) p"
  by (simp add: endswith_def)

lemma endswith_iff: "endswith s p \<longleftrightarrow> (\<exists>t. s = t @ p)"
  by (auto simp: endswith_def) (metis append_take_drop_id)

lemma contains_iff: "contains s p \<longleftrightarrow> (\<exists>u v. s = u @ p @ v)"
proof (induction s)
  case Nil
  then show ?case by auto
next
  case (Cons c s)
  show ?case
  proof
    assume "contains (c # s) p"
    then consider "startswith (c # s) p" | "contains s p" by auto
    then show "\<exists>u v. c # s = u @ p @ v"
    proof cases
      case 1
      then show ?thesis by (metis startswith_iff append_Nil)
    next
      case 2
      then show ?thesis using Cons.IH by (metis append_Cons)
    qed
  next
    assume "\<exists>u v. c # s = u @ p @ v"
    then obtain u v where uv: "c # s = u @ p @ v" by blast
    show "contains (c # s) p"
    proof (cases u)
      case Nil
      then have "startswith (c # s) p" using uv by simp
      then show ?thesis by simp
    next
      case (Cons a u')
      then show ?thesis using uv Cons.IH by auto
    qed
  qed
qed

lemma strip_id:
  assumes "\<forall>c \<in> set s. \<not> is_space c"
  shows "strip s = s"
proof (cases s rule: rev_cases)
  case Nil
  then show ?thesis by (simp add: strip_def lstrip_def rstrip_def)
next
  case (snoc t c)
  have "lstrip s = s"
    using assms by (cases s) (auto simp: lstrip_def)
  moreover have "rstrip s = s"
    using assms snoc by (simp add: rstrip_def)
  ultimately show ?thesis by (simp add: strip_def)
qed

lemma strip_ends:
  assumes "s \<noteq> []" "\<not> is_space (hd s)" "\<not> is_space (last s)"
  shows "strip s = s"
proof -
  have "lstrip s = s" using assms(1,2) by (cases s) (auto simp: lstrip_def)
  moreover have "rstrip s = s"
    using assms(1,3) by (cases s rule: rev_cases) (auto simp: rstrip_def)
  ultimately show ?thesis by (simp add: strip_def)
qed

lemma strip_append_nl:
  assumes "y \<noteq> []" "\<not> is_space (hd y)" "\<not> is_space (last y)"
  shows "strip (y @ [CHR 0x0A]) = y"
proof -
  have sp: "is_space (CHR 0x0A)" by (simp add: is_space_def cp_def)
  have "lstrip (y @ [CHR 0x0A]) = y @ [CHR 0x0A]" using assms(1,2) by (cases y) (auto simp: lstrip_def)
  moreover have "rstrip (y @ [CHR 0x0A]) = y"
    using assms(1,3) sp by (cases y rule: rev_cases) (auto simp: rstrip_def)
  ultimately show ?thesis by (simp add: strip_def)
qed

lemma lower_idem [simp, pystr]: "lower (lower s) = lower s"
  by (simp add: lower_def lower_char_idem)

lemma length_lower [simp, pystr]: "length (lower s) = length s"
  by (simp add: lower_def)

lemma lower_append [pystr]: "lower (s @ t) = lower s @ lower t"
  by (simp add: lower_def)

lemma rsplit1_append:
  "c \<notin> set t \<Longrightarrow> rsplit1 c (s @ c # t) = (s, t)"
  by (simp add: rsplit1_def takeWhile_append dropWhile_append)

lemma split1_append: "c \<notin> set s \<Longrightarrow> split1 c (s @ c # t) = (s, t)"
  by (simp add: split1_def takeWhile_append dropWhile_append)

lemma rsplit1_join:
  assumes "c \<in> set s"
  shows "fst (rsplit1 c s) @ c # snd (rsplit1 c s) = s"
proof -
  obtain u v where "s = u @ c # v" "c \<notin> set v"
    using split_list_last [OF assms] by blast
  then show ?thesis by (simp add: rsplit1_append)
qed

lemma rsplit1_snd_notin: "c \<notin> set (snd (rsplit1 c s))"
  by (auto simp: rsplit1_def dest: set_takeWhileD)

lemma split_on_notin: "c \<notin> set s \<Longrightarrow> split_on c s = [s]"
  by (induction s) auto

lemma split_on_nonempty [simp]: "split_on c s \<noteq> []"
  by (induction s) (auto split: list.splits)

lemma split_on_append: "c \<notin> set s \<Longrightarrow> split_on c (s @ c # t) = s # split_on c t"
  by (induction s) (auto split: list.splits)

lemma split_on_pieces: "p \<in> set (split_on c s) \<Longrightarrow> c \<notin> set p"
proof (induction s arbitrary: p)
  case Nil
  then show ?case by simp
next
  case (Cons x s)
  then show ?case by (cases "split_on c s") (auto split: if_splits)
qed

lemma dashed_alnum_chars:
  "dashed_alnum s \<Longrightarrow> c \<in> set s \<Longrightarrow> is_alnum_char c \<or> c = CHR ''-'' \<or> c = CHR ''_''"
  by (auto simp: dashed_alnum_def isalnum_def remove_char_def)

lemma dashed_alnum_no_dot: "dashed_alnum s \<Longrightarrow> CHR ''.'' \<notin> set s"
  by (auto dest!: dashed_alnum_chars simp: is_alnum_char_def is_dec_def cp_def)

lemma dashed_alnum_no_at: "dashed_alnum s \<Longrightarrow> CHR ''@'' \<notin> set s"
  by (auto dest!: dashed_alnum_chars simp: is_alnum_char_def is_dec_def cp_def)

lemma dashed_alnum_no_slash: "dashed_alnum s \<Longrightarrow> CHR ''/'' \<notin> set s"
  by (auto dest!: dashed_alnum_chars simp: is_alnum_char_def is_dec_def cp_def)

lemma dashed_alnum_no_space: "dashed_alnum s \<Longrightarrow> c \<in> set s \<Longrightarrow> \<not> is_space c"
  by (auto dest!: dashed_alnum_chars simp: alnum_not_space) (auto simp: is_space_def cp_def)

lemma dashed_alnum_lower: "dashed_alnum (lower s) \<longleftrightarrow> dashed_alnum s"
proof -
  have d: "lower_char x = CHR ''-'' \<longleftrightarrow> x = CHR ''-''" for x
    by (auto simp: lower_char_def cp_inject [symmetric]) (simp_all add: cp_def)
  have u: "lower_char x = CHR ''_'' \<longleftrightarrow> x = CHR ''_''" for x
    by (auto simp: lower_char_def cp_inject [symmetric]) (simp_all add: cp_def)
  show ?thesis
    by (auto simp: dashed_alnum_def isalnum_def remove_char_def lower_def filter_map o_def d u
        is_alnum_lower)
qed

section \<open>Decimal integers\<close>

definition digit_char :: "nat \<Rightarrow> char" where
  "digit_char d = char_of (48 + d)"

fun show_nat :: "nat \<Rightarrow> string" where
  "show_nat n = (if n < 10 then [digit_char n] else show_nat (n div 10) @ [digit_char (n mod 10)])"

declare show_nat.simps [simp del]

definition show_int :: "int \<Rightarrow> string" where
  "show_int i = (if i < 0 then CHR ''-'' # show_nat (nat (- i)) else show_nat (nat i))"

definition dec_val :: "char \<Rightarrow> int" where
  "dec_val c = int (cp c) - 48"

text \<open>
  \<^verbatim>\<open>int(s)\<close> in base 10: an optional sign, then digits, with single underscores allowed between
  digits. \<^verbatim>\<open>read_digits\<close> runs after at least one digit has been read. The interpreter's
  configurable limit on the number of digits is not part of the model.
\<close>

fun read_digits :: "int \<Rightarrow> string \<Rightarrow> int option" where
  "read_digits n [] = Some n"
| "read_digits n (c # cs) =
     (if is_dec c then read_digits (10 * n + dec_val c) cs
      else if c = CHR ''_'' then
        (case cs of
           d # ds \<Rightarrow> if is_dec d then read_digits (10 * n + dec_val d) ds else None
         | [] \<Rightarrow> None)
      else None)"

definition read_unsigned :: "string \<Rightarrow> int option" where
  "read_unsigned s =
     (case s of [] \<Rightarrow> None | c # cs \<Rightarrow> if is_dec c then read_digits (dec_val c) cs else None)"

definition read_signed :: "string \<Rightarrow> int option" where
  "read_signed s =
     (case s of
        [] \<Rightarrow> None
      | c # cs \<Rightarrow>
          if c = CHR ''-'' then map_option uminus (read_unsigned cs)
          else if c = CHR ''+'' then read_unsigned cs
          else read_unsigned s)"

definition py_int :: "string \<Rightarrow> int option" where
  "py_int s = read_signed (strip s)"

lemma is_dec_digit_char [simp]: "d < 10 \<Longrightarrow> is_dec (digit_char d)"
  by (simp add: is_dec_def digit_char_def)

lemma dec_val_digit_char [simp]: "d < 10 \<Longrightarrow> dec_val (digit_char d) = int d"
  by (simp add: dec_val_def digit_char_def)

lemma show_nat_digits: "c \<in> set (show_nat n) \<Longrightarrow> is_dec c"
proof (induction n arbitrary: c rule: show_nat.induct)
  case (1 n)
  then show ?case by (subst (asm) show_nat.simps) (auto split: if_splits)
qed

lemma show_nat_nonempty [simp]: "show_nat n \<noteq> []"
  by (subst show_nat.simps) simp

lemma read_digits_append:
  "(\<And>c. c \<in> set s \<Longrightarrow> is_dec c) \<Longrightarrow>
   read_digits n (s @ t) = read_digits (foldl (\<lambda>n c. 10 * n + dec_val c) n s) t"
  by (induction s arbitrary: n) auto

lemma foldl_show_nat:
  "foldl (\<lambda>n c. 10 * n + dec_val c) 0 (show_nat n) = int n"
proof (induction n rule: show_nat.induct)
  case (1 n)
  show ?case
  proof (cases "n < 10")
    case True
    then show ?thesis by (subst show_nat.simps) simp
  next
    case False
    then have "foldl (\<lambda>n c. 10 * n + dec_val c) 0 (show_nat n) = 10 * int (n div 10) + int (n mod 10)"
      using 1 by (subst show_nat.simps) simp
    then show ?thesis by presburger
  qed
qed

lemma read_unsigned_digits:
  assumes "s \<noteq> []" "\<And>c. c \<in> set s \<Longrightarrow> is_dec c"
  shows "read_unsigned s = Some (foldl (\<lambda>n c. 10 * n + dec_val c) 0 s)"
proof -
  obtain c cs where s: "s = c # cs" using assms(1) by (cases s) auto
  have "read_digits (dec_val c) (cs @ []) = read_digits (foldl (\<lambda>n c. 10 * n + dec_val c) (dec_val c) cs) []"
    by (rule read_digits_append) (use assms(2) s in auto)
  then show ?thesis using assms(2) s by (simp add: read_unsigned_def)
qed

lemma is_dec_not_sign: "is_dec c \<Longrightarrow> c \<noteq> CHR ''-'' \<and> c \<noteq> CHR ''+'' \<and> \<not> is_space c"
  by (auto simp: is_dec_def is_space_def cp_def)

lemma read_signed_show_int: "read_signed (show_int i) = Some i"
proof (cases "i < 0")
  case True
  then show ?thesis
    by (simp add: show_int_def read_signed_def read_unsigned_digits show_nat_digits foldl_show_nat)
next
  case False
  obtain c cs where s: "show_nat (nat i) = c # cs" by (cases "show_nat (nat i)") auto
  then have "is_dec c" using show_nat_digits [of c "nat i"] by simp
  then have "read_signed (show_int i) = read_unsigned (show_nat (nat i))"
    using False s by (simp add: show_int_def read_signed_def is_dec_not_sign)
  then show ?thesis
    using False by (simp add: read_unsigned_digits show_nat_digits foldl_show_nat)
qed

lemma show_int_chars: "c \<in> set (show_int i) \<Longrightarrow> is_dec c \<or> c = CHR ''-''"
  by (auto simp: show_int_def split: if_splits dest: show_nat_digits)

lemma py_int_show_int [simp]: "py_int (show_int i) = Some i"
proof -
  have "\<forall>c \<in> set (show_int i). \<not> is_space c"
    by (auto dest!: show_int_chars simp: is_dec_not_sign) (simp add: is_space_def cp_def)
  then show ?thesis by (simp add: py_int_def strip_id read_signed_show_int)
qed

text \<open>A parsed integer is negative only if the text holds a minus sign.\<close>

lemma read_digits_nonneg: "read_digits n s = Some m \<Longrightarrow> 0 \<le> n \<Longrightarrow> 0 \<le> m"
  by (induction n s rule: read_digits.induct)
    (auto simp: is_dec_def dec_val_def split: if_splits list.splits)

lemma read_unsigned_nonneg: "read_unsigned s = Some m \<Longrightarrow> 0 \<le> m"
  by (auto simp: read_unsigned_def is_dec_def dec_val_def split: list.splits if_splits
      elim!: read_digits_nonneg)

lemma read_signed_nonneg: "read_signed s = Some m \<Longrightarrow> CHR ''-'' \<notin> set s \<Longrightarrow> 0 \<le> m"
  by (auto simp: read_signed_def split: list.splits if_splits dest: read_unsigned_nonneg)

text \<open>
  \<^verbatim>\<open>str.upper\<close> on Latin-1; the two letters whose upper case is outside of it stay as they are.
\<close>

definition latin_upper :: "char \<Rightarrow> string" where
  "latin_upper c =
     (if (97 \<le> cp c \<and> cp c \<le> 122) \<or> (224 \<le> cp c \<and> cp c \<le> 254 \<and> cp c \<noteq> 247) then [char_of (cp c - 32)]
      else if cp c = 223 then ''SS'' else [c])"

definition py_upper :: "string \<Rightarrow> string" where
  "py_upper s = concat (map latin_upper s)"

end
