(* ===== verification/Py_Bytes.thy ===== *)
theory Py_Bytes
  imports Py_Text "HOL-Library.Word" "HOL-Library.List_Lexorder"
begin

text \<open>
  Python \<^verbatim>\<open>bytes\<close>: lists of 8-bit words, compared lexicographically; slices and \<^verbatim>\<open>index\<close> with
  Python's treatment of negative and out-of-range positions; UTF-8 for the modelled range of
  strings; the big-endian \<^verbatim>\<open>struct\<close> formats; hexadecimal text.
\<close>

unbundle bit_operations_syntax

type_synonym byte = "8 word"
type_synonym bytes = "byte list"

definition byte_of :: "char \<Rightarrow> byte" where
  "byte_of c = word_of_nat (cp c)"

definition char_of_byte :: "byte \<Rightarrow> char" where
  "char_of_byte b = char_of (unat b)"

text \<open>A bytes literal \<^verbatim>\<open>b"..."\<close>.\<close>

definition lit :: "string \<Rightarrow> bytes" where
  "lit s = map byte_of s"

lemma unat_byte_of [simp]: "unat (byte_of c) = cp c"
  by (simp add: byte_of_def unat_of_nat)

lemma char_of_byte_of [simp]: "char_of_byte (byte_of c) = c"
  by (simp add: char_of_byte_def)

lemma byte_of_inject [simp]: "byte_of c = byte_of d \<longleftrightarrow> c = d"
  by (metis char_of_byte_of)

lemma unat_byte_less [simp]: "unat (b :: byte) < 256"
  using unsigned_less [of b, where ?'a = nat] by simp

lemma byte_of_char_of_byte [simp]: "byte_of (char_of_byte b) = b"
  by (simp add: byte_of_def char_of_byte_def)

lemma lit_simps [simp]: "lit [] = []" "lit (c # s) = byte_of c # lit s" "lit (s @ t) = lit s @ lit t"
  by (simp_all add: lit_def)

lemma length_lit [simp]: "length (lit s) = length s"
  by (simp add: lit_def)

lemma lit_inject [simp]: "lit s = lit t \<longleftrightarrow> s = t"
  unfolding lit_def by (rule inj_map_eq_map) (simp add: inj_def)

section \<open>Slices and search\<close>

definition clamp_index :: "nat \<Rightarrow> int \<Rightarrow> nat" where
  "clamp_index n i = (if i < 0 then nat (i + int n) else min (nat i) n)"

definition pslice :: "'a list \<Rightarrow> int \<Rightarrow> int \<Rightarrow> 'a list" where
  "pslice xs i j =
     (let a = clamp_index (length xs) i; b = clamp_index (length xs) j in take (b - a) (drop a xs))"

text \<open>\<^verbatim>\<open>data.index(x, start)\<close> for a one-element \<^verbatim>\<open>x\<close>; \<^const>\<open>None\<close> is the \<^verbatim>\<open>ValueError\<close>.\<close>

definition pindex :: "'a list \<Rightarrow> 'a \<Rightarrow> int \<Rightarrow> int option" where
  "pindex xs x start =
     (let a = (if start < 0 then nat (start + int (length xs)) else nat start); ys = drop a xs
      in if x \<in> set ys then Some (int (a + length (takeWhile (\<lambda>y. y \<noteq> x) ys))) else None)"

lemma clamp_index_nat [simp]: "clamp_index n (int k) = min k n"
  by (simp add: clamp_index_def)

lemma pslice_nat: "pslice xs (int i) (int j) = take (j - i) (drop i xs)"
proof (cases "i \<le> length xs")
  case True
  then show ?thesis by (cases "j \<le> length xs") (simp_all add: pslice_def Let_def)
next
  case False
  then show ?thesis by (simp add: pslice_def Let_def)
qed

lemma pslice_middle:
  "pslice (pre @ mid @ post) (int (length pre)) (int (length pre) + int (length mid)) = mid"
  using pslice_nat [of "pre @ mid @ post" "length pre" "length pre + length mid"] by simp

lemma pslice_one: "pslice (pre @ x # post) (int (length pre)) (int (length pre) + 1) = [x]"
  using pslice_middle [of pre "[x]" post] by simp

lemma pslice_past_end: "length xs \<le> nat i \<Longrightarrow> 0 \<le> i \<Longrightarrow> pslice xs i j = []"
  by (simp add: pslice_def Let_def clamp_index_def)

lemma pindex_middle:
  "x \<notin> set mid \<Longrightarrow>
   pindex (pre @ mid @ x # post) x (int (length pre)) = Some (int (length pre) + int (length mid))"
  by (simp add: pindex_def Let_def takeWhile_append)

lemma pindex_bounds:
  assumes "pindex xs x i = Some j" "0 \<le> i"
  shows "i \<le> j \<and> j < int (length xs)"
proof -
  let ?ys = "drop (nat i) xs"
  have x: "x \<in> set ?ys" and j: "j = int (nat i + length (takeWhile (\<lambda>y. y \<noteq> x) ?ys))"
    using assms by (auto simp: pindex_def Let_def split: if_splits)
  obtain u v where "?ys = u @ x # v" "x \<notin> set u"
    using split_list_first [OF x] by blast
  then have "length (takeWhile (\<lambda>y. y \<noteq> x) ?ys) < length ?ys"
    by (simp add: takeWhile_append)
  then show ?thesis using j assms(2) by auto
qed

lemma set_pslice_subset: "set (pslice xs i j) \<subseteq> set xs"
  unfolding pslice_def Let_def by (meson in_set_dropD in_set_takeD subsetI)

section \<open>UTF-8 and decimal text\<close>

definition utf8_char :: "char \<Rightarrow> bytes" where
  "utf8_char c =
     (if cp c < 128 then [byte_of c]
      else [word_of_nat (192 + cp c div 64), word_of_nat (128 + cp c mod 64)])"

definition encode_utf8 :: "string \<Rightarrow> bytes" where
  "encode_utf8 s = concat (map utf8_char s)"

text \<open>
  \<^verbatim>\<open>decode("utf-8")\<close>. A sequence that decodes to a code point above 255 is valid UTF-8 but has
  no counterpart in the modelled strings; it is rejected like an invalid one.
\<close>

fun decode_utf8 :: "bytes \<Rightarrow> string option" where
  "decode_utf8 [] = Some []"
| "decode_utf8 (b # bs) =
     (if unat b < 128 then map_option ((#) (char_of_byte b)) (decode_utf8 bs)
      else (case bs of
              [] \<Rightarrow> None
            | b2 # bs' \<Rightarrow>
                if (unat b = 194 \<or> unat b = 195) \<and> 128 \<le> unat b2 \<and> unat b2 < 192
                then map_option ((#) (char_of ((unat b - 192) * 64 + (unat b2 - 128)))) (decode_utf8 bs')
                else None))"

lemma encode_utf8_append [simp]: "encode_utf8 (s @ t) = encode_utf8 s @ encode_utf8 t"
  by (simp add: encode_utf8_def)

lemma encode_utf8_ascii: "(\<And>c. c \<in> set s \<Longrightarrow> cp c < 128) \<Longrightarrow> encode_utf8 s = lit s"
  by (induction s) (simp_all add: encode_utf8_def utf8_char_def)

lemma decode_utf8_char: "decode_utf8 (utf8_char c @ bs) = map_option ((#) c) (decode_utf8 bs)"
proof (cases "cp c < 128")
  case True
  then show ?thesis by (simp add: utf8_char_def)
next
  case False
  let ?q = "cp c div 64" and ?r = "cp c mod 64"
  have n: "cp c < 256" by simp
  have "?q < 4" using n by (simp add: div_less_iff_less_mult)
  moreover have "2 \<le> ?q" using False by (simp add: less_eq_div_iff_mult_less_eq)
  ultimately have q: "?q = 2 \<or> ?q = 3" by linarith
  have r: "?r < 64" by simp
  define b1 b2 :: byte where b: "b1 = word_of_nat (192 + ?q)" "b2 = word_of_nat (128 + ?r)"
  have u1: "unat b1 = 192 + ?q" unfolding b using q by (auto simp: unat_of_nat)
  have u2: "unat b2 = 128 + ?r" unfolding b using r by (subst unat_of_nat) simp
  have enc: "utf8_char c = [b1, b2]" using False b by (simp add: utf8_char_def)
  have "(192 + ?q - 192) * 64 + (128 + ?r - 128) = cp c" by simp
  moreover have "unat b1 = 194 \<or> unat b1 = 195" using q u1 by auto
  ultimately show ?thesis using r by (auto simp add: enc u1 u2)
qed

lemma decode_encode_utf8 [simp]: "decode_utf8 (encode_utf8 s) = Some s"
  by (induction s) (simp_all add: encode_utf8_def decode_utf8_char)

lemma encode_utf8_inject [simp]: "encode_utf8 s = encode_utf8 t \<longleftrightarrow> s = t"
  by (metis decode_encode_utf8 option.inject)

text \<open>\<^verbatim>\<open>int(b"...")\<close>: ASCII white space only.\<close>

definition is_bspace :: "char \<Rightarrow> bool" where
  "is_bspace c \<longleftrightarrow> (9 \<le> cp c \<and> cp c \<le> 13) \<or> cp c = 32"

definition py_int_bytes :: "bytes \<Rightarrow> int option" where
  "py_int_bytes bs =
     read_signed (rev (dropWhile is_bspace (rev (dropWhile is_bspace (map char_of_byte bs)))))"

lemma show_int_ascii: "c \<in> set (show_int i) \<Longrightarrow> cp c < 128"
  by (auto dest!: show_int_chars simp: is_dec_def) (simp add: cp_def)

lemma map_char_of_byte_lit [simp]: "map char_of_byte (lit s) = s"
  by (induction s) simp_all

lemma show_int_not_bspace: "c \<in> set (show_int i) \<Longrightarrow> \<not> is_bspace c"
  by (auto dest!: show_int_chars simp: is_dec_def is_bspace_def cp_def)

lemma dropWhile_none: "(\<And>c. c \<in> set s \<Longrightarrow> \<not> P c) \<Longrightarrow> dropWhile P s = s"
  by (cases s) auto

lemma py_int_bytes_show_int [simp]: "py_int_bytes (lit (show_int i)) = Some i"
proof -
  have "dropWhile is_bspace (show_int i) = show_int i"
    by (rule dropWhile_none) (rule show_int_not_bspace)
  moreover have "dropWhile is_bspace (rev (show_int i)) = rev (show_int i)"
    by (rule dropWhile_none) (simp add: show_int_not_bspace)
  ultimately show ?thesis by (simp add: py_int_bytes_def read_signed_show_int)
qed

lemma py_int_bytes_nonneg:
  assumes "py_int_bytes bs = Some n" "byte_of CHR ''-'' \<notin> set bs"
  shows "0 \<le> n"
proof -
  have "CHR ''-'' \<notin> set (map char_of_byte bs)"
  proof
    assume "CHR ''-'' \<in> set (map char_of_byte bs)"
    then obtain b where "b \<in> set bs" "CHR ''-'' = char_of_byte b" by auto
    then have "byte_of CHR ''-'' \<in> set bs" by (simp only: byte_of_char_of_byte)
    then show False using assms(2) by contradiction
  qed
  then have "CHR ''-'' \<notin> set (rev (dropWhile is_bspace (rev (dropWhile is_bspace (map char_of_byte bs)))))"
    by (metis set_dropWhileD set_rev)
  then show ?thesis
    using assms(1) read_signed_nonneg unfolding py_int_bytes_def by blast
qed

section \<open>struct formats\<close>

text \<open>\<^verbatim>\<open>struct.pack("!H", n)\<close> raises when \<^verbatim>\<open>n\<close> does not fit.\<close>

definition pack_be :: "nat \<Rightarrow> nat \<Rightarrow> bytes" where
  "pack_be k n = map (\<lambda>i. word_of_nat (n div 256 ^ i mod 256)) (rev [0..<k])"

definition unpack_be :: "bytes \<Rightarrow> nat" where
  "unpack_be bs = foldl (\<lambda>n b. n * 256 + unat b) 0 bs"

definition pack_uint :: "nat \<Rightarrow> int \<Rightarrow> bytes result" where
  "pack_uint k n = (if 0 \<le> n \<and> n < 256 ^ k then Inr (pack_be k (nat n)) else Inl StructError)"

lemma length_pack_be [simp]: "length (pack_be k n) = k"
  by (simp add: pack_be_def)

lemma pack_be_Suc: "pack_be (Suc k) n = word_of_nat (n div 256 ^ k mod 256) # pack_be k n"
  by (simp add: pack_be_def)

lemma unat_byte_word_of_nat [simp]: "unat (word_of_nat (n mod 256) :: byte) = n mod 256"
  by (simp add: unat_of_nat)

lemma unpack_be_Nil [simp]: "unpack_be [] = 0"
  by (simp add: unpack_be_def)

lemma unpack_be_snoc: "unpack_be (bs @ [b]) = unpack_be bs * 256 + unat b"
  by (simp add: unpack_be_def)

lemma unpack_be_append: "unpack_be (as @ bs) = unpack_be as * 256 ^ length bs + unpack_be bs"
proof (induction bs rule: rev_induct)
  case Nil
  then show ?case by simp
next
  case (snoc b bs)
  then show ?case
    unfolding append_assoc [symmetric] unpack_be_snoc by (simp add: algebra_simps)
qed

lemma unpack_be_Cons: "unpack_be (b # bs) = unat b * 256 ^ length bs + unpack_be bs"
  using unpack_be_append [of "[b]" bs] by (simp add: unpack_be_def)

lemma unpack_pack_be: "unpack_be (pack_be k n) = n mod 256 ^ k"
proof (induction k)
  case 0
  then show ?case by (simp add: pack_be_def)
next
  case (Suc k)
  have "unpack_be (pack_be (Suc k) n) = (n div 256 ^ k mod 256) * 256 ^ k + n mod 256 ^ k"
    by (simp add: pack_be_Suc unpack_be_Cons Suc)
  also have "\<dots> = n mod 256 ^ Suc k"
    using mod_mult2_eq [of n "256 ^ k" 256] by (simp add: mult.commute)
  finally show ?case .
qed

lemma unpack_pack_be_small [simp]: "n < 256 ^ k \<Longrightarrow> unpack_be (pack_be k n) = n"
  by (simp add: unpack_pack_be)

lemma unpack_be_less: "unpack_be bs < 256 ^ length bs"
proof (induction bs rule: rev_induct)
  case Nil
  then show ?case by simp
next
  case (snoc b bs)
  have "unpack_be bs * 256 + unat b < 256 * 256 ^ length bs"
    using snoc unat_byte_less [of b] by linarith
  then show ?case by (simp add: unpack_be_snoc)
qed

lemma pack_be_mod: "pack_be k (n mod 256 ^ k) = pack_be k n"
proof (rule nth_equalityI)
  show "length (pack_be k (n mod 256 ^ k)) = length (pack_be k n)" by simp
next
  fix i assume "i < length (pack_be k (n mod 256 ^ k))"
  then have "i < k" by simp
  define j where "j = k - Suc i"
  have j: "k = j + Suc i" using \<open>i < k\<close> by (simp add: j_def)
  have "(n mod 256 ^ k) div 256 ^ j mod 256 = n div 256 ^ j mod 256"
  proof -
    have "n mod 256 ^ k = 256 ^ j * (n div 256 ^ j mod 256 ^ Suc i) + n mod 256 ^ j"
      using mod_mult2_eq [of n "256 ^ j" "256 ^ Suc i"] by (simp only: j power_add)
    then have "(n mod 256 ^ k) div 256 ^ j = n div 256 ^ j mod 256 ^ Suc i"
      by simp
    then show ?thesis by (simp add: mod_mult_self1_is_0 mod_mod_cancel)
  qed
  then show "pack_be k (n mod 256 ^ k) ! i = pack_be k n ! i"
    using \<open>i < k\<close> by (simp add: pack_be_def rev_nth j_def)
qed

lemma pack_unpack_be: "length bs = k \<Longrightarrow> pack_be k (unpack_be bs) = bs"
proof (induction bs arbitrary: k)
  case Nil
  then show ?case by (simp add: pack_be_def)
next
  case (Cons b bs)
  let ?k = "length bs"
  have "unpack_be (b # bs) mod 256 ^ ?k = unpack_be bs"
    using unpack_be_less [of bs] by (simp add: unpack_be_Cons)
  then have tl: "pack_be ?k (unpack_be (b # bs)) = pack_be ?k (unpack_be bs)"
    using pack_be_mod by metis
  have "unpack_be (b # bs) div 256 ^ ?k = unat b"
    using unpack_be_less [of bs] by (simp add: unpack_be_Cons)
  then show ?case using Cons tl by (auto simp: pack_be_Suc)
qed

section \<open>Exclusive or of byte strings\<close>

lemma xor_le_plus: "0 \<le> x \<Longrightarrow> 0 \<le> y \<Longrightarrow> (x::int) XOR y \<le> x + y"
proof -
  assume "0 \<le> x" "0 \<le> y"
  have "((x XOR y) AND (x AND y)) + ((x XOR y) OR (x AND y)) = (x XOR y) + (x AND y)"
    by (rule plus_and_or)
  moreover have "(x XOR y) AND (x AND y) = 0" by (rule bit_eqI) (auto simp: bit_simps)
  moreover have "(x XOR y) OR (x AND y) = x OR y" by (rule bit_eqI) (auto simp: bit_simps)
  moreover have "(x AND y) + (x OR y) = x + y" by (rule plus_and_or)
  moreover have "0 \<le> x AND y" using \<open>0 \<le> x\<close> by simp
  ultimately show ?thesis by linarith
qed

lemma xor_le_plus_nat: "(x::nat) XOR y \<le> x + y"
  using xor_le_plus [of "int x" "int y"] by (simp add: of_nat_xor_eq [symmetric] flip: of_nat_add)

lemma unpack_be_snoc_or: "unpack_be (xs @ [x]) = push_bit 8 (unpack_be xs) OR unat x"
proof -
  have "push_bit 8 (unpack_be xs) AND unat x = 0"
    by (rule bit_eqI) (auto simp: bit_simps dest: bit_imp_le_length)
  then have "push_bit 8 (unpack_be xs) + unat x = push_bit 8 (unpack_be xs) OR unat x"
    by (rule disjunctive_add_eq_or)
  then show ?thesis by (simp add: unpack_be_snoc push_bit_eq_mult)
qed

lemma xor_blocks:
  "(push_bit 8 a OR unat (x :: byte)) XOR (push_bit 8 b OR unat y)
     = push_bit 8 (a XOR b) OR unat (x XOR y)"
  by (rule bit_eqI) (auto simp: bit_simps dest: bit_imp_le_length)

lemma unpack_be_xor:
  "length a = length b \<Longrightarrow> unpack_be (map2 (XOR) a b) = unpack_be a XOR unpack_be b"
proof (induction a b rule: rev_induct2)
  case (4 x xs y ys)
  then show ?case by (simp add: unpack_be_snoc_or xor_blocks)
qed auto

lemma uint_xor_byte: "uint (x :: byte) XOR uint y = uint (x XOR y)"
  by (simp add: unsigned_xor_eq)

end
