(* ===== verification/Py_Base.thy ===== *)
theory Py_Base
  imports Py_Bytes
begin

text \<open>
  The \<^verbatim>\<open>base64\<close> module: \<^verbatim>\<open>b32encode\<close>, \<^verbatim>\<open>b32decode\<close>, \<^verbatim>\<open>b64encode\<close> and the lenient
  \<^verbatim>\<open>b64decode\<close>, with their round trips. Base 32 is described on the bits of the data, base 64
  decoding as the character loop of \<^verbatim>\<open>binascii.a2b_base64\<close>.
\<close>

section \<open>Bits and groups\<close>

definition nat_bits :: "nat \<Rightarrow> nat \<Rightarrow> bool list" where
  "nat_bits k n = map (\<lambda>i. odd (n div 2 ^ (k - 1 - i))) [0..<k]"

definition bits_nat :: "bool list \<Rightarrow> nat" where
  "bits_nat bs = foldl (\<lambda>a b. 2 * a + of_bool b) 0 bs"

function groups :: "nat \<Rightarrow> 'a list \<Rightarrow> 'a list list" where
  "groups k xs = (if k = 0 \<or> xs = [] then [] else take k xs # groups k (drop k xs))"
  by pat_completeness auto
termination by (relation "measure (\<lambda>(k, xs). length xs)") auto

declare groups.simps [simp del]

lemma length_nat_bits [simp]: "length (nat_bits k n) = k"
  by (simp add: nat_bits_def)

lemma bits_nat_snoc [simp]: "bits_nat (bs @ [b]) = 2 * bits_nat bs + of_bool b"
  by (simp add: bits_nat_def)

lemma bits_nat_Nil [simp]: "bits_nat [] = 0"
  by (simp add: bits_nat_def)

lemma nat_bits_Suc: "nat_bits (Suc k) n = nat_bits k (n div 2) @ [odd n]"
proof -
  have "map (\<lambda>i. odd (n div 2 ^ (k - i))) [0..<k] = map (\<lambda>i. odd (n div 2 div 2 ^ (k - 1 - i))) [0..<k]"
  proof (rule map_cong [OF refl])
    fix i assume "i \<in> set [0..<k]"
    then have "k - i = Suc (k - 1 - i)" by auto
    then show "odd (n div 2 ^ (k - i)) = odd (n div 2 div 2 ^ (k - 1 - i))"
      by (simp add: div_mult2_eq)
  qed
  then show ?thesis by (simp add: nat_bits_def)
qed

lemma bits_nat_bits: "n < 2 ^ k \<Longrightarrow> bits_nat (nat_bits k n) = n"
proof (induction k arbitrary: n)
  case (Suc k)
  then have "n div 2 < 2 ^ k" by auto
  then have "bits_nat (nat_bits (Suc k) n) = 2 * (n div 2) + of_bool (odd n)"
    using Suc.IH [of "n div 2"] by (simp add: nat_bits_Suc)
  also have "\<dots> = n" by (cases "odd n") (auto elim!: oddE evenE)
  finally show ?case .
qed (simp add: nat_bits_def)

lemma nat_bits_bits_nat: "nat_bits (length bs) (bits_nat bs) = bs"
proof (induction bs rule: rev_induct)
  case (snoc b bs)
  then show ?case by (cases b) (simp_all add: nat_bits_Suc)
qed (simp add: nat_bits_def)

lemma bits_nat_less: "bits_nat bs < 2 ^ length bs"
  by (induction bs rule: rev_induct) (auto simp: of_bool_def)

lemma concat_groups: "0 < k \<Longrightarrow> concat (groups k xs) = xs"
  by (induction k xs rule: groups.induct) (subst groups.simps, auto)

lemma groups_length:
  "k dvd length xs \<Longrightarrow> g \<in> set (groups k xs) \<Longrightarrow> length g = k"
proof (induction k xs rule: groups.induct)
  case (1 k xs)
  show ?case
  proof (cases "k = 0 \<or> xs = []")
    case False
    then have "k \<le> length xs" using 1(2) by (auto dest: dvd_imp_le)
    moreover have "groups k xs = take k xs # groups k (drop k xs)" using False by (subst groups.simps) simp
    ultimately show ?thesis using 1 False by (auto simp: dvd_diff_nat)
  qed (use 1(3) in \<open>simp add: groups.simps\<close>)
qed

lemma groups_count:
  "0 < k \<Longrightarrow> k dvd length xs \<Longrightarrow> length (groups k xs) = length xs div k"
proof (induction k xs rule: groups.induct)
  case (1 k xs)
  show ?case
  proof (cases "xs = []")
    case False
    then have "k \<le> length xs" using 1 by (auto dest: dvd_imp_le)
    moreover have "groups k xs = take k xs # groups k (drop k xs)"
      using False 1(2) by (subst groups.simps) simp
    ultimately show ?thesis using 1 False by (simp add: dvd_diff_nat le_div_geq)
  qed (simp add: groups.simps)
qed

lemma groups_concat:
  "0 < k \<Longrightarrow> (\<And>g. g \<in> set gs \<Longrightarrow> length g = k) \<Longrightarrow> groups k (concat gs) = gs"
proof (induction gs)
  case (Cons g gs)
  then have "g \<noteq> []" by auto
  then show ?case using Cons by (subst groups.simps) auto
qed (simp add: groups.simps)

definition byte_bits :: "bytes \<Rightarrow> bool list" where
  "byte_bits bs = concat (map (\<lambda>b. nat_bits 8 (unat b)) bs)"

definition bits_bytes :: "bool list \<Rightarrow> bytes" where
  "bits_bytes bs = map (\<lambda>g. word_of_nat (bits_nat g)) (groups 8 bs)"

lemma length_byte_bits [simp]: "length (byte_bits bs) = 8 * length bs"
  by (induction bs) (simp_all add: byte_bits_def)

lemma bits_bytes_byte_bits [simp]: "bits_bytes (byte_bits bs) = bs"
proof -
  have "groups 8 (byte_bits bs) = map (\<lambda>b. nat_bits 8 (unat b)) bs"
    unfolding byte_bits_def by (rule groups_concat) auto
  moreover have "word_of_nat (bits_nat (nat_bits 8 (unat b))) = b" for b :: byte
    by (subst bits_nat_bits) simp_all
  ultimately show ?thesis by (simp add: bits_bytes_def o_def)
qed

section \<open>Base 32\<close>

definition b32_alphabet :: string where
  "b32_alphabet = ''ABCDEFGHIJKLMNOPQRSTUVWXYZ234567''"

text \<open>\<^verbatim>\<open>base64.b32encode\<close>: five bits per character, padded with \<^verbatim>\<open>=\<close> to a multiple of eight.\<close>

definition b32_digits :: "bytes \<Rightarrow> nat list" where
  "b32_digits bs =
     map bits_nat (groups 5 (byte_bits bs @ replicate ((5 - 8 * length bs mod 5) mod 5) False))"

definition b32encode :: "bytes \<Rightarrow> string" where
  "b32encode bs =
     (let ds = b32_digits bs
      in map (\<lambda>d. b32_alphabet ! d) ds @ replicate ((8 - length ds mod 8) mod 8) CHR ''='')"

definition rstrip_char :: "char \<Rightarrow> string \<Rightarrow> string" where
  "rstrip_char c s = rev (dropWhile (\<lambda>x. x = c) (rev s))"

definition index_in :: "string \<Rightarrow> char \<Rightarrow> nat option" where
  "index_in alphabet c =
     (if c \<in> set alphabet then Some (length (takeWhile (\<lambda>x. x \<noteq> c) alphabet)) else None)"

text \<open>
  \<^verbatim>\<open>base64.b32decode\<close>: the length must be a multiple of eight with a legal number of padding
  characters; trailing bits that do not fill a byte are dropped.
\<close>

definition b32decode :: "string \<Rightarrow> bytes result" where
  "b32decode s =
     (let t = rstrip_char CHR ''='' s; pad = length s - length t
      in if length s mod 8 \<noteq> 0 then Inl ValueError
         else if \<exists>c \<in> set t. index_in b32_alphabet c = None then Inl ValueError
         else if pad \<notin> {0, 1, 3, 4, 6} then Inl ValueError
         else
           (let bits = concat (map (\<lambda>c. nat_bits 5 (the (index_in b32_alphabet c))) t)
            in Inr (bits_bytes (take (length bits div 8 * 8) bits))))"

text \<open>\<^verbatim>\<open>str.upper\<close>; the two letters whose capital leaves the modelled range stay as they are.\<close>

definition upper_char :: "char \<Rightarrow> string" where
  "upper_char c =
     (if cp c = 223 then ''SS''
      else if (97 \<le> cp c \<and> cp c \<le> 122) \<or> (224 \<le> cp c \<and> cp c \<le> 254 \<and> cp c \<noteq> 247)
      then [char_of (cp c - 32)] else [c])"

definition upper :: "string \<Rightarrow> string" where
  "upper s = concat (map upper_char s)"

lemma index_in_nth: "distinct a \<Longrightarrow> d < length a \<Longrightarrow> index_in a (a ! d) = Some d"
proof -
  assume d: "distinct a" "d < length a"
  have "takeWhile (\<lambda>x. x \<noteq> a ! d) a = take d a"
    by (rule takeWhile_eq_take_P_nth) (use d in \<open>auto simp: nth_eq_iff_index_eq\<close>)
  then show ?thesis using d by (simp add: index_in_def)
qed

lemma rstrip_char_pad: "c \<notin> set t \<Longrightarrow> rstrip_char c (t @ replicate n c) = t"
proof -
  assume "c \<notin> set t"
  then have "dropWhile (\<lambda>x. x = c) (rev t) = rev t"
    by (cases t rule: rev_cases) auto
  moreover have "dropWhile (\<lambda>x. x = c) (replicate n c @ rev t) = dropWhile (\<lambda>x. x = c) (rev t)"
    by (induction n) auto
  ultimately show ?thesis by (simp add: rstrip_char_def)
qed

definition b32_bits :: "bytes \<Rightarrow> bool list" where
  "b32_bits bs = byte_bits bs @ replicate ((5 - 8 * length bs mod 5) mod 5) False"

lemma b32_digits_bits: "b32_digits bs = map bits_nat (groups 5 (b32_bits bs))"
  by (simp add: b32_digits_def b32_bits_def)

lemma round_up:
  "(n + (5 - n mod 5) mod 5) mod 5 = (0 :: nat)"
  "(n + (5 - n mod 5) mod 5) div 5 = (n + 4) div (5 :: nat)"
proof -
  define q r where "q = n div 5" and "r = n mod 5"
  then have n: "n = r + 5 * q" and r: "n mod 5 = r" and "r < 5" by simp_all
  have "(n + 4) div 5 = ((r + 4) + 5 * q) div 5" unfolding n by (simp add: ac_simps)
  then have d: "(n + 4) div 5 = q + (r + 4) div 5" by (simp only: div_mult_self2)
  have "r = 0 \<or> r = 1 \<or> r = 2 \<or> r = 3 \<or> r = 4" using \<open>r < 5\<close> by linarith
  then have "r + (5 - r) mod 5 = 5 * ((r + 4) div 5)" by auto
  then have e: "n + (5 - n mod 5) mod 5 = 5 * ((n + 4) div 5)" unfolding r d using n by simp
  show "(n + (5 - n mod 5) mod 5) mod 5 = 0" unfolding e by simp
  show "(n + (5 - n mod 5) mod 5) div 5 = (n + 4) div 5" unfolding e by simp
qed

lemma b32_bits_dvd: "5 dvd length (b32_bits bs)"
  unfolding b32_bits_def dvd_eq_mod_eq_0 length_append length_byte_bits length_replicate
  by (rule round_up(1))

lemma b32_digits_less: "d \<in> set (b32_digits bs) \<Longrightarrow> d < 32"
proof -
  assume "d \<in> set (b32_digits bs)"
  then obtain g where "g \<in> set (groups 5 (b32_bits bs))" "d = bits_nat g"
    by (auto simp: b32_digits_bits)
  then show "d < 32"
    using groups_length [OF b32_bits_dvd, of g bs] bits_nat_less [of g] by simp
qed

lemma length_b32_digits: "length (b32_digits bs) = (8 * length bs + 4) div 5"
proof -
  have "length (b32_digits bs) = length (b32_bits bs) div 5"
    unfolding b32_digits_bits length_map by (rule groups_count [OF _ b32_bits_dvd]) simp
  also have "\<dots> = (8 * length bs + 4) div 5"
    unfolding b32_bits_def length_append length_byte_bits length_replicate by (rule round_up(2))
  finally show ?thesis .
qed

lemma b32_digits_to_bits: "concat (map (nat_bits 5) (b32_digits bs)) = b32_bits bs"
proof -
  have "map (nat_bits 5 \<circ> bits_nat) (groups 5 (b32_bits bs)) = groups 5 (b32_bits bs)"
  proof (rule map_idI)
    fix g assume "g \<in> set (groups 5 (b32_bits bs))"
    then have "length g = 5" by (rule groups_length [OF b32_bits_dvd])
    then show "(nat_bits 5 \<circ> bits_nat) g = g" using nat_bits_bits_nat [of g] by simp
  qed
  then show ?thesis by (simp add: b32_digits_bits concat_groups)
qed

lemma b32_bits_take: "bits_bytes (take (length (b32_bits bs) div 8 * 8) (b32_bits bs)) = bs"
proof -
  define p where "p = (5 - 8 * length bs mod 5) mod 5"
  then have "p < 5" by simp
  then have "(8 * length bs + p) div 8 * 8 = 8 * length bs" by simp
  then have "take (length (b32_bits bs) div 8 * 8) (b32_bits bs) = byte_bits bs"
    unfolding b32_bits_def p_def [symmetric] by simp
  then show ?thesis by simp
qed

lemma b32_alphabet_facts:
  "distinct b32_alphabet" "length b32_alphabet = 32" "CHR ''='' \<notin> set b32_alphabet"
  by (simp_all add: b32_alphabet_def)

definition b32_chars :: "bytes \<Rightarrow> string" where
  "b32_chars bs = map (\<lambda>d. b32_alphabet ! d) (b32_digits bs)"

lemma b32_chars_alphabet: "set (b32_chars bs) \<subseteq> set b32_alphabet"
  using b32_digits_less b32_alphabet_facts(2) by (auto simp: b32_chars_def)

lemma length_b32_chars: "length (b32_chars bs) = (8 * length bs + 4) div 5"
  by (simp add: b32_chars_def length_b32_digits)

lemma b32encode_chars:
  "b32encode bs = b32_chars bs @ replicate ((8 - length (b32_chars bs) mod 8) mod 8) CHR ''=''"
  by (simp add: b32encode_def b32_chars_def Let_def)

lemma b32_pad: "(8 - (8 * n + 4) div 5 mod 8) mod 8 \<in> {0, 1, 3, 4, 6 :: nat}"
proof -
  define q r where "q = n div 5" and "r = n mod 5"
  then have n: "n = r + 5 * q" and "r < 5" by simp_all
  have "(8 * n + 4) div 5 = ((8 * r + 4) + 5 * (8 * q)) div 5" unfolding n by (simp add: algebra_simps)
  then have d: "(8 * n + 4) div 5 = 8 * q + (8 * r + 4) div 5" by (simp only: div_mult_self2)
  then have m: "(8 * n + 4) div 5 mod 8 = (8 * r + 4) div 5 mod 8" by (simp only: mod_mult_self4)
  have "r = 0 \<or> r = 1 \<or> r = 2 \<or> r = 3 \<or> r = 4" using \<open>r < 5\<close> by linarith
  then show ?thesis unfolding m by auto
qed

lemma b32_pad_len: "(n + (8 - n mod 8) mod 8) mod 8 = (0 :: nat)"
proof -
  define q r where "q = n div 8" and "r = n mod 8"
  then have n: "n = 8 * q + r" and "r < 8" by simp_all
  then show ?thesis by (cases "r = 0") auto
qed

lemma b32decode_chars:
  "b32decode (b32_chars bs @ replicate ((8 - length (b32_chars bs) mod 8) mod 8) CHR ''='') = Inr bs"
proof -
  let ?n = "length bs"
  let ?pad = "(8 - length (b32_chars bs) mod 8) mod 8"
  have strip: "rstrip_char CHR ''='' (b32_chars bs @ replicate ?pad CHR ''='') = b32_chars bs"
    using b32_chars_alphabet b32_alphabet_facts(3) by (intro rstrip_char_pad) blast
  have idx: "index_in b32_alphabet (b32_alphabet ! d) = Some d" if "d \<in> set (b32_digits bs)" for d
    using b32_digits_less [OF that] b32_alphabet_facts by (simp add: index_in_nth)
  have known: "\<not> (\<exists>c \<in> set (b32_chars bs). index_in b32_alphabet c = None)"
    using idx by (auto simp: b32_chars_def)
  have bits: "concat (map (\<lambda>c. nat_bits 5 (the (index_in b32_alphabet c))) (b32_chars bs)) = b32_bits bs"
  proof -
    have "map (\<lambda>d. nat_bits 5 (the (index_in b32_alphabet (b32_alphabet ! d)))) (b32_digits bs)
        = map (nat_bits 5) (b32_digits bs)"
      by (rule map_cong [OF refl]) (simp add: idx)
    then show ?thesis unfolding b32_chars_def map_map o_def by (simp only: b32_digits_to_bits)
  qed
  have pad: "?pad \<in> {0, 1, 3, 4, 6}" unfolding length_b32_chars by (rule b32_pad)
  have len: "length (b32_chars bs @ replicate ?pad CHR ''='') mod 8 = 0" using b32_pad_len by simp
  show ?thesis using known pad len
    unfolding b32decode_def Let_def strip bits by (simp add: b32_bits_take)
qed

lemma b32decode_encode: "b32decode (b32encode bs) = Inr bs"
  unfolding b32encode_chars by (rule b32decode_chars)

section \<open>Base 64\<close>

definition b64_alphabet :: string where
  "b64_alphabet = ''ABCDEFGHIJKLMNOPQRSTUVWXYZabcdefghijklmnopqrstuvwxyz0123456789+/''"

definition b64_char :: "nat \<Rightarrow> char" where
  "b64_char d = b64_alphabet ! d"

fun b64encode :: "bytes \<Rightarrow> string" where
  "b64encode [] = []"
| "b64encode [a] = [b64_char (unat a div 4), b64_char (unat a mod 4 * 16), CHR ''='', CHR ''='']"
| "b64encode [a, b] =
     [b64_char (unat a div 4), b64_char (unat a mod 4 * 16 + unat b div 16),
      b64_char (unat b mod 16 * 4), CHR ''='']"
| "b64encode (a # b # c # bs) =
     b64_char (unat a div 4) # b64_char (unat a mod 4 * 16 + unat b div 16)
       # b64_char (unat b mod 16 * 4 + unat c div 64) # b64_char (unat c mod 64) # b64encode bs"

definition cons_result :: "nat \<Rightarrow> bytes result \<Rightarrow> bytes result" where
  "cons_result n r = (case r of Inl e \<Rightarrow> Inl e | Inr bs \<Rightarrow> Inr (word_of_nat n # bs))"

text \<open>
  The loop of \<^verbatim>\<open>binascii.a2b_base64\<close>: the position in the quad, the bits left over, the padding
  seen; characters outside the alphabet are skipped, and enough padding ends the data.
\<close>

fun a2b_base64 :: "string \<Rightarrow> nat \<Rightarrow> nat \<Rightarrow> nat \<Rightarrow> bytes result" where
  "a2b_base64 [] q l p = (if q = 0 then Inr [] else Inl ValueError)"
| "a2b_base64 (c # cs) q l p =
     (if c = CHR ''='' then
        (if 2 \<le> q then (if 4 \<le> q + (p + 1) then Inr [] else a2b_base64 cs q l (p + 1))
         else a2b_base64 cs q l p)
      else
        (case index_in b64_alphabet c of
           None \<Rightarrow> a2b_base64 cs q l p
         | Some d \<Rightarrow>
             if q = 0 then a2b_base64 cs 1 d 0
             else if q = 1 then cons_result (l * 4 + d div 16) (a2b_base64 cs 2 (d mod 16) 0)
             else if q = 2 then cons_result (l * 16 + d div 4) (a2b_base64 cs 3 (d mod 4) 0)
             else cons_result (l * 64 + d) (a2b_base64 cs 0 0 0)))"

definition b64decode :: "string \<Rightarrow> bytes result" where
  "b64decode s = (if \<exists>c \<in> set s. 128 \<le> cp c then Inl ValueError else a2b_base64 s 0 0 0)"

lemma b64_alphabet_facts:
  "distinct b64_alphabet" "length b64_alphabet = 64" "CHR ''='' \<notin> set b64_alphabet"
  "\<forall>c \<in> set b64_alphabet. cp c < 128"
  by (simp_all add: b64_alphabet_def cp_def)

lemma index_b64_char [simp]: "d < 64 \<Longrightarrow> index_in b64_alphabet (b64_char d) = Some d"
  using b64_alphabet_facts by (simp add: b64_char_def index_in_nth)

lemma b64_char_in: "d < 64 \<Longrightarrow> b64_char d \<in> set b64_alphabet"
  using b64_alphabet_facts(2) by (simp add: b64_char_def)

lemma b64_char_not_pad [simp]: "d < 64 \<Longrightarrow> b64_char d \<noteq> CHR ''=''"
  using b64_char_in b64_alphabet_facts(3) by metis

lemma byte_parts: "unat (a :: byte) div 4 < 64" "unat a div 16 < 16" "unat a div 64 < 4"
  by (rule less_mult_imp_div_less; simp)+

lemma b64_sextets [simp]:
  "unat (a :: byte) div 4 < 64" "unat a mod 4 * 16 < 64" "unat a mod 4 * 16 + unat (b :: byte) div 16 < 64"
  "unat a mod 16 * 4 < 64" "unat a mod 16 * 4 + unat b div 64 < 64" "unat a mod 64 < 64"
proof -
  have m: "unat a mod 4 < 4" "unat a mod 16 < 16" "unat a mod 64 < 64" by simp_all
  show "unat a div 4 < 64" "unat a mod 64 < 64" by (rule byte_parts) (rule m(3))
  show "unat a mod 4 * 16 < 64" "unat a mod 16 * 4 < 64" using m(1,2) by linarith+
  show "unat a mod 4 * 16 + unat b div 16 < 64" using m(1) byte_parts(2) [of b] by linarith
  show "unat a mod 16 * 4 + unat b div 64 < 64" using m(2) byte_parts(3) [of b] by linarith
qed

lemma shift_parts:
  "y < (n :: nat) \<Longrightarrow> (x * n + y) div n = x" "y < n \<Longrightarrow> (x * n + y) mod n = y"
  by simp_all

lemma join_parts:
  "unat a div 4 * 4 + unat a mod 4 = unat (a :: byte)" "unat a div 16 * 16 + unat a mod 16 = unat a"
  "unat a div 64 * 64 + unat a mod 64 = unat a"
  by (rule div_mult_mod_eq)+

lemma a2b_step:
  "c \<noteq> CHR ''='' \<Longrightarrow> index_in b64_alphabet c = Some d \<Longrightarrow>
   a2b_base64 (c # cs) 0 l p = a2b_base64 cs 1 d 0"
  "c \<noteq> CHR ''='' \<Longrightarrow> index_in b64_alphabet c = Some d \<Longrightarrow>
   a2b_base64 (c # cs) 1 l p = cons_result (l * 4 + d div 16) (a2b_base64 cs 2 (d mod 16) 0)"
  "c \<noteq> CHR ''='' \<Longrightarrow> index_in b64_alphabet c = Some d \<Longrightarrow>
   a2b_base64 (c # cs) 2 l p = cons_result (l * 16 + d div 4) (a2b_base64 cs 3 (d mod 4) 0)"
  "c \<noteq> CHR ''='' \<Longrightarrow> index_in b64_alphabet c = Some d \<Longrightarrow>
   a2b_base64 (c # cs) 3 l p = cons_result (l * 64 + d) (a2b_base64 cs 0 0 0)"
  by simp_all

lemma cons_result_byte: "cons_result (unat b) (Inr bs) = Inr (b # bs)"
  by (simp add: cons_result_def)

lemma b64_step1:
  "a2b_base64 (b64_char (unat a div 4) # b64_char (unat a mod 4 * 16 + unat b div 16) # cs) 0 l p
     = cons_result (unat (a :: byte)) (a2b_base64 cs 2 (unat (b :: byte) div 16) 0)"
  unfolding a2b_step [OF b64_char_not_pad index_b64_char, OF b64_sextets(1) b64_sextets(1)]
    a2b_step [OF b64_char_not_pad index_b64_char, OF b64_sextets(3) b64_sextets(3)]
    shift_parts [OF byte_parts(2)] join_parts ..

lemma b64_step2:
  "a2b_base64 (b64_char (unat b mod 16 * 4 + unat c div 64) # cs) 2 (unat b div 16) 0
     = cons_result (unat (b :: byte)) (a2b_base64 cs 3 (unat (c :: byte) div 64) 0)"
  unfolding a2b_step [OF b64_char_not_pad index_b64_char, OF b64_sextets(5) b64_sextets(5)]
    shift_parts [OF byte_parts(3)] join_parts ..

lemma b64_step3:
  "a2b_base64 (b64_char (unat c mod 64) # cs) 3 (unat c div 64) 0
     = cons_result (unat (c :: byte)) (a2b_base64 cs 0 0 0)"
  unfolding a2b_step [OF b64_char_not_pad index_b64_char, OF b64_sextets(6) b64_sextets(6)] join_parts ..

lemma a2b_encode: "a2b_base64 (b64encode bs) 0 0 p = Inr bs"
proof (induction bs arbitrary: p rule: b64encode.induct)
  case (2 a)
  have "a2b_base64 (b64encode [a]) 0 0 p = cons_result (unat a) (Inr [])"
    using b64_step1 [of a "0 :: byte" "''==''" 0 p] by simp
  then show ?case by (simp only: cons_result_byte)
next
  case (3 a b)
  have "a2b_base64 (b64encode [a, b]) 0 0 p = cons_result (unat a) (cons_result (unat b) (Inr []))"
    using b64_step1 [of a b "[b64_char (unat b mod 16 * 4), CHR ''='']" 0 p]
      b64_step2 [of b "0 :: byte" "''=''"] by simp
  then show ?case by (simp only: cons_result_byte)
next
  case (4 a b c bs)
  then show ?case by (simp only: b64encode.simps b64_step1 b64_step2 b64_step3 cons_result_byte)
qed simp

lemma b64decode_encode [simp]: "b64decode (b64encode bs) = Inr bs"
proof -
  have "set (b64encode bs) \<subseteq> insert CHR ''='' (set b64_alphabet)"
    by (induction bs rule: b64encode.induct) (auto simp: b64_char_in)
  then have "\<not> (\<exists>c \<in> set (b64encode bs). 128 \<le> cp c)"
    using b64_alphabet_facts(4) by (fastforce simp: cp_def)
  then show ?thesis by (simp add: b64decode_def a2b_encode)
qed

end
