(* ===== verification/Py_Time.thy ===== *)
theory Py_Time
  imports Py_Text
begin

text \<open>
  The part of Python's \<^verbatim>\<open>datetime\<close> the sources use: date-times with an optional UTC offset in
  minutes (\<^const>\<open>None\<close> is a naive value), their order, \<^verbatim>\<open>isoformat\<close>, \<^verbatim>\<open>fromisoformat\<close> on the
  spellings \<^verbatim>\<open>isoformat\<close> produces, and the conversion between instants and UTC date-times that
  \<^verbatim>\<open>timestamp()\<close> and \<^verbatim>\<open>fromtimestamp\<close> do. Instants are microseconds since the first day of
  year 1.
\<close>

record datetime =
  year :: nat
  month :: nat
  day :: nat
  hour :: nat
  minute :: nat
  second :: nat
  micro :: nat
  utcoff :: "int option"

section \<open>The calendar\<close>

definition leap :: "nat \<Rightarrow> bool" where
  "leap y \<longleftrightarrow> y mod 4 = 0 \<and> (y mod 100 \<noteq> 0 \<or> y mod 400 = 0)"

definition days_before_year :: "nat \<Rightarrow> nat" where
  "days_before_year y = (y - 1) * 365 + (y - 1) div 4 - (y - 1) div 100 + (y - 1) div 400"

definition month_days :: "nat list" where
  "month_days = [0, 0, 31, 59, 90, 120, 151, 181, 212, 243, 273, 304, 334]"

definition days_before_month :: "nat \<Rightarrow> nat \<Rightarrow> nat" where
  "days_before_month y m = month_days ! m + (if 2 < m \<and> leap y then 1 else 0)"

definition days_in_month :: "nat \<Rightarrow> nat \<Rightarrow> nat" where
  "days_in_month y m = (if m = 2 \<and> leap y then 29 else [0, 31, 28, 31, 30, 31, 30, 31, 31, 30, 31, 30, 31] ! m)"

definition ymd2ord :: "nat \<Rightarrow> nat \<Rightarrow> nat \<Rightarrow> nat" where
  "ymd2ord y m d = days_before_year y + days_before_month y m + d"

text \<open>The inverse, with the cycles of 400, 100, 4 and 1 years.\<close>

definition month_of :: "bool \<Rightarrow> nat \<Rightarrow> nat \<times> nat" where
  "month_of lp n =
     (let m = (n + 50) div 32;
          before = (\<lambda>m. month_days ! m + (if 2 < m \<and> lp then 1 else 0))
      in if n < before m then (m - 1, n - before (m - 1) + 1) else (m, n - before m + 1))"

definition ord2ymd :: "nat \<Rightarrow> nat \<times> nat \<times> nat" where
  "ord2ymd ord =
     (let n = ord - 1;
          n400 = n div 146097; n = n mod 146097;
          n100 = n div 36524; n = n mod 36524;
          n4 = n div 1461; n = n mod 1461;
          n1 = n div 365; n = n mod 365;
          y = n400 * 400 + 1 + n100 * 100 + n4 * 4 + n1
      in if n1 = 4 \<or> n100 = 4 then (y - 1, 12, 31)
         else (case month_of (n1 = 3 \<and> (n4 \<noteq> 24 \<or> n100 = 3)) n of (m, d) \<Rightarrow> (y, m, d)))"

definition instant :: "datetime \<Rightarrow> int" where
  "instant t =
     (((int (ymd2ord (year t) (month t) (day t)) * 24 + int (hour t)) * 60 + int (minute t)
        - (case utcoff t of Some off \<Rightarrow> off | None \<Rightarrow> 0)) * 60 + int (second t)) * 1000000
     + int (micro t)"

text \<open>The UTC date-time of an instant (\<^verbatim>\<open>fromtimestamp(..., tz=timezone.utc)\<close>).\<close>

definition utc_of :: "int \<Rightarrow> datetime" where
  "utc_of i =
     (let us = nat (i mod 1000000); s = i div 1000000;
          sec = nat (s mod 60); mi = s div 60;
          mn = nat (mi mod 60); h = mi div 60;
          hr = nat (h mod 24); ord = nat (h div 24)
      in case ord2ymd ord of (y, m, d) \<Rightarrow>
           \<lparr>year = y, month = m, day = d, hour = hr, minute = mn, second = sec, micro = us,
            utcoff = Some 0\<rparr>)"

text \<open>\<^verbatim>\<open>a >= b\<close>: \<^const>\<open>TypeError\<close> when only one of the two is naive.\<close>

definition dt_ge :: "datetime \<Rightarrow> datetime \<Rightarrow> bool result" where
  "dt_ge a b =
     (if (utcoff a = None) \<noteq> (utcoff b = None) then Inl TypeError else Inr (instant b \<le> instant a))"

subsection \<open>Instants survive the calendar\<close>

definition month_ok :: "bool \<Rightarrow> nat \<Rightarrow> bool" where
  "month_ok lp n \<longleftrightarrow>
     (case month_of lp n of (m, d) \<Rightarrow>
        1 \<le> m \<and> m \<le> 12 \<and> month_days ! m + (if 2 < m \<and> lp then 1 else 0) + d = n + 1 \<and> 1 \<le> d)"

lemma month_of_correct:
  assumes "n < 365 \<or> (lp \<and> n < 366)"
  shows "month_ok lp n"
proof -
  define k where "k = (n + 50) div 32"
  have b: "32 * k \<le> n + 50" "n + 50 < 32 * k + 32" unfolding k_def by simp_all
  then have "1 \<le> k" "k \<le> 12" using assms by auto
  then have "k = 1 \<or> k = 2 \<or> k = 3 \<or> k = 4 \<or> k = 5 \<or> k = 6 \<or> k = 7 \<or> k = 8 \<or> k = 9
    \<or> k = 10 \<or> k = 11 \<or> k = 12" by presburger
  then consider "k = 1" | "k = 2" | "k = 3" | "k = 4" | "k = 5" | "k = 6" | "k = 7" | "k = 8" | "k = 9"
    | "k = 10" | "k = 11" | "k = 12" by blast
  then show ?thesis
    using assms b unfolding month_ok_def month_of_def k_def [symmetric] Let_def
    by cases (auto simp: month_days_def)
qed

text \<open>The year part of \<^const>\<open>ord2ymd\<close>.\<close>

lemma days_before_year_cycles:
  assumes "b < 4" "c < 25" "d < 4"
  shows "days_before_year (a * 400 + 1 + b * 100 + c * 4 + d)
    = a * 146097 + b * 36524 + c * 1461 + d * 365"
proof -
  let ?y = "a * 400 + b * 100 + c * 4 + d"
  have "?y div 4 = a * 100 + b * 25 + c" "?y div 100 = a * 4 + b" "?y div 400 = a"
    using assms by linarith+
  then show ?thesis by (simp add: days_before_year_def)
qed

lemma leap_cycles:
  assumes "b < 4" "c < 25" "d < 4"
  shows "leap (a * 400 + 1 + b * 100 + c * 4 + d) \<longleftrightarrow> d = 3 \<and> (c \<noteq> 24 \<or> b = 3)"
proof -
  let ?y = "a * 400 + 1 + b * 100 + c * 4 + d"
  have y: "?y = (d + 1) + 4 * (a * 100 + b * 25 + c)" "?y = (c * 4 + d + 1) + 100 * (a * 4 + b)"
    "?y = (b * 100 + c * 4 + d + 1) + 400 * a" by simp_all
  have "?y mod 4 = (d + 1) mod 4" unfolding y(1) by (rule mod_mult_self2)
  moreover have "?y mod 100 = (c * 4 + d + 1) mod 100" unfolding y(2) by (rule mod_mult_self2)
  moreover have "?y mod 400 = (b * 100 + c * 4 + d + 1) mod 400" unfolding y(3) by (rule mod_mult_self2)
  moreover have "(d + 1) mod 4 = 0 \<longleftrightarrow> d = 3" using assms(3) by presburger
  moreover have "d = 3 \<Longrightarrow> (c * 4 + d + 1) mod 100 = 0 \<longleftrightarrow> c = 24" using assms(2) by presburger
  moreover have "d = 3 \<Longrightarrow> c = 24 \<Longrightarrow> (b * 100 + c * 4 + d + 1) mod 400 = 0 \<longleftrightarrow> b = 3"
    using assms(1) by simp presburger
  ultimately show ?thesis unfolding leap_def by auto
qed

lemma ymd2ord_ord2ymd:
  assumes "1 \<le> ord" "ord2ymd ord = (y, m, d)"
  shows "ymd2ord y m d = ord"
proof -
  define n where "n = ord - 1"
  define a n1 where "a = n div 146097" and "n1 = n mod 146097"
  define b n2 where "b = n1 div 36524" and "n2 = n1 mod 36524"
  define c n3 where "c = n2 div 1461" and "n3 = n2 mod 1461"
  define e n4 where "e = n3 div 365" and "n4 = n3 mod 365"
  note parts = a_def n1_def b_def n2_def c_def n3_def e_def n4_def
  have n: "n = a * 146097 + b * 36524 + c * 1461 + e * 365 + n4" unfolding parts by simp
  have n12: "n1 = b * 36524 + n2" and n23: "n2 = c * 1461 + n3" and n34: "n3 = e * 365 + n4"
    unfolding parts by simp_all
  have bounds: "n1 < 146097" "n2 < 36524" "n3 < 1461" "n4 < 365" "b \<le> 4" "c \<le> 24" "e \<le> 4"
    unfolding parts by (simp_all add: less_Suc_eq_le [symmetric] less_mult_imp_div_less)
  let ?y = "a * 400 + 1 + b * 100 + c * 4 + e"
  have o: "ord2ymd ord = (if e = 4 \<or> b = 4 then (?y - 1, 12, 31)
      else (case month_of (e = 3 \<and> (c \<noteq> 24 \<or> b = 3)) n4 of (m, d) \<Rightarrow> (?y, m, d)))"
    unfolding ord2ymd_def Let_def n_def [symmetric] parts by simp
  show ?thesis
  proof (cases "e = 4 \<or> b = 4")
    case True
    have "b = 4 \<Longrightarrow> n2 = 0" using bounds(1) n12 by simp
    then have "b = 4 \<Longrightarrow> c = 0 \<and> e = 0 \<and> n4 = 0" unfolding parts(5-8) by simp
    moreover have "e = 4 \<Longrightarrow> n4 = 0" using bounds(3) n34 by simp
    moreover have "e = 4 \<Longrightarrow> c \<noteq> 24" using bounds(2) n23 n34 by auto
    moreover have "y = ?y - 1" "m = 12" "d = 31" using o True assms(2) by auto
    ultimately consider "b = 4" "c = 0" "e = 0" "n4 = 0" | "b < 4" "e = 4" "n4 = 0" "c < 24"
      using True bounds(5,6) by fastforce
    then show ?thesis
    proof cases
      case 1
      then have "y = a * 400 + 1 + 3 * 100 + 24 * 4 + 3" using \<open>y = ?y - 1\<close> by simp
      then show ?thesis
        using leap_cycles [of 3 24 3 a] days_before_year_cycles [of 3 24 3 a] 1 n assms(1)
        by (simp add: ymd2ord_def days_before_month_def month_days_def \<open>m = 12\<close> \<open>d = 31\<close> n_def)
    next
      case 2
      then have "y = a * 400 + 1 + b * 100 + c * 4 + 3" using \<open>y = ?y - 1\<close> by simp
      then show ?thesis
        using leap_cycles [of b c 3 a] days_before_year_cycles [of b c 3 a] 2 n assms(1)
        by (simp add: ymd2ord_def days_before_month_def month_days_def \<open>m = 12\<close> \<open>d = 31\<close> n_def)
    qed
  next
    case False
    then have lt: "b < 4" "e < 4" "c < 25" using bounds by auto
    let ?lp = "e = 3 \<and> (c \<noteq> 24 \<or> b = 3)"
    have md: "month_of ?lp n4 = (m, d)" "y = ?y" using o False assms(2) by (auto split: prod.splits)
    have "month_ok ?lp n4" by (rule month_of_correct) (use bounds in auto)
    then have "days_before_month y m + d = n4 + 1"
      using md leap_cycles [OF lt(1) lt(3) lt(2)] by (simp add: month_ok_def days_before_month_def)
    then show ?thesis
      using days_before_year_cycles [OF lt(1) lt(3) lt(2)] n md(2) assms(1)
      by (simp add: ymd2ord_def n_def)
  qed
qed

lemma instant_utc_of:
  assumes "86400000000 \<le> i"
  shows "instant (utc_of i) = i"
proof -
  define s where "s = i div 1000000"
  define mi where "mi = s div 60"
  define h where "h = mi div 60"
  define ord where "ord = nat (h div 24)"
  have i: "i = s * 1000000 + i mod 1000000" "s = mi * 60 + s mod 60" "mi = h * 60 + mi mod 60"
    "h = h div 24 * 24 + h mod 24"
    unfolding s_def mi_def h_def by simp_all
  have "86400 \<le> s" using assms unfolding s_def by linarith
  then have "1440 \<le> mi" unfolding mi_def by linarith
  then have "24 \<le> h" unfolding h_def by linarith
  then have d: "1 \<le> h div 24" by linarith
  then have ord: "1 \<le> ord" "int ord = h div 24" unfolding ord_def by linarith+
  obtain y m dy where ymd: "ord2ymd ord = (y, m, dy)" by (cases "ord2ymd ord") auto
  have "int (ymd2ord y m dy) = h div 24" using ymd2ord_ord2ymd [OF ord(1) ymd] ord(2) by simp
  moreover have "utc_of i = \<lparr>year = y, month = m, day = dy, hour = nat (h mod 24),
      minute = nat (mi mod 60), second = nat (s mod 60), micro = nat (i mod 1000000), utcoff = Some 0\<rparr>"
    using ymd by (simp add: utc_of_def Let_def s_def mi_def h_def ord_def)
  ultimately have "instant (utc_of i)
      = (((h div 24 * 24 + h mod 24) * 60 + mi mod 60) * 60 + s mod 60) * 1000000 + i mod 1000000"
    by (simp add: instant_def)
  then show ?thesis using i by simp
qed

lemma utcoff_utc_of [simp]: "utcoff (utc_of i) = Some 0"
  by (simp add: utc_of_def Let_def split: prod.split)

section \<open>ISO 8601 text\<close>

definition pad_nat :: "nat \<Rightarrow> nat \<Rightarrow> string" where
  "pad_nat k n = replicate (k - length (show_nat n)) CHR ''0'' @ show_nat n"

text \<open>The offset, in the form \<^verbatim>\<open>+HH:MM\<close> (offsets with seconds are outside the model).\<close>

definition iso_offset :: "int option \<Rightarrow> string" where
  "iso_offset z =
     (case z of
        None \<Rightarrow> []
      | Some m \<Rightarrow>
          (if m < 0 then ''-'' else ''+'') @ pad_nat 2 (nat \<bar>m\<bar> div 60) @ '':'' @ pad_nat 2 (nat \<bar>m\<bar> mod 60))"

definition isoformat :: "datetime \<Rightarrow> string" where
  "isoformat t =
     pad_nat 4 (year t) @ ''-'' @ pad_nat 2 (month t) @ ''-'' @ pad_nat 2 (day t) @ ''T''
     @ pad_nat 2 (hour t) @ '':'' @ pad_nat 2 (minute t) @ '':'' @ pad_nat 2 (second t)
     @ (if micro t = 0 then [] else ''.'' @ pad_nat 6 (micro t)) @ iso_offset (utcoff t)"

text \<open>A field of exactly \<^verbatim>\<open>k\<close> digits.\<close>

definition read_field :: "nat \<Rightarrow> string \<Rightarrow> (nat \<times> string) option" where
  "read_field k s =
     (if length (take k s) = k \<and> (\<forall>c \<in> set (take k s). is_dec c)
      then Some (nat (foldl (\<lambda>n c. 10 * n + dec_val c) 0 (take k s)), drop k s) else None)"

definition read_char :: "char \<Rightarrow> string \<Rightarrow> string option" where
  "read_char c s = (case s of [] \<Rightarrow> None | x # xs \<Rightarrow> if x = c then Some xs else None)"

definition read_offset :: "string \<Rightarrow> int option option" where
  "read_offset s =
     (case s of
        [] \<Rightarrow> Some None
      | c # r \<Rightarrow>
          if c \<noteq> CHR ''+'' \<and> c \<noteq> CHR ''-'' then None
          else (case read_field 2 r of
                  None \<Rightarrow> None
                | Some (h, r) \<Rightarrow>
                    (case Option.bind (read_char CHR '':'' r) (read_field 2) of
                       Some (m, []) \<Rightarrow>
                         if 24 \<le> h \<or> 60 \<le> m then None
                         else Some (Some ((if c = CHR ''-'' then - 1 else 1) * int (h * 60 + m)))
                     | _ \<Rightarrow> None)))"

definition valid_datetime :: "datetime \<Rightarrow> bool" where
  "valid_datetime t \<longleftrightarrow>
     1 \<le> year t \<and> year t \<le> 9999 \<and> 1 \<le> month t \<and> month t \<le> 12 \<and> 1 \<le> day t
     \<and> day t \<le> days_in_month (year t) (month t) \<and> hour t < 24 \<and> minute t < 60 \<and> second t < 60
     \<and> micro t < 1000000 \<and> (case utcoff t of None \<Rightarrow> True | Some m \<Rightarrow> \<bar>m\<bar> < 1440)"

lemma month_of_day:
  assumes "n < 365 \<or> (lp \<and> n < 366)" "month_of lp n = (m, d)"
  shows "d \<le> (if m = 2 \<and> lp then 29 else [0, 31, 28, 31, 30, 31, 30, 31, 31, 30, 31, 30, 31] ! m)"
proof -
  define k where "k = (n + 50) div 32"
  have b: "32 * k \<le> n + 50" "n + 50 < 32 * k + 32" unfolding k_def by simp_all
  then have "1 \<le> k" "k \<le> 12" using assms(1) by auto
  then have "k = 1 \<or> k = 2 \<or> k = 3 \<or> k = 4 \<or> k = 5 \<or> k = 6 \<or> k = 7 \<or> k = 8 \<or> k = 9
    \<or> k = 10 \<or> k = 11 \<or> k = 12" by presburger
  then consider "k = 1" | "k = 2" | "k = 3" | "k = 4" | "k = 5" | "k = 6" | "k = 7" | "k = 8" | "k = 9"
    | "k = 10" | "k = 11" | "k = 12" by blast
  then show ?thesis
    using assms b unfolding month_of_def k_def [symmetric] Let_def
    by cases (auto simp: month_days_def split: if_splits)
qed

lemma ord2ymd_ok:
  assumes "ord2ymd ord = (y, m, d)"
  shows "1 \<le> y \<and> 1 \<le> m \<and> m \<le> 12 \<and> 1 \<le> d \<and> d \<le> days_in_month y m"
proof -
  define n where "n = ord - 1"
  define a n1 where "a = n div 146097" and "n1 = n mod 146097"
  define b n2 where "b = n1 div 36524" and "n2 = n1 mod 36524"
  define c n3 where "c = n2 div 1461" and "n3 = n2 mod 1461"
  define e n4 where "e = n3 div 365" and "n4 = n3 mod 365"
  note parts = a_def n1_def b_def n2_def c_def n3_def e_def n4_def
  have bounds: "n1 < 146097" "n2 < 36524" "n3 < 1461" "n4 < 365" "b \<le> 4" "c \<le> 24" "e \<le> 4"
    unfolding parts by (simp_all add: less_Suc_eq_le [symmetric] less_mult_imp_div_less)
  let ?y = "a * 400 + 1 + b * 100 + c * 4 + e"
  have o: "ord2ymd ord = (if e = 4 \<or> b = 4 then (?y - 1, 12, 31)
      else (case month_of (e = 3 \<and> (c \<noteq> 24 \<or> b = 3)) n4 of (m, d) \<Rightarrow> (?y, m, d)))"
    unfolding ord2ymd_def Let_def n_def [symmetric] parts by simp
  show ?thesis
  proof (cases "e = 4 \<or> b = 4")
    case True
    then have "y = ?y - 1" "m = 12" "d = 31" using o assms by auto
    then show ?thesis using True by (auto simp: days_in_month_def)
  next
    case False
    then have lt: "b < 4" "e < 4" "c < 25" using bounds by auto
    let ?lp = "e = 3 \<and> (c \<noteq> 24 \<or> b = 3)"
    have md: "month_of ?lp n4 = (m, d)" "y = ?y" using o False assms by (auto split: prod.splits)
    have "month_ok ?lp n4" by (rule month_of_correct) (use bounds in auto)
    moreover have "d \<le> (if m = 2 \<and> ?lp then 29 else [0, 31, 28, 31, 30, 31, 30, 31, 31, 30, 31, 30, 31] ! m)"
      by (rule month_of_day [OF _ md(1)]) (use bounds in auto)
    moreover have "leap y \<longleftrightarrow> ?lp" unfolding md(2) by (rule leap_cycles [OF lt(1) lt(3) lt(2)])
    ultimately show ?thesis using md by (simp add: month_ok_def days_in_month_def)
  qed
qed

lemma days_before_year_large:
  assumes "10000 \<le> y"
  shows "3652059 \<le> days_before_year y"
proof -
  define q r where "q = (y - 1) div 100" and "r = (y - 1) mod 100"
  have y: "y - 1 = 4 * (25 * q) + r" "r < 100" by (simp_all add: q_def r_def)
  have d4: "(y - 1) div 4 = 25 * q + r div 4" unfolding y(1) by simp
  have "24 \<le> (y - 1) div 400" using assms by (simp add: less_eq_div_iff_mult_less_eq)
  moreover have "99 \<le> q" using assms by (simp add: q_def less_eq_div_iff_mult_less_eq)
  then consider "100 \<le> q" | "q = 99" "99 \<le> r" using assms y by linarith
  then have "2400 + q \<le> (y - 1) div 4"
  proof cases
    case 2
    then have "24 \<le> r div 4" by (simp add: less_eq_div_iff_mult_less_eq)
    then show ?thesis using 2 d4 by simp
  qed (use d4 in linarith)
  ultimately show ?thesis
    using assms unfolding days_before_year_def q_def [symmetric] by linarith
qed

lemma valid_utc_of:
  assumes "86400000000 \<le> i" "i < 315537984000000000"
  shows "valid_datetime (utc_of i)"
proof -
  define s where "s = i div 1000000"
  define mi where "mi = s div 60"
  define h where "h = mi div 60"
  define ord where "ord = nat (h div 24)"
  have "86400 \<le> s" "s < 315537984000" using assms unfolding s_def by linarith+
  then have "1440 \<le> mi" "mi < 5258966400" unfolding mi_def by linarith+
  then have "24 \<le> h" "h < 87649440" unfolding h_def by linarith+
  then have "1 \<le> h div 24" "h div 24 < 3652060" by linarith+
  then have ord: "1 \<le> ord" "ord < 3652060" unfolding ord_def by linarith+
  obtain y m dy where ymd: "ord2ymd ord = (y, m, dy)" by (cases "ord2ymd ord") auto
  have "days_before_year y + dy \<le> ord"
    using ymd2ord_ord2ymd [OF ord(1) ymd] by (simp add: ymd2ord_def)
  then have "y \<le> 9999"
    using ord(2) days_before_year_large [of y] ord2ymd_ok [OF ymd] by linarith
  moreover have "utc_of i = \<lparr>year = y, month = m, day = dy, hour = nat (h mod 24),
      minute = nat (mi mod 60), second = nat (s mod 60), micro = nat (i mod 1000000), utcoff = Some 0\<rparr>"
    using ymd by (simp add: utc_of_def Let_def s_def mi_def h_def ord_def)
  ultimately show ?thesis using ord2ymd_ok [OF ymd] by (simp add: valid_datetime_def nat_less_iff)
qed

definition fromisoformat :: "string \<Rightarrow> datetime option" where
  "fromisoformat s =
     (case read_field 4 s of None \<Rightarrow> None | Some (y, s) \<Rightarrow>
      (case Option.bind (read_char CHR ''-'' s) (read_field 2) of None \<Rightarrow> None | Some (mo, s) \<Rightarrow>
      (case Option.bind (read_char CHR ''-'' s) (read_field 2) of None \<Rightarrow> None | Some (d, s) \<Rightarrow>
      (case Option.bind (read_char CHR ''T'' s) (read_field 2) of None \<Rightarrow> None | Some (h, s) \<Rightarrow>
      (case Option.bind (read_char CHR '':'' s) (read_field 2) of None \<Rightarrow> None | Some (mi, s) \<Rightarrow>
      (case Option.bind (read_char CHR '':'' s) (read_field 2) of None \<Rightarrow> None | Some (sec, s) \<Rightarrow>
      (case (if read_char CHR ''.'' s = None then Some (0, s)
             else Option.bind (read_char CHR ''.'' s) (read_field 6)) of None \<Rightarrow> None | Some (us, s) \<Rightarrow>
      (case read_offset s of None \<Rightarrow> None | Some z \<Rightarrow>
         (let t = \<lparr>year = y, month = mo, day = d, hour = h, minute = mi, second = sec, micro = us,
                   utcoff = z\<rparr>
          in if valid_datetime t then Some t else None)))))))))"

lemma length_show_nat: "n < 10 ^ k \<Longrightarrow> 0 < k \<Longrightarrow> length (show_nat n) \<le> k"
proof (induction n arbitrary: k rule: show_nat.induct)
  case (1 n)
  show ?case
  proof (cases "n < 10")
    case True
    then show ?thesis using 1(3) by (subst show_nat.simps) simp
  next
    case False
    then obtain j where k: "k = Suc j" "0 < j" using 1(2,3) by (cases k; cases "k - 1") auto
    then have "n div 10 < 10 ^ j" using 1(2) by (simp add: less_mult_imp_div_less)
    then have "length (show_nat (n div 10)) \<le> j" using 1(1) [OF False] k(2) by blast
    then show ?thesis using False k by (subst show_nat.simps) simp
  qed
qed

lemma length_pad_nat: "n < 10 ^ k \<Longrightarrow> 0 < k \<Longrightarrow> length (pad_nat k n) = k"
  using length_show_nat [of n k] by (simp add: pad_nat_def)

lemma foldl_zeros:
  "foldl (\<lambda>n c. 10 * n + dec_val c) 0 (replicate k CHR ''0'') = 0"
  by (induction k) (auto simp: dec_val_def cp_def)

lemma read_field_pad:
  assumes "n < 10 ^ k" "0 < k"
  shows "read_field k (pad_nat k n @ s) = Some (n, s)"
proof -
  have "c \<in> set (pad_nat k n) \<Longrightarrow> is_dec c" for c
    by (auto simp: pad_nat_def is_dec_def cp_def dest: show_nat_digits)
  moreover have "foldl (\<lambda>n c. 10 * n + dec_val c) 0 (pad_nat k n) = int n"
    by (simp add: pad_nat_def foldl_zeros foldl_show_nat)
  ultimately show ?thesis using length_pad_nat [OF assms] by (simp add: read_field_def)
qed

lemma read_offset_iso: "(case z of None \<Rightarrow> True | Some m \<Rightarrow> \<bar>m\<bar> < 1440) \<Longrightarrow> read_offset (iso_offset z) = Some z"
proof (cases z)
  case (Some m)
  assume "case z of None \<Rightarrow> True | Some m \<Rightarrow> \<bar>m\<bar> < 1440"
  define h r where "h = nat \<bar>m\<bar> div 60" and "r = nat \<bar>m\<bar> mod 60"
  have hr: "h < 24" "r < 60" "int (h * 60 + r) = \<bar>m\<bar>"
    using \<open>case z of None \<Rightarrow> True | Some m \<Rightarrow> \<bar>m\<bar> < 1440\<close> Some unfolding h_def r_def by auto
  then have "read_field 2 (pad_nat 2 h @ s) = Some (h, s)" "read_field 2 (pad_nat 2 r @ s) = Some (r, s)" for s
    by (simp_all add: read_field_pad)
  note f = this(1) this(2) [of "[]", simplified]
  have "(if m < 0 then - 1 else 1) * int (h * 60 + r) = m" using hr(3) by auto
  moreover have "iso_offset z = (if m < 0 then CHR ''-'' else CHR ''+'') # pad_nat 2 h @ CHR '':'' # pad_nat 2 r"
    using Some by (simp add: iso_offset_def h_def r_def)
  ultimately show ?thesis
    using Some hr(1,2) by (cases "m < 0") (simp_all add: read_offset_def read_char_def f)
qed (simp add: iso_offset_def read_offset_def)

lemma iso_offset_no_dot: "read_char CHR ''.'' (iso_offset z) = None"
  by (cases z) (auto simp: iso_offset_def read_char_def)

lemma fromisoformat_isoformat [simp]:
  assumes "valid_datetime t"
  shows "fromisoformat (isoformat t) = Some t"
proof -
  have b: "year t < 10 ^ 4" "month t < 10 ^ 2" "hour t < 10 ^ 2" "minute t < 10 ^ 2" "second t < 10 ^ 2"
    "micro t < 10 ^ 6"
    using assms by (auto simp: valid_datetime_def)
  have "days_in_month (year t) (month t) < 100"
    using assms by (auto simp: valid_datetime_def days_in_month_def nth_Cons split: nat.splits)
  then have d: "day t < 10 ^ 2" using assms by (simp add: valid_datetime_def)
  have z: "read_offset (iso_offset (utcoff t)) = Some (utcoff t)"
    by (rule read_offset_iso) (use assms in \<open>simp add: valid_datetime_def\<close>)
  have t: "\<lparr>year = year t, month = month t, day = day t, hour = hour t, minute = minute t,
      second = second t, micro = micro t, utcoff = utcoff t\<rparr> = t" by simp
  have r: "read_char c (c # s) = Some s" for c s by (simp add: read_char_def)
  show ?thesis
  proof (cases "micro t = 0")
    case True
    then have t: "\<lparr>year = year t, month = month t, day = day t, hour = hour t, minute = minute t,
      second = second t, micro = 0, utcoff = utcoff t\<rparr> = t" by simp
    show ?thesis using True b d z assms
      by (simp add: isoformat_def fromisoformat_def read_field_pad r iso_offset_no_dot t)
  next
    case False
    then show ?thesis using b d z assms
      by (simp add: isoformat_def fromisoformat_def read_field_pad r t)
  qed
qed

end
