(* ===== verification/Py_Json.thy ===== *)
theory Py_Json
  imports Py_Time Sha256
begin

text \<open>
  JSON values as Python sees them after \<^verbatim>\<open>json.load\<close>, and the accessors of dictionaries of such
  values. A file written with \<^verbatim>\<open>json.dump\<close> is modelled by the value it holds; a number with a
  fraction or an exponent is kept as its literal.
\<close>

datatype jval =
    JNull
  | JBool bool
  | JInt int
  | JFloat string
  | JStr string
  | JList "jval list"
  | JObj "(string \<times> jval) list"

type_synonym jdict = "(string, jval) dict"

text \<open>\<^verbatim>\<open>data[key]\<close> where a string is needed: a missing key and another type are two exceptions.\<close>

definition jstr :: "jdict \<Rightarrow> string \<Rightarrow> string result" where
  "jstr d k =
     (case dget d k of None \<Rightarrow> Inl KeyError | Some (JStr s) \<Rightarrow> Inr s | Some _ \<Rightarrow> Inl TypeError)"

text \<open>
  \<^verbatim>\<open>data.get(key)\<close> for an optional string field (fields of other types are outside the model and
  read as absent).
\<close>

definition jopt_str :: "jdict \<Rightarrow> string \<Rightarrow> string option" where
  "jopt_str d k = (case dget d k of Some (JStr s) \<Rightarrow> Some s | _ \<Rightarrow> None)"

definition opt_jstr :: "string option \<Rightarrow> jval" where
  "opt_jstr x = (case x of None \<Rightarrow> JNull | Some s \<Rightarrow> JStr s)"

text \<open>The entry of an optional field that is written only when it is truthy.\<close>

definition opt_entry :: "string \<Rightarrow> string option \<Rightarrow> jdict" where
  "opt_entry k x = (case x of Some s \<Rightarrow> if s = [] then [] else [(k, JStr s)] | None \<Rightarrow> [])"

definition jbytes :: "jdict \<Rightarrow> string \<Rightarrow> bytes result" where
  "jbytes d k = (case jstr d k of Inl e \<Rightarrow> Inl e | Inr s \<Rightarrow> b64decode s)"

definition jtime :: "jdict \<Rightarrow> string \<Rightarrow> datetime result" where
  "jtime d k =
     (case jstr d k of
        Inl e \<Rightarrow> Inl e
      | Inr s \<Rightarrow> (case fromisoformat s of None \<Rightarrow> Inl ValueError | Some t \<Rightarrow> Inr t))"

lemma dget_opt_entry [simp]:
  "dget (opt_entry k x) k' = (if k' = k \<and> truthy x then map_option JStr x else None)"
  by (cases x) (auto simp: opt_entry_def)

lemma jopt_str_opt_jstr [simp]: "(case opt_jstr x of JStr s \<Rightarrow> Some s | _ \<Rightarrow> None) = x"
  by (cases x) (simp_all add: opt_jstr_def)

end
