(* ===== verification/Json_Text.thy ===== *)
theory Json_Text
  imports Py_Json
begin

text \<open>
  The JSON text that \<^verbatim>\<open>json.dumps\<close> writes and \<^verbatim>\<open>json.loads\<close> reads, for the programs that send it
  over a connection: the writer with its \<^verbatim>\<open>indent\<close> argument, the reader of CPython's scanner
  with fuel, the proof that the fuel is enough, and the round trip. An escape that
  names a code point above 255 is outside the model and rejected, and the interpreter's limits on
  recursion and on integer digits are not modelled.
\<close>

section \<open>Writing\<close>

definition hex_digit :: "nat \<Rightarrow> char" where
  "hex_digit n = char_of (if n < 10 then 48 + n else 87 + n)"

abbreviation quote_char :: char where
  "quote_char \<equiv> CHR 0x22"

abbreviation backslash :: char where
  "backslash \<equiv> CHR 0x5C"

definition json_char :: "char \<Rightarrow> string" where
  "json_char c =
     (if c = quote_char then [backslash, quote_char]
      else if c = backslash then [backslash, backslash]
      else if cp c = 10 then backslash # ''n''
      else if cp c = 13 then backslash # ''r''
      else if cp c = 9 then backslash # ''t''
      else if cp c = 12 then backslash # ''f''
      else if cp c = 8 then backslash # ''b''
      else if 32 \<le> cp c \<and> cp c \<le> 126 then [c]
      else backslash # ''u00'' @ [hex_digit (cp c div 16), hex_digit (cp c mod 16)])"

definition json_string :: "string \<Rightarrow> string" where
  "json_string s = quote_char # concat (map json_char s) @ [quote_char]"

text \<open>The line break and padding of \<^verbatim>\<open>indent\<close>, and the separator between items.\<close>

definition json_nl :: "nat option \<Rightarrow> nat \<Rightarrow> string" where
  "json_nl ind d = (case ind of None \<Rightarrow> [] | Some k \<Rightarrow> CHR 0x0A # replicate (k * d) (CHR '' ''))"

definition json_sep :: "nat option \<Rightarrow> nat \<Rightarrow> string" where
  "json_sep ind d = CHR '','' # (case ind of None \<Rightarrow> '' '' | Some _ \<Rightarrow> json_nl ind d)"

fun dump_val :: "nat option \<Rightarrow> nat \<Rightarrow> jval \<Rightarrow> string"
  and dump_tail :: "nat option \<Rightarrow> nat \<Rightarrow> jval list \<Rightarrow> string"
  and dump_pairs :: "nat option \<Rightarrow> nat \<Rightarrow> (string \<times> jval) list \<Rightarrow> string" where
  "dump_val ind d JNull = ''null''"
| "dump_val ind d (JBool b) = (if b then ''true'' else ''false'')"
| "dump_val ind d (JInt n) = show_int n"
| "dump_val ind d (JFloat l) = l"
| "dump_val ind d (JStr s) = json_string s"
| "dump_val ind d (JList []) = ''[]''"
| "dump_val ind d (JList (v # vs)) =
     ''['' @ json_nl ind (d + 1) @ dump_val ind (d + 1) v @ dump_tail ind (d + 1) vs @ json_nl ind d
     @ '']''"
| "dump_val ind d (JObj []) = ''{}''"
| "dump_val ind d (JObj ((k, v) # kvs)) =
     ''{'' @ json_nl ind (d + 1) @ json_string k @ '': '' @ dump_val ind (d + 1) v
     @ dump_pairs ind (d + 1) kvs @ json_nl ind d @ ''}''"
| "dump_tail ind d [] = []"
| "dump_tail ind d (v # vs) = json_sep ind d @ dump_val ind d v @ dump_tail ind d vs"
| "dump_pairs ind d [] = []"
| "dump_pairs ind d ((k, v) # kvs) =
     json_sep ind d @ json_string k @ '': '' @ dump_val ind d v @ dump_pairs ind d kvs"

definition json_dumps :: "nat option \<Rightarrow> jval \<Rightarrow> string" where
  "json_dumps ind v = dump_val ind 0 v"

section \<open>Reading\<close>

definition json_ws :: "char \<Rightarrow> bool" where
  "json_ws c \<longleftrightarrow> cp c \<in> {9, 10, 13, 32}"

definition skip_ws :: "string \<Rightarrow> string" where
  "skip_ws s = dropWhile json_ws s"

definition hex_val :: "char \<Rightarrow> nat option" where
  "hex_val c =
     (if is_dec c then Some (cp c - 48)
      else if 97 \<le> cp c \<and> cp c \<le> 102 then Some (cp c - 87)
      else if 65 \<le> cp c \<and> cp c \<le> 70 then Some (cp c - 55)
      else None)"

definition hex_char :: "char \<Rightarrow> char \<Rightarrow> char \<Rightarrow> char \<Rightarrow> char option" where
  "hex_char a b c d =
     (case (hex_val a, hex_val b, hex_val c, hex_val d) of
        (Some 0, Some 0, Some x, Some y) \<Rightarrow> Some (char_of (16 * x + y))
      | _ \<Rightarrow> None)"

definition simple_escape :: "char \<Rightarrow> char option" where
  "simple_escape c =
     map_of [(quote_char, quote_char), (backslash, backslash), (CHR ''/'', CHR ''/''),
       (CHR ''b'', CHR 0x08), (CHR ''f'', CHR 0x0C), (CHR ''n'', CHR 0x0A), (CHR ''r'', CHR 0x0D),
       (CHR ''t'', CHR 0x09)] c"

text \<open>The rest of a string literal after its opening quote.\<close>

fun scan_string :: "string \<Rightarrow> (string \<times> string) option" where
  "scan_string [] = None"
| "scan_string (c # s) =
     (if c = quote_char then Some ([], s)
      else if c = backslash then
        (case s of
           [] \<Rightarrow> None
         | e # t \<Rightarrow>
             if e = CHR ''u'' then
               (case t of
                  h1 # h2 # h3 # h4 # r \<Rightarrow>
                    (case hex_char h1 h2 h3 h4 of
                       None \<Rightarrow> None
                     | Some x \<Rightarrow> map_option (apfst ((#) x)) (scan_string r))
                | _ \<Rightarrow> None)
             else
               (case simple_escape e of
                  None \<Rightarrow> None
                | Some x \<Rightarrow> map_option (apfst ((#) x)) (scan_string t)))
      else if cp c < 32 then None
      else map_option (apfst ((#) c)) (scan_string s))"

definition scan_int :: "string \<Rightarrow> (string \<times> string) option" where
  "scan_int s =
     (let sg = takeWhile (\<lambda>c. c = CHR ''-'') (take 1 s); t = drop (length sg) s in
      case t of
        [] \<Rightarrow> None
      | c # r \<Rightarrow>
          if c = CHR ''0'' then Some (sg @ [c], r)
          else if is_dec c then Some (sg @ takeWhile is_dec t, dropWhile is_dec t)
          else None)"

definition scan_frac :: "string \<Rightarrow> string \<times> string" where
  "scan_frac s =
     (case s of
        [] \<Rightarrow> ([], s)
      | c # t \<Rightarrow>
          if c = CHR ''.'' \<and> takeWhile is_dec t \<noteq> [] then (c # takeWhile is_dec t, dropWhile is_dec t)
          else ([], s))"

definition scan_exp :: "string \<Rightarrow> string \<times> string" where
  "scan_exp s =
     (case s of
        [] \<Rightarrow> ([], s)
      | c # t \<Rightarrow>
          (let sg = takeWhile (\<lambda>x. x = CHR ''-'' \<or> x = CHR ''+'') (take 1 t);
               u = drop (length sg) t
           in if (c = CHR ''e'' \<or> c = CHR ''E'') \<and> takeWhile is_dec u \<noteq> []
              then (c # sg @ takeWhile is_dec u, dropWhile is_dec u)
              else ([], s)))"

definition scan_number :: "string \<Rightarrow> (jval \<times> string) option" where
  "scan_number s =
     (case scan_int s of
        None \<Rightarrow> None
      | Some (num, r) \<Rightarrow>
          (case scan_frac r of (f, r1) \<Rightarrow>
           (case scan_exp r1 of (e, r2) \<Rightarrow>
              if f = [] \<and> e = [] then map_option (\<lambda>n. (JInt n, r2)) (read_signed num)
              else Some (JFloat (num @ f @ e), r2))))"

definition json_words :: "(string \<times> jval) list" where
  "json_words =
     [(''null'', JNull), (''true'', JBool True), (''false'', JBool False), (''NaN'', JFloat ''NaN''),
      (''Infinity'', JFloat ''Infinity''), (''-Infinity'', JFloat ''-Infinity'')]"

definition scan_atom :: "string \<Rightarrow> (jval \<times> string) option" where
  "scan_atom s =
     (case find (\<lambda>(w, _). startswith s w) json_words of
        Some (w, v) \<Rightarrow> Some (v, drop (length w) s)
      | None \<Rightarrow> scan_number s)"

text \<open>A value, the rest of an array and the rest of an object.\<close>

fun parse_val :: "nat \<Rightarrow> string \<Rightarrow> (jval \<times> string) option"
  and parse_items :: "nat \<Rightarrow> jval list \<Rightarrow> string \<Rightarrow> (jval \<times> string) option"
  and parse_pairs :: "nat \<Rightarrow> jdict \<Rightarrow> string \<Rightarrow> (jval \<times> string) option" where
  "parse_val 0 s = None"
| "parse_val (Suc n) s =
     (case s of
        [] \<Rightarrow> None
      | c # t \<Rightarrow>
          if c = quote_char then map_option (apfst JStr) (scan_string t)
          else if c = CHR ''{'' then
            (if take 1 (skip_ws t) = ''}'' then Some (JObj [], drop 1 (skip_ws t))
             else parse_pairs n [] (skip_ws t))
          else if c = CHR ''['' then
            (if take 1 (skip_ws t) = '']'' then Some (JList [], drop 1 (skip_ws t))
             else parse_items n [] (skip_ws t))
          else scan_atom s)"
| "parse_items 0 vs s = None"
| "parse_items (Suc n) vs s =
     (case parse_val n s of
        None \<Rightarrow> None
      | Some (v, r) \<Rightarrow>
          (case skip_ws r of
             [] \<Rightarrow> None
           | c # t \<Rightarrow>
               if c = CHR '']'' then Some (JList (vs @ [v]), t)
               else if c = CHR '','' then parse_items n (vs @ [v]) (skip_ws t)
               else None))"
| "parse_pairs 0 d s = None"
| "parse_pairs (Suc n) d s =
     (if take 1 s \<noteq> [quote_char] then None
      else
        (case scan_string (drop 1 s) of
           None \<Rightarrow> None
         | Some (k, r) \<Rightarrow>
             if take 1 (skip_ws r) \<noteq> '':'' then None
             else
               (case parse_val n (skip_ws (drop 1 (skip_ws r))) of
                  None \<Rightarrow> None
                | Some (v, r2) \<Rightarrow>
                    (case skip_ws r2 of
                       [] \<Rightarrow> None
                     | c # t \<Rightarrow>
                         if c = CHR ''}'' then Some (JObj (dset k v d), t)
                         else if c = CHR '','' then parse_pairs n (dset k v d) (skip_ws t)
                         else None))))"

definition json_loads :: "string \<Rightarrow> jval result" where
  "json_loads s =
     (case parse_val (2 * length s + 1) (skip_ws s) of
        None \<Rightarrow> Inl ValueError
      | Some (v, r) \<Rightarrow> if skip_ws r = [] then Inr v else Inl ValueError)"

section \<open>The fuel is enough\<close>

lemma length_skip_ws: "length (skip_ws s) \<le> length s"
  by (simp add: skip_ws_def length_dropWhile_le)

lemma scan_string_length: "scan_string s = Some (x, r) \<Longrightarrow> length r < length s"
proof (induction s arbitrary: x r rule: scan_string.induct)
  case (2 c s)
  then show ?case by (fastforce split: if_splits list.splits option.splits)
qed simp

lemma scan_int_length: "scan_int s = Some (x, r) \<Longrightarrow> length r < length s"
proof -
  assume a: "scan_int s = Some (x, r)"
  define t where "t = drop (length (takeWhile (\<lambda>c. c = CHR ''-'') (take 1 s))) s"
  then obtain c u where t: "t = c # u" and r: "r = u \<or> r = dropWhile is_dec u"
    using a by (auto simp: scan_int_def Let_def split: list.splits if_splits)
  have "length r \<le> length u" using r length_dropWhile_le by auto
  moreover have "length t \<le> length s" by (simp add: t_def)
  ultimately show ?thesis using t by simp
qed

lemma scan_frac_length: "length (snd (scan_frac s)) \<le> length s"
  by (auto simp: scan_frac_def length_dropWhile_le le_SucI split: list.splits)

lemma scan_exp_length: "length (snd (scan_exp s)) \<le> length s"
  by (auto simp: scan_exp_def Let_def split: list.splits
      intro: order_trans [OF length_dropWhile_le] le_SucI)

lemma scan_atom_length: "scan_atom s = Some (v, r) \<Longrightarrow> length r < length s"
proof (cases "find (\<lambda>(w, _). startswith s w) json_words")
  case None
  assume a: "scan_atom s = Some (v, r)"
  then obtain num q where n: "scan_int s = Some (num, q)" and
      le: "length r \<le> length (snd (scan_exp (snd (scan_frac q))))"
    using None by (auto simp: scan_atom_def scan_number_def split: option.splits prod.splits if_splits)
  show ?thesis
    using scan_int_length [OF n] le scan_exp_length [of "snd (scan_frac q)"] scan_frac_length [of q]
    by linarith
next
  case (Some p)
  assume a: "scan_atom s = Some (v, r)"
  then obtain w u where p: "p = (w, u)" by (cases p)
  have "p \<in> set json_words" using Some by (metis find_Some_iff nth_mem)
  moreover have "startswith s w" using Some p by (auto simp: find_Some_iff)
  ultimately have "startswith s w" "(w, u) \<in> set json_words" using p by auto
  then have "0 < length w" "w = take (length w) s" by (auto simp: json_words_def startswith_def)
  moreover then have "length w \<le> length s" by (metis length_take min.cobounded1)
  ultimately have "0 < length w" "length w \<le> length s" by blast+
  then have "length (drop (length w) s) < length s"
    by (metis diff_less length_drop order_less_le_trans)
  then show ?thesis using a Some p by (auto simp: scan_atom_def)
qed

lemma parse_length:
  shows "parse_val n s = Some (v, r) \<Longrightarrow> length r < length s"
    and "parse_items n vs s = Some (v, r) \<Longrightarrow> length r < length s"
    and "parse_pairs n d s = Some (v, r) \<Longrightarrow> length r < length s"
proof (induction n s and n vs s and n d s arbitrary: v r and v r and v r
    rule: parse_val_parse_items_parse_pairs.induct)
  case (2 n s)
  then show ?case
    using length_skip_ws [of "tl s"]
    by (fastforce split: list.splits if_splits dest: scan_string_length scan_atom_length)
next
  case (4 n vs s)
  from \<open>parse_items (Suc n) vs s = Some (v, r)\<close> obtain w q c t where
      w: "parse_val n s = Some (w, q)" and q: "skip_ws q = c # t"
    by (auto split: option.splits list.splits)
  have l: "length t < length s"
    using "4.IH"(1) [OF w] length_skip_ws [of q] q by simp
  then show ?case
    using "4.prems" w q "4.IH"(2) [OF w refl q] length_skip_ws [of t]
    by (auto split: if_splits)
next
  case (6 n d s)
  then obtain k q w q2 c t where
      k: "take 1 s = [quote_char]" "scan_string (drop 1 s) = Some (k, q)" and
      w: "take 1 (skip_ws q) = '':''" "parse_val n (skip_ws (drop 1 (skip_ws q))) = Some (w, q2)" and
      q: "skip_ws q2 = c # t"
    by (auto split: option.splits list.splits if_splits)
  have "length q2 < length (skip_ws (drop 1 (skip_ws q)))"
    using "6.IH"(1) [OF _ k(2) refl _ w(2)] k w by simp
  then have l: "length t < length s"
    using scan_string_length [OF k(2)] length_skip_ws [of q] length_skip_ws [of q2]
      length_skip_ws [of "drop 1 (skip_ws q)"] q by simp
  then show ?case
    using "6.prems" k w q "6.IH"(2) [OF _ k(2) refl _ w(2) refl q] length_skip_ws [of t]
    by (auto split: if_splits)
qed simp_all

lemma parse_more_fuel:
  shows "2 * length s + 1 \<le> n \<Longrightarrow> parse_val (Suc n) s = parse_val n s"
    and "2 * length s + 2 \<le> n \<Longrightarrow> parse_items (Suc n) vs s = parse_items n vs s"
    and "2 * length s + 2 \<le> n \<Longrightarrow> parse_pairs (Suc n) d s = parse_pairs n d s"
proof (induction n s and n vs s and n d s rule: parse_val_parse_items_parse_pairs.induct)
  case (2 n s)
  show ?case
  proof (cases s)
    case (Cons c t)
    have "2 * length (skip_ws t) + 2 \<le> n" using "2.prems" Cons length_skip_ws [of t] by simp
    then show ?thesis
      using "2.IH" [OF Cons] Cons by (auto simp del: parse_items.simps parse_pairs.simps)
  qed simp
next
  case (4 n vs s)
  have v: "parse_val (Suc n) s = parse_val n s" using "4.IH"(1) "4.prems" by simp
  show ?case
  proof (cases "parse_val n s")
    case (Some p)
    then obtain w q where w: "parse_val n s = Some (w, q)" by (cases p) auto
    show ?thesis
    proof (cases "skip_ws q")
      case (Cons c t)
      have "2 * length (skip_ws t) + 2 \<le> n"
        using parse_length(1) [OF w] length_skip_ws [of q] length_skip_ws [of t] Cons "4.prems" by simp
      then show ?thesis using "4.IH"(2) [OF w refl Cons] w Cons v by (simp del: parse_val.simps)
    qed (use w v in \<open>simp del: parse_val.simps\<close>)
  qed (use v in \<open>simp del: parse_val.simps\<close>)
next
  case (6 n d s)
  show ?case
  proof (cases "take 1 s = [quote_char] \<and> (\<exists>k q. scan_string (drop 1 s) = Some (k, q)
                  \<and> take 1 (skip_ws q) = '':'')")
    case True
    then obtain k q where k: "take 1 s = [quote_char]" "scan_string (drop 1 s) = Some (k, q)"
      "take 1 (skip_ws q) = '':''" by blast
    let ?r = "skip_ws (drop 1 (skip_ws q))"
    have r: "2 * length ?r + 2 \<le> n" "length ?r < length s"
      using scan_string_length [OF k(2)] length_skip_ws [of q] length_skip_ws [of "drop 1 (skip_ws q)"]
        "6.prems" by auto
    have v: "parse_val (Suc n) ?r = parse_val n ?r" using "6.IH"(1) [of _ k q] k r by simp
    show ?thesis
    proof (cases "parse_val n ?r")
      case (Some p)
      then obtain w q2 where w: "parse_val n ?r = Some (w, q2)" by (cases p) auto
      show ?thesis
      proof (cases "skip_ws q2")
        case (Cons c t)
        have "2 * length (skip_ws t) + 2 \<le> n"
          using parse_length(1) [OF w] length_skip_ws [of q2] length_skip_ws [of t] Cons r by simp
        then show ?thesis using "6.IH"(2) [OF _ k(2) refl _ w refl Cons] k w Cons v
          by (simp del: parse_val.simps)
      qed (use k w v in \<open>simp del: parse_val.simps\<close>)
    qed (use k v in \<open>simp del: parse_val.simps\<close>)
  qed (auto simp del: parse_val.simps split: option.splits)
qed simp_all

lemma parse_fuel_enough:
  "2 * length s + 1 \<le> n \<Longrightarrow> parse_val (n + k) s = parse_val n s"
  by (induction k) (simp_all add: parse_more_fuel(1) del: parse_val.simps)

section \<open>The text of strings and numbers\<close>

lemma json_char_parts:
  "c \<noteq> quote_char \<Longrightarrow> c \<noteq> backslash \<Longrightarrow> 32 \<le> cp c \<Longrightarrow> cp c \<le> 126 \<Longrightarrow> json_char c = [c]"
  by (auto simp: json_char_def cp_def)

lemma hex_val_digit [simp]: "n < 16 \<Longrightarrow> hex_val (hex_digit n) = Some n"
  by (auto simp: hex_val_def hex_digit_def is_dec_def)

lemma hex_char_of: "hex_char (CHR ''0'') (CHR ''0'') (hex_digit (cp c div 16)) (hex_digit (cp c mod 16))
    = Some c"
proof -
  have "hex_val (CHR ''0'') = Some 0" by (simp add: hex_val_def is_dec_def cp_def)
  moreover have "cp c div 16 < 16" using cp_less [of c] by (simp add: less_mult_imp_div_less)
  ultimately show ?thesis by (simp add: hex_char_def)
qed

lemma cp_control:
  "cp c = 8 \<longleftrightarrow> c = CHR 0x08" "cp c = 9 \<longleftrightarrow> c = CHR 0x09" "cp c = 10 \<longleftrightarrow> c = CHR 0x0A"
  "cp c = 12 \<longleftrightarrow> c = CHR 0x0C" "cp c = 13 \<longleftrightarrow> c = CHR 0x0D"
  using cp_inject [of c "CHR 0x08"] cp_inject [of c "CHR 0x09"] cp_inject [of c "CHR 0x0A"]
    cp_inject [of c "CHR 0x0C"] cp_inject [of c "CHR 0x0D"]
  by (simp_all add: cp_def)

lemma scan_json_char:
  "scan_string (json_char c @ s) = map_option (apfst ((#) c)) (scan_string s)"
proof (cases "c = quote_char \<or> c = backslash \<or> cp c \<in> {8, 9, 10, 12, 13}")
  case True
  then show ?thesis by (auto simp: cp_control json_char_def simple_escape_def)
next
  case False
  then show ?thesis
  proof (cases "32 \<le> cp c \<and> cp c \<le> 126")
    case True
    then show ?thesis using False by (simp add: json_char_parts)
  next
    case out: False
    then have "json_char c = backslash # ''u00'' @ [hex_digit (cp c div 16), hex_digit (cp c mod 16)]"
      using False by (auto simp: json_char_def)
    then show ?thesis by (simp add: hex_char_of)
  qed
qed

lemma scan_json_string: "scan_string (concat (map json_char x) @ quote_char # s) = Some (x, s)"
  by (induction x) (simp_all add: scan_json_char del: scan_string.simps(2), simp)

lemma skip_ws_nl: "c \<notin> {CHR 0x09, CHR 0x0A, CHR 0x0D, CHR 0x20} \<Longrightarrow>
    skip_ws (json_nl ind d @ c # s) = c # s"
proof -
  assume c: "c \<notin> {CHR 0x09, CHR 0x0A, CHR 0x0D, CHR 0x20}"
  have "\<not> json_ws c"
    using c cp_inject [of c "CHR 0x09"] cp_inject [of c "CHR 0x0A"] cp_inject [of c "CHR 0x0D"]
      cp_inject [of c "CHR 0x20"]
    by (auto simp: json_ws_def cp_def)
  moreover have "\<forall>x \<in> set (json_nl ind d). json_ws x"
    by (auto simp: json_nl_def json_ws_def cp_def split: option.splits)
  ultimately show ?thesis by (simp add: skip_ws_def dropWhile_append3 dropWhile_append2)
qed

lemma skip_ws_plain: "c \<notin> {CHR 0x09, CHR 0x0A, CHR 0x0D, CHR 0x20} \<Longrightarrow> skip_ws (c # s) = c # s"
  using skip_ws_nl [of c None] by (simp add: json_nl_def)

lemma skip_ws_space: "skip_ws (CHR '' '' # s) = skip_ws s"
  by (simp add: skip_ws_def json_ws_def cp_def)

lemma json_sep_eq:
  "json_sep ind d = CHR '','' # (if ind = None then '' '' else json_nl ind d)"
  by (auto simp: json_sep_def split: option.splits)

lemma skip_ws_sep: "c \<notin> {CHR 0x09, CHR 0x0A, CHR 0x0D, CHR 0x20} \<Longrightarrow>
    skip_ws (tl (json_sep ind d) @ c # s) = c # s"
  by (simp add: json_sep_eq skip_ws_nl skip_ws_plain skip_ws_space)

lemma show_nat_hd: "n \<noteq> 0 \<Longrightarrow> hd (show_nat n) \<noteq> CHR ''0''"
proof (induction n rule: show_nat.induct)
  case (1 n)
  show ?case
  proof (cases "n < 10")
    case True
    have "cp (digit_char n) = 48 + n" "cp (CHR ''0'') = 48"
      using True by (simp_all add: digit_char_def, simp add: cp_def)
    then have "digit_char n \<noteq> CHR ''0''" using "1.prems" by (metis add.right_neutral add_left_cancel)
    then show ?thesis using True by (simp add: show_nat.simps [of n])
  next
    case False
    then show ?thesis using 1 by (simp add: show_nat.simps [of n])
  qed
qed

definition ends_value :: "string \<Rightarrow> bool" where
  "ends_value r \<longleftrightarrow> r = [] \<or> hd r \<in> {CHR '','', CHR ''}'', CHR '']'', CHR 0x0A}"

lemma ends_value_scan:
  assumes "ends_value r"
  shows "takeWhile is_dec r = []" "scan_frac r = ([], r)" "scan_exp r = ([], r)"
proof -
  consider "r = []" | c t where "r = c # t" "c \<in> {CHR '','', CHR ''}'', CHR '']'', CHR 0x0A}"
    using assms by (cases r) (auto simp: ends_value_def)
  then show "takeWhile is_dec r = []" "scan_frac r = ([], r)" "scan_exp r = ([], r)"
    by (cases; auto simp: is_dec_def cp_def scan_frac_def scan_exp_def)+
qed

lemma take_dec_show_nat:
  assumes "ends_value r"
  shows "takeWhile is_dec (show_nat n @ r) = show_nat n" "dropWhile is_dec (show_nat n @ r) = r"
proof -
  have "\<forall>c \<in> set (show_nat n). is_dec c" using show_nat_digits by blast
  then show "takeWhile is_dec (show_nat n @ r) = show_nat n"
    using ends_value_scan(1) [OF assms] by (simp add: takeWhile_append2)
  then show "dropWhile is_dec (show_nat n @ r) = r"
    by (metis append_same_eq takeWhile_dropWhile_id same_append_eq)
qed

lemma scan_int_show:
  assumes "ends_value r"
  shows "scan_int (show_int i @ r) = Some (show_int i, r)"
proof -
  define n where "n = nat \<bar>i\<bar>"
  obtain c t where ct: "show_nat n = c # t" by (cases "show_nat n") auto
  have d: "is_dec c" using show_nat_digits [of c n] ct by simp
  then have nm: "c \<noteq> CHR ''-''" by (auto dest: is_dec_not_sign)
  have z: "c = CHR ''0'' \<Longrightarrow> t = []" using show_nat_hd [of n] ct by (cases "n = 0") (auto simp: show_nat.simps [of 0])
  have tw: "takeWhile is_dec (t @ r) = t" "dropWhile is_dec (t @ r) = r"
    using take_dec_show_nat [OF assms, of n] ct d by simp_all
  show ?thesis
  proof (cases "i < 0")
    case True
    then have "show_int i = CHR ''-'' # c # t" using ct by (simp add: show_int_def n_def)
    then show ?thesis using d nm z tw by (auto simp: scan_int_def Let_def)
  next
    case False
    then have "show_int i = c # t" using ct by (simp add: show_int_def n_def)
    then show ?thesis using d nm z tw by (auto simp: scan_int_def Let_def)
  qed
qed

lemma show_int_hd: "\<exists>c t. show_int i = c # t \<and> (is_dec c \<or> c = CHR ''-'')
    \<and> (c = CHR ''-'' \<longrightarrow> t \<noteq> [] \<and> is_dec (hd t))"
proof -
  obtain c t where ct: "show_nat (nat \<bar>i\<bar>) = c # t" by (cases "show_nat (nat \<bar>i\<bar>)") auto
  have d: "is_dec c" using show_nat_digits [of c "nat \<bar>i\<bar>"] ct by simp
  show ?thesis
  proof (cases "i < 0")
    case True
    then show ?thesis using ct d by (simp add: show_int_def)
  next
    case False
    then have "show_int i = c # t" using ct by (simp add: show_int_def)
    then show ?thesis using d is_dec_not_sign by blast
  qed
qed

lemma no_json_word:
  assumes "is_dec c \<or> c = CHR ''-''" "c = CHR ''-'' \<longrightarrow> t \<noteq> [] \<and> is_dec (hd t)"
  shows "find (\<lambda>(w, _). startswith (c # t) w) json_words = None"
proof -
  have d: "\<not> is_dec (CHR ''n'')" "\<not> is_dec (CHR ''t'')" "\<not> is_dec (CHR ''f'')"
    "\<not> is_dec (CHR ''N'')" "\<not> is_dec (CHR ''I'')"
    by (simp_all add: is_dec_def cp_def)
  then have "c \<noteq> CHR ''n''" "c \<noteq> CHR ''t''" "c \<noteq> CHR ''f''" "c \<noteq> CHR ''N''" "c \<noteq> CHR ''I''"
    using assms(1) by auto
  moreover have "c = CHR ''-'' \<Longrightarrow> hd t \<noteq> CHR ''I''" using assms(2) d by auto
  ultimately show ?thesis
    by (cases t) (auto simp: json_words_def startswith_def)
qed

lemma scan_atom_show:
  assumes "ends_value r"
  shows "scan_atom (show_int i @ r) = Some (JInt i, r)"
proof -
  obtain c t where ct: "show_int i = c # t" "is_dec c \<or> c = CHR ''-''"
    "c = CHR ''-'' \<longrightarrow> t \<noteq> [] \<and> is_dec (hd t)"
    using show_int_hd by blast
  have "find (\<lambda>(w, _). startswith (c # (t @ r)) w) json_words = None"
    by (rule no_json_word) (use ct in auto)
  then have "find (\<lambda>(w, _). startswith (show_int i @ r) w) json_words = None"
    by (simp only: ct(1) append_Cons)
  then show ?thesis
    unfolding scan_atom_def scan_number_def
    by (simp only: option.case scan_int_show [OF assms] prod.case ends_value_scan [OF assms]
        read_signed_show_int option.map simp_thms if_True)
qed

section \<open>The round trip\<close>

text \<open>
  A value without floats whose objects have distinct keys at every level. Python objects that come
  from dictionaries are of this kind.
\<close>

fun json_ok :: "jval \<Rightarrow> bool"
  and json_oks :: "jval list \<Rightarrow> bool"
  and json_ok_pairs :: "(string \<times> jval) list \<Rightarrow> bool" where
  "json_ok JNull = True"
| "json_ok (JBool b) = True"
| "json_ok (JInt n) = True"
| "json_ok (JFloat l) = False"
| "json_ok (JStr s) = True"
| "json_ok (JList vs) = json_oks vs"
| "json_ok (JObj d) = (distinct (dkeys d) \<and> json_ok_pairs d)"
| "json_oks [] = True"
| "json_oks (v # vs) = (json_ok v \<and> json_oks vs)"
| "json_ok_pairs [] = True"
| "json_ok_pairs ((k, v) # kvs) = (json_ok v \<and> json_ok_pairs kvs)"

lemma json_oks_iff [simp]: "json_oks vs \<longleftrightarrow> (\<forall>v \<in> set vs. json_ok v)"
  by (induction vs) simp_all

lemma json_ok_pairs_iff [simp]: "json_ok_pairs d \<longleftrightarrow> (\<forall>p \<in> set d. json_ok (snd p))"
  by (induction d) auto

lemma dump_val_hd:
  assumes "json_ok v"
  shows "\<exists>c t. dump_val ind d v = c # t \<and> c \<notin> {CHR 0x09, CHR 0x0A, CHR 0x0D, CHR 0x20} \<and> c \<noteq> CHR '']''"
proof (cases v)
  case (JInt i)
  obtain c t where ct: "show_int i = c # t" "is_dec c \<or> c = CHR ''-''" using show_int_hd by blast
  have "\<not> is_dec (CHR 0x09)" "\<not> is_dec (CHR 0x0A)" "\<not> is_dec (CHR 0x0D)" "\<not> is_dec (CHR 0x20)" "\<not> is_dec (CHR '']'')"
    by (simp_all add: is_dec_def cp_def)
  then show ?thesis using ct JInt by auto
next
  case (JStr s)
  then show ?thesis by (simp add: json_string_def)
next
  case (JList vs)
  then show ?thesis by (cases vs) simp_all
next
  case (JObj kvs)
  then show ?thesis by (cases kvs) auto
qed (use assms in simp_all)

lemma parse_scalar:
  assumes "json_ok v" "\<And>vs. v \<noteq> JList vs" "\<And>kvs. v \<noteq> JObj kvs" "ends_value r"
  shows "parse_val (Suc n) (dump_val ind d v @ r) = Some (v, r)"
proof (cases v)
  case (JInt i)
  obtain c t where ct: "show_int i = c # t" "is_dec c \<or> c = CHR ''-''" using show_int_hd by blast
  have "\<not> is_dec quote_char" "\<not> is_dec (CHR ''{'')" "\<not> is_dec (CHR ''['')"
    by (simp_all add: is_dec_def cp_def)
  then have "c \<noteq> quote_char" "c \<noteq> CHR ''{''" "c \<noteq> CHR ''[''" using ct(2) by auto
  then have "parse_val (Suc n) (show_int i @ r) = scan_atom (show_int i @ r)"
    by (simp only: ct(1) append_Cons parse_val.simps list.case if_False)
  then show ?thesis by (simp only: scan_atom_show [OF assms(4)] JInt dump_val.simps)
next
  case (JStr s)
  then show ?thesis by (simp add: json_string_def scan_json_string)
qed (use assms(1-3) in \<open>simp_all add: scan_atom_def json_words_def startswith_def\<close>)

lemma ends_value_tail: "ends_value (dump_tail ind d vs @ json_nl ind e @ '']'' @ r)"
  by (cases vs; cases ind) (simp_all add: ends_value_def json_nl_def json_sep_eq)

lemma ends_value_pairs: "ends_value (dump_pairs ind d kvs @ json_nl ind e @ ''}'' @ r)"
  by (cases kvs; cases ind) (auto simp: ends_value_def json_nl_def json_sep_eq)

text \<open>The text of a value is read back with what follows it.\<close>

definition reads_back :: "nat option \<Rightarrow> nat \<Rightarrow> jval \<Rightarrow> bool" where
  "reads_back ind d v \<longleftrightarrow>
     (\<forall>r n. ends_value r \<longrightarrow> 2 * length (dump_val ind d v @ r) + 1 \<le> n
        \<longrightarrow> parse_val n (dump_val ind d v @ r) = Some (v, r))"

lemma parse_items_dump:
  assumes "\<forall>w \<in> set (v # vs). json_ok w \<and> reads_back ind d w"
    and "2 * length (dump_val ind d v @ dump_tail ind d vs @ json_nl ind e @ '']'' @ r) + 2 \<le> n"
  shows "parse_items n acc (dump_val ind d v @ dump_tail ind d vs @ json_nl ind e @ '']'' @ r) = Some (JList (acc @ v # vs), r)"
  using assms
proof (induction vs arbitrary: v acc n)
  case Nil
  then obtain m where n: "n = Suc m" by (cases n) auto
  let ?z = "json_nl ind e @ '']'' @ r"
  have "parse_val m (dump_val ind d v @ ?z) = Some (v, ?z)"
    using Nil n ends_value_tail [of ind d "[]" e r] by (auto simp: reads_back_def)
  then show ?case by (simp add: n skip_ws_nl del: parse_val.simps)
next
  case (Cons w ws)
  obtain m where n: "n = Suc m" using Cons.prems(2) by (cases n) auto
  let ?t = "dump_val ind d w @ dump_tail ind d ws @ json_nl ind e @ '']'' @ r"
  let ?z = "dump_tail ind d (w # ws) @ json_nl ind e @ '']'' @ r"
  obtain c u where c: "dump_val ind d w = c # u" "c \<notin> {CHR 0x09, CHR 0x0A, CHR 0x0D, CHR 0x20}"
    using dump_val_hd Cons.prems(1) by (metis list.set_intros(1) list.set_intros(2))
  have v: "parse_val m (dump_val ind d v @ ?z) = Some (v, ?z)"
    using Cons.prems n ends_value_tail [of ind d "w # ws" e r] unfolding reads_back_def by auto
  have z: "skip_ws ?z = CHR '','' # tl (json_sep ind d) @ ?t" by (simp add: json_sep_eq skip_ws_plain)
  have w: "skip_ws (tl (json_sep ind d) @ ?t) = ?t" using c by (simp add: skip_ws_sep)
  have "1 \<le> length (json_sep ind d)" by (simp add: json_sep_eq)
  then have "parse_items m (acc @ [v]) ?t = Some (JList ((acc @ [v]) @ w # ws), r)"
    by (intro Cons.IH) (use Cons.prems n in auto)
  then show ?case using v z w by (simp add: n del: parse_val.simps dump_tail.simps)
qed

lemma parse_pairs_dump:
  assumes "\<forall>w \<in> set (v # dvalues kvs). json_ok w \<and> reads_back ind d w"
    and "distinct (dkeys d0 @ k # dkeys kvs)"
    and "2 * length (json_string k @ '': '' @ dump_val ind d v @ dump_pairs ind d kvs @ json_nl ind e @ ''}'' @ r) + 2 \<le> n"
  shows "parse_pairs n d0
     (json_string k @ '': '' @ dump_val ind d v @ dump_pairs ind d kvs @ json_nl ind e @ ''}'' @ r)
   = Some (JObj (d0 @ (k, v) # kvs), r)"
  using assms
proof (induction kvs arbitrary: k v d0 n)
  case Nil
  then obtain m where n: "n = Suc m" by (cases n) auto
  let ?z = "json_nl ind e @ ''}'' @ r"
  have v: "parse_val m (dump_val ind d v @ ?z) = Some (v, ?z)"
    using Nil n ends_value_pairs [of ind d "[]" e r] by (auto simp: reads_back_def)
  obtain c t where c: "dump_val ind d v = c # t" "c \<notin> {CHR 0x09, CHR 0x0A, CHR 0x0D, CHR 0x20}"
    using dump_val_hd Nil.prems(1) by (metis list.set_intros(1))
  have "skip_ws (CHR '' '' # dump_val ind d v @ ?z) = dump_val ind d v @ ?z"
    using c by (simp add: skip_ws_space skip_ws_plain)
  then show ?case
    using v Nil.prems(2)
    by (simp add: n json_string_def scan_json_string skip_ws_plain skip_ws_nl dset_new del: parse_val.simps)
next
  case (Cons p kvs)
  obtain k2 v2 where p: "p = (k2, v2)" by (cases p)
  obtain m where n: "n = Suc m" using Cons.prems(3) by (cases n) auto
  let ?t = "json_string k2 @ '': '' @ dump_val ind d v2 @ dump_pairs ind d kvs @ json_nl ind e @ ''}'' @ r"
  let ?z = "dump_pairs ind d (p # kvs) @ json_nl ind e @ ''}'' @ r"
  have v: "parse_val m (dump_val ind d v @ ?z) = Some (v, ?z)"
    using Cons.prems n ends_value_pairs [of ind d "p # kvs" e r] unfolding reads_back_def by auto
  obtain c t where c: "dump_val ind d v = c # t" "c \<notin> {CHR 0x09, CHR 0x0A, CHR 0x0D, CHR 0x20}"
    using dump_val_hd Cons.prems(1) by (metis list.set_intros(1))
  have s: "skip_ws (CHR '' '' # dump_val ind d v @ ?z) = dump_val ind d v @ ?z"
    using c by (simp add: skip_ws_space skip_ws_plain)
  have z: "skip_ws ?z = CHR '','' # tl (json_sep ind d) @ ?t" by (simp add: p json_sep_eq skip_ws_plain)
  have w: "skip_ws (tl (json_sep ind d) @ ?t) = ?t" by (simp add: json_string_def skip_ws_sep)
  have "1 \<le> length (json_sep ind d)" by (simp add: json_sep_eq)
  then have "parse_pairs m (d0 @ [(k, v)]) ?t = Some (JObj ((d0 @ [(k, v)]) @ (k2, v2) # kvs), r)"
    by (intro Cons.IH) (use Cons.prems p n in auto)
  then show ?case
    using v s z w Cons.prems(2)
    by (simp add: n json_string_def scan_json_string skip_ws_plain dset_new p del: parse_val.simps)
qed

lemma scalar_reads_back:
  assumes "json_ok v" "\<And>vs. v \<noteq> JList vs" "\<And>kvs. v \<noteq> JObj kvs"
  shows "reads_back ind d v"
  unfolding reads_back_def
proof (intro allI impI)
  fix r n assume "ends_value r" "2 * length (dump_val ind d v @ r) + 1 \<le> n"
  then show "parse_val n (dump_val ind d v @ r) = Some (v, r)"
    using parse_scalar [OF assms, of r "n - 1" ind d] by (cases n) (simp_all del: parse_val.simps)
qed

lemma value_reads_back: "json_ok v \<Longrightarrow> reads_back ind d v"
proof (induction v arbitrary: d)
  case (JList vs)
  have "parse_val n (dump_val ind d (JList vs) @ r) = Some (JList vs, r)"
    if e: "ends_value r" and l: "2 * length (dump_val ind d (JList vs) @ r) + 1 \<le> n" for r n
  proof (cases vs)
    case Nil
    then show ?thesis using l by (cases n) (simp_all add: skip_ws_plain)
  next
    case (Cons w ws)
    obtain m where n: "n = Suc m" using l by (cases n) auto
    let ?t = "dump_val ind (d + 1) w @ dump_tail ind (d + 1) ws @ json_nl ind d @ '']'' @ r"
    obtain c u where c: "dump_val ind (d + 1) w = c # u" "c \<notin> {CHR 0x09, CHR 0x0A, CHR 0x0D, CHR 0x20}" "c \<noteq> CHR '']''"
      using dump_val_hd [of w ind "d + 1"] JList.prems Cons by auto
    have s: "skip_ws (json_nl ind (d + 1) @ ?t) = ?t" "take 1 ?t \<noteq> '']''" using c by (simp_all add: skip_ws_nl)
    have "parse_items m [] ?t = Some (JList ([] @ w # ws), r)"
      by (rule parse_items_dump) (use JList Cons l n in auto)
    then show ?thesis using s by (simp add: Cons n)
  qed
  then show ?case by (simp add: reads_back_def)
next
  case (JObj kvs)
  have ih: "reads_back ind d w" if "w \<in> snd ` set kvs" for w d
    using that JObj by (auto simp: snds.simps)
  have "parse_val n (dump_val ind d (JObj kvs) @ r) = Some (JObj kvs, r)"
    if e: "ends_value r" and l: "2 * length (dump_val ind d (JObj kvs) @ r) + 1 \<le> n" for r n
  proof (cases kvs)
    case Nil
    then show ?thesis using l by (cases n) (simp_all add: skip_ws_plain)
  next
    case (Cons p ps)
    obtain k v where p: "p = (k, v)" by (cases p)
    obtain m where n: "n = Suc m" using l by (cases n) auto
    let ?t = "json_string k @ '': '' @ dump_val ind (d + 1) v @ dump_pairs ind (d + 1) ps @ json_nl ind d @ ''}'' @ r"
    have s: "skip_ws (json_nl ind (d + 1) @ ?t) = ?t" "take 1 ?t \<noteq> ''}''" by (simp_all add: json_string_def skip_ws_nl)
    have "parse_pairs m [] ?t = Some (JObj ([] @ (k, v) # ps), r)"
      by (rule parse_pairs_dump) (use JObj.prems ih Cons p l n in auto)
    then show ?thesis using s by (simp add: Cons p n)
  qed
  then show ?case by (simp add: reads_back_def)
next
  case (JFloat l)
  then show ?case by simp
qed (simp_all only: scalar_reads_back json_ok.simps jval.distinct not_False_eq_True HOL.simp_thms)

lemma json_roundtrip:
  assumes "json_ok v"
  shows "json_loads (json_dumps ind v) = Inr v"
proof -
  have e: "ends_value []" by (simp add: ends_value_def)
  have "parse_val (2 * length (json_dumps ind v) + 1) (json_dumps ind v @ []) = Some (v, [])"
    by (rule value_reads_back [OF assms, of ind 0, unfolded reads_back_def, rule_format, OF e, folded json_dumps_def]) simp
  moreover have "skip_ws (json_dumps ind v) = json_dumps ind v"
    using dump_val_hd [OF assms, of ind 0] by (auto simp: json_dumps_def skip_ws_plain)
  ultimately show ?thesis by (simp add: json_loads_def skip_ws_def del: parse_val.simps)
qed

text \<open>Without indentation the text is one line.\<close>

lemma json_string_line: "CHR 0x0A \<notin> set (json_string s)"
proof -
  have h: "hex_digit n \<noteq> CHR 0x0A" if "n < 16" for n
  proof -
    have "48 \<le> cp (hex_digit n)" using that by (simp add: hex_digit_def)
    moreover have "cp (CHR 0x0A) = 10" by (simp add: cp_def)
    ultimately show ?thesis by (intro notI) simp
  qed
  have "CHR 0x0A \<notin> set (json_char c)" for c
    using h [of "cp c div 16"] h [of "cp c mod 16"] cp_less [of c]
    by (auto simp: json_char_def cp_def less_mult_imp_div_less)
  then show ?thesis by (auto simp: json_string_def)
qed

lemma json_line: "json_ok v \<Longrightarrow> CHR 0x0A \<notin> set (dump_val None d v)"
  and "json_oks vs \<Longrightarrow> CHR 0x0A \<notin> set (dump_tail None d vs)"
  and "json_ok_pairs kvs \<Longrightarrow> CHR 0x0A \<notin> set (dump_pairs None d kvs)"
proof (induction "None :: nat option" d v and "None :: nat option" d vs and "None :: nat option" d kvs
    rule: dump_val_dump_tail_dump_pairs.induct)
  case (3 d n)
  have "\<not> is_dec (CHR 0x0A)" by (simp add: is_dec_def cp_def)
  then show ?case using show_nat_digits by (auto simp: show_int_def)
qed (auto simp: json_string_line json_nl_def json_sep_def)

text \<open>Flat objects: their values are strings and integers.\<close>

fun flat_val :: "jval \<Rightarrow> bool" where
  "flat_val (JStr _) = True"
| "flat_val (JInt _) = True"
| "flat_val _ = False"

definition flat :: "jdict \<Rightarrow> bool" where
  "flat d \<longleftrightarrow> distinct (dkeys d) \<and> (\<forall>v \<in> set (dvalues d). flat_val v)"

lemma flat_json_ok: "flat d \<Longrightarrow> json_ok (JObj d)"
proof -
  have "flat_val v \<Longrightarrow> json_ok v" for v by (cases v) simp_all
  then show "flat d \<Longrightarrow> json_ok (JObj d)" by (auto simp: flat_def)
qed

lemma json_flat_roundtrip: "flat d \<Longrightarrow> json_loads (json_dumps ind (JObj d)) = Inr (JObj d)"
  by (rule json_roundtrip [OF flat_json_ok])

text \<open>Text that a value cannot start with, or that ends too early, is refused.\<close>

lemma json_loads_empty: "json_loads [] = Inl ValueError"
  by (simp add: json_loads_def skip_ws_def)

lemma json_loads_brace: "json_loads ''{'' = Inl ValueError"
proof -
  have "skip_ws ''{'' = ''{''" "skip_ws [] = []" by (simp_all add: skip_ws_plain, simp add: skip_ws_def)
  then show ?thesis by (simp add: json_loads_def numeral_3_eq_3)
qed

end
