(* ===== verification/Bencode.thy ===== *)
theory Bencode
  imports Py_Bytes
begin

text \<open>
  The bencode codec of the DHT node (\<^verbatim>\<open>SimpleDHTNode._bencode\<close>, \<^verbatim>\<open>_bdecode\<close> and
  \<^verbatim>\<open>_bdecode_item\<close> in \<^verbatim>\<open>src/wh/wns/dht.py\<close>). Decoding works on positions in the datagram, as
  the code does, so a position may become negative. A decoder that may not return takes fuel:
  the outer \<^const>\<open>None\<close> is "did not return within the fuel", the inner sum is a Python
  exception or the decoded value with the next position.
\<close>

section \<open>Values and the encoder\<close>

datatype bval =
    BInt int
  | BBool bool
  | BBytes bytes
  | BStr string
  | BList "bval list"
  | BDict "(bval \<times> bval) list"
  | BOther

text \<open>The sort key of a dictionary entry; \<^const>\<open>None\<close> where \<^verbatim>\<open>x[0].encode()\<close> raises.\<close>

definition key_bytes :: "bval \<Rightarrow> bytes option" where
  "key_bytes k =
     (case k of BBytes b \<Rightarrow> Some b | BStr s \<Rightarrow> Some (encode_utf8 s) | _ \<Rightarrow> None)"

definition sort_items :: "(bval \<times> bval) list \<Rightarrow> (bval \<times> bval) list" where
  "sort_items kvs = sort_key (\<lambda>kv. the (key_bytes (fst kv))) kvs"

definition enc_bytes :: "bytes \<Rightarrow> bytes" where
  "enc_bytes b = encode_utf8 (show_int (int (length b)) @ '':'') @ b"

definition join_result :: "bytes list result \<Rightarrow> char \<Rightarrow> bytes result" where
  "join_result r c =
     (case r of Inl e \<Rightarrow> Inl e | Inr bs \<Rightarrow> Inr (lit [c] @ concat bs @ lit ''e''))"

definition pair_result :: "bytes result \<Rightarrow> bytes result \<Rightarrow> bytes result" where
  "pair_result r s =
     (case r of Inl e \<Rightarrow> Inl e | Inr b \<Rightarrow> (case s of Inl e \<Rightarrow> Inl e | Inr c \<Rightarrow> Inr (b @ c)))"

lemma set_sort_items [simp]: "set (sort_items kvs) = set kvs"
  by (simp add: sort_items_def)

lemma bval_pair_size:
  "kv \<in> set kvs \<Longrightarrow> size (fst kv) < Suc (size_list (size_prod size size) kvs)
     \<and> size (snd kv) < Suc (size_list (size_prod size size) kvs)"
  by (induction kvs) (auto simp: less_Suc_eq_le)

function bencode :: "bval \<Rightarrow> bytes result" where
  "bencode (BInt i) = Inr (encode_utf8 (''i'' @ show_int i @ ''e''))"
| "bencode (BBool b) = Inr (encode_utf8 (''i'' @ (if b then ''True'' else ''False'') @ ''e''))"
| "bencode (BBytes b) = Inr (enc_bytes b)"
| "bencode (BStr s) = Inr (enc_bytes (encode_utf8 s))"
| "bencode (BList xs) = join_result (seq_results (map (\<lambda>x. bencode x) xs)) CHR ''l''"
| "bencode (BDict kvs) =
     (if \<exists>kv \<in> set kvs. key_bytes (fst kv) = None then Inl AttributeError
      else join_result
             (seq_results (map (\<lambda>kv. pair_result (bencode (fst kv)) (bencode (snd kv)))
               (sort_items kvs))) CHR ''d'')"
| "bencode BOther = Inl TypeError"
  by pat_completeness auto
termination
  by (relation "measure size")
    (auto simp: less_Suc_eq_le bval_pair_size[simplified less_Suc_eq_le] intro: size_list_estimation')

section \<open>The decoder\<close>

text \<open>A key that Python can hash; decoded keys are integers, byte strings, lists or dictionaries.\<close>

fun hashable :: "bval \<Rightarrow> bool" where
  "hashable (BList _) = False"
| "hashable (BDict _) = False"
| "hashable _ = True"

fun bdecode_item :: "nat \<Rightarrow> bytes \<Rightarrow> int \<Rightarrow> (bval \<times> int) result option"
  and bdecode_list :: "nat \<Rightarrow> bytes \<Rightarrow> int \<Rightarrow> bval list \<Rightarrow> (bval \<times> int) result option"
  and bdecode_dict :: "nat \<Rightarrow> bytes \<Rightarrow> int \<Rightarrow> (bval, bval) dict \<Rightarrow> (bval \<times> int) result option"
where
  "bdecode_item 0 data pos = None"
| "bdecode_item (Suc fuel) data pos =
     (if pslice data pos (pos + 1) = lit ''i'' then
        Some (case pindex data (byte_of CHR ''e'') pos of
                None \<Rightarrow> Inl ValueError
              | Some end \<Rightarrow>
                  (case py_int_bytes (pslice data (pos + 1) end) of
                     None \<Rightarrow> Inl ValueError
                   | Some n \<Rightarrow> Inr (BInt n, end + 1)))
      else if pslice data pos (pos + 1) = lit ''l'' then bdecode_list fuel data (pos + 1) []
      else if pslice data pos (pos + 1) = lit ''d'' then bdecode_dict fuel data (pos + 1) []
      else
        Some (case pindex data (byte_of CHR '':'') pos of
                None \<Rightarrow> Inl ValueError
              | Some colon \<Rightarrow>
                  (case py_int_bytes (pslice data pos colon) of
                     None \<Rightarrow> Inl ValueError
                   | Some len \<Rightarrow>
                       Inr (BBytes (pslice data (colon + 1) (colon + 1 + len)), colon + 1 + len))))"
| "bdecode_list 0 data pos items = None"
| "bdecode_list (Suc fuel) data pos items =
     (if pslice data pos (pos + 1) = lit ''e'' then Some (Inr (BList items, pos + 1))
      else (case bdecode_item fuel data pos of
              None \<Rightarrow> None
            | Some (Inl e) \<Rightarrow> Some (Inl e)
            | Some (Inr (item, pos')) \<Rightarrow> bdecode_list fuel data pos' (items @ [item])))"
| "bdecode_dict 0 data pos items = None"
| "bdecode_dict (Suc fuel) data pos items =
     (if pslice data pos (pos + 1) = lit ''e'' then Some (Inr (BDict items, pos + 1))
      else (case bdecode_item fuel data pos of
              None \<Rightarrow> None
            | Some (Inl e) \<Rightarrow> Some (Inl e)
            | Some (Inr (key, pos')) \<Rightarrow>
                (case bdecode_item fuel data pos' of
                   None \<Rightarrow> None
                 | Some (Inl e) \<Rightarrow> Some (Inl e)
                 | Some (Inr (val, pos'')) \<Rightarrow>
                     if hashable key then bdecode_dict fuel data pos'' (dset key val items)
                     else Some (Inl TypeError))))"

definition bdecode :: "nat \<Rightarrow> bytes \<Rightarrow> bval result option" where
  "bdecode fuel data =
     (case bdecode_item fuel data 0 of
        None \<Rightarrow> None
      | Some (Inl e) \<Rightarrow> Some (Inl e)
      | Some (Inr (v, _)) \<Rightarrow> Some (Inr v))"

section \<open>Round trip\<close>

text \<open>
  The values that have an encoding, and what decoding gives back: a \<^verbatim>\<open>str\<close> comes back as the
  bytes of its UTF-8 text, a dictionary with its keys in order.
\<close>

function benc_ok :: "bval \<Rightarrow> bool" where
  "benc_ok (BInt i) = True"
| "benc_ok (BBool b) = False"
| "benc_ok (BBytes b) = True"
| "benc_ok (BStr s) = True"
| "benc_ok (BList xs) = (\<forall>x \<in> set xs. benc_ok x)"
| "benc_ok (BDict kvs) =
     (distinct (map (\<lambda>kv. key_bytes (fst kv)) kvs)
      \<and> (\<forall>kv \<in> set kvs. key_bytes (fst kv) \<noteq> None \<and> benc_ok (snd kv)))"
| "benc_ok BOther = False"
  by pat_completeness auto
termination
  by (relation "measure size")
    (auto simp: less_Suc_eq_le bval_pair_size[simplified less_Suc_eq_le] intro: size_list_estimation')

function canon :: "bval \<Rightarrow> bval" where
  "canon (BInt i) = BInt i"
| "canon (BBool b) = BBool b"
| "canon (BBytes b) = BBytes b"
| "canon (BStr s) = BBytes (encode_utf8 s)"
| "canon (BList xs) = BList (map (\<lambda>x. canon x) xs)"
| "canon (BDict kvs) =
     BDict (map (\<lambda>kv. (BBytes (the (key_bytes (fst kv))), canon (snd kv))) (sort_items kvs))"
| "canon BOther = BOther"
  by pat_completeness auto
termination
  by (relation "measure size")
    (auto simp: less_Suc_eq_le bval_pair_size[simplified less_Suc_eq_le] intro: size_list_estimation')

lemma enc_bytes_lit: "enc_bytes b = lit (show_int (int (length b))) @ lit '':'' @ b"
proof -
  have "encode_utf8 (show_int (int (length b)) @ '':'') = lit (show_int (int (length b)) @ '':'')"
    by (rule encode_utf8_ascii) (auto dest: show_int_ascii simp: cp_def)
  then show ?thesis by (simp add: enc_bytes_def)
qed

lemma bencode_BInt_lit: "bencode (BInt i) = Inr (lit ''i'' @ lit (show_int i) @ lit ''e'')"
proof -
  have "encode_utf8 (''i'' @ show_int i @ ''e'') = lit (''i'' @ show_int i @ ''e'')"
    by (rule encode_utf8_ascii) (auto dest: show_int_ascii simp: cp_def)
  then show ?thesis by simp
qed

lemma lit_show_int_no: "\<not> is_dec c \<Longrightarrow> c \<noteq> CHR ''-'' \<Longrightarrow> byte_of c \<notin> set (lit (show_int i))"
  by (auto simp: lit_def dest: show_int_chars)

lemma show_int_nat_head: "\<exists>c cs. show_int (int n) = c # cs \<and> is_dec c"
proof (cases "show_nat n")
  case (Cons c cs)
  then have "is_dec c" using show_nat_digits [of c n] by simp
  then show ?thesis using Cons by (simp add: show_int_def)
qed simp

text \<open>What "decodes at its place, with enough fuel" means for one encoded value.\<close>

definition decodes_to :: "bytes \<Rightarrow> bval \<Rightarrow> bool" where
  "decodes_to bs v \<longleftrightarrow>
     (\<forall>fuel pre post. length bs \<le> fuel \<longrightarrow>
        bdecode_item fuel (pre @ bs @ post) (int (length pre))
          = Some (Inr (v, int (length pre) + int (length bs))))"

lemma decodes_toD:
  "decodes_to bs v \<Longrightarrow> length bs \<le> fuel \<Longrightarrow>
   bdecode_item fuel (pre @ bs @ post) (int (length pre))
     = Some (Inr (v, int (length pre) + int (length bs)))"
  by (simp add: decodes_to_def)

definition enc_head :: "bytes \<Rightarrow> bool" where
  "enc_head bs \<longleftrightarrow> (\<exists>c cs. bs = byte_of c # cs \<and> c \<noteq> CHR ''e'')"

lemma item_int:
  "pslice data p (p + 1) = lit ''i'' \<Longrightarrow> pindex data (byte_of CHR ''e'') p = Some q \<Longrightarrow>
   py_int_bytes (pslice data (p + 1) q) = Some n \<Longrightarrow>
   bdecode_item (Suc f) data p = Some (Inr (BInt n, q + 1))"
  by simp

lemma item_str:
  "pslice data p (p + 1) = [byte_of c] \<Longrightarrow> c \<notin> set ''ild'' \<Longrightarrow>
   pindex data (byte_of CHR '':'') p = Some q \<Longrightarrow>
   py_int_bytes (pslice data p q) = Some n \<Longrightarrow>
   bdecode_item (Suc f) data p = Some (Inr (BBytes (pslice data (q + 1) (q + 1 + n)), q + 1 + n))"
  by simp

lemma item_list:
  "pslice data p (p + 1) = lit ''l'' \<Longrightarrow> bdecode_item (Suc f) data p = bdecode_list f data (p + 1) []"
  by simp

lemma item_dict:
  "pslice data p (p + 1) = lit ''d'' \<Longrightarrow> bdecode_item (Suc f) data p = bdecode_dict f data (p + 1) []"
  by simp

declare bdecode_item.simps(2) [simp del]

lemma slice_at:
  "data = pre @ mid @ post \<Longrightarrow> p = int (length pre) \<Longrightarrow> q = p + int (length mid) \<Longrightarrow>
   pslice data p q = mid"
  by (simp only: pslice_middle)

lemma decodes_BInt: "decodes_to (lit ''i'' @ lit (show_int i) @ lit ''e'') (BInt i)"
  unfolding decodes_to_def
proof (intro allI impI)
  fix fuel and pre post :: bytes
  let ?bs = "lit ''i'' @ lit (show_int i) @ lit ''e''"
  let ?p = "int (length pre)"
  define data where "data = pre @ ?bs @ post"
  assume "length ?bs \<le> fuel"
  then obtain f where f: "fuel = Suc f" by (cases fuel) auto
  have 1: "pslice data ?p (?p + 1) = lit ''i''"
    by (rule slice_at [of _ pre _ "lit (show_int i) @ lit ''e'' @ post"]) (simp_all add: data_def)
  have "byte_of CHR ''e'' \<notin> set (lit ''i'' @ lit (show_int i))"
    by (simp add: lit_show_int_no is_dec_def cp_def)
  from pindex_middle [OF this, of pre post]
  have 2: "pindex data (byte_of CHR ''e'') ?p = Some (?p + 1 + int (length (show_int i)))"
    by (simp add: data_def add.assoc)
  have 3: "pslice data (?p + 1) (?p + 1 + int (length (show_int i))) = lit (show_int i)"
    by (rule slice_at [of _ "pre @ lit ''i''" _ "lit ''e'' @ post"]) (simp_all add: data_def)
  have "py_int_bytes (pslice data (?p + 1) (?p + 1 + int (length (show_int i)))) = Some i"
    by (simp only: 3 py_int_bytes_show_int)
  from item_int [OF 1 2 this]
  show "bdecode_item fuel (pre @ ?bs @ post) ?p = Some (Inr (BInt i, ?p + int (length ?bs)))"
    unfolding data_def [symmetric] by (simp add: f)
qed

lemma decodes_BBytes: "decodes_to (enc_bytes b) (BBytes b)"
  unfolding decodes_to_def
proof (intro allI impI)
  fix fuel and pre post :: bytes
  let ?n = "show_int (int (length b))" and ?p = "int (length pre)"
  let ?q = "?p + int (length ?n)"
  define data where "data = pre @ enc_bytes b @ post"
  assume "length (enc_bytes b) \<le> fuel"
  then obtain f where f: "fuel = Suc f" by (cases fuel) (auto simp: enc_bytes_lit)
  obtain c cs where c: "?n = c # cs" "is_dec c" using show_int_nat_head by blast
  then have d: "c \<notin> set ''ild''" by (auto simp: is_dec_def cp_def)
  have 1: "pslice data ?p (?p + 1) = [byte_of c]"
    by (rule slice_at [of _ pre _ "lit cs @ lit '':'' @ b @ post"])
      (simp_all add: data_def enc_bytes_lit c)
  have nc: "byte_of CHR '':'' \<notin> set (lit ?n)"
    by (simp add: lit_show_int_no is_dec_def cp_def)
  have 2: "pindex data (byte_of CHR '':'') ?p = Some ?q"
    using pindex_middle [OF nc, of pre "b @ post"] by (simp add: data_def enc_bytes_lit)
  have 3: "pslice data ?p ?q = lit ?n"
    by (rule slice_at [of _ pre _ "lit '':'' @ b @ post"]) (simp_all add: data_def enc_bytes_lit)
  have 4: "pslice data (?q + 1) (?q + 1 + int (length b)) = b"
    by (rule slice_at [of _ "pre @ lit ?n @ lit '':''" _ post]) (simp_all add: data_def enc_bytes_lit)
  have "py_int_bytes (pslice data ?p ?q) = Some (int (length b))"
    by (simp only: 3 py_int_bytes_show_int)
  from item_str [OF 1 d 2 this]
  show "bdecode_item fuel (pre @ enc_bytes b @ post) ?p
      = Some (Inr (BBytes b, ?p + int (length (enc_bytes b))))"
    unfolding 4 data_def [symmetric] by (simp add: f enc_bytes_lit)
qed

text \<open>The loop over list elements.\<close>

lemma head_slice:
  "enc_head bs \<Longrightarrow> pslice (pre @ bs @ post) (int (length pre)) (int (length pre) + 1) \<noteq> lit ''e''"
  by (auto simp: enc_head_def pslice_one)

lemma decodes_list_loop:
  assumes "list_all2 (\<lambda>bs v. decodes_to bs v \<and> enc_head bs) bss vs"
    and "length (concat bss) < fuel"
  shows "bdecode_list fuel (pre @ concat bss @ lit ''e'' @ post) (int (length pre)) items
    = Some (Inr (BList (items @ vs), int (length pre) + int (length (concat bss)) + 1))"
  using assms
proof (induction bss vs arbitrary: fuel pre items rule: list_all2_induct)
  case Nil
  then obtain f where "fuel = Suc f" by (cases fuel) auto
  then show ?case by (simp add: pslice_one)
next
  case (Cons bs bss v vs)
  obtain f where f: "fuel = Suc f" using Cons.prems by (cases fuel) auto
  let ?data = "pre @ (bs @ concat bss @ lit ''e'' @ post)" and ?p = "int (length pre)"
  have item: "bdecode_item f ?data ?p = Some (Inr (v, ?p + int (length bs)))"
    by (rule decodes_toD) (use Cons.hyps(1) Cons.prems f in auto)
  have ne: "bs \<noteq> []" using Cons.hyps(1) by (auto simp: enc_head_def)
  have loop: "bdecode_list f ((pre @ bs) @ concat bss @ lit ''e'' @ post) (int (length (pre @ bs)))
      (items @ [v])
    = Some (Inr (BList ((items @ [v]) @ vs), int (length (pre @ bs)) + int (length (concat bss)) + 1))"
    by (rule Cons.IH) (use Cons.prems f ne in \<open>cases bs; auto\<close>)
  have "pslice ?data ?p (?p + 1) \<noteq> lit ''e''"
    using head_slice [of bs pre] Cons.hyps(1) by blast
  then show ?case using f item loop by (simp add: algebra_simps)
qed

text \<open>The loop over dictionary entries: the keys met so far stay distinct from the rest.\<close>

lemma decodes_dict_loop:
  assumes "list_all2 (\<lambda>bs kv. \<exists>kb vb. bs = enc_bytes kb @ vb \<and> fst kv = BBytes kb
             \<and> decodes_to vb (snd kv)) bss kvs"
    and "length (concat bss) < fuel"
    and "distinct (dkeys (items @ kvs))"
  shows "bdecode_dict fuel (pre @ concat bss @ lit ''e'' @ post) (int (length pre)) items
    = Some (Inr (BDict (items @ kvs), int (length pre) + int (length (concat bss)) + 1))"
  using assms
proof (induction bss kvs arbitrary: fuel pre items rule: list_all2_induct)
  case Nil
  then obtain f where "fuel = Suc f" by (cases fuel) auto
  then show ?case by (simp add: pslice_one)
next
  case (Cons bs bss kv kvs)
  obtain f where f: "fuel = Suc f" using Cons.prems by (cases fuel) auto
  obtain kb vb where bs: "bs = enc_bytes kb @ vb" and k: "fst kv = BBytes kb"
    and v: "decodes_to vb (snd kv)" using Cons.hyps(1) by blast
  let ?p = "int (length pre)" and ?rest = "concat bss @ lit ''e'' @ post"
  have len: "length (enc_bytes kb) + length vb + length (concat bss) < fuel"
    using Cons.prems bs by simp
  have key: "bdecode_item f (pre @ enc_bytes kb @ (vb @ ?rest)) ?p
      = Some (Inr (BBytes kb, ?p + int (length (enc_bytes kb))))"
    by (rule decodes_toD [OF decodes_BBytes]) (use len f in simp)
  have val: "bdecode_item f ((pre @ enc_bytes kb) @ vb @ ?rest) (int (length (pre @ enc_bytes kb)))
      = Some (Inr (snd kv, int (length (pre @ enc_bytes kb)) + int (length vb)))"
    by (rule decodes_toD [OF v]) (use len f in simp)
  have upd: "dset (BBytes kb) (snd kv) items = items @ [kv]"
    using Cons.prems(2) k by (cases kv) (simp add: dset_new)
  have loop: "bdecode_dict f ((pre @ bs) @ ?rest) (int (length (pre @ bs))) (items @ [kv])
    = Some (Inr (BDict ((items @ [kv]) @ kvs), int (length (pre @ bs)) + int (length (concat bss)) + 1))"
    by (rule Cons.IH) (use Cons.prems f bs in \<open>auto simp: enc_bytes_lit\<close>)
  obtain c cs where "show_int (int (length kb)) = c # cs" "is_dec c" using show_int_nat_head by blast
  then have "enc_head bs" unfolding enc_head_def bs
    by (intro exI [of _ c]) (auto simp: enc_bytes_lit is_dec_def cp_def)
  then have hd: "pslice (pre @ bs @ ?rest) ?p (?p + 1) \<noteq> lit ''e''"
    by (rule head_slice)
  show ?case
    using key val loop upd hd
    by (simp add: f bs algebra_simps)
qed


lemma seq_results_obtain:
  assumes "\<And>x. x \<in> set xs \<Longrightarrow> \<exists>b. f x = Inr b \<and> P x b"
  shows "\<exists>bs. seq_results (map f xs) = Inr bs \<and> list_all2 (\<lambda>b x. P x b) bs xs"
  using assms
proof (induction xs)
  case Nil
  then show ?case by simp
next
  case (Cons x xs)
  obtain b where "f x = Inr b" "P x b" using Cons.prems [of x] by auto
  moreover obtain bs where "seq_results (map f xs) = Inr bs" "list_all2 (\<lambda>b x. P x b) bs xs"
    using Cons.IH Cons.prems by auto
  ultimately show ?case by auto
qed

lemma bencode_key:
  "key_bytes k \<noteq> None \<Longrightarrow> bencode k = Inr (enc_bytes (the (key_bytes k)))"
  by (cases k) (auto simp: key_bytes_def)

definition encodes_well :: "bval \<Rightarrow> bytes \<Rightarrow> bool" where
  "encodes_well v bs \<longleftrightarrow> decodes_to bs (canon v) \<and> enc_head bs"

lemma enc_head_bytes: "enc_head (enc_bytes b @ cs)"
proof -
  obtain c ds where "show_int (int (length b)) = c # ds" "is_dec c" using show_int_nat_head by blast
  then show ?thesis
    unfolding enc_head_def by (intro exI [of _ c]) (auto simp: enc_bytes_lit is_dec_def cp_def)
qed

lemma encodes_well_list:
  assumes "list_all2 (\<lambda>bs v. encodes_well v bs) bss vs"
  shows "encodes_well (BList vs) (lit ''l'' @ concat bss @ lit ''e'')"
proof -
  let ?bs = "lit ''l'' @ concat bss @ lit ''e''"
  have all: "list_all2 (\<lambda>bs v. decodes_to bs v \<and> enc_head bs) bss (map canon vs)"
    using assms by (simp add: list_all2_map2 encodes_well_def)
  have "decodes_to ?bs (canon (BList vs))"
    unfolding decodes_to_def
  proof (intro allI impI)
    fix fuel and pre post :: bytes
    assume len: "length ?bs \<le> fuel"
    then obtain f where f: "fuel = Suc f" by (cases fuel) auto
    have "pslice (pre @ ?bs @ post) (int (length pre)) (int (length pre) + 1) = lit ''l''"
      by (rule slice_at [of _ pre _ "concat bss @ lit ''e'' @ post"]) simp_all
    then have "bdecode_item fuel (pre @ ?bs @ post) (int (length pre))
        = bdecode_list f (pre @ ?bs @ post) (int (length pre) + 1) []"
      unfolding f by (rule item_list)
    also have "\<dots> = Some (Inr (BList (map canon vs),
        int (length (pre @ lit ''l'')) + int (length (concat bss)) + 1))"
      using decodes_list_loop [OF all, of f "pre @ lit ''l''" post "[]"] len f
      by (simp add: add.commute)
    finally show "bdecode_item fuel (pre @ ?bs @ post) (int (length pre))
        = Some (Inr (canon (BList vs), int (length pre) + int (length ?bs)))" by simp
  qed
  then show ?thesis by (simp add: encodes_well_def enc_head_def)
qed

lemma encodes_well_dict:
  assumes "list_all2 (\<lambda>bs kv. \<exists>vb. bs = enc_bytes (the (key_bytes (fst kv))) @ vb
             \<and> encodes_well (snd kv) vb) bss (sort_items kvs)"
    and "distinct (map (\<lambda>kv. key_bytes (fst kv)) kvs)"
    and "\<forall>kv \<in> set kvs. key_bytes (fst kv) \<noteq> None"
  shows "encodes_well (BDict kvs) (lit ''d'' @ concat bss @ lit ''e'')"
proof -
  let ?bs = "lit ''d'' @ concat bss @ lit ''e''"
  let ?f = "\<lambda>kv. (BBytes (the (key_bytes (fst kv))), canon (snd kv))"
  have all: "list_all2 (\<lambda>bs kv. \<exists>kb vb. bs = enc_bytes kb @ vb \<and> fst kv = BBytes kb
      \<and> decodes_to vb (snd kv)) bss (map ?f (sort_items kvs))"
    unfolding list_all2_map2
    by (rule list_all2_mono [OF assms(1)]) (auto simp: encodes_well_def)
  have "map (\<lambda>kv. key_bytes (fst kv)) kvs = map Some (map (\<lambda>kv. the (key_bytes (fst kv))) kvs)"
    using assms(3) by auto
  then have "distinct (map (\<lambda>kv. the (key_bytes (fst kv))) kvs)"
    using assms(2) by (simp only: distinct_map)
  then have "distinct (map (\<lambda>kv. the (key_bytes (fst kv))) (sort_items kvs))"
    by (metis (no_types, lifting) distinct_map set_sort_items sort_items_def distinct_sort)
  then have dist: "distinct (dkeys ([] @ map ?f (sort_items kvs)))"
    by (simp add: distinct_map inj_on_def o_def)
  have "decodes_to ?bs (canon (BDict kvs))"
    unfolding decodes_to_def
  proof (intro allI impI)
    fix fuel and pre post :: bytes
    assume len: "length ?bs \<le> fuel"
    then obtain f where f: "fuel = Suc f" by (cases fuel) auto
    have "pslice (pre @ ?bs @ post) (int (length pre)) (int (length pre) + 1) = lit ''d''"
      by (rule slice_at [of _ pre _ "concat bss @ lit ''e'' @ post"]) simp_all
    then have "bdecode_item fuel (pre @ ?bs @ post) (int (length pre))
        = bdecode_dict f (pre @ ?bs @ post) (int (length pre) + 1) []"
      unfolding f by (rule item_dict)
    also have "\<dots> = Some (Inr (BDict (map ?f (sort_items kvs)),
        int (length (pre @ lit ''d'')) + int (length (concat bss)) + 1))"
      using decodes_dict_loop [OF all _ dist, of f "pre @ lit ''d''" post] len f
      by (simp add: add.commute)
    finally show "bdecode_item fuel (pre @ ?bs @ post) (int (length pre))
        = Some (Inr (canon (BDict kvs), int (length pre) + int (length ?bs)))" by simp
  qed
  then show ?thesis by (simp add: encodes_well_def enc_head_def)
qed

lemma bencode_encodes_well: "benc_ok v \<Longrightarrow> \<exists>bs. bencode v = Inr bs \<and> encodes_well v bs"
proof (induction v rule: bencode.induct)
  case (1 i)
  then show ?case
    unfolding bencode_BInt_lit using decodes_BInt [of i] by (simp add: encodes_well_def enc_head_def)
next
  case (3 b)
  then show ?case
    using decodes_BBytes enc_head_bytes [of b "[]"] by (auto simp: encodes_well_def)
next
  case (4 s)
  then show ?case
    using decodes_BBytes enc_head_bytes [of _ "[]"] by (auto simp: encodes_well_def)
next
  case (5 xs)
  then have "\<And>x. x \<in> set xs \<Longrightarrow> \<exists>b. bencode x = Inr b \<and> encodes_well x b" by auto
  from seq_results_obtain [of xs bencode encodes_well, OF this] obtain bss
    where "seq_results (map bencode xs) = Inr bss" "list_all2 (\<lambda>b x. encodes_well x b) bss xs"
    by auto
  then show ?case using encodes_well_list by (auto simp: join_result_def)
next
  case (6 kvs)
  have keys: "\<forall>kv \<in> set kvs. key_bytes (fst kv) \<noteq> None" using 6 by auto
  let ?g = "\<lambda>kv. pair_result (bencode (fst kv)) (bencode (snd kv))"
  let ?P = "\<lambda>kv bs. \<exists>vb. bs = enc_bytes (the (key_bytes (fst kv))) @ vb \<and> encodes_well (snd kv) vb"
  have "\<exists>b. ?g kv = Inr b \<and> ?P kv b" if kv: "kv \<in> set (sort_items kvs)" for kv
  proof -
    have "benc_ok (snd kv)" using 6 kv by auto
    then have "\<exists>vb. bencode (snd kv) = Inr vb \<and> encodes_well (snd kv) vb"
      using 6 kv keys by (cases kv) auto
    then obtain vb where "bencode (snd kv) = Inr vb" "encodes_well (snd kv) vb" by blast
    moreover have "bencode (fst kv) = Inr (enc_bytes (the (key_bytes (fst kv))))"
      using keys kv by (intro bencode_key) auto
    ultimately show ?thesis by (auto simp: pair_result_def)
  qed
  from seq_results_obtain [of "sort_items kvs" ?g ?P, OF this] obtain bss
    where bss: "seq_results (map ?g (sort_items kvs)) = Inr bss"
      "list_all2 (\<lambda>b x. ?P x b) bss (sort_items kvs)"
    by auto
  have "encodes_well (BDict kvs) (lit ''d'' @ concat bss @ lit ''e'')"
    by (rule encodes_well_dict [OF bss(2)]) (use 6 keys in auto)
  moreover have "bencode (BDict kvs) = Inr (lit ''d'' @ concat bss @ lit ''e'')"
    using bss(1) keys by (auto simp: join_result_def)
  ultimately show ?case by blast
qed auto


lemma decode_bencode:
  assumes "benc_ok v"
  obtains bs where "bencode v = Inr bs"
    "\<And>fuel. length bs \<le> fuel \<Longrightarrow> bdecode fuel bs = Some (Inr (canon v))"
proof -
  obtain bs where bs: "bencode v = Inr bs" "encodes_well v bs"
    using bencode_encodes_well [OF assms] by blast
  then have "bdecode fuel bs = Some (Inr (canon v))" if "length bs \<le> fuel" for fuel
    using decodes_toD [of bs "canon v" fuel "[]" "[]"] that by (simp add: encodes_well_def bdecode_def)
  then show thesis using that bs(1) by blast
qed

section \<open>Termination\<close>

text \<open>
  Without a minus sign in the datagram every length is non-negative, so the position moves
  forward and the decoder returns.
\<close>

lemma item_returns_lit:
  assumes "byte_of CHR ''-'' \<notin> set data" "0 \<le> pos"
    and "pslice data pos (pos + 1) \<noteq> lit ''l''" "pslice data pos (pos + 1) \<noteq> lit ''d''"
  shows "\<exists>r. bdecode_item (Suc f) data pos = Some r
    \<and> (\<forall>v p. r = Inr (v, p) \<longrightarrow> pos < p \<and> pos < int (length data))"
proof -
  have nonneg: "0 \<le> n" if "py_int_bytes (pslice data i j) = Some n" for i j n
    using py_int_bytes_nonneg [OF that] set_pslice_subset [of data i j] assms(1) by auto
  show ?thesis
    using assms(2-4) unfolding bdecode_item.simps(2)
    by (auto split: option.split dest!: nonneg dest: pindex_bounds)
qed

lemma slice_head_in:
  "pslice data pos (pos + 1) = x # xs \<Longrightarrow> 0 \<le> pos \<Longrightarrow> pos < int (length data)"
  using pslice_past_end [of data pos "pos + 1"] by (cases "pos < int (length data)") auto

definition returns_at :: "bytes \<Rightarrow> int \<Rightarrow> (bval \<times> int) result option \<Rightarrow> bool" where
  "returns_at data pos r \<longleftrightarrow>
     (\<exists>x. r = Some x \<and> (\<forall>v p. x = Inr (v, p) \<longrightarrow> pos < p \<and> pos < int (length data)))"

lemma returns_atE:
  assumes "returns_at data pos r"
  obtains e where "r = Some (Inl e)"
  | v p where "r = Some (Inr (v, p))" "pos < p" "pos < int (length data)"
  using assms unfolding returns_at_def by (metis surj_pair sum.exhaust_sel)

lemma returns_weaken:
  "returns_at data pos' r \<Longrightarrow> pos < pos' \<Longrightarrow> pos < int (length data) \<Longrightarrow> returns_at data pos r"
  unfolding returns_at_def by force

lemma decode_returns:
  assumes nm: "byte_of CHR ''-'' \<notin> set data"
  shows "\<forall>pos. 0 \<le> pos \<longrightarrow>
    (2 * nat (int (length data) - pos) + 1 \<le> fuel \<longrightarrow> returns_at data pos (bdecode_item fuel data pos))
    \<and> (2 * nat (int (length data) - pos) + 2 \<le> fuel \<longrightarrow>
         (\<forall>items. returns_at data pos (bdecode_list fuel data pos items))
       \<and> (\<forall>items. returns_at data pos (bdecode_dict fuel data pos items)))"
proof (induction fuel)
  case 0
  then show ?case by simp
next
  case (Suc f)
  show ?case
  proof (intro allI impI conjI)
    fix pos :: int
    assume pos: "0 \<le> pos" and fuel: "2 * nat (int (length data) - pos) + 1 \<le> Suc f"
    let ?s = "pslice data pos (pos + 1)"
    show "returns_at data pos (bdecode_item (Suc f) data pos)"
    proof (cases "?s = lit ''l'' \<or> ?s = lit ''d''")
      case True
      then have l: "pos < int (length data)" using slice_head_in [OF _ pos] by auto
      then have "2 * nat (int (length data) - (pos + 1)) + 2 \<le> f" using fuel by linarith
      then have "returns_at data (pos + 1) (bdecode_list f data (pos + 1) [])"
        and "returns_at data (pos + 1) (bdecode_dict f data (pos + 1) [])"
        using Suc.IH pos by auto
      then show ?thesis using True l by (auto simp: item_list item_dict intro: returns_weaken)
    next
      case False
      then show ?thesis using item_returns_lit [OF nm pos] unfolding returns_at_def by blast
    qed
  next
    fix pos :: int and items
    assume pos: "0 \<le> pos" and fuel: "2 * nat (int (length data) - pos) + 2 \<le> Suc f"
    let ?s = "pslice data pos (pos + 1)"
    have e: "?s = lit ''e'' \<Longrightarrow> pos < int (length data)" using slice_head_in [OF _ pos] by auto
    have item: "returns_at data pos (bdecode_item f data pos)" using Suc.IH pos fuel by auto
    show "returns_at data pos (bdecode_list (Suc f) data pos items)"
    proof (cases "?s = lit ''e''")
      case True
      then show ?thesis using e by (simp add: returns_at_def)
    next
      case False
      from item show ?thesis
      proof (cases rule: returns_atE)
        case (1 x)
        then show ?thesis using False by (simp add: returns_at_def)
      next
        case (2 v p)
        then have "returns_at data p (bdecode_list f data p (items @ [v]))"
          using Suc.IH pos fuel by auto
        then show ?thesis using False 2 by (auto intro: returns_weaken)
      qed
    qed
  next
    fix pos :: int and items
    assume pos: "0 \<le> pos" and fuel: "2 * nat (int (length data) - pos) + 2 \<le> Suc f"
    let ?s = "pslice data pos (pos + 1)"
    have e: "?s = lit ''e'' \<Longrightarrow> pos < int (length data)" using slice_head_in [OF _ pos] by auto
    have item: "returns_at data pos (bdecode_item f data pos)" using Suc.IH pos fuel by auto
    show "returns_at data pos (bdecode_dict (Suc f) data pos items)"
    proof (cases "?s = lit ''e''")
      case True
      then show ?thesis using e by (simp add: returns_at_def)
    next
      case False
      from item show ?thesis
      proof (cases rule: returns_atE)
        case (1 x)
        then show ?thesis using False by (simp add: returns_at_def)
      next
        case (2 k p)
        then have "returns_at data p (bdecode_item f data p)" using Suc.IH pos fuel by auto
        then show ?thesis
        proof (cases rule: returns_atE)
          case (1 x)
          then show ?thesis using False 2 by (simp add: returns_at_def)
        next
          case v: (2 v q)
          then have "returns_at data q (bdecode_dict f data q (dset k v items))"
            using Suc.IH pos fuel 2 by auto
          then have "returns_at data pos (bdecode_dict f data q (dset k v items))"
            using v 2 by (auto intro: returns_weaken)
          then show ?thesis using False 2 v by (simp add: returns_at_def)
        qed
      qed
    qed
  qed
qed

lemma bdecode_returns:
  assumes "byte_of CHR ''-'' \<notin> set data" "2 * length data + 1 \<le> fuel"
  shows "\<exists>r. bdecode fuel data = Some r"
proof -
  have "returns_at data 0 (bdecode_item fuel data 0)"
    using decode_returns [OF assms(1), of fuel] assms(2) by auto
  then show ?thesis by (cases rule: returns_atE) (auto simp: bdecode_def)
qed

text \<open>A negative length sends the position back: the list loop then reads the same item forever.\<close>

lemma negative_length_loops: "bdecode_list fuel (lit ''l-3:'') 1 items = None"
proof (induction fuel arbitrary: items)
  case 0
  then show ?case by simp
next
  case (Suc f)
  have "bdecode_item f (lit ''l-3:'') 1 \<in> {None, Some (Inr (BBytes [], 1))}"
    by (cases f) (simp_all add: bdecode_item.simps pslice_def pindex_def clamp_index_def
        py_int_bytes_def read_signed_def read_unsigned_def is_dec_def dec_val_def cp_def is_bspace_def Let_def)
  then show ?case using Suc by (auto simp: pslice_def clamp_index_def)
qed

section \<open>Properties\<close>

text \<open>
  C1. Every message built from integers, bytes, strings, lists and dictionaries with distinct
  bytes-or-string keys encodes, and decoding the encoding returns it (strings as their UTF-8 bytes,
  dictionaries in key order).
\<close>

theorem bencode_roundtrip:
  assumes "benc_ok v"
  shows "\<exists>bs. bencode v = Inr bs
    \<and> (\<forall>fuel. length bs \<le> fuel \<longrightarrow> bdecode fuel bs = Some (Inr (canon v)))"
  using decode_bencode [OF assms] by metis

theorem bencode_roundtrip_witness:
  "\<exists>bs. bencode (BDict [(BBytes (lit ''t''), BInt (- 7)), (BBytes (lit ''a''), BList [BStr ''x''])]) = Inr bs
    \<and> (\<forall>fuel. length bs \<le> fuel \<longrightarrow> bdecode fuel bs
        = Some (Inr (BDict [(BBytes (lit ''a''), BList [BBytes (lit ''x'')]), (BBytes (lit ''t''), BInt (- 7))])))"
  using bencode_roundtrip [of "BDict [(BBytes (lit ''t''), BInt (- 7)), (BBytes (lit ''a''), BList [BStr ''x''])]"]
  by (simp add: key_bytes_def sort_items_def byte_of_def cp_def encode_utf8_def utf8_char_def)

text \<open>
  The decoder returns on every datagram without a minus sign: a value or an exception, with
  fuel linear in the length.
\<close>

theorem bdecode_terminates:
  assumes "byte_of CHR ''-'' \<notin> set data" "2 * length data + 1 \<le> fuel"
  shows "\<exists>r. bdecode fuel data = Some r"
  using assms by (rule bdecode_returns)

theorem bdecode_terminates_witness: "\<exists>r. bdecode 16 (lit ''li5ee'') = Some r"
  by (rule bdecode_terminates) (simp_all add: byte_of_def cp_def)

end
