(* ===== verification/Dht_Node.thy ===== *)
theory Dht_Node
  imports Bencode "HOL-Library.Multiset"
begin

text \<open>
  \<^verbatim>\<open>SimpleDHTNode\<close> of \<^verbatim>\<open>src/wh/wns/dht.py\<close>: the compact address formats, the routing table, the
  handler for incoming datagrams, the query counter and the iterative lookups. Decoded messages
  are untyped, so every field the code reads may be an integer, a byte string, a list or a
  dictionary, and the model follows what Python does with each. A Python \<^verbatim>\<open>set\<close> is a
  duplicate-free list in insertion order (Python's own order is unspecified).
\<close>

type_synonym addr = "string \<times> int"

section \<open>Compact addresses\<close>

text \<open>
  \<^verbatim>\<open>socket.inet_ntoa\<close> and \<^verbatim>\<open>socket.inet_aton\<close>, the latter on dotted quads without leading zeros
  (what the operating system and \<^verbatim>\<open>inet_ntoa\<close> produce).
\<close>

definition inet_ntoa :: "bytes \<Rightarrow> string result" where
  "inet_ntoa bs =
     (case bs of
        [a, b, c, d] \<Rightarrow>
          Inr (show_nat (unat a) @ ''.'' @ show_nat (unat b) @ ''.'' @ show_nat (unat c) @ ''.''
            @ show_nat (unat d))
      | _ \<Rightarrow> Inl OtherError)"

definition read_octet :: "string \<Rightarrow> byte option" where
  "read_octet s =
     (case read_unsigned s of
        Some n \<Rightarrow> if n < 256 \<and> show_nat (nat n) = s then Some (word_of_int n) else None
      | None \<Rightarrow> None)"

definition inet_aton :: "string \<Rightarrow> bytes result" where
  "inet_aton s =
     (case map read_octet (split_on CHR ''.'' s) of
        [Some a, Some b, Some c, Some d] \<Rightarrow> Inr [a, b, c, d]
      | _ \<Rightarrow> Inl OtherError)"

definition pack_port :: "bval \<Rightarrow> bytes result" where
  "pack_port p = (case p of BInt n \<Rightarrow> pack_uint 2 n | _ \<Rightarrow> Inl StructError)"

definition encode_peer :: "string \<times> bval \<Rightarrow> bytes result" where
  "encode_peer p = pair_result (inet_aton (fst p)) (pack_port (snd p))"

definition decode_peer :: "bval \<Rightarrow> addr option result" where
  "decode_peer v =
     (case v of
        BBytes data \<Rightarrow>
          if length data \<noteq> 6 then Inr None
          else (case inet_ntoa (take 4 data) of
                  Inl e \<Rightarrow> Inl e
                | Inr ip \<Rightarrow> Inr (Some (ip, int (unpack_be (drop 4 data)))))
      | BList xs \<Rightarrow> if length xs \<noteq> 6 then Inr None else Inl TypeError
      | BDict kvs \<Rightarrow> if length kvs \<noteq> 6 then Inr None else Inl TypeError
      | BStr s \<Rightarrow> if length s \<noteq> 6 then Inr None else Inl TypeError
      | _ \<Rightarrow> Inl TypeError)"

fun parse_chunks :: "nat \<Rightarrow> bytes \<Rightarrow> (bytes \<times> addr) list result" where
  "parse_chunks 0 data = Inr []"
| "parse_chunks (Suc k) data =
     (if length data < 26 then Inr []
      else (case inet_ntoa (take 4 (drop 20 data)) of
              Inl e \<Rightarrow> Inl e
            | Inr ip \<Rightarrow>
                (case parse_chunks k (drop 26 data) of
                   Inl e \<Rightarrow> Inl e
                 | Inr ns \<Rightarrow>
                     Inr ((take 20 data, (ip, int (unpack_be (take 2 (drop 24 data))))) # ns))))"

definition parse_nodes :: "bval \<Rightarrow> (bytes \<times> addr) list result" where
  "parse_nodes v =
     (case v of
        BBytes data \<Rightarrow> parse_chunks (length data) data
      | BList xs \<Rightarrow> if length xs < 26 then Inr [] else Inl TypeError
      | BDict kvs \<Rightarrow> if length kvs < 26 then Inr [] else Inl TypeError
      | BStr s \<Rightarrow> if length s < 26 then Inr [] else Inl TypeError
      | _ \<Rightarrow> Inl TypeError)"

section \<open>Distance\<close>

text \<open>What iterating over a decoded value yields; \<^const>\<open>None\<close> where it is not iterable.\<close>

fun iter_of :: "bval \<Rightarrow> bval list option" where
  "iter_of (BBytes bs) = Some (map (\<lambda>b. BInt (int (unat b))) bs)"
| "iter_of (BList xs) = Some xs"
| "iter_of (BDict kvs) = Some (map fst kvs)"
| "iter_of (BStr s) = Some (map (\<lambda>c. BStr [c]) s)"
| "iter_of _ = None"

fun xor_item :: "bval \<times> bval \<Rightarrow> byte result" where
  "xor_item (BInt x, BInt y) =
     (let z = x XOR y in if 0 \<le> z \<and> z < 256 then Inr (word_of_int z) else Inl ValueError)"
| "xor_item _ = Inl TypeError"

definition xor_distance :: "bval \<Rightarrow> bval \<Rightarrow> nat result" where
  "xor_distance a b =
     (case (iter_of a, iter_of b) of
        (Some xs, Some ys) \<Rightarrow>
          (case seq_results (map xor_item (zip xs ys)) of
             Inl e \<Rightarrow> Inl e
           | Inr bs \<Rightarrow> Inr (unpack_be bs))
      | _ \<Rightarrow> Inl TypeError)"

section \<open>The node\<close>

record dht_node =
  node_id :: bytes
  routing :: "(bval, addr) dict"
  token :: bytes
  announced :: "(bval, (string \<times> bval) list) dict"
  next_tid_no :: nat
  pending :: "(bytes, nat) dict"
  futures :: "(nat, bval option) dict"

definition new_node :: "bytes \<Rightarrow> bytes \<Rightarrow> dht_node" where
  "new_node nid tok =
     \<lparr>node_id = nid, routing = [], token = tok, announced = [], next_tid_no = 0, pending = [],
      futures = []\<rparr>"

definition next_tid :: "dht_node \<Rightarrow> bytes \<times> dht_node" where
  "next_tid n =
     (let t = (next_tid_no n + 1) mod 65536 in (pack_be 2 t, n\<lparr>next_tid_no := t\<rparr>))"

text \<open>\<^verbatim>\<open>sorted(self._routing_table.items(), key=...)\<close>: an exception of the key function escapes.\<close>

definition sorted_nodes :: "dht_node \<Rightarrow> bval \<Rightarrow> (bval \<times> addr) list result" where
  "sorted_nodes n target =
     (case seq_results (map (\<lambda>e. xor_distance (fst e) target) (routing n)) of
        Inl e \<Rightarrow> Inl e
      | Inr _ \<Rightarrow>
          Inr (sort_key (\<lambda>e. case xor_distance (fst e) target of Inr d \<Rightarrow> d | Inl _ \<Rightarrow> 0) (routing n)))"

text \<open>One entry of the compact node list; an address that does not pack is skipped.\<close>

definition compact_node :: "bval \<times> addr \<Rightarrow> bytes" where
  "compact_node e =
     (case fst e of
        BBytes nid \<Rightarrow>
          (case pair_result (inet_aton (fst (snd e))) (pack_uint 2 (snd (snd e))) of
             Inl _ \<Rightarrow> []
           | Inr b \<Rightarrow> nid @ b)
      | _ \<Rightarrow> [])"

definition get_closest_nodes :: "dht_node \<Rightarrow> bval \<Rightarrow> bytes result" where
  "get_closest_nodes n target =
     (case sorted_nodes n target of
        Inl e \<Rightarrow> Inl e
      | Inr es \<Rightarrow> Inr (concat (map compact_node (take 8 es))))"

section \<open>Incoming datagrams\<close>

type_synonym sends = "(bytes \<times> addr) list"

abbreviation bk :: "string \<Rightarrow> bval" where
  "bk s \<equiv> BBytes (lit s)"

text \<open>\<^verbatim>\<open>d.get(key, default)\<close> on an untyped value: only dictionaries have \<^verbatim>\<open>get\<close>.\<close>

definition bget :: "bval \<Rightarrow> string \<Rightarrow> bval \<Rightarrow> bval result" where
  "bget v k dflt =
     (case v of
        BDict kvs \<Rightarrow> Inr (case dget kvs (bk k) of Some x \<Rightarrow> x | None \<Rightarrow> dflt)
      | _ \<Rightarrow> Inl AttributeError)"

definition response_msg :: "bval \<Rightarrow> (bval \<times> bval) list \<Rightarrow> bval" where
  "response_msg tid r = BDict [(bk ''t'', tid), (bk ''y'', bk ''r''), (bk ''r'', BDict r)]"

text \<open>
  \<^verbatim>\<open>_send\<close> on a node with an open socket; a message that does not encode raises. The limit that UDP sets to the size
  of a datagram is not modelled.
\<close>

definition send_response :: "bval \<Rightarrow> addr \<Rightarrow> (bval \<times> bval) list \<Rightarrow> sends" where
  "send_response tid addr r =
     (case bencode (response_msg tid r) of Inl _ \<Rightarrow> [] | Inr bs \<Rightarrow> [(bs, addr)])"

text \<open>The part of the response branch after the future: \<^verbatim>\<open>if b"id" in response: ...\<close>.\<close>

definition note_sender :: "dht_node \<Rightarrow> bval \<Rightarrow> addr \<Rightarrow> dht_node" where
  "note_sender n response addr =
     (case response of
        BDict kvs \<Rightarrow>
          (case dget kvs (bk ''id'') of
             Some nid \<Rightarrow>
               if hashable nid then n\<lparr>routing := dset nid addr (routing n)\<rparr> else n
           | None \<Rightarrow> n)
      | _ \<Rightarrow> n)"

definition resolve_future :: "dht_node \<Rightarrow> bval \<Rightarrow> bval \<Rightarrow> dht_node" where
  "resolve_future n tid response =
     (case tid of
        BBytes t \<Rightarrow>
          (case dget (pending n) t of
             Some f \<Rightarrow>
               n\<lparr>pending := ddel t (pending n),
                 futures := (if dget (futures n) f = Some None
                             then dset f (Some response) (futures n) else futures n)\<rparr>
           | None \<Rightarrow> n)
      | _ \<Rightarrow> n)"

definition handle_response :: "dht_node \<Rightarrow> bval \<Rightarrow> bval \<Rightarrow> addr \<Rightarrow> dht_node" where
  "handle_response n tid response addr =
     (if hashable tid then note_sender (resolve_future n tid response) response addr else n)"

definition handle_get_peers :: "dht_node \<Rightarrow> bval \<Rightarrow> bval \<Rightarrow> addr \<Rightarrow> sends" where
  "handle_get_peers n tid info_hash addr =
     (if \<not> hashable info_hash then []
      else (case dget (announced n) info_hash of
              Some (p # ps) \<Rightarrow>
                (case seq_results (map encode_peer (p # ps)) of
                   Inl _ \<Rightarrow> []
                 | Inr values \<Rightarrow>
                     send_response tid addr
                       [(bk ''id'', BBytes (node_id n)), (bk ''token'', BBytes (token n)),
                        (bk ''values'', BList (map BBytes values))])
            | _ \<Rightarrow>
                (case get_closest_nodes n info_hash of
                   Inl _ \<Rightarrow> []
                 | Inr nodes \<Rightarrow>
                     send_response tid addr
                       [(bk ''id'', BBytes (node_id n)), (bk ''token'', BBytes (token n)),
                        (bk ''nodes'', BBytes nodes)])))"

definition handle_announce_peer ::
  "dht_node \<Rightarrow> bval \<Rightarrow> bval \<Rightarrow> bval \<Rightarrow> addr \<Rightarrow> dht_node \<times> sends" where
  "handle_announce_peer n tid info_hash port addr =
     (if \<not> hashable info_hash then (n, [])
      else
        let peers = (case dget (announced n) info_hash of Some ps \<Rightarrow> ps | None \<Rightarrow> []);
            n1 = n\<lparr>announced := dset info_hash peers (announced n)\<rparr>
        in if \<not> hashable port then (n1, [])
           else (n1\<lparr>announced := dset info_hash (sadd (fst addr, port) peers) (announced n1)\<rparr>,
                 send_response tid addr [(bk ''id'', BBytes (node_id n))]))"

definition handle_query :: "dht_node \<Rightarrow> bval \<Rightarrow> bval \<Rightarrow> bval \<Rightarrow> addr \<Rightarrow> dht_node \<times> sends" where
  "handle_query n tid query args addr =
     (if query = bk ''ping'' then
        (n, send_response tid addr [(bk ''id'', BBytes (node_id n))])
      else if query = bk ''find_node'' then
        (n, case bget args ''target'' (BBytes []) of
              Inl _ \<Rightarrow> []
            | Inr target \<Rightarrow>
                (case get_closest_nodes n target of
                   Inl _ \<Rightarrow> []
                 | Inr nodes \<Rightarrow>
                     send_response tid addr
                       [(bk ''id'', BBytes (node_id n)), (bk ''nodes'', BBytes nodes)]))
      else if query = bk ''get_peers'' then
        (n, case bget args ''info_hash'' (BBytes []) of
              Inl _ \<Rightarrow> []
            | Inr info_hash \<Rightarrow> handle_get_peers n tid info_hash addr)
      else if query = bk ''announce_peer'' then
        (case (bget args ''info_hash'' (BBytes []), bget args ''port'' (BInt (snd addr))) of
           (Inr info_hash, Inr port) \<Rightarrow> handle_announce_peer n tid info_hash port addr
         | _ \<Rightarrow> (n, []))
      else (n, []))"

text \<open>
  \<^verbatim>\<open>_handle_message\<close>: every exception is caught and logged, so it only cuts the handling short.
  \<^const>\<open>None\<close> is a decoder that does not return within the fuel.
\<close>

definition handle_dict :: "dht_node \<Rightarrow> (bval, bval) dict \<Rightarrow> addr \<Rightarrow> dht_node \<times> sends" where
  "handle_dict n msg addr =
     (let msg_type = dget msg (bk ''y'');
          tid = (case dget msg (bk ''t'') of Some t \<Rightarrow> t | None \<Rightarrow> BBytes []);
          arg = (\<lambda>k dflt. case dget msg (bk k) of Some v \<Rightarrow> v | None \<Rightarrow> dflt)
      in if msg_type = Some (bk ''r'') then (handle_response n tid (arg ''r'' (BDict [])) addr, [])
         else if msg_type = Some (bk ''q'') then
           handle_query n tid (arg ''q'' (BBytes [])) (arg ''a'' (BDict [])) addr
         else (n, []))"

definition handle_message :: "nat \<Rightarrow> dht_node \<Rightarrow> bytes \<Rightarrow> addr \<Rightarrow> (dht_node \<times> sends) option" where
  "handle_message fuel n data addr =
     (case bdecode fuel data of
        None \<Rightarrow> None
      | Some (Inr (BDict msg)) \<Rightarrow> Some (handle_dict n msg addr)
      | Some _ \<Rightarrow> Some (n, []))"

section \<open>Outgoing queries\<close>

text \<open>
  \<^verbatim>\<open>_query\<close> against a network: \<^verbatim>\<open>net addr msg\<close> is the reply's \<^verbatim>\<open>r\<close> value, or \<^const>\<open>None\<close> when
  none comes before the timeout. The reply is handled by the response branch above; no other
  datagram arrives between the query and its reply.
\<close>

type_synonym network = "addr \<Rightarrow> bval \<Rightarrow> bval option"

definition query_msg :: "dht_node \<Rightarrow> bytes \<Rightarrow> string \<Rightarrow> (bval, bval) dict \<Rightarrow> bval" where
  "query_msg n tid q args =
     BDict [(bk ''t'', BBytes tid), (bk ''y'', bk ''q''), (bk ''q'', bk q),
            (bk ''a'', BDict (dset (bk ''id'') (BBytes (node_id n)) args))]"

definition do_query ::
  "network \<Rightarrow> dht_node \<Rightarrow> addr \<Rightarrow> string \<Rightarrow> (bval, bval) dict \<Rightarrow> bval option \<times> dht_node" where
  "do_query net n addr q args =
     (let (tid, n1) = next_tid n;
          msg = query_msg n1 tid q args;
          f = length (futures n1);
          n2 = n1\<lparr>pending := dset tid f (pending n1), futures := dset f None (futures n1)\<rparr>
      in case bencode msg of
           Inl _ \<Rightarrow> (None, n2\<lparr>pending := ddel tid (pending n2)\<rparr>)
         | Inr _ \<Rightarrow>
             (case net addr msg of
                None \<Rightarrow> (None, n2\<lparr>pending := ddel tid (pending n2)\<rparr>)
              | Some r \<Rightarrow> (Some r, handle_response n2 (BBytes tid) r addr)))"

text \<open>Python's truth value of a reply.\<close>

fun btruthy :: "bval \<Rightarrow> bool" where
  "btruthy (BInt i) = (i \<noteq> 0)"
| "btruthy (BBool b) = b"
| "btruthy (BBytes b) = (b \<noteq> [])"
| "btruthy (BStr s) = (s \<noteq> [])"
| "btruthy (BList xs) = (xs \<noteq> [])"
| "btruthy (BDict kvs) = (kvs \<noteq> [])"
| "btruthy BOther = True"

text \<open>
  \<^verbatim>\<open>if key in response: ... response[key]\<close>: \<^verbatim>\<open>Inr None\<close> when the test is false; an exception when
  the value has no such test, or passes it without being a dictionary.
\<close>

definition bfield :: "bval \<Rightarrow> string \<Rightarrow> bval option result" where
  "bfield v k =
     (case v of
        BDict kvs \<Rightarrow> Inr (dget kvs (bk k))
      | BBytes bs \<Rightarrow> if contains bs (lit k) then Inl TypeError else Inr None
      | BList xs \<Rightarrow> if bk k \<in> set xs then Inl TypeError else Inr None
      | _ \<Rightarrow> Inl TypeError)"

text \<open>The loop \<^verbatim>\<open>for value in response[b"values"]\<close>: peers found before an exception are kept.\<close>

fun collect_peers :: "bval list \<Rightarrow> addr list \<Rightarrow> addr list \<times> bool" where
  "collect_peers [] peers = (peers, True)"
| "collect_peers (v # vs) peers =
     (case decode_peer v of
        Inl _ \<Rightarrow> (peers, False)
      | Inr None \<Rightarrow> collect_peers vs peers
      | Inr (Some p) \<Rightarrow> collect_peers vs (sadd p peers))"

definition values_of :: "bval \<Rightarrow> addr list \<Rightarrow> addr list \<times> bool" where
  "values_of r peers =
     (case bfield r ''values'' of
        Inl _ \<Rightarrow> (peers, False)
      | Inr None \<Rightarrow> (peers, True)
      | Inr (Some vs) \<Rightarrow>
          (case iter_of vs of None \<Rightarrow> (peers, False) | Some xs \<Rightarrow> collect_peers xs peers))"

definition nodes_of :: "bval \<Rightarrow> (bytes \<times> addr) list" where
  "nodes_of r =
     (case bfield r ''nodes'' of
        Inr (Some v) \<Rightarrow> (case parse_nodes v of Inr ns \<Rightarrow> ns | Inl _ \<Rightarrow> [])
      | _ \<Rightarrow> [])"

text \<open>\<^verbatim>\<open>get_peers\<close>: the \<^verbatim>\<open>while\<close> loop over the addresses still to query.\<close>

partial_function (option) get_peers_loop ::
  "network \<Rightarrow> bytes \<Rightarrow> nat \<Rightarrow> dht_node \<Rightarrow> addr list \<Rightarrow> addr list \<Rightarrow> addr list \<Rightarrow>
   (addr list \<times> dht_node) option" where
  "get_peers_loop net info_hash max_peers n to_query queried peers =
     (case to_query of
        [] \<Rightarrow> Some (peers, n)
      | addr # rest \<Rightarrow>
          if \<not> length peers < max_peers then Some (peers, n)
          else if addr \<in> set queried then get_peers_loop net info_hash max_peers n rest queried peers
          else
            (case do_query net n addr ''get_peers'' [(bk ''info_hash'', BBytes info_hash)] of
               (resp, n') \<Rightarrow>
                 (case resp of
                    None \<Rightarrow> get_peers_loop net info_hash max_peers n' rest (addr # queried) peers
                  | Some r \<Rightarrow>
                      if \<not> btruthy r
                      then get_peers_loop net info_hash max_peers n' rest (addr # queried) peers
                      else
                        (case values_of r peers of
                           (peers', ok) \<Rightarrow>
                             get_peers_loop net info_hash max_peers n'
                               (if ok then rest @ filter (\<lambda>a. a \<notin> set (addr # queried))
                                                    (map snd (nodes_of r))
                                else rest)
                               (addr # queried) peers'))))"

definition get_peers ::
  "network \<Rightarrow> dht_node \<Rightarrow> bytes \<Rightarrow> nat \<Rightarrow> (addr list \<times> dht_node) result option" where
  "get_peers net n info_hash max_peers =
     (if length info_hash \<noteq> 20 then Some (Inl ValueError)
      else map_option Inr
             (get_peers_loop net info_hash max_peers n (take 8 (map snd (routing n))) [] []))"

text \<open>One round of \<^verbatim>\<open>_find_nodes\<close> and its three rounds.\<close>

fun find_round ::
  "network \<Rightarrow> bytes \<Rightarrow> addr list \<Rightarrow> dht_node \<Rightarrow> addr list \<Rightarrow> addr list \<Rightarrow>
   dht_node \<times> addr list \<times> addr list" where
  "find_round net target [] n queried new = (n, queried, new)"
| "find_round net target (addr # rest) n queried new =
     (if addr \<in> set queried then find_round net target rest n queried new
      else
        (case do_query net n addr ''find_node'' [(bk ''target'', BBytes target)] of
           (resp, n') \<Rightarrow>
             (case resp of
                None \<Rightarrow> find_round net target rest n' (addr # queried) new
              | Some r \<Rightarrow>
                  if \<not> btruthy r then find_round net target rest n' (addr # queried) new
                  else
                    (let ns = nodes_of r in
                     find_round net target rest
                       (n'\<lparr>routing := fold (\<lambda>(i, a). dset (BBytes i) a) ns (routing n')\<rparr>)
                       (addr # queried)
                       (new @ filter (\<lambda>a. a \<notin> set (addr # queried)) (map snd ns))))))"

fun find_rounds ::
  "nat \<Rightarrow> network \<Rightarrow> bytes \<Rightarrow> addr list \<Rightarrow> dht_node \<Rightarrow> addr list \<Rightarrow> dht_node" where
  "find_rounds 0 net target to_query n queried = n"
| "find_rounds (Suc k) net target to_query n queried =
     (if to_query = [] then n
      else (case find_round net target (take 8 to_query) n queried [] of
              (n', queried', new) \<Rightarrow> find_rounds k net target new n' queried'))"

definition find_nodes ::
  "network \<Rightarrow> dht_node \<Rightarrow> bytes \<Rightarrow> (bval \<times> addr) list result \<times> dht_node" where
  "find_nodes net n target =
     (case sorted_nodes n (BBytes target) of
        Inl e \<Rightarrow> (Inl e, n)
      | Inr es \<Rightarrow>
          (let n' = find_rounds 3 net target (map snd (take 8 es)) n [] in
           (case sorted_nodes n' (BBytes target) of
              Inl e \<Rightarrow> (Inl e, n')
            | Inr es' \<Rightarrow> (Inr (take 8 es'), n'))))"

text \<open>\<^verbatim>\<open>announce\<close>: get a token from each of the closest nodes, then announce to it.\<close>

definition announce_args :: "bytes \<Rightarrow> int \<Rightarrow> bval \<Rightarrow> bool \<Rightarrow> (bval, bval) dict" where
  "announce_args info_hash port tok implied_port =
     [(bk ''info_hash'', BBytes info_hash), (bk ''port'', BInt port), (bk ''token'', tok)]
       @ (if implied_port then [(bk ''implied_port'', BInt 1)] else [])"

fun announce_to ::
  "network \<Rightarrow> bytes \<Rightarrow> int \<Rightarrow> bool \<Rightarrow> (bval \<times> addr) list \<Rightarrow> dht_node \<Rightarrow> nat \<Rightarrow> nat \<times> dht_node" where
  "announce_to net info_hash port implied [] n notified = (notified, n)"
| "announce_to net info_hash port implied ((_, addr) # es) n notified =
     (case do_query net n addr ''get_peers'' [(bk ''info_hash'', BBytes info_hash)] of
        (resp, n1) \<Rightarrow>
          (case resp of
             None \<Rightarrow> announce_to net info_hash port implied es n1 notified
           | Some r \<Rightarrow>
               if \<not> btruthy r then announce_to net info_hash port implied es n1 notified
               else
                 (case bget r ''token'' (BBytes []) of
                    Inl _ \<Rightarrow> announce_to net info_hash port implied es n1 notified
                  | Inr tok \<Rightarrow>
                      (case do_query net n1 addr ''announce_peer''
                              (announce_args info_hash port tok implied) of
                         (resp2, n2) \<Rightarrow>
                           announce_to net info_hash port implied es n2
                             (if resp2 \<noteq> None then notified + 1 else notified)))))"

definition announce ::
  "network \<Rightarrow> dht_node \<Rightarrow> bytes \<Rightarrow> int \<Rightarrow> bool \<Rightarrow> nat result \<times> dht_node" where
  "announce net n info_hash port implied =
     (if length info_hash \<noteq> 20 then (Inl ValueError, n)
      else (case find_nodes net n info_hash of
              (Inl e, n') \<Rightarrow> (Inl e, n')
            | (Inr closest, n') \<Rightarrow>
                (case announce_to net info_hash port implied closest n' 0 of
                   (k, n'') \<Rightarrow> (Inr k, n''))))"

text \<open>
  \<^verbatim>\<open>bootstrap\<close>; \<^verbatim>\<open>resolve host port\<close> is the first address \<^verbatim>\<open>getaddrinfo\<close> gives, \<^const>\<open>None\<close> when
  it gives none or fails.
\<close>

definition learn_nodes :: "dht_node \<Rightarrow> bval \<Rightarrow> addr \<Rightarrow> dht_node" where
  "learn_nodes n r addr =
     (case bfield r ''nodes'' of
        Inl _ \<Rightarrow> n
      | Inr None \<Rightarrow> note_sender n r addr
      | Inr (Some v) \<Rightarrow>
          (case parse_nodes v of
             Inl _ \<Rightarrow> n
           | Inr ns \<Rightarrow>
               note_sender (n\<lparr>routing := fold (\<lambda>(i, a). dset (BBytes i) a) ns (routing n)\<rparr>) r addr))"

fun bootstrap ::
  "network \<Rightarrow> (string \<Rightarrow> int \<Rightarrow> string option) \<Rightarrow> (string \<times> int) list \<Rightarrow> dht_node \<Rightarrow> nat \<Rightarrow>
   nat \<times> dht_node" where
  "bootstrap net resolve [] n found = (found, n)"
| "bootstrap net resolve ((host, port) # hs) n found =
     (case resolve host port of
        None \<Rightarrow> bootstrap net resolve hs n found
      | Some ip \<Rightarrow>
          (case do_query net n (ip, port) ''find_node'' [(bk ''target'', BBytes (node_id n))] of
             (resp, n') \<Rightarrow>
               (case resp of
                  None \<Rightarrow> bootstrap net resolve hs n' found
                | Some r \<Rightarrow>
                    if \<not> btruthy r then bootstrap net resolve hs n' found
                    else bootstrap net resolve hs (learn_nodes n' r (ip, port)) (found + 1))))"

section \<open>Address formats\<close>

lemma word_of_int_unat [simp]: "word_of_int (int (unat (b :: byte))) = b"
  by (simp add: of_int_of_nat_eq)

lemma unat_word_of_int_byte: "0 \<le> n \<Longrightarrow> n < 256 \<Longrightarrow> unat (word_of_int n :: byte) = nat n"
  using unat_of_nat [of "nat n", where ?'a = 8] by simp

lemma read_octet_show [simp]: "read_octet (show_nat (unat b)) = Some b"
proof -
  have "read_unsigned (show_nat (unat b)) = Some (int (unat b))"
    by (simp add: read_unsigned_digits show_nat_digits foldl_show_nat)
  moreover have "int (unat b) < 256" using unat_byte_less [of b] by linarith
  ultimately show ?thesis by (simp add: read_octet_def)
qed

lemma dot_notin_show_nat [simp]: "CHR ''.'' \<notin> set (show_nat n)"
  by (auto dest!: show_nat_digits simp: is_dec_def cp_def)

lemma inet_aton_ntoa [simp]:
  "inet_aton (show_nat (unat a) @ CHR ''.'' # show_nat (unat b) @ CHR ''.'' # show_nat (unat c)
     @ CHR ''.'' # show_nat (unat d)) = Inr [a, b, c, d]"
  by (simp add: inet_aton_def split_on_append split_on_notin)

lemma inet_ntoa_aton: "inet_ntoa bs = Inr ip \<Longrightarrow> inet_aton ip = Inr bs"
  by (auto simp: inet_ntoa_def split: list.splits)

lemma inet_ntoa_4: "length bs = 4 \<Longrightarrow> \<exists>ip. inet_ntoa bs = Inr ip"
  by (auto simp: inet_ntoa_def length_Suc_conv numeral_eq_Suc)

lemma read_octet_Some: "read_octet s = Some b \<Longrightarrow> show_nat (unat b) = s"
  by (auto simp: read_octet_def unat_word_of_int_byte split: option.splits if_splits
      dest: read_unsigned_nonneg)

lemma inet_aton_length: "inet_aton s = Inr bs \<Longrightarrow> length bs = 4"
  by (auto simp: inet_aton_def split: list.splits option.splits)

lemma split_on_join2: "split_on c s = p # q # ps \<Longrightarrow> \<exists>t. s = p @ c # t \<and> split_on c t = q # ps"
  by (induction s arbitrary: p) (auto split: if_splits list.splits)

lemma split_on_join1: "split_on c s = [p] \<Longrightarrow> s = p"
  by (induction s arbitrary: p) (auto split: if_splits list.splits)

lemma inet_aton_ntoa_conv: "inet_aton s = Inr bs \<Longrightarrow> inet_ntoa bs = Inr s"
  by (auto simp: inet_aton_def inet_ntoa_def split: list.splits option.splits
      dest!: split_on_join2 split_on_join1 read_octet_Some)

lemma inet_aton_iff: "inet_aton s = Inr bs \<longleftrightarrow> inet_ntoa bs = Inr s"
  using inet_aton_ntoa_conv inet_ntoa_aton by blast

lemma pack_uint_iff: "pack_uint k n = Inr bs \<longleftrightarrow> length bs = k \<and> n = int (unpack_be bs)"
  using unpack_be_less [of bs]
  by (auto simp: pack_uint_def pack_unpack_be split: if_splits)

lemma peer_codec:
  "encode_peer (ip, BInt port) = Inr bs \<longleftrightarrow> decode_peer (BBytes bs) = Inr (Some (ip, port))"
proof
  assume "encode_peer (ip, BInt port) = Inr bs"
  then obtain a b where "inet_aton ip = Inr a" "pack_uint 2 port = Inr b" "bs = a @ b"
    by (auto simp: encode_peer_def pair_result_def pack_port_def split: sum.splits)
  moreover from this have "length a = 4" "inet_ntoa a = Inr ip"
    using inet_aton_length inet_aton_ntoa_conv by blast+
  ultimately show "decode_peer (BBytes bs) = Inr (Some (ip, port))"
    by (auto simp: decode_peer_def pack_uint_iff)
next
  assume "decode_peer (BBytes bs) = Inr (Some (ip, port))"
  then have "length bs = 6" "inet_aton ip = Inr (take 4 bs)" "port = int (unpack_be (drop 4 bs))"
    by (auto simp: decode_peer_def inet_aton_iff split: if_splits sum.splits)
  moreover from this have "pack_uint 2 port = Inr (drop 4 bs)" by (simp add: pack_uint_iff)
  ultimately show "encode_peer (ip, BInt port) = Inr bs"
    by (simp add: encode_peer_def pair_result_def pack_port_def)
qed

definition node_ok :: "bval \<times> addr \<Rightarrow> bool" where
  "node_ok e =
     (case fst e of
        BBytes nid \<Rightarrow> length nid = 20 \<and> inet_aton (fst (snd e)) \<noteq> Inl OtherError
          \<and> 0 \<le> snd (snd e) \<and> snd (snd e) < 65536
      | _ \<Rightarrow> False)"

fun raw_id :: "bval \<Rightarrow> bytes" where
  "raw_id (BBytes b) = b"
| "raw_id _ = []"

lemma inet_aton_Inl: "inet_aton s = Inl e \<Longrightarrow> e = OtherError"
  by (auto simp: inet_aton_def split: list.splits option.splits)

lemma compact_node_ok:
  assumes "node_ok e"
  obtains nid ip a b where "e = (BBytes nid, (ip, int (unpack_be b)))" "compact_node e = nid @ a @ b"
    "length nid = 20" "length a = 4" "length b = 2" "inet_ntoa a = Inr ip"
proof -
  obtain nid ip port where e: "e = (BBytes nid, (ip, port))" "length nid = 20"
      "inet_aton ip \<noteq> Inl OtherError" "0 \<le> port" "port < 65536"
    using assms by (cases e) (auto simp: node_ok_def split: bval.splits)
  moreover obtain a where a: "inet_aton ip = Inr a"
    using e(3) inet_aton_Inl by (cases "inet_aton ip") auto
  moreover obtain b where b: "pack_uint 2 port = Inr b"
    using e(4,5) by (auto simp: pack_uint_def)
  moreover have "length a = 4" "inet_ntoa a = Inr ip"
    using a inet_aton_length inet_aton_ntoa_conv by blast+
  moreover have "length b = 2" "port = int (unpack_be b)" using b by (simp_all add: pack_uint_iff)
  ultimately show thesis using that [of nid ip b a] by (simp add: compact_node_def pair_result_def)
qed

lemma parse_chunks_compact:
  "list_all node_ok es \<Longrightarrow> length es \<le> k \<Longrightarrow>
   parse_chunks k (concat (map compact_node es)) = Inr (map (\<lambda>e. (raw_id (fst e), snd e)) es)"
proof (induction es arbitrary: k)
  case Nil
  then show ?case by (cases k) auto
next
  case (Cons e es)
  then obtain k' where k: "k = Suc k'" by (cases k) auto
  from Cons.prems(1) have "node_ok e" by simp
  then obtain nid ip a b where e: "e = (BBytes nid, (ip, int (unpack_be b)))"
      "compact_node e = nid @ a @ b" "length nid = 20" "length a = 4" "length b = 2"
      "inet_ntoa a = Inr ip"
    by (rule compact_node_ok)
  then show ?case using Cons k by simp
qed

lemma node_ok_bytes: "node_ok e \<Longrightarrow> \<exists>b. fst e = BBytes b"
  by (cases "fst e") (simp_all add: node_ok_def)

lemma compact_nodes_length:
  "list_all node_ok es \<Longrightarrow> length es \<le> length (concat (map compact_node es))"
proof (induction es)
  case (Cons e es)
  from Cons.prems have "node_ok e" by simp
  then have "1 \<le> length (compact_node e)" by (rule compact_node_ok) simp
  then show ?case using Cons by simp
qed simp

section \<open>The XOR metric and the closest nodes\<close>

definition distance :: "bytes \<Rightarrow> bytes \<Rightarrow> nat" where
  "distance a b = unpack_be (map2 (XOR) a b)"

lemma xor_item_bytes [simp]: "xor_item (BInt (uint x), BInt (uint y)) = Inr (x XOR y)"
proof -
  have "uint (x XOR y) < 256" using unsigned_less [of "x XOR y", where ?'a = int] by simp
  then show ?thesis by (simp add: Let_def uint_xor_byte)
qed

declare xor_item.simps(1) [simp del]

lemma xor_distance_bytes: "xor_distance (BBytes a) (BBytes b) = Inr (distance a b)"
proof -
  have "map xor_item (zip (map (\<lambda>b. BInt (int (unat b))) a) (map (\<lambda>b. BInt (int (unat b))) b))
      = map Inr (map2 (XOR) a b)"
    by (auto simp: zip_map_map)
  then show ?thesis by (simp only: xor_distance_def iter_of.simps option.case prod.case
        seq_results_Inr sum.case distance_def)
qed

lemma distance_xor: "length a = length b \<Longrightarrow> distance a b = unpack_be a XOR unpack_be b"
  by (simp add: distance_def unpack_be_xor)

lemma unpack_be_inject: "length a = length b \<Longrightarrow> unpack_be a = unpack_be b \<longleftrightarrow> a = b"
  by (metis pack_unpack_be)

lemma distance_zero: "length a = length b \<Longrightarrow> distance a b = 0 \<longleftrightarrow> a = b"
  using xor_self_eq [of "unpack_be b"]
  by (auto simp: distance_xor unpack_be_inject [symmetric] bit_eq_iff bit_simps)

lemma distance_sym: "length a = length b \<Longrightarrow> distance a b = distance b a"
  by (simp add: distance_xor xor.commute)

lemma distance_triangle:
  assumes "length a = length b" "length b = length c"
  shows "distance a c \<le> distance a b + distance b c"
proof -
  have "unpack_be a XOR unpack_be c
      = (unpack_be a XOR unpack_be b) XOR (unpack_be b XOR unpack_be c)"
    by (rule bit_eqI) (auto simp: bit_simps)
  then show ?thesis using assms by (simp add: distance_xor xor_le_plus_nat)
qed

lemma sorted_nodes_bytes:
  assumes "\<forall>e \<in> set (routing n). \<exists>b. fst e = BBytes b"
  shows "sorted_nodes n (BBytes t) = Inr (sort_key (\<lambda>e. distance (raw_id (fst e)) t) (routing n))"
proof -
  have d: "xor_distance (fst e) (BBytes t) = Inr (distance (raw_id (fst e)) t)"
    if "e \<in> set (routing n)" for e
    using assms that by (auto simp: xor_distance_bytes)
  have "seq_results (map (\<lambda>e. xor_distance (fst e) (BBytes t)) (routing n))
      = Inr (map (\<lambda>e. distance (raw_id (fst e)) t) (routing n))"
    using d by (rule seq_results_all)
  moreover have "sort_key (\<lambda>e. case xor_distance (fst e) (BBytes t) of Inr d \<Rightarrow> d | Inl _ \<Rightarrow> 0) (routing n)
      = sort_key (\<lambda>e. distance (raw_id (fst e)) t) (routing n)"
    by (rule sort_key_cong_set) (simp add: d)
  ultimately show ?thesis by (simp add: sorted_nodes_def)
qed

section \<open>Announcing and finding peers\<close>

lemma collect_peers_encoded:
  "list_all2 (\<lambda>v p. decode_peer (BBytes v) = Inr (Some p)) vs ps \<Longrightarrow>
   \<exists>qs. collect_peers (map BBytes vs) acc = (qs, True) \<and> set qs = set acc \<union> set ps"
proof (induction vs ps arbitrary: acc rule: list_all2_induct)
  case (Cons v vs p ps)
  then show ?case using Cons.IH [of "sadd p acc"] by auto
qed simp

definition peer_ok :: "string \<times> bval \<Rightarrow> bool" where
  "peer_ok p = (case encode_peer p of Inr _ \<Rightarrow> True | Inl _ \<Rightarrow> False)"

lemma peer_okE:
  assumes "peer_ok p"
  obtains ip port bs where "p = (ip, BInt port)" "encode_peer p = Inr bs"
    "decode_peer (BBytes bs) = Inr (Some (ip, port))"
proof -
  obtain bs where bs: "encode_peer p = Inr bs"
    using assms by (auto simp: peer_ok_def split: sum.splits)
  then obtain ip port where "p = (ip, BInt port)"
    by (cases p; cases "snd p") (auto simp: encode_peer_def pack_port_def pair_result_def split: sum.splits)
  then show thesis using that bs peer_codec by blast
qed

definition peer_addr :: "string \<times> bval \<Rightarrow> addr" where
  "peer_addr p = (fst p, case snd p of BInt i \<Rightarrow> i | _ \<Rightarrow> 0)"

lemma seq_results_peers:
  "list_all peer_ok ps \<Longrightarrow>
   \<exists>vs. seq_results (map encode_peer ps) = Inr vs
     \<and> list_all2 (\<lambda>v p. decode_peer (BBytes v) = Inr (Some p)) vs (map peer_addr ps)"
proof (induction ps)
  case (Cons p ps)
  from Cons.prems have "peer_ok p" by simp
  then obtain ip port bs where "p = (ip, BInt port)" "encode_peer p = Inr bs"
    "decode_peer (BBytes bs) = Inr (Some (ip, port))" by (rule peer_okE)
  then show ?case using Cons by (auto simp: peer_addr_def)
qed simp

lemma canon_response:
  "canon (response_msg tid r) = BDict [(bk ''r'', canon (BDict r)), (bk ''t'', canon tid), (bk ''y'', bk ''r'')]"
  unfolding response_msg_def canon.simps(6) [of "[(bk ''t'', tid), (bk ''y'', bk ''r''), (bk ''r'', BDict r)]"]
  by (simp add: sort_items_def key_bytes_def byte_of_def cp_def del: canon.simps(6))

lemma benc_ok_response:
  "benc_ok (response_msg tid r) \<longleftrightarrow> benc_ok tid \<and> benc_ok (BDict r)"
  by (auto simp: response_msg_def key_bytes_def)

lemma canon_peers_reply:
  "canon (BDict [(bk ''id'', BBytes i), (bk ''token'', BBytes t), (bk ''values'', BList (map BBytes vs))])
     = BDict [(bk ''id'', BBytes i), (bk ''token'', BBytes t), (bk ''values'', BList (map BBytes vs))]"
  by (simp add: sort_items_def key_bytes_def byte_of_def cp_def o_def)

lemma send_response_decodes:
  assumes "benc_ok tid" "benc_ok (BDict r)"
  shows "\<exists>bs. send_response tid a r = [(bs, a)] \<and> (\<forall>fuel \<ge> length bs.
    bdecode fuel bs
      = Some (Inr (BDict [(bk ''r'', canon (BDict r)), (bk ''t'', canon tid), (bk ''y'', bk ''r'')])))"
proof -
  have "benc_ok (response_msg tid r)" using assms by (simp only: benc_ok_response)
  then obtain bs where "bencode (response_msg tid r) = Inr bs"
    "\<And>fuel. length bs \<le> fuel \<Longrightarrow> bdecode fuel bs = Some (Inr (canon (response_msg tid r)))"
    by (rule decode_bencode) blast
  then show ?thesis by (auto simp: send_response_def canon_response simp del: canon.simps)
qed

lemma peers_reply:
  assumes "dget (announced n) (BBytes h) = Some ps" "ps \<noteq> []" "list_all peer_ok ps" "benc_ok tid"
  shows "\<exists>bs msg r qs. handle_get_peers n tid (BBytes h) a = [(bs, a)]
    \<and> (\<forall>fuel \<ge> length bs. bdecode fuel bs = Some (Inr (BDict msg)))
    \<and> dget msg (bk ''r'') = Some r \<and> values_of r [] = (qs, True) \<and> set qs = peer_addr ` set ps"
proof -
  obtain vs where vs: "seq_results (map encode_peer ps) = Inr vs"
    "list_all2 (\<lambda>v p. decode_peer (BBytes v) = Inr (Some p)) vs (map peer_addr ps)"
    using seq_results_peers [OF assms(3)] by blast
  let ?r = "[(bk ''id'', BBytes (node_id n)), (bk ''token'', BBytes (token n)),
             (bk ''values'', BList (map BBytes vs))]"
  have "benc_ok (BDict ?r)" by (auto simp: key_bytes_def)
  from send_response_decodes [OF assms(4) this] obtain bs where bs: "send_response tid a ?r = [(bs, a)]"
    "\<forall>fuel \<ge> length bs. bdecode fuel bs
      = Some (Inr (BDict [(bk ''r'', BDict ?r), (bk ''t'', canon tid), (bk ''y'', bk ''r'')]))"
    unfolding canon_peers_reply by blast
  have "handle_get_peers n tid (BBytes h) a = [(bs, a)]"
    using assms(1,2) vs(1) bs(1) by (cases ps) (auto simp: handle_get_peers_def)
  moreover obtain qs where "collect_peers (map BBytes vs) [] = (qs, True)" "set qs = peer_addr ` set ps"
    using collect_peers_encoded [OF vs(2), of "[]"] by auto
  then have "values_of (BDict ?r) [] = (qs, True)" by (simp add: values_of_def bfield_def)
  ultimately show ?thesis using bs(2) \<open>set qs = _\<close> by fastforce
qed

section \<open>The iterative lookup ends\<close>

definition wire_addrs :: "addr set" where
  "wire_addrs = {(ip, port). (\<exists>bs. length bs = 4 \<and> inet_ntoa bs = Inr ip) \<and> 0 \<le> port \<and> port < 65536}"

lemma finite_wire_addrs: "finite wire_addrs"
proof -
  have "wire_addrs \<subseteq> (\<lambda>(bs, p). (case inet_ntoa bs of Inr ip \<Rightarrow> ip | Inl _ \<Rightarrow> [], p))
      ` ({bs. set bs \<subseteq> UNIV \<and> length bs = 4} \<times> {0..<65536})"
    by (force simp: wire_addrs_def image_iff)
  moreover have "finite ({bs. set bs \<subseteq> (UNIV :: byte set) \<and> length bs = 4} \<times> {0..<65536 :: int})"
    by (intro finite_cartesian_product finite_lists_length_eq) simp_all
  ultimately show ?thesis by (blast intro: finite_subset)
qed

lemma wire_addrsI: "length a = 4 \<Longrightarrow> inet_ntoa a = Inr ip \<Longrightarrow> length b \<le> 2 \<Longrightarrow> (ip, int (unpack_be b)) \<in> wire_addrs"
proof -
  assume a: "length a = 4" "inet_ntoa a = Inr ip" and b: "length b \<le> 2"
  have "(256::nat) ^ length b \<le> 256 ^ 2" using b by (rule power_increasing) simp
  then have "unpack_be b < 65536" using unpack_be_less [of b] by simp
  then show ?thesis using a by (auto simp: wire_addrs_def)
qed

lemma parse_chunks_wire: "parse_chunks k data = Inr ns \<Longrightarrow> snd ` set ns \<subseteq> wire_addrs"
proof (induction k data arbitrary: ns rule: parse_chunks.induct)
  case (2 k data)
  show ?case
  proof (cases "length data < 26")
    case True
    then show ?thesis using 2 by simp
  next
    case False
    obtain ip where ip: "inet_ntoa (take 4 (drop 20 data)) = Inr ip"
      using 2(2) False by (auto split: sum.splits)
    moreover obtain ms where ms: "parse_chunks k (drop 26 data) = Inr ms"
      using 2(2) False ip by (auto split: sum.splits)
    moreover have "snd ` set ms \<subseteq> wire_addrs" by (rule 2(1) [OF False ip ms])
    moreover have "(ip, int (unpack_be (take 2 (drop 24 data)))) \<in> wire_addrs"
      by (rule wire_addrsI [OF _ ip]) (use False in auto)
    moreover have "ns = (take 20 data, (ip, int (unpack_be (take 2 (drop 24 data))))) # ms"
      using 2(2) False ip ms by simp
    ultimately show ?thesis by simp
  qed
qed simp

lemma nodes_of_wire: "snd ` set (nodes_of r) \<subseteq> wire_addrs"
proof (cases "nodes_of r = []")
  case False
  then obtain v ns where "parse_nodes v = Inr ns" "nodes_of r = ns"
    by (auto simp: nodes_of_def split: sum.splits option.splits)
  then show ?thesis using False
    by (cases v) (auto simp: parse_nodes_def split: if_splits dest!: parse_chunks_wire)
qed simp

lemma get_peers_loop_ends:
  assumes "finite A" "wire_addrs \<subseteq> A"
  shows "set to_query \<subseteq> A \<Longrightarrow> get_peers_loop net h m n to_query queried peers \<noteq> None"
proof (induction "card (A - set queried)" arbitrary: queried to_query n peers rule: less_induct)
  case less
  from less.prems show ?case
  proof (induction to_query arbitrary: n peers)
    case Nil
    then show ?case by (subst get_peers_loop.simps) simp
  next
    case (Cons addr rest)
    show ?case
    proof (cases "addr \<in> set queried \<or> \<not> length peers < m")
      case True
      then show ?thesis using Cons by (subst get_peers_loop.simps) auto
    next
      case False
      have "A - set (addr # queried) \<subset> A - set queried" using False Cons.prems by auto
      then have card: "card (A - set (addr # queried)) < card (A - set queried)"
        using assms(1) by (intro psubset_card_mono) auto
      have rest: "get_peers_loop net h m n' q (addr # queried) ps \<noteq> None"
        if "set q \<subseteq> A" for n' q ps
        by (rule less.hyps [OF card that])
      obtain resp n' where q: "do_query net n addr ''get_peers'' [(bk ''info_hash'', BBytes h)] = (resp, n')"
        by (rule prod.exhaust)
      have nodes: "snd ` set (nodes_of r) \<subseteq> A" for r using nodes_of_wire assms(2) by blast
      obtain ps ok where v: "values_of (the resp) peers = (ps, ok)" by (rule prod.exhaust)
      have "set rest \<subseteq> A" using Cons.prems by simp
      then have "get_peers_loop net h m n' rest (addr # queried) qs \<noteq> None" for qs by (rule rest)
      moreover have "get_peers_loop net h m n'
          (rest @ filter (\<lambda>a. a \<notin> set (addr # queried)) (map snd (nodes_of r))) (addr # queried) qs \<noteq> None"
        for qs r
        by (rule rest) (use nodes [of r] \<open>set rest \<subseteq> A\<close> in auto)
      ultimately show ?thesis using False q v
        unfolding get_peers_loop.simps [of net h m n "addr # rest"]
        by (cases resp) (simp_all del: lit_simps not_None_eq)
    qed
  qed
qed

section \<open>The routing table only grows\<close>

lemma note_sender_keys: "set (dkeys (routing n)) \<subseteq> set (dkeys (routing (note_sender n r a)))"
  by (auto simp: note_sender_def split: bval.split option.split)

lemma resolve_future_routing [simp]: "routing (resolve_future n t r) = routing n"
  by (simp add: resolve_future_def split: bval.split option.split)

lemma handle_query_routing [simp]: "routing (fst (handle_query n t q args a)) = routing n"
  by (simp add: handle_query_def handle_announce_peer_def Let_def split: sum.split)

lemma handle_dict_keys: "set (dkeys (routing n)) \<subseteq> set (dkeys (routing (fst (handle_dict n msg a))))"
  using note_sender_keys [of "resolve_future n _ _"]
  by (auto simp: handle_dict_def handle_response_def Let_def)

lemma handle_message_keys:
  assumes "handle_message fuel n data a = Some (n', out)"
  shows "set (dkeys (routing n)) \<subseteq> set (dkeys (routing n'))"
proof -
  have "n' = n \<or> (\<exists>msg. n' = fst (handle_dict n msg a))"
    using assms by (auto simp: handle_message_def split: option.splits sum.splits bval.splits)
      (metis fst_conv)
  then show ?thesis using handle_dict_keys by blast
qed

section \<open>The receive loop\<close>

text \<open>The datagrams of \<^verbatim>\<open>_receive_loop\<close>, in the order they arrive.\<close>

fun handle_all :: "nat \<Rightarrow> dht_node \<Rightarrow> (bytes \<times> addr) list \<Rightarrow> (dht_node \<times> sends) option" where
  "handle_all fuel n [] = Some (n, [])"
| "handle_all fuel n ((data, a) # ms) =
     (case handle_message fuel n data a of
        None \<Rightarrow> None
      | Some (n', out) \<Rightarrow>
          (case handle_all fuel n' ms of
             None \<Rightarrow> None
           | Some (n'', out') \<Rightarrow> Some (n'', out @ out')))"

lemma handle_all_keys:
  "handle_all fuel n ms = Some (n', out) \<Longrightarrow> set (dkeys (routing n)) \<subseteq> set (dkeys (routing n'))"
proof (induction fuel n ms arbitrary: n' out rule: handle_all.induct)
  case (2 fuel n data a ms)
  then obtain n1 o1 o2 where "handle_message fuel n data a = Some (n1, o1)"
    "handle_all fuel n1 ms = Some (n', o2)"
    by (auto split: option.splits)
  then show ?case using handle_message_keys 2(1) by blast
qed simp

section \<open>An integer node id\<close>

definition poisoned :: "dht_node \<Rightarrow> bool" where
  "poisoned n \<longleftrightarrow> BInt 5 \<in> set (dkeys (routing n))"

definition poison_msg :: bytes where
  "poison_msg = lit ''d1:rd2:idi5ee1:t0:1:y1:re''"

lemma seq_results_Inl: "Inl e \<in> set rs \<Longrightarrow> \<exists>e'. seq_results rs = Inl e'"
  by (induction rs) (auto split: sum.split)

lemma poisoned_sorted: "poisoned n \<Longrightarrow> \<exists>e. sorted_nodes n t = Inl e"
proof -
  assume "poisoned n"
  then obtain a where "(BInt 5, a) \<in> set (routing n)" by (auto simp: poisoned_def)
  moreover have "xor_distance (BInt 5) t = Inl TypeError" by (simp add: xor_distance_def)
  ultimately have "Inl TypeError \<in> set (map (\<lambda>e. xor_distance (fst e) t) (routing n))"
    by (force simp: image_iff)
  then show ?thesis using seq_results_Inl by (fastforce simp: sorted_nodes_def)
qed

lemma poison_msg_encodes:
  "bencode (BDict [(bk ''r'', BDict [(bk ''id'', BInt 5)]), (bk ''t'', BBytes []), (bk ''y'', bk ''r'')])
     = Inr poison_msg"
  by (simp add: poison_msg_def sort_items_def key_bytes_def byte_of_def cp_def enc_bytes_def
      encode_utf8_def utf8_char_def show_int_def show_nat.simps digit_char_def join_result_def
      pair_result_def)

lemma poison_msg_poisons:
  assumes "length poison_msg \<le> fuel"
  shows "\<exists>n'. handle_message fuel n poison_msg a = Some (n', []) \<and> poisoned n'"
proof -
  let ?m = "BDict [(bk ''r'', BDict [(bk ''id'', BInt 5)]), (bk ''t'', BBytes []), (bk ''y'', bk ''r'')]"
  have "benc_ok ?m" by (simp add: key_bytes_def)
  then obtain bs where bs: "bencode ?m = Inr bs"
    "\<And>fuel. length bs \<le> fuel \<Longrightarrow> bdecode fuel bs = Some (Inr (canon ?m))"
    by (rule decode_bencode) blast
  then have "bs = poison_msg" using poison_msg_encodes by (metis sum.inject(2))
  then have "bdecode fuel poison_msg = Some (Inr (canon ?m))" using assms bs(2) by blast
  moreover have "canon ?m = ?m"
    by (simp add: sort_items_def key_bytes_def byte_of_def cp_def)
  ultimately have "bdecode fuel poison_msg = Some (Inr ?m)" by simp
  then show ?thesis
    by (simp add: handle_message_def handle_dict_def handle_response_def note_sender_def poisoned_def)
qed

lemma inet_aton_example: "inet_aton ''10.0.0.1'' = Inr [10, 0, 0, 1]"
  by (simp add: inet_aton_def read_octet_def read_unsigned_def is_dec_def dec_val_def cp_def
      show_nat.simps digit_char_def) (simp add: cp_inject [symmetric] cp_def)

lemma negative_length_none: "bdecode fuel (lit ''l-3:'') = None"
proof (cases fuel)
  case (Suc f)
  have "pslice (lit ''l-3:'') 0 (0 + 1) = lit ''l''" by (simp add: pslice_def clamp_index_def)
  from item_list [OF this] show ?thesis
    using Suc negative_length_loops [of f] by (simp add: bdecode_def del: lit_simps)
qed (simp add: bdecode_def)

section \<open>Properties\<close>

text \<open>
  The six-byte peer format is a bijection: \<^verbatim>\<open>_encode_peer\<close> packs an address into bytes exactly
  when \<^verbatim>\<open>_decode_peer\<close> reads that address back from them.
\<close>

theorem peer_format_roundtrip:
  "encode_peer (ip, BInt port) = Inr bs \<longleftrightarrow> decode_peer (BBytes bs) = Inr (Some (ip, port))"
  by (rule peer_codec)

text \<open>
  The distance \<^verbatim>\<open>_xor_distance\<close> computes on ids of one length is a metric: zero exactly on equal
  ids, symmetric, and with the triangle inequality.
\<close>

theorem xor_distance_metric:
  assumes "length a = length b" "length b = length c"
  shows "(xor_distance (BBytes a) (BBytes b) = Inr 0 \<longleftrightarrow> a = b)
    \<and> xor_distance (BBytes a) (BBytes b) = xor_distance (BBytes b) (BBytes a)
    \<and> (\<exists>x y z. xor_distance (BBytes a) (BBytes c) = Inr x \<and> xor_distance (BBytes a) (BBytes b) = Inr y
        \<and> xor_distance (BBytes b) (BBytes c) = Inr z \<and> x \<le> y + z)"
  using assms distance_sym [of a b] distance_triangle [of a b c]
  by (auto simp: xor_distance_bytes distance_zero)

theorem xor_distance_metric_witness:
  "xor_distance (BBytes [1, 2]) (BBytes [3, 2]) = xor_distance (BBytes [3, 2]) (BBytes [1, 2])
    \<and> xor_distance (BBytes [1, 2]) (BBytes [3, 2]) \<noteq> Inr 0"
  using xor_distance_metric [of "[1, 2]" "[3, 2]" "[3, 2]"] by auto

text \<open>
  C16. A node whose routing table holds well-formed entries answers \<^verbatim>\<open>find_node\<close> with eight entries
  (or all of them) that are at least as close to the target as every entry left out, and a client's
  \<^verbatim>\<open>_parse_nodes\<close> reads exactly those entries back from the compact form.
\<close>

theorem closest_nodes_correct:
  assumes "\<forall>e \<in> set (routing n). node_ok e"
  shows "\<exists>near far data. mset (near @ far) = mset (routing n)
    \<and> length near = min 8 (length (routing n))
    \<and> (\<forall>e \<in> set near. \<forall>e' \<in> set far. distance (raw_id (fst e)) t \<le> distance (raw_id (fst e')) t)
    \<and> get_closest_nodes n (BBytes t) = Inr data
    \<and> parse_nodes (BBytes data) = Inr (map (\<lambda>e. (raw_id (fst e), snd e)) near)"
proof -
  let ?d = "\<lambda>e. distance (raw_id (fst e)) t"
  let ?es = "sort_key ?d (routing n)"
  let ?near = "take 8 ?es"
  have "\<forall>e \<in> set (routing n). \<exists>b. fst e = BBytes b"
    using assms node_ok_bytes by blast
  then have data: "get_closest_nodes n (BBytes t) = Inr (concat (map compact_node ?near))"
    by (simp add: get_closest_nodes_def sorted_nodes_bytes)
  have "list_all node_ok ?near"
    using assms set_take_subset [of 8 ?es] by (auto simp: list_all_iff)
  moreover have "length ?near \<le> length (concat (map compact_node ?near))"
    by (rule compact_nodes_length [OF calculation])
  ultimately have parse: "parse_nodes (BBytes (concat (map compact_node ?near)))
      = Inr (map (\<lambda>e. (raw_id (fst e), snd e)) ?near)"
    by (simp add: parse_nodes_def parse_chunks_compact)
  have perm: "mset (?near @ drop 8 ?es) = mset (routing n)" by simp
  have len: "length ?near = min 8 (length (routing n))" by simp
  have near: "\<forall>e \<in> set ?near. \<forall>e' \<in> set (drop 8 ?es). ?d e \<le> ?d e'"
    by (intro ballI sorted_key_take_drop [where f = ?d and xs = "routing n" and k = 8])
  show ?thesis
    by (rule exI [of _ ?near], rule exI [of _ "drop 8 ?es"],
        rule exI [of _ "concat (map compact_node ?near)"]) (intro conjI perm len near data parse)
qed

theorem closest_nodes_correct_witness:
  "\<exists>data. get_closest_nodes ((new_node [] [])\<lparr>routing := [(BBytes (replicate 20 7), (''10.0.0.1'', 6881))]\<rparr>)
      (BBytes (replicate 20 0)) = Inr data
    \<and> parse_nodes (BBytes data) = Inr [(replicate 20 7, (''10.0.0.1'', 6881))]"
proof -
  have "\<forall>e \<in> set (routing ((new_node [] [])\<lparr>routing :=
      [(BBytes (replicate 20 7), (''10.0.0.1'', 6881))]\<rparr>)). node_ok e"
    by (simp add: node_ok_def inet_aton_example)
  from closest_nodes_correct [OF this, of "replicate 20 0"] show ?thesis
    by (auto simp: numeral_eq_Suc length_Suc_conv)
qed




text \<open>
  One datagram ends a node's routing: after a response that names an integer as the sender's id,
  the node answers no \<^verbatim>\<open>find_node\<close> query and its own \<^verbatim>\<open>announce\<close> raises, whatever arrives later.
\<close>

theorem integer_id_disables_routing:
  assumes "length poison_msg \<le> fuel"
    and "handle_all fuel n ((poison_msg, a) # ms) = Some (n', out)"
  shows "snd (handle_query n' tid (bk ''find_node'') args client) = []
    \<and> (length h = 20 \<longrightarrow> (\<exists>e. fst (announce net n' h port implied) = Inl e))"
proof -
  obtain n1 where n1: "handle_message fuel n poison_msg a = Some (n1, [])" "poisoned n1"
    using poison_msg_poisons [OF assms(1)] by blast
  obtain out' where "handle_all fuel n1 ms = Some (n', out')"
    using assms(2) n1(1) by (auto split: option.splits)
  then have "poisoned n'" using handle_all_keys n1(2) unfolding poisoned_def by blast
  then have p: "\<exists>e. sorted_nodes n' t = Inl e" for t by (rule poisoned_sorted)
  have "snd (handle_query n' tid (bk ''find_node'') args client) = []"
    using p by (auto simp: handle_query_def get_closest_nodes_def split: sum.split) (metis sum.distinct(1))
  moreover have "\<exists>e. fst (announce net n' h port implied) = Inl e" if "length h = 20"
    using p [of "BBytes h"] that by (auto simp: announce_def find_nodes_def)
  ultimately show ?thesis by blast
qed

theorem integer_id_disables_routing_witness:
  "\<exists>n' out. handle_all 100 (new_node [] []) [(poison_msg, (''10.0.0.1'', 1))] = Some (n', out)
    \<and> snd (handle_query n' (BBytes []) (bk ''find_node'') (BDict []) (''10.0.0.2'', 1)) = []
    \<and> (\<exists>e. fst (announce (\<lambda>_ _. None) n' (replicate 20 0) 6881 False) = Inl e)"
proof -
  have len: "length poison_msg \<le> 100" by (simp add: poison_msg_def)
  then obtain n' where "handle_message 100 (new_node [] []) poison_msg (''10.0.0.1'', 1) = Some (n', [])"
    using poison_msg_poisons by blast
  then have "handle_all 100 (new_node [] []) [(poison_msg, (''10.0.0.1'', 1))] = Some (n', [])" by simp
  from this integer_id_disables_routing [OF len this, where h = "replicate 20 0"] show ?thesis by auto
qed

text \<open>
  A five-byte datagram with a negative length stops a node for good: decoding \<^verbatim>\<open>l-3:\<close> returns
  with no fuel, so the handler never gets back to the receive loop, whatever the node's state.
\<close>

theorem negative_length_hangs_node:
  "handle_message fuel n (lit ''l-3:'') a = None
    \<and> handle_all fuel n ((lit ''l-3:'', a) # ms) = None"
  unfolding handle_all.simps handle_message_def negative_length_none by simp

end
