(* ===== verification/Identity.thy ===== *)
theory Identity
  imports Py_Json
begin

text \<open>
  \<^verbatim>\<open>src/wh/wns/identity.py\<close>: Ed25519 identities, the self-certifying addresses derived from their
  public keys, the store of identities and known hosts, and the parser of WNS URIs.

  PyNaCl is third-party code: its key derivation, signing and signature opening are a parameter.
  A file tree is modelled by the dictionaries it holds; a path component is a name without slashes.
\<close>

section \<open>The signature library\<close>

record nacl =
  pub_of :: "bytes \<Rightarrow> bytes"
  sign_with :: "bytes \<Rightarrow> bytes \<Rightarrow> bytes"
  open_ok :: "bytes \<Rightarrow> bytes \<Rightarrow> bool"

text \<open>
  What the code relies on: keys have 32 bytes and signatures 64, and a signature made with a
  signing key opens under its verify key.
\<close>

definition nacl_ok :: "nacl \<Rightarrow> bool" where
  "nacl_ok nc \<longleftrightarrow>
     (\<forall>sk m. length sk = 32 \<longrightarrow>
        length (pub_of nc sk) = 32 \<and> length (sign_with nc sk m) = 64
        \<and> open_ok nc (pub_of nc sk) (sign_with nc sk m @ m))"

section \<open>Base 32 addresses\<close>

definition base32_alphabet :: string where
  "base32_alphabet = ''abcdefghijklmnopqrstuvwxyz234567''"

definition base32_encode :: "bytes \<Rightarrow> string" where
  "base32_encode data = rstrip_char CHR ''='' (lower (b32encode data))"

definition base32_decode :: "string \<Rightarrow> bytes result" where
  "base32_decode s = b32decode (upper s @ replicate ((8 - length s mod 8) mod 8) CHR ''='')"

definition address_bytes :: nat where
  "address_bytes = 16"

definition derive_address :: "bytes \<Rightarrow> string" where
  "derive_address vk = base32_encode (take address_bytes (sha256 vk))"

text \<open>\<^verbatim>\<open>len(a) == 26 and all(c in BASE32_ALPHABET for c in a)\<close>\<close>

definition is_base32_address :: "string \<Rightarrow> bool" where
  "is_base32_address a \<longleftrightarrow> length a = 26 \<and> list_all (\<lambda>c. c \<in> set base32_alphabet) a"

section \<open>Identities\<close>

record identity =
  signing_key :: "bytes option"
  verify_key :: bytes
  id_address :: string
  id_name :: "string option"
  id_scoped :: "string option"

definition from_private_key :: "nacl \<Rightarrow> bytes \<Rightarrow> string option \<Rightarrow> identity result" where
  "from_private_key nc sk nm =
     (if length sk \<noteq> 32 then Inl ValueError
      else (let vk = pub_of nc sk
            in Inr \<lparr>signing_key = Some sk, verify_key = vk, id_address = derive_address vk, id_name = nm,
                    id_scoped = None\<rparr>))"

definition from_public_key :: "bytes \<Rightarrow> identity result" where
  "from_public_key vk =
     (if length vk \<noteq> 32 then Inl ValueError
      else Inr \<lparr>signing_key = None, verify_key = vk, id_address = derive_address vk, id_name = None,
                id_scoped = None\<rparr>)"

text \<open>\<^verbatim>\<open>generate\<close>: the seed is what \<^verbatim>\<open>SigningKey.generate\<close> draws.\<close>

definition generate_identity :: "nacl \<Rightarrow> bytes \<Rightarrow> string option \<Rightarrow> identity result" where
  "generate_identity nc seed nm = from_private_key nc seed nm"

definition id_full_address :: "identity \<Rightarrow> string" where
  "id_full_address i = ''wh://'' @ id_address i @ ''.wns''"

definition id_full_scoped_address :: "identity \<Rightarrow> string option" where
  "id_full_scoped_address i =
     (if \<not> truthy (id_scoped i) then None
      else Some (''wh://'' @ the (id_scoped i) @ ''.'' @ id_address i @ ''.wns''))"

definition public_key :: "identity \<Rightarrow> bytes" where
  "public_key i = verify_key i"

definition private_key :: "identity \<Rightarrow> bytes result" where
  "private_key i = (case signing_key i of None \<Rightarrow> Inl ValueError | Some sk \<Rightarrow> Inr sk)"

definition can_sign :: "identity \<Rightarrow> bool" where
  "can_sign i \<longleftrightarrow> signing_key i \<noteq> None"

definition identity_sign :: "nacl \<Rightarrow> identity \<Rightarrow> bytes \<Rightarrow> bytes result" where
  "identity_sign nc i msg = (case signing_key i of None \<Rightarrow> Inl ValueError | Some sk \<Rightarrow> Inr (sign_with nc sk msg))"

text \<open>\<^verbatim>\<open>verify\<close> hands the concatenation to the library, which splits it again after 64 bytes.\<close>

definition identity_verify :: "nacl \<Rightarrow> identity \<Rightarrow> bytes \<Rightarrow> bytes \<Rightarrow> bool" where
  "identity_verify nc i msg sig = open_ok nc (verify_key i) (sig @ msg)"

definition identity_to_dict :: "identity \<Rightarrow> jdict" where
  "identity_to_dict i =
     [(''address'', JStr (id_address i)), (''public_key'', JStr (b64encode (public_key i)))]
     @ (case signing_key i of Some sk \<Rightarrow> [(''private_key'', JStr (b64encode sk))] | None \<Rightarrow> [])
     @ opt_entry ''name'' (id_name i) @ opt_entry ''scoped_name'' (id_scoped i)"

definition identity_from_dict :: "nacl \<Rightarrow> jdict \<Rightarrow> identity result" where
  "identity_from_dict nc d =
     (let finish = (\<lambda>i. i\<lparr>id_name := jopt_str d ''name'', id_scoped := jopt_str d ''scoped_name''\<rparr>)
      in if has_key d ''private_key'' then
           (case jbytes d ''private_key'' of
              Inl e \<Rightarrow> Inl e
            | Inr sk \<Rightarrow> map_sum id finish (from_private_key nc sk (jopt_str d ''name'')))
         else
           (case jbytes d ''public_key'' of
              Inl e \<Rightarrow> Inl e
            | Inr vk \<Rightarrow> map_sum id finish (from_public_key vk)))"

section \<open>The store\<close>

text \<open>
  \<^verbatim>\<open>identity/<address>/identity.json\<close>, \<^verbatim>\<open>known_hosts/<address>.json\<close> and \<^verbatim>\<open>config.json\<close>; the
  directories are listed in the order of the dictionary (the file system's order).
\<close>

record identity_store =
  identity_files :: "(string, jdict) dict"
  known_hosts :: "(string, jdict) dict"
  id_config :: jdict

definition save_identity :: "identity \<Rightarrow> identity_store \<Rightarrow> identity_store" where
  "save_identity i s = s\<lparr>identity_files := dset (id_address i) (identity_to_dict i) (identity_files s)\<rparr>"

definition load_identity :: "nacl \<Rightarrow> identity_store \<Rightarrow> string \<Rightarrow> identity option result" where
  "load_identity nc s a =
     (case dget (identity_files s) a of
        None \<Rightarrow> Inr None
      | Some d \<Rightarrow> map_sum id Some (identity_from_dict nc d))"

fun collect_identities :: "identity option result list \<Rightarrow> identity list result" where
  "collect_identities [] = Inr []"
| "collect_identities (r # rs) =
     (case r of
        Inl e \<Rightarrow> Inl e
      | Inr None \<Rightarrow> collect_identities rs
      | Inr (Some i) \<Rightarrow> map_sum id (\<lambda>is. i # is) (collect_identities rs))"

definition list_identities :: "nacl \<Rightarrow> identity_store \<Rightarrow> identity list result" where
  "list_identities nc s = collect_identities (map (load_identity nc s) (dkeys (identity_files s)))"

definition delete_identity :: "string \<Rightarrow> identity_store \<Rightarrow> bool \<times> identity_store" where
  "delete_identity a s =
     (if \<not> has_key (identity_files s) a then (False, s)
      else (True, s\<lparr>identity_files := ddel a (identity_files s)\<rparr>))"

definition save_known_host :: "identity \<Rightarrow> identity_store \<Rightarrow> identity_store" where
  "save_known_host i s =
     s\<lparr>known_hosts := dset (id_address i)
         [(''address'', JStr (id_address i)), (''public_key'', JStr (b64encode (public_key i))),
          (''name'', opt_jstr (id_name i))] (known_hosts s)\<rparr>"

definition load_known_host :: "identity_store \<Rightarrow> string \<Rightarrow> identity option result" where
  "load_known_host s a =
     (case dget (known_hosts s) a of
        None \<Rightarrow> Inr None
      | Some d \<Rightarrow>
          (case jbytes d ''public_key'' of
             Inl e \<Rightarrow> Inl e
           | Inr vk \<Rightarrow>
               map_sum id (\<lambda>i. Some (i\<lparr>id_name := jopt_str d ''name''\<rparr>)) (from_public_key vk)))"

definition get_default_identity :: "nacl \<Rightarrow> identity_store \<Rightarrow> identity option result" where
  "get_default_identity nc s =
     (case list_identities nc s of
        Inl e \<Rightarrow> Inl e
      | Inr [] \<Rightarrow> Inr None
      | Inr (i # is) \<Rightarrow>
          (let default_address = jopt_str (id_config s) ''default_identity''
           in if truthy default_address then
                (case find (\<lambda>j. id_address j = the default_address) (i # is) of
                   Some j \<Rightarrow> Inr (Some j)
                 | None \<Rightarrow> Inr (Some i))
              else Inr (Some i)))"

definition set_default_identity ::
  "nacl \<Rightarrow> string \<Rightarrow> identity_store \<Rightarrow> (bool \<times> identity_store) result" where
  "set_default_identity nc a s =
     (case load_identity nc s a of
        Inl e \<Rightarrow> Inl e
      | Inr None \<Rightarrow> Inr (False, s)
      | Inr (Some _) \<Rightarrow> Inr (True, s\<lparr>id_config := dset ''default_identity'' (JStr a) (id_config s)\<rparr>))"

definition clear_default_identity :: "identity_store \<Rightarrow> identity_store" where
  "clear_default_identity s =
     (if has_key (id_config s) ''default_identity''
      then s\<lparr>id_config := ddel ''default_identity'' (id_config s)\<rparr> else s)"

definition get_default_identity_address :: "identity_store \<Rightarrow> string option" where
  "get_default_identity_address s = jopt_str (id_config s) ''default_identity''"

section \<open>WNS URIs\<close>

text \<open>The three prefixes and suffixes that every URI parser removes.\<close>

definition strip_user :: "string \<Rightarrow> string" where
  "strip_user uri = (if CHR ''@'' \<in> set uri then snd (rsplit1 CHR ''@'' uri) else uri)"

definition strip_scheme :: "string \<Rightarrow> string" where
  "strip_scheme uri = (if startswith uri ''wh://'' then drop 5 uri else uri)"

definition strip_wns :: "string \<Rightarrow> string" where
  "strip_wns uri = (if endswith uri ''.wns'' then take (length uri - 4) uri else uri)"

definition parse_scoped_wns_address :: "string \<Rightarrow> (string option \<times> string) option" where
  "parse_scoped_wns_address uri0 =
     (let uri = strip_wns (strip_scheme (strip_user (strip uri0)));
          bare = (if is_base32_address uri then Some (None, uri) else None)
      in if CHR ''.'' \<in> set uri then
           (case rsplit1 CHR ''.'' uri of
              (nm, a) \<Rightarrow>
                if nm \<noteq> [] \<and> dashed_alnum nm \<and> is_base32_address a then Some (Some nm, a) else bare)
         else bare)"

definition parse_wns_address :: "string \<Rightarrow> string option" where
  "parse_wns_address uri =
     (case parse_scoped_wns_address uri of Some (_, a) \<Rightarrow> Some a | None \<Rightarrow> None)"

definition is_wns_address :: "string \<Rightarrow> bool" where
  "is_wns_address uri \<longleftrightarrow>
     (if contains uri ''wh://'' \<and> contains uri ''.wns'' then True
      else parse_wns_address uri \<noteq> None)"

section \<open>Addresses\<close>

lemma b32_case:
  "list_all (\<lambda>c. lower_char c \<in> set base32_alphabet \<and> upper_char (lower_char c) = [c]
     \<and> lower_char c \<noteq> CHR ''='') b32_alphabet"
  by code_simp

lemma b32_char_facts:
  assumes "c \<in> set (b32_chars bs)"
  shows "lower_char c \<in> set base32_alphabet" "upper_char (lower_char c) = [c]" "lower_char c \<noteq> CHR ''=''"
  using b32_case b32_chars_alphabet [of bs] assms by (auto simp: list_all_iff)

lemma base32_encode_chars: "base32_encode bs = lower (b32_chars bs)"
proof -
  have "lower_char CHR ''='' = CHR ''=''" by code_simp
  moreover have "CHR ''='' \<notin> set (lower (b32_chars bs))"
    using b32_char_facts(3) by (fastforce simp: lower_def)
  ultimately show ?thesis
    by (simp add: base32_encode_def b32encode_chars lower_append rstrip_char_pad)
      (simp add: lower_def rstrip_char_pad)
qed

lemma upper_lower_b32: "upper (lower (b32_chars bs)) = b32_chars bs"
proof -
  have "map (upper_char \<circ> lower_char) (b32_chars bs) = map (\<lambda>c. [c]) (b32_chars bs)"
    by (rule map_cong [OF refl]) (simp add: b32_char_facts(2))
  then show ?thesis unfolding upper_def lower_def map_map by (simp only: concat_map_singleton list.map_ident)
qed

lemma base32_decode_encode: "base32_decode (base32_encode bs) = Inr bs"
  unfolding base32_decode_def base32_encode_chars upper_lower_b32 length_lower by (rule b32decode_chars)

lemma base32_encode_alphabet: "set (base32_encode bs) \<subseteq> set base32_alphabet"
  using b32_char_facts(1) by (auto simp: base32_encode_chars lower_def)

lemma length_base32_encode: "length (base32_encode bs) = (8 * length bs + 4) div 5"
  by (simp add: base32_encode_chars length_b32_chars)

lemma derive_address_base32: "is_base32_address (derive_address vk)"
  using base32_encode_alphabet
  by (auto simp: is_base32_address_def derive_address_def length_base32_encode address_bytes_def list_all_iff)

lemma base32_alphabet_chars:
  "list_all (\<lambda>c. \<not> is_space c \<and> c \<noteq> CHR ''.'' \<and> c \<noteq> CHR ''@'' \<and> c \<noteq> CHR '':'' \<and> c \<noteq> CHR ''/''
     \<and> lower_char c = c \<and> is_alnum_char c \<and> cp c < 128) base32_alphabet"
  by code_simp

lemma base32_address_chars:
  "is_base32_address a \<Longrightarrow> c \<in> set a \<Longrightarrow>
   \<not> is_space c \<and> c \<noteq> CHR ''.'' \<and> c \<noteq> CHR ''@'' \<and> c \<noteq> CHR '':'' \<and> c \<noteq> CHR ''/'' \<and> lower_char c = c
     \<and> is_alnum_char c \<and> cp c < 128"
  using base32_alphabet_chars by (auto simp: is_base32_address_def list_all_iff)

lemma base32_address_nonempty: "is_base32_address a \<Longrightarrow> a \<noteq> []"
  by (auto simp: is_base32_address_def)

section \<open>Parsing addresses\<close>

lemma strip_prefix_free:
  assumes "y \<noteq> []" "\<forall>c \<in> set y. \<not> is_space c"
  shows "strip (x @ y) = lstrip x @ y"
proof -
  have "lstrip (x @ y) = lstrip x @ y"
    using assms by (induction x) (auto simp: lstrip_def neq_Nil_conv)
  moreover have "rstrip (lstrip x @ y) = lstrip x @ y"
    using assms by (cases y rule: rev_cases) (auto simp: rstrip_def)
  ultimately show ?thesis by (simp add: strip_def)
qed

definition uri_core :: "string \<Rightarrow> string" where
  "uri_core uri = strip_wns (strip_scheme (strip_user (strip uri)))"

text \<open>A well-formed URI, with an optional \<^verbatim>\<open>user@\<close> prefix, reduces to the part between scheme and suffix.\<close>

lemma strip_user_last: "CHR ''@'' \<notin> set y \<Longrightarrow> strip_user (x @ CHR ''@'' # y) = y"
  by (simp add: strip_user_def rsplit1_append)

lemma strip_user_none: "CHR ''@'' \<notin> set y \<Longrightarrow> strip_user y = y"
  by (simp add: strip_user_def)

lemma strip_scheme_wh [simp]: "strip_scheme (''wh://'' @ m) = m"
  by (simp add: strip_scheme_def startswith_def)

lemma strip_wns_suffix [simp]: "strip_wns (m @ ''.wns'') = m"
  by (simp add: strip_wns_def)

lemma uri_core_full:
  assumes m: "\<forall>c \<in> set m. \<not> is_space c \<and> c \<noteq> CHR ''@''"
  shows "uri_core (''wh://'' @ m @ ''.wns'') = m"
    and "uri_core (user @ ''@'' @ ''wh://'' @ m @ ''.wns'') = m"
proof -
  let ?y = "''wh://'' @ m @ ''.wns''"
  have sp: "\<forall>c \<in> set ?y. \<not> is_space c" using m by (auto simp: is_space_def cp_def)
  have at: "CHR ''@'' \<notin> set ?y" using m by auto
  have "strip ?y = ?y" using sp by (rule strip_id)
  then show "uri_core ?y = m"
    unfolding uri_core_def by (simp only: strip_user_none [OF at] strip_scheme_wh strip_wns_suffix)
  have "\<forall>c \<in> set (''@'' @ ?y). \<not> is_space c" using sp by (auto simp: is_space_def cp_def)
  then have "strip (user @ ''@'' @ ?y) = lstrip user @ ''@'' @ ?y"
    by (intro strip_prefix_free) auto
  then have "strip_user (strip (user @ ''@'' @ ?y)) = ?y"
    using strip_user_last [OF at, of "lstrip user"] by simp
  then show "uri_core (user @ ''@'' @ ''wh://'' @ m @ ''.wns'') = m"
    unfolding uri_core_def by (simp only: strip_scheme_wh strip_wns_suffix)
qed

lemma parse_scoped_core:
  "parse_scoped_wns_address uri =
     (let u = uri_core uri; bare = (if is_base32_address u then Some (None, u) else None)
      in if CHR ''.'' \<in> set u then
           (case rsplit1 CHR ''.'' u of
              (nm, a) \<Rightarrow>
                if nm \<noteq> [] \<and> dashed_alnum nm \<and> is_base32_address a then Some (Some nm, a) else bare)
         else bare)"
  by (simp add: parse_scoped_wns_address_def uri_core_def Let_def)

lemma parse_core_bare:
  assumes "uri_core uri = a" "is_base32_address a"
  shows "parse_scoped_wns_address uri = Some (None, a)"
  using assms base32_address_chars by (auto simp: parse_scoped_core Let_def)

lemma dashed_alnum_nonempty: "dashed_alnum s \<Longrightarrow> s \<noteq> []"
  by (auto simp: dashed_alnum_def isalnum_def remove_char_def)

lemma parse_core_scoped:
  assumes "uri_core uri = nm @ ''.'' @ a" "is_base32_address a" "dashed_alnum nm"
  shows "parse_scoped_wns_address uri = Some (Some nm, a)"
proof -
  have "CHR ''.'' \<notin> set a" using assms(2) base32_address_chars by blast
  then show ?thesis using assms dashed_alnum_nonempty
    by (simp add: parse_scoped_core rsplit1_append)
qed

lemma scoped_chars:
  assumes "is_base32_address a" "dashed_alnum nm"
  shows "\<forall>c \<in> set (nm @ ''.'' @ a). \<not> is_space c \<and> c \<noteq> CHR ''@''"
proof -
  have "\<not> is_space CHR ''.''" by (simp add: is_space_def cp_def)
  moreover have "\<not> is_space c \<and> c \<noteq> CHR ''@''" if "c \<in> set nm" for c
    using assms(2) that dashed_alnum_no_space dashed_alnum_no_at by blast
  ultimately show ?thesis using base32_address_chars [OF assms(1)] by auto
qed

lemma address_chars: "is_base32_address a \<Longrightarrow> \<forall>c \<in> set a. \<not> is_space c \<and> c \<noteq> CHR ''@''"
  using base32_address_chars by blast

lemma parse_scoped_sound:
  assumes "parse_scoped_wns_address uri = Some (nm, a)"
  shows "is_base32_address a \<and> (\<forall>n. nm = Some n \<longrightarrow> dashed_alnum n)"
  using assms by (auto simp: parse_scoped_core Let_def split: if_splits prod.splits)

section \<open>Well-formed identities and stores\<close>

definition wf_identity :: "nacl \<Rightarrow> identity \<Rightarrow> bool" where
  "wf_identity nc i \<longleftrightarrow>
     length (verify_key i) = 32 \<and> id_address i = derive_address (verify_key i)
     \<and> (case signing_key i of Some sk \<Rightarrow> length sk = 32 \<and> verify_key i = pub_of nc sk | None \<Rightarrow> True)
     \<and> id_name i \<noteq> Some [] \<and> id_scoped i \<noteq> Some []"

definition store_ok :: "nacl \<Rightarrow> identity_store \<Rightarrow> bool" where
  "store_ok nc s \<longleftrightarrow>
     distinct (dkeys (identity_files s))
     \<and> (\<forall>(a, d) \<in> set (identity_files s). \<exists>i. wf_identity nc i \<and> a = id_address i \<and> d = identity_to_dict i)"

lemma wf_from_private_key:
  "nacl_ok nc \<Longrightarrow> from_private_key nc sk nm = Inr i \<Longrightarrow> nm \<noteq> Some [] \<Longrightarrow> wf_identity nc i"
  by (auto simp: from_private_key_def nacl_ok_def wf_identity_def Let_def split: if_splits)

lemma wf_from_public_key: "from_public_key vk = Inr i \<Longrightarrow> wf_identity nc i"
  by (auto simp: from_public_key_def wf_identity_def split: if_splits)

lemma from_dict_address:
  "identity_from_dict nc d = Inr i \<Longrightarrow> id_address i = derive_address (verify_key i)"
  by (auto simp: identity_from_dict_def from_private_key_def from_public_key_def Let_def
      split: if_splits sum.splits)

lemma dget_append [simp]:
  "dget (d @ e) k = (case dget d k of Some v \<Rightarrow> Some v | None \<Rightarrow> dget e k)"
  by (simp add: map_add_def)

lemma from_dict_to_dict:
  assumes "wf_identity nc i"
  shows "identity_from_dict nc (identity_to_dict i) = Inr i"
proof -
  have nm: "jopt_str (identity_to_dict i) ''name'' = id_name i"
    "jopt_str (identity_to_dict i) ''scoped_name'' = id_scoped i"
    using assms
    by (auto simp: jopt_str_def identity_to_dict_def wf_identity_def truthy_iff split: option.split)
  show ?thesis
  proof (cases "signing_key i")
    case None
    then have "\<not> has_key (identity_to_dict i) ''private_key''"
      "jbytes (identity_to_dict i) ''public_key'' = Inr (public_key i)"
      by (simp_all add: has_key_iff identity_to_dict_def jbytes_def jstr_def)
    then show ?thesis using None assms nm
      by (simp add: identity_from_dict_def from_public_key_def wf_identity_def public_key_def)
  next
    case (Some sk)
    then have "has_key (identity_to_dict i) ''private_key''"
      "jbytes (identity_to_dict i) ''private_key'' = Inr sk"
      by (simp_all add: has_key_iff identity_to_dict_def jbytes_def jstr_def)
    then show ?thesis using Some assms nm
      by (simp add: identity_from_dict_def from_private_key_def wf_identity_def Let_def)
  qed
qed

interpretation id_files: kv_store
  "\<lambda>s a. dget (identity_files s) a"
  "\<lambda>a d s. s\<lparr>identity_files := dset a d (identity_files s)\<rparr>"
  "\<lambda>a s. s\<lparr>identity_files := ddel a (identity_files s)\<rparr>"
  by unfold_locales simp_all

lemma load_save:
  "wf_identity nc i \<Longrightarrow>
   load_identity nc (save_identity i s) a
     = (if a = id_address i then Inr (Some i) else load_identity nc s a)"
  by (simp add: load_identity_def save_identity_def from_dict_to_dict)

lemma load_delete:
  "load_identity nc (snd (delete_identity b s)) a
     = (if a = b then Inr None else load_identity nc s a)"
  by (auto simp: load_identity_def delete_identity_def has_key_iff)

lemma store_ok_save: "store_ok nc s \<Longrightarrow> wf_identity nc i \<Longrightarrow> store_ok nc (save_identity i s)"
  by (auto simp: store_ok_def save_identity_def set_dset)

lemma store_ok_delete: "store_ok nc s \<Longrightarrow> store_ok nc (snd (delete_identity a s))"
  by (auto simp: store_ok_def delete_identity_def set_ddel)

lemma store_ok_load:
  assumes "store_ok nc s" "a \<in> set (dkeys (identity_files s))"
  obtains i where "load_identity nc s a = Inr (Some i)" "wf_identity nc i" "id_address i = a"
proof -
  obtain d where d: "dget (identity_files s) a = Some d"
    using assms(2) by (metis map_of_eq_None_iff not_None_eq set_map)
  then have "(a, d) \<in> set (identity_files s)" by (rule map_of_SomeD)
  then obtain i where "wf_identity nc i" "a = id_address i" "d = identity_to_dict i"
    using assms(1) by (fastforce simp: store_ok_def)
  then show thesis using that d by (simp add: load_identity_def from_dict_to_dict)
qed

lemma collect_loaded:
  assumes "\<And>a. a \<in> set as \<Longrightarrow> \<exists>i. f a = Inr (Some i) \<and> id_address i = a"
  shows "\<exists>js. collect_identities (map f as) = Inr js \<and> map id_address js = as"
  using assms
proof (induction as)
  case (Cons a as)
  then obtain js where "collect_identities (map f as) = Inr js" "map id_address js = as" by auto
  moreover obtain i where "f a = Inr (Some i)" "id_address i = a" using Cons.prems by auto
  ultimately show ?case by simp
qed simp

lemma list_store_ok:
  assumes "store_ok nc s"
  obtains js where "list_identities nc s = Inr js" "map id_address js = dkeys (identity_files s)"
proof -
  have "\<exists>i. load_identity nc s a = Inr (Some i) \<and> id_address i = a"
    if "a \<in> set (dkeys (identity_files s))" for a
    using store_ok_load [OF assms that] by blast
  then show thesis
    using that collect_loaded [of "dkeys (identity_files s)" "load_identity nc s"]
    unfolding list_identities_def by blast
qed

text \<open>What the default lookup returns on a well-formed store.\<close>

definition default_choice :: "string option \<Rightarrow> string list \<Rightarrow> string option" where
  "default_choice d as =
     (case as of
        [] \<Rightarrow> None
      | b # _ \<Rightarrow> if truthy d \<and> the d \<in> set as then d else Some b)"

lemma find_address:
  "map_option id_address (find (\<lambda>j. id_address j = a) js) = (if a \<in> id_address ` set js then Some a else None)"
  by (induction js) auto

lemma default_address:
  assumes "store_ok nc s"
  shows "\<exists>r. get_default_identity nc s = Inr r \<and> map_option id_address r
    = default_choice (get_default_identity_address s) (dkeys (identity_files s))"
proof -
  obtain js where l: "list_identities nc s = Inr js" "map id_address js = dkeys (identity_files s)"
    using assms by (rule list_store_ok)
  define d where "d = get_default_identity_address s"
  have keys: "set (dkeys (identity_files s)) = id_address ` set js" unfolding l(2) [symmetric] by simp
  show ?thesis
  proof (cases js)
    case Nil
    then show ?thesis using l by (simp add: get_default_identity_def default_choice_def)
  next
    case (Cons i ks)
    then have first: "default_choice d (dkeys (identity_files s))
        = (if truthy d \<and> the d \<in> id_address ` set js then d else Some (id_address i))"
      unfolding keys [symmetric] by (simp add: default_choice_def l(2) [symmetric])
    have get: "get_default_identity nc s = Inr (if truthy d then
        (case find (\<lambda>j. id_address j = the d) js of Some j \<Rightarrow> Some j | None \<Rightarrow> Some i) else Some i)"
      using l(1) Cons
      by (simp add: get_default_identity_def d_def get_default_identity_address_def Let_def split: option.split)
    have found: "map_option id_address (case find (\<lambda>j. id_address j = a) js of Some j \<Rightarrow> Some j | None \<Rightarrow> Some i)
        = (if a \<in> id_address ` set js then Some a else Some (id_address i))" for a
      using find_address [of a js] by (cases "find (\<lambda>j. id_address j = a) js") (auto split: if_splits)
    have "map_option id_address (if truthy d then
        (case find (\<lambda>j. id_address j = the d) js of Some j \<Rightarrow> Some j | None \<Rightarrow> Some i) else Some i)
        = default_choice d (dkeys (identity_files s))"
    proof (cases "truthy d")
      case True
      then obtain a where "d = Some a" by (cases d) auto
      then show ?thesis unfolding first using True by (simp only: found if_True option.sel simp_thms)
    qed (simp add: first)
    then show ?thesis unfolding get d_def by blast
  qed
qed

text \<open>A signature scheme that satisfies the assumptions, for the witnesses.\<close>

definition toy_nacl :: nacl where
  "toy_nacl = \<lparr>pub_of = \<lambda>sk. sk, sign_with = \<lambda>sk m. sk @ sk, open_ok = \<lambda>vk sm. take 32 sm = vk\<rparr>"

lemma toy_nacl_ok: "nacl_ok toy_nacl"
  by (simp add: nacl_ok_def toy_nacl_def)

definition toy_identity :: identity where
  "toy_identity = \<lparr>signing_key = Some (replicate 32 1), verify_key = replicate 32 1,
     id_address = derive_address (replicate 32 1), id_name = None, id_scoped = Some ''lab''\<rparr>"

lemma wf_toy_identity: "wf_identity toy_nacl toy_identity"
  by (simp add: wf_identity_def toy_identity_def toy_nacl_def)

section \<open>Properties\<close>

text \<open>
  The base 32 text of addresses is lossless, and every derived address is 26 characters of the
  base 32 alphabet, the shape that the parsers and the stores require.
\<close>

theorem address_codec:
  "base32_decode (base32_encode data) = Inr data \<and> is_base32_address (derive_address vk)"
  by (intro conjI base32_decode_encode derive_address_base32)

text \<open>
  C21. A URI printed for an identity parses back to its address, with or without a scoped name and
  with any \<^verbatim>\<open>user@\<close> prefix.
\<close>

theorem printed_uri_parses:
  assumes "is_base32_address (id_address i)"
  shows "parse_scoped_wns_address (id_full_address i) = Some (None, id_address i)
    \<and> parse_scoped_wns_address (user @ ''@'' @ id_full_address i) = Some (None, id_address i)
    \<and> (case id_full_scoped_address i of
         None \<Rightarrow> \<not> truthy (id_scoped i)
       | Some u \<Rightarrow> dashed_alnum (the (id_scoped i)) \<longrightarrow>
           parse_scoped_wns_address u = Some (id_scoped i, id_address i)
           \<and> parse_scoped_wns_address (user @ ''@'' @ u) = Some (id_scoped i, id_address i))"
proof -
  note bare = uri_core_full [OF address_chars [OF assms]]
  have "parse_scoped_wns_address (id_full_address i) = Some (None, id_address i)"
    "parse_scoped_wns_address (user @ ''@'' @ id_full_address i) = Some (None, id_address i)"
    unfolding id_full_address_def by (rule parse_core_bare [OF bare(1) assms], rule parse_core_bare [OF bare(2) assms])
  moreover have "parse_scoped_wns_address (''wh://'' @ nm @ ''.'' @ id_address i @ ''.wns'') = Some (Some nm, id_address i)
      \<and> parse_scoped_wns_address (user @ ''@'' @ ''wh://'' @ nm @ ''.'' @ id_address i @ ''.wns'')
          = Some (Some nm, id_address i)" if "dashed_alnum nm" for nm
  proof -
    note core = uri_core_full [OF scoped_chars [OF assms that], unfolded append_assoc]
    show ?thesis using parse_core_scoped [OF core(1) assms that] parse_core_scoped [OF core(2) assms that]
      by blast
  qed
  ultimately show ?thesis by (cases "id_scoped i") (auto simp: id_full_scoped_address_def)
qed

theorem printed_uri_parses_witness:
  "parse_scoped_wns_address (''bob@'' @ ''wh://lap-top.abcdefghijklmnopqrstuvwxyz.wns'')
     = Some (Some ''lap-top'', ''abcdefghijklmnopqrstuvwxyz'')"
proof -
  let ?i = "\<lparr>signing_key = None, verify_key = [], id_address = ''abcdefghijklmnopqrstuvwxyz'',
      id_name = None, id_scoped = Some ''lap-top''\<rparr>"
  have "is_base32_address (id_address ?i)"
    by (simp add: is_base32_address_def base32_alphabet_def)
  moreover have "dashed_alnum ''lap-top''"
    by (simp add: dashed_alnum_def isalnum_def remove_char_def is_alnum_char_def is_dec_def cp_def)
  ultimately show ?thesis
    using printed_uri_parses [of ?i "''bob''"] by (simp add: id_full_scoped_address_def)
qed

text \<open>
  Whatever the parser accepts is a 26-character base 32 address, and a scoped name it returns
  is a non-empty name of letters, digits, dashes and underscores; \<^verbatim>\<open>parse_wns_address\<close> returns the
  same address.
\<close>

theorem parsed_uri_sound:
  assumes "parse_scoped_wns_address uri = Some (nm, a)"
  shows "is_base32_address a \<and> (\<forall>n. nm = Some n \<longrightarrow> dashed_alnum n) \<and> parse_wns_address uri = Some a
    \<and> is_wns_address uri"
  using parse_scoped_sound [OF assms] assms by (simp add: parse_wns_address_def is_wns_address_def)

theorem parsed_uri_sound_witness: "is_wns_address ''abcdefghijklmnopqrstuvwxyz''"
proof -
  have "parse_scoped_wns_address ''abcdefghijklmnopqrstuvwxyz'' = Some (None, ''abcdefghijklmnopqrstuvwxyz'')"
    by code_simp
  from parsed_uri_sound [OF this] show ?thesis by simp
qed

text \<open>
  C10. An identity survives its dictionary: loading what was saved gives back the keys, the address
  and the names, and an identity loaded from any dictionary has the address of its own key.
\<close>

theorem identity_dict_roundtrip:
  assumes "wf_identity nc i"
  shows "identity_from_dict nc (identity_to_dict i) = Inr i
    \<and> (\<forall>d j. identity_from_dict nc d = Inr j \<longrightarrow> id_address j = derive_address (verify_key j))"
  using from_dict_to_dict [OF assms] from_dict_address by blast

theorem identity_dict_roundtrip_witness:
  "identity_from_dict toy_nacl (identity_to_dict toy_identity) = Inr toy_identity"
  using identity_dict_roundtrip [OF wf_toy_identity] by blast

text \<open>
  The identity store is a map from addresses to identities: a saved identity is what its address
  loads, other addresses are not affected, and a deleted address loads nothing.
\<close>

theorem identity_store_map:
  assumes "wf_identity nc i"
  shows "load_identity nc (save_identity i s) a
      = (if a = id_address i then Inr (Some i) else load_identity nc s a)
    \<and> load_identity nc (snd (delete_identity b s)) a = (if a = b then Inr None else load_identity nc s a)
    \<and> (fst (delete_identity b s) \<longleftrightarrow> has_key (identity_files s) b)"
  using load_save [OF assms] load_delete by (simp add: delete_identity_def)

theorem identity_store_map_witness:
  "load_identity toy_nacl (save_identity toy_identity \<lparr>identity_files = [], known_hosts = [], id_config = []\<rparr>)
     (id_address toy_identity) = Inr (Some toy_identity)"
  using identity_store_map [OF wf_toy_identity, of "\<lparr>identity_files = [], known_hosts = [], id_config = []\<rparr>"
      "id_address toy_identity"] by simp

text \<open>
  The default identity: after \<^verbatim>\<open>set_default_identity\<close> on a stored address that identity is the
  default; once it is deleted, or the setting is cleared, the first stored identity is, and an
  empty store has none.
\<close>

theorem default_identity:
  assumes "store_ok nc s" "a \<in> set (dkeys (identity_files s))"
  shows "\<exists>s'. set_default_identity nc a s = Inr (True, s')
    \<and> (a \<noteq> [] \<longrightarrow> (\<exists>i. get_default_identity nc s' = Inr (Some i) \<and> id_address i = a))
    \<and> (\<exists>r. get_default_identity nc (snd (delete_identity a s')) = Inr r \<and> map_option id_address r
         = (case filter (\<lambda>b. b \<noteq> a) (dkeys (identity_files s)) of [] \<Rightarrow> None | b # _ \<Rightarrow> Some b))
    \<and> (\<exists>r. get_default_identity nc (clear_default_identity s') = Inr r
         \<and> map_option id_address r = Some (hd (dkeys (identity_files s))))"
proof -
  let ?s = "s\<lparr>id_config := dset ''default_identity'' (JStr a) (id_config s)\<rparr>"
  obtain i where "load_identity nc s a = Inr (Some i)" using store_ok_load [OF assms] by blast
  then have set: "set_default_identity nc a s = Inr (True, ?s)" by (simp add: set_default_identity_def)
  have ok: "store_ok nc ?s" "store_ok nc (snd (delete_identity a ?s))" "store_ok nc (clear_default_identity ?s)"
    using assms(1) store_ok_delete [of nc ?s a] by (simp_all add: store_ok_def clear_default_identity_def)
  have addr: "get_default_identity_address ?s = Some a"
    "get_default_identity_address (snd (delete_identity a ?s)) = Some a"
    "get_default_identity_address (clear_default_identity ?s) = None"
    by (simp_all add: get_default_identity_address_def jopt_str_def delete_identity_def
        clear_default_identity_def has_key_iff)
  have keys: "dkeys (identity_files (snd (delete_identity a ?s)))
      = filter (\<lambda>b. b \<noteq> a) (dkeys (identity_files s))"
    using assms(2) by (simp add: delete_identity_def has_key_def dkeys_ddel)
  have "\<exists>i. get_default_identity nc ?s = Inr (Some i) \<and> id_address i = a" if "a \<noteq> []"
    using default_address [OF ok(1)] assms(2) that
    by (cases "dkeys (identity_files s)") (auto simp: addr default_choice_def)
  moreover have "\<exists>r. get_default_identity nc (snd (delete_identity a ?s)) = Inr r \<and> map_option id_address r
      = (case filter (\<lambda>b. b \<noteq> a) (dkeys (identity_files s)) of [] \<Rightarrow> None | b # _ \<Rightarrow> Some b)"
  proof -
    have "default_choice (Some a) (filter (\<lambda>b. b \<noteq> a) ks) = (case filter (\<lambda>b. b \<noteq> a) ks of [] \<Rightarrow> None | b # _ \<Rightarrow> Some b)"
      for ks
    proof -
      have "a \<notin> set (filter (\<lambda>b. b \<noteq> a) ks)" by simp
      then show ?thesis by (cases "filter (\<lambda>b. b \<noteq> a) ks") (simp_all add: default_choice_def)
    qed
    then show ?thesis using default_address [OF ok(2)] unfolding addr keys by simp
  qed
  moreover have "\<exists>r. get_default_identity nc (clear_default_identity ?s) = Inr r
      \<and> map_option id_address r = Some (hd (dkeys (identity_files s)))"
  proof -
    have files: "identity_files (clear_default_identity ?s) = identity_files s"
      by (simp add: clear_default_identity_def)
    have "default_choice None ks = Some (hd ks)" if "a \<in> set ks" for ks
      using that by (cases ks) (simp_all add: default_choice_def)
    then show ?thesis using default_address [OF ok(3)] assms(2) unfolding addr files by simp
  qed
  ultimately show ?thesis using set by blast
qed

theorem default_identity_witness:
  "\<exists>s' i. set_default_identity toy_nacl (id_address toy_identity)
       (save_identity toy_identity \<lparr>identity_files = [], known_hosts = [], id_config = []\<rparr>) = Inr (True, s')
     \<and> get_default_identity toy_nacl s' = Inr (Some i) \<and> id_address i = id_address toy_identity"
proof -
  let ?s = "save_identity toy_identity \<lparr>identity_files = [], known_hosts = [], id_config = []\<rparr>"
  have ok: "store_ok toy_nacl ?s" by (rule store_ok_save [OF _ wf_toy_identity]) (simp add: store_ok_def)
  have key: "id_address toy_identity \<in> set (dkeys (identity_files ?s))" by (simp add: save_identity_def)
  have "id_address toy_identity \<noteq> []"
    using derive_address_base32 base32_address_nonempty by (simp add: toy_identity_def)
  then show ?thesis using default_identity [OF ok key] by blast
qed

text \<open>
  A signature made by an identity verifies under the public-only identity a client rebuilds from
  the public key, which has the same address; a public-only identity cannot sign.
\<close>

theorem signature_verifies:
  assumes "nacl_ok nc" "wf_identity nc i"
  shows "case identity_sign nc i m of
      Inr sig \<Rightarrow> (\<exists>j. from_public_key (public_key i) = Inr j \<and> id_address j = id_address i
        \<and> identity_verify nc j m sig \<and> identity_sign nc j m = Inl ValueError)
    | Inl e \<Rightarrow> e = ValueError \<and> \<not> can_sign i"
  using assms
  by (auto simp: identity_sign_def can_sign_def from_public_key_def public_key_def identity_verify_def
      wf_identity_def nacl_ok_def split: option.splits)

theorem signature_verifies_witness:
  "\<exists>sig j. identity_sign toy_nacl toy_identity [1] = Inr sig \<and> from_public_key (replicate 32 1) = Inr j
     \<and> identity_verify toy_nacl j [1] sig"
  using signature_verifies [OF toy_nacl_ok wf_toy_identity, of "[1]"]
  by (auto simp: identity_sign_def toy_identity_def public_key_def)

end
