(* ===== verification/Advertisement.thy ===== *)
theory Advertisement
  imports Identity Json_Text
begin

text \<open>
  \<^verbatim>\<open>src/wh/wns/advertisement.py\<close>: signed advertisements of wormhole codes. The interface that
  advertisements and name claims share, a signed record whose address is the hash of its key, is
  the locale \<^verbatim>\<open>signed_record\<close>; its interpretation on advertisements is in this theory and the one
  on name claims in \<^verbatim>\<open>Names\<close>.
\<close>

section \<open>Signed records\<close>

definition expiry_ok :: "datetime \<Rightarrow> datetime \<Rightarrow> bool" where
  "expiry_ok now expires \<longleftrightarrow> dt_ge now expires = Inr False"

lemma expiry_ok_iff:
  "expiry_ok now e \<longleftrightarrow> (utcoff now = None \<longleftrightarrow> utcoff e = None) \<and> instant now < instant e"
  by (auto simp: expiry_ok_def dt_ge_def)

locale signed_record =
  fixes verify_rec :: "nacl \<Rightarrow> datetime \<Rightarrow> 'r \<Rightarrow> string option \<Rightarrow> bool result"
    and rec_key :: "'r \<Rightarrow> bytes"
    and rec_address :: "'r \<Rightarrow> string"
    and rec_expires :: "'r \<Rightarrow> datetime"
    and rec_message :: "'r \<Rightarrow> bytes"
    and rec_signature :: "'r \<Rightarrow> bytes"
    and rec_expected :: "'r \<Rightarrow> string \<Rightarrow> bool"
  assumes accepts_iff:
    "verify_rec nc now r ex = Inr True \<longleftrightarrow>
       expiry_ok now (rec_expires r) \<and> length (rec_key r) = 32
       \<and> derive_address (rec_key r) = rec_address r
       \<and> (truthy ex \<longrightarrow> rec_expected r (the ex))
       \<and> open_ok nc (rec_key r) (rec_signature r @ rec_message r)"
begin

lemma accepted_address: "verify_rec nc now r ex = Inr True \<Longrightarrow> is_base32_address (rec_address r)"
  using accepts_iff derive_address_base32 by metis

lemma accepted_earlier:
  "verify_rec nc now r ex = Inr True \<Longrightarrow> instant t \<le> instant now \<Longrightarrow>
   (utcoff t = None \<longleftrightarrow> utcoff now = None) \<Longrightarrow> verify_rec nc t r ex = Inr True"
  by (auto simp: accepts_iff expiry_ok_iff)

lemma expired_rejected:
  "instant (rec_expires r) \<le> instant now \<Longrightarrow> verify_rec nc now r ex \<noteq> Inr True"
  by (auto simp: accepts_iff expiry_ok_iff)

lemma address_pins_key:
  assumes "verify_rec nc now r ex = Inr True" "verify_rec nc' now' r' ex' = Inr True"
    and "rec_address r = rec_address r'"
  shows "take address_bytes (sha256 (rec_key r)) = take address_bytes (sha256 (rec_key r'))"
proof -
  have "derive_address (rec_key r) = derive_address (rec_key r')"
    using assms by (simp add: accepts_iff)
  then show ?thesis unfolding derive_address_def by (metis base32_decode_encode sum.inject(2))
qed

end

section \<open>Advertisements\<close>

record advertisement =
  ad_address :: string
  ad_code :: string
  ad_timestamp :: datetime
  ad_expires :: datetime
  ad_public_key :: bytes
  ad_signature :: bytes
  ad_version :: int
  ad_scoped_name :: "string option"

definition ad_sign_message :: "string \<Rightarrow> string \<Rightarrow> datetime \<Rightarrow> datetime \<Rightarrow> bytes" where
  "ad_sign_message addr code timestamp expires =
     encode_utf8 (''WNS-ADV-v1:'' @ addr @ '':'' @ code @ '':'' @ isoformat timestamp @ '':''
       @ isoformat expires)"

text \<open>
  \<^verbatim>\<open>datetime.fromtimestamp(now.timestamp() + seconds, tz=timezone.utc)\<close>: the calendar ends with the year 9999
  (and begins with the year 1), and a moment outside of it raises. Floating-point rounding of the
  timestamp is not modelled (before the year 2106 it is less than half a microsecond); of a number that
  not even the C library can hold, the class of the exception is another one.
\<close>

definition end_of_calendar :: int where
  "end_of_calendar = 315537984000000000"

definition add_seconds :: "datetime \<Rightarrow> int \<Rightarrow> datetime result" where
  "add_seconds t s =
     (let i = instant t + s * 1000000
      in if i < 86400000000 \<or> end_of_calendar \<le> i then Inl ValueError else Inr (utc_of i))"

lemma add_seconds_Inr:
  assumes "add_seconds t s = Inr e"
  shows "instant e = instant t + s * 1000000" "utcoff e = Some 0" "valid_datetime e"
    "instant t + s * 1000000 < end_of_calendar"
  using assms by (auto simp: add_seconds_def Let_def instant_utc_of valid_utc_of end_of_calendar_def split: if_splits)

definition create_ad ::
  "nacl \<Rightarrow> datetime \<Rightarrow> identity \<Rightarrow> string \<Rightarrow> int \<Rightarrow> advertisement result" where
  "create_ad nc now i code ttl_seconds =
     (if \<not> can_sign i then Inl ValueError
      else
        (case add_seconds now ttl_seconds of
           Inl e \<Rightarrow> Inl e
         | Inr expires \<Rightarrow>
             (let message = ad_sign_message (id_address i) code now expires
              in case identity_sign nc i message of
                   Inl e \<Rightarrow> Inl e
                 | Inr signature \<Rightarrow>
                     Inr \<lparr>ad_address = id_address i, ad_code = code, ad_timestamp = now, ad_expires = expires,
                          ad_public_key = public_key i, ad_signature = signature, ad_version = 1,
                          ad_scoped_name = id_scoped i\<rparr>)))"

definition ad_is_expired :: "datetime \<Rightarrow> advertisement \<Rightarrow> bool result" where
  "ad_is_expired now ad = dt_ge now (ad_expires ad)"

text \<open>\<^verbatim>\<open>time_remaining\<close>, in microseconds.\<close>

definition ad_time_remaining :: "datetime \<Rightarrow> advertisement \<Rightarrow> int result" where
  "ad_time_remaining now ad =
     (if (utcoff now = None) \<noteq> (utcoff (ad_expires ad) = None) then Inl TypeError
      else Inr (instant (ad_expires ad) - instant now))"

text \<open>
  \<^verbatim>\<open>verify\<close>: only the signature check itself is guarded, so a key of the wrong length or a naive
  expiry raises.
\<close>

definition verify_ad :: "nacl \<Rightarrow> datetime \<Rightarrow> advertisement \<Rightarrow> string option \<Rightarrow> bool result" where
  "verify_ad nc now ad expected =
     (case ad_is_expired now ad of
        Inl e \<Rightarrow> Inl e
      | Inr True \<Rightarrow> Inr False
      | Inr False \<Rightarrow>
          (case from_public_key (ad_public_key ad) of
             Inl e \<Rightarrow> Inl e
           | Inr i \<Rightarrow>
               if id_address i \<noteq> ad_address ad then Inr False
               else if truthy expected \<and> ad_address ad \<noteq> the expected then Inr False
               else Inr (identity_verify nc i
                      (ad_sign_message (ad_address ad) (ad_code ad) (ad_timestamp ad) (ad_expires ad))
                      (ad_signature ad))))"

definition ad_to_dict :: "advertisement \<Rightarrow> jdict" where
  "ad_to_dict ad =
     [(''version'', JInt (ad_version ad)), (''address'', JStr (ad_address ad)),
      (''code'', JStr (ad_code ad)), (''timestamp'', JStr (isoformat (ad_timestamp ad))),
      (''expires'', JStr (isoformat (ad_expires ad))),
      (''public_key'', JStr (b64encode (ad_public_key ad))),
      (''signature'', JStr (b64encode (ad_signature ad)))]
     @ opt_entry ''scoped_name'' (ad_scoped_name ad)"

definition jversion :: "jdict \<Rightarrow> int" where
  "jversion d = (case dget d ''version'' of Some (JInt n) \<Rightarrow> n | _ \<Rightarrow> 1)"

text \<open>
  Python does not look at the types of \<^verbatim>\<open>address\<close>, \<^verbatim>\<open>code\<close> and \<^verbatim>\<open>version\<close>: an advertisement whose address or code is
  no text (such an address never equals the one of the key, so \<^verbatim>\<open>verify\<close> refuses it) is outside of the model, which
  takes it for the \<^const>\<open>TypeError\<close> that values of other types give in the other fields.
\<close>

definition ad_from_dict :: "jdict \<Rightarrow> advertisement result" where
  "ad_from_dict d =
     (case jstr d ''address'' of Inl e \<Rightarrow> Inl e | Inr addr \<Rightarrow>
      (case jstr d ''code'' of Inl e \<Rightarrow> Inl e | Inr code \<Rightarrow>
      (case jtime d ''timestamp'' of Inl e \<Rightarrow> Inl e | Inr timestamp \<Rightarrow>
      (case jtime d ''expires'' of Inl e \<Rightarrow> Inl e | Inr expires \<Rightarrow>
      (case jbytes d ''public_key'' of Inl e \<Rightarrow> Inl e | Inr pk \<Rightarrow>
      (case jbytes d ''signature'' of Inl e \<Rightarrow> Inl e | Inr sig \<Rightarrow>
         Inr \<lparr>ad_address = addr, ad_code = code, ad_timestamp = timestamp, ad_expires = expires,
              ad_public_key = pk, ad_signature = sig, ad_version = jversion d,
              ad_scoped_name = jopt_str d ''scoped_name''\<rparr>))))))"

definition ad_to_json :: "advertisement \<Rightarrow> string" where
  "ad_to_json ad = json_dumps (Some 2) (JObj (ad_to_dict ad))"

text \<open>A JSON text that is not an object has no \<^verbatim>\<open>get\<close>.\<close>

definition ad_from_json :: "string \<Rightarrow> advertisement result" where
  "ad_from_json s =
     (case json_loads s of
        Inl e \<Rightarrow> Inl e
      | Inr (JObj d) \<Rightarrow> ad_from_dict d
      | Inr _ \<Rightarrow> Inl AttributeError)"

definition ad_full_address :: "advertisement \<Rightarrow> string" where
  "ad_full_address ad = ''wh://'' @ ad_address ad @ ''.wns''"

definition ad_full_scoped_address :: "advertisement \<Rightarrow> string option" where
  "ad_full_scoped_address ad =
     (if \<not> truthy (ad_scoped_name ad) then None
      else Some (''wh://'' @ the (ad_scoped_name ad) @ ''.'' @ ad_address ad @ ''.wns''))"

interpretation ad: signed_record verify_ad ad_public_key ad_address ad_expires
  "\<lambda>ad. ad_sign_message (ad_address ad) (ad_code ad) (ad_timestamp ad) (ad_expires ad)"
  ad_signature "\<lambda>ad ex. ad_address ad = ex"
  by unfold_locales
    (auto simp: verify_ad_def ad_is_expired_def expiry_ok_def from_public_key_def identity_verify_def
      split: sum.splits bool.splits if_splits)

section \<open>The signed message determines its fields\<close>

definition utc_ok :: "datetime \<Rightarrow> bool" where
  "utc_ok t \<longleftrightarrow> valid_datetime t \<and> utcoff t = Some 0"

definition iso_date :: "datetime \<Rightarrow> string" where
  "iso_date t =
     pad_nat 4 (year t) @ ''-'' @ pad_nat 2 (month t) @ ''-'' @ pad_nat 2 (day t) @ ''T''
     @ pad_nat 2 (hour t) @ '':'' @ pad_nat 2 (minute t) @ '':'' @ pad_nat 2 (second t)"

definition iso_rest :: "datetime \<Rightarrow> string" where
  "iso_rest t = (if micro t = 0 then [] else ''.'' @ pad_nat 6 (micro t)) @ iso_offset (utcoff t)"

lemma isoformat_parts: "isoformat t = iso_date t @ iso_rest t"
  by (simp add: isoformat_def iso_date_def iso_rest_def)

lemma pad_nat_dec: "c \<in> set (pad_nat k n) \<Longrightarrow> is_dec c"
  by (auto simp: pad_nat_def is_dec_def cp_def dest: show_nat_digits)

lemma dot_notin_pad [simp]: "CHR ''.'' \<notin> set (pad_nat k n)"
  by (auto dest!: pad_nat_dec simp: is_dec_def cp_def)

lemma iso_offset_utc: "iso_offset (Some 0) = ''+00:00''"
  by code_simp

lemma iso_rest_micro:
  assumes "utc_ok t" "micro t \<noteq> 0"
  shows "length (iso_rest t) = 13" "iso_rest t ! 0 = CHR ''.''"
proof -
  have "length (pad_nat 6 (micro t)) = 6"
    by (rule length_pad_nat) (use assms(1) in \<open>auto simp: utc_ok_def valid_datetime_def\<close>)
  then show "length (iso_rest t) = 13" "iso_rest t ! 0 = CHR ''.''"
    using assms by (simp_all add: iso_rest_def utc_ok_def iso_offset_utc)
qed

lemma iso_no_dot: "utc_ok t \<Longrightarrow> micro t = 0 \<Longrightarrow> CHR ''.'' \<notin> set (isoformat t)"
  by (simp add: isoformat_parts iso_date_def iso_rest_def utc_ok_def iso_offset_utc)

lemma length_iso_date: "utc_ok t \<Longrightarrow> length (iso_date t) = 19"
proof -
  assume t: "utc_ok t"
  have "days_in_month (year t) (month t) < 100"
    using t by (auto simp: utc_ok_def valid_datetime_def days_in_month_def nth_Cons split: nat.splits)
  then have "day t < 10 ^ 2" using t by (simp add: utc_ok_def valid_datetime_def)
  then show ?thesis using t
    by (simp add: iso_date_def length_pad_nat utc_ok_def valid_datetime_def)
qed

text \<open>Counted from the end, the thirteenth character tells the two lengths apart.\<close>

lemma iso_dot_at:
  assumes "utc_ok t"
  shows "rev (isoformat t) ! 12 = CHR ''.'' \<longleftrightarrow> micro t \<noteq> 0"
proof (cases "micro t = 0")
  case True
  have "12 < length (rev (isoformat t))" using length_iso_date [OF assms] by (simp add: isoformat_parts)
  then have "rev (isoformat t) ! 12 \<in> set (isoformat t)" by (metis nth_mem set_rev)
  then show ?thesis using iso_no_dot [OF assms True] True by metis
next
  case False
  have "rev (isoformat t) ! 12 = rev (iso_rest t) ! 12"
    using iso_rest_micro [OF assms False] by (simp add: isoformat_parts nth_append)
  also have "\<dots> = iso_rest t ! 0" using iso_rest_micro [OF assms False] by (simp add: rev_nth)
  finally show ?thesis using iso_rest_micro [OF assms False] False by simp
qed

lemma length_isoformat: "utc_ok t \<Longrightarrow> length (isoformat t) = (if micro t = 0 then 25 else 32)"
  using length_iso_date iso_rest_micro
  by (auto simp: isoformat_parts iso_rest_def utc_ok_def iso_offset_utc)

lemma isoformat_suffix_inject:
  assumes "utc_ok t" "utc_ok u" "x @ isoformat t = y @ isoformat u"
  shows "x = y \<and> t = u"
proof -
  have "rev (x @ isoformat t) ! 12 = rev (isoformat t) ! 12"
    "rev (y @ isoformat u) ! 12 = rev (isoformat u) ! 12"
    using length_isoformat [OF assms(1)] length_isoformat [OF assms(2)] by (simp_all add: nth_append)
  then have "micro t = 0 \<longleftrightarrow> micro u = 0"
    using assms(3) iso_dot_at [OF assms(1)] iso_dot_at [OF assms(2)] by metis
  then have "length (isoformat t) = length (isoformat u)"
    using length_isoformat [OF assms(1)] length_isoformat [OF assms(2)] by simp
  then have "x = y" "isoformat t = isoformat u" using assms(3) by auto
  moreover have "t = u"
    using fromisoformat_isoformat [of t] fromisoformat_isoformat [of u] assms(1,2) \<open>isoformat t = isoformat u\<close>
    by (simp add: utc_ok_def)
  ultimately show ?thesis by simp
qed

lemma ad_sign_message_inject:
  assumes "ad_sign_message a c t e = ad_sign_message a' c' t' e'"
    and "is_base32_address a" "is_base32_address a'" "utc_ok t" "utc_ok e" "utc_ok t'" "utc_ok e'"
  shows "a = a' \<and> c = c' \<and> t = t' \<and> e = e'"
proof -
  have "a @ '':'' @ c @ '':'' @ isoformat t @ '':'' @ isoformat e
      = a' @ '':'' @ c' @ '':'' @ isoformat t' @ '':'' @ isoformat e'"
    using assms(1) unfolding ad_sign_message_def encode_utf8_inject by simp
  moreover have "length a = length a'" using assms(2,3) by (simp add: is_base32_address_def)
  ultimately have "a = a'" "c @ '':'' @ isoformat t @ '':'' @ isoformat e
      = c' @ '':'' @ isoformat t' @ '':'' @ isoformat e'" by auto
  from this(2) have "(c @ '':'' @ isoformat t @ '':'') @ isoformat e
      = (c' @ '':'' @ isoformat t' @ '':'') @ isoformat e'" by simp
  from isoformat_suffix_inject [OF assms(5,7) this]
  have "e = e'" "(c @ '':'') @ isoformat t = (c' @ '':'') @ isoformat t'" by simp_all
  with isoformat_suffix_inject [OF assms(4,6) this(2)] \<open>a = a'\<close> show ?thesis by simp
qed

lemma ad_from_to_dict:
  assumes "valid_datetime (ad_timestamp ad)" "valid_datetime (ad_expires ad)" "ad_scoped_name ad \<noteq> Some []"
  shows "ad_from_dict (ad_to_dict ad) = Inr ad"
proof -
  have "jopt_str (ad_to_dict ad) ''scoped_name'' = ad_scoped_name ad"
    using assms(3) by (auto simp: jopt_str_def ad_to_dict_def truthy_iff split: option.split)
  moreover have "jversion (ad_to_dict ad) = ad_version ad" by (simp add: jversion_def ad_to_dict_def)
  ultimately show ?thesis using assms(1,2)
    by (simp add: ad_from_dict_def) (simp add: ad_to_dict_def jstr_def jtime_def jbytes_def)
qed

section \<open>Creation\<close>

lemma flat_ad_to_dict: "flat (ad_to_dict ad)"
  by (auto simp: flat_def ad_to_dict_def opt_entry_def split: option.splits)

lemma ad_from_to_json:
  "valid_datetime (ad_timestamp ad) \<Longrightarrow> valid_datetime (ad_expires ad) \<Longrightarrow> ad_scoped_name ad \<noteq> Some [] \<Longrightarrow>
   ad_from_json (ad_to_json ad) = Inr ad"
  by (simp add: ad_from_json_def ad_to_json_def json_flat_roundtrip flat_ad_to_dict ad_from_to_dict)

lemma utc_instant: "utc_ok t \<Longrightarrow> 86400000000 \<le> instant t"
  by (auto simp: utc_ok_def valid_datetime_def instant_def ymd2ord_def)

lemma created_ad:
  assumes "can_sign i" "create_ad nc now i code ttl = Inr ad"
  shows "ad_address ad = id_address i" "ad_public_key ad = verify_key i" "ad_code ad = code"
    "add_seconds now ttl = Inr (ad_expires ad)" "ad_timestamp ad = now" "ad_scoped_name ad = id_scoped i"
    "identity_sign nc i (ad_sign_message (id_address i) code now (ad_expires ad)) = Inr (ad_signature ad)"
  using assms by (auto simp: create_ad_def public_key_def Let_def split: sum.splits)

lemma create_ad_signs:
  "can_sign i \<Longrightarrow> add_seconds now ttl = Inr e \<Longrightarrow> \<exists>ad. create_ad nc now i code ttl = Inr ad"
  by (auto simp: create_ad_def can_sign_def identity_sign_def Let_def)

lemma add_seconds_ok:
  "utc_ok now \<Longrightarrow> 0 \<le> ttl \<Longrightarrow> instant now + ttl * 1000000 < end_of_calendar \<Longrightarrow> \<exists>e. add_seconds now ttl = Inr e"
  using utc_instant [of now] by (auto simp: add_seconds_def Let_def)

lemma identity_sign_opens:
  "nacl_ok nc \<Longrightarrow> wf_identity nc i \<Longrightarrow> identity_sign nc i m = Inr sig \<Longrightarrow> open_ok nc (verify_key i) (sig @ m)"
  by (auto simp: identity_sign_def wf_identity_def nacl_ok_def split: option.splits)

lemma verify_created_ad:
  assumes "nacl_ok nc" "wf_identity nc i" "can_sign i" "utc_ok now" "0 \<le> ttl"
    and "create_ad nc now i code ttl = Inr ad" "utcoff t \<noteq> None"
  shows "verify_ad nc t ad ex
    = Inr (instant t < instant now + ttl * 1000000 \<and> (truthy ex \<longrightarrow> the ex = id_address i))"
proof -
  note c = created_ad [OF assms(3,6)]
  have e: "instant (ad_expires ad) = instant now + ttl * 1000000" "utcoff (ad_expires ad) = Some 0"
    using add_seconds_Inr [OF c(4)] by simp_all
  have "from_public_key (verify_key i)
      = Inr \<lparr>signing_key = None, verify_key = verify_key i, id_address = id_address i, id_name = None,
             id_scoped = None\<rparr>"
    using assms(2) by (simp add: from_public_key_def wf_identity_def)
  moreover have "open_ok nc (verify_key i)
      (ad_signature ad @ ad_sign_message (id_address i) code now (ad_expires ad))"
    using identity_sign_opens [OF assms(1,2) c(7)] .
  ultimately show ?thesis using assms(7) e
    by (cases "instant now + ttl * 1000000 \<le> instant t")
      (auto simp: verify_ad_def ad_is_expired_def dt_ge_def c(1-3,5) identity_verify_def)
qed

section \<open>Properties\<close>

text \<open>
  C14. The life of an advertisement: an identity with a private key, asked for a lifetime that ends within
  the calendar (before the year 10000), creates one for its code, and it verifies at a time exactly while
  its lifetime has not run out and the expected address, if one is given, is the identity's own. Without
  a private key, or with a longer lifetime, nothing is created and \<^verbatim>\<open>ValueError\<close> is raised.
\<close>

theorem advertisement_lifetime:
  assumes "nacl_ok nc" "wf_identity nc i" "utc_ok now" "0 \<le> ttl"
  shows "case create_ad nc now i code ttl of
      Inl e \<Rightarrow> e = ValueError \<and> (\<not> can_sign i \<or> end_of_calendar \<le> instant now + ttl * 1000000)
    | Inr ad \<Rightarrow> can_sign i \<and> instant now + ttl * 1000000 < end_of_calendar \<and> ad_code ad = code
      \<and> (\<forall>t ex. utcoff t \<noteq> None \<longrightarrow> verify_ad nc t ad ex
          = Inr (instant t < instant now + ttl * 1000000 \<and> (truthy ex \<longrightarrow> the ex = id_address i)))"
proof (cases "can_sign i")
  case True
  show ?thesis
  proof (cases "create_ad nc now i code ttl")
    case (Inl e)
    then have "add_seconds now ttl = Inl e"
      using create_ad_signs [OF True, of now ttl _ nc code] True
      by (cases "add_seconds now ttl") (auto simp: create_ad_def)
    then have "e = ValueError" "\<not> instant now + ttl * 1000000 < end_of_calendar"
      using add_seconds_ok [OF assms(3,4)] by (auto simp: add_seconds_def Let_def split: if_splits)
    then show ?thesis using Inl by simp
  next
    case (Inr ad)
    then show ?thesis
      using verify_created_ad [OF assms(1,2) True assms(3,4) Inr] created_ad(3) [OF True Inr]
        add_seconds_Inr(4) [OF created_ad(4) [OF True Inr]] True by simp
  qed
qed (simp add: create_ad_def)

definition toy_now :: datetime where
  "toy_now = \<lparr>year = 2024, month = 2, day = 29, hour = 12, minute = 0, second = 0, micro = 0,
     utcoff = Some 0\<rparr>"

lemma toy_now_ok: "utc_ok toy_now"
  by (simp add: utc_ok_def valid_datetime_def toy_now_def days_in_month_def leap_def)

lemma instant_toy_now: "instant toy_now = 63844891200000000"
  by (simp add: toy_now_def instant_def ymd2ord_def days_before_year_def days_before_month_def month_days_def leap_def)

lemma toy_later: "0 \<le> s \<Longrightarrow> s \<le> 10000000 \<Longrightarrow> \<exists>e. add_seconds toy_now s = Inr e"
  by (rule add_seconds_ok [OF toy_now_ok]) (simp_all add: instant_toy_now end_of_calendar_def)

lemma toy_created: "\<exists>ad. create_ad toy_nacl toy_now toy_identity code 300 = Inr ad"
  using create_ad_signs [of toy_identity] toy_later [of 300] by (auto simp: can_sign_def toy_identity_def)

text \<open>Five minutes, and ten thousand years.\<close>

theorem advertisement_lifetime_witness:
  "(\<exists>ad e. create_ad toy_nacl toy_now toy_identity ''7-guitar-sunset'' 300 = Inr ad
     \<and> add_seconds toy_now 300 = Inr e
     \<and> verify_ad toy_nacl toy_now ad None = Inr True \<and> verify_ad toy_nacl e ad None = Inr False)
   \<and> create_ad toy_nacl toy_now toy_identity ''7-guitar-sunset'' 315360000000 = Inl ValueError"
proof
  obtain ad where ad: "create_ad toy_nacl toy_now toy_identity ''7-guitar-sunset'' 300 = Inr ad"
    using toy_created by blast
  obtain e where e: "add_seconds toy_now 300 = Inr e" using toy_later [of 300] by auto
  have "utcoff toy_now \<noteq> None" by (simp add: toy_now_def)
  then show "\<exists>ad e. create_ad toy_nacl toy_now toy_identity ''7-guitar-sunset'' 300 = Inr ad
     \<and> add_seconds toy_now 300 = Inr e
     \<and> verify_ad toy_nacl toy_now ad None = Inr True \<and> verify_ad toy_nacl e ad None = Inr False"
    using advertisement_lifetime [OF toy_nacl_ok wf_toy_identity toy_now_ok, of 300 "''7-guitar-sunset''"] ad e
      add_seconds_Inr(1,2) [OF e] by simp
  have "end_of_calendar \<le> instant toy_now + 315360000000 * 1000000"
    by (simp add: instant_toy_now end_of_calendar_def)
  then show "create_ad toy_nacl toy_now toy_identity ''7-guitar-sunset'' 315360000000 = Inl ValueError"
    using advertisement_lifetime [OF toy_nacl_ok wf_toy_identity toy_now_ok, of 315360000000 "''7-guitar-sunset''"]
    by (auto split: sum.splits)
qed

text \<open>
  What an accepted advertisement proves: its address is the hash of the key it carries, the key
  opens the signature over exactly its address, code and times, and the keys of all accepted
  advertisements for one address agree on the hash bits in the address. Accepted now, it was accepted
  at every earlier time.
\<close>

theorem accepted_advertisement:
  assumes "verify_ad nc now ad ex = Inr True"
  shows "derive_address (ad_public_key ad) = ad_address ad
    \<and> open_ok nc (ad_public_key ad)
        (ad_signature ad @ ad_sign_message (ad_address ad) (ad_code ad) (ad_timestamp ad) (ad_expires ad))
    \<and> (\<forall>now' ad' ex'. verify_ad nc now' ad' ex' = Inr True \<longrightarrow> ad_address ad' = ad_address ad \<longrightarrow>
         take 16 (sha256 (ad_public_key ad')) = take 16 (sha256 (ad_public_key ad)))
    \<and> (\<forall>t. instant t \<le> instant now \<longrightarrow> utcoff t = utcoff now \<longrightarrow> verify_ad nc t ad ex = Inr True)"
  using assms ad.accepts_iff [of nc now ad ex] ad.address_pins_key [OF _ assms]
    ad.accepted_earlier [OF assms]
  by (auto simp: address_bytes_def)

theorem accepted_advertisement_witness:
  "\<exists>ad. create_ad toy_nacl toy_now toy_identity ''c'' 300 = Inr ad \<and> ad_address ad = derive_address (replicate 32 1)
     \<and> derive_address (ad_public_key ad) = ad_address ad"
proof -
  have c: "can_sign toy_identity" by (simp add: can_sign_def toy_identity_def)
  obtain ad where ad: "create_ad toy_nacl toy_now toy_identity ''c'' 300 = Inr ad"
    using toy_created by blast
  have "verify_ad toy_nacl toy_now ad None = Inr True"
    using verify_created_ad [OF toy_nacl_ok wf_toy_identity c toy_now_ok _ ad, of toy_now None]
    by (simp add: toy_now_def)
  from accepted_advertisement [OF this] show ?thesis
    using ad created_ad [OF c ad] by (simp add: toy_identity_def)
qed

text \<open>
  The signed text is unambiguous: two advertisements with base 32 addresses and UTC times have
  the same text only if address, code and both times are equal, whatever separators the code holds.
\<close>

theorem advertisement_message_unambiguous:
  assumes "ad_sign_message a c t e = ad_sign_message a' c' t' e'"
    and "is_base32_address a" "is_base32_address a'" "utc_ok t" "utc_ok e" "utc_ok t'" "utc_ok e'"
  shows "a = a' \<and> c = c' \<and> t = t' \<and> e = e'"
  using assms by (rule ad_sign_message_inject)

theorem advertisement_message_unambiguous_witness:
  "ad_sign_message (derive_address []) '':x'' toy_now toy_now
     \<noteq> ad_sign_message (derive_address []) ''x:'' toy_now toy_now"
  using advertisement_message_unambiguous [OF _ derive_address_base32 derive_address_base32 toy_now_ok
      toy_now_ok toy_now_ok toy_now_ok, of "[]" "'':x''" "[]" "''x:''"]
  by auto

text \<open>
  An advertisement survives its dictionary, the form in which it is stored, served and fetched.
\<close>

theorem advertisement_roundtrip:
  assumes "valid_datetime (ad_timestamp ad)" "valid_datetime (ad_expires ad)" "ad_scoped_name ad \<noteq> Some []"
  shows "ad_from_dict (ad_to_dict ad) = Inr ad \<and> ad_from_json (ad_to_json ad) = Inr ad"
  using assms by (simp add: ad_from_to_dict ad_from_to_json)

theorem advertisement_roundtrip_witness:
  "let ad = \<lparr>ad_address = ''a'', ad_code = ''7-a'', ad_timestamp = toy_now, ad_expires = toy_now,
       ad_public_key = [1, 2], ad_signature = [3], ad_version = 1, ad_scoped_name = None\<rparr>
   in ad_from_dict (ad_to_dict ad) = Inr ad \<and> ad_from_json (ad_to_json ad) = Inr ad"
  unfolding Let_def by (rule advertisement_roundtrip) (use toy_now_ok in \<open>simp_all add: utc_ok_def\<close>)

end
