(* ===== verification/Names.thy ===== *)
theory Names
  imports Advertisement
begin

text \<open>
  \<^verbatim>\<open>src/wh/wns/names.py\<close>: global names, their signed claims and the local claim store.
\<close>

section \<open>Names\<close>

definition max_name_length :: nat where
  "max_name_length = 32"

definition reserved_names :: "string list" where
  "reserved_names =
     [''wh'', ''wns'', ''wormhole'', ''admin'', ''root'', ''system'', ''localhost'', ''local'', ''test'',
      ''example'']"

definition name_to_dht_key :: "string \<Rightarrow> bytes" where
  "name_to_dht_key nm = sha256 (encode_utf8 (''wns-name:'' @ lower nm))"

definition is_valid_global_name :: "string \<Rightarrow> bool" where
  "is_valid_global_name nm \<longleftrightarrow>
     (if nm = [] \<or> length nm > max_name_length then False
      else if \<not> dashed_alnum nm then False
      else if lower nm \<in> set reserved_names then False
      else if length nm = 26 \<and> list_all (\<lambda>c. c \<in> set base32_alphabet) (lower nm) then False
      else if is_digit (hd nm) \<and> CHR ''-'' \<in> set nm then False
      else True)"

definition is_global_name_address :: "string \<Rightarrow> bool" where
  "is_global_name_address uri0 \<longleftrightarrow>
     (let uri = strip_user (strip uri0)
      in if \<not> startswith uri ''wh://'' \<or> \<not> endswith uri ''.wns'' then False
         else
           (let middle = pslice uri 5 (- 4)
            in if CHR ''.'' \<in> set middle then False
               else if length middle = 26 \<and> list_all (\<lambda>c. c \<in> set base32_alphabet) (lower middle) then False
               else is_valid_global_name middle))"

definition parse_global_name :: "string \<Rightarrow> string option" where
  "parse_global_name uri0 =
     (let uri = strip_wns (strip_scheme (strip_user (strip uri0)))
      in if is_valid_global_name uri \<and> CHR ''.'' \<notin> set uri then Some (lower uri) else None)"

section \<open>Claims\<close>

record name_claim =
  cl_name :: string
  cl_address :: string
  cl_timestamp :: datetime
  cl_expires :: datetime
  cl_public_key :: bytes
  cl_signature :: bytes
  cl_version :: int

definition name_claim_ttl_seconds :: int where
  "name_claim_ttl_seconds = 7 * 24 * 60 * 60"

definition claim_sign_message :: "string \<Rightarrow> string \<Rightarrow> datetime \<Rightarrow> datetime \<Rightarrow> bytes" where
  "claim_sign_message nm addr timestamp expires =
     encode_utf8 (''WNS-NAME-v1:'' @ nm @ '':'' @ addr @ '':'' @ isoformat timestamp @ '':''
       @ isoformat expires)"

definition create_claim ::
  "nacl \<Rightarrow> datetime \<Rightarrow> identity \<Rightarrow> string \<Rightarrow> int \<Rightarrow> name_claim result" where
  "create_claim nc now i nm0 ttl_seconds =
     (if \<not> can_sign i then Inl ValueError
      else if \<not> is_valid_global_name nm0 then Inl ValueError
      else
        (let nm = lower nm0;
             sign_until = (\<lambda>expires.
               let message = claim_sign_message nm (id_address i) now expires
               in case identity_sign nc i message of
                    Inl e \<Rightarrow> Inl e
                  | Inr signature \<Rightarrow>
                      Inr \<lparr>cl_name = nm, cl_address = id_address i, cl_timestamp = now, cl_expires = expires,
                           cl_public_key = public_key i, cl_signature = signature, cl_version = 1\<rparr>)
         in case add_seconds now ttl_seconds of Inl e \<Rightarrow> Inl e | Inr expires \<Rightarrow> sign_until expires))"

definition claim_is_expired :: "datetime \<Rightarrow> name_claim \<Rightarrow> bool result" where
  "claim_is_expired now c = dt_ge now (cl_expires c)"

definition claim_time_remaining :: "datetime \<Rightarrow> name_claim \<Rightarrow> int result" where
  "claim_time_remaining now c =
     (if (utcoff now = None) \<noteq> (utcoff (cl_expires c) = None) then Inl TypeError
      else Inr (instant (cl_expires c) - instant now))"

definition verify_claim :: "nacl \<Rightarrow> datetime \<Rightarrow> name_claim \<Rightarrow> string option \<Rightarrow> bool result" where
  "verify_claim nc now c expected =
     (case claim_is_expired now c of
        Inl e \<Rightarrow> Inl e
      | Inr True \<Rightarrow> Inr False
      | Inr False \<Rightarrow>
          if truthy expected \<and> lower (cl_name c) \<noteq> lower (the expected) then Inr False
          else
            (case from_public_key (cl_public_key c) of
               Inl e \<Rightarrow> Inl e
             | Inr i \<Rightarrow>
                 if id_address i \<noteq> cl_address c then Inr False
                 else Inr (identity_verify nc i
                        (claim_sign_message (cl_name c) (cl_address c) (cl_timestamp c) (cl_expires c))
                        (cl_signature c))))"

definition claim_full_address :: "name_claim \<Rightarrow> string" where
  "claim_full_address c = ''wh://'' @ cl_name c @ ''.wns''"

definition claim_to_dict :: "name_claim \<Rightarrow> jdict" where
  "claim_to_dict c =
     [(''version'', JInt (cl_version c)), (''name'', JStr (cl_name c)),
      (''address'', JStr (cl_address c)), (''timestamp'', JStr (isoformat (cl_timestamp c))),
      (''expires'', JStr (isoformat (cl_expires c))),
      (''public_key'', JStr (b64encode (cl_public_key c))),
      (''signature'', JStr (b64encode (cl_signature c)))]"

definition claim_from_dict :: "jdict \<Rightarrow> name_claim result" where
  "claim_from_dict d =
     (case jstr d ''name'' of Inl e \<Rightarrow> Inl e | Inr nm \<Rightarrow>
      (case jstr d ''address'' of Inl e \<Rightarrow> Inl e | Inr addr \<Rightarrow>
      (case jtime d ''timestamp'' of Inl e \<Rightarrow> Inl e | Inr timestamp \<Rightarrow>
      (case jtime d ''expires'' of Inl e \<Rightarrow> Inl e | Inr expires \<Rightarrow>
      (case jbytes d ''public_key'' of Inl e \<Rightarrow> Inl e | Inr pk \<Rightarrow>
      (case jbytes d ''signature'' of Inl e \<Rightarrow> Inl e | Inr sig \<Rightarrow>
         Inr \<lparr>cl_name = nm, cl_address = addr, cl_timestamp = timestamp, cl_expires = expires,
              cl_public_key = pk, cl_signature = sig, cl_version = jversion d\<rparr>))))))"

interpretation claim: signed_record verify_claim cl_public_key cl_address cl_expires
  "\<lambda>c. claim_sign_message (cl_name c) (cl_address c) (cl_timestamp c) (cl_expires c)"
  cl_signature "\<lambda>c ex. lower (cl_name c) = lower ex"
  by unfold_locales
    (auto simp: verify_claim_def claim_is_expired_def expiry_ok_def from_public_key_def identity_verify_def
      split: sum.splits bool.splits if_splits)

section \<open>The claim store\<close>

text \<open>\<^verbatim>\<open>names/<name>.json\<close>, listed in the order of the dictionary.\<close>

type_synonym claim_store = "(string, jdict) dict"

definition save_claim :: "name_claim \<Rightarrow> claim_store \<Rightarrow> claim_store" where
  "save_claim c s = dset (cl_name c) (claim_to_dict c) s"

definition load_claim :: "claim_store \<Rightarrow> string \<Rightarrow> name_claim option result" where
  "load_claim s nm =
     (case dget s (lower nm) of None \<Rightarrow> Inr None | Some d \<Rightarrow> map_sum id Some (claim_from_dict d))"

definition list_claims :: "claim_store \<Rightarrow> name_claim list" where
  "list_claims s =
     concat (map (\<lambda>stem. case load_claim s stem of Inr (Some c) \<Rightarrow> [c] | _ \<Rightarrow> []) (dkeys s))"

definition delete_claim :: "string \<Rightarrow> claim_store \<Rightarrow> bool \<times> claim_store" where
  "delete_claim nm s = (if has_key s (lower nm) then (True, ddel (lower nm) s) else (False, s))"

section \<open>Lemmas on names\<close>

lemma valid_name_alnum: "is_valid_global_name nm \<Longrightarrow> dashed_alnum nm"
  by (simp add: is_valid_global_name_def split: if_splits)

lemma lower_char_dash: "lower_char c = CHR ''-'' \<longleftrightarrow> c = CHR ''-''"
  by (auto simp: lower_char_def cp_inject [symmetric]) (simp_all add: cp_def)

lemma dash_in_lower: "CHR ''-'' \<in> set (lower nm) \<longleftrightarrow> CHR ''-'' \<in> set nm"
proof -
  have "CHR ''-'' = lower_char x \<longleftrightarrow> x = CHR ''-''" for x using lower_char_dash [of x] by auto
  then show ?thesis by (auto simp: lower_def image_iff)
qed

lemma valid_name_lower: "is_valid_global_name (lower nm) \<longleftrightarrow> is_valid_global_name nm"
proof (cases "nm = []")
  case False
  then have "hd (lower nm) = lower_char (hd nm)" by (simp add: lower_def hd_map)
  moreover have "lower nm = [] \<longleftrightarrow> nm = []" by (simp add: lower_def)
  ultimately show ?thesis
    by (simp add: is_valid_global_name_def dashed_alnum_lower is_digit_lower dash_in_lower)
qed (simp add: is_valid_global_name_def lower_def)

lemma valid_name_not_address: "is_valid_global_name nm \<Longrightarrow> \<not> is_base32_address nm"
proof
  assume v: "is_valid_global_name nm" and a: "is_base32_address nm"
  have "lower nm = nm"
    unfolding lower_def by (rule map_idI) (use base32_address_chars [OF a] in blast)
  then show False using v a by (simp add: is_valid_global_name_def is_base32_address_def split: if_splits)
qed

lemma name_chars: "dashed_alnum nm \<Longrightarrow> \<forall>c \<in> set nm. \<not> is_space c \<and> c \<noteq> CHR ''@''"
  using dashed_alnum_no_space dashed_alnum_no_at by blast

lemma parse_global_core:
  "parse_global_name uri
     = (if is_valid_global_name (uri_core uri) \<and> CHR ''.'' \<notin> set (uri_core uri)
        then Some (lower (uri_core uri)) else None)"
  by (simp add: parse_global_name_def uri_core_def Let_def)

lemma parse_global_printed:
  assumes "is_valid_global_name nm"
  shows "parse_global_name (''wh://'' @ nm @ ''.wns'') = Some (lower nm)"
    and "parse_global_name (user @ ''@'' @ ''wh://'' @ nm @ ''.wns'') = Some (lower nm)"
  using assms uri_core_full [OF name_chars [OF valid_name_alnum [OF assms]]]
    dashed_alnum_no_dot [OF valid_name_alnum [OF assms]]
  by (simp_all add: parse_global_core del: append.simps)

lemma wh_wns_middle:
  assumes "startswith u ''wh://''" "endswith u ''.wns''"
  shows "u = ''wh://'' @ pslice u 5 (- 4) @ ''.wns''"
proof -
  obtain t where t: "u = ''wh://'' @ t" using assms(1) startswith_iff by blast
  obtain w where w: "u = w @ ''.wns''" using assms(2) endswith_iff by blast
  have "5 \<le> length w"
  proof (rule ccontr)
    assume "\<not> 5 \<le> length w"
    then have "length w = 0 \<or> length w = 1 \<or> length w = 2 \<or> length w = 3 \<or> length w = 4" by linarith
    moreover have "u ! length w = CHR ''.''" using w by (simp add: nth_append)
    moreover have "u ! 0 = CHR ''w''" "u ! 1 = CHR ''h''" "u ! 2 = CHR '':''" "u ! 3 = CHR ''/''" "u ! 4 = CHR ''/''"
      using t by (simp_all add: numeral_eq_Suc)
    ultimately show False by (elim disjE) simp_all
  qed
  then obtain m where m: "w = ''wh://'' @ m" using t w
    by (metis (no_types, lifting) append_eq_append_conv_if append_take_drop_id length_Cons list.size(3)
        One_nat_def numeral_eq_Suc pred_numeral_simps(2) pred_numeral_simps(3) BitM.simps eval_nat_numeral)
  have "pslice (''wh://'' @ m @ ''.wns'') 5 (- 4) = m"
    by (simp add: pslice_def Let_def clamp_index_def)
  then show ?thesis using w m by simp
qed

lemma claim_from_to_dict:
  assumes "valid_datetime (cl_timestamp c)" "valid_datetime (cl_expires c)"
  shows "claim_from_dict (claim_to_dict c) = Inr c"
  using assms by (simp add: claim_from_dict_def claim_to_dict_def jversion_def jstr_def jtime_def jbytes_def)

lemma uri_core_global:
  assumes "startswith (strip_user (strip uri)) ''wh://''" "endswith (strip_user (strip uri)) ''.wns''"
  shows "uri_core uri = pslice (strip_user (strip uri)) 5 (- 4)"
  unfolding uri_core_def by (subst wh_wns_middle [OF assms]) (simp only: strip_scheme_wh strip_wns_suffix)

section \<open>Claims of identities\<close>

lemma created_claim:
  assumes "create_claim nc now i nm ttl = Inr c"
  shows "cl_name c = lower nm" "cl_address c = id_address i" "cl_public_key c = verify_key i"
    "cl_timestamp c = now" "add_seconds now ttl = Inr (cl_expires c)" "is_valid_global_name nm" "can_sign i"
    "identity_sign nc i (claim_sign_message (lower nm) (id_address i) now (cl_expires c))
       = Inr (cl_signature c)"
  using assms by (auto simp: create_claim_def public_key_def Let_def split: sum.splits if_splits)

lemma create_claim_signs:
  "can_sign i \<Longrightarrow> is_valid_global_name nm \<Longrightarrow> add_seconds now ttl = Inr e \<Longrightarrow> \<exists>c. create_claim nc now i nm ttl = Inr c"
  by (auto simp: create_claim_def can_sign_def identity_sign_def Let_def)

lemma verify_created_claim:
  assumes "nacl_ok nc" "wf_identity nc i" "utc_ok now" "0 \<le> ttl"
    and "create_claim nc now i nm ttl = Inr c" "utcoff t \<noteq> None"
  shows "verify_claim nc t c ex
    = Inr (instant t < instant now + ttl * 1000000 \<and> (truthy ex \<longrightarrow> lower (the ex) = lower nm))"
proof -
  note c = created_claim [OF assms(5)]
  have e: "instant (cl_expires c) = instant now + ttl * 1000000" "utcoff (cl_expires c) = Some 0"
    using add_seconds_Inr [OF c(5)] by simp_all
  have "from_public_key (verify_key i)
      = Inr \<lparr>signing_key = None, verify_key = verify_key i, id_address = id_address i, id_name = None,
             id_scoped = None\<rparr>"
    using assms(2) by (simp add: from_public_key_def wf_identity_def)
  moreover have "open_ok nc (verify_key i)
      (cl_signature c @ claim_sign_message (lower nm) (id_address i) now (cl_expires c))"
    using identity_sign_opens [OF assms(1,2) c(8)] .
  ultimately show ?thesis using assms(6) e
    by (cases "instant now + ttl * 1000000 \<le> instant t")
      (auto simp: verify_claim_def claim_is_expired_def dt_ge_def c(1-4,6,7) identity_verify_def)
qed

lemma append_colon_inject:
  "CHR '':'' \<notin> set x \<Longrightarrow> CHR '':'' \<notin> set x' \<Longrightarrow> x @ '':'' @ y = x' @ '':'' @ y' \<Longrightarrow> x = x' \<and> y = y'"
  by (simp add: append_eq_append_conv2) (auto simp: append_eq_Cons_conv Cons_eq_append_conv)

lemma dashed_alnum_no_colon: "dashed_alnum s \<Longrightarrow> CHR '':'' \<notin> set s"
  by (auto dest!: dashed_alnum_chars simp: is_alnum_char_def is_dec_def cp_def)

lemma claim_sign_message_inject:
  assumes "claim_sign_message n a t e = claim_sign_message n' a' t' e'"
    and "dashed_alnum n" "dashed_alnum n'" "is_base32_address a" "is_base32_address a'"
    and "utc_ok t" "utc_ok e" "utc_ok t'" "utc_ok e'"
  shows "n = n' \<and> a = a' \<and> t = t' \<and> e = e'"
proof -
  have "n @ '':'' @ a @ '':'' @ isoformat t @ '':'' @ isoformat e
      = n' @ '':'' @ a' @ '':'' @ isoformat t' @ '':'' @ isoformat e'"
    using assms(1) unfolding claim_sign_message_def encode_utf8_inject by simp
  from append_colon_inject [OF dashed_alnum_no_colon dashed_alnum_no_colon this] assms(2,3)
  have "n = n'" and r: "a @ '':'' @ isoformat t @ '':'' @ isoformat e
      = a' @ '':'' @ isoformat t' @ '':'' @ isoformat e'" by blast+
  moreover have "length a = length a'" using assms(4,5) by (simp add: is_base32_address_def)
  ultimately have "a = a'" "('':'' @ isoformat t @ '':'') @ isoformat e = ('':'' @ isoformat t' @ '':'') @ isoformat e'"
    by simp_all
  with isoformat_suffix_inject [OF assms(7,9) this(2)]
  have "e = e'" "'':'' @ isoformat t = '':'' @ isoformat t'" by simp_all
  with isoformat_suffix_inject [OF assms(6,8) this(2)] \<open>n = n'\<close> \<open>a = a'\<close> show ?thesis by simp
qed

lemma claim_not_ad: "claim_sign_message n a t e \<noteq> ad_sign_message a' c t' e'"
  unfolding claim_sign_message_def ad_sign_message_def encode_utf8_inject by simp

section \<open>Properties\<close>

text \<open>
  The three kinds of URI do not overlap: a URI that \<^verbatim>\<open>is_global_name_address\<close> accepts parses to a
  valid name in lower case and is no WNS address, and a name that can be claimed never reads as an
  address.
\<close>

theorem global_uri_is_no_address:
  assumes "is_global_name_address uri"
  shows "\<exists>nm. parse_global_name uri = Some nm \<and> is_valid_global_name nm \<and> lower nm = nm
    \<and> parse_scoped_wns_address uri = None"
proof -
  let ?u = "strip_user (strip uri)"
  have core: "uri_core uri = pslice ?u 5 (- 4)" and v: "is_valid_global_name (uri_core uri)"
    and d: "CHR ''.'' \<notin> set (uri_core uri)"
    using assms uri_core_global [of uri] by (simp_all add: is_global_name_address_def Let_def split: if_splits)
  then have "parse_scoped_wns_address uri = None"
    using valid_name_not_address by (simp add: parse_scoped_core Let_def)
  then show ?thesis using v d by (simp add: parse_global_core valid_name_lower)
qed

theorem global_uri_is_no_address_witness:
  "\<exists>nm. parse_global_name ''wh://LapTop.wns'' = Some nm \<and> parse_scoped_wns_address ''wh://LapTop.wns'' = None"
proof -
  have "is_global_name_address ''wh://LapTop.wns''" by code_simp
  from global_uri_is_no_address [OF this] show ?thesis by blast
qed

text \<open>
  The address a claim prints resolves to the claimed name, whatever the case in which it was
  claimed and with any \<^verbatim>\<open>user@\<close> prefix; the name is in the form the claim store and the DHT key use.
\<close>

theorem claimed_name_parses:
  assumes "create_claim nc now i nm ttl = Inr c"
  shows "parse_global_name (claim_full_address c) = Some (cl_name c)
    \<and> parse_global_name (user @ ''@'' @ claim_full_address c) = Some (cl_name c)
    \<and> name_to_dht_key nm = name_to_dht_key (cl_name c)
    \<and> load_claim (save_claim c s) nm = map_sum id Some (claim_from_dict (claim_to_dict c))"
proof -
  have v: "is_valid_global_name (lower nm)" and n: "cl_name c = lower nm"
    using created_claim(1,6) [OF assms] by (simp_all add: valid_name_lower)
  show ?thesis
    using parse_global_printed [OF v]
    by (simp add: claim_full_address_def n name_to_dht_key_def load_claim_def save_claim_def del: append.simps)
qed

theorem claimed_name_parses_witness:
  "\<exists>c. create_claim toy_nacl toy_now toy_identity ''LapTop'' 60 = Inr c
    \<and> parse_global_name (claim_full_address c) = Some (cl_name c) \<and> cl_name c = ''laptop''"
proof -
  have "is_valid_global_name ''LapTop''" by code_simp
  moreover have "can_sign toy_identity" by (simp add: can_sign_def toy_identity_def)
  ultimately obtain c where c: "create_claim toy_nacl toy_now toy_identity ''LapTop'' 60 = Inr c"
    using create_claim_signs toy_later [of 60] by force
  moreover have "lower ''LapTop'' = ''laptop''" by code_simp
  ultimately show ?thesis using claimed_name_parses [OF c] created_claim(1) [OF c] by simp
qed

text \<open>
  The life of a claim: a valid name claimed by an identity with a private key gives a claim that
  verifies at a time exactly while it has not expired, for its name in any case; invalid names,
  public-only identities and lifetimes beyond the calendar are refused.
\<close>

theorem claim_lifetime:
  assumes "nacl_ok nc" "wf_identity nc i" "utc_ok now" "0 \<le> ttl"
  shows "case create_claim nc now i nm ttl of
      Inl e \<Rightarrow> e = ValueError
        \<and> (\<not> can_sign i \<or> \<not> is_valid_global_name nm \<or> end_of_calendar \<le> instant now + ttl * 1000000)
    | Inr c \<Rightarrow> \<forall>t ex. utcoff t \<noteq> None \<longrightarrow> verify_claim nc t c ex
        = Inr (instant t < instant now + ttl * 1000000 \<and> (truthy ex \<longrightarrow> lower (the ex) = lower nm))"
proof (cases "can_sign i \<and> is_valid_global_name nm")
  case True
  show ?thesis
  proof (cases "create_claim nc now i nm ttl")
    case (Inl e)
    then have "add_seconds now ttl = Inl e"
      using create_claim_signs [of i nm now ttl _ nc] True
      by (cases "add_seconds now ttl") (auto simp: create_claim_def)
    then have "e = ValueError" "\<not> instant now + ttl * 1000000 < end_of_calendar"
      using add_seconds_ok [OF assms(3,4)] by (auto simp: add_seconds_def Let_def split: if_splits)
    then show ?thesis using Inl by simp
  next
    case (Inr c)
    then show ?thesis using verify_created_claim [OF assms Inr] by simp
  qed
qed (auto simp: create_claim_def)

theorem claim_lifetime_witness:
  "\<exists>c. create_claim toy_nacl toy_now toy_identity ''LapTop'' 60 = Inr c
    \<and> verify_claim toy_nacl toy_now c (Some ''LAPTOP'') = Inr True
    \<and> verify_claim toy_nacl toy_now c (Some ''desk'') = Inr False"
proof -
  have "is_valid_global_name ''LapTop''" by code_simp
  moreover have "can_sign toy_identity" by (simp add: can_sign_def toy_identity_def)
  ultimately obtain c where c: "create_claim toy_nacl toy_now toy_identity ''LapTop'' 60 = Inr c"
    using create_claim_signs toy_later [of 60] by force
  moreover have "lower ''LAPTOP'' = lower ''LapTop''" "lower ''desk'' \<noteq> lower ''LapTop''"
    by code_simp+
  moreover have "utcoff toy_now \<noteq> None" by (simp add: toy_now_def)
  ultimately show ?thesis
    using claim_lifetime [OF toy_nacl_ok wf_toy_identity toy_now_ok, of 60 "''LapTop''"] by simp
qed

text \<open>
  The signed text of a claim determines name, address and times, and is never the text of a code
  advertisement: a signature of one kind cannot be replayed as the other.
\<close>

theorem claim_message_unambiguous:
  assumes "dashed_alnum n" "dashed_alnum n'" "is_base32_address a" "is_base32_address a'"
    and "utc_ok t" "utc_ok e" "utc_ok t'" "utc_ok e'"
  shows "(claim_sign_message n a t e = claim_sign_message n' a' t' e' \<longleftrightarrow> n = n' \<and> a = a' \<and> t = t' \<and> e = e')
    \<and> claim_sign_message n a t e \<noteq> ad_sign_message a' code t' e'"
  using claim_sign_message_inject [OF _ assms] claim_not_ad by blast

theorem claim_message_unambiguous_witness:
  "claim_sign_message ''a'' (derive_address []) toy_now toy_now
     \<noteq> claim_sign_message ''b'' (derive_address []) toy_now toy_now"
proof -
  have "dashed_alnum ''a''" "dashed_alnum ''b''" by code_simp+
  from claim_message_unambiguous [OF this derive_address_base32 derive_address_base32 toy_now_ok toy_now_ok
      toy_now_ok toy_now_ok]
  show ?thesis by simp
qed

end
