(* ===== verification/Mailbox.thy ===== *)
theory Mailbox
  imports Py_Json
begin

text \<open>
  The rendezvous server of \<^verbatim>\<open>src/wh/relay/mailbox.py\<close>. A WebSocket is a number; the fields of a
  request are arbitrary JSON values, as in the code, so sides, nameplates and mailboxes are keyed by
  JSON values and a list or an object raises when it is used as a key. A handler changes the state
  before its first \<^verbatim>\<open>await\<close>, so one request is one step. The random token a handler draws is an
  argument; the time stamps, which nothing reads, are left out.
\<close>

section \<open>JSON values as keys\<close>

fun jtruthy :: "jval \<Rightarrow> bool" where
  "jtruthy JNull = False"
| "jtruthy (JBool b) = b"
| "jtruthy (JInt i) = (i \<noteq> 0)"
| "jtruthy (JStr s) = (s \<noteq> [])"
| "jtruthy (JList xs) = (xs \<noteq> [])"
| "jtruthy (JObj kvs) = (kvs \<noteq> [])"

fun jhashable :: "jval \<Rightarrow> bool" where
  "jhashable (JList _) = False"
| "jhashable (JObj _) = False"
| "jhashable _ = True"

definition jget :: "jdict \<Rightarrow> string \<Rightarrow> jval" where
  "jget d k = (case dget d k of Some v \<Rightarrow> v | None \<Rightarrow> JNull)"

definition jget_or :: "jdict \<Rightarrow> string \<Rightarrow> jval \<Rightarrow> jval" where
  "jget_or d k dflt = (case dget d k of Some v \<Rightarrow> v | None \<Rightarrow> dflt)"

section \<open>State\<close>

type_synonym websocket = nat

record message =
  msg_id :: string
  msg_side :: jval
  msg_phase :: jval
  msg_body :: jval

record mailbox =
  mb_id :: jval
  mb_sides :: "jval list"
  mb_messages :: "message list"

record nameplate =
  np_id :: jval
  np_mailbox_id :: string
  np_sides :: "jval list"

record mailbox_server =
  ms_app_id :: string
  nameplates :: "(jval, nameplate) dict"
  mailboxes :: "(jval, mailbox) dict"
  clients :: "websocket list"
  subscriptions :: "(jval, websocket list) dict"
  next_nameplate :: nat

record client_state =
  st_side :: jval
  st_app_id :: jval
  st_nameplate :: jval
  st_mailbox :: jval

datatype reply =
    Welcome
  | Ack
  | Allocated string
  | Claimed string
  | Released
  | Message message
  | Closed
  | Nameplates "jval list"
  | Pong jval
  | ErrorReply string
  | UnknownType jval

type_synonym replies = "(websocket \<times> reply) list"
type_synonym handled = "mailbox_server \<times> client_state \<times> replies"

definition new_server :: "string \<Rightarrow> mailbox_server" where
  "new_server app_id =
     \<lparr>ms_app_id = app_id, nameplates = [], mailboxes = [], clients = [], subscriptions = [],
      next_nameplate = 1\<rparr>"

definition new_client :: client_state where
  "new_client = \<lparr>st_side = JNull, st_app_id = JNull, st_nameplate = JNull, st_mailbox = JNull\<rparr>"

definition new_mailbox :: "jval \<Rightarrow> mailbox" where
  "new_mailbox mid = \<lparr>mb_id = mid, mb_sides = [], mb_messages = []\<rparr>"

definition add_message :: "string \<Rightarrow> jval \<Rightarrow> jval \<Rightarrow> jval \<Rightarrow> mailbox \<Rightarrow> message \<times> mailbox" where
  "add_message rnd side phase body mb =
     (let m = \<lparr>msg_id = rnd, msg_side = side, msg_phase = phase, msg_body = body\<rparr>
      in (m, mb\<lparr>mb_messages := mb_messages mb @ [m]\<rparr>))"

definition get_messages :: "mailbox \<Rightarrow> jval \<Rightarrow> message list" where
  "get_messages mb exclude_side =
     (if jtruthy exclude_side then filter (\<lambda>m. msg_side m \<noteq> exclude_side) (mb_messages mb)
      else mb_messages mb)"

text \<open>An exception in a handler is caught and its text sent to the client.\<close>

abbreviation raised :: reply where
  "raised \<equiv> ErrorReply ''unhashable type''"

section \<open>Handlers\<close>

definition handle_bind ::
  "string \<Rightarrow> websocket \<Rightarrow> jdict \<Rightarrow> mailbox_server \<Rightarrow> client_state \<Rightarrow> handled" where
  "handle_bind rnd ws d s c =
     (s, c\<lparr>st_app_id := jget_or d ''appid'' (JStr (ms_app_id s)),
           st_side := jget_or d ''side'' (JStr rnd)\<rparr>, [(ws, Ack)])"

definition handle_allocate ::
  "string \<Rightarrow> websocket \<Rightarrow> mailbox_server \<Rightarrow> client_state \<Rightarrow> handled" where
  "handle_allocate rnd ws s c =
     (let np = show_nat (next_nameplate s);
          plate = \<lparr>np_id = JStr np, np_mailbox_id = rnd, np_sides = []\<rparr>
      in (s\<lparr>next_nameplate := next_nameplate s + 1,
            nameplates := dset (JStr np) plate (nameplates s),
            mailboxes := dset (JStr rnd) (new_mailbox (JStr rnd)) (mailboxes s)\<rparr>,
          c, [(ws, Allocated np)]))"

definition ensure_nameplate :: "string \<Rightarrow> jval \<Rightarrow> mailbox_server \<Rightarrow> mailbox_server" where
  "ensure_nameplate rnd np s =
     (if has_key (nameplates s) np then s
      else s\<lparr>nameplates := dset np \<lparr>np_id = np, np_mailbox_id = rnd, np_sides = []\<rparr> (nameplates s),
             mailboxes := dset (JStr rnd) (new_mailbox (JStr rnd)) (mailboxes s)\<rparr>)"

definition handle_claim ::
  "string \<Rightarrow> websocket \<Rightarrow> jdict \<Rightarrow> mailbox_server \<Rightarrow> client_state \<Rightarrow> handled" where
  "handle_claim rnd ws d s c =
     (let np = jget d ''nameplate''; side = st_side c
      in if \<not> jtruthy np then (s, c, [(ws, ErrorReply ''Missing nameplate'')])
         else if \<not> jhashable np then (s, c, [(ws, raised)])
         else
           (let s1 = ensure_nameplate rnd np s
            in case dget (nameplates s1) np of
                 None \<Rightarrow> (s1, c, [(ws, raised)])
               | Some plate \<Rightarrow>
                   if \<not> jhashable side then (s1, c, [(ws, raised)])
                   else
                     (s1\<lparr>nameplates := dset np (plate\<lparr>np_sides := sadd side (np_sides plate)\<rparr>) (nameplates s1)\<rparr>,
                      c\<lparr>st_nameplate := np\<rparr>, [(ws, Claimed (np_mailbox_id plate))])))"

definition release_nameplate :: "jval \<Rightarrow> jval \<Rightarrow> mailbox_server \<Rightarrow> mailbox_server" where
  "release_nameplate np side s =
     (case dget (nameplates s) np of
        None \<Rightarrow> s
      | Some plate \<Rightarrow>
          (let sides = (if jtruthy side then sdiscard side (np_sides plate) else np_sides plate)
           in if sides = [] then s\<lparr>nameplates := ddel np (nameplates s)\<rparr>
              else s\<lparr>nameplates := dset np (plate\<lparr>np_sides := sides\<rparr>) (nameplates s)\<rparr>))"

definition handle_release ::
  "websocket \<Rightarrow> jdict \<Rightarrow> mailbox_server \<Rightarrow> client_state \<Rightarrow> handled" where
  "handle_release ws d s c =
     (let np = (if jtruthy (jget d ''nameplate'') then jget d ''nameplate'' else st_nameplate c);
          side = st_side c
      in if jtruthy np \<and> \<not> jhashable np then (s, c, [(ws, raised)])
         else if jtruthy np \<and> has_key (nameplates s) np \<and> jtruthy side \<and> \<not> jhashable side
         then (s, c, [(ws, raised)])
         else ((if jtruthy np then release_nameplate np side s else s),
               c\<lparr>st_nameplate := JNull\<rparr>, [(ws, Released)]))"

definition ensure_mailbox :: "jval \<Rightarrow> mailbox_server \<Rightarrow> mailbox_server" where
  "ensure_mailbox mid s =
     (if has_key (mailboxes s) mid then s
      else s\<lparr>mailboxes := dset mid (new_mailbox mid) (mailboxes s)\<rparr>)"

definition subscribers_of :: "mailbox_server \<Rightarrow> jval \<Rightarrow> websocket list" where
  "subscribers_of s mid = (case dget (subscriptions s) mid of Some subs \<Rightarrow> subs | None \<Rightarrow> [])"

definition handle_open ::
  "websocket \<Rightarrow> jdict \<Rightarrow> mailbox_server \<Rightarrow> client_state \<Rightarrow> handled" where
  "handle_open ws d s c =
     (let mid = jget d ''mailbox''; side = st_side c
      in if \<not> jtruthy mid then (s, c, [(ws, ErrorReply ''Missing mailbox'')])
         else if \<not> jhashable mid then (s, c, [(ws, raised)])
         else
           (let s1 = ensure_mailbox mid s
            in case dget (mailboxes s1) mid of
                 None \<Rightarrow> (s1, c, [(ws, raised)])
               | Some mb \<Rightarrow>
                   if \<not> jhashable side then (s1, c, [(ws, raised)])
                   else
                     (s1\<lparr>mailboxes := dset mid (mb\<lparr>mb_sides := sadd side (mb_sides mb)\<rparr>) (mailboxes s1),
                         subscriptions := dset mid (sadd ws (subscribers_of s1 mid)) (subscriptions s1)\<rparr>,
                      c\<lparr>st_mailbox := mid\<rparr>,
                      map (\<lambda>m. (ws, Message m)) (get_messages mb JNull))))"

text \<open>
  \<^verbatim>\<open>add\<close>: \<^verbatim>\<open>alive\<close> tells which sockets a send reaches; the others are dropped from the subscribers.
\<close>

definition handle_add ::
  "(websocket \<Rightarrow> bool) \<Rightarrow> string \<Rightarrow> websocket \<Rightarrow> jdict \<Rightarrow> mailbox_server \<Rightarrow> client_state \<Rightarrow> handled" where
  "handle_add alive rnd ws d s c =
     (let mid = st_mailbox c
      in if \<not> jtruthy mid then (s, c, [(ws, ErrorReply ''No mailbox open'')])
         else
           (case dget (mailboxes s) mid of
              None \<Rightarrow> (s, c, [(ws, ErrorReply ''Mailbox not found'')])
            | Some mb \<Rightarrow>
                (case add_message rnd (st_side c) (jget d ''phase'') (jget d ''body'') mb of
                   (m, mb') \<Rightarrow>
                     (s\<lparr>mailboxes := dset mid mb' (mailboxes s),
                        subscriptions :=
                          (case dget (subscriptions s) mid of
                             None \<Rightarrow> subscriptions s
                           | Some subs \<Rightarrow> dset mid (filter alive subs) (subscriptions s))\<rparr>,
                      c, map (\<lambda>w. (w, Message m)) (filter alive (subscribers_of s mid))))))"

definition unsubscribe :: "websocket \<Rightarrow> jval \<Rightarrow> mailbox_server \<Rightarrow> mailbox_server" where
  "unsubscribe ws mid s =
     (case dget (subscriptions s) mid of
        None \<Rightarrow> s
      | Some subs \<Rightarrow> s\<lparr>subscriptions := dset mid (sdiscard ws subs) (subscriptions s)\<rparr>)"

definition leave_mailbox :: "jval \<Rightarrow> jval \<Rightarrow> mailbox_server \<Rightarrow> mailbox_server" where
  "leave_mailbox mid side s =
     (case dget (mailboxes s) mid of
        None \<Rightarrow> s
      | Some mb \<Rightarrow>
          (let sides = (if jtruthy side then sdiscard side (mb_sides mb) else mb_sides mb)
           in if sides = [] then s\<lparr>mailboxes := ddel mid (mailboxes s)\<rparr>
              else s\<lparr>mailboxes := dset mid (mb\<lparr>mb_sides := sides\<rparr>) (mailboxes s)\<rparr>))"

definition handle_close ::
  "websocket \<Rightarrow> mailbox_server \<Rightarrow> client_state \<Rightarrow> handled" where
  "handle_close ws s c =
     (let mid = st_mailbox c;
          s1 = (if jtruthy mid then unsubscribe ws mid s else s)
      in if jtruthy mid \<and> has_key (mailboxes s1) mid \<and> jtruthy (st_side c) \<and> \<not> jhashable (st_side c)
         then (s1, c, [(ws, raised)])
         else ((if jtruthy mid then leave_mailbox mid (st_side c) s1 else s1),
               c\<lparr>st_mailbox := JNull\<rparr>, [(ws, Closed)]))"

definition handle_list :: "websocket \<Rightarrow> mailbox_server \<Rightarrow> client_state \<Rightarrow> handled" where
  "handle_list ws s c =
     (s, c, [(ws, Nameplates (map np_id (filter (\<lambda>p. length (np_sides p) < 2) (dvalues (nameplates s)))))])"

definition handle_request ::
  "(websocket \<Rightarrow> bool) \<Rightarrow> string \<Rightarrow> websocket \<Rightarrow> jdict \<Rightarrow> mailbox_server \<Rightarrow> client_state \<Rightarrow> handled" where
  "handle_request alive rnd ws d s c =
     (let t = jget d ''type''
      in if t = JStr ''bind'' then handle_bind rnd ws d s c
         else if t = JStr ''allocate'' then handle_allocate rnd ws s c
         else if t = JStr ''claim'' then handle_claim rnd ws d s c
         else if t = JStr ''release'' then handle_release ws d s c
         else if t = JStr ''open'' then handle_open ws d s c
         else if t = JStr ''add'' then handle_add alive rnd ws d s c
         else if t = JStr ''close'' then handle_close ws s c
         else if t = JStr ''list'' then handle_list ws s c
         else if t = JStr ''ping'' then (s, c, [(ws, Pong (jget_or d ''ping'' (JInt 0)))])
         else (s, c, [(ws, UnknownType t)]))"

section \<open>The server with its connections\<close>

text \<open>
  The events of \<^verbatim>\<open>_handle_client\<close>: a socket connects, sends a JSON object (with the token a handler
  may draw) or text that is not JSON, or disconnects.
\<close>

datatype event =
    Connect websocket
  | Request websocket string jdict
  | BadJson websocket
  | Disconnect websocket

type_synonym mailbox_system = "mailbox_server \<times> (websocket, client_state) dict"

fun mstep :: "(websocket \<Rightarrow> bool) \<Rightarrow> event \<Rightarrow> mailbox_system \<Rightarrow> mailbox_system \<times> replies" where
  "mstep alive (Connect ws) (s, cs) =
     ((s\<lparr>clients := sadd ws (clients s)\<rparr>, dset ws new_client cs), [(ws, Welcome)])"
| "mstep alive (Request ws rnd d) (s, cs) =
     (case dget cs ws of
        None \<Rightarrow> ((s, cs), [])
      | Some c \<Rightarrow>
          (case handle_request alive rnd ws d s c of (s', c', out) \<Rightarrow> ((s', dset ws c' cs), out)))"
| "mstep alive (BadJson ws) (s, cs) =
     ((s, cs), if has_key cs ws then [(ws, ErrorReply ''Invalid JSON'')] else [])"
| "mstep alive (Disconnect ws) (s, cs) =
     (case dget cs ws of
        None \<Rightarrow> ((s, cs), [])
      | Some c \<Rightarrow>
          (let s1 = s\<lparr>clients := sdiscard ws (clients s)\<rparr>;
               s2 = (if jtruthy (st_mailbox c) then unsubscribe ws (st_mailbox c) s1 else s1)
           in ((s2, ddel ws cs), [])))"

fun mrun :: "(websocket \<Rightarrow> bool) \<Rightarrow> event list \<Rightarrow> mailbox_system \<Rightarrow> mailbox_system \<times> replies" where
  "mrun alive [] sys = (sys, [])"
| "mrun alive (e # es) sys =
     (case mstep alive e sys of
        (sys1, out1) \<Rightarrow> (case mrun alive es sys1 of (sys2, out2) \<Rightarrow> (sys2, out1 @ out2)))"

section \<open>What a subscriber sees\<close>

definition stored :: "mailbox_server \<Rightarrow> jval \<Rightarrow> message list option" where
  "stored s mid = map_option mb_messages (dget (mailboxes s) mid)"

text \<open>The mailbox messages a socket is sent, in order.\<close>

fun received :: "websocket \<Rightarrow> replies \<Rightarrow> message list" where
  "received ws [] = []"
| "received ws ((w, r) # rs) =
     (case r of Message m \<Rightarrow> if w = ws then m # received ws rs else received ws rs
      | _ \<Rightarrow> received ws rs)"

lemma received_append [simp]: "received ws (a @ b) = received ws a @ received ws b"
  by (induction ws a rule: received.induct) (auto split: reply.split)

lemma received_own [simp]: "received ws (map (\<lambda>m. (w, Message m)) ms) = (if w = ws then ms else [])"
  by (induction ms) auto

lemma received_broadcast:
  "distinct ws_list \<Longrightarrow> received ws (map (\<lambda>w. (w, Message m)) ws_list) = (if ws \<in> set ws_list then [m] else [])"
  by (induction ws_list) auto

text \<open>A socket subscribed to one mailbox and to no other, in a state with duplicate-free subscriber sets.\<close>

definition watching :: "websocket \<Rightarrow> jval \<Rightarrow> mailbox_server \<Rightarrow> bool" where
  "watching ws mid s \<longleftrightarrow>
     ws \<in> set (subscribers_of s mid) \<and> (\<forall>k. k \<noteq> mid \<longrightarrow> ws \<notin> set (subscribers_of s k))
     \<and> (\<forall>k. distinct (subscribers_of s k))"

text \<open>
  What one request of another socket does to a watched mailbox: the watcher stays subscribed, and the
  mailbox is deleted or has grown by exactly what the watcher was sent.
\<close>

definition follows :: "websocket \<Rightarrow> jval \<Rightarrow> mailbox_server \<Rightarrow> replies \<Rightarrow> mailbox_server \<Rightarrow> bool" where
  "follows ws mid s out s' \<longleftrightarrow>
     watching ws mid s' \<and> (stored s' mid = None \<or> stored s' mid = map_option (\<lambda>ms. ms @ received ws out) (stored s mid))"

lemma follows_same:
  "watching ws mid s \<Longrightarrow> subscriptions s' = subscriptions s \<Longrightarrow>
   stored s' mid = stored s mid \<or> stored s' mid = None \<Longrightarrow> received ws out = [] \<Longrightarrow> follows ws mid s out s'"
  by (cases "stored s mid") (auto simp: follows_def watching_def subscribers_of_def)

lemma stored_ensure_nameplate:
  "JStr rnd \<noteq> mid \<Longrightarrow> stored (ensure_nameplate rnd np s) mid = stored s mid"
  by (simp add: stored_def ensure_nameplate_def)

lemma subscriptions_ensure_nameplate [simp]:
  "subscriptions (ensure_nameplate rnd np s) = subscriptions s"
  by (simp add: ensure_nameplate_def)

lemma stored_ensure_mailbox:
  "stored s mid = Some ms \<Longrightarrow> stored (ensure_mailbox m s) mid = Some ms"
  by (auto simp: stored_def ensure_mailbox_def has_key_iff)

lemma subscriptions_ensure_mailbox [simp]: "subscriptions (ensure_mailbox m s) = subscriptions s"
  by (simp add: ensure_mailbox_def)

lemma stored_leave: "stored (leave_mailbox m side s) mid \<in> {None, stored s mid}"
  by (auto simp: stored_def leave_mailbox_def Let_def split: option.split)

lemma subscriptions_leave [simp]: "subscriptions (leave_mailbox m side s) = subscriptions s"
  by (simp add: leave_mailbox_def Let_def split: option.split)

lemma stored_unsubscribe [simp]: "stored (unsubscribe w m s) mid = stored s mid"
  by (simp add: stored_def unsubscribe_def split: option.split)

lemma subscribers_unsubscribe:
  "subscribers_of (unsubscribe w m s) k
     = (if k = m then sdiscard w (subscribers_of s m) else subscribers_of s k)"
  by (simp add: subscribers_of_def unsubscribe_def sdiscard_def split: option.split)

lemma watching_unsubscribe: "watching ws mid s \<Longrightarrow> w \<noteq> ws \<Longrightarrow> watching ws mid (unsubscribe w m s)"
  by (auto simp: watching_def subscribers_unsubscribe)

lemma follows_bind: "watching ws mid s \<Longrightarrow> handle_bind rnd w d s c = (s', c', out) \<Longrightarrow> follows ws mid s out s'"
  by (rule follows_same) (auto simp: handle_bind_def)

lemma follows_list: "watching ws mid s \<Longrightarrow> handle_list w s c = (s', c', out) \<Longrightarrow> follows ws mid s out s'"
  by (rule follows_same) (auto simp: handle_list_def)

lemma follows_allocate:
  "watching ws mid s \<Longrightarrow> JStr rnd \<noteq> mid \<Longrightarrow> handle_allocate rnd w s c = (s', c', out) \<Longrightarrow>
   follows ws mid s out s'"
  by (rule follows_same) (auto simp: handle_allocate_def Let_def stored_def)

lemma follows_claim:
  assumes "watching ws mid s" "JStr rnd \<noteq> mid" "handle_claim rnd w d s c = (s', c', out)"
  shows "follows ws mid s out s'"
proof (rule follows_same [OF assms(1)])
  show "subscriptions s' = subscriptions s"
    using assms(3) by (auto simp: handle_claim_def Let_def split: if_splits option.splits)
  have "stored s' mid = stored s mid \<or> stored s' mid = stored (ensure_nameplate rnd (jget d ''nameplate'') s) mid"
    using assms(3) by (auto simp: handle_claim_def Let_def stored_def split: if_splits option.splits)
  then show "stored s' mid = stored s mid \<or> stored s' mid = None"
    using stored_ensure_nameplate [OF assms(2)] by simp
  show "received ws out = []"
    using assms(3) by (auto simp: handle_claim_def Let_def split: if_splits option.splits)
qed

lemma release_nameplate_only:
  "subscriptions (release_nameplate np side s) = subscriptions s"
  "stored (release_nameplate np side s) mid = stored s mid"
  by (simp_all add: release_nameplate_def stored_def Let_def split: option.split)

lemma follows_release:
  "watching ws mid s \<Longrightarrow> handle_release w d s c = (s', c', out) \<Longrightarrow> follows ws mid s out s'"
  by (rule follows_same)
    (auto simp: handle_release_def Let_def release_nameplate_only split: if_splits)

lemma follows_open:
  assumes "watching ws mid s" "w \<noteq> ws" "stored s mid = Some ms" "handle_open w d s c = (s', c', out)"
  shows "follows ws mid s out s'"
proof -
  let ?m = "jget d ''mailbox''"
  let ?s1 = "ensure_mailbox ?m s"
  have st1: "stored ?s1 mid = Some ms" by (rule stored_ensure_mailbox [OF assms(3)])
  have out: "received ws out = []"
    using assms(2,4) by (auto simp: handle_open_def Let_def split: if_splits option.splits)
  have "subscriptions s' = subscriptions s
      \<or> subscriptions s' = dset ?m (sadd w (subscribers_of s ?m)) (subscriptions s)"
    using assms(4) by (auto simp: handle_open_def Let_def subscribers_of_def split: if_splits option.splits)
  then have "subscribers_of s' k = subscribers_of s k \<or> subscribers_of s' k = sadd w (subscribers_of s k)" for k
    by (auto simp: subscribers_of_def)
  then have "(ws \<in> set (subscribers_of s' k) \<longleftrightarrow> ws \<in> set (subscribers_of s k))
      \<and> (distinct (subscribers_of s k) \<longrightarrow> distinct (subscribers_of s' k))" for k
    using assms(2) by (metis distinct_sadd insert_iff set_sadd)
  then have "watching ws mid s'" using assms(1) by (simp add: watching_def)
  moreover have "stored s' mid = stored s mid \<or> stored s' mid = stored ?s1 mid"
    using assms(4) by (auto simp: handle_open_def Let_def stored_def split: if_splits option.splits)
  ultimately show ?thesis using assms(3) st1 out by (auto simp: follows_def)
qed

lemma follows_add:
  assumes "watching ws mid s" "alive ws" "handle_add alive rnd w d s c = (s', c', out)"
  shows "follows ws mid s out s'"
proof (cases "jtruthy (st_mailbox c) \<and> dget (mailboxes s) (st_mailbox c) \<noteq> None")
  case False
  then show ?thesis
    using assms(1,3) by (intro follows_same) (auto simp: handle_add_def Let_def split: if_splits option.splits)
next
  case True
  then obtain mb where mb: "jtruthy (st_mailbox c)" "dget (mailboxes s) (st_mailbox c) = Some mb" by blast
  let ?k = "st_mailbox c"
  obtain m mb' where am: "add_message rnd (st_side c) (jget d ''phase'') (jget d ''body'') mb = (m, mb')"
    "mb_messages mb' = mb_messages mb @ [m]"
    by (auto simp: add_message_def Let_def)
  have s': "mailboxes s' = dset ?k mb' (mailboxes s)" "out = map (\<lambda>w. (w, Message m)) (filter alive (subscribers_of s ?k))"
    and subs: "subscriptions s' = (case dget (subscriptions s) ?k of None \<Rightarrow> subscriptions s
      | Some subs \<Rightarrow> dset ?k (filter alive subs) (subscriptions s))"
    using assms(3) mb am by (auto simp: handle_add_def Let_def)
  have "subscribers_of s' k = (if k = ?k then filter alive (subscribers_of s k) else subscribers_of s k)" for k
    by (simp add: subscribers_of_def subs split: option.split)
  then have w: "watching ws mid s'" using assms(1,2) by (auto simp: watching_def)
  have "received ws out = (if ?k = mid then [m] else [])"
    using assms(1,2) by (simp add: s' received_broadcast watching_def)
  then show ?thesis using w mb am(2)
    by (cases "dget (mailboxes s) mid") (auto simp: follows_def stored_def s')
qed

lemma follows_close:
  assumes "watching ws mid s" "w \<noteq> ws" "handle_close w s c = (s', c', out)"
  shows "follows ws mid s out s'"
proof -
  let ?s1 = "if jtruthy (st_mailbox c) then unsubscribe w (st_mailbox c) s else s"
  have "watching ws mid ?s1" using watching_unsubscribe [OF assms(1,2)] assms(1) by simp
  moreover have "subscriptions s' = subscriptions ?s1" "stored s' mid \<in> {None, stored ?s1 mid}"
    using assms(3) stored_leave [of "st_mailbox c" "st_side c" ?s1 mid]
    by (auto simp: handle_close_def Let_def split: if_splits)
  moreover have "received ws out = []"
    using assms(3) by (auto simp: handle_close_def Let_def split: if_splits)
  moreover have "stored ?s1 mid = stored s mid" by simp
  ultimately show ?thesis
    by (cases "stored s mid") (auto simp: follows_def watching_def subscribers_of_def)
qed

lemma follows_request:
  assumes "watching ws mid s" "alive ws" "w \<noteq> ws" "JStr rnd \<noteq> mid" "stored s mid = Some ms"
    and "handle_request alive rnd w d s c = (s', c', out)"
  shows "follows ws mid s out s'"
proof -
  have "follows ws mid s [(w, r)] s" if "\<And>m. r \<noteq> Message m" for r
    by (rule follows_same [OF assms(1)]) (use that in \<open>auto split: reply.split\<close>)
  then show ?thesis
    using assms(6) follows_bind [OF assms(1)] follows_list [OF assms(1)] follows_allocate [OF assms(1,4)]
      follows_claim [OF assms(1,4)] follows_release [OF assms(1)] follows_open [OF assms(1,3,5)]
      follows_add [where alive = alive, OF assms(1,2)] follows_close [OF assms(1,3)]
    by (auto simp: handle_request_def Let_def split: if_splits)
qed

section \<open>Runs\<close>

fun event_socket :: "event \<Rightarrow> websocket" where
  "event_socket (Connect w) = w"
| "event_socket (Request w _ _) = w"
| "event_socket (BadJson w) = w"
| "event_socket (Disconnect w) = w"

fun event_token :: "event \<Rightarrow> jval" where
  "event_token (Request _ rnd _) = JStr rnd"
| "event_token _ = JNull"

text \<open>
  A run of other sockets during which the mailbox is never deleted and no fresh token equals its
  identifier.
\<close>

fun undisturbed ::
  "(websocket \<Rightarrow> bool) \<Rightarrow> websocket \<Rightarrow> jval \<Rightarrow> event list \<Rightarrow> mailbox_system \<Rightarrow> bool" where
  "undisturbed alive ws mid [] sys = True"
| "undisturbed alive ws mid (e # es) sys =
     (event_socket e \<noteq> ws \<and> event_token e \<noteq> mid
      \<and> has_key (mailboxes (fst (fst (mstep alive e sys)))) mid
      \<and> undisturbed alive ws mid es (fst (mstep alive e sys)))"

lemma follows_mstep:
  assumes "watching ws mid (fst sys)" "alive ws" "event_socket e \<noteq> ws" "event_token e \<noteq> mid"
    and "stored (fst sys) mid = Some ms"
  shows "follows ws mid (fst sys) (snd (mstep alive e sys)) (fst (fst (mstep alive e sys)))"
proof -
  obtain s cs where sys: "sys = (s, cs)" by (cases sys)
  show ?thesis
  proof (cases e)
    case (Connect w)
    then show ?thesis using assms(1) sys by (auto simp: stored_def intro!: follows_same)
  next
    case (Request w rnd d)
    show ?thesis
    proof (cases "dget cs w")
      case None
      then show ?thesis using Request assms(1) sys by (auto intro!: follows_same)
    next
      case (Some c)
      obtain s' c' out where "handle_request alive rnd w d s c = (s', c', out)" by (rule prod_cases3)
      then show ?thesis
        using Some Request sys follows_request [of ws mid s alive w rnd ms d c s' c' out] assms by simp
    qed
  next
    case (BadJson w)
    then show ?thesis using assms(1) sys by (auto intro!: follows_same)
  next
    case (Disconnect w)
    show ?thesis
    proof (cases "dget cs w")
      case None
      then show ?thesis using Disconnect assms(1) sys by (auto intro!: follows_same)
    next
      case (Some c)
      let ?s1 = "s\<lparr>clients := sdiscard w (clients s)\<rparr>"
      have w1: "watching ws mid ?s1" using assms(1) sys by (simp add: watching_def subscribers_of_def)
      then have "watching ws mid (unsubscribe w (st_mailbox c) ?s1)"
        using watching_unsubscribe assms(3) Disconnect by simp
      moreover have "stored ?s1 mid = stored s mid" by (simp add: stored_def)
      ultimately show ?thesis using Some Disconnect sys w1 assms(5)
        by (simp add: follows_def Let_def)
    qed
  qed
qed

lemma undisturbed_run:
  assumes "watching ws mid (fst sys)" "alive ws" "stored (fst sys) mid = Some ms"
    and "undisturbed alive ws mid es sys"
  shows "watching ws mid (fst (fst (mrun alive es sys)))
    \<and> stored (fst (fst (mrun alive es sys))) mid = Some (ms @ received ws (snd (mrun alive es sys)))"
  using assms
proof (induction es arbitrary: sys ms)
  case (Cons e es)
  obtain sys1 out1 where st: "mstep alive e sys = (sys1, out1)" by (cases "mstep alive e sys")
  obtain sys2 out2 where ru: "mrun alive es sys1 = (sys2, out2)" by (cases "mrun alive es sys1")
  have "follows ws mid (fst sys) out1 (fst sys1)"
    using follows_mstep [of ws mid sys alive e ms] Cons.prems st by simp
  moreover have "stored (fst sys1) mid \<noteq> None"
    using Cons.prems(4) st by (simp add: stored_def has_key_iff)
  ultimately have "watching ws mid (fst sys1)" "stored (fst sys1) mid = Some (ms @ received ws out1)"
    using Cons.prems(3) by (auto simp: follows_def)
  from Cons.IH [OF this(1) Cons.prems(2) this(2)] Cons.prems(4) st ru show ?case by simp
qed simp

text \<open>After opening a mailbox, a socket watches it and has been sent what it holds.\<close>

lemma handle_open_watches:
  assumes "jtruthy (jget d ''mailbox'')" "jhashable (jget d ''mailbox'')" "jhashable (st_side c)"
    and "\<forall>k. ws \<notin> set (subscribers_of s k)" "\<forall>k. distinct (subscribers_of s k)"
    and "handle_open ws d s c = (s', c', out)"
  shows "watching ws (jget d ''mailbox'') s' \<and> stored s' (jget d ''mailbox'') = Some (received ws out)"
proof -
  let ?m = "jget d ''mailbox''"
  let ?s1 = "ensure_mailbox ?m s"
  obtain mb where mb: "dget (mailboxes ?s1) ?m = Some mb"
    by (cases "dget (mailboxes s) ?m") (simp_all add: ensure_mailbox_def has_key_iff)
  have s': "s' = ?s1\<lparr>mailboxes := dset ?m (mb\<lparr>mb_sides := sadd (st_side c) (mb_sides mb)\<rparr>) (mailboxes ?s1),
      subscriptions := dset ?m (sadd ws (subscribers_of ?s1 ?m)) (subscriptions ?s1)\<rparr>"
    and out: "out = map (\<lambda>m. (ws, Message m)) (get_messages mb JNull)"
    using assms mb by (auto simp: handle_open_def Let_def)
  have "subscribers_of s' k = (if k = ?m then sadd ws (subscribers_of s k) else subscribers_of s k)" for k
    by (simp add: s' subscribers_of_def)
  then have "watching ws ?m s'" using assms(4,5) by (auto simp: watching_def)
  moreover have "stored s' ?m = Some (received ws out)" by (simp add: s' out stored_def get_messages_def)
  ultimately show ?thesis by simp
qed

section \<open>Nameplates\<close>

lemma claim_existing:
  assumes "dget (nameplates s) np = Some plate" "jget d ''nameplate'' = np" "jtruthy np" "jhashable np"
    and "jhashable (st_side c)"
  shows "handle_claim rnd ws d s c
    = (s\<lparr>nameplates := dset np (plate\<lparr>np_sides := sadd (st_side c) (np_sides plate)\<rparr>) (nameplates s)\<rparr>,
       c\<lparr>st_nameplate := np\<rparr>, [(ws, Claimed (np_mailbox_id plate))])"
  using assms by (simp add: handle_claim_def Let_def ensure_nameplate_def has_key_iff)

text \<open>No request but \<^verbatim>\<open>allocate\<close> changes the mailbox a nameplate points to.\<close>

definition points_to :: "mailbox_server \<Rightarrow> jval \<Rightarrow> string option" where
  "points_to s np = map_option np_mailbox_id (dget (nameplates s) np)"

lemma points_to_ensure:
  "points_to s np = Some m \<Longrightarrow> points_to (ensure_nameplate rnd x s) np = Some m"
  by (auto simp: points_to_def ensure_nameplate_def has_key_iff)

lemma points_to_claim:
  assumes "points_to s np = Some m" "handle_claim rnd w d s c = (s', c', out)"
  shows "points_to s' np = Some m"
proof -
  let ?s1 = "ensure_nameplate rnd (jget d ''nameplate'') s"
  have "s' = s \<or> s' = ?s1 \<or> (\<exists>plate sides. dget (nameplates ?s1) (jget d ''nameplate'') = Some plate
      \<and> s' = ?s1\<lparr>nameplates := dset (jget d ''nameplate'') (plate\<lparr>np_sides := sides\<rparr>) (nameplates ?s1)\<rparr>)"
    using assms(2) by (auto simp: handle_claim_def Let_def split: if_splits option.splits)
  moreover have "points_to ?s1 np = Some m" by (rule points_to_ensure [OF assms(1)])
  ultimately show ?thesis using assms(1) by (auto simp: points_to_def)
qed

lemma points_to_release:
  assumes "points_to s np = Some m" "handle_release w d s c = (s', c', out)"
  shows "points_to s' np \<in> {None, Some m}"
proof -
  have "points_to (release_nameplate x side s) np \<in> {None, Some m}" for x side
    using assms(1) by (auto simp: points_to_def release_nameplate_def Let_def split: option.split)
  then show ?thesis using assms by (auto simp: handle_release_def Let_def split: if_splits)
qed

lemma nameplates_mailbox_ops [simp]:
  "nameplates (unsubscribe w x t) = nameplates t" "nameplates (leave_mailbox x y t) = nameplates t"
  "nameplates (ensure_mailbox x t) = nameplates t"
  by (simp_all add: unsubscribe_def leave_mailbox_def ensure_mailbox_def Let_def split: option.split)

lemma nameplates_open: "handle_open w d s c = (s', c', out) \<Longrightarrow> nameplates s' = nameplates s"
  by (auto simp: handle_open_def Let_def split: if_splits option.splits)

lemma nameplates_add: "handle_add alive rnd w d s c = (s', c', out) \<Longrightarrow> nameplates s' = nameplates s"
  by (auto simp: handle_add_def Let_def split: if_splits option.splits prod.splits)

lemma nameplates_close: "handle_close w s c = (s', c', out) \<Longrightarrow> nameplates s' = nameplates s"
  by (auto simp: handle_close_def Let_def split: if_splits)

lemma points_to_request:
  assumes "points_to s np = Some m" "jget d ''type'' \<noteq> JStr ''allocate''"
    and "handle_request alive rnd w d s c = (s', c', out)"
  shows "points_to s' np = Some m \<or> points_to s' np = None"
proof -
  have same: "points_to s' np = Some m" if "nameplates s' = nameplates s"
    using that assms(1) by (simp add: points_to_def)
  consider "handle_claim rnd w d s c = (s', c', out)" | "handle_release w d s c = (s', c', out)"
    | "nameplates s' = nameplates s"
    using assms(2,3) nameplates_open nameplates_add nameplates_close
    by (auto simp: handle_request_def handle_bind_def handle_list_def Let_def split: if_splits)
  then show ?thesis
  proof cases
    case 1
    then show ?thesis using points_to_claim [OF assms(1)] by blast
  next
    case 2
    then have "points_to s' np \<in> {None, Some m}" by (rule points_to_release [OF assms(1)])
    then show ?thesis by auto
  qed (use same in blast)
qed

section \<open>Properties\<close>

text \<open>
  C18. Complete, ordered, exactly-once delivery: a socket that opens its first mailbox and stays
  connected is sent, over the replay at the opening and any later run of the other sockets in which
  the mailbox is not deleted, exactly the messages the mailbox holds, in their order.
\<close>

theorem mailbox_delivery:
  assumes "dget cs ws = Some c" "jget d ''type'' = JStr ''open''" "alive ws"
    and "jtruthy (jget d ''mailbox'')" "jhashable (jget d ''mailbox'')" "jhashable (st_side c)"
    and "\<forall>k. ws \<notin> set (subscribers_of s k)" "\<forall>k. distinct (subscribers_of s k)"
    and "mrun alive (Request ws rnd d # es) (s, cs) = ((s', cs'), out)"
    and "undisturbed alive ws (jget d ''mailbox'') es (fst (mstep alive (Request ws rnd d) (s, cs)))"
  shows "stored s' (jget d ''mailbox'') = Some (received ws out)"
proof -
  obtain s1 c1 out1 where o: "handle_open ws d s c = (s1, c1, out1)" by (rule prod_cases3)
  then have st: "mstep alive (Request ws rnd d) (s, cs) = ((s1, dset ws c1 cs), out1)"
    using assms(1,2) by (simp add: handle_request_def)
  obtain sys2 out2 where ru: "mrun alive es (s1, dset ws c1 cs) = (sys2, out2)" by (rule prod.exhaust)
  have w: "watching ws (jget d ''mailbox'') s1" "stored s1 (jget d ''mailbox'') = Some (received ws out1)"
    using handle_open_watches [OF assms(4-8) o] by blast+
  have "fst sys2 = s'" "out = out1 @ out2" using assms(9) st ru by auto
  then show ?thesis
    using undisturbed_run [of ws "jget d ''mailbox''" "(s1, dset ws c1 cs)" alive _ es] w assms(3,10) st ru
    by simp
qed

definition ex_claimed :: mailbox_server where
  "ex_claimed = (new_server ''app'')\<lparr>mailboxes :=
     [(JStr ''mb'', \<lparr>mb_id = JStr ''mb'', mb_sides = [JStr ''a''],
        mb_messages = [\<lparr>msg_id = ''x'', msg_side = JStr ''a'', msg_phase = JStr ''pake'', msg_body = JStr ''1''\<rparr>]\<rparr>)]\<rparr>"

definition ex_clients :: "(websocket, client_state) dict" where
  "ex_clients = [(1, new_client\<lparr>st_side := JStr ''a'', st_mailbox := JStr ''mb''\<rparr>),
     (2, new_client\<lparr>st_side := JStr ''b''\<rparr>)]"

theorem mailbox_delivery_witness:
  "\<exists>s' cs' out. mrun (\<lambda>_. True)
       [Request 2 ''r1'' [(''type'', JStr ''open''), (''mailbox'', JStr ''mb'')],
        Request 1 ''r2'' [(''type'', JStr ''add''), (''phase'', JStr ''0''), (''body'', JStr ''hi'')]]
       (ex_claimed, ex_clients) = ((s', cs'), out)
     \<and> stored s' (JStr ''mb'') = Some (received 2 out) \<and> length (received 2 out) = 2"
proof -
  let ?d = "[(''type'', JStr ''open''), (''mailbox'', JStr ''mb'')]"
  let ?es = "[Request 1 ''r2'' [(''type'', JStr ''add''), (''phase'', JStr ''0''), (''body'', JStr ''hi'')]]"
  let ?al = "\<lambda>_ :: websocket. True"
  obtain s' cs' out where r: "mrun ?al (Request 2 ''r1'' ?d # ?es) (ex_claimed, ex_clients) = ((s', cs'), out)"
    by (metis surj_pair)
  have "undisturbed ?al 2 (jget ?d ''mailbox'') ?es
      (fst (mstep ?al (Request 2 ''r1'' ?d) (ex_claimed, ex_clients)))"
    by code_simp
  then have "stored s' (JStr ''mb'') = Some (received 2 out)"
    using mailbox_delivery [of ex_clients 2 "new_client\<lparr>st_side := JStr ''b''\<rparr>" ?d ?al ex_claimed "''r1''" ?es
        s' cs' out] r
    by (simp add: ex_clients_def jget_def subscribers_of_def ex_claimed_def new_server_def new_client_def)
  moreover have "length (received 2 (snd (mrun ?al (Request 2 ''r1'' ?d # ?es) (ex_claimed, ex_clients)))) = 2"
    by code_simp
  ultimately show ?thesis using r by auto
qed

text \<open>
  Two sides that claim one nameplate meet: as long as no request is \<^verbatim>\<open>allocate\<close>, a nameplate
  keeps its mailbox until it is released by its last side, and every later claim of it, by any socket,
  is answered with that mailbox.
\<close>

theorem claims_agree:
  assumes "points_to s np = Some m" "jget d ''type'' \<noteq> JStr ''allocate''"
    and "handle_request alive rnd w d s c = (s', c', out)" "points_to s' np \<noteq> None"
    and "jtruthy np" "jhashable np" "jhashable (st_side c2)" "jget d2 ''nameplate'' = np"
  shows "snd (snd (handle_claim rnd2 w2 d2 s' c2)) = [(w2, Claimed m)]"
proof -
  have "points_to s' np = Some m" using points_to_request [OF assms(1-3)] assms(4) by blast
  then obtain plate where "dget (nameplates s') np = Some plate" "np_mailbox_id plate = m"
    by (auto simp: points_to_def)
  then show ?thesis using claim_existing [of s' np plate d2 c2 rnd2 w2] assms(5-8) by simp
qed

theorem claims_agree_witness:
  "snd (snd (handle_claim ''t2'' 2 [(''nameplate'', JStr ''7'')]
      (fst (handle_request (\<lambda>_. True) ''t1'' 1 [(''type'', JStr ''list'')]
         (fst (handle_claim ''t0'' 1 [(''nameplate'', JStr ''7'')] (new_server ''app'') new_client)) new_client))
      new_client)) = [(2, Claimed ''t0'')]"
proof -
  let ?s = "fst (handle_claim ''t0'' 1 [(''nameplate'', JStr ''7'')] (new_server ''app'') new_client)"
  have p: "points_to ?s (JStr ''7'') = Some ''t0''" by code_simp
  have r: "handle_request (\<lambda>_. True) ''t1'' 1 [(''type'', JStr ''list'')] ?s new_client
      = (?s, new_client, snd (snd (handle_list 1 ?s new_client)))"
    by (simp add: handle_request_def jget_def handle_list_def)
  show ?thesis unfolding r fst_conv
    by (rule claims_agree [OF p _ r]) (use p in \<open>simp_all add: jget_def new_client_def\<close>)
qed

text \<open>
  The exception: \<^verbatim>\<open>allocate\<close> hands out its counter without looking at the nameplates already
  claimed under that number, so a claimed nameplate is redirected to a new mailbox, and a client
  without a side leaves a nameplate that no release ever removes.
\<close>

theorem allocate_redirects_claim:
  assumes "jget d ''nameplate'' = JStr (show_nat (next_nameplate s))" "jhashable (st_side c)"
  shows "\<exists>m. snd (snd (handle_claim rnd w d s c)) = [(w, Claimed m)]
    \<and> points_to (fst (handle_allocate rnd2 w2 (fst (handle_claim rnd w d s c)) c2))
        (JStr (show_nat (next_nameplate s))) = Some rnd2
    \<and> (st_side c = JNull \<longrightarrow> has_key (nameplates (fst (handle_release w d (fst (handle_claim rnd w d s c)) c)))
         (JStr (show_nat (next_nameplate s))))"
proof -
  let ?np = "JStr (show_nat (next_nameplate s))"
  let ?s1 = "ensure_nameplate rnd ?np s"
  obtain plate where pl: "dget (nameplates ?s1) ?np = Some plate"
    by (cases "dget (nameplates s) ?np") (simp_all add: ensure_nameplate_def has_key_iff)
  let ?s2 = "?s1\<lparr>nameplates := dset ?np (plate\<lparr>np_sides := sadd (st_side c) (np_sides plate)\<rparr>) (nameplates ?s1)\<rparr>"
  have cl: "handle_claim rnd w d s c = (?s2, c\<lparr>st_nameplate := ?np\<rparr>, [(w, Claimed (np_mailbox_id plate))])"
    using assms pl by (simp add: handle_claim_def Let_def)
  have nn: "next_nameplate ?s1 = next_nameplate s" by (simp add: ensure_nameplate_def)
  have "points_to (fst (handle_allocate rnd2 w2 ?s2 c2)) ?np = Some rnd2"
    by (simp add: handle_allocate_def Let_def points_to_def nn)
  moreover have "has_key (nameplates (fst (handle_release w d ?s2 c))) ?np" if "st_side c = JNull"
  proof -
    have "sadd (st_side c) (np_sides plate) \<noteq> []" by (metis list.set(1) insert_not_empty set_sadd)
    then show ?thesis
      using that assms(1) by (simp add: handle_release_def Let_def release_nameplate_def has_key_iff)
  qed
  ultimately show ?thesis unfolding cl by simp
qed

theorem allocate_redirects_claim_witness:
  "points_to (fst (handle_allocate ''new'' 2
      (fst (handle_claim ''old'' 1 [(''nameplate'', JStr ''1'')] (new_server ''app'') new_client)) new_client))
    (JStr ''1'') = Some ''new''"
proof -
  have n: "show_nat (next_nameplate (new_server ''app'')) = ''1''" by code_simp
  then have "jget [(''nameplate'', JStr ''1'')] ''nameplate'' = JStr (show_nat (next_nameplate (new_server ''app'')))"
    by (simp add: jget_def)
  from allocate_redirects_claim [OF this, of new_client "''old''" 1 "''new''" 2 new_client] show ?thesis
    by (simp add: n new_client_def)
qed

end
