(* ===== verification/Transit.thy ===== *)
theory Transit
  imports Py_Bytes
begin

text \<open>
  The transit relay of \<^verbatim>\<open>src/wh/relay/transit.py\<close> as a transition system. Every connection has a
  handler task in one of four phases; a transition is what one task does between two suspensions (or
  under the lock). Times are in milliseconds. Closing a writer closes the connection in both
  directions: its reader is then at its end and data written to it is lost.
\<close>

section \<open>State\<close>

type_synonym conn = nat

datatype phase =
    Handshake
  | Waiting string int
  | Relaying string conn
  | Finished

record pending_connection =
  pc_conn :: conn
  pc_timestamp :: int

record transit =
  tr_pending :: "(string, pending_connection) dict"
  tr_phase :: "(conn, phase) dict"
  tr_sent :: "(conn \<times> bytes) list"
  tr_closed :: "conn list"
  tr_connections :: nat
  tr_bytes_relayed :: nat
  tr_pairs_matched :: nat
  tr_running :: bool
  tr_timeout :: int

definition new_transit :: "int \<Rightarrow> transit" where
  "new_transit timeout =
     \<lparr>tr_pending = [], tr_phase = [], tr_sent = [], tr_closed = [], tr_connections = 0,
      tr_bytes_relayed = 0, tr_pairs_matched = 0, tr_running = True, tr_timeout = timeout\<rparr>"

definition write_to :: "conn \<Rightarrow> bytes \<Rightarrow> transit \<Rightarrow> transit" where
  "write_to c data s = (if c \<in> set (tr_closed s) then s else s\<lparr>tr_sent := tr_sent s @ [(c, data)]\<rparr>)"

definition close_conn :: "conn \<Rightarrow> transit \<Rightarrow> transit" where
  "close_conn c s = s\<lparr>tr_closed := sadd c (tr_closed s)\<rparr>"

definition set_phase :: "conn \<Rightarrow> phase \<Rightarrow> transit \<Rightarrow> transit" where
  "set_phase c p s = s\<lparr>tr_phase := dset c p (tr_phase s)\<rparr>"

text \<open>The end of \<^verbatim>\<open>_handle_client\<close>: its \<^verbatim>\<open>finally\<close> closes the handler's own writer.\<close>

definition finish :: "conn \<Rightarrow> transit \<Rightarrow> transit" where
  "finish c s = close_conn c (set_phase c Finished s)"

section \<open>Operations\<close>

definition accept :: "conn \<Rightarrow> transit \<Rightarrow> transit" where
  "accept c s = set_phase c Handshake (s\<lparr>tr_connections := tr_connections s + 1\<rparr>)"

text \<open>
  The part of \<^verbatim>\<open>_find_or_wait_peer\<close> under the lock. Both calls of \<^verbatim>\<open>drain\<close> are taken to return: a connection that
  is reset between the \<^verbatim>\<open>pop\<close> and the end of the lock is outside of the model.
\<close>

definition find_or_wait_peer :: "string \<Rightarrow> conn \<Rightarrow> int \<Rightarrow> transit \<Rightarrow> transit" where
  "find_or_wait_peer token c now s =
     (case dget (tr_pending s) token of
        Some peer \<Rightarrow>
          set_phase c (Relaying token (pc_conn peer))
            (write_to (pc_conn peer) (lit ''ok'' @ [10])
              (write_to c (lit ''ok'' @ [10])
                (s\<lparr>tr_pending := ddel token (tr_pending s), tr_pairs_matched := tr_pairs_matched s + 1\<rparr>)))
      | None \<Rightarrow>
          set_phase c (Waiting token now)
            (s\<lparr>tr_pending := dset token \<lparr>pc_conn = c, pc_timestamp = now\<rparr> (tr_pending s)\<rparr>))"

datatype handshake = NoLine | BadHandshake | BadToken | Token string

definition parse_handshake :: "bytes \<Rightarrow> handshake option" where
  "parse_handshake line =
     (if line = [] then Some NoLine
      else
        (case decode_utf8 line of
           None \<Rightarrow> None
         | Some text \<Rightarrow>
             (let handshake = strip text
              in if \<not> startswith handshake ''please relay '' then Some BadHandshake
                 else if drop 13 handshake = [] then Some BadToken
                 else Some (Token (drop 13 handshake)))))"

definition read_handshake :: "conn \<Rightarrow> bytes \<Rightarrow> int \<Rightarrow> transit \<Rightarrow> transit" where
  "read_handshake c line now s =
     (case parse_handshake line of
        None \<Rightarrow> finish c s
      | Some NoLine \<Rightarrow> finish c s
      | Some BadHandshake \<Rightarrow> finish c (write_to c (lit ''bad handshake'' @ [10]) s)
      | Some BadToken \<Rightarrow> finish c (write_to c (lit ''bad token'' @ [10]) s)
      | Some (Token token) \<Rightarrow> find_or_wait_peer token c now s)"

text \<open>One turn of the waiting loop, after its sleep.\<close>

definition poll :: "conn \<Rightarrow> string \<Rightarrow> int \<Rightarrow> int \<Rightarrow> transit \<Rightarrow> transit" where
  "poll c token start now s =
     (if \<not> tr_running s then finish c s
      else if \<not> has_key (tr_pending s) token then finish c s
      else if now - start > tr_timeout s then
        finish c (write_to c (lit ''timeout'' @ [10]) (s\<lparr>tr_pending := ddel token (tr_pending s)\<rparr>))
      else s)"

text \<open>
  One turn of \<^verbatim>\<open>relay\<close> from \<^verbatim>\<open>src\<close> to \<^verbatim>\<open>dst\<close>: at the end of the source it closes the destination.
  The handler ends when both directions have ended, which closing either side brings about.
\<close>

definition relay_turn :: "conn \<Rightarrow> conn \<Rightarrow> bytes \<Rightarrow> transit \<Rightarrow> transit" where
  "relay_turn src dst data s =
     (if data = [] \<or> src \<in> set (tr_closed s) then close_conn dst s
      else if dst \<in> set (tr_closed s) then s
      else (write_to dst data s)\<lparr>tr_bytes_relayed := tr_bytes_relayed s + length data\<rparr>)"

definition stale_tokens :: "int \<Rightarrow> transit \<Rightarrow> string list" where
  "stale_tokens now s =
     map fst (filter (\<lambda>(t, p). now - pc_timestamp p > tr_timeout s) (tr_pending s))"

definition drop_stale :: "string \<Rightarrow> transit \<Rightarrow> transit" where
  "drop_stale token s =
     (case dget (tr_pending s) token of
        None \<Rightarrow> s
      | Some p \<Rightarrow>
          close_conn (pc_conn p)
            (write_to (pc_conn p) (lit ''timeout'' @ [10])
              (s\<lparr>tr_pending := ddel token (tr_pending s)\<rparr>)))"

definition cleanup :: "int \<Rightarrow> transit \<Rightarrow> transit" where
  "cleanup now s = fold drop_stale (stale_tokens now s) s"

definition stop_relay :: "transit \<Rightarrow> transit" where
  "stop_relay s =
     (fold (\<lambda>p. close_conn (pc_conn p)) (dvalues (tr_pending s)) (s\<lparr>tr_running := False\<rparr>))\<lparr>tr_pending := []\<rparr>"

section \<open>The transition system\<close>

inductive tstep :: "transit \<Rightarrow> transit \<Rightarrow> bool" where
  accept: "\<not> has_key (tr_phase s) c \<Longrightarrow> tstep s (accept c s)"
| handshake: "dget (tr_phase s) c = Some Handshake \<Longrightarrow> tstep s (read_handshake c line now s)"
| no_handshake: "dget (tr_phase s) c = Some Handshake \<Longrightarrow> tstep s (finish c s)"
| poll: "dget (tr_phase s) c = Some (Waiting token start) \<Longrightarrow> tstep s (poll c token start now s)"
| forward: "dget (tr_phase s) c = Some (Relaying token p) \<Longrightarrow> tstep s (relay_turn c p data s)"
| backward: "dget (tr_phase s) c = Some (Relaying token p) \<Longrightarrow> tstep s (relay_turn p c data s)"
| relayed: "dget (tr_phase s) c = Some (Relaying token p) \<Longrightarrow> p \<in> set (tr_closed s) \<Longrightarrow>
    c \<in> set (tr_closed s) \<Longrightarrow> tstep s (finish c s)"
| cleanup: "tstep s (cleanup now s)"
| stop: "tstep s (stop_relay s)"

inductive treach :: "int \<Rightarrow> transit \<Rightarrow> bool" for timeout where
  start: "treach timeout (new_transit timeout)"
| step: "treach timeout s \<Longrightarrow> tstep s s' \<Longrightarrow> treach timeout s'"

inductive_cases tstepE: "tstep s s'"

section \<open>What the operations leave alone\<close>

lemma write_to_simps [simp]:
  "tr_pending (write_to c d s) = tr_pending s" "tr_phase (write_to c d s) = tr_phase s"
  "tr_closed (write_to c d s) = tr_closed s" "tr_running (write_to c d s) = tr_running s"
  by (simp_all add: write_to_def)

lemma close_conn_simps [simp]:
  "tr_pending (close_conn c s) = tr_pending s" "tr_phase (close_conn c s) = tr_phase s"
  "tr_sent (close_conn c s) = tr_sent s" "tr_running (close_conn c s) = tr_running s"
  "tr_closed (close_conn c s) = sadd c (tr_closed s)"
  by (simp_all add: close_conn_def)

lemma set_phase_simps [simp]:
  "tr_pending (set_phase c p s) = tr_pending s" "tr_closed (set_phase c p s) = tr_closed s"
  "tr_sent (set_phase c p s) = tr_sent s" "tr_running (set_phase c p s) = tr_running s"
  "tr_phase (set_phase c p s) = dset c p (tr_phase s)"
  by (simp_all add: set_phase_def)

lemma finish_simps [simp]:
  "tr_pending (finish c s) = tr_pending s" "tr_phase (finish c s) = dset c Finished (tr_phase s)"
  "tr_closed (finish c s) = sadd c (tr_closed s)" "tr_running (finish c s) = tr_running s"
  "tr_sent (finish c s) = tr_sent s"
  by (simp_all add: finish_def)

lemma relay_turn_simps [simp]:
  "tr_pending (relay_turn c p d s) = tr_pending s" "tr_phase (relay_turn c p d s) = tr_phase s"
  "tr_running (relay_turn c p d s) = tr_running s"
  by (simp_all add: relay_turn_def)

lemma relay_turn_closed: "set (tr_closed s) \<subseteq> set (tr_closed (relay_turn c p d s))"
  by (auto simp: relay_turn_def)

definition same_tasks :: "transit \<Rightarrow> transit \<Rightarrow> bool" where
  "same_tasks s s' \<longleftrightarrow>
     tr_phase s' = tr_phase s \<and> set (tr_closed s) \<subseteq> set (tr_closed s')
     \<and> (\<forall>t p. dget (tr_pending s') t = Some p \<longrightarrow> dget (tr_pending s) t = Some p)
     \<and> (tr_running s' \<longrightarrow> tr_running s)"

lemma same_tasks_refl: "same_tasks s s"
  by (simp add: same_tasks_def)

lemma same_tasks_trans: "same_tasks s t \<Longrightarrow> same_tasks t u \<Longrightarrow> same_tasks s u"
  by (auto simp: same_tasks_def)

lemma same_tasks_drop: "same_tasks s (drop_stale t s)"
  by (auto simp: same_tasks_def drop_stale_def split: option.split if_splits)

lemma same_tasks_cleanup: "same_tasks s (cleanup now s)"
proof -
  have "same_tasks s (fold drop_stale ts s)" for ts
  proof (induction ts arbitrary: s)
    case (Cons t ts)
    show ?case using same_tasks_trans [OF same_tasks_drop Cons.IH] by simp
  qed (simp add: same_tasks_refl)
  then show ?thesis by (simp add: cleanup_def)
qed

lemma same_tasks_stop: "same_tasks s (stop_relay s)"
proof -
  have "tr_phase (fold (\<lambda>p. close_conn (pc_conn p)) ps s') = tr_phase s'
      \<and> set (tr_closed s') \<subseteq> set (tr_closed (fold (\<lambda>p. close_conn (pc_conn p)) ps s'))
      \<and> tr_running (fold (\<lambda>p. close_conn (pc_conn p)) ps s') = tr_running s'" for ps s'
  proof (induction ps arbitrary: s')
    case (Cons p ps)
    then show ?case using Cons.IH [of "close_conn (pc_conn p) s'"] by auto
  qed simp
  from this [of "dvalues (tr_pending s)" "s\<lparr>tr_running := False\<rparr>"] show ?thesis
    by (simp add: stop_relay_def same_tasks_def)
qed

section \<open>The invariant\<close>

text \<open>
  A pending entry belongs to the one task that waits under its token and that nobody relays to; a
  relay joins two different connections that presented the same token, and no connection is the
  target of two relays; a finished task has closed its connection.
\<close>

definition pending_ok :: "transit \<Rightarrow> bool" where
  "pending_ok s \<longleftrightarrow>
     (\<forall>t p. dget (tr_pending s) t = Some p \<longrightarrow>
        (dget (tr_phase s) (pc_conn p) = Some (Waiting t (pc_timestamp p))
          \<or> \<not> tr_running s \<and> dget (tr_phase s) (pc_conn p) = Some Finished)
        \<and> (\<forall>c t'. dget (tr_phase s) c \<noteq> Some (Relaying t' (pc_conn p)))
        \<and> (\<forall>t' p'. dget (tr_pending s) t' = Some p' \<longrightarrow> pc_conn p' = pc_conn p \<longrightarrow> t' = t))"

definition relays_ok :: "transit \<Rightarrow> bool" where
  "relays_ok s \<longleftrightarrow>
     (\<forall>c t p. dget (tr_phase s) c = Some (Relaying t p) \<longrightarrow>
        p \<noteq> c \<and> (dget (tr_phase s) p = Some Finished \<or> (\<exists>st. dget (tr_phase s) p = Some (Waiting t st)))
        \<and> (\<forall>c' t'. dget (tr_phase s) c' = Some (Relaying t' p) \<longrightarrow> c' = c))"

definition transit_ok :: "transit \<Rightarrow> bool" where
  "transit_ok s \<longleftrightarrow>
     pending_ok s \<and> relays_ok s \<and> (\<forall>c. dget (tr_phase s) c = Some Finished \<longrightarrow> c \<in> set (tr_closed s))"

lemma transit_ok_same:
  assumes "transit_ok s" "same_tasks s s'"
  shows "transit_ok s'"
proof -
  have ph: "tr_phase s' = tr_phase s" and cl: "set (tr_closed s) \<subseteq> set (tr_closed s')"
    and pe: "\<And>t p. dget (tr_pending s') t = Some p \<Longrightarrow> dget (tr_pending s) t = Some p"
    and ru: "tr_running s' \<Longrightarrow> tr_running s"
    using assms(2) by (auto simp: same_tasks_def)
  have "pending_ok s'" using assms(1) pe ru unfolding transit_ok_def pending_ok_def ph by blast
  moreover have "relays_ok s'" using assms(1) unfolding transit_ok_def relays_ok_def ph by blast
  ultimately show ?thesis using assms(1) cl unfolding transit_ok_def ph by blast
qed

abbreviation ph :: "transit \<Rightarrow> conn \<Rightarrow> phase option" where
  "ph s c \<equiv> dget (tr_phase s) c"

lemma transit_okI:
  assumes "\<And>t p. dget (tr_pending s) t = Some p \<Longrightarrow>
      ph s (pc_conn p) = Some (Waiting t (pc_timestamp p)) \<or> \<not> tr_running s \<and> ph s (pc_conn p) = Some Finished"
    and "\<And>t p c t'. dget (tr_pending s) t = Some p \<Longrightarrow> ph s c \<noteq> Some (Relaying t' (pc_conn p))"
    and "\<And>t p t' p'. dget (tr_pending s) t = Some p \<Longrightarrow> dget (tr_pending s) t' = Some p' \<Longrightarrow>
      pc_conn p' = pc_conn p \<Longrightarrow> t' = t"
    and "\<And>c t p. ph s c = Some (Relaying t p) \<Longrightarrow>
      p \<noteq> c \<and> (ph s p = Some Finished \<or> (\<exists>st. ph s p = Some (Waiting t st)))"
    and "\<And>c t p c' t'. ph s c = Some (Relaying t p) \<Longrightarrow> ph s c' = Some (Relaying t' p) \<Longrightarrow> c' = c"
    and "\<And>c. ph s c = Some Finished \<Longrightarrow> c \<in> set (tr_closed s)"
  shows "transit_ok s"
  using assms unfolding transit_ok_def pending_ok_def relays_ok_def by meson

lemma pending_phase:
  "transit_ok s \<Longrightarrow> dget (tr_pending s) t = Some p \<Longrightarrow>
   ph s (pc_conn p) = Some (Waiting t (pc_timestamp p)) \<or> \<not> tr_running s \<and> ph s (pc_conn p) = Some Finished"
  by (simp add: transit_ok_def pending_ok_def)

lemma pending_not_target:
  "transit_ok s \<Longrightarrow> dget (tr_pending s) t = Some p \<Longrightarrow> ph s c \<noteq> Some (Relaying t' (pc_conn p))"
  by (simp add: transit_ok_def pending_ok_def)

lemma pending_unique:
  "transit_ok s \<Longrightarrow> dget (tr_pending s) t = Some p \<Longrightarrow> dget (tr_pending s) t' = Some p' \<Longrightarrow>
   pc_conn p' = pc_conn p \<Longrightarrow> t' = t"
  unfolding transit_ok_def pending_ok_def by blast

lemma relay_target:
  "transit_ok s \<Longrightarrow> ph s c = Some (Relaying t p) \<Longrightarrow>
   p \<noteq> c \<and> (ph s p = Some Finished \<or> (\<exists>st. ph s p = Some (Waiting t st)))"
  by (simp add: transit_ok_def relays_ok_def)

lemma relay_unique:
  "transit_ok s \<Longrightarrow> ph s c = Some (Relaying t p) \<Longrightarrow> ph s c' = Some (Relaying t' p) \<Longrightarrow> c' = c"
  unfolding transit_ok_def relays_ok_def by blast

lemma finished_closed: "transit_ok s \<Longrightarrow> ph s c = Some Finished \<Longrightarrow> c \<in> set (tr_closed s)"
  by (simp add: transit_ok_def)

lemmas transit_ok_facts =
  pending_phase pending_not_target pending_unique relay_target relay_unique finished_closed

text \<open>A task that changes its phase from one in which nobody refers to it.\<close>

lemma no_entry:
  assumes "transit_ok s" "ph s c \<noteq> Some Finished" "\<And>t st. ph s c \<noteq> Some (Waiting t st)"
    and "dget (tr_pending s) t = Some p"
  shows "pc_conn p \<noteq> c"
  using pending_phase [OF assms(1,4)] assms(2,3) by auto

lemma no_target:
  assumes "transit_ok s" "ph s c \<noteq> Some Finished" "\<And>t st. ph s c \<noteq> Some (Waiting t st)"
  shows "ph s d \<noteq> Some (Relaying t c)"
  using relay_target [OF assms(1), of d t c] assms(2,3) by auto

lemma transit_ok_accept:
  assumes ok: "transit_ok s" and "\<not> has_key (tr_phase s) c"
  shows "transit_ok (accept c s)"
proof -
  have c: "ph s c = None" using assms(2) by (simp add: has_key_iff)
  have e: "dget (tr_pending s) t = Some p \<Longrightarrow> pc_conn p \<noteq> c" for t p
    using no_entry [OF ok] c by simp
  have n: "ph s d \<noteq> Some (Relaying t c)" for d t
    using no_target [OF ok] c by simp
  have phase: "ph (accept c s) d = (if d = c then Some Handshake else ph s d)" for d
    by (simp add: accept_def)
  have rest: "tr_pending (accept c s) = tr_pending s" "tr_running (accept c s) = tr_running s"
    "tr_closed (accept c s) = tr_closed s"
    by (simp_all add: accept_def)
  show ?thesis
  proof (rule transit_okI, goal_cases)
    case (1 t p)
    then show ?case using pending_phase [OF ok, of t p] e [of t p] by (auto simp: phase rest)
  next
    case (2 t p d t')
    then show ?case using pending_not_target [OF ok] by (auto simp: phase rest split: if_splits)
  next
    case (3 t p t' p')
    then show ?case using pending_unique [OF ok] by (auto simp: rest)
  next
    case (4 d t p)
    then show ?case using relay_target [OF ok, of d t p] n [of d t] by (auto simp: phase split: if_splits)
  next
    case (5 d t p d' t')
    then show ?case using relay_unique [OF ok] by (auto simp: phase split: if_splits)
  next
    case (6 d)
    then show ?case using finished_closed [OF ok] by (auto simp: phase rest split: if_splits)
  qed
qed

lemma transit_ok_finish:
  assumes ok: "transit_ok s" and own: "\<And>t p. dget (tr_pending s) t = Some p \<Longrightarrow> pc_conn p = c \<Longrightarrow> \<not> tr_running s"
  shows "transit_ok (finish c s)"
proof -
  have phase: "ph (finish c s) d = (if d = c then Some Finished else ph s d)" for d by simp
  show ?thesis
  proof (rule transit_okI, goal_cases)
    case (1 t p)
    then show ?case using pending_phase [OF ok, of t p] own [of t p] by (auto simp: phase)
  next
    case (2 t p d t')
    then show ?case using pending_not_target [OF ok] by (auto simp: phase split: if_splits)
  next
    case (3 t p t' p')
    then show ?case using pending_unique [OF ok] by auto
  next
    case (4 d t p)
    then show ?case using relay_target [OF ok, of d t p] by (auto simp: phase split: if_splits)
  next
    case (5 d t p d' t')
    then show ?case using relay_unique [OF ok] by (auto simp: phase split: if_splits)
  next
    case (6 d)
    then show ?case using finished_closed [OF ok] by (auto simp: phase split: if_splits)
  qed
qed

lemma transit_ok_write: "transit_ok s \<Longrightarrow> transit_ok (write_to c d s)"
  by (rule transit_ok_same) (auto simp: same_tasks_def)

lemma transit_ok_drop_entry:
  "transit_ok s \<Longrightarrow> transit_ok (s\<lparr>tr_pending := ddel t (tr_pending s)\<rparr>)"
  by (rule transit_ok_same) (auto simp: same_tasks_def split: if_splits)

lemma transit_ok_wait:
  assumes ok: "transit_ok s" and c: "ph s c = Some Handshake"
  shows "transit_ok (find_or_wait_peer token c now s)"
proof -
  have e: "dget (tr_pending s) t = Some p \<Longrightarrow> pc_conn p \<noteq> c" for t p
    using no_entry [OF ok] c by simp
  have n: "ph s d \<noteq> Some (Relaying t c)" for d t
    using no_target [OF ok] c by simp
  show ?thesis
  proof (cases "dget (tr_pending s) token")
    case None
    let ?s = "find_or_wait_peer token c now s"
    have phase: "ph ?s d = (if d = c then Some (Waiting token now) else ph s d)" for d
      using None by (simp add: find_or_wait_peer_def)
    have pend: "dget (tr_pending ?s) t
        = (if t = token then Some \<lparr>pc_conn = c, pc_timestamp = now\<rparr> else dget (tr_pending s) t)" for t
      using None by (simp add: find_or_wait_peer_def)
    have rest: "tr_running ?s = tr_running s" "tr_closed ?s = tr_closed s"
      using None by (simp_all add: find_or_wait_peer_def)
    show ?thesis
    proof (rule transit_okI, goal_cases)
      case (1 t p)
      then show ?case using pending_phase [OF ok] e by (auto simp: phase pend rest split: if_splits)
    next
      case (2 t p d t')
      then show ?case using pending_not_target [OF ok] n by (auto simp: phase pend split: if_splits)
    next
      case (3 t p t' p')
      then show ?case using pending_unique [OF ok, of t p t' p'] e [of t p] e [of t' p']
        by (auto simp: pend split: if_splits)
    next
      case (4 d t p)
      then show ?case using relay_target [OF ok, of d t p] n [of d t] by (auto simp: phase split: if_splits)
    next
      case (5 d t p d' t')
      then show ?case using relay_unique [OF ok] by (auto simp: phase split: if_splits)
    next
      case (6 d)
      then show ?case using finished_closed [OF ok] by (auto simp: phase rest split: if_splits)
    qed
  next
    case (Some q)
    let ?s = "find_or_wait_peer token c now s"
    have phase: "ph ?s d = (if d = c then Some (Relaying token (pc_conn q)) else ph s d)" for d
      using Some by (simp add: find_or_wait_peer_def)
    have pend: "dget (tr_pending ?s) t = (if t = token then None else dget (tr_pending s) t)" for t
      using Some by (simp add: find_or_wait_peer_def)
    have rest: "tr_running ?s = tr_running s" "tr_closed ?s = tr_closed s"
      using Some by (simp_all add: find_or_wait_peer_def)
    have q: "ph s (pc_conn q) = Some (Waiting token (pc_timestamp q)) \<or> ph s (pc_conn q) = Some Finished"
      "pc_conn q \<noteq> c"
      using pending_phase [OF ok Some] c by auto
    show ?thesis
    proof (rule transit_okI, goal_cases)
      case (1 t p)
      then show ?case using pending_phase [OF ok, of t p] e by (auto simp: phase pend rest split: if_splits)
    next
      case (2 t p d t')
      then show ?case
        using pending_not_target [OF ok, of t p] pending_unique [OF ok Some, of t p]
        by (auto simp: phase pend split: if_splits)
    next
      case (3 t p t' p')
      then show ?case using pending_unique [OF ok] by (auto simp: pend split: if_splits)
    next
      case (4 d t p)
      then show ?case using relay_target [OF ok, of d t p] n [of d t] q by (auto simp: phase split: if_splits)
    next
      case (5 d t p d' t')
      then show ?case
        using relay_unique [OF ok, of d t p d' t'] pending_not_target [OF ok Some]
        by (auto simp: phase split: if_splits)
    next
      case (6 d)
      then show ?case using finished_closed [OF ok] by (auto simp: phase rest split: if_splits)
    qed
  qed
qed

lemma transit_ok_poll:
  assumes "transit_ok s" "dget (tr_phase s) c = Some (Waiting token start)"
  shows "transit_ok (poll c token start now s)"
proof -
  have own: "t = token" if "dget (tr_pending s) t = Some p" "pc_conn p = c" for t p
    using pending_phase [OF assms(1) that(1)] that(2) assms(2) by auto
  have "transit_ok (finish c s)" if "\<not> tr_running s \<or> \<not> has_key (tr_pending s) token"
    by (rule transit_ok_finish [OF assms(1)]) (use own that assms(2) in \<open>auto simp: has_key_iff\<close>)
  moreover have "transit_ok (finish c (write_to c d (s\<lparr>tr_pending := ddel token (tr_pending s)\<rparr>)))" for d
    by (rule transit_ok_finish [OF transit_ok_write [OF transit_ok_drop_entry [OF assms(1)]]])
      (use own assms(2) in \<open>auto split: if_splits\<close>)
  ultimately show ?thesis using assms(1) by (simp add: poll_def)
qed

lemma transit_ok_handshake:
  assumes "transit_ok s" "dget (tr_phase s) c = Some Handshake"
  shows "transit_ok (read_handshake c line now s)" "transit_ok (finish c s)"
proof -
  have f: "transit_ok (finish c s')" if "transit_ok s'" "dget (tr_phase s') c = Some Handshake" for s'
    by (rule transit_ok_finish [OF that(1)]) (use no_entry [OF that(1)] that(2) in auto)
  show "transit_ok (finish c s)" by (rule f [OF assms])
  show "transit_ok (read_handshake c line now s)"
    using f [OF assms] f [OF transit_ok_write [OF assms(1)]] transit_ok_wait [OF assms] assms(2)
    by (auto simp: read_handshake_def split: option.split handshake.split)
qed

lemma transit_ok_step: "tstep s s' \<Longrightarrow> transit_ok s \<Longrightarrow> transit_ok s'"
proof (induction rule: tstep.induct)
  case (relayed s c token p)
  show ?case
    by (rule transit_ok_finish [OF relayed(4)]) (use no_entry [OF relayed(4)] relayed(1) in auto)
next
  case (forward s c token p data)
  have "same_tasks s (relay_turn c p data s)" using relay_turn_closed by (simp add: same_tasks_def)
  then show ?case using transit_ok_same forward(2) by blast
next
  case (backward s c token p data)
  have "same_tasks s (relay_turn p c data s)" using relay_turn_closed by (simp add: same_tasks_def)
  then show ?case using transit_ok_same backward(2) by blast
qed (auto intro: transit_ok_accept transit_ok_handshake transit_ok_poll
      transit_ok_same [OF _ same_tasks_cleanup] transit_ok_same [OF _ same_tasks_stop])

lemma treach_ok: "treach timeout s \<Longrightarrow> transit_ok s"
proof (induction rule: treach.induct)
  case start
  then show ?case by (simp add: transit_ok_def pending_ok_def relays_ok_def new_transit_def)
next
  case (step s s')
  then show ?case using transit_ok_step by blast
qed

section \<open>Closed connections stay closed\<close>

lemma find_or_wait_closed [simp]: "tr_closed (find_or_wait_peer t c now s) = tr_closed s"
  by (simp add: find_or_wait_peer_def split: option.split)

lemma tstep_closed: "tstep s s' \<Longrightarrow> set (tr_closed s) \<subseteq> set (tr_closed s')"
proof (induction rule: tstep.induct)
  case (handshake s c line now)
  then show ?case by (auto simp: read_handshake_def split: option.split handshake.split)
next
  case (poll s c token start now)
  then show ?case by (auto simp: poll_def)
next
  case (cleanup s now)
  then show ?case using same_tasks_cleanup by (auto simp: same_tasks_def)
next
  case (stop s)
  then show ?case using same_tasks_stop by (auto simp: same_tasks_def)
qed (auto simp: accept_def relay_turn_def)

lemma tsteps_closed: "tstep\<^sup>*\<^sup>* s s' \<Longrightarrow> set (tr_closed s) \<subseteq> set (tr_closed s')"
  by (induction rule: rtranclp_induct) (auto dest: tstep_closed)

lemma closed_relay_dead:
  "p \<in> set (tr_closed s) \<Longrightarrow> tr_sent (relay_turn c p d s) = tr_sent s \<and> tr_sent (relay_turn p c d s) = tr_sent s
     \<and> tr_bytes_relayed (relay_turn c p d s) = tr_bytes_relayed s
     \<and> tr_bytes_relayed (relay_turn p c d s) = tr_bytes_relayed s"
  by (simp add: relay_turn_def close_conn_def)

section \<open>Properties\<close>

text \<open>
  C27. In every reachable state a relay joins two different connections that presented the same token,
  no connection is the target of two relays or still pending while it is relayed to, and a finished
  task has closed its connection.
\<close>

theorem relays_match_tokens:
  assumes "treach timeout s" "dget (tr_phase s) c = Some (Relaying token p)"
  shows "p \<noteq> c \<and> (dget (tr_phase s) p = Some Finished \<or> (\<exists>start. dget (tr_phase s) p = Some (Waiting token start)))
    \<and> (\<forall>c' token'. dget (tr_phase s) c' = Some (Relaying token' p) \<longrightarrow> c' = c)
    \<and> (\<forall>t e. dget (tr_pending s) t = Some e \<longrightarrow> pc_conn e \<noteq> p)
    \<and> (dget (tr_phase s) p = Some Finished \<longrightarrow> p \<in> set (tr_closed s))"
proof -
  note ok = treach_ok [OF assms(1)]
  show ?thesis
    using relay_target [OF ok assms(2)] relay_unique [OF ok assms(2)] pending_not_target [OF ok]
      finished_closed [OF ok, of p] assms(2)
    by metis
qed

text \<open>Two clients with one token, for the witnesses.\<close>

definition ex_pair :: transit where
  "ex_pair = read_handshake 2 (lit ''please relay tok'') 10
     (read_handshake 1 (lit ''please relay tok'') 5 (accept 2 (accept 1 (new_transit 60000))))"

lemma treach_ex_pair: "treach 60000 ex_pair"
proof -
  have a1: "treach 60000 (accept 1 (new_transit 60000))"
    by (rule treach.step [OF treach.start tstep.accept]) (simp add: new_transit_def has_key_def)
  have a2: "treach 60000 (accept 2 (accept 1 (new_transit 60000)))"
    by (rule treach.step [OF a1 tstep.accept]) (simp add: accept_def new_transit_def has_key_def)
  have a3: "treach 60000 (read_handshake 1 (lit ''please relay tok'') 5 (accept 2 (accept 1 (new_transit 60000))))"
    by (rule treach.step [OF a2 tstep.handshake]) (simp add: accept_def new_transit_def)
  show ?thesis unfolding ex_pair_def
    by (rule treach.step [OF a3 tstep.handshake]) code_simp
qed

lemma ex_pair_phases:
  "dget (tr_phase ex_pair) 2 = Some (Relaying ''tok'' 1)" "dget (tr_phase ex_pair) 1 = Some (Waiting ''tok'' 5)"
  "\<not> has_key (tr_pending ex_pair) ''tok''" "tr_running ex_pair"
  by code_simp+

theorem relays_match_tokens_witness:
  "\<exists>start. dget (tr_phase ex_pair) 1 = Some (Waiting ''tok'' start)"
  using relays_match_tokens [OF treach_ex_pair ex_pair_phases(1)] ex_pair_phases(2) by simp

text \<open>
  A relay does not outlive the next poll of the client that waited: once two clients are matched,
  the waiting client's own handler finds its token gone, returns and closes its connection, after
  which nothing is relayed in either direction in any later state.
\<close>

theorem matched_relay_is_cut:
  assumes "treach timeout s" "dget (tr_phase s) c = Some (Relaying token p)"
    and "dget (tr_phase s) p = Some (Waiting token start)" "\<not> has_key (tr_pending s) token"
    and "tstep\<^sup>*\<^sup>* (poll p token start now s) s'"
  shows "p \<in> set (tr_closed s')
    \<and> tr_sent (relay_turn c p data s') = tr_sent s' \<and> tr_sent (relay_turn p c data s') = tr_sent s'
    \<and> tr_bytes_relayed (relay_turn c p data s') = tr_bytes_relayed s'
    \<and> tr_bytes_relayed (relay_turn p c data s') = tr_bytes_relayed s'"
proof -
  have "p \<in> set (tr_closed (poll p token start now s))" using assms(4) by (simp add: poll_def)
  then have "p \<in> set (tr_closed s')" using tsteps_closed [OF assms(5)] by blast
  then show ?thesis using closed_relay_dead by blast
qed

theorem matched_relay_is_cut_witness:
  "tr_sent (relay_turn 2 1 [1, 2, 3] (poll 1 ''tok'' 5 110 ex_pair)) = tr_sent (poll 1 ''tok'' 5 110 ex_pair)
    \<and> tr_sent (relay_turn 2 1 [1, 2, 3] ex_pair) \<noteq> tr_sent ex_pair"
proof -
  have "tr_sent (relay_turn 2 1 [1, 2, 3] ex_pair) \<noteq> tr_sent ex_pair" by code_simp
  then show ?thesis
    using matched_relay_is_cut [OF treach_ex_pair ex_pair_phases(1,2,3) rtranclp.rtrancl_refl, of 110 "[1, 2, 3]"]
    by blast
qed

end
