(* ===== verification/Aliases.thy ===== *)
theory Aliases
  imports Identity
begin

text \<open>
  \<^verbatim>\<open>src/wh/wns/aliases.py\<close>: local petnames for WNS addresses, with the JSON file they are kept in
  (modelled by the value it holds). The store is an instance of the keyed-store interface.
\<close>

record wns_alias =
  al_name :: string
  al_address :: string
  al_description :: "string option"
  al_username :: "string option"

text \<open>\<^verbatim>\<open>to_dict\<close> drops the fields that are \<^verbatim>\<open>None\<close>.\<close>

definition some_entry :: "string \<Rightarrow> string option \<Rightarrow> jdict" where
  "some_entry k x = (case x of None \<Rightarrow> [] | Some s \<Rightarrow> [(k, JStr s)])"

definition alias_to_dict :: "wns_alias \<Rightarrow> jdict" where
  "alias_to_dict a =
     [(''name'', JStr (al_name a)), (''address'', JStr (al_address a))]
     @ some_entry ''description'' (al_description a) @ some_entry ''username'' (al_username a)"

definition alias_from_dict :: "jdict \<Rightarrow> wns_alias result" where
  "alias_from_dict d =
     (case jstr d ''name'' of Inl e \<Rightarrow> Inl e | Inr n \<Rightarrow>
      (case jstr d ''address'' of Inl e \<Rightarrow> Inl e | Inr a \<Rightarrow>
         Inr \<lparr>al_name = n, al_address = a, al_description = jopt_str d ''description'',
              al_username = jopt_str d ''username''\<rparr>))"

record alias_store =
  aliases :: "(string, wns_alias) dict"
  aliases_file :: "jval option"

definition load_alias :: "string \<times> jval \<Rightarrow> (string \<times> wns_alias) result" where
  "load_alias nv =
     (case snd nv of
        JObj d \<Rightarrow> map_sum id (Pair (fst nv)) (alias_from_dict d)
      | _ \<Rightarrow> Inl TypeError)"

text \<open>\<^verbatim>\<open>_load\<close>: a missing file, and one that does not load, is an empty store.\<close>

definition load_aliases :: "jval option \<Rightarrow> (string, wns_alias) dict" where
  "load_aliases file =
     (case file of
        Some (JObj d) \<Rightarrow>
          (case dget d ''aliases'' of
             Some (JObj m) \<Rightarrow>
               (case seq_results (map load_alias m) of Inl _ \<Rightarrow> [] | Inr as \<Rightarrow> as)
           | _ \<Rightarrow> [])
      | _ \<Rightarrow> [])"

definition open_alias_store :: "jval option \<Rightarrow> alias_store" where
  "open_alias_store file = \<lparr>aliases = load_aliases file, aliases_file = file\<rparr>"

definition save_aliases :: "alias_store \<Rightarrow> alias_store" where
  "save_aliases s =
     s\<lparr>aliases_file := Some (JObj [(''version'', JInt 1),
         (''aliases'', JObj (map (\<lambda>(n, a). (n, JObj (alias_to_dict a))) (aliases s)))])\<rparr>"

definition full_wns :: "string \<Rightarrow> string" where
  "full_wns address =
     (if startswith address ''wh://'' then address
      else if endswith address ''.wns'' then ''wh://'' @ address
      else ''wh://'' @ address @ ''.wns'')"

definition put_alias :: "string \<Rightarrow> wns_alias \<Rightarrow> alias_store \<Rightarrow> alias_store" where
  "put_alias name a s = save_aliases (s\<lparr>aliases := dset name a (aliases s)\<rparr>)"

definition add_alias ::
  "string \<Rightarrow> string \<Rightarrow> string option \<Rightarrow> string option \<Rightarrow> bool \<Rightarrow> alias_store \<Rightarrow> unit result \<times> alias_store" where
  "add_alias name address desc username overwrite s =
     (if \<not> dashed_alnum name then (Inl ValueError, s)
      else if parse_wns_address (full_wns address) = None then (Inl ValueError, s)
      else if has_key (aliases s) name \<and> \<not> overwrite then (Inl ValueError, s)
      else (Inr (), put_alias name
             \<lparr>al_name = name, al_address = full_wns address, al_description = desc,
              al_username = username\<rparr> s))"

definition remove_alias :: "string \<Rightarrow> alias_store \<Rightarrow> bool \<times> alias_store" where
  "remove_alias name s =
     (if \<not> has_key (aliases s) name then (False, s)
      else (True, save_aliases (s\<lparr>aliases := ddel name (aliases s)\<rparr>)))"

definition get_alias :: "alias_store \<Rightarrow> string \<Rightarrow> wns_alias option" where
  "get_alias s name = dget (aliases s) name"

definition resolve_alias :: "alias_store \<Rightarrow> string \<Rightarrow> string option" where
  "resolve_alias s x =
     (if is_wns_address x then Some x else map_option al_address (get_alias s x))"

definition resolve_with_username :: "alias_store \<Rightarrow> string \<Rightarrow> string option \<times> string option" where
  "resolve_with_username s x =
     (let (user, x') = (if CHR ''@'' \<in> set x \<and> \<not> is_wns_address x
                        then apfst Some (split1 CHR ''@'' x) else (None, x))
      in if is_wns_address x' then (Some x', user)
         else
           (case get_alias s x' of
              Some a \<Rightarrow> (Some (al_address a), if truthy user then user else al_username a)
            | None \<Rightarrow> (None, None)))"

definition search_aliases :: "alias_store \<Rightarrow> string \<Rightarrow> wns_alias list" where
  "search_aliases s query =
     filter (\<lambda>a. contains (lower (al_name a)) (lower query)
               \<or> (truthy (al_description a) \<and> contains (lower (the (al_description a))) (lower query)))
       (dvalues (aliases s))"

section \<open>The store as a map\<close>

lemma get_put_alias:
  "get_alias (put_alias k v s) k' = (if k' = k then Some v else get_alias s k')"
  by (simp add: get_alias_def put_alias_def save_aliases_def)

lemma get_remove_alias:
  "get_alias (snd (remove_alias k s)) k' = (if k' = k then None else get_alias s k')"
  by (auto simp: get_alias_def remove_alias_def save_aliases_def has_key_iff)

interpretation alias_map: kv_store get_alias put_alias "\<lambda>k s. snd (remove_alias k s)"
  by unfold_locales (simp_all add: get_put_alias get_remove_alias)

lemma alias_from_to_dict [simp]: "alias_from_dict (alias_to_dict a) = Inr a"
  by (cases "al_description a"; cases "al_username a")
    (simp_all add: alias_from_dict_def alias_to_dict_def some_entry_def jstr_def jopt_str_def)

lemma load_saved: "load_aliases (aliases_file (save_aliases s)) = aliases s"
proof -
  let ?w = "\<lambda>(n, a). (n, JObj (alias_to_dict a))"
  have "seq_results (map load_alias (map ?w (aliases s))) = seq_results (map Inr (aliases s))"
    by (rule arg_cong [where f = seq_results]) (auto simp: load_alias_def)
  then show ?thesis by (simp add: load_aliases_def save_aliases_def seq_results_Inr)
qed

lemma load_put: "load_aliases (aliases_file (put_alias k a s)) = aliases (put_alias k a s)"
  using load_saved [of "s\<lparr>aliases := dset k a (aliases s)\<rparr>"]
  by (simp add: put_alias_def) (simp add: save_aliases_def)

lemma add_alias_put:
  "add_alias name address desc username ow s = (Inr (), s') \<Longrightarrow>
   s' = put_alias name \<lparr>al_name = name, al_address = full_wns address, al_description = desc,
          al_username = username\<rparr> s
   \<and> dashed_alnum name \<and> parse_wns_address (full_wns address) \<noteq> None"
  by (auto simp: add_alias_def split: if_splits)

section \<open>Properties\<close>

text \<open>
  An alias that was added resolves to its address in full form, which the WNS parser accepts,
  with the user name of a \<^verbatim>\<open>user@alias\<close> or else its own; other names resolve as before, and a store
  opened again on the file resolves every name the same way. The one exception is an alias whose
  name reads as a WNS address itself: it resolves to its name, not to its address.
\<close>

theorem added_alias_resolves:
  assumes add: "add_alias name address desc username ow s = (Inr (), s')"
  shows "parse_wns_address (full_wns address) \<noteq> None
    \<and> resolve_alias s' name = Some (if is_wns_address name then name else full_wns address)
    \<and> (\<forall>x. x = name \<or> resolve_alias s' x = resolve_alias s x)
    \<and> (\<forall>x. resolve_alias (open_alias_store (aliases_file s')) x = resolve_alias s' x)
    \<and> (\<forall>u. is_wns_address name \<or> u = [] \<or> CHR ''@'' \<in> set u \<or> is_wns_address (u @ ''@'' @ name)
          \<or> resolve_with_username s' (u @ ''@'' @ name) = (Some (full_wns address), Some u))"
proof -
  let ?a = "\<lparr>al_name = name, al_address = full_wns address, al_description = desc,
              al_username = username\<rparr>"
  have s': "s' = put_alias name ?a s" and ok: "parse_wns_address (full_wns address) \<noteq> None"
    using add_alias_put [OF add] by simp_all
  have g: "get_alias s' x = (if x = name then Some ?a else get_alias s x)" for x
    by (simp add: s' get_put_alias)
  have o: "get_alias (open_alias_store (aliases_file s')) x = get_alias s' x" for x
    by (simp add: s' open_alias_store_def get_alias_def load_put)
  have u: "resolve_with_username s' (u @ ''@'' @ name) = (Some (full_wns address), Some u)"
    if "\<not> is_wns_address name" "u \<noteq> []" "CHR ''@'' \<notin> set u" "\<not> is_wns_address (u @ ''@'' @ name)" for u
    using that by (simp add: resolve_with_username_def split1_append g)
  show ?thesis using ok u by (auto simp: resolve_alias_def g o)
qed

theorem added_alias_resolves_witness:
  "let s' = snd (add_alias ''laptop'' ''abcdefghijklmnopqrstuvwxyz'' None (Some ''me'') False
              (open_alias_store None))
   in resolve_alias s' ''laptop'' = Some ''wh://abcdefghijklmnopqrstuvwxyz.wns''"
proof -
  let ?r = "add_alias ''laptop'' ''abcdefghijklmnopqrstuvwxyz'' None (Some ''me'') False
              (open_alias_store None)"
  have "?r = (Inr (), snd ?r)" by code_simp
  note t = conjunct1 [OF conjunct2 [OF added_alias_resolves [OF this]]]
  have a: "\<not> is_wns_address ''laptop''" by code_simp
  have b: "full_wns ''abcdefghijklmnopqrstuvwxyz'' = ''wh://abcdefghijklmnopqrstuvwxyz.wns''"
    by code_simp
  show ?thesis unfolding Let_def t by (simp only: a b if_False)
qed

end
