(* ===== verification/Relay_Config.thy ===== *)
theory Relay_Config
  imports Aliases
begin

text \<open>
  \<^verbatim>\<open>src/wh/relay/config.py\<close> and \<^verbatim>\<open>resolve_relay\<close> of \<^verbatim>\<open>src/wh/cli/main.py\<close>: named relay servers, the
  default one, and the YAML file they are kept in (modelled by the value it holds).
\<close>

record relay_config =
  rl_name :: string
  rl_mailbox_url :: string
  rl_transit_url :: string
  rl_namespace_key :: "string option"
  rl_description :: "string option"

definition relay_to_dict :: "relay_config \<Rightarrow> jdict" where
  "relay_to_dict r =
     [(''name'', JStr (rl_name r)), (''mailbox_url'', JStr (rl_mailbox_url r)),
      (''transit_url'', JStr (rl_transit_url r))]
     @ some_entry ''namespace_key'' (rl_namespace_key r) @ some_entry ''description'' (rl_description r)"

definition relay_from_dict :: "jdict \<Rightarrow> relay_config result" where
  "relay_from_dict d =
     (case jstr d ''name'' of Inl e \<Rightarrow> Inl e | Inr n \<Rightarrow>
      (case jstr d ''mailbox_url'' of Inl e \<Rightarrow> Inl e | Inr mb \<Rightarrow>
      (case jstr d ''transit_url'' of Inl e \<Rightarrow> Inl e | Inr tr \<Rightarrow>
         Inr \<lparr>rl_name = n, rl_mailbox_url = mb, rl_transit_url = tr,
              rl_namespace_key = jopt_str d ''namespace_key'',
              rl_description = jopt_str d ''description''\<rparr>)))"

record relay_file =
  rf_default :: string
  rf_relays :: "(string, relay_config) dict"

definition public_relay :: relay_config where
  "public_relay =
     \<lparr>rl_name = ''public'', rl_mailbox_url = ''ws://relay.magic-wormhole.io:4000/v1'',
      rl_transit_url = ''tcp:transit.magic-wormhole.io:4001'', rl_namespace_key = None,
      rl_description = Some ''Official Magic Wormhole relay''\<rparr>"

text \<open>The constructor with \<^verbatim>\<open>__post_init__\<close>.\<close>

definition make_relay_file :: "string \<Rightarrow> (string, relay_config) dict \<Rightarrow> relay_file" where
  "make_relay_file dflt relays =
     \<lparr>rf_default = dflt,
      rf_relays = (if has_key relays ''public'' then relays else dset ''public'' public_relay relays)\<rparr>"

definition relay_file_to_dict :: "relay_file \<Rightarrow> jdict" where
  "relay_file_to_dict c =
     [(''default'', JStr (rf_default c)),
      (''relays'', JObj (map (\<lambda>(n, r). (n, JObj (relay_to_dict r))) (rf_relays c)))]"

definition load_relay :: "string \<times> jval \<Rightarrow> (string \<times> relay_config) result" where
  "load_relay nv =
     (case snd nv of
        JObj d \<Rightarrow> map_sum id (Pair (fst nv)) (relay_from_dict (dset ''name'' (JStr (fst nv)) d))
      | _ \<Rightarrow> Inl TypeError)"

definition relay_file_from_dict :: "jdict \<Rightarrow> relay_file result" where
  "relay_file_from_dict d =
     (case dget d ''relays'' of
        None \<Rightarrow> Inr (make_relay_file (case jopt_str d ''default'' of None \<Rightarrow> ''public'' | Some s \<Rightarrow> s) [])
      | Some (JObj m) \<Rightarrow>
          map_sum id (make_relay_file (case jopt_str d ''default'' of None \<Rightarrow> ''public'' | Some s \<Rightarrow> s))
            (seq_results (map load_relay m))
      | Some _ \<Rightarrow> Inl AttributeError)"

text \<open>The manager: the cached configuration and the file on disk.\<close>

record relay_manager =
  rm_config :: "relay_file option"
  rm_file :: "jdict option"

definition load_config :: "relay_manager \<Rightarrow> relay_file result \<times> relay_manager" where
  "load_config m =
     (case rm_config m of
        Some c \<Rightarrow> (Inr c, m)
      | None \<Rightarrow>
          (case (case rm_file m of None \<Rightarrow> Inr (make_relay_file ''public'' []) | Some d \<Rightarrow> relay_file_from_dict d) of
             Inl e \<Rightarrow> (Inl e, m)
           | Inr c \<Rightarrow> (Inr c, m\<lparr>rm_config := Some c\<rparr>)))"

definition save_config :: "relay_manager \<Rightarrow> relay_manager" where
  "save_config m =
     (case rm_config m of
        None \<Rightarrow> m
      | Some c \<Rightarrow> m\<lparr>rm_file := Some (relay_file_to_dict c)\<rparr>)"

definition with_config ::
  "(relay_file \<Rightarrow> relay_manager \<Rightarrow> 'a result \<times> relay_manager) \<Rightarrow> relay_manager \<Rightarrow> 'a result \<times> relay_manager"
  where
  "with_config f m = (case load_config m of (Inl e, m') \<Rightarrow> (Inl e, m') | (Inr c, m') \<Rightarrow> f c m')"

definition put_config :: "relay_file \<Rightarrow> relay_manager \<Rightarrow> relay_manager" where
  "put_config c m = save_config (m\<lparr>rm_config := Some c\<rparr>)"

definition add_relay :: "relay_config \<Rightarrow> bool \<Rightarrow> relay_manager \<Rightarrow> relay_config result \<times> relay_manager" where
  "add_relay r set_dflt =
     with_config (\<lambda>c m.
       (Inr r, put_config
          (c\<lparr>rf_relays := dset (rl_name r) r (rf_relays c),
             rf_default := (if set_dflt then rl_name r else rf_default c)\<rparr>) m))"

definition remove_relay :: "string \<Rightarrow> relay_manager \<Rightarrow> bool result \<times> relay_manager" where
  "remove_relay name =
     with_config (\<lambda>c m.
       if name = ''public'' then (Inl ValueError, m)
       else if \<not> has_key (rf_relays c) name then (Inr False, m)
       else (Inr True, put_config
              (c\<lparr>rf_relays := ddel name (rf_relays c),
                 rf_default := (if rf_default c = name then ''public'' else rf_default c)\<rparr>) m))"

definition get_relay :: "string option \<Rightarrow> relay_manager \<Rightarrow> relay_config option result \<times> relay_manager" where
  "get_relay name =
     with_config (\<lambda>c m.
       (Inr (dget (rf_relays c) (case name of None \<Rightarrow> rf_default c | Some n \<Rightarrow> n)), m))"

definition get_default_relay :: "relay_manager \<Rightarrow> relay_config result \<times> relay_manager" where
  "get_default_relay =
     with_config (\<lambda>c m.
       (case dget (rf_relays c) (rf_default c) of None \<Rightarrow> Inl KeyError | Some r \<Rightarrow> Inr r, m))"

definition set_default :: "string \<Rightarrow> relay_manager \<Rightarrow> unit result \<times> relay_manager" where
  "set_default name =
     with_config (\<lambda>c m.
       if \<not> has_key (rf_relays c) name then (Inl ValueError, m)
       else (Inr (), put_config (c\<lparr>rf_default := name\<rparr>) m))"

definition list_relays :: "relay_manager \<Rightarrow> relay_config list result \<times> relay_manager" where
  "list_relays = with_config (\<lambda>c m. (Inr (dvalues (rf_relays c)), m))"

definition export_relay :: "string \<Rightarrow> relay_manager \<Rightarrow> jdict result \<times> relay_manager" where
  "export_relay name m =
     (case get_relay (Some name) m of
        (Inl e, m') \<Rightarrow> (Inl e, m')
      | (Inr None, m') \<Rightarrow> (Inl ValueError, m')
      | (Inr (Some r), m') \<Rightarrow> (Inr [(''version'', JInt 1), (''relay'', JObj (relay_to_dict r))], m'))"

definition import_relay ::
  "jdict \<Rightarrow> string option \<Rightarrow> bool \<Rightarrow> relay_manager \<Rightarrow> relay_config result \<times> relay_manager" where
  "import_relay data name_override set_dflt m =
     (if dget data ''version'' \<noteq> Some (JInt 1) then (Inl ValueError, m)
      else
        (case dget data ''relay'' of
           None \<Rightarrow> (Inl KeyError, m)
         | Some (JObj d) \<Rightarrow>
             (case (if truthy name_override then Inr (the name_override) else jstr d ''name'') of
                Inl e \<Rightarrow> (Inl e, m)
              | Inr n \<Rightarrow>
                  (case relay_from_dict (dset ''name'' (JStr n) d) of
                     Inl e \<Rightarrow> (Inl e, m)
                   | Inr r \<Rightarrow> add_relay r set_dflt m))
         | Some _ \<Rightarrow> (Inl TypeError, m)))"

text \<open>
  \<^verbatim>\<open>resolve_relay\<close> of the command line: the mailbox URL and the transit URL, \<^const>\<open>None\<close> for the
  default transit.
\<close>

definition resolve_relay ::
  "string option \<Rightarrow> relay_manager \<Rightarrow> (string \<times> string option) result \<times> relay_manager" where
  "resolve_relay opt m =
     (case opt of
        None \<Rightarrow>
          apfst (map_sum id (\<lambda>r. (rl_mailbox_url r, Some (rl_transit_url r)))) (get_default_relay m)
      | Some s \<Rightarrow>
          if contains s ''://'' then (Inr (s, None), m)
          else
            apfst (map_sum id (\<lambda>x. case x of Some r \<Rightarrow> (rl_mailbox_url r, Some (rl_transit_url r))
                                            | None \<Rightarrow> (s, None)))
              (get_relay (Some s) m))"

section \<open>The configuration and its file\<close>

lemma relay_from_to_dict: "relay_from_dict (relay_to_dict r) = Inr r"
  by (cases "rl_namespace_key r"; cases "rl_description r")
    (simp_all add: relay_from_dict_def relay_to_dict_def some_entry_def jstr_def jopt_str_def)

lemma load_relay_to_dict:
  "rl_name r = n \<Longrightarrow> load_relay (n, JObj (relay_to_dict r)) = Inr (n, r)"
  by (cases "rl_namespace_key r"; cases "rl_description r")
    (auto simp: load_relay_def relay_from_dict_def relay_to_dict_def some_entry_def jstr_def jopt_str_def)

text \<open>Every relay is under its name, the public relay is there and the default names one of them.\<close>

definition relays_ok :: "relay_file \<Rightarrow> bool" where
  "relays_ok c \<longleftrightarrow>
     distinct (dkeys (rf_relays c)) \<and> (\<forall>(n, r) \<in> set (rf_relays c). rl_name r = n)
     \<and> has_key (rf_relays c) ''public'' \<and> has_key (rf_relays c) (rf_default c)"

lemma relays_ok_fresh: "relays_ok (make_relay_file ''public'' [])"
  by (simp add: relays_ok_def make_relay_file_def has_key_def public_relay_def)

lemma relay_file_roundtrip:
  assumes "relays_ok c"
  shows "relay_file_from_dict (relay_file_to_dict c) = Inr c"
proof -
  have "seq_results (map load_relay (map (\<lambda>(n, r). (n, JObj (relay_to_dict r))) (rf_relays c)))
    = seq_results (map Inr (rf_relays c))"
    by (rule arg_cong [where f = seq_results]) (use assms in \<open>auto simp: relays_ok_def load_relay_to_dict\<close>)
  then show ?thesis
    using assms
    by (simp add: relay_file_from_dict_def relay_file_to_dict_def jopt_str_def seq_results_Inr
        make_relay_file_def relays_ok_def)
qed

definition rm_ok :: "relay_manager \<Rightarrow> bool" where
  "rm_ok m \<longleftrightarrow>
     (case rm_config m of
        None \<Rightarrow> rm_file m = None \<or> (\<exists>c. relays_ok c \<and> rm_file m = Some (relay_file_to_dict c))
      | Some c \<Rightarrow> relays_ok c
          \<and> (rm_file m = None \<and> c = make_relay_file ''public'' []
             \<or> rm_file m = Some (relay_file_to_dict c)))"

lemma rm_ok_load:
  assumes "rm_ok m"
  shows "\<exists>c. load_config m = (Inr c, m\<lparr>rm_config := Some c\<rparr>) \<and> relays_ok c
    \<and> rm_ok (m\<lparr>rm_config := Some c\<rparr>)"
  using assms relays_ok_fresh
  by (auto simp: rm_ok_def load_config_def relay_file_roundtrip split: option.splits)

lemma rm_ok_put: "relays_ok c \<Longrightarrow> rm_ok (put_config c m)"
  by (simp add: rm_ok_def put_config_def save_config_def)

lemma rm_ok_with_config:
  assumes "rm_ok m" "\<And>c m'. relays_ok c \<Longrightarrow> rm_ok m' \<Longrightarrow> rm_ok (snd (f c m'))"
  shows "rm_ok (snd (with_config f m))"
  using rm_ok_load [OF assms(1)] assms(2) by (auto simp: with_config_def)

lemma relays_ok_dset:
  "relays_ok c \<Longrightarrow> relays_ok (c\<lparr>rf_relays := dset (rl_name r) r (rf_relays c),
     rf_default := (if b then rl_name r else rf_default c)\<rparr>)"
  by (auto simp: relays_ok_def set_dset has_key_def)

lemma relays_ok_ddel:
  "relays_ok c \<Longrightarrow> name \<noteq> ''public'' \<Longrightarrow>
   relays_ok (c\<lparr>rf_relays := ddel name (rf_relays c),
     rf_default := (if rf_default c = name then ''public'' else rf_default c)\<rparr>)"
  by (auto simp: relays_ok_def set_ddel has_key_def)

lemma rm_ok_ops:
  assumes "rm_ok m"
  shows "rm_ok (snd (add_relay r b m))" "rm_ok (snd (remove_relay n m))"
    "rm_ok (snd (set_default n m))" "rm_ok (snd (import_relay d no b m))"
proof -
  show add: "rm_ok (snd (add_relay r b m))" for r b
    unfolding add_relay_def
    by (rule rm_ok_with_config [OF assms]) (unfold snd_conv, intro rm_ok_put relays_ok_dset)
  show "rm_ok (snd (remove_relay n m))"
    unfolding remove_relay_def
    by (rule rm_ok_with_config [OF assms]) (simp add: rm_ok_put relays_ok_ddel)
  show "rm_ok (snd (set_default n m))"
    unfolding set_default_def
    by (rule rm_ok_with_config [OF assms]) (auto intro!: rm_ok_put simp: relays_ok_def)
  show "rm_ok (snd (import_relay d no b m))"
    using add assms by (auto simp: import_relay_def split: option.splits jval.splits sum.splits)
qed

datatype relay_op =
    RlAdd relay_config bool
  | RlRemove string
  | RlDefault string
  | RlImport jdict "string option" bool
  | RlRestart

fun relay_apply :: "relay_op \<Rightarrow> relay_manager \<Rightarrow> relay_manager" where
  "relay_apply (RlAdd r b) m = snd (add_relay r b m)"
| "relay_apply (RlRemove n) m = snd (remove_relay n m)"
| "relay_apply (RlDefault n) m = snd (set_default n m)"
| "relay_apply (RlImport d no b) m = snd (import_relay d no b m)"
| "relay_apply RlRestart m = m\<lparr>rm_config := None\<rparr>"

lemma rm_ok_apply: "rm_ok m \<Longrightarrow> rm_ok (relay_apply op m)"
proof (cases op)
  case RlRestart
  assume "rm_ok m"
  then show ?thesis by (auto simp: RlRestart rm_ok_def split: option.splits)
qed (simp_all add: rm_ok_ops)

lemma rm_ok_run: "rm_ok m \<Longrightarrow> rm_ok (fold relay_apply ops m)"
  by (induction ops arbitrary: m) (simp_all add: rm_ok_apply)

lemma restart_load:
  "rm_ok m \<Longrightarrow> fst (load_config (relay_apply RlRestart m)) = fst (load_config m)"
  by (auto simp: rm_ok_def load_config_def relay_file_roundtrip split: option.splits)

section \<open>Properties\<close>

text \<open>
  Starting without a file, after any additions, removals, imports, changes of the default and
  restarts, the default relay exists and is what the command line resolves without an option, the
  public relay is still configured, and a restart reads back the same configuration.
\<close>

theorem default_relay_resolves:
  "let m = fold relay_apply ops \<lparr>rm_config = None, rm_file = None\<rparr> in
   (\<exists>r. fst (get_default_relay m) = Inr r
      \<and> fst (resolve_relay None m) = Inr (rl_mailbox_url r, Some (rl_transit_url r)))
   \<and> (\<exists>r. fst (get_relay (Some ''public'') m) = Inr (Some r))
   \<and> fst (list_relays (relay_apply RlRestart m)) = fst (list_relays m)
   \<and> fst (get_default_relay (relay_apply RlRestart m)) = fst (get_default_relay m)"
proof -
  define m where "m = fold relay_apply ops \<lparr>rm_config = None, rm_file = None\<rparr>"
  have ok: "rm_ok m" unfolding m_def by (rule rm_ok_run) (simp add: rm_ok_def)
  obtain c where c: "fst (load_config m) = Inr c" "relays_ok c" using rm_ok_load [OF ok] by auto
  obtain m1 m2 where l: "load_config m = (Inr c, m1)" "load_config (relay_apply RlRestart m) = (Inr c, m2)"
    using c restart_load [OF ok] by (metis prod.collapse)
  have "\<exists>r. dget (rf_relays c) (rf_default c) = Some r" "\<exists>r. dget (rf_relays c) ''public'' = Some r"
    using c(2) by (auto simp: relays_ok_def has_key_iff)
  then show ?thesis
    unfolding m_def [symmetric] Let_def
    using l by (auto simp: get_default_relay_def get_relay_def list_relays_def resolve_relay_def with_config_def)
qed

end
