(* ===== verification/Ent_Namespace.thy ===== *)
theory Ent_Namespace
  imports Json_Text
begin

text \<open>
  \<^verbatim>\<open>src/wh/enterprise/namespace.py\<close>: tenant namespaces and their manager, the YAML files of its data
  directory included (a file is modelled by the value it holds). \<^verbatim>\<open>ns_apply\<close> is one call of the
  manager; the invariant \<^verbatim>\<open>manager_ok\<close> ties the namespaces in memory to the files, so that a
  restarted manager has the same namespaces.
\<close>

section \<open>Namespaces\<close>

record namespace =
  ns_name :: string
  ns_created_at :: string
  ns_description :: "string option"
  ns_dht_prefix :: string
  ns_admins :: "string list"
  ns_members :: "string list"
  ns_public :: bool
  ns_max_members :: "int option"
  ns_metadata :: jdict

definition hex_string :: "bytes \<Rightarrow> string" where
  "hex_string bs = concat (map (\<lambda>b. [hex_digit (unat b div 16), hex_digit (unat b mod 16)]) bs)"

definition generate_dht_prefix :: "string \<Rightarrow> string" where
  "generate_dht_prefix name = hex_string (take 8 (sha256 (encode_utf8 (''wns-namespace:'' @ name))))"

text \<open>The constructor with \<^verbatim>\<open>__post_init__\<close>: a missing or empty prefix is generated.\<close>

definition make_namespace ::
  "string \<Rightarrow> string \<Rightarrow> string option \<Rightarrow> string option \<Rightarrow> string list \<Rightarrow> string list \<Rightarrow> bool \<Rightarrow>
   int option \<Rightarrow> jdict \<Rightarrow> namespace" where
  "make_namespace name created_at desc prefix admins members public max_members metadata =
     \<lparr>ns_name = name, ns_created_at = created_at, ns_description = desc,
      ns_dht_prefix = (if truthy prefix then the prefix else generate_dht_prefix name),
      ns_admins = admins, ns_members = members, ns_public = public, ns_max_members = max_members,
      ns_metadata = metadata\<rparr>"

definition opt_jint :: "int option \<Rightarrow> jval" where
  "opt_jint x = (case x of None \<Rightarrow> JNull | Some n \<Rightarrow> JInt n)"

definition ns_to_dict :: "namespace \<Rightarrow> jdict" where
  "ns_to_dict ns =
     [(''name'', JStr (ns_name ns)), (''created_at'', JStr (ns_created_at ns)),
      (''description'', opt_jstr (ns_description ns)), (''dht_prefix'', JStr (ns_dht_prefix ns)),
      (''admins'', JList (map JStr (ns_admins ns))), (''members'', JList (map JStr (ns_members ns))),
      (''public'', JBool (ns_public ns)), (''max_members'', opt_jint (ns_max_members ns)),
      (''metadata'', JObj (ns_metadata ns))]"

text \<open>
  The optional fields of \<^verbatim>\<open>from_dict\<close> (fields of other types than the writer's are outside the
  model and read as absent).
\<close>

definition jstr_of :: "jval \<Rightarrow> string option" where
  "jstr_of v = (case v of JStr s \<Rightarrow> Some s | _ \<Rightarrow> None)"

definition jopt_strs :: "jdict \<Rightarrow> string \<Rightarrow> string list" where
  "jopt_strs d k = (case dget d k of Some (JList vs) \<Rightarrow> List.map_filter jstr_of vs | _ \<Rightarrow> [])"

definition jopt_bool :: "jdict \<Rightarrow> string \<Rightarrow> bool \<Rightarrow> bool" where
  "jopt_bool d k dflt = (case dget d k of Some (JBool b) \<Rightarrow> b | _ \<Rightarrow> dflt)"

definition jopt_int :: "jdict \<Rightarrow> string \<Rightarrow> int option" where
  "jopt_int d k = (case dget d k of Some (JInt n) \<Rightarrow> Some n | _ \<Rightarrow> None)"

definition jopt_obj :: "jdict \<Rightarrow> string \<Rightarrow> jdict" where
  "jopt_obj d k = (case dget d k of Some (JObj m) \<Rightarrow> m | _ \<Rightarrow> [])"

definition ns_from_dict :: "string \<Rightarrow> jdict \<Rightarrow> namespace result" where
  "ns_from_dict now d =
     (case jstr d ''name'' of
        Inl e \<Rightarrow> Inl e
      | Inr name \<Rightarrow>
          Inr (make_namespace name
                 (case jopt_str d ''created_at'' of None \<Rightarrow> now | Some t \<Rightarrow> t)
                 (jopt_str d ''description'') (jopt_str d ''dht_prefix'') (jopt_strs d ''admins'')
                 (jopt_strs d ''members'') (jopt_bool d ''public'' False) (jopt_int d ''max_members'')
                 (jopt_obj d ''metadata'')))"

definition is_admin :: "namespace \<Rightarrow> string \<Rightarrow> bool" where
  "is_admin ns i \<longleftrightarrow> i \<in> set (ns_admins ns)"

definition is_member :: "namespace \<Rightarrow> string \<Rightarrow> bool" where
  "is_member ns i \<longleftrightarrow> i \<in> set (ns_members ns) \<or> i \<in> set (ns_admins ns) \<or> ns_public ns"

text \<open>\<^verbatim>\<open>x and n >= x\<close> for an optional limit: no limit and a limit of 0 are false.\<close>

definition limit_reached :: "int option \<Rightarrow> nat \<Rightarrow> bool" where
  "limit_reached lim n \<longleftrightarrow> (case lim of None \<Rightarrow> False | Some m \<Rightarrow> m \<noteq> 0 \<and> m \<le> int n)"

definition can_join :: "namespace \<Rightarrow> string \<Rightarrow> bool" where
  "can_join ns i =
     (if is_member ns i then True
      else if ns_public ns then
        \<not> limit_reached (ns_max_members ns) (length (ns_members ns) + length (ns_admins ns))
      else False)"

section \<open>The manager\<close>

record ns_manager =
  nm_current :: "string option"
  nm_namespaces :: "(string, namespace) dict"
  nm_files :: "(string, jdict) dict"

definition default_namespace :: string where
  "default_namespace = ''default''"

text \<open>\<^verbatim>\<open>_load_namespaces\<close>: the default namespace, then the files; a file that does not load is skipped.\<close>

definition load_file :: "string \<Rightarrow> jdict \<Rightarrow> (string, namespace) dict \<Rightarrow> (string, namespace) dict" where
  "load_file now d nss =
     (case ns_from_dict now d of Inl _ \<Rightarrow> nss | Inr ns \<Rightarrow> dset (ns_name ns) ns nss)"

definition load_namespaces :: "string \<Rightarrow> (string, jdict) dict \<Rightarrow> (string, namespace) dict" where
  "load_namespaces now files =
     fold (load_file now) (dvalues files)
       [(default_namespace,
         make_namespace default_namespace now (Some ''Default namespace'') None [] [] True None [])]"

definition new_manager :: "string \<Rightarrow> (string, jdict) dict \<Rightarrow> ns_manager" where
  "new_manager now files =
     \<lparr>nm_current = None, nm_namespaces = load_namespaces now files, nm_files = files\<rparr>"

definition save_namespace :: "namespace \<Rightarrow> ns_manager \<Rightarrow> ns_manager" where
  "save_namespace ns m =
     m\<lparr>nm_namespaces := dset (ns_name ns) ns (nm_namespaces m),
       nm_files := dset (ns_name ns) (ns_to_dict ns) (nm_files m)\<rparr>"

definition ns_get :: "ns_manager \<Rightarrow> string \<Rightarrow> namespace result" where
  "ns_get m name =
     (case dget (nm_namespaces m) name of None \<Rightarrow> Inl NamespaceNotFoundError | Some ns \<Rightarrow> Inr ns)"

definition ns_create ::
  "string \<Rightarrow> string \<Rightarrow> string option \<Rightarrow> string list option \<Rightarrow> bool \<Rightarrow> int option \<Rightarrow> ns_manager \<Rightarrow>
   namespace result \<times> ns_manager" where
  "ns_create now name desc admins public max_members m =
     (if \<not> dashed_alnum name then (Inl ValueError, m)
      else if has_key (nm_namespaces m) name then (Inl NamespaceExistsError, m)
      else
        (let ns = make_namespace name now desc None (case admins of None \<Rightarrow> [] | Some a \<Rightarrow> a) [] public
                    max_members []
         in (Inr ns, save_namespace ns m)))"

definition ns_delete :: "string \<Rightarrow> bool \<Rightarrow> ns_manager \<Rightarrow> unit result \<times> ns_manager" where
  "ns_delete name force m =
     (if name = default_namespace then (Inl ValueError, m)
      else
        (case ns_get m name of
           Inl e \<Rightarrow> (Inl e, m)
         | Inr ns \<Rightarrow>
             if \<not> force \<and> ns_members ns \<noteq> [] then (Inl ValueError, m)
             else (Inr (), m\<lparr>nm_namespaces := ddel name (nm_namespaces m),
                             nm_files := ddel name (nm_files m)\<rparr>)))"

text \<open>The operations that change one namespace in place and save it.\<close>

definition on_namespace ::
  "string \<Rightarrow> (namespace \<Rightarrow> namespace option result) \<Rightarrow> ns_manager \<Rightarrow> namespace result \<times> ns_manager" where
  "on_namespace name f m =
     (case ns_get m name of
        Inl e \<Rightarrow> (Inl e, m)
      | Inr ns \<Rightarrow>
          (case f ns of
             Inl e \<Rightarrow> (Inl e, m)
           | Inr None \<Rightarrow> (Inr ns, m)
           | Inr (Some ns') \<Rightarrow> (Inr ns', save_namespace ns' m)))"

definition ns_update ::
  "string \<Rightarrow> string option \<Rightarrow> bool option \<Rightarrow> int option \<Rightarrow> ns_manager \<Rightarrow> namespace result \<times> ns_manager" where
  "ns_update name desc public max_members =
     on_namespace name
       (\<lambda>ns. Inr (Some (ns\<lparr>ns_description := (if desc \<noteq> None then desc else ns_description ns),
                           ns_public := (case public of None \<Rightarrow> ns_public ns | Some b \<Rightarrow> b),
                           ns_max_members :=
                             (if max_members \<noteq> None then max_members else ns_max_members ns)\<rparr>)))"

definition add_admin :: "string \<Rightarrow> string \<Rightarrow> ns_manager \<Rightarrow> namespace result \<times> ns_manager" where
  "add_admin name i =
     on_namespace name
       (\<lambda>ns. Inr (if i \<in> set (ns_admins ns) then None else Some (ns\<lparr>ns_admins := ns_admins ns @ [i]\<rparr>)))"

definition remove_admin :: "string \<Rightarrow> string \<Rightarrow> ns_manager \<Rightarrow> namespace result \<times> ns_manager" where
  "remove_admin name i =
     on_namespace name
       (\<lambda>ns. Inr (if i \<in> set (ns_admins ns) then Some (ns\<lparr>ns_admins := remove1 i (ns_admins ns)\<rparr>)
                  else None))"

definition add_member :: "string \<Rightarrow> string \<Rightarrow> ns_manager \<Rightarrow> namespace result \<times> ns_manager" where
  "add_member name i =
     on_namespace name
       (\<lambda>ns. if limit_reached (ns_max_members ns) (length (ns_members ns)) then Inl ValueError
             else Inr (if i \<in> set (ns_members ns) then None
                       else Some (ns\<lparr>ns_members := ns_members ns @ [i]\<rparr>)))"

definition remove_member :: "string \<Rightarrow> string \<Rightarrow> ns_manager \<Rightarrow> namespace result \<times> ns_manager" where
  "remove_member name i =
     on_namespace name
       (\<lambda>ns. Inr (if i \<in> set (ns_members ns) then Some (ns\<lparr>ns_members := remove1 i (ns_members ns)\<rparr>)
                  else None))"

definition get_dht_prefix :: "ns_manager \<Rightarrow> string \<Rightarrow> string result" where
  "get_dht_prefix m name = map_sum id ns_dht_prefix (ns_get m name)"

definition get_current :: "ns_manager \<Rightarrow> namespace result" where
  "get_current m = ns_get m (if truthy (nm_current m) then the (nm_current m) else default_namespace)"

definition set_current :: "string \<Rightarrow> ns_manager \<Rightarrow> unit result \<times> ns_manager" where
  "set_current name m =
     (if has_key (nm_namespaces m) name then (Inr (), m\<lparr>nm_current := Some name\<rparr>)
      else (Inl NamespaceNotFoundError, m))"

definition clear_current :: "ns_manager \<Rightarrow> ns_manager" where
  "clear_current m = m\<lparr>nm_current := None\<rparr>"

definition get_namespace_dht_key :: "ns_manager \<Rightarrow> string \<Rightarrow> string option \<Rightarrow> bytes result" where
  "get_namespace_dht_key m addr nsname =
     map_sum id (\<lambda>ns. sha256 (encode_utf8 (ns_dht_prefix ns @ '':'' @ addr)))
       (if truthy nsname then ns_get m (the nsname) else get_current m)"

section \<open>Calls\<close>

datatype ns_op =
    NsCreate string "string option" "string list option" bool "int option"
  | NsDelete string bool
  | NsUpdate string "string option" "bool option" "int option"
  | NsAddAdmin string string
  | NsRemoveAdmin string string
  | NsAddMember string string
  | NsRemoveMember string string
  | NsSetCurrent string
  | NsClearCurrent

fun ns_apply :: "string \<Rightarrow> ns_op \<Rightarrow> ns_manager \<Rightarrow> ns_manager" where
  "ns_apply now (NsCreate n d a p mx) m = snd (ns_create now n d a p mx m)"
| "ns_apply now (NsDelete n f) m = snd (ns_delete n f m)"
| "ns_apply now (NsUpdate n d p mx) m = snd (ns_update n d p mx m)"
| "ns_apply now (NsAddAdmin n i) m = snd (add_admin n i m)"
| "ns_apply now (NsRemoveAdmin n i) m = snd (remove_admin n i m)"
| "ns_apply now (NsAddMember n i) m = snd (add_member n i m)"
| "ns_apply now (NsRemoveMember n i) m = snd (remove_member n i m)"
| "ns_apply now (NsSetCurrent n) m = snd (set_current n m)"
| "ns_apply now NsClearCurrent m = clear_current m"

section \<open>The namespaces in memory and the files\<close>

lemma generate_dht_prefix_nonempty [simp]: "generate_dht_prefix name \<noteq> []"
  by (simp add: generate_dht_prefix_def hex_string_def) (metis length_sha256 list.size(3) zero_neq_numeral)

lemma map_filter_jstr [simp]: "List.map_filter jstr_of (map JStr xs) = xs"
  by (induction xs) (simp_all add: List.map_filter_def jstr_of_def)

lemma ns_from_to_dict: "ns_dht_prefix ns \<noteq> [] \<Longrightarrow> ns_from_dict now (ns_to_dict ns) = Inr ns"
  by (cases "ns_max_members ns"; cases "ns_description ns")
    (simp_all add: ns_from_dict_def ns_to_dict_def make_namespace_def jstr_def jopt_str_def jopt_strs_def
      jopt_bool_def jopt_int_def jopt_obj_def opt_jstr_def opt_jint_def)

definition manager_ok :: "ns_manager \<Rightarrow> bool" where
  "manager_ok m \<longleftrightarrow>
     distinct (dkeys (nm_files m)) \<and> default_namespace \<in> set (dkeys (nm_namespaces m))
     \<and> (\<forall>k ns. dget (nm_namespaces m) k = Some ns \<longrightarrow>
           ns_name ns = k \<and> ns_dht_prefix ns \<noteq> []
           \<and> (k = default_namespace \<or> k \<in> set (dkeys (nm_files m))))
     \<and> (\<forall>k d. dget (nm_files m) k = Some d \<longrightarrow>
           (\<exists>ns. dget (nm_namespaces m) k = Some ns \<and> d = ns_to_dict ns))"

lemma manager_okD:
  assumes "manager_ok m" "dget (nm_namespaces m) k = Some ns"
  shows "ns_name ns = k" "ns_dht_prefix ns \<noteq> []" "k = default_namespace \<or> k \<in> set (dkeys (nm_files m))"
  using assms by (auto simp: manager_ok_def)

lemma manager_ok_new: "manager_ok (new_manager now [])"
  by (auto simp: manager_ok_def new_manager_def load_namespaces_def make_namespace_def)

lemma manager_ok_save:
  "manager_ok m \<Longrightarrow> ns_dht_prefix ns \<noteq> [] \<Longrightarrow> manager_ok (save_namespace ns m)"
  by (auto simp: manager_ok_def save_namespace_def)

lemma manager_ok_delete:
  "manager_ok m \<Longrightarrow> name \<noteq> default_namespace \<Longrightarrow>
   manager_ok (m\<lparr>nm_namespaces := ddel name (nm_namespaces m), nm_files := ddel name (nm_files m)\<rparr>)"
  by (auto simp: manager_ok_def)

lemma manager_ok_current: "manager_ok m \<Longrightarrow> manager_ok (m\<lparr>nm_current := c\<rparr>)"
  by (simp add: manager_ok_def)

lemma manager_ok_on_namespace:
  assumes "manager_ok m"
    and "\<And>ns ns'. f ns = Inr (Some ns') \<Longrightarrow> ns_dht_prefix ns' = ns_dht_prefix ns"
  shows "manager_ok (snd (on_namespace name f m))"
  using assms manager_okD(2) [OF assms(1)]
  by (auto simp: on_namespace_def ns_get_def split: option.splits sum.splits intro!: manager_ok_save)

lemma manager_ok_apply: "manager_ok m \<Longrightarrow> manager_ok (ns_apply now op m)"
proof (cases op)
  case (NsCreate n d a p mx)
  assume "manager_ok m"
  then show ?thesis
    by (auto simp: NsCreate ns_create_def Let_def make_namespace_def intro!: manager_ok_save)
next
  case (NsDelete n f)
  assume "manager_ok m"
  then show ?thesis
    by (auto simp: NsDelete ns_delete_def split: sum.splits intro!: manager_ok_delete)
qed (auto simp: ns_update_def add_admin_def remove_admin_def add_member_def remove_member_def
      set_current_def clear_current_def intro!: manager_ok_on_namespace manager_ok_current
      split: if_splits)

text \<open>A history of calls on a manager started on an empty directory.\<close>

definition ns_run :: "string \<Rightarrow> (string \<times> ns_op) list \<Rightarrow> ns_manager" where
  "ns_run t0 calls = fold (\<lambda>(t, op). ns_apply t op) calls (new_manager t0 [])"

lemma manager_ok_run: "manager_ok (ns_run t0 calls)"
proof -
  have "manager_ok m \<Longrightarrow> manager_ok (fold (\<lambda>(t, op). ns_apply t op) calls m)" for m
    by (induction calls arbitrary: m) (auto simp: manager_ok_apply)
  then show ?thesis by (simp add: ns_run_def manager_ok_new)
qed

lemma load_files:
  assumes "\<forall>(k, d) \<in> set files. \<exists>ns. mem k = Some ns \<and> d = ns_to_dict ns"
    and "\<And>k ns. mem k = Some ns \<Longrightarrow> ns_name ns = k \<and> ns_dht_prefix ns \<noteq> []"
  shows "dget (fold (load_file now) (dvalues files) acc) k
    = (if k \<in> set (dkeys files) then mem k else dget acc k)"
  using assms(1)
proof (induction files arbitrary: acc)
  case (Cons p files)
  obtain n d where p: "p = (n, d)" by (cases p)
  then obtain ns where ns: "mem n = Some ns" "d = ns_to_dict ns" using Cons.prems by auto
  then have "load_file now d acc = dset n ns acc"
    using assms(2) [OF ns(1)] by (simp add: load_file_def ns_from_to_dict)
  then show ?case using Cons p ns by auto
qed simp

lemma restart_dget:
  assumes "manager_ok m"
  shows "dget (nm_namespaces (new_manager now (nm_files m))) k
    = (if k \<in> set (dkeys (nm_files m)) then dget (nm_namespaces m) k
       else if k = default_namespace then
         Some (make_namespace default_namespace now (Some ''Default namespace'') None [] [] True None [])
       else None)"
proof -
  have "\<forall>(n, d) \<in> set (nm_files m). \<exists>ns. dget (nm_namespaces m) n = Some ns \<and> d = ns_to_dict ns"
    using assms by (auto simp: manager_ok_def)
  then show ?thesis
    using load_files [of "nm_files m" "dget (nm_namespaces m)" now] manager_okD [OF assms]
    by (simp add: new_manager_def load_namespaces_def)
qed

lemma limit_members:
  "fst (add_member name i m) = Inr ns' \<Longrightarrow> ns_get m name = Inr ns \<Longrightarrow>
   ns_max_members ns = Some mx \<Longrightarrow> mx \<noteq> 0 \<Longrightarrow> int (length (ns_members ns')) \<le> mx"
  by (auto simp: add_member_def on_namespace_def limit_reached_def split: if_splits)

section \<open>Properties\<close>

text \<open>
  Whatever calls a manager has handled since it was started on an empty directory, the default
  namespace exists, every namespace is stored under its own name with a non-empty DHT prefix, and a
  manager restarted on the files has exactly the same namespaces; only a default namespace that was
  never saved is built anew.
\<close>

theorem namespaces_survive_restart:
  "let m = ns_run t0 calls; m' = new_manager now (nm_files m) in
   (\<exists>ns. ns_get m default_namespace = Inr ns)
   \<and> (\<forall>k. case ns_get m k of Inl e \<Rightarrow> True | Inr ns \<Rightarrow> ns_name ns = k \<and> ns_dht_prefix ns \<noteq> [])
   \<and> (\<forall>k. ns_get m' k =
        (if k = default_namespace \<and> \<not> has_key (nm_files m) k
         then Inr (make_namespace k now (Some ''Default namespace'') None [] [] True None [])
         else ns_get m k))"
proof -
  define m where "m = ns_run t0 calls"
  have ok: "manager_ok m" by (simp add: m_def manager_ok_run)
  have d: "\<exists>ns. ns_get m default_namespace = Inr ns"
  proof -
    have "dget (nm_namespaces m) default_namespace \<noteq> None"
      using ok by (simp add: manager_ok_def map_of_eq_None_iff)
    then show ?thesis by (auto simp: ns_get_def)
  qed
  have n: "case ns_get m k of Inl e \<Rightarrow> True | Inr ns \<Rightarrow> ns_name ns = k \<and> ns_dht_prefix ns \<noteq> []" for k
    using manager_okD [OF ok, of k] by (simp add: ns_get_def split: option.split)
  have r: "ns_get (new_manager now (nm_files m)) k =
        (if k = default_namespace \<and> \<not> has_key (nm_files m) k
         then Inr (make_namespace k now (Some ''Default namespace'') None [] [] True None [])
         else ns_get m k)" for k
    using manager_okD(3) [OF ok, of k]
    by (cases "dget (nm_namespaces m) k") (auto simp: ns_get_def restart_dget [OF ok] has_key_def)
  show ?thesis using d n r by (simp add: m_def [symmetric])
qed

text \<open>
  Who can join a namespace is who is a member of it: the member limit that \<^verbatim>\<open>can_join\<close> checks for a
  public namespace is never consulted, while adding a member at the limit is refused, for an existing
  member too.
\<close>

theorem join_ignores_limit:
  "(\<forall>ns i. can_join ns i = is_member ns i)
   \<and> (\<forall>m name ns i. ns_get m name = Inr ns \<longrightarrow>
        limit_reached (ns_max_members ns) (length (ns_members ns)) \<longrightarrow>
        add_member name i m = (Inl ValueError, m))"
  by (auto simp: can_join_def is_member_def add_member_def on_namespace_def)

theorem join_ignores_limit_witness:
  "let ns = make_namespace ''lab'' ''t'' None None [] [''a'', ''b''] True (Some 2) [];
       m = \<lparr>nm_current = None, nm_namespaces = [(''lab'', ns)], nm_files = []\<rparr>
   in can_join ns ''c'' \<and> add_member ''lab'' ''a'' m = (Inl ValueError, m)"
  using join_ignores_limit
  by (simp add: Let_def make_namespace_def is_member_def ns_get_def limit_reached_def)

end
