(* ===== verification/Wns_Namespace.thy ===== *)
theory Wns_Namespace
  imports Relay_Config Ent_Namespace
begin

text \<open>
  \<^verbatim>\<open>src/wh/wns/namespace.py\<close>: namespaces scoped by a relay URL, their keys and their encryption.
  PyNaCl's \<^verbatim>\<open>SecretBox\<close> is a parameter: \<^verbatim>\<open>secretbox_ok\<close> states what it documents, that a ciphertext is
  the nonce and 16 bytes longer than the text, and decrypts under its key. Hash values and URLs are
  as in the code. A nonce drawn at random is an argument.
\<close>

record secretbox =
  sb_encrypt :: "bytes \<Rightarrow> bytes \<Rightarrow> bytes \<Rightarrow> bytes"
  sb_decrypt :: "bytes \<Rightarrow> bytes \<Rightarrow> bytes option"

definition secretbox_ok :: "secretbox \<Rightarrow> bool" where
  "secretbox_ok sb \<longleftrightarrow>
     (\<forall>key nonce m. length key = 32 \<longrightarrow> length nonce = 24 \<longrightarrow>
        length (sb_encrypt sb key nonce m) = 24 + 16 + length m
        \<and> sb_decrypt sb key (sb_encrypt sb key nonce m) = Some m)"

definition normalize_url :: "string \<Rightarrow> string" where
  "normalize_url url = rstrip_char CHR ''/'' (lower url)"

definition derive_namespace_key :: "string \<Rightarrow> bytes" where
  "derive_namespace_key url =
     take 32 (sha256 (sha256 (encode_utf8 (normalize_url url)) @ lit ''wns-namespace-v1''))"

definition derive_namespace_id :: "string \<Rightarrow> string" where
  "derive_namespace_id url = take 8 (hex_string (sha256 (derive_namespace_key url)))"

definition relay_dht_key :: "string \<Rightarrow> string \<Rightarrow> bytes" where
  "relay_dht_key addr url =
     sha256 (encode_utf8 addr @ derive_namespace_key url @ lit ''wns-dht-key-v1'')"

definition ns_encrypt :: "secretbox \<Rightarrow> bytes \<Rightarrow> bytes \<Rightarrow> string \<Rightarrow> bytes" where
  "ns_encrypt sb nonce data url = 1 # sb_encrypt sb (derive_namespace_key url) nonce data"

definition ns_decrypt :: "secretbox \<Rightarrow> bytes \<Rightarrow> string \<Rightarrow> bytes option" where
  "ns_decrypt sb data url =
     (if length data < 1 + 24 + 16 then None
      else if hd data \<noteq> 1 then None
      else sb_decrypt sb (derive_namespace_key url) (tl data))"

record namespace_config =
  nc_relay_url :: string
  nc_transit_url :: string
  nc_namespace_key :: bytes
  nc_namespace_id :: string

definition config_from_relay_url :: "string \<Rightarrow> string \<Rightarrow> namespace_config" where
  "config_from_relay_url url transit =
     \<lparr>nc_relay_url = url, nc_transit_url = transit, nc_namespace_key = derive_namespace_key url,
      nc_namespace_id = derive_namespace_id url\<rparr>"

definition key_base64 :: "namespace_config \<Rightarrow> string" where
  "key_base64 c = b64encode (nc_namespace_key c)"

definition resolver_from_relays :: "relay_config list \<Rightarrow> namespace_config list" where
  "resolver_from_relays rs = map (\<lambda>r. config_from_relay_url (rl_mailbox_url r) (rl_transit_url r)) rs"

definition get_dht_keys :: "namespace_config list \<Rightarrow> string \<Rightarrow> (bytes \<times> namespace_config) list" where
  "get_dht_keys nss addr = map (\<lambda>c. (relay_dht_key addr (nc_relay_url c), c)) nss"

definition encrypt_for_all ::
  "secretbox \<Rightarrow> (namespace_config \<Rightarrow> bytes) \<Rightarrow> namespace_config list \<Rightarrow> bytes \<Rightarrow>
   (bytes \<times> namespace_config) list" where
  "encrypt_for_all sb nonce nss data = map (\<lambda>c. (ns_encrypt sb (nonce c) data (nc_relay_url c), c)) nss"

fun try_decrypt :: "secretbox \<Rightarrow> namespace_config list \<Rightarrow> bytes \<Rightarrow> (bytes \<times> namespace_config) option" where
  "try_decrypt sb [] data = None"
| "try_decrypt sb (c # cs) data =
     (case ns_decrypt sb data (nc_relay_url c) of
        Some m \<Rightarrow> Some (m, c)
      | None \<Rightarrow> try_decrypt sb cs data)"

definition encrypt_advertisement :: "secretbox \<Rightarrow> bytes \<Rightarrow> string \<Rightarrow> string \<Rightarrow> bytes" where
  "encrypt_advertisement sb nonce ad_json url = ns_encrypt sb nonce (encode_utf8 ad_json) url"

text \<open>Text that is not UTF-8 raises.\<close>

definition decrypt_advertisement :: "secretbox \<Rightarrow> bytes \<Rightarrow> string \<Rightarrow> string option result" where
  "decrypt_advertisement sb data url =
     (case ns_decrypt sb data url of
        None \<Rightarrow> Inr None
      | Some bs \<Rightarrow> (case decode_utf8 bs of None \<Rightarrow> Inl ValueError | Some s \<Rightarrow> Inr (Some s)))"

section \<open>Lemmas\<close>

lemma length_namespace_key [simp]: "length (derive_namespace_key url) = 32"
  by (simp add: derive_namespace_key_def)

lemma namespace_key_normalized:
  "normalize_url u = normalize_url v \<Longrightarrow> derive_namespace_key u = derive_namespace_key v"
  by (simp add: derive_namespace_key_def)

lemma rstrip_char_replicate: "rstrip_char c (t @ replicate n c) = rstrip_char c t"
proof -
  have "dropWhile (\<lambda>x. x = c) (replicate n c @ u) = dropWhile (\<lambda>x. x = c) u" for u
    by (induction n) simp_all
  then show ?thesis by (simp add: rstrip_char_def)
qed

lemma normalize_slash: "normalize_url (url @ replicate n CHR ''/'') = normalize_url url"
proof -
  have "lower_char CHR ''/'' = CHR ''/''" by (simp add: lower_char_def cp_def)
  then show ?thesis by (simp add: normalize_url_def lower_def map_replicate rstrip_char_replicate)
qed

lemma normalize_lower: "normalize_url (lower url) = normalize_url url"
  by (simp add: normalize_url_def)

lemma ns_decrypt_encrypt:
  assumes "secretbox_ok sb" "length nonce = 24" "normalize_url u = normalize_url v"
  shows "ns_decrypt sb (ns_encrypt sb nonce data u) v = Some data"
  using assms namespace_key_normalized [OF assms(3)]
  by (simp add: ns_decrypt_def ns_encrypt_def secretbox_ok_def)

text \<open>The first namespace of the list that decrypts is the answer.\<close>

lemma try_decrypt_find:
  "try_decrypt sb nss data =
     (case find (\<lambda>c. ns_decrypt sb data (nc_relay_url c) \<noteq> None) nss of
        None \<Rightarrow> None
      | Some c \<Rightarrow> Some (the (ns_decrypt sb data (nc_relay_url c)), c))"
  by (induction nss) (auto split: option.splits)

definition toy_box :: secretbox where
  "toy_box =
     \<lparr>sb_encrypt = (\<lambda>key nonce m. nonce @ take 16 key @ m),
      sb_decrypt = (\<lambda>key c. if take 16 (drop 24 c) = take 16 key then Some (drop 40 c) else None)\<rparr>"

lemma toy_box_ok: "secretbox_ok toy_box"
  by (simp add: secretbox_ok_def toy_box_def)

section \<open>Properties\<close>

text \<open>
  C36. What is encrypted for a relay URL decrypts for every spelling of that URL that differs only in
  case and in trailing slashes, an advertisement comes back as the same text, and a resolver over
  several namespaces finds it: with the first namespace in its list whose key opens the data.
\<close>

theorem namespace_encryption_roundtrip:
  assumes box: "secretbox_ok sb" and nonce: "length nonce = 24"
    and url: "lower v @ replicate n CHR ''/'' = lower u @ replicate m CHR ''/''"
  shows "ns_decrypt sb (ns_encrypt sb nonce data u) v = Some data
    \<and> decrypt_advertisement sb (encrypt_advertisement sb nonce ad_json u) v = Inr (Some ad_json)
    \<and> (\<exists>d c'. try_decrypt sb (pre @ config_from_relay_url v tr # post) (ns_encrypt sb nonce data u)
              = Some (d, c')
          \<and> (d, c') \<in> insert (data, config_from_relay_url v tr)
              {(d, c'). c' \<in> set pre \<and> ns_decrypt sb (ns_encrypt sb nonce data u) (nc_relay_url c') = Some d})"
proof -
  have "normalize_url v = normalize_url u"
    by (metis normalize_lower normalize_slash url)
  then have d: "ns_decrypt sb (ns_encrypt sb nonce x u) v = Some x" for x
    using ns_decrypt_encrypt [OF box nonce, of u v] by simp
  have "\<exists>d c'. try_decrypt sb (pre @ config_from_relay_url v tr # post) y = Some (d, c')
          \<and> (d, c') \<in> insert (x, config_from_relay_url v tr)
              {(d, c'). c' \<in> set pre \<and> ns_decrypt sb y (nc_relay_url c') = Some d}"
    if "ns_decrypt sb y v = Some x" for x y
    using that by (induction pre) (auto simp: config_from_relay_url_def split: option.splits)
  then show ?thesis
    using d by (simp add: decrypt_advertisement_def encrypt_advertisement_def)
qed

theorem namespace_encryption_roundtrip_witness:
  "ns_decrypt toy_box (ns_encrypt toy_box (replicate 24 0) [1, 2, 3] ''ws://Relay/v1/'') ''WS://relay/v1''
     = Some [1, 2, 3]"
proof -
  have u: "lower ''WS://relay/v1'' @ replicate 1 CHR ''/'' = lower ''ws://Relay/v1/'' @ replicate 0 CHR ''/''"
    by code_simp
  show ?thesis
    using namespace_encryption_roundtrip [OF toy_box_ok _ u, of "replicate 24 0" "[1, 2, 3]"] by simp
qed

end
