(* ===== verification/Policy.thy ===== *)
theory Policy
  imports Complex_Main Dht_Node Ent_Namespace
begin

text \<open>
  \<^verbatim>\<open>src/wh/enterprise/policy.py\<close>: rate limits, quotas and rules, the patterns a rule matches, and the
  evaluation of the rules in order of priority. A floating-point number is the rational its literal
  names (binary rounding is not modelled). Addresses written with a colon (IPv6) are left to the
  parameter \<^verbatim>\<open>v6\<close>.
\<close>

section \<open>Numbers\<close>

definition digits_value :: "string \<Rightarrow> int" where
  "digits_value ds = foldl (\<lambda>n c. 10 * n + dec_val c) 0 ds"

definition read_mantissa :: "string \<Rightarrow> rat option" where
  "read_mantissa m =
     (let (a, b) = (if CHR ''.'' \<in> set m then split1 CHR ''.'' m else (m, []))
      in if a @ b \<noteq> [] \<and> (\<forall>c \<in> set (a @ b). is_dec c)
         then Some (of_int (digits_value (a @ b)) / 10 ^ length b) else None)"

definition ten_to :: "int \<Rightarrow> rat" where
  "ten_to e = (if 0 \<le> e then 10 ^ nat e else 1 / 10 ^ nat (- e))"

definition is_exp_char :: "char \<Rightarrow> bool" where
  "is_exp_char c \<longleftrightarrow> c = CHR ''e'' \<or> c = CHR ''E''"

definition read_ufloat :: "string \<Rightarrow> rat option" where
  "read_ufloat s =
     (let m = takeWhile (\<lambda>c. \<not> is_exp_char c) s; rest = dropWhile (\<lambda>c. \<not> is_exp_char c) s
      in case read_mantissa m of
           None \<Rightarrow> None
         | Some q \<Rightarrow>
             (case rest of
                [] \<Rightarrow> Some q
              | _ # e \<Rightarrow> map_option (\<lambda>x. q * ten_to x) (read_signed e)))"

text \<open>
  \<^verbatim>\<open>float(s)\<close>; infinities and NaN, which raise in the caller's conversion to an integer, are refused
  here, and so are underscores between digits.
\<close>

definition read_float :: "string \<Rightarrow> rat option" where
  "read_float s0 =
     (case strip s0 of
        [] \<Rightarrow> None
      | c # t \<Rightarrow>
          if c = CHR ''-'' then map_option uminus (read_ufloat t)
          else if c = CHR ''+'' then read_ufloat t
          else read_ufloat (c # t))"

definition trunc :: "rat \<Rightarrow> int" where
  "trunc q = (if 0 \<le> q then floor q else - floor (- q))"

text \<open>\<^verbatim>\<open>data.get(key)\<close> for a number.\<close>

definition jnum :: "jdict \<Rightarrow> string \<Rightarrow> rat option" where
  "jnum d k =
     (case dget d k of
        Some (JInt n) \<Rightarrow> Some (of_int n)
      | Some (JFloat l) \<Rightarrow> read_float l
      | _ \<Rightarrow> None)"

text \<open>Python's \<^verbatim>\<open>a or b\<close> on optional numbers: \<^const>\<open>None\<close> and 0 are false.\<close>

definition num_or :: "'a::zero option \<Rightarrow> 'a option \<Rightarrow> 'a option" where
  "num_or a b = (if a = None \<or> a = Some 0 then b else a)"

section \<open>Limits and quotas\<close>

record rate_limits =
  connections_per_minute :: "rat option"
  connections_per_hour :: "rat option"
  requests_per_second :: "rat option"
  requests_per_minute :: "rat option"
  bandwidth_mbps :: "rat option"
  burst_multiplier :: rat

definition no_rate_limits :: rate_limits where
  "no_rate_limits =
     \<lparr>connections_per_minute = None, connections_per_hour = None, requests_per_second = None,
      requests_per_minute = None, bandwidth_mbps = None, burst_multiplier = 2\<rparr>"

definition merge_limits :: "rate_limits \<Rightarrow> rate_limits \<Rightarrow> rate_limits" where
  "merge_limits self other =
     \<lparr>connections_per_minute = num_or (connections_per_minute other) (connections_per_minute self),
      connections_per_hour = num_or (connections_per_hour other) (connections_per_hour self),
      requests_per_second = num_or (requests_per_second other) (requests_per_second self),
      requests_per_minute = num_or (requests_per_minute other) (requests_per_minute self),
      bandwidth_mbps = num_or (bandwidth_mbps other) (bandwidth_mbps self),
      burst_multiplier =
        (if burst_multiplier other \<noteq> 2 then burst_multiplier other else burst_multiplier self)\<rparr>"

definition limits_from_dict :: "jdict \<Rightarrow> rate_limits" where
  "limits_from_dict d =
     \<lparr>connections_per_minute = jnum d ''connections_per_minute'',
      connections_per_hour = jnum d ''connections_per_hour'',
      requests_per_second = jnum d ''requests_per_second'',
      requests_per_minute = jnum d ''requests_per_minute'',
      bandwidth_mbps = jnum d ''bandwidth_mbps'',
      burst_multiplier = (case jnum d ''burst_multiplier'' of None \<Rightarrow> 2 | Some q \<Rightarrow> q)\<rparr>"

record quotas =
  max_concurrent_connections :: "int option"
  max_connections_per_day :: "int option"
  max_transfer_bytes_per_day :: "int option"
  max_transfer_bytes_per_month :: "int option"
  max_sessions_per_identity :: "int option"
  max_file_size_bytes :: "int option"

definition no_quotas :: quotas where
  "no_quotas =
     \<lparr>max_concurrent_connections = None, max_connections_per_day = None,
      max_transfer_bytes_per_day = None, max_transfer_bytes_per_month = None,
      max_sessions_per_identity = None, max_file_size_bytes = None\<rparr>"

definition merge_quotas :: "quotas \<Rightarrow> quotas \<Rightarrow> quotas" where
  "merge_quotas self other =
     \<lparr>max_concurrent_connections =
        num_or (max_concurrent_connections other) (max_concurrent_connections self),
      max_connections_per_day = num_or (max_connections_per_day other) (max_connections_per_day self),
      max_transfer_bytes_per_day =
        num_or (max_transfer_bytes_per_day other) (max_transfer_bytes_per_day self),
      max_transfer_bytes_per_month =
        num_or (max_transfer_bytes_per_month other) (max_transfer_bytes_per_month self),
      max_sessions_per_identity =
        num_or (max_sessions_per_identity other) (max_sessions_per_identity self),
      max_file_size_bytes = num_or (max_file_size_bytes other) (max_file_size_bytes self)\<rparr>"

definition size_multipliers :: "(string \<times> int) list" where
  "size_multipliers =
     [(''TB'', 1024 ^ 4), (''GB'', 1024 ^ 3), (''MB'', 1024 ^ 2), (''KB'', 1024), (''B'', 1)]"

definition parse_size_string :: "string \<Rightarrow> int result" where
  "parse_size_string s =
     (let v = upper (strip s) in
      case find (\<lambda>(suffix, factor). endswith v suffix) size_multipliers of
        Some (suffix, factor) \<Rightarrow>
          (case read_float (strip (take (length v - length suffix) v)) of
             None \<Rightarrow> Inl ValueError
           | Some q \<Rightarrow> Inr (trunc (q * of_int factor)))
      | None \<Rightarrow> (case py_int v of None \<Rightarrow> Inl ValueError | Some n \<Rightarrow> Inr n))"

definition parse_size :: "jval option \<Rightarrow> int option result" where
  "parse_size v =
     (case v of
        Some (JInt n) \<Rightarrow> Inr (Some n)
      | Some (JBool b) \<Rightarrow> Inr (Some (of_bool b))
      | Some (JStr s) \<Rightarrow> map_sum id Some (parse_size_string s)
      | _ \<Rightarrow> Inr None)"

text \<open>\<^verbatim>\<open>data.get(k1, data.get(k2))\<close>.\<close>

definition get_either :: "jdict \<Rightarrow> string \<Rightarrow> string \<Rightarrow> jval option" where
  "get_either d k1 k2 = (if has_key d k1 then dget d k1 else dget d k2)"

definition quotas_from_dict :: "jdict \<Rightarrow> quotas result" where
  "quotas_from_dict d =
     (case parse_size (get_either d ''max_transfer_gb_per_day'' ''max_transfer_bytes_per_day'') of
        Inl e \<Rightarrow> Inl e
      | Inr dlim \<Rightarrow>
      (case parse_size (dget d ''max_transfer_bytes_per_month'') of
        Inl e \<Rightarrow> Inl e
      | Inr mlim \<Rightarrow>
      (case parse_size (get_either d ''max_file_size_bytes'' ''max_file_size'') of
        Inl e \<Rightarrow> Inl e
      | Inr flim \<Rightarrow>
          Inr \<lparr>max_concurrent_connections = jopt_int d ''max_concurrent_connections'',
               max_connections_per_day = jopt_int d ''max_connections_per_day'',
               max_transfer_bytes_per_day = dlim, max_transfer_bytes_per_month = mlim,
               max_sessions_per_identity = jopt_int d ''max_sessions_per_identity'',
               max_file_size_bytes = flim\<rparr>)))"

section \<open>Rules\<close>

record policy_rule =
  pr_match :: "(string, string) dict"
  pr_rate_limits :: "rate_limits option"
  pr_quotas :: "quotas option"
  pr_allow :: "string list"
  pr_deny :: "string list"
  pr_priority :: int

definition match_pattern :: "string option \<Rightarrow> string \<Rightarrow> bool" where
  "match_pattern v p =
     (case v of
        None \<Rightarrow> p = ''*''
      | Some s \<Rightarrow>
          if p = ''*'' then True
          else if startswith p ''*'' then endswith s (tl p)
          else if endswith p ''*'' then startswith s (butlast p)
          else s = p)"

text \<open>
  \<^verbatim>\<open>ip_address(ip)\<close> and \<^verbatim>\<open>ip_network(pattern, strict=False)\<close> on dotted quads: the mask is a prefix
  length, a netmask or a host mask.
\<close>

definition prefix_of_mask :: "nat \<Rightarrow> nat option" where
  "prefix_of_mask m = find (\<lambda>p. m = 2 ^ 32 - 2 ^ (32 - p)) [0..<33]"

definition prefix_length :: "string \<Rightarrow> nat option" where
  "prefix_length s =
     (if s \<noteq> [] \<and> (\<forall>c \<in> set s. is_dec c) then
        (if digits_value s \<le> 32 then Some (nat (digits_value s)) else None)
      else
        (case inet_aton s of
           Inl _ \<Rightarrow> None
         | Inr bs \<Rightarrow>
             (case prefix_of_mask (unpack_be bs) of
                Some p \<Rightarrow> Some p
              | None \<Rightarrow> prefix_of_mask (2 ^ 32 - 1 - unpack_be bs))))"

definition ip4_network :: "string \<Rightarrow> (nat \<times> nat) option" where
  "ip4_network s =
     (case split_on CHR ''/'' s of
        [a, m] \<Rightarrow>
          (case (inet_aton a, prefix_length m) of
             (Inr bs, Some p) \<Rightarrow> Some (unpack_be bs div 2 ^ (32 - p), p)
           | _ \<Rightarrow> None)
      | _ \<Rightarrow> None)"

definition match_ip :: "(string \<Rightarrow> string \<Rightarrow> bool) \<Rightarrow> string option \<Rightarrow> string \<Rightarrow> bool" where
  "match_ip v6 ip p =
     (case ip of
        None \<Rightarrow> p = ''*''
      | Some a \<Rightarrow>
          if p = ''*'' then True
          else if CHR '':'' \<in> set a \<or> CHR '':'' \<in> set p then v6 a p
          else
            (case inet_aton a of
               Inl _ \<Rightarrow> False
             | Inr bs \<Rightarrow>
                 if CHR ''/'' \<in> set p then
                   (case ip4_network p of
                      None \<Rightarrow> False
                    | Some (net, len) \<Rightarrow> unpack_be bs div 2 ^ (32 - len) = net)
                 else a = p))"

record policy_context =
  cx_identity :: "string option"
  cx_source_ip :: "string option"
  cx_namespace :: "string option"

definition match_condition :: "(string \<Rightarrow> string \<Rightarrow> bool) \<Rightarrow> policy_context \<Rightarrow> string \<times> string \<Rightarrow> bool" where
  "match_condition v6 cx kp =
     (if fst kp = ''identity'' then match_pattern (cx_identity cx) (snd kp)
      else if fst kp = ''source_ip'' then match_ip v6 (cx_source_ip cx) (snd kp)
      else if fst kp = ''namespace'' then match_pattern (cx_namespace cx) (snd kp)
      else True)"

definition rule_matches :: "(string \<Rightarrow> string \<Rightarrow> bool) \<Rightarrow> policy_context \<Rightarrow> policy_rule \<Rightarrow> bool" where
  "rule_matches v6 cx r \<longleftrightarrow> list_all (match_condition v6 cx) (pr_match r)"

definition jstr_pairs :: "jdict \<Rightarrow> (string, string) dict" where
  "jstr_pairs d = List.map_filter (\<lambda>(k, v). map_option (Pair k) (jstr_of v)) d"

text \<open>A section that is present but not a dictionary has no \<^verbatim>\<open>get\<close>.\<close>

definition opt_section :: "jdict \<Rightarrow> string \<Rightarrow> (jdict \<Rightarrow> 'a result) \<Rightarrow> 'a option result" where
  "opt_section d k f =
     (case dget d k of
        None \<Rightarrow> Inr None
      | Some (JObj m) \<Rightarrow> map_sum id Some (f m)
      | Some _ \<Rightarrow> Inl AttributeError)"

definition rule_from_dict :: "jdict \<Rightarrow> policy_rule result" where
  "rule_from_dict d =
     (case opt_section d ''rate_limits'' (\<lambda>m. Inr (limits_from_dict m)) of
        Inl e \<Rightarrow> Inl e
      | Inr rl \<Rightarrow>
      (case opt_section d ''quotas'' quotas_from_dict of
        Inl e \<Rightarrow> Inl e
      | Inr q \<Rightarrow>
          Inr \<lparr>pr_match = jstr_pairs (jopt_obj d ''match''), pr_rate_limits = rl, pr_quotas = q,
               pr_allow = jopt_strs d ''allow'', pr_deny = jopt_strs d ''deny'',
               pr_priority = (case jopt_int d ''priority'' of None \<Rightarrow> 0 | Some n \<Rightarrow> n)\<rparr>))"

section \<open>The policy\<close>

record policy =
  po_rate_limits :: rate_limits
  po_quotas :: quotas
  po_rules :: "policy_rule list"
  po_defaults :: jdict

definition default_policy :: policy where
  "default_policy =
     \<lparr>po_rate_limits = no_rate_limits, po_quotas = no_quotas, po_rules = [], po_defaults = []\<rparr>"

definition rules_from_dict :: "jdict \<Rightarrow> policy_rule list result" where
  "rules_from_dict d =
     (case dget d ''rules'' of
        None \<Rightarrow> Inr []
      | Some (JList vs) \<Rightarrow>
          seq_results (map (\<lambda>v. case v of JObj m \<Rightarrow> rule_from_dict m | _ \<Rightarrow> Inl TypeError) vs)
      | Some _ \<Rightarrow> Inl TypeError)"

definition policy_from_dict :: "jdict \<Rightarrow> policy result" where
  "policy_from_dict d =
     (case opt_section d ''rate_limits'' (\<lambda>m. Inr (limits_from_dict m)) of
        Inl e \<Rightarrow> Inl e
      | Inr rl \<Rightarrow>
      (case opt_section d ''quotas'' quotas_from_dict of
        Inl e \<Rightarrow> Inl e
      | Inr q \<Rightarrow>
      (case rules_from_dict d of
        Inl e \<Rightarrow> Inl e
      | Inr rs \<Rightarrow>
          Inr \<lparr>po_rate_limits = (case rl of None \<Rightarrow> no_rate_limits | Some l \<Rightarrow> l),
               po_quotas = (case q of None \<Rightarrow> no_quotas | Some x \<Rightarrow> x), po_rules = rs,
               po_defaults = jopt_obj d ''defaults''\<rparr>)))"

text \<open>\<^verbatim>\<open>sorted(rules, key=priority, reverse=True)\<close> is stable.\<close>

definition sorted_rules :: "policy \<Rightarrow> policy_rule list" where
  "sorted_rules p = sort_key (\<lambda>r. - pr_priority r) (po_rules p)"

definition get_rate_limits :: "(string \<Rightarrow> string \<Rightarrow> bool) \<Rightarrow> policy \<Rightarrow> policy_context \<Rightarrow> rate_limits" where
  "get_rate_limits v6 p cx =
     (case find (rule_matches v6 cx) (sorted_rules p) of
        None \<Rightarrow> po_rate_limits p
      | Some r \<Rightarrow>
          (case pr_rate_limits r of
             None \<Rightarrow> po_rate_limits p
           | Some l \<Rightarrow> merge_limits (po_rate_limits p) l))"

definition get_quotas :: "(string \<Rightarrow> string \<Rightarrow> bool) \<Rightarrow> policy \<Rightarrow> policy_context \<Rightarrow> quotas" where
  "get_quotas v6 p cx =
     (case find (rule_matches v6 cx) (sorted_rules p) of
        None \<Rightarrow> po_quotas p
      | Some r \<Rightarrow>
          (case pr_quotas r of None \<Rightarrow> po_quotas p | Some q \<Rightarrow> merge_quotas (po_quotas p) q))"

definition rule_denies :: "string \<Rightarrow> policy_rule \<Rightarrow> bool" where
  "rule_denies action r \<longleftrightarrow> action \<in> set (pr_deny r) \<or> ''*'' \<in> set (pr_deny r)"

definition rule_allows :: "string \<Rightarrow> policy_rule \<Rightarrow> bool" where
  "rule_allows action r \<longleftrightarrow> action \<in> set (pr_allow r) \<or> ''*'' \<in> set (pr_allow r)"

fun allowed_by :: "(string \<Rightarrow> string \<Rightarrow> bool) \<Rightarrow> policy_context \<Rightarrow> string \<Rightarrow> policy_rule list \<Rightarrow> bool" where
  "allowed_by v6 cx action [] = True"
| "allowed_by v6 cx action (r # rs) =
     (if \<not> rule_matches v6 cx r then allowed_by v6 cx action rs
      else if rule_denies action r then False
      else if rule_allows action r then True
      else allowed_by v6 cx action rs)"

definition is_action_allowed :: "(string \<Rightarrow> string \<Rightarrow> bool) \<Rightarrow> policy \<Rightarrow> string \<Rightarrow> policy_context \<Rightarrow> bool" where
  "is_action_allowed v6 p action cx = allowed_by v6 cx action (sorted_rules p)"

definition get_default :: "policy \<Rightarrow> string \<Rightarrow> jval option" where
  "get_default p k = dget (po_defaults p) k"

text \<open>\<^verbatim>\<open>load_policy\<close> on the value of the file, and the first of the default locations that exists.\<close>

definition load_policy :: "jdict option \<Rightarrow> policy result" where
  "load_policy file = (case file of None \<Rightarrow> Inr default_policy | Some d \<Rightarrow> policy_from_dict d)"

fun load_default_policy :: "jdict option list \<Rightarrow> policy result" where
  "load_default_policy [] = Inr default_policy"
| "load_default_policy (f # fs) =
     (case f of Some d \<Rightarrow> load_policy (Some d) | None \<Rightarrow> load_default_policy fs)"

section \<open>The rule that decides\<close>

lemma find_insort_key:
  "sorted (map f zs) \<Longrightarrow> find P (insort_key f a zs) =
     (if P a then (case find P zs of None \<Rightarrow> Some a | Some z \<Rightarrow> if f a \<le> f z then Some a else Some z)
      else find P zs)"
proof (induction zs)
  case (Cons z zs)
  have "f z \<le> f y" if "find P zs = Some y" for y
    using that Cons.prems by (auto simp: find_Some_iff)
  then show ?case using Cons by (auto split: option.splits)
qed simp

text \<open>The first of the satisfying elements with the smallest key.\<close>

definition ranks_first :: "('a \<Rightarrow> bool) \<Rightarrow> ('a \<Rightarrow> 'b::linorder) \<Rightarrow> 'a list \<Rightarrow> 'a \<Rightarrow> bool" where
  "ranks_first P f xs x \<longleftrightarrow>
     (\<exists>pre post. xs = pre @ x # post \<and> P x \<and> (\<forall>y \<in> set pre. P y \<longrightarrow> f x < f y)
        \<and> (\<forall>y \<in> set post. P y \<longrightarrow> f x \<le> f y))"

lemma find_sort_key_ranks:
  assumes "ranks_first P f xs x"
  shows "find P (sort_key f xs) = Some x"
proof -
  obtain pre post where xs: "xs = pre @ x # post" and x: "P x" and
    pre: "\<forall>y \<in> set pre. P y \<longrightarrow> f x < f y" and post: "\<forall>y \<in> set post. P y \<longrightarrow> f x \<le> f y"
    using assms by (auto simp: ranks_first_def)
  have "find P (sort_key f (pre @ x # post)) = Some x" using pre
  proof (induction pre)
    case Nil
    have "f x \<le> f z" if "find P (sort_key f post) = Some z" for z
    proof -
      have "z \<in> set (sort_key f post)" "P z" using that by (auto simp: find_Some_iff) (metis nth_mem length_sort set_sort)
      then show ?thesis using post by simp
    qed
    then show ?case using x by (simp add: find_insort_key split: option.split)
  next
    case (Cons a pre)
    then show ?case by (auto simp: find_insort_key)
  qed
  then show ?thesis by (simp add: xs)
qed

lemma find_sort_key_None: "find P (sort_key f xs) = None \<longleftrightarrow> (\<forall>x \<in> set xs. \<not> P x)"
  by (auto simp: find_None_iff)

lemma ranks_firstD: "ranks_first P f xs x \<Longrightarrow> x \<in> set xs \<and> P x"
  by (auto simp: ranks_first_def)

lemma ranks_first_exists:
  assumes "x \<in> set xs" "P x"
  shows "\<exists>y. ranks_first P f xs y"
  using assms
proof (induction xs arbitrary: x)
  case (Cons a xs)
  show ?case
  proof (cases "\<exists>z \<in> set xs. P z")
    case True
    then obtain y where y: "ranks_first P f xs y" using Cons.IH by blast
    then obtain pre post where d: "xs = pre @ y # post" "P y" "\<forall>z \<in> set pre. P z \<longrightarrow> f y < f z"
      "\<forall>z \<in> set post. P z \<longrightarrow> f y \<le> f z"
      by (auto simp: ranks_first_def)
    show ?thesis
    proof (cases "P a \<and> f a \<le> f y")
      case True
      then have "\<forall>z \<in> set xs. P z \<longrightarrow> f a \<le> f z" using d by fastforce
      then have "ranks_first P f (a # xs) a"
        unfolding ranks_first_def using True by (intro exI [of _ "[]"] exI [of _ xs]) simp
      then show ?thesis ..
    next
      case False
      then have "ranks_first P f (a # xs) y"
        unfolding ranks_first_def using d by (intro exI [of _ "a # pre"] exI [of _ post]) auto
      then show ?thesis ..
    qed
  next
    case False
    then have "ranks_first P f (a # xs) a"
      unfolding ranks_first_def using Cons.prems by (intro exI [of _ "[]"] exI [of _ xs]) auto
    then show ?thesis ..
  qed
qed simp

lemma allowed_by_find:
  "allowed_by v6 cx action rs =
     (case find (\<lambda>r. rule_matches v6 cx r \<and> (rule_denies action r \<or> rule_allows action r)) rs of
        None \<Rightarrow> True
      | Some r \<Rightarrow> \<not> rule_denies action r)"
  by (induction rs) auto

section \<open>Properties\<close>

text \<open>
  C25. Limits and quotas come from one rule: of the rules that match, the one of highest priority, and
  of those the one written first, merged over the policy's own; with no matching rule they are the
  policy's own.
\<close>

theorem policy_limits_first_match:
  "(\<forall>r. ranks_first (rule_matches v6 cx) (\<lambda>r. - pr_priority r) (po_rules p) r \<longrightarrow>
      get_rate_limits v6 p cx = (case pr_rate_limits r of None \<Rightarrow> po_rate_limits p
                                 | Some l \<Rightarrow> merge_limits (po_rate_limits p) l)
      \<and> get_quotas v6 p cx = (case pr_quotas r of None \<Rightarrow> po_quotas p
                              | Some q \<Rightarrow> merge_quotas (po_quotas p) q))
   \<and> ((\<exists>r \<in> set (po_rules p). rule_matches v6 cx r)
      \<longleftrightarrow> (\<exists>r. ranks_first (rule_matches v6 cx) (\<lambda>r. - pr_priority r) (po_rules p) r))
   \<and> ((\<forall>r \<in> set (po_rules p). \<not> rule_matches v6 cx r) \<longrightarrow>
      get_rate_limits v6 p cx = po_rate_limits p \<and> get_quotas v6 p cx = po_quotas p)"
proof (intro conjI allI impI)
  fix r assume "ranks_first (rule_matches v6 cx) (\<lambda>r. - pr_priority r) (po_rules p) r"
  then have f: "find (rule_matches v6 cx) (sorted_rules p) = Some r"
    unfolding sorted_rules_def by (rule find_sort_key_ranks)
  show "get_rate_limits v6 p cx = (case pr_rate_limits r of None \<Rightarrow> po_rate_limits p
                                 | Some l \<Rightarrow> merge_limits (po_rate_limits p) l)"
    by (simp add: get_rate_limits_def f)
  show "get_quotas v6 p cx = (case pr_quotas r of None \<Rightarrow> po_quotas p
                              | Some q \<Rightarrow> merge_quotas (po_quotas p) q)"
    by (simp add: get_quotas_def f)
next
  show "(\<exists>r \<in> set (po_rules p). rule_matches v6 cx r)
      \<longleftrightarrow> (\<exists>r. ranks_first (rule_matches v6 cx) (\<lambda>r. - pr_priority r) (po_rules p) r)"
    using ranks_first_exists ranks_firstD by metis
next
  assume "\<forall>r \<in> set (po_rules p). \<not> rule_matches v6 cx r"
  then have f: "find (rule_matches v6 cx) (sorted_rules p) = None"
    unfolding sorted_rules_def by (simp add: find_sort_key_None)
  show "get_rate_limits v6 p cx = po_rate_limits p" by (simp add: get_rate_limits_def f)
  show "get_quotas v6 p cx = po_quotas p" by (simp add: get_quotas_def f)
qed

definition staff_rule :: policy_rule where
  "staff_rule = \<lparr>pr_match = [(''identity'', ''*@corp'')], pr_rate_limits = None, pr_quotas = None,
     pr_allow = [''ssh''], pr_deny = [], pr_priority = 5\<rparr>"

definition no_ssh_rule :: policy_rule where
  "no_ssh_rule = \<lparr>pr_match = [(''source_ip'', ''10.0.0.0/8'')], pr_rate_limits = Some no_rate_limits,
     pr_quotas = None, pr_allow = [], pr_deny = [''*''], pr_priority = 1\<rparr>"

definition toy_policy :: policy where
  "toy_policy = \<lparr>po_rate_limits = no_rate_limits, po_quotas = no_quotas,
     po_rules = [no_ssh_rule, staff_rule], po_defaults = []\<rparr>"

definition toy_context :: policy_context where
  "toy_context = \<lparr>cx_identity = Some ''a@corp'', cx_source_ip = Some ''10.1.2.3'', cx_namespace = None\<rparr>"

lemma toy_matches: "rule_matches (\<lambda>_ _. False) toy_context staff_rule"
  by code_simp

lemma toy_priorities: "pr_priority staff_rule = 5" "pr_priority no_ssh_rule = 1"
  "pr_rate_limits staff_rule = None" "po_rules toy_policy = [no_ssh_rule] @ staff_rule # []"
  "po_rate_limits toy_policy = no_rate_limits"
  by (simp_all add: staff_rule_def no_ssh_rule_def toy_policy_def)

theorem policy_limits_first_match_witness:
  "get_rate_limits (\<lambda>_ _. False) toy_policy toy_context = no_rate_limits"
proof -
  have "ranks_first (rule_matches (\<lambda>_ _. False) toy_context) (\<lambda>r. - pr_priority r) (po_rules toy_policy)
      staff_rule"
    unfolding ranks_first_def
    by (rule exI [of _ "[no_ssh_rule]"], rule exI [of _ "[]"])
      (simp add: toy_priorities toy_matches)
  then show ?thesis
    using policy_limits_first_match [of "\<lambda>_ _. False" toy_context toy_policy] toy_priorities
    by auto
qed

text \<open>
  An action is refused exactly when, of the matching rules that name it (or everything) in an
  allow or a deny list, the one of highest priority, first written, denies it. So a policy without
  deny lists refuses nothing, whatever its allow lists say.
\<close>

theorem policy_refusal:
  "(\<not> is_action_allowed v6 p action cx \<longleftrightarrow>
      (\<exists>r. ranks_first (\<lambda>r. rule_matches v6 cx r \<and> (rule_denies action r \<or> rule_allows action r))
             (\<lambda>r. - pr_priority r) (po_rules p) r
         \<and> rule_denies action r))
   \<and> (list_all (\<lambda>r. pr_deny r = []) (po_rules p) \<longrightarrow> is_action_allowed v6 p action cx)"
proof -
  let ?P = "\<lambda>r. rule_matches v6 cx r \<and> (rule_denies action r \<or> rule_allows action r)"
  let ?f = "\<lambda>r. - pr_priority r"
  have eq: "\<not> is_action_allowed v6 p action cx \<longleftrightarrow>
      (\<exists>r. ranks_first ?P ?f (po_rules p) r \<and> rule_denies action r)"
  proof (cases "\<exists>r \<in> set (po_rules p). ?P r")
    case True
    then obtain x where x: "x \<in> set (po_rules p)" "?P x" by blast
    obtain r where r: "ranks_first ?P ?f (po_rules p) r"
      using ranks_first_exists [where P = ?P and f = ?f, OF x] ..
    have u: "r' = r" if "ranks_first ?P ?f (po_rules p) r'" for r'
      using find_sort_key_ranks [OF that] find_sort_key_ranks [OF r] by simp
    have "is_action_allowed v6 p action cx \<longleftrightarrow> \<not> rule_denies action r"
      unfolding is_action_allowed_def allowed_by_find sorted_rules_def find_sort_key_ranks [OF r]
      by simp
    then show ?thesis using r u by blast
  next
    case False
    then have "find ?P (sorted_rules p) = None" by (simp add: sorted_rules_def find_None_iff)
    then have "is_action_allowed v6 p action cx"
      unfolding is_action_allowed_def allowed_by_find by simp
    moreover have "\<not> ranks_first ?P ?f (po_rules p) r" for r using False by (auto simp: ranks_first_def)
    ultimately show ?thesis by blast
  qed
  have "is_action_allowed v6 p action cx" if "list_all (\<lambda>r. pr_deny r = []) (po_rules p)"
  proof -
    have "\<not> (\<exists>r. ranks_first ?P ?f (po_rules p) r \<and> rule_denies action r)"
      using that by (auto simp: ranks_first_def rule_denies_def list_all_iff)
    then show ?thesis using eq by blast
  qed
  then show ?thesis using eq by blast
qed

theorem policy_refusal_witness:
  "is_action_allowed (\<lambda>_ _. False) (toy_policy\<lparr>po_rules := [staff_rule]\<rparr>) ''mount'' toy_context"
  using policy_refusal [of "\<lambda>_ _. False" "toy_policy\<lparr>po_rules := [staff_rule]\<rparr>" "''mount''" toy_context]
  by (simp add: staff_rule_def)

end
