(* ===== verification/Dht_Service.thy ===== *)
theory Dht_Service
  imports Advertisement Dht_Node Wns_Namespace Sha1
begin

text \<open>
  The service over the DHT node of \<^verbatim>\<open>src/wh/wns/dht.py\<close>: keys and bootstrap lists, the advertisement
  server, and the nodes that publish and look up advertisements. The environment variables, the
  nodes found over HTTP and mDNS, the DHT network and the peers' advertisement servers are
  arguments; one request and its reply are one step.
\<close>

section \<open>Keys\<close>

definition wns_address_to_info_hash :: "string \<Rightarrow> bytes" where
  "wns_address_to_info_hash addr = sha1 (sha256 (encode_utf8 addr))"

definition dht_namespace_key :: "string \<Rightarrow> string \<Rightarrow> bytes" where
  "dht_namespace_key addr relay_url = sha1 (sha256 (encode_utf8 (relay_url @ '':'' @ addr)))"

definition address_to_dht_key ::
  "ns_manager \<Rightarrow> string \<Rightarrow> string option \<Rightarrow> string option \<Rightarrow> bytes result" where
  "address_to_dht_key nm addr relay_url namespace =
     (if truthy namespace then get_namespace_dht_key nm addr namespace
      else if truthy relay_url then Inr (dht_namespace_key addr (the relay_url))
      else Inr (wns_address_to_info_hash addr))"

definition xor_for_namespace :: "bytes \<Rightarrow> string \<Rightarrow> bytes" where
  "xor_for_namespace data relay_url =
     (let key = sha256 (encode_utf8 relay_url)
      in map (\<lambda>i. data ! i XOR key ! (i mod length key)) [0..<length data])"

definition unxor_for_namespace :: "bytes \<Rightarrow> string \<Rightarrow> bytes option" where
  "unxor_for_namespace data relay_url = Some (xor_for_namespace data relay_url)"

section \<open>Bootstrap nodes\<close>

type_synonym host_port = "string \<times> int"

definition default_dht_port :: int where
  "default_dht_port = 6881"

definition public_bootstrap_nodes :: "host_port list" where
  "public_bootstrap_nodes =
     [(''router.bittorrent.com'', 6881), (''dht.transmissionbt.com'', 6881),
      (''router.utorrent.com'', 6881), (''dht.aelitis.com'', 6881)]"

definition parse_bootstrap_part :: "string \<Rightarrow> host_port list" where
  "parse_bootstrap_part part0 =
     (let part = strip part0 in
      if CHR '':'' \<in> set part then
        (let (host, port) = rsplit1 CHR '':'' part
         in case py_int port of None \<Rightarrow> [] | Some n \<Rightarrow> [(host, n)])
      else if part \<noteq> [] then [(part, default_dht_port)]
      else [])"

definition parse_bootstrap_nodes_env :: "string \<Rightarrow> host_port list" where
  "parse_bootstrap_nodes_env env =
     (if env = [] then [] else concat (map parse_bootstrap_part (split_on CHR '','' env)))"

definition use_public_bootstrap_env :: "string \<Rightarrow> bool" where
  "use_public_bootstrap_env env = (lower env \<notin> {''false'', ''0'', ''no''})"

text \<open>\<^verbatim>\<open>if node not in seen: nodes.append(node); seen.add(node)\<close>, over a list.\<close>

definition add_unseen :: "host_port list \<Rightarrow> host_port list \<Rightarrow> host_port list" where
  "add_unseen new nodes = fold sadd new nodes"

record dht_env =
  env_nodes :: string
  env_public :: string

definition get_all_bootstrap_nodes :: "dht_env \<Rightarrow> host_port list \<Rightarrow> bool \<Rightarrow> host_port list" where
  "get_all_bootstrap_nodes env custom use_public =
     (let nodes = add_unseen custom (add_unseen (parse_bootstrap_nodes_env (env_nodes env)) [])
      in if use_public \<and> use_public_bootstrap_env (env_public env)
         then add_unseen public_bootstrap_nodes nodes else nodes)"

text \<open>\<^verbatim>\<open>fetched\<close> and \<^verbatim>\<open>local\<close>: what the HTTP and mDNS searches return, \<^const>\<open>None\<close> when they raise.\<close>

definition get_bootstrap_nodes ::
  "dht_env \<Rightarrow> host_port list \<Rightarrow> string list \<Rightarrow> bool \<Rightarrow> bool \<Rightarrow>
   (string list \<Rightarrow> host_port list option) \<Rightarrow> host_port list option \<Rightarrow> host_port list" where
  "get_bootstrap_nodes env static_nodes urls use_mdns use_public fetched local_nodes =
     (let nodes = get_all_bootstrap_nodes env static_nodes use_public;
          nodes' = (if urls \<noteq> [] then
                      (case fetched urls of None \<Rightarrow> nodes | Some ns \<Rightarrow> add_unseen ns nodes) else nodes)
      in if use_mdns then
           (case local_nodes of None \<Rightarrow> nodes' | Some ns \<Rightarrow> add_unseen ns nodes')
         else nodes')"

section \<open>The configuration\<close>

record dht_config =
  cfg_port :: int
  cfg_advertise_port :: int
  cfg_bootstrap_nodes :: "host_port list"
  cfg_bootstrap_urls :: "string list"
  cfg_use_mdns :: bool
  cfg_use_public :: bool
  cfg_auto_bootstrap :: bool
  cfg_ttl_seconds :: int
  cfg_republish_interval :: int
  cfg_announce_interval :: int
  cfg_relay_url :: "string option"
  cfg_encrypt :: bool

definition post_init_config :: "dht_config \<Rightarrow> dht_config" where
  "post_init_config c =
     (if truthy (cfg_relay_url c) \<and> \<not> cfg_encrypt c then c\<lparr>cfg_encrypt := True\<rparr> else c)"

section \<open>The advertisement server\<close>

record ad_server =
  srv_port :: int
  srv_ads :: "(string, advertisement) dict"
  srv_running :: bool

definition new_ad_server :: "int \<Rightarrow> ad_server" where
  "new_ad_server port = \<lparr>srv_port = port, srv_ads = [], srv_running = False\<rparr>"

definition add_advertisement :: "string \<Rightarrow> advertisement \<Rightarrow> ad_server \<Rightarrow> ad_server" where
  "add_advertisement a ad s = s\<lparr>srv_ads := dset a ad (srv_ads s)\<rparr>"

definition remove_advertisement :: "string \<Rightarrow> ad_server \<Rightarrow> ad_server" where
  "remove_advertisement a s = s\<lparr>srv_ads := ddel a (srv_ads s)\<rparr>"

definition get_advertisement :: "ad_server \<Rightarrow> string \<Rightarrow> advertisement option" where
  "get_advertisement s a = dget (srv_ads s) a"

text \<open>\<^verbatim>\<open>bound\<close> is the port the socket is bound to, when 0 was asked for.\<close>

definition start_ad_server :: "int \<Rightarrow> ad_server \<Rightarrow> ad_server" where
  "start_ad_server bound s =
     (if srv_running s then s
      else s\<lparr>srv_port := (if srv_port s = 0 then bound else srv_port s), srv_running := True\<rparr>)"

definition stop_ad_server :: "ad_server \<Rightarrow> ad_server" where
  "stop_ad_server s = s\<lparr>srv_running := False\<rparr>"

interpretation served: kv_store get_advertisement add_advertisement remove_advertisement
  by unfold_locales (simp_all add: get_advertisement_def add_advertisement_def remove_advertisement_def)

text \<open>
  \<^verbatim>\<open>StreamReader.readline\<close> on everything a peer sends: up to the first line feed or the end, and an
  exception for a line over the reader's limit.
\<close>

definition newline :: byte where
  "newline = 10"

definition stream_limit :: nat where
  "stream_limit = 65536"

definition readline :: "bytes \<Rightarrow> bytes result" where
  "readline data =
     (let line = takeWhile (\<lambda>b. b \<noteq> newline) data in
      if length line > stream_limit then Inl ValueError
      else Inr (if newline \<in> set data then line @ [newline] else line))"

text \<open>
  \<^verbatim>\<open>_handle_client\<close>: the bytes written to a client that sent \<^verbatim>\<open>data\<close>; an exception ends the
  connection with nothing written.
\<close>

definition handle_client :: "datetime \<Rightarrow> ad_server \<Rightarrow> bytes \<Rightarrow> bytes" where
  "handle_client now s data =
     (case readline data of
        Inl _ \<Rightarrow> []
      | Inr line \<Rightarrow>
          if line = [] then []
          else
            (case decode_utf8 line of
               None \<Rightarrow> []
             | Some text0 \<Rightarrow>
                 (let request = strip text0 in
                  if startswith request ''GET '' then
                    (case get_advertisement s (strip (drop 4 request)) of
                       None \<Rightarrow> lit ''NOT_FOUND'' @ [newline]
                     | Some ad \<Rightarrow>
                         (case ad_is_expired now ad of
                            Inl _ \<Rightarrow> []
                          | Inr True \<Rightarrow> lit ''NOT_FOUND'' @ [newline]
                          | Inr False \<Rightarrow> encode_utf8 (ad_to_json ad) @ [newline]))
                  else lit ''ERROR: Unknown command'' @ [newline])))"

section \<open>Fetching and looking up\<close>

text \<open>The advertisement servers of the peers: what a request is answered, \<^const>\<open>None\<close> on failure.\<close>

type_synonym ad_net = "addr \<Rightarrow> bytes \<Rightarrow> bytes option"

text \<open>\<^verbatim>\<open>_fetch_advertisement\<close>, of the node and of the client: an exception is no advertisement.\<close>

definition fetch_advertisement :: "ad_net \<Rightarrow> addr \<Rightarrow> string \<Rightarrow> advertisement option" where
  "fetch_advertisement net peer a =
     (case net peer (encode_utf8 (''GET '' @ a @ [CHR 0x0A])) of
        None \<Rightarrow> None
      | Some reply \<Rightarrow>
          (case readline reply of
             Inl _ \<Rightarrow> None
           | Inr line \<Rightarrow>
               (case decode_utf8 line of
                  None \<Rightarrow> None
                | Some text0 \<Rightarrow>
                    (let response = strip text0 in
                     if response = ''NOT_FOUND'' \<or> startswith response ''ERROR'' then None
                     else (case ad_from_json response of Inl _ \<Rightarrow> None | Inr ad \<Rightarrow> Some ad)))))"

text \<open>The loop over the peers: an exception of the verification goes on to the next peer.\<close>

definition usable_ad :: "nacl \<Rightarrow> datetime \<Rightarrow> string \<Rightarrow> advertisement \<Rightarrow> bool" where
  "usable_ad nc now a ad \<longleftrightarrow>
     verify_ad nc now ad (Some a) = Inr True \<and> ad_is_expired now ad = Inr False"

fun try_peers :: "nacl \<Rightarrow> datetime \<Rightarrow> ad_net \<Rightarrow> string \<Rightarrow> addr list \<Rightarrow> advertisement option" where
  "try_peers nc now net a [] = None"
| "try_peers nc now net a (peer # peers) =
     (case fetch_advertisement net peer a of
        None \<Rightarrow> try_peers nc now net a peers
      | Some ad \<Rightarrow> if usable_ad nc now a ad then Some ad else try_peers nc now net a peers)"

definition lookup_on ::
  "nacl \<Rightarrow> datetime \<Rightarrow> network \<Rightarrow> ad_net \<Rightarrow> dht_node \<Rightarrow> string \<Rightarrow>
   (advertisement option result \<times> dht_node) option" where
  "lookup_on nc now net adnet n a =
     (case get_peers net n (wns_address_to_info_hash a) 50 of
        None \<Rightarrow> None
      | Some (Inl e) \<Rightarrow> Some (Inl e, n)
      | Some (Inr (peers, n')) \<Rightarrow> Some (Inr (try_peers nc now adnet a peers), n'))"

section \<open>The node that publishes\<close>

record wns_node =
  wn_config :: dht_config
  wn_dht :: "dht_node option"
  wn_server :: "ad_server option"
  wn_running :: bool
  wn_published :: "(string, advertisement) dict"
  wn_callback :: "(string \<Rightarrow> advertisement option result) option"
  wn_republishing :: bool

definition new_wns_node :: "dht_config \<Rightarrow> wns_node" where
  "new_wns_node c =
     \<lparr>wn_config = c, wn_dht = None, wn_server = None, wn_running = False, wn_published = [],
      wn_callback = None, wn_republishing = False\<rparr>"

record outside =
  ou_env :: dht_env
  ou_fetched :: "string list \<Rightarrow> host_port list option"
  ou_local :: "host_port list option"
  ou_net :: network
  ou_resolve :: "string \<Rightarrow> int \<Rightarrow> string option"
  ou_bound :: int

definition bootstrap_list :: "outside \<Rightarrow> dht_config \<Rightarrow> host_port list" where
  "bootstrap_list ou c =
     (if cfg_auto_bootstrap c then
        get_bootstrap_nodes (ou_env ou) (cfg_bootstrap_nodes c) (cfg_bootstrap_urls c) (cfg_use_mdns c)
          (cfg_use_public c) (ou_fetched ou) (ou_local ou)
      else get_all_bootstrap_nodes (ou_env ou) (cfg_bootstrap_nodes c) (cfg_use_public c))"

definition start_wns_node :: "outside \<Rightarrow> bytes \<Rightarrow> bytes \<Rightarrow> wns_node \<Rightarrow> wns_node" where
  "start_wns_node ou nid tok w =
     (if wn_running w then w
      else
        (let n = new_node nid tok;
             hosts = bootstrap_list ou (wn_config w);
             n' = (if hosts \<noteq> [] then snd (bootstrap (ou_net ou) (ou_resolve ou) hosts n 0) else n)
         in w\<lparr>wn_dht := Some n',
              wn_server := Some (start_ad_server (ou_bound ou) (new_ad_server (cfg_advertise_port (wn_config w)))),
              wn_running := True\<rparr>))"

definition stop_wns_node :: "wns_node \<Rightarrow> wns_node" where
  "stop_wns_node w =
     (if \<not> wn_running w then w
      else w\<lparr>wn_dht := None, wn_server := None, wn_running := False, wn_republishing := False\<rparr>)"

definition publish :: "nacl \<Rightarrow> datetime \<Rightarrow> network \<Rightarrow> advertisement \<Rightarrow> wns_node \<Rightarrow> bool result \<times> wns_node" where
  "publish nc now net ad w =
     (case (wn_running w, wn_dht w, wn_server w) of
        (True, Some n, Some s) \<Rightarrow>
          (case verify_ad nc now ad None of
             Inl e \<Rightarrow> (Inl e, w)
           | Inr False \<Rightarrow> (Inl ValueError, w)
           | Inr True \<Rightarrow>
               (let s' = add_advertisement (ad_address ad) ad s in
                (case announce net n (wns_address_to_info_hash (ad_address ad)) (srv_port s') False of
                   (Inl e, n') \<Rightarrow> (Inl e, w\<lparr>wn_dht := Some n', wn_server := Some s'\<rparr>)
                 | (Inr _, n') \<Rightarrow>
                     (Inr True, w\<lparr>wn_dht := Some n', wn_server := Some s',
                                  wn_published := dset (ad_address ad) ad (wn_published w)\<rparr>))))
      | _ \<Rightarrow> (Inl RuntimeError, w))"

definition wns_lookup ::
  "nacl \<Rightarrow> datetime \<Rightarrow> network \<Rightarrow> ad_net \<Rightarrow> string \<Rightarrow> wns_node \<Rightarrow>
   (advertisement option result \<times> wns_node) option" where
  "wns_lookup nc now net adnet a w =
     (case (wn_running w, wn_dht w) of
        (True, Some n) \<Rightarrow>
          map_option (\<lambda>(r, n'). (r, w\<lparr>wn_dht := Some n'\<rparr>)) (lookup_on nc now net adnet n a)
      | _ \<Rightarrow> Some (Inl RuntimeError, w))"

text \<open>One turn of the republishing loop and one of the announcing loop.\<close>

definition republish_one :: "string \<Rightarrow> wns_node \<Rightarrow> wns_node" where
  "republish_one a w =
     (case (case wn_callback w of Some f \<Rightarrow> f a | None \<Rightarrow> Inr (dget (wn_published w) a)) of
        Inr (Some ad) \<Rightarrow> w\<lparr>wn_server := map_option (add_advertisement a ad) (wn_server w)\<rparr>
      | _ \<Rightarrow> w)"

definition republish_turn :: "wns_node \<Rightarrow> wns_node" where
  "republish_turn w = (if wn_running w then fold republish_one (dkeys (wn_published w)) w else w)"

definition announce_one :: "network \<Rightarrow> string \<Rightarrow> wns_node \<Rightarrow> wns_node" where
  "announce_one net a w =
     (case (wn_dht w, wn_server w) of
        (Some n, Some s) \<Rightarrow>
          w\<lparr>wn_dht := Some (snd (announce net n (wns_address_to_info_hash a) (srv_port s) False))\<rparr>
      | _ \<Rightarrow> w)"

definition announce_turn :: "network \<Rightarrow> wns_node \<Rightarrow> wns_node" where
  "announce_turn net w =
     (if wn_running w then fold (announce_one net) (dkeys (wn_published w)) w else w)"

section \<open>The client that only looks up\<close>

record dht_client =
  dc_nodes :: "host_port list"
  dc_urls :: "string list"
  dc_relay_urls :: "string list"
  dc_auto :: bool
  dc_mdns :: bool
  dc_public :: bool
  dc_dht :: "dht_node option"
  dc_running :: bool

definition start_dht_client :: "outside \<Rightarrow> bytes \<Rightarrow> bytes \<Rightarrow> dht_client \<Rightarrow> dht_client" where
  "start_dht_client ou nid tok c =
     (if dc_running c then c
      else
        (let n = new_node nid tok;
             hosts = (if dc_auto c then
                        get_bootstrap_nodes (ou_env ou) (dc_nodes c) (dc_urls c) (dc_mdns c) (dc_public c)
                          (ou_fetched ou) (ou_local ou)
                      else get_all_bootstrap_nodes (ou_env ou) (dc_nodes c) (dc_public c));
             n' = (if hosts \<noteq> [] then snd (bootstrap (ou_net ou) (ou_resolve ou) hosts n 0) else n)
         in c\<lparr>dc_dht := Some n', dc_running := True\<rparr>))"

definition stop_dht_client :: "dht_client \<Rightarrow> dht_client" where
  "stop_dht_client c = c\<lparr>dc_dht := None, dc_running := False\<rparr>"

definition add_relay_namespace :: "string \<Rightarrow> dht_client \<Rightarrow> dht_client" where
  "add_relay_namespace url c =
     (if url \<in> set (dc_relay_urls c) then c else c\<lparr>dc_relay_urls := dc_relay_urls c @ [url]\<rparr>)"

text \<open>The client's own fetch and loop over the peers.\<close>

definition client_fetch :: "ad_net \<Rightarrow> addr \<Rightarrow> string \<Rightarrow> advertisement option" where
  "client_fetch net peer a =
     (case net peer (encode_utf8 (''GET '' @ a @ [CHR 0x0A])) of
        None \<Rightarrow> None
      | Some reply \<Rightarrow>
          (case readline reply of
             Inl _ \<Rightarrow> None
           | Inr line \<Rightarrow>
               (case decode_utf8 line of
                  None \<Rightarrow> None
                | Some text0 \<Rightarrow>
                    (let response = strip text0 in
                     if response = ''NOT_FOUND'' \<or> response = [] \<or> startswith response ''ERROR'' then None
                     else (case ad_from_json response of Inl _ \<Rightarrow> None | Inr ad \<Rightarrow> Some ad)))))"

fun client_try_peers :: "nacl \<Rightarrow> datetime \<Rightarrow> ad_net \<Rightarrow> string \<Rightarrow> addr list \<Rightarrow> advertisement option" where
  "client_try_peers nc now net a [] = None"
| "client_try_peers nc now net a (peer # peers) =
     (case client_fetch net peer a of
        None \<Rightarrow> client_try_peers nc now net a peers
      | Some ad \<Rightarrow>
          (case verify_ad nc now ad (Some a) of
             Inr True \<Rightarrow>
               (case ad_is_expired now ad of
                  Inr False \<Rightarrow> Some ad
                | _ \<Rightarrow> client_try_peers nc now net a peers)
           | _ \<Rightarrow> client_try_peers nc now net a peers))"

definition client_lookup ::
  "nacl \<Rightarrow> datetime \<Rightarrow> network \<Rightarrow> ad_net \<Rightarrow> string \<Rightarrow> dht_client \<Rightarrow>
   (advertisement option result \<times> dht_client) option" where
  "client_lookup nc now net adnet a c =
     (case (dc_running c, dc_dht c) of
        (True, Some n) \<Rightarrow>
          (case get_peers net n (wns_address_to_info_hash a) 50 of
             None \<Rightarrow> None
           | Some (Inl e) \<Rightarrow> Some (Inl e, c)
           | Some (Inr (peers, n')) \<Rightarrow>
               Some (Inr (client_try_peers nc now adnet a peers), c\<lparr>dc_dht := Some n'\<rparr>))
      | _ \<Rightarrow> Some (Inl RuntimeError, c))"

text \<open>\<^verbatim>\<open>lookup_multi_namespace\<close> looks in the plain namespace only.\<close>

definition client_lookup_multi ::
  "nacl \<Rightarrow> datetime \<Rightarrow> network \<Rightarrow> ad_net \<Rightarrow> string \<Rightarrow> dht_client \<Rightarrow>
   ((advertisement \<times> string option) option result \<times> dht_client) option" where
  "client_lookup_multi nc now net adnet a c =
     map_option (apfst (map_sum id (map_option (\<lambda>ad. (ad, None))))) (client_lookup nc now net adnet a c)"

section \<open>Lemmas\<close>

lemma length_info_hash [simp]: "length (wns_address_to_info_hash a) = 20"
  by (simp add: wns_address_to_info_hash_def)

lemma xor_for_namespace_involution: "xor_for_namespace (xor_for_namespace data u) u = data"
  by (rule nth_equalityI) (simp_all add: xor_for_namespace_def Let_def xor.assoc)

lemma add_unseen_remdups: "add_unseen new (rev (remdups (rev xs))) = rev (remdups (rev (xs @ new)))"
proof (induction new rule: rev_induct)
  case (snoc x new)
  then show ?case by (simp add: add_unseen_def sadd_def)
qed (simp add: add_unseen_def)

lemma get_peers_total:
  "length h = 20 \<Longrightarrow> \<exists>peers n'. get_peers net n h k = Some (Inr (peers, n'))"
  using get_peers_loop_ends [of "wire_addrs \<union> set (take 8 (map snd (routing n)))"] finite_wire_addrs
  by (fastforce simp: get_peers_def)

lemma try_peers_Some:
  "try_peers nc now net a peers = Some ad \<Longrightarrow>
   usable_ad nc now a ad \<and> (\<exists>p \<in> set peers. fetch_advertisement net p a = Some ad)"
  by (induction peers) (auto split: option.splits if_splits)

lemma try_peers_None:
  "try_peers nc now net a peers = None \<longleftrightarrow>
   (\<forall>p \<in> set peers. \<forall>ad. fetch_advertisement net p a = Some ad \<longrightarrow> \<not> usable_ad nc now a ad)"
  by (induction peers) (auto split: option.splits)

text \<open>The lines this program's server writes.\<close>

lemma encode_newline: "encode_utf8 [CHR 0x0A] = [newline]"
  by (simp add: encode_utf8_def utf8_char_def newline_def byte_of_def cp_def)

lemma newline_free: "CHR 0x0A \<notin> set s \<Longrightarrow> (\<forall>c \<in> set s. cp c < 128) \<Longrightarrow> newline \<notin> set (encode_utf8 s)"
proof -
  assume a: "CHR 0x0A \<notin> set s" "\<forall>c \<in> set s. cp c < 128"
  have n: "newline = byte_of (CHR 0x0A)" by (simp add: newline_def byte_of_def cp_def)
  have "encode_utf8 s = lit s" by (rule encode_utf8_ascii) (use a in blast)
  then show ?thesis using a by (auto simp: lit_def n)
qed

lemma readline_line:
  assumes "CHR 0x0A \<notin> set s" "\<forall>c \<in> set s. cp c < 128" "length s \<le> stream_limit"
  shows "readline (encode_utf8 s @ newline # rest) = Inr (encode_utf8 (s @ [CHR 0x0A]))"
proof -
  have n: "newline \<notin> set (encode_utf8 s)" by (rule newline_free) (use assms in auto)
  have "length (encode_utf8 s) = length s" using assms(2) by (simp add: encode_utf8_ascii)
  moreover have "takeWhile (\<lambda>b. b \<noteq> newline) (encode_utf8 s @ newline # rest) = encode_utf8 s"
    using n by (simp add: takeWhile_append)
  ultimately show ?thesis using assms(3) by (simp add: readline_def encode_newline)
qed

lemma ad_to_json_lines:
  "\<exists>rest. encode_utf8 (ad_to_json ad) @ [newline] = encode_utf8 ''{'' @ newline # rest"
proof -
  have "\<exists>t. ad_to_json ad = ''{'' @ [CHR 0x0A] @ t"
    by (auto simp: ad_to_json_def json_dumps_def ad_to_dict_def json_nl_def)
  then obtain t where "ad_to_json ad = ''{'' @ [CHR 0x0A] @ t" by blast
  then show ?thesis by (simp only: encode_utf8_append encode_newline) simp
qed

definition own_line :: "string \<Rightarrow> bool" where
  "own_line s \<longleftrightarrow> s \<in> {''NOT_FOUND'', ''ERROR: Unknown command'', ''{''}"

lemma own_line_ok:
  assumes "own_line s"
  shows "CHR 0x0A \<notin> set s" "\<forall>c \<in> set s. cp c < 128" "length s \<le> stream_limit"
    "strip (s @ [CHR 0x0A]) = s"
proof -
  show "CHR 0x0A \<notin> set s" "\<forall>c \<in> set s. cp c < 128" "length s \<le> stream_limit"
    using assms by (auto simp: own_line_def cp_def stream_limit_def)
  have "strip (''NOT_FOUND'' @ [CHR 0x0A]) = ''NOT_FOUND''"
    "strip (''ERROR: Unknown command'' @ [CHR 0x0A]) = ''ERROR: Unknown command''"
    "strip (''{'' @ [CHR 0x0A]) = ''{''"
    by code_simp+
  then show "strip (s @ [CHR 0x0A]) = s" using assms by (auto simp: own_line_def)
qed

lemma handle_client_lines:
  "handle_client now s data = []
   \<or> (\<exists>l rest. own_line l \<and> handle_client now s data = encode_utf8 l @ newline # rest)"
proof -
  have "lit ''NOT_FOUND'' = encode_utf8 ''NOT_FOUND''"
    by (rule encode_utf8_ascii [symmetric]) (auto simp: cp_def)
  moreover have "lit ''ERROR: Unknown command'' = encode_utf8 ''ERROR: Unknown command''"
    by (rule encode_utf8_ascii [symmetric]) (auto simp: cp_def)
  moreover have "\<exists>l rest. own_line l \<and> encode_utf8 (ad_to_json ad) @ [newline] = encode_utf8 l @ newline # rest"
    for ad using ad_to_json_lines [of ad] by (metis own_line_def insertI1 insertI2)
  ultimately show ?thesis
    by (auto simp: handle_client_def Let_def own_line_def simp del: lit_simps
        split: sum.split option.split bool.split)
qed

lemma own_reply_unreadable:
  assumes "\<And>req. net p req = Some (handle_client now s req)"
  shows "fetch_advertisement net p a = None"
proof -
  define r where "r = handle_client now s (encode_utf8 (''GET '' @ a @ [CHR 0x0A]))"
  have net: "net p (encode_utf8 (''GET '' @ a @ [CHR 0x0A])) = Some r" by (simp add: assms r_def)
  consider "r = []" | l rest where "own_line l" "r = encode_utf8 l @ newline # rest"
    using handle_client_lines [of now s "encode_utf8 (''GET '' @ a @ [CHR 0x0A])"] r_def by blast
  then show ?thesis
  proof cases
    case 1
    have "strip [] = []" by (simp add: strip_def lstrip_def rstrip_def)
    then show ?thesis
      unfolding fetch_advertisement_def net
      by (simp add: 1 readline_def ad_from_json_def json_loads_empty startswith_def)
  next
    case 2
    have "readline r = Inr (encode_utf8 (l @ [CHR 0x0A]))"
      unfolding 2(2) by (rule readline_line) (use own_line_ok [OF 2(1)] in auto)
    then have "fetch_advertisement net p a =
        (if l = ''NOT_FOUND'' \<or> startswith l ''ERROR'' then None
         else (case ad_from_json l of Inl _ \<Rightarrow> None | Inr ad \<Rightarrow> Some ad))"
      unfolding fetch_advertisement_def net
      by (simp add: own_line_ok(4) [OF 2(1)] del: encode_utf8_append)
    then show ?thesis
      using 2(1) by (auto simp: own_line_def ad_from_json_def json_loads_brace startswith_def)
  qed
qed

text \<open>The request a client writes for an address, as the server reads it.\<close>

definition get_request :: "string \<Rightarrow> bytes" where
  "get_request a = encode_utf8 (''GET '' @ a @ [CHR 0x0A])"

definition serve :: "datetime \<Rightarrow> advertisement option \<Rightarrow> bytes" where
  "serve now x =
     (case x of
        None \<Rightarrow> lit ''NOT_FOUND'' @ [newline]
      | Some ad \<Rightarrow>
          (case ad_is_expired now ad of
             Inl _ \<Rightarrow> []
           | Inr True \<Rightarrow> lit ''NOT_FOUND'' @ [newline]
           | Inr False \<Rightarrow> encode_utf8 (ad_to_json ad) @ [newline]))"

lemma handle_get_request:
  assumes "is_base32_address a"
  shows "handle_client now s (get_request a) = serve now (get_advertisement s a)"
proof -
  let ?l = "''GET '' @ a"
  have c: "\<forall>c \<in> set a. \<not> is_space c \<and> cp c < 128" and ne: "a \<noteq> []"
    using base32_address_chars [OF assms] base32_address_nonempty [OF assms] by auto
  have len: "length a = 26" using assms by (simp add: is_base32_address_def)
  have sp: "is_space (CHR 0x0A)" by (simp add: is_space_def cp_def)
  have "readline (encode_utf8 ?l @ newline # []) = Inr (encode_utf8 (?l @ [CHR 0x0A]))"
    by (rule readline_line) (use c sp len in \<open>auto simp: cp_def stream_limit_def\<close>)
  moreover have "get_request a = encode_utf8 ?l @ newline # []"
    by (simp only: get_request_def encode_utf8_append encode_newline append_assoc)
  ultimately have r: "readline (get_request a) = Inr (encode_utf8 (?l @ [CHR 0x0A]))" by simp
  have "last ?l \<in> set a" using ne by simp
  then have "strip (?l @ [CHR 0x0A]) = ?l"
    using c by (intro strip_append_nl) (auto simp: is_space_def cp_def)
  moreover have "strip a = a" using c by (intro strip_id) auto
  moreover have "encode_utf8 (?l @ [CHR 0x0A]) \<noteq> []"
    by (metis decode_encode_utf8 decode_utf8.simps(1) append_is_Nil_conv not_Cons_self2 option.inject)
  ultimately show ?thesis
    unfolding handle_client_def r serve_def
    by (simp add: startswith_def del: encode_utf8_append lit_simps split: option.split)
qed

lemma srv_port_add: "srv_port (add_advertisement a ad s) = srv_port s"
  by (simp add: add_advertisement_def)

lemma republish_fold:
  assumes "wn_callback w = None" "wn_server w = Some s"
  shows "\<exists>s'. wn_server (fold republish_one as w) = Some s' \<and> srv_port s' = srv_port s
    \<and> (\<forall>a. get_advertisement s' a =
          (if a \<in> set as \<and> dget (wn_published w) a \<noteq> None then dget (wn_published w) a
           else get_advertisement s a))
    \<and> wn_published (fold republish_one as w) = wn_published w"
  using assms
proof (induction as arbitrary: w s)
  case (Cons a as)
  show ?case
  proof (cases "dget (wn_published w) a")
    case None
    then have "republish_one a w = w" using Cons.prems by (simp add: republish_one_def)
    then show ?thesis using Cons.IH [OF Cons.prems] None by auto
  next
    case (Some ad)
    let ?w = "w\<lparr>wn_server := Some (add_advertisement a ad s)\<rparr>"
    have w: "republish_one a w = ?w" using Cons.prems Some by (simp add: republish_one_def)
    have "wn_callback ?w = None" "wn_server ?w = Some (add_advertisement a ad s)" using Cons.prems by simp_all
    from Cons.IH [OF this] show ?thesis
      using Some by (auto simp: w served.get_put srv_port_add)
  qed
qed simp

section \<open>Properties\<close>

text \<open>
  C5. A lookup always returns, and what it returns is trustworthy and complete: an advertisement was
  fetched from one of the peers the DHT named, verifies for the address asked for (its key hashes to
  that address, its signature opens, it is not expired), and nothing is returned only when no peer
  serves such an advertisement.
\<close>

theorem lookup_returns_valid:
  assumes "wn_running w" "wn_dht w = Some n"
  shows "\<exists>peers n' r.
      get_peers net n (wns_address_to_info_hash a) 50 = Some (Inr (peers, n'))
    \<and> wns_lookup nc now net adnet a w = Some (Inr r, w\<lparr>wn_dht := Some n'\<rparr>)
    \<and> (case r of
         None \<Rightarrow> \<forall>p \<in> set peers. \<forall>ad. fetch_advertisement adnet p a = Some ad \<longrightarrow>
                   verify_ad nc now ad (Some a) \<noteq> Inr True
       | Some ad \<Rightarrow>
           (\<exists>p \<in> set peers. fetch_advertisement adnet p a = Some ad)
         \<and> (a \<noteq> [] \<longrightarrow> ad_address ad = a) \<and> derive_address (ad_public_key ad) = ad_address ad
         \<and> instant now < instant (ad_expires ad)
         \<and> open_ok nc (ad_public_key ad)
             (ad_signature ad
              @ ad_sign_message (ad_address ad) (ad_code ad) (ad_timestamp ad) (ad_expires ad)))"
proof -
  obtain peers n' where p: "get_peers net n (wns_address_to_info_hash a) 50 = Some (Inr (peers, n'))"
    using get_peers_total [OF length_info_hash] by blast
  let ?r = "try_peers nc now adnet a peers"
  have l: "wns_lookup nc now net adnet a w = Some (Inr ?r, w\<lparr>wn_dht := Some n'\<rparr>)"
    using assms by (simp add: wns_lookup_def lookup_on_def p)
  have u: "usable_ad nc now a ad \<longleftrightarrow> verify_ad nc now ad (Some a) = Inr True" for ad
    by (auto simp: usable_ad_def ad.accepts_iff expiry_ok_def ad_is_expired_def)
  show ?thesis
  proof (rule exI [of _ peers], rule exI [of _ n'], rule exI [of _ ?r], intro conjI p l)
    show "case ?r of
         None \<Rightarrow> \<forall>p \<in> set peers. \<forall>ad. fetch_advertisement adnet p a = Some ad \<longrightarrow>
                   verify_ad nc now ad (Some a) \<noteq> Inr True
       | Some ad \<Rightarrow>
           (\<exists>p \<in> set peers. fetch_advertisement adnet p a = Some ad)
         \<and> (a \<noteq> [] \<longrightarrow> ad_address ad = a) \<and> derive_address (ad_public_key ad) = ad_address ad
         \<and> instant now < instant (ad_expires ad)
         \<and> open_ok nc (ad_public_key ad)
             (ad_signature ad
              @ ad_sign_message (ad_address ad) (ad_code ad) (ad_timestamp ad) (ad_expires ad))"
    proof (cases ?r)
      case None
      then have "\<forall>p \<in> set peers. \<forall>ad. fetch_advertisement adnet p a = Some ad \<longrightarrow>
          verify_ad nc now ad (Some a) \<noteq> Inr True"
        by (simp add: try_peers_None u)
      then show ?thesis using None by simp
    next
      case (Some ad)
      then have "verify_ad nc now ad (Some a) = Inr True"
        "\<exists>p \<in> set peers. fetch_advertisement adnet p a = Some ad"
        using try_peers_Some u by blast+
      then show ?thesis by (simp add: Some ad.accepts_iff expiry_ok_iff)
    qed
  qed
qed

definition toy_config :: dht_config where
  "toy_config = \<lparr>cfg_port = 6881, cfg_advertise_port = 8470, cfg_bootstrap_nodes = [],
     cfg_bootstrap_urls = [], cfg_use_mdns = False, cfg_use_public = False, cfg_auto_bootstrap = False,
     cfg_ttl_seconds = 3600, cfg_republish_interval = 900, cfg_announce_interval = 900,
     cfg_relay_url = None, cfg_encrypt = False\<rparr>"

definition toy_node :: wns_node where
  "toy_node = (new_wns_node toy_config)\<lparr>wn_dht := Some (new_node (replicate 20 7) [1]),
     wn_server := Some (new_ad_server 8470), wn_running := True\<rparr>"

lemma toy_node_simps:
  "wn_running toy_node" "wn_dht toy_node = Some (new_node (replicate 20 7) [1])"
  "wn_server toy_node = Some (new_ad_server 8470)" "wn_callback toy_node = None"
  "wn_published toy_node = []"
  by (simp_all add: toy_node_def new_wns_node_def)

theorem lookup_returns_valid_witness:
  "\<exists>r w'. wns_lookup toy_nacl toy_now (\<lambda>_ _. None) (\<lambda>_ _. None) ''abc'' toy_node = Some (Inr r, w')"
  using lookup_returns_valid [OF toy_node_simps(1,2), of "\<lambda>_ _. None" "''abc''" toy_nacl toy_now
      "\<lambda>_ _. None"] by blast

lemma client_fetch_eq: "client_fetch net p a = fetch_advertisement net p a"
  by (auto simp: client_fetch_def fetch_advertisement_def Let_def ad_from_json_def json_loads_empty
      startswith_def split: option.split sum.split)

lemma client_try_peers_eq: "client_try_peers nc now net a peers = try_peers nc now net a peers"
  by (induction peers) (auto simp: client_fetch_eq usable_ad_def split: option.split sum.split bool.split)

text \<open>
  C32. The light client and the full node agree: on one DHT node and one network they look up the same
  advertisement, and the client's multi-namespace lookup, whatever relays it was given, returns just
  that one and names no relay.
\<close>

theorem client_and_node_agree:
  assumes "wn_running w" "wn_dht w = Some n" "dc_running c" "dc_dht c = Some n"
  shows "map_option fst (client_lookup nc now net adnet a c) = map_option fst (wns_lookup nc now net adnet a w)
    \<and> map_option fst (client_lookup_multi nc now net adnet a (add_relay_namespace url c))
        = map_option (\<lambda>(r, _). map_sum id (map_option (\<lambda>ad. (ad, None))) r)
            (wns_lookup nc now net adnet a w)"
proof -
  obtain peers n' where p: "get_peers net n (wns_address_to_info_hash a) 50 = Some (Inr (peers, n'))"
    using get_peers_total [OF length_info_hash] by blast
  have w: "wns_lookup nc now net adnet a w = Some (Inr (try_peers nc now adnet a peers), w\<lparr>wn_dht := Some n'\<rparr>)"
    using assms(1,2) by (simp add: wns_lookup_def lookup_on_def p)
  have c: "client_lookup nc now net adnet a d = Some (Inr (try_peers nc now adnet a peers), d\<lparr>dc_dht := Some n'\<rparr>)"
    if "dc_running d" "dc_dht d = Some n" for d
    using that by (simp add: client_lookup_def p client_try_peers_eq)
  have "dc_running (add_relay_namespace url c)" "dc_dht (add_relay_namespace url c) = Some n"
    using assms(3,4) by (simp_all add: add_relay_namespace_def)
  then show ?thesis using c assms(3,4) by (simp add: w client_lookup_multi_def)
qed

theorem client_and_node_agree_witness:
  "map_option fst (client_lookup toy_nacl toy_now (\<lambda>_ _. None) (\<lambda>_ _. None) ''abc''
     \<lparr>dc_nodes = [], dc_urls = [], dc_relay_urls = [], dc_auto = False, dc_mdns = False, dc_public = False,
      dc_dht = Some (new_node (replicate 20 7) [1]), dc_running = True\<rparr>)
   = map_option fst (wns_lookup toy_nacl toy_now (\<lambda>_ _. None) (\<lambda>_ _. None) ''abc'' toy_node)"
  by (rule conjunct1 [OF client_and_node_agree [OF toy_node_simps(1,2)]]) simp_all

text \<open>
  C6. A lookup that only meets this program's own advertisement servers finds nothing, whatever they
  hold: their reply is JSON over several lines, of which the client reads the first, an opening
  brace. The advertisement is intact in the whole reply.
\<close>

theorem own_servers_never_read:
  assumes "wn_running w" "wn_dht w = Some n"
    and own: "\<And>p. \<exists>t s. \<forall>req. adnet p req = Some (handle_client t s req)"
  shows "(\<exists>n'. wns_lookup nc now net adnet a w = Some (Inr None, w\<lparr>wn_dht := Some n'\<rparr>))
    \<and> (\<forall>ad s. is_base32_address a \<longrightarrow> get_advertisement s a = Some ad \<longrightarrow> ad_is_expired now ad = Inr False \<longrightarrow>
         valid_datetime (ad_timestamp ad) \<longrightarrow> valid_datetime (ad_expires ad) \<longrightarrow> ad_scoped_name ad \<noteq> Some [] \<longrightarrow>
         (\<exists>text. handle_client now s (get_request a) = encode_utf8 text @ [newline]
            \<and> ad_from_json text = Inr ad))"
proof -
  have f: "fetch_advertisement adnet p a = None" for p
    using own [of p] own_reply_unreadable [of adnet p] by blast
  obtain peers n' where p: "get_peers net n (wns_address_to_info_hash a) 50 = Some (Inr (peers, n'))"
    using get_peers_total [OF length_info_hash] by blast
  have "try_peers nc now adnet a peers = None" by (simp add: try_peers_None f)
  then have "wns_lookup nc now net adnet a w = Some (Inr None, w\<lparr>wn_dht := Some n'\<rparr>)"
    using assms(1,2) by (simp add: wns_lookup_def lookup_on_def p)
  moreover have "handle_client now s (get_request a) = encode_utf8 (ad_to_json ad) @ [newline]"
    if "is_base32_address a" "get_advertisement s a = Some ad" "ad_is_expired now ad = Inr False" for ad s
    using that by (simp add: handle_get_request serve_def)
  ultimately show ?thesis using ad_from_to_json by blast
qed

theorem own_servers_never_read_witness:
  "\<exists>n'. wns_lookup toy_nacl toy_now (\<lambda>_ _. None)
      (\<lambda>p req. Some (handle_client toy_now (new_ad_server 8470) req)) ''abc'' toy_node
    = Some (Inr None, toy_node\<lparr>wn_dht := Some n'\<rparr>)"
proof -
  have "\<exists>t s. \<forall>req. (\<lambda>p req. Some (handle_client toy_now (new_ad_server 8470) req)) p req
      = Some (handle_client t s req)" for p :: addr
    by blast
  from own_servers_never_read [OF toy_node_simps(1,2) this] show ?thesis by blast
qed

text \<open>
  C7. A published advertisement is served: its address answers with the JSON of the advertisement
  until it expires and with \<^verbatim>\<open>NOT_FOUND\<close> from then on, and republishing without a callback keeps it.
  Only an advertisement that verifies is published; an error leaves the tracked ones as they were.
\<close>

theorem published_is_served:
  assumes "publish nc now net ad w = (r, w')"
  shows "(case r of
     Inl e \<Rightarrow> wn_published w' = wn_published w
   | Inr b \<Rightarrow>
       b \<and> verify_ad nc now ad None = Inr True \<and> dget (wn_published w') (ad_address ad) = Some ad
     \<and> (\<exists>s. wn_server w' = Some s
          \<and> (\<forall>t. handle_client t s (get_request (ad_address ad)) = serve t (Some ad)))
     \<and> (wn_callback w = None \<longrightarrow>
          (\<exists>s. wn_server (republish_turn w') = Some s
             \<and> (\<forall>t. handle_client t s (get_request (ad_address ad)) = serve t (Some ad)))))"
proof (cases r)
  case (Inl e)
  then show ?thesis
    using assms
    by (auto simp: publish_def Let_def split: bool.splits option.splits sum.splits prod.splits)
next
  case (Inr b)
  then obtain n s n' k where w: "wn_running w" "wn_dht w = Some n" "wn_server w = Some s" and
    v: "verify_ad nc now ad None = Inr True" and b: b and
    w': "w' = w\<lparr>wn_dht := Some n', wn_server := Some (add_advertisement (ad_address ad) ad s),
                wn_published := dset (ad_address ad) ad (wn_published w)\<rparr>"
    using assms
    by (auto simp: publish_def Let_def split: bool.splits option.splits sum.splits prod.splits)
  let ?a = "ad_address ad"
  have addr: "is_base32_address ?a" using v by (rule ad.accepted_address)
  have "\<forall>t. handle_client t (add_advertisement ?a ad s) (get_request ?a) = serve t (Some ad)"
    by (simp add: handle_get_request [OF addr] served.get_put)
  moreover have "\<exists>s'. wn_server (republish_turn w') = Some s'
      \<and> (\<forall>t. handle_client t s' (get_request ?a) = serve t (Some ad))" if c: "wn_callback w = None"
  proof -
    have "wn_callback w' = None" "wn_server w' = Some (add_advertisement ?a ad s)"
      "dget (wn_published w') ?a = Some ad" "wn_running w'"
      using w w' c by simp_all
    then obtain s' where "wn_server (republish_turn w') = Some s'" "get_advertisement s' ?a = Some ad"
      using republish_fold [of w' "add_advertisement ?a ad s" "dkeys (wn_published w')"]
      by (auto simp: republish_turn_def served.get_put)
    then show ?thesis by (simp add: handle_get_request [OF addr])
  qed
  ultimately show ?thesis using Inr b v w' by simp
qed

theorem published_is_served_witness:
  "\<exists>ad w' s. publish toy_nacl toy_now (\<lambda>_ _. None) ad toy_node = (Inr True, w') \<and> wn_server w' = Some s
     \<and> handle_client toy_now s (get_request (ad_address ad)) = serve toy_now (Some ad)"
proof -
  have can: "can_sign toy_identity" by (simp add: can_sign_def toy_identity_def)
  obtain ad where ad: "create_ad toy_nacl toy_now toy_identity ''7-guitar-sunset'' 300 = Inr ad"
    using toy_created by blast
  have v: "verify_ad toy_nacl toy_now ad None = Inr True"
    using verify_created_ad [OF toy_nacl_ok wf_toy_identity can toy_now_ok _ ad, of toy_now None] utc_instant [OF toy_now_ok]
      by (simp add: toy_now_def)
  obtain n' where "announce (\<lambda>_ _. None) (new_node (replicate 20 7) [1])
      (wns_address_to_info_hash (ad_address ad)) 8470 False = (Inr 0, n')"
    by (simp add: announce_def find_nodes_def sorted_nodes_def new_node_def numeral_3_eq_3)
  then obtain w' where "publish toy_nacl toy_now (\<lambda>_ _. None) ad toy_node = (Inr True, w')"
    using v by (simp add: publish_def toy_node_simps add_advertisement_def new_ad_server_def Let_def)
  with published_is_served [OF this] show ?thesis by auto
qed

text \<open>
  The bootstrap list is the list of all sources in order of priority (environment, configured
  nodes, public nodes when both switches allow them, HTTP, mDNS) with every node kept at its first
  occurrence only; a source that raises contributes nothing.
\<close>

theorem bootstrap_list_order:
  "get_bootstrap_nodes env static_nodes urls use_mdns use_public fetched local_nodes =
     rev (remdups (rev (
       parse_bootstrap_nodes_env (env_nodes env) @ static_nodes
       @ (if use_public \<and> use_public_bootstrap_env (env_public env) then public_bootstrap_nodes else [])
       @ (if urls = [] then [] else case fetched urls of None \<Rightarrow> [] | Some ns \<Rightarrow> ns)
       @ (if \<not> use_mdns then [] else case local_nodes of None \<Rightarrow> [] | Some ns \<Rightarrow> ns))))"
proof -
  have start: "add_unseen xs [] = rev (remdups (rev xs))" for xs
    using add_unseen_remdups [of xs "[]"] by simp
  show ?thesis
    by (auto simp: get_bootstrap_nodes_def get_all_bootstrap_nodes_def Let_def start add_unseen_remdups
        split: option.split simp del: rev_append)
qed

text \<open>
  Keys for the DHT: a plain address and a relay-scoped one have the 20 bytes the DHT node takes;
  the key of an enterprise namespace has 32, so that looking up or announcing under it raises. The
  XOR scrambling for a relay is its own inverse.
\<close>

theorem namespace_keys_refused:
  assumes "address_to_dht_key nm addr relay_url namespace = Inr key"
  shows "length key = (if truthy namespace then 32 else 20)
    \<and> (get_peers net n key k = Some (Inl ValueError) \<longleftrightarrow> truthy namespace)
    \<and> (truthy namespace \<longrightarrow> announce net n key port implied = (Inl ValueError, n))
    \<and> unxor_for_namespace (xor_for_namespace data u) u = Some data"
proof -
  have len: "length key = (if truthy namespace then 32 else 20)"
    using assms
    by (auto simp: address_to_dht_key_def get_namespace_dht_key_def dht_namespace_key_def
        map_sum_def split: if_splits sum.splits)
  have "\<not> truthy namespace \<Longrightarrow> get_peers net n key k \<noteq> Some (Inl ValueError)"
    using get_peers_total [of key net n k] len by auto
  then show ?thesis
    using len
    by (auto simp: get_peers_def announce_def unxor_for_namespace_def xor_for_namespace_involution)
qed

theorem namespace_keys_refused_witness:
  "\<exists>key. address_to_dht_key (new_manager ''t'' []) ''abc'' None (Some ''default'') = Inr key
     \<and> get_peers (\<lambda>_ _. None) (new_node [] []) key 50 = Some (Inl ValueError)"
proof -
  obtain key where k: "address_to_dht_key (new_manager ''t'' []) ''abc'' None (Some ''default'') = Inr key"
    by (simp add: address_to_dht_key_def get_namespace_dht_key_def new_manager_def load_namespaces_def
        ns_get_def default_namespace_def)
  with namespace_keys_refused [OF k, of "\<lambda>_ _. None" "new_node [] []" 50] show ?thesis by simp
qed

end
