(* ===== verification/Rate_Limiter.thy ===== *)
theory Rate_Limiter
  imports Policy
begin

text \<open>
  \<^verbatim>\<open>src/wh/enterprise/rate_limiter.py\<close>: token buckets, connection and byte accounting, and the
  bandwidth throttler. Times are rationals read from a monotonic clock, one reading per call; the
  local day and month are arguments; floating-point rounding is not modelled. Every coroutine runs
  under one lock, so each call is one step.
\<close>

section \<open>Token buckets\<close>

record bucket =
  bkt_capacity :: rat
  bkt_rate :: rat
  bkt_tokens :: rat
  bkt_last :: rat

definition new_bucket :: "rat \<Rightarrow> rat \<Rightarrow> rat \<Rightarrow> bucket" where
  "new_bucket now capacity rate =
     \<lparr>bkt_capacity = capacity, bkt_rate = rate, bkt_tokens = capacity, bkt_last = now\<rparr>"

definition refill :: "rat \<Rightarrow> bucket \<Rightarrow> bucket" where
  "refill now b =
     b\<lparr>bkt_tokens := min (bkt_capacity b) (bkt_tokens b + (now - bkt_last b) * bkt_rate b),
       bkt_last := now\<rparr>"

definition try_acquire :: "rat \<Rightarrow> rat \<Rightarrow> bucket \<Rightarrow> bool \<times> bucket" where
  "try_acquire now n b0 =
     (let b = refill now b0
      in if n \<le> bkt_tokens b then (True, b\<lparr>bkt_tokens := bkt_tokens b - n\<rparr>) else (False, b))"

definition time_until_available :: "rat \<Rightarrow> rat \<Rightarrow> bucket \<Rightarrow> rat \<times> bucket" where
  "time_until_available now n b0 =
     (let b = refill now b0
      in (if n \<le> bkt_tokens b then 0 else (n - bkt_tokens b) / bkt_rate b, b))"

section \<open>Trackers\<close>

record tracker =
  ct_active :: int
  ct_today :: int
  ct_bytes_today :: int
  ct_bytes_month :: int
  ct_reset_day :: int
  ct_reset_month :: int

definition new_tracker :: tracker where
  "new_tracker =
     \<lparr>ct_active = 0, ct_today = 0, ct_bytes_today = 0, ct_bytes_month = 0, ct_reset_day = 0,
      ct_reset_month = 0\<rparr>"

definition reset_if_needed :: "int \<Rightarrow> int \<Rightarrow> tracker \<Rightarrow> tracker" where
  "reset_if_needed yday mon t =
     (let t1 = (if yday \<noteq> ct_reset_day t then t\<lparr>ct_today := 0, ct_bytes_today := 0, ct_reset_day := yday\<rparr>
                else t)
      in if mon \<noteq> ct_reset_month t1 then t1\<lparr>ct_bytes_month := 0, ct_reset_month := mon\<rparr> else t1)"

section \<open>The limiter\<close>

datatype limit_error = RateLimitExceeded rat | ConnectionLimitExceeded | BandwidthQuotaExceeded

record limiter =
  lim_ip_buckets :: "(string, bucket) dict"
  lim_id_buckets :: "(string, bucket) dict"
  lim_global_bucket :: "bucket option"
  lim_ip_conns :: "(string, tracker) dict"
  lim_id_conns :: "(string, tracker) dict"
  lim_global :: tracker
  lim_sessions :: "string list"

type_synonym v6match = "string \<Rightarrow> string \<Rightarrow> bool"

definition no_context :: policy_context where
  "no_context = \<lparr>cx_identity = None, cx_source_ip = None, cx_namespace = None\<rparr>"

definition num_true :: "'a::zero option \<Rightarrow> bool" where
  "num_true x \<longleftrightarrow> x \<noteq> None \<and> x \<noteq> Some 0"

definition global_bucket :: "v6match \<Rightarrow> policy \<Rightarrow> rat \<Rightarrow> bucket option" where
  "global_bucket v6 p now =
     (let l = get_rate_limits v6 p no_context in
      if num_true (requests_per_second l)
      then Some (new_bucket now (the (requests_per_second l) * burst_multiplier l)
                   (the (requests_per_second l)))
      else None)"

definition new_limiter :: "v6match \<Rightarrow> policy \<Rightarrow> rat \<Rightarrow> limiter" where
  "new_limiter v6 p now =
     \<lparr>lim_ip_buckets = [], lim_id_buckets = [], lim_global_bucket = global_bucket v6 p now,
      lim_ip_conns = [], lim_id_conns = [], lim_global = new_tracker, lim_sessions = []\<rparr>"

definition bucket_rate :: "rate_limits \<Rightarrow> rat" where
  "bucket_rate l =
     (if num_true (requests_per_second l) then the (requests_per_second l)
      else (if num_true (requests_per_minute l) then the (requests_per_minute l) else 60) / 60)"

definition get_bucket :: "(string, bucket) dict \<Rightarrow> string \<Rightarrow> rate_limits \<Rightarrow> rat \<Rightarrow> bucket" where
  "get_bucket bs key l now =
     (case dget bs key of
        Some b \<Rightarrow> b
      | None \<Rightarrow> new_bucket now (bucket_rate l * burst_multiplier l) (bucket_rate l))"

text \<open>One check of a bucket: the exception carries the time to wait.\<close>

definition check_bucket :: "rat \<Rightarrow> bucket \<Rightarrow> (limit_error + unit) \<times> bucket" where
  "check_bucket now b =
     (case try_acquire now 1 b of
        (True, b') \<Rightarrow> (Inr (), b')
      | (False, b') \<Rightarrow> (case time_until_available now 1 b' of (w, b'') \<Rightarrow> (Inl (RateLimitExceeded w), b'')))"

definition check_global :: "rat \<Rightarrow> limiter \<Rightarrow> (limit_error + unit) \<times> limiter" where
  "check_global now s =
     (case lim_global_bucket s of
        None \<Rightarrow> (Inr (), s)
      | Some b \<Rightarrow> (case check_bucket now b of (r, b') \<Rightarrow> (r, s\<lparr>lim_global_bucket := Some b'\<rparr>)))"

definition check_ip :: "rat \<Rightarrow> rate_limits \<Rightarrow> string option \<Rightarrow> limiter \<Rightarrow> (limit_error + unit) \<times> limiter" where
  "check_ip now l ip s =
     (if truthy ip \<and> num_true (connections_per_minute l) then
        (case check_bucket now (get_bucket (lim_ip_buckets s) (the ip) l now) of
           (r, b) \<Rightarrow> (r, s\<lparr>lim_ip_buckets := dset (the ip) b (lim_ip_buckets s)\<rparr>))
      else (Inr (), s))"

definition check_identity ::
  "rat \<Rightarrow> rate_limits \<Rightarrow> string option \<Rightarrow> limiter \<Rightarrow> (limit_error + unit) \<times> limiter" where
  "check_identity now l i s =
     (if truthy i \<and> num_true (connections_per_minute l) then
        (case check_bucket now (get_bucket (lim_id_buckets s) (the i) l now) of
           (r, b) \<Rightarrow> (r, s\<lparr>lim_id_buckets := dset (the i) b (lim_id_buckets s)\<rparr>))
      else (Inr (), s))"

text \<open>Reading a \<^verbatim>\<open>defaultdict\<close> creates the entry.\<close>

definition tracker_of :: "(string, tracker) dict \<Rightarrow> string \<Rightarrow> tracker" where
  "tracker_of d k = (case dget d k of None \<Rightarrow> new_tracker | Some t \<Rightarrow> t)"

definition touch :: "string \<Rightarrow> (string, tracker) dict \<Rightarrow> (string, tracker) dict" where
  "touch k d = (if has_key d k then d else dset k new_tracker d)"

definition check_connections ::
  "quotas \<Rightarrow> string option \<Rightarrow> string option \<Rightarrow> limiter \<Rightarrow> (limit_error + unit) \<times> limiter" where
  "check_connections q i ip s =
     (if \<not> num_true (max_concurrent_connections q) then (Inr (), s)
      else
        (let s1 = (if truthy ip then s\<lparr>lim_ip_conns := touch (the ip) (lim_ip_conns s)\<rparr> else s) in
         if truthy ip \<and> the (max_concurrent_connections q) \<le> ct_active (tracker_of (lim_ip_conns s1) (the ip))
         then (Inl ConnectionLimitExceeded, s1)
         else
           (let s2 = (if truthy i then s1\<lparr>lim_id_conns := touch (the i) (lim_id_conns s1)\<rparr> else s1) in
            if truthy i \<and> num_true (max_sessions_per_identity q)
               \<and> the (max_sessions_per_identity q) \<le> ct_active (tracker_of (lim_id_conns s2) (the i))
            then (Inl ConnectionLimitExceeded, s2)
            else (Inr (), s2))))"

definition count_connection :: "tracker \<Rightarrow> tracker" where
  "count_connection t = t\<lparr>ct_active := ct_active t + 1, ct_today := ct_today t + 1\<rparr>"

definition track_session :: "string option \<Rightarrow> string option \<Rightarrow> string option \<Rightarrow> limiter \<Rightarrow> limiter" where
  "track_session sid i ip s =
     (if \<not> truthy sid then s
      else
        s\<lparr>lim_sessions := sadd (the sid) (lim_sessions s), lim_global := count_connection (lim_global s),
          lim_ip_conns := (if truthy ip
             then dset (the ip) (count_connection (tracker_of (lim_ip_conns s) (the ip))) (lim_ip_conns s)
             else lim_ip_conns s),
          lim_id_conns := (if truthy i
             then dset (the i) (count_connection (tracker_of (lim_id_conns s) (the i))) (lim_id_conns s)
             else lim_id_conns s)\<rparr>)"

text \<open>Checks in order; the first error ends the call, and what earlier checks changed stays.\<close>

definition and_then ::
  "(limit_error + unit) \<times> limiter \<Rightarrow> (limiter \<Rightarrow> (limit_error + unit) \<times> limiter) \<Rightarrow>
   (limit_error + unit) \<times> limiter" where
  "and_then rs f = (case rs of (Inl e, s) \<Rightarrow> (Inl e, s) | (Inr _, s) \<Rightarrow> f s)"

definition lim_acquire ::
  "v6match \<Rightarrow> policy \<Rightarrow> rat \<Rightarrow> policy_context \<Rightarrow> string option \<Rightarrow> limiter \<Rightarrow>
   (limit_error + unit) \<times> limiter" where
  "lim_acquire v6 p now cx sid s =
     (let l = get_rate_limits v6 p cx; q = get_quotas v6 p cx; i = cx_identity cx; ip = cx_source_ip cx
      in and_then (check_global now s)
           (\<lambda>s. and_then (check_ip now l ip s)
             (\<lambda>s. and_then (check_identity now l i s)
               (\<lambda>s. and_then (check_connections q i ip s)
                 (\<lambda>s. (Inr (), track_session sid i ip s))))))"

definition drop_connection :: "tracker \<Rightarrow> tracker" where
  "drop_connection t = t\<lparr>ct_active := ct_active t - 1\<rparr>"

definition drop_in :: "string option \<Rightarrow> (string, tracker) dict \<Rightarrow> (string, tracker) dict" where
  "drop_in k d =
     (if truthy k \<and> has_key d (the k) then dset (the k) (drop_connection (tracker_of d (the k))) d else d)"

definition lim_release :: "string \<Rightarrow> string option \<Rightarrow> string option \<Rightarrow> limiter \<Rightarrow> limiter" where
  "lim_release sid i ip s =
     (if sid \<notin> set (lim_sessions s) then s
      else
        s\<lparr>lim_sessions := sdiscard sid (lim_sessions s), lim_global := drop_connection (lim_global s),
          lim_ip_conns := drop_in ip (lim_ip_conns s), lim_id_conns := drop_in i (lim_id_conns s)\<rparr>)"

definition over_quota :: "int option \<Rightarrow> int \<Rightarrow> int \<Rightarrow> bool" where
  "over_quota q used n \<longleftrightarrow> num_true q \<and> the q < used + n"

definition check_bandwidth ::
  "v6match \<Rightarrow> policy \<Rightarrow> int \<Rightarrow> int \<Rightarrow> policy_context \<Rightarrow> int \<Rightarrow> limiter \<Rightarrow> (limit_error + unit) \<times> limiter" where
  "check_bandwidth v6 p yday mon cx n s =
     (let q = get_quotas v6 p cx;
          g = reset_if_needed yday mon (lim_global s);
          s1 = s\<lparr>lim_global := g\<rparr>
      in if over_quota (max_transfer_bytes_per_day q) (ct_bytes_today g) n
            \<or> over_quota (max_transfer_bytes_per_month q) (ct_bytes_month g) n
         then (Inl BandwidthQuotaExceeded, s1)
         else if truthy (cx_identity cx) then
           (let i = the (cx_identity cx);
                t = reset_if_needed yday mon (tracker_of (lim_id_conns s1) i);
                s2 = s1\<lparr>lim_id_conns := dset i t (lim_id_conns s1)\<rparr>
            in if over_quota (max_transfer_bytes_per_day q) (ct_bytes_today t) n
               then (Inl BandwidthQuotaExceeded, s2) else (Inr (), s2))
         else (Inr (), s1))"

definition add_bytes :: "int \<Rightarrow> tracker \<Rightarrow> tracker" where
  "add_bytes n t = t\<lparr>ct_bytes_today := ct_bytes_today t + n, ct_bytes_month := ct_bytes_month t + n\<rparr>"

definition record_bytes :: "int \<Rightarrow> string option \<Rightarrow> string option \<Rightarrow> limiter \<Rightarrow> limiter" where
  "record_bytes n i ip s =
     s\<lparr>lim_global := add_bytes n (lim_global s),
       lim_id_conns := (if truthy i then dset (the i) (add_bytes n (tracker_of (lim_id_conns s) (the i)))
                          (lim_id_conns s) else lim_id_conns s),
       lim_ip_conns := (if truthy ip then dset (the ip) (add_bytes n (tracker_of (lim_ip_conns s) (the ip)))
                          (lim_ip_conns s) else lim_ip_conns s)\<rparr>"

definition lim_reset :: "v6match \<Rightarrow> policy \<Rightarrow> rat \<Rightarrow> limiter \<Rightarrow> limiter" where
  "lim_reset v6 p now s =
     \<lparr>lim_ip_buckets = [], lim_id_buckets = [],
      lim_global_bucket = (case global_bucket v6 p now of None \<Rightarrow> lim_global_bucket s | Some b \<Rightarrow> Some b),
      lim_ip_conns = [], lim_id_conns = [], lim_global = new_tracker, lim_sessions = []\<rparr>"

text \<open>\<^verbatim>\<open>get_stats\<close>: the sessions, the global tracker, and active count, today's count and bytes by key.\<close>

definition tracker_stats :: "(string, tracker) dict \<Rightarrow> (string \<times> int \<times> int \<times> int) list" where
  "tracker_stats d = map (\<lambda>(k, t). (k, ct_active t, ct_today t, ct_bytes_today t)) d"

definition lim_stats ::
  "limiter \<Rightarrow> nat \<times> (int \<times> int \<times> int \<times> int) \<times> (string \<times> int \<times> int \<times> int) list
     \<times> (string \<times> int \<times> int \<times> int) list" where
  "lim_stats s =
     (let g = lim_global s
      in (length (lim_sessions s), (ct_active g, ct_today g, ct_bytes_today g, ct_bytes_month g),
          tracker_stats (lim_ip_conns s), tracker_stats (lim_id_conns s)))"

section \<open>The throttler\<close>

definition throttle_limit :: "rat option \<Rightarrow> int option \<Rightarrow> int option" where
  "throttle_limit mbps bps =
     (if num_true mbps then Some (trunc (the mbps * 1024 * 1024 / 8))
      else if num_true bps then bps else None)"

definition new_throttler :: "rat \<Rightarrow> rat option \<Rightarrow> int option \<Rightarrow> bucket option" where
  "new_throttler now mbps bps =
     (case throttle_limit mbps bps of
        Some m \<Rightarrow> if m = 0 then None else Some (new_bucket now (of_int m) (of_int m))
      | None \<Rightarrow> None)"

text \<open>
  \<^verbatim>\<open>throttle\<close>: attempts at the times of a clock, each after the sleep that the one before asked for;
  \<^const>\<open>None\<close> when the attempts given do not suffice.
\<close>

fun throttle :: "rat list \<Rightarrow> rat \<Rightarrow> bucket \<Rightarrow> bucket option" where
  "throttle [] n b = None"
| "throttle (t # ts) n b =
     (case try_acquire t n b of
        (True, b') \<Rightarrow> Some b'
      | (False, b') \<Rightarrow> (case time_until_available t n b' of (_, b'') \<Rightarrow> throttle ts n b''))"

text \<open>\<^verbatim>\<open>throttle_stream\<close>: the chunks it yields.\<close>

definition stream_chunks :: "nat \<Rightarrow> bytes \<Rightarrow> bytes list" where
  "stream_chunks chunk_size data = groups chunk_size data"

section \<open>The bucket invariant\<close>

definition bucket_ok :: "bucket \<Rightarrow> bool" where
  "bucket_ok b \<longleftrightarrow> 0 \<le> bkt_tokens b \<and> bkt_tokens b \<le> bkt_capacity b \<and> 0 \<le> bkt_rate b"

lemma refill_simps [simp]:
  "bkt_capacity (refill now b) = bkt_capacity b" "bkt_rate (refill now b) = bkt_rate b"
  "bkt_last (refill now b) = now"
  by (simp_all add: refill_def)

lemma refill_again: "bkt_last b = now \<Longrightarrow> bkt_tokens b \<le> bkt_capacity b \<Longrightarrow> refill now b = b"
  by (simp add: refill_def)

lemma refill_ok: "bucket_ok b \<Longrightarrow> bkt_last b \<le> now \<Longrightarrow> bucket_ok (refill now b)"
  by (auto simp: bucket_ok_def refill_def)

lemma refill_tokens: "bkt_tokens (refill now b) \<le> bkt_tokens b + bkt_rate b * (now - bkt_last b)"
  by (simp add: refill_def min_le_iff_disj mult.commute)

lemma check_bucket_ok:
  assumes "bucket_ok b" "bkt_last b \<le> now" "check_bucket now b = (r, b')"
  shows "bucket_ok b'" "bkt_last b' = now" "bkt_rate b' = bkt_rate b" "bkt_capacity b' = bkt_capacity b"
    "bkt_tokens b' + of_bool (\<not> isl r) \<le> bkt_tokens b + bkt_rate b * (now - bkt_last b)"
    "bkt_tokens b' + of_bool (\<not> isl r) \<le> bkt_capacity b"
proof -
  let ?b = "refill now b"
  have ok: "bucket_ok ?b" by (rule refill_ok [OF assms(1,2)])
  then have again: "refill now ?b = ?b" by (intro refill_again) (simp_all add: bucket_ok_def)
  have b': "b' = (if 1 \<le> bkt_tokens ?b then ?b\<lparr>bkt_tokens := bkt_tokens ?b - 1\<rparr> else ?b)"
    and r: "\<not> isl r \<longleftrightarrow> 1 \<le> bkt_tokens ?b"
    using assms(3)
    by (auto simp: check_bucket_def try_acquire_def time_until_available_def Let_def again split: if_splits)
  show "bucket_ok b'" using ok by (auto simp: b' bucket_ok_def)
  show "bkt_last b' = now" "bkt_rate b' = bkt_rate b" "bkt_capacity b' = bkt_capacity b"
    by (simp_all add: b')
  show "bkt_tokens b' + of_bool (\<not> isl r) \<le> bkt_tokens b + bkt_rate b * (now - bkt_last b)"
    using refill_tokens [of now b] by (simp add: b' r)
  show "bkt_tokens b' + of_bool (\<not> isl r) \<le> bkt_capacity b"
    using ok by (simp add: b' r bucket_ok_def)
qed

section \<open>What a call does to the limiter\<close>

lemma check_ip_frame:
  "lim_global_bucket (snd (check_ip now l ip s)) = lim_global_bucket s"
  "lim_sessions (snd (check_ip now l ip s)) = lim_sessions s"
  "lim_global (snd (check_ip now l ip s)) = lim_global s"
  "lim_ip_conns (snd (check_ip now l ip s)) = lim_ip_conns s"
  "lim_id_conns (snd (check_ip now l ip s)) = lim_id_conns s"
  by (simp_all add: check_ip_def split: prod.split)

lemma check_identity_frame:
  "lim_global_bucket (snd (check_identity now l i s)) = lim_global_bucket s"
  "lim_sessions (snd (check_identity now l i s)) = lim_sessions s"
  "lim_global (snd (check_identity now l i s)) = lim_global s"
  "lim_ip_conns (snd (check_identity now l i s)) = lim_ip_conns s"
  "lim_id_conns (snd (check_identity now l i s)) = lim_id_conns s"
  by (simp_all add: check_identity_def split: prod.split)

lemma check_global_frame:
  "lim_sessions (snd (check_global now s)) = lim_sessions s"
  "lim_global (snd (check_global now s)) = lim_global s"
  "lim_ip_conns (snd (check_global now s)) = lim_ip_conns s"
  "lim_id_conns (snd (check_global now s)) = lim_id_conns s"
  by (simp_all add: check_global_def split: prod.split option.split)

lemma tracker_of_touch [simp]: "tracker_of (touch k d) k' = tracker_of d k'"
  by (auto simp: tracker_of_def touch_def has_key_iff split: option.split)

lemma tracker_of_dset [simp]: "tracker_of (dset k t d) k' = (if k' = k then t else tracker_of d k')"
  by (simp add: tracker_of_def)

lemma check_connections_frame:
  "lim_global_bucket (snd (check_connections q i ip s)) = lim_global_bucket s"
  "lim_sessions (snd (check_connections q i ip s)) = lim_sessions s"
  "lim_global (snd (check_connections q i ip s)) = lim_global s"
  "tracker_of (lim_ip_conns (snd (check_connections q i ip s))) = tracker_of (lim_ip_conns s)"
  "tracker_of (lim_id_conns (snd (check_connections q i ip s))) = tracker_of (lim_id_conns s)"
  by (auto simp: check_connections_def Let_def fun_eq_iff)

lemma check_connections_limit:
  "fst (check_connections q i ip s) = Inr () \<Longrightarrow> num_true (max_concurrent_connections q) \<Longrightarrow> truthy ip \<Longrightarrow>
   ct_active (tracker_of (lim_ip_conns s) (the ip)) < the (max_concurrent_connections q)"
  by (auto simp: check_connections_def Let_def split: if_splits)

lemma track_session_frame: "lim_global_bucket (track_session sid i ip s) = lim_global_bucket s"
  by (simp add: track_session_def)

lemmas limiter_frames = check_ip_frame check_identity_frame check_global_frame check_connections_frame
  track_session_frame

lemma and_then_bucket:
  assumes "\<And>s. lim_global_bucket (snd (f s)) = lim_global_bucket s"
  shows "lim_global_bucket (snd (and_then rs f)) = lim_global_bucket (snd rs)"
  using assms by (auto simp: and_then_def split: sum.split prod.split)

lemma and_then_Inr:
  "and_then rs f = (Inr u, t) \<Longrightarrow> fst rs = Inr () \<and> f (snd rs) = (Inr u, t)"
  by (auto simp: and_then_def split: sum.splits prod.splits)

lemma acquire_global_bucket:
  assumes "lim_global_bucket s = Some b"
  shows "lim_global_bucket (snd (lim_acquire v6 p now cx sid s)) = Some (snd (check_bucket now b))"
    and "\<not> isl (fst (lim_acquire v6 p now cx sid s)) \<Longrightarrow> \<not> isl (fst (check_bucket now b))"
proof -
  have g: "check_global now s
      = (fst (check_bucket now b), s\<lparr>lim_global_bucket := Some (snd (check_bucket now b))\<rparr>)"
    by (simp add: check_global_def assms split: prod.split)
  show "lim_global_bucket (snd (lim_acquire v6 p now cx sid s)) = Some (snd (check_bucket now b))"
    unfolding lim_acquire_def Let_def
    by (subst and_then_bucket; (subst and_then_bucket)?; (subst and_then_bucket)?;
        (subst and_then_bucket)?; simp add: limiter_frames g)
  show "\<not> isl (fst (lim_acquire v6 p now cx sid s)) \<Longrightarrow> \<not> isl (fst (check_bucket now b))"
    by (cases "fst (check_bucket now b)") (auto simp: lim_acquire_def Let_def g and_then_def)
qed

text \<open>A successful call passed every check and tracked the session.\<close>

lemma acquire_ok:
  assumes "lim_acquire v6 p now cx (Some sid) s = (Inr u, t)" "sid \<noteq> []"
  shows "lim_sessions t = sadd sid (lim_sessions s)"
    and "lim_global t = count_connection (lim_global s)"
    and "tracker_of (lim_ip_conns t) k = (if truthy (cx_source_ip cx) \<and> k = the (cx_source_ip cx)
           then count_connection (tracker_of (lim_ip_conns s) k) else tracker_of (lim_ip_conns s) k)"
    and "tracker_of (lim_id_conns t) k = (if truthy (cx_identity cx) \<and> k = the (cx_identity cx)
           then count_connection (tracker_of (lim_id_conns s) k) else tracker_of (lim_id_conns s) k)"
    and "truthy (cx_source_ip cx) \<Longrightarrow> has_key (lim_ip_conns t) (the (cx_source_ip cx))"
    and "truthy (cx_identity cx) \<Longrightarrow> has_key (lim_id_conns t) (the (cx_identity cx))"
    and "num_true (max_concurrent_connections (get_quotas v6 p cx)) \<Longrightarrow> truthy (cx_source_ip cx) \<Longrightarrow>
         ct_active (tracker_of (lim_ip_conns t) (the (cx_source_ip cx)))
           \<le> the (max_concurrent_connections (get_quotas v6 p cx))"
proof -
  let ?i = "cx_identity cx" and ?ip = "cx_source_ip cx" and ?q = "get_quotas v6 p cx"
  define s1 where "s1 = snd (check_global now s)"
  define s2 where "s2 = snd (check_ip now (get_rate_limits v6 p cx) ?ip s1)"
  define s3 where "s3 = snd (check_identity now (get_rate_limits v6 p cx) ?i s2)"
  have s3: "lim_sessions s3 = lim_sessions s" "lim_global s3 = lim_global s"
    "lim_ip_conns s3 = lim_ip_conns s" "lim_id_conns s3 = lim_id_conns s"
    by (simp_all add: s3_def s2_def s1_def limiter_frames)
  have "and_then (check_connections ?q ?i ?ip s3) (\<lambda>s. (Inr (), track_session (Some sid) ?i ?ip s)) = (Inr u, t)"
    using assms(1) unfolding lim_acquire_def Let_def s3_def s2_def s1_def by (blast dest: and_then_Inr)
  then have c: "fst (check_connections ?q ?i ?ip s3) = Inr ()"
    and t: "t = track_session (Some sid) ?i ?ip (snd (check_connections ?q ?i ?ip s3))"
    by (auto dest!: and_then_Inr)
  note f = check_connections_frame [of ?q ?i ?ip s3]
  show "lim_sessions t = sadd sid (lim_sessions s)" "lim_global t = count_connection (lim_global s)"
    using assms(2) by (simp_all add: t track_session_def f s3)
  show "tracker_of (lim_ip_conns t) k = (if truthy ?ip \<and> k = the ?ip
           then count_connection (tracker_of (lim_ip_conns s) k) else tracker_of (lim_ip_conns s) k)" for k
    using assms(2) by (simp add: t track_session_def f s3)
  show "tracker_of (lim_id_conns t) k = (if truthy ?i \<and> k = the ?i
           then count_connection (tracker_of (lim_id_conns s) k) else tracker_of (lim_id_conns s) k)"
    using assms(2) by (simp add: t track_session_def f s3)
  show "truthy ?ip \<Longrightarrow> has_key (lim_ip_conns t) (the ?ip)"
    "truthy ?i \<Longrightarrow> has_key (lim_id_conns t) (the ?i)"
    using assms(2) by (simp_all add: t track_session_def has_key_iff)
  assume "num_true (max_concurrent_connections ?q)" "truthy ?ip"
  then show "ct_active (tracker_of (lim_ip_conns t) (the ?ip)) \<le> the (max_concurrent_connections ?q)"
    using check_connections_limit [OF c] assms(2)
    by (simp add: t track_session_def f s3 count_connection_def)
qed

lemma tracker_of_drop_in:
  "has_key d (the k) \<or> \<not> truthy k \<Longrightarrow>
   tracker_of (drop_in k d) k' = (if truthy k \<and> k' = the k then drop_connection (tracker_of d k') else tracker_of d k')"
  by (auto simp: drop_in_def)

section \<open>Histories of calls\<close>

datatype lim_op =
    LimAcquire rat policy_context "string option"
  | LimRelease string "string option" "string option"
  | LimCheck int int policy_context int
  | LimRecord int "string option" "string option"
  | LimReset rat

definition lim_apply :: "v6match \<Rightarrow> policy \<Rightarrow> lim_op \<Rightarrow> limiter \<Rightarrow> nat \<times> limiter" where
  "lim_apply v6 p op s =
     (case op of
        LimAcquire now cx sid \<Rightarrow>
          (case lim_acquire v6 p now cx sid s of (r, s') \<Rightarrow> (of_bool (\<not> isl r), s'))
      | LimRelease sid i ip \<Rightarrow> (0, lim_release sid i ip s)
      | LimCheck yd mo cx n \<Rightarrow> (0, snd (check_bandwidth v6 p yd mo cx n s))
      | LimRecord n i ip \<Rightarrow> (0, record_bytes n i ip s)
      | LimReset now \<Rightarrow> (0, lim_reset v6 p now s))"

text \<open>
  The number of granted acquisitions of a history, the state after it, how often it resets, and the
  times at which it reads the clock.
\<close>

fun lim_run :: "v6match \<Rightarrow> policy \<Rightarrow> lim_op list \<Rightarrow> limiter \<Rightarrow> nat" where
  "lim_run v6 p [] s = 0"
| "lim_run v6 p (op # ops) s = (case lim_apply v6 p op s of (k, s') \<Rightarrow> k + lim_run v6 p ops s')"

definition lim_after :: "v6match \<Rightarrow> policy \<Rightarrow> lim_op list \<Rightarrow> limiter \<Rightarrow> limiter" where
  "lim_after v6 p ops s = fold (\<lambda>op s. snd (lim_apply v6 p op s)) ops s"

definition lim_resets :: "lim_op list \<Rightarrow> nat" where
  "lim_resets ops = length (filter (\<lambda>op. case op of LimReset _ \<Rightarrow> True | _ \<Rightarrow> False) ops)"

definition op_time :: "lim_op \<Rightarrow> rat list" where
  "op_time op = (case op of LimAcquire now _ _ \<Rightarrow> [now] | LimReset now \<Rightarrow> [now] | _ \<Rightarrow> [])"

definition op_times :: "lim_op list \<Rightarrow> rat list" where
  "op_times ops = concat (map op_time ops)"

lemma op_times_simps [simp]:
  "op_times [] = []" "op_times (op # ops) = op_time op @ op_times ops"
  "lim_resets [] = 0"
  by (simp_all add: op_times_def lim_resets_def)

lemma other_ops_bucket:
  "op_time op = [] \<Longrightarrow> lim_apply v6 p op s = (k, s') \<Longrightarrow>
   k = 0 \<and> lim_global_bucket s' = lim_global_bucket s \<and> lim_resets (op # ops) = lim_resets ops"
  by (cases op)
    (auto simp: op_time_def lim_apply_def lim_release_def check_bandwidth_def record_bytes_def Let_def
      lim_resets_def split: if_splits)

text \<open>The bucket of a policy is the same one at every time but for the time it starts at.\<close>

lemma global_bucket_at:
  "global_bucket v6 p t0 = Some g \<Longrightarrow>
   global_bucket v6 p t = Some (new_bucket t (bkt_capacity g) (bkt_rate g))"
  by (auto simp: global_bucket_def new_bucket_def Let_def split: if_splits)

text \<open>What a call does to the bucket: it grants at most what the bucket had, and a reset fills it.\<close>

definition bucket_of :: "bucket \<Rightarrow> bucket \<Rightarrow> bool" where
  "bucket_of g b \<longleftrightarrow> bucket_ok b \<and> bkt_capacity b = bkt_capacity g \<and> bkt_rate b = bkt_rate g"

lemma lim_apply_bucket:
  assumes "lim_global_bucket s = Some b" "bucket_of g b" "global_bucket v6 p t0 = Some g"
    and "lim_apply v6 p op s = (k, s')" "sorted (bkt_last b # op_time op)"
  shows "\<exists>b'. lim_global_bucket s' = Some b' \<and> bucket_of g b' \<and> bkt_last b' = last (bkt_last b # op_time op)
     \<and> bkt_tokens b' + of_nat k \<le> bkt_tokens b + of_nat (lim_resets [op]) * bkt_capacity g
          + bkt_rate g * (bkt_last b' - bkt_last b)
     \<and> (op_time op \<noteq> [] \<longrightarrow> bkt_tokens b' + of_nat k \<le> bkt_capacity g)"
proof (cases "op_time op")
  case Nil
  then show ?thesis using other_ops_bucket [OF Nil assms(4), of "[]"] assms(1,2) by simp
next
  case (Cons now ts)
  show ?thesis
  proof (cases op)
    case (LimAcquire t cx sid)
    then have op: "op = LimAcquire now cx sid" and ts: "ts = []" using Cons by (simp_all add: op_time_def)
    obtain r b' where c: "check_bucket now b = (r, b')" by (rule prod.exhaust)
    have ok: "bucket_ok b" "bkt_last b \<le> now" using assms(2,5) Cons by (simp_all add: bucket_of_def)
    obtain x where x: "lim_acquire v6 p now cx sid s = (x, s')" "k = of_bool (\<not> isl x)"
      using assms(4) by (auto simp: op lim_apply_def split: prod.splits)
    have "\<not> isl x \<Longrightarrow> \<not> isl r"
      using acquire_global_bucket(2) [OF assms(1), of v6 p now cx sid] x c by simp
    then have "(of_nat k :: rat) \<le> of_bool (\<not> isl r)" using x(2) by (auto simp: of_bool_def)
    moreover have "lim_global_bucket s' = Some b'"
      using acquire_global_bucket(1) [OF assms(1), of v6 p now cx sid] x c by simp
    moreover note check_bucket_ok [OF ok c]
    moreover have "lim_resets [op] = 0" by (simp add: op lim_resets_def)
    ultimately show ?thesis using assms(2) Cons ts by (auto simp: bucket_of_def)
  next
    case (LimReset t)
    then have op: "op = LimReset now" and ts: "ts = []" using Cons by (simp_all add: op_time_def)
    have g: "bucket_ok b" "0 \<le> bkt_rate g" "0 \<le> bkt_capacity g" "bkt_last b \<le> now"
      using assms(2,5) Cons by (auto simp: bucket_of_def bucket_ok_def)
    have "lim_global_bucket s' = Some (new_bucket now (bkt_capacity g) (bkt_rate g))" "k = 0"
      using assms(4) global_bucket_at [OF assms(3), of now] by (auto simp: op lim_apply_def lim_reset_def)
    moreover have "0 \<le> bkt_rate g * (now - bkt_last b)" using g by simp
    ultimately show ?thesis
      using g Cons ts by (auto simp: bucket_of_def bucket_ok_def new_bucket_def op lim_resets_def)
  qed (use Cons in \<open>simp_all add: op_time_def\<close>)
qed

lemma op_resets_add: "lim_resets (op # ops) = lim_resets [op] + lim_resets ops"
  by (simp add: lim_resets_def)

lemma lim_run_bound:
  assumes "lim_global_bucket s = Some b" "bucket_of g b" "global_bucket v6 p t0 = Some g"
    and "sorted (bkt_last b # op_times ops)"
  shows "of_nat (lim_run v6 p ops s)
    \<le> bkt_tokens b + of_nat (lim_resets ops) * bkt_capacity g
       + bkt_rate g * (last (bkt_last b # op_times ops) - bkt_last b)"
  using assms(1,2,4)
proof (induction ops arbitrary: s b)
  case Nil
  then show ?case by (simp add: bucket_of_def bucket_ok_def)
next
  case (Cons op ops)
  obtain k s' where k: "lim_apply v6 p op s = (k, s')" by (rule prod.exhaust)
  have st: "sorted (bkt_last b # op_time op)" "sorted (last (bkt_last b # op_time op) # op_times ops)"
    using Cons.prems(3) by (cases op; auto simp: op_time_def)+
  obtain b' where b': "lim_global_bucket s' = Some b'" "bucket_of g b'" "bkt_last b' = last (bkt_last b # op_time op)"
    "bkt_tokens b' + of_nat k \<le> bkt_tokens b + of_nat (lim_resets [op]) * bkt_capacity g
          + bkt_rate g * (bkt_last b' - bkt_last b)"
    using lim_apply_bucket [OF Cons.prems(1,2) assms(3) k st(1)] by blast
  have "of_nat (lim_run v6 p ops s') \<le> bkt_tokens b' + of_nat (lim_resets ops) * bkt_capacity g
       + bkt_rate g * (last (bkt_last b' # op_times ops) - bkt_last b')"
    using Cons.IH [OF b'(1,2)] st(2) b'(3) by simp
  moreover have "last (bkt_last b' # op_times ops) = last (bkt_last b # op_times (op # ops))"
    by (auto simp: b'(3))
  ultimately show ?case
    using b'(4) op_resets_add [of op ops] by (simp add: k algebra_simps)
qed

lemma lim_after_bucket:
  assumes "lim_global_bucket s = Some b" "bucket_of g b" "global_bucket v6 p t0 = Some g"
    and "sorted (bkt_last b # op_times ops)"
  shows "\<exists>b'. lim_global_bucket (lim_after v6 p ops s) = Some b' \<and> bucket_of g b'
     \<and> bkt_last b' = last (bkt_last b # op_times ops)"
  using assms(1,2,4)
proof (induction ops arbitrary: s b)
  case Nil
  then show ?case by (simp add: lim_after_def)
next
  case (Cons op ops)
  obtain k s' where k: "lim_apply v6 p op s = (k, s')" by (rule prod.exhaust)
  have st: "sorted (bkt_last b # op_time op)" "sorted (last (bkt_last b # op_time op) # op_times ops)"
    using Cons.prems(3) by (cases op; auto simp: op_time_def)+
  obtain b' where b': "lim_global_bucket s' = Some b'" "bucket_of g b'" "bkt_last b' = last (bkt_last b # op_time op)"
    using lim_apply_bucket [OF Cons.prems(1,2) assms(3) k st(1)] by blast
  have "last (bkt_last b' # op_times ops) = last (bkt_last b # op_times (op # ops))"
    by (auto simp: b'(3))
  then show ?case using Cons.IH [OF b'(1,2)] st(2) b'(3) k by (simp add: lim_after_def)
qed

text \<open>
  From any moment on, the bucket has at most its capacity: a window's grants do not depend on how long
  the limiter was idle before it.
\<close>

lemma lim_run_window:
  assumes "lim_global_bucket s = Some b" "bucket_of g b" "global_bucket v6 p t0 = Some g"
    and "sorted (bkt_last b # w # op_times ops)"
  shows "of_nat (lim_run v6 p ops s)
    \<le> bkt_capacity g + of_nat (lim_resets ops) * bkt_capacity g + bkt_rate g * (last (w # op_times ops) - w)"
  using assms(1,2,4)
proof (induction ops arbitrary: s b)
  case Nil
  then show ?case by (simp add: bucket_of_def bucket_ok_def)
next
  case (Cons op ops)
  obtain k s' where k: "lim_apply v6 p op s = (k, s')" by (rule prod.exhaust)
  show ?case
  proof (cases "op_time op")
    case Nil
    then show ?thesis using Cons.IH [of s' b] Cons.prems other_ops_bucket [OF Nil k, of ops] k by simp
  next
    case time: (Cons now ts)
    then have ts: "ts = []" by (cases op) (simp_all add: op_time_def)
    have st: "sorted (bkt_last b # op_time op)" "sorted (now # op_times ops)" "w \<le> now"
      using Cons.prems(3) time ts by auto
    obtain b' where b': "lim_global_bucket s' = Some b'" "bucket_of g b'" "bkt_last b' = now"
      "bkt_tokens b' + of_nat k \<le> bkt_capacity g"
      using lim_apply_bucket [OF Cons.prems(1,2) assms(3) k st(1)] time ts by auto
    have "of_nat (lim_run v6 p ops s') \<le> bkt_tokens b' + of_nat (lim_resets ops) * bkt_capacity g
         + bkt_rate g * (last (now # op_times ops) - now)"
      using lim_run_bound [OF b'(1,2) assms(3)] st(2) b'(3) by simp
    moreover have "bkt_rate g * (last (now # op_times ops) - now) \<le> bkt_rate g * (last (now # op_times ops) - w)"
      and "0 \<le> bkt_capacity g"
      using b'(2) st(3) by (auto simp: bucket_of_def bucket_ok_def intro!: mult_left_mono)
    moreover have "of_nat (lim_resets ops) * bkt_capacity g \<le> of_nat (lim_resets (op # ops)) * bkt_capacity g"
      using \<open>0 \<le> bkt_capacity g\<close> op_resets_add [of op ops] by (simp add: algebra_simps)
    ultimately have "of_nat (k + lim_run v6 p ops s') \<le> bkt_capacity g
        + of_nat (lim_resets (op # ops)) * bkt_capacity g + bkt_rate g * (last (now # op_times ops) - w)"
      using b'(4) by simp
    then show ?thesis using time ts by (simp add: k)
  qed
qed

text \<open>A bucket with less than a token refuses, and says when there will be one.\<close>

lemma check_bucket_refuses:
  assumes "bucket_ok b" "bkt_last b \<le> now" "bkt_tokens (refill now b) < 1"
  shows "fst (check_bucket now b) = Inl (RateLimitExceeded ((1 - bkt_tokens (refill now b)) / bkt_rate b))"
proof -
  have "refill now (refill now b) = refill now b"
    using refill_ok [OF assms(1,2)] by (intro refill_again) (simp_all add: bucket_ok_def)
  then show ?thesis
    using assms(3) by (simp add: check_bucket_def try_acquire_def time_until_available_def Let_def)
qed

lemma acquire_refused:
  assumes "lim_global_bucket s = Some b" "fst (check_bucket now b) = Inl e"
  shows "fst (lim_acquire v6 p now cx sid s) = Inl e"
  using assms by (auto simp: lim_acquire_def Let_def check_global_def and_then_def split: prod.splits)

lemma throttle_too_big: "bkt_capacity b < n \<Longrightarrow> throttle ts n b = None"
proof (induction ts arbitrary: b)
  case (Cons t ts)
  have "\<not> n \<le> bkt_tokens (refill t b)" "bkt_capacity (refill t (refill t b)) < n"
    using Cons.prems by (simp_all add: refill_def)
  then show ?case using Cons.IH by (simp add: try_acquire_def time_until_available_def Let_def)
qed simp

lemma throttle_in_time:
  "n \<le> bkt_capacity b \<Longrightarrow> ts \<noteq> [] \<Longrightarrow> n \<le> bkt_tokens b + (last ts - bkt_last b) * bkt_rate b \<Longrightarrow>
   throttle ts n b \<noteq> None"
proof (induction ts arbitrary: b)
  case (Cons t ts)
  show ?case
  proof (cases "n \<le> bkt_tokens (refill t b)")
    case False
    let ?b = "refill t b"
    have tok: "bkt_tokens ?b = bkt_tokens b + (t - bkt_last b) * bkt_rate b"
      using False Cons.prems(1) by (auto simp: refill_def min_def split: if_splits)
    have "refill t ?b = ?b" by (rule refill_again) (simp_all, simp add: refill_def)
    moreover have "throttle ts n ?b \<noteq> None"
    proof (rule Cons.IH)
      show "ts \<noteq> []" using False Cons.prems tok by auto
      then show "n \<le> bkt_tokens ?b + (last ts - bkt_last ?b) * bkt_rate ?b"
        using Cons.prems(3) tok by (simp add: algebra_simps)
    qed (use Cons.prems in simp)
    ultimately show ?thesis using False
      by (simp add: try_acquire_def time_until_available_def Let_def)
  qed (simp add: try_acquire_def Let_def)
qed simp

section \<open>Properties\<close>

text \<open>
  C39. The global rate limit holds in every window of every history of calls on a limiter: from a
  moment on to the last clock reading of the window, whoever acquires and whatever releases, quota
  checks and byte counts come between, and whatever happened before, at most the burst capacity of the
  policy's bucket plus its rate times the time that passes is granted, and one more burst for every
  reset in the window, which fills the bucket. An acquisition that finds less than one token after
  the refill is refused with the exact time until there is one.
\<close>

theorem rate_limit_bound:
  assumes "global_bucket v6 p t0 = Some g" "bucket_ok g"
    and "sorted (t0 # op_times before @ w # op_times ops)"
    and "s = lim_after v6 p before (new_limiter v6 p t0)"
  shows "of_nat (lim_run v6 p ops s)
      \<le> bkt_capacity g + of_nat (lim_resets ops) * bkt_capacity g + bkt_rate g * (last (w # op_times ops) - w)
    \<and> (\<exists>b. lim_global_bucket s = Some b \<and> bkt_last b = last (t0 # op_times before)
         \<and> (bkt_tokens (refill w b) < 1 \<longrightarrow>
            fst (lim_acquire v6 p w cx sid s) = Inl (RateLimitExceeded ((1 - bkt_tokens (refill w b)) / bkt_rate g))))"
proof -
  have g: "g = new_bucket t0 (bkt_capacity g) (bkt_rate g)"
    using assms(1) global_bucket_at [OF assms(1), of t0] by simp
  then have "bkt_last g = t0" by (metis bucket.select_convs(4) new_bucket_def)
  moreover have "sorted (t0 # op_times before)" using assms(3) by (auto simp: sorted_append)
  moreover have "lim_global_bucket (new_limiter v6 p t0) = Some g" by (simp add: new_limiter_def assms(1))
  ultimately obtain b where b: "lim_global_bucket s = Some b" "bucket_of g b" "bkt_last b = last (t0 # op_times before)"
    using lim_after_bucket [of "new_limiter v6 p t0" g g v6 p t0 before] assms(1,2,4) by (auto simp: bucket_of_def)
  have "last (t0 # op_times before) \<in> set (t0 # op_times before)" by (rule last_in_set) simp
  then have "sorted (bkt_last b # w # op_times ops)" using assms(3) by (auto simp: b(3) sorted_append split: if_splits)
  then have "of_nat (lim_run v6 p ops s)
      \<le> bkt_capacity g + of_nat (lim_resets ops) * bkt_capacity g + bkt_rate g * (last (w # op_times ops) - w)"
    and le: "bkt_last b \<le> w"
    using lim_run_window [OF b(1,2) assms(1)] by simp_all
  moreover have "fst (lim_acquire v6 p w cx sid s) = Inl (RateLimitExceeded ((1 - bkt_tokens (refill w b)) / bkt_rate g))"
    if "bkt_tokens (refill w b) < 1"
    using acquire_refused [OF b(1) check_bucket_refuses [OF _ le that]] b(2) by (simp add: bucket_of_def)
  ultimately show ?thesis using b by blast
qed

definition limited_policy :: policy where
  "limited_policy = default_policy\<lparr>po_rate_limits := no_rate_limits\<lparr>requests_per_second := Some 1\<rparr>\<rparr>"

lemma limited_bucket: "global_bucket (\<lambda>_ _. False) limited_policy t = Some (new_bucket t 2 1)"
  by (simp add: global_bucket_def get_rate_limits_def sorted_rules_def limited_policy_def
      default_policy_def no_rate_limits_def num_true_def)

text \<open>Six acquisitions at time 5 around a reset: two of them are refused.\<close>

theorem rate_limit_bound_witness:
  "lim_run (\<lambda>_ _. False) limited_policy
     [LimAcquire 5 no_context None, LimAcquire 5 no_context None, LimAcquire 5 no_context None, LimReset 5,
      LimAcquire 5 no_context None, LimAcquire 5 no_context None, LimAcquire 5 no_context None]
     (lim_after (\<lambda>_ _. False) limited_policy [LimAcquire 1 no_context None]
        (new_limiter (\<lambda>_ _. False) limited_policy 0)) \<le> 4"
proof -
  let ?a = "LimAcquire 5 no_context None"
  let ?ops = "[?a, ?a, ?a, LimReset 5, ?a, ?a, ?a]" and ?before = "[LimAcquire 1 no_context None]"
  let ?s = "lim_after (\<lambda>_ _. False) limited_policy ?before (new_limiter (\<lambda>_ _. False) limited_policy 0)"
  have "bucket_ok (new_bucket 0 2 1)" by (simp add: bucket_ok_def new_bucket_def)
  moreover have "sorted (0 # op_times ?before @ 5 # op_times ?ops)" by (simp add: op_time_def)
  ultimately have "of_nat (lim_run (\<lambda>_ _. False) limited_policy ?ops ?s) \<le> (4 :: rat)"
    using conjunct1 [OF rate_limit_bound [OF limited_bucket _ _ refl, of 0 ?before 5 ?ops]]
    by (simp add: op_time_def new_bucket_def lim_resets_def)
  then show ?thesis by (metis of_nat_le_iff of_nat_numeral)
qed

text \<open>
  Sessions and counters: a granted session stays within the concurrency limit of its address, and
  releasing it restores the active counts of every address and identity and the set of sessions. If
  the session identifier was already in use, the release takes away one session of the two, and the
  counts are left one too high for good.
\<close>

theorem session_accounting:
  assumes acq: "lim_acquire v6 p now cx (Some sid) s = (Inr u, t)" and sid: "sid \<noteq> []"
  defines "r \<equiv> lim_release sid (cx_identity cx) (cx_source_ip cx) t"
  shows "(num_true (max_concurrent_connections (get_quotas v6 p cx)) \<longrightarrow> truthy (cx_source_ip cx) \<longrightarrow>
        ct_active (tracker_of (lim_ip_conns t) (the (cx_source_ip cx)))
          \<le> the (max_concurrent_connections (get_quotas v6 p cx)))
    \<and> ct_active (lim_global r) = ct_active (lim_global s)
    \<and> (\<forall>k. ct_active (tracker_of (lim_ip_conns r) k) = ct_active (tracker_of (lim_ip_conns s) k))
    \<and> (\<forall>k. ct_active (tracker_of (lim_id_conns r) k) = ct_active (tracker_of (lim_id_conns s) k))
    \<and> lim_sessions r = sdiscard sid (lim_sessions s)
    \<and> lim_release sid (cx_identity cx) (cx_source_ip cx) r = r"
proof -
  note a = acquire_ok [OF acq sid]
  have "sid \<in> set (lim_sessions t)" by (simp add: a(1))
  then have r: "r = t\<lparr>lim_sessions := sdiscard sid (lim_sessions t), lim_global := drop_connection (lim_global t),
      lim_ip_conns := drop_in (cx_source_ip cx) (lim_ip_conns t),
      lim_id_conns := drop_in (cx_identity cx) (lim_id_conns t)\<rparr>"
    by (simp add: r_def lim_release_def)
  have "sid \<notin> set (lim_sessions r)" by (simp add: r)
  then have "lim_release sid (cx_identity cx) (cx_source_ip cx) r = r" by (simp add: lim_release_def)
  moreover have "sdiscard sid (sadd sid xs) = sdiscard sid xs" for xs by (auto simp: sdiscard_def sadd_def)
  moreover have "ct_active (tracker_of (lim_ip_conns r) k) = ct_active (tracker_of (lim_ip_conns s) k)" for k
    using a(5) by (simp add: r tracker_of_drop_in disj_commute drop_connection_def count_connection_def a(3))
  moreover have "ct_active (tracker_of (lim_id_conns r) k) = ct_active (tracker_of (lim_id_conns s) k)" for k
    using a(6) by (simp add: r tracker_of_drop_in disj_commute drop_connection_def count_connection_def a(4))
  ultimately show ?thesis
    using a(7) by (simp add: r a(1,2) drop_connection_def count_connection_def)
qed

theorem session_accounting_witness:
  "\<exists>t. lim_acquire (\<lambda>_ _. False) default_policy 0 no_context (Some ''s'')
        (new_limiter (\<lambda>_ _. False) default_policy 0) = (Inr (), t)
     \<and> ct_active (lim_global (lim_release ''s'' None None t)) = 0"
proof -
  let ?s = "new_limiter (\<lambda>_ _. False) default_policy 0"
  obtain t where t: "lim_acquire (\<lambda>_ _. False) default_policy 0 no_context (Some ''s'') ?s = (Inr (), t)"
    by (simp add: lim_acquire_def Let_def and_then_def check_global_def check_ip_def check_identity_def
        check_connections_def new_limiter_def global_bucket_def get_rate_limits_def get_quotas_def
        sorted_rules_def default_policy_def no_rate_limits_def no_quotas_def no_context_def num_true_def)
  then show ?thesis
    using session_accounting [OF t] by (simp add: no_context_def new_limiter_def new_tracker_def)
qed

text \<open>
  The throttler: data within the bucket's capacity is let through at the latest at the first attempt
  when the bucket would have refilled for it, and data larger than one second's allowance is never
  let through, however often it tries. The chunks of a stream are its data in order.
\<close>

theorem throttle_returns:
  "(\<forall>ts. n \<le> bkt_capacity b \<longrightarrow> ts \<noteq> [] \<longrightarrow> n \<le> bkt_tokens b + (last ts - bkt_last b) * bkt_rate b \<longrightarrow>
      throttle ts n b \<noteq> None)
   \<and> (bkt_capacity b < n \<longrightarrow> (\<forall>ts. throttle ts n b = None))
   \<and> (0 < k \<longrightarrow> concat (stream_chunks k data) = data)"
  by (simp add: throttle_in_time throttle_too_big stream_chunks_def concat_groups)

theorem throttle_returns_witness:
  "throttle [0, 1 / 2, 1] 8192 (new_bucket 0 1000 1000) = None
   \<and> throttle [0, 1] 900 ((new_bucket 0 1000 1000)\<lparr>bkt_tokens := 0\<rparr>) \<noteq> None
   \<and> concat (stream_chunks 2 [1, 2, 3]) = [1, 2, 3]"
  using throttle_returns [of 8192 "new_bucket 0 1000 1000" 2 "[1, 2, 3]"]
    throttle_returns [of 900 "(new_bucket 0 1000 1000)\<lparr>bkt_tokens := 0\<rparr>" 2 "[1, 2, 3]"]
  by (simp add: new_bucket_def del: throttle.simps)

end
