(* ===== verification/Audit_Log.thy ===== *)
theory Audit_Log
  imports Ent_Namespace
begin

text \<open>
  \<^verbatim>\<open>src/wh/enterprise/audit.py\<close>: audit events, their JSON form, the filters and the logger. The
  handlers are modelled by the sequence of records they are given, a record being written with a
  line feed; rotation of the file is the logging library's. A callback is a name, and calling it is
  recorded: an exception of a callback is caught and changes nothing.
\<close>

datatype audit_event_type =
    CONNECTION_START | CONNECTION_END | AUTH_SUCCESS | AUTH_FAILURE | FILE_TRANSFER | COMMAND_EXEC
  | POLICY_VIOLATION | NAMESPACE_CHANGE | CONFIG_CHANGE | AUDIT_ERROR

fun event_value :: "audit_event_type \<Rightarrow> string" where
  "event_value CONNECTION_START = ''connection_start''"
| "event_value CONNECTION_END = ''connection_end''"
| "event_value AUTH_SUCCESS = ''auth_success''"
| "event_value AUTH_FAILURE = ''auth_failure''"
| "event_value FILE_TRANSFER = ''file_transfer''"
| "event_value COMMAND_EXEC = ''command_exec''"
| "event_value POLICY_VIOLATION = ''policy_violation''"
| "event_value NAMESPACE_CHANGE = ''namespace_change''"
| "event_value CONFIG_CHANGE = ''config_change''"
| "event_value AUDIT_ERROR = ''error''"

record audit_event =
  ev_type :: audit_event_type
  ev_timestamp :: string
  ev_identity :: "string option"
  ev_namespace :: "string option"
  ev_source_ip :: "string option"
  ev_details :: jdict
  ev_session_id :: "string option"
  ev_success :: bool

definition event_to_dict :: "audit_event \<Rightarrow> jdict" where
  "event_to_dict e =
     [(''event'', JStr (event_value (ev_type e))), (''timestamp'', JStr (ev_timestamp e)),
      (''success'', JBool (ev_success e))]
     @ opt_entry ''identity'' (ev_identity e) @ opt_entry ''namespace'' (ev_namespace e)
     @ opt_entry ''source_ip'' (ev_source_ip e) @ opt_entry ''session_id'' (ev_session_id e)
     @ (if ev_details e = [] then [] else [(''details'', JObj (ev_details e))])"

definition event_to_json :: "audit_event \<Rightarrow> string" where
  "event_to_json e = json_dumps None (JObj (event_to_dict e))"

record audit_config =
  au_log_file :: "string option"
  au_log_to_stdout :: bool
  au_filter_events :: "audit_event_type list option"
  au_success_only :: bool
  au_json_pretty :: bool

record 'c audit_logger =
  al_config :: audit_config
  al_handlers :: nat
  al_records :: "string list"
  al_callbacks :: "'c list"
  al_calls :: "('c \<times> audit_event) list"

text \<open>\<^verbatim>\<open>log_file\<close> overrides the configured one; each configured destination is a handler.\<close>

definition new_audit_logger :: "string option \<Rightarrow> audit_config \<Rightarrow> 'c audit_logger" where
  "new_audit_logger log_file c0 =
     (let c = (if truthy log_file then c0\<lparr>au_log_file := log_file\<rparr> else c0)
      in \<lparr>al_config = c,
          al_handlers = of_bool (truthy (au_log_file c)) + of_bool (au_log_to_stdout c),
          al_records = [], al_callbacks = [], al_calls = []\<rparr>)"

definition add_callback :: "'c \<Rightarrow> 'c audit_logger \<Rightarrow> 'c audit_logger" where
  "add_callback c l = l\<lparr>al_callbacks := al_callbacks l @ [c]\<rparr>"

definition remove_callback :: "'c \<Rightarrow> 'c audit_logger \<Rightarrow> 'c audit_logger" where
  "remove_callback c l = l\<lparr>al_callbacks := remove1 c (al_callbacks l)\<rparr>"

definition should_log :: "audit_config \<Rightarrow> audit_event \<Rightarrow> bool" where
  "should_log c e \<longleftrightarrow>
     (case au_filter_events c of None \<Rightarrow> True | Some fs \<Rightarrow> fs = [] \<or> ev_type e \<in> set fs)
     \<and> \<not> (au_success_only c \<and> \<not> ev_success e)"

definition log_line :: "audit_config \<Rightarrow> audit_event \<Rightarrow> string" where
  "log_line c e =
     (if au_json_pretty c then json_dumps (Some 2) (JObj (event_to_dict e)) else event_to_json e)"

definition log_event :: "audit_event \<Rightarrow> 'c audit_logger \<Rightarrow> 'c audit_logger" where
  "log_event e l =
     (if \<not> should_log (al_config l) e then l
      else l\<lparr>al_records := al_records l @ [log_line (al_config l) e],
             al_calls := al_calls l @ map (\<lambda>c. (c, e)) (al_callbacks l)\<rparr>)"

text \<open>The convenience methods: the event each of them logs.\<close>

definition audit_log ::
  "string \<Rightarrow> audit_event_type \<Rightarrow> jdict \<Rightarrow> string option \<Rightarrow> string option \<Rightarrow> string option \<Rightarrow>
   string option \<Rightarrow> bool \<Rightarrow> audit_event" where
  "audit_log now t details i ns ip sid ok =
     \<lparr>ev_type = t, ev_timestamp = now, ev_identity = i, ev_namespace = ns, ev_source_ip = ip,
      ev_details = details, ev_session_id = sid, ev_success = ok\<rparr>"

definition connection_start ::
  "string \<Rightarrow> string \<Rightarrow> string option \<Rightarrow> string option \<Rightarrow> string option \<Rightarrow> string option \<Rightarrow> audit_event" where
  "connection_start now code peer i ns sid =
     audit_log now CONNECTION_START [(''code'', JStr code), (''peer_address'', opt_jstr peer)] i ns peer sid
       True"

definition opt_field :: "string \<Rightarrow> jval option \<Rightarrow> jdict" where
  "opt_field k v = (case v of None \<Rightarrow> [] | Some x \<Rightarrow> [(k, x)])"

definition connection_end ::
  "string \<Rightarrow> string \<Rightarrow> jval option \<Rightarrow> int option \<Rightarrow> int option \<Rightarrow> string option \<Rightarrow> string option \<Rightarrow>
   string option \<Rightarrow> audit_event" where
  "connection_end now code duration sent received i ns sid =
     audit_log now CONNECTION_END
       ([(''code'', JStr code)] @ opt_field ''duration_seconds'' duration
        @ opt_field ''bytes_sent'' (map_option JInt sent)
        @ opt_field ''bytes_received'' (map_option JInt received))
       i ns None sid True"

definition auth_success_event ::
  "string \<Rightarrow> string \<Rightarrow> string \<Rightarrow> string option \<Rightarrow> string option \<Rightarrow> string option \<Rightarrow> audit_event" where
  "auth_success_event now meth i ip ns sid =
     audit_log now AUTH_SUCCESS [(''method'', JStr meth)] (Some i) ns ip sid True"

definition auth_failure_event ::
  "string \<Rightarrow> string \<Rightarrow> string option \<Rightarrow> string option \<Rightarrow> string option \<Rightarrow> string option \<Rightarrow>
   string option \<Rightarrow> audit_event" where
  "auth_failure_event now meth attempted reason ip ns sid =
     audit_log now AUTH_FAILURE
       ([(''method'', JStr meth)] @ opt_entry ''reason'' reason
        @ opt_entry ''attempted_identity'' attempted)
       None ns ip sid False"

definition file_transfer ::
  "string \<Rightarrow> string \<Rightarrow> string \<Rightarrow> int \<Rightarrow> string option \<Rightarrow> string option \<Rightarrow> string option \<Rightarrow>
   string option \<Rightarrow> bool \<Rightarrow> audit_event" where
  "file_transfer now filename direction size_bytes i ip ns sid ok =
     audit_log now FILE_TRANSFER
       [(''filename'', JStr filename), (''direction'', JStr direction), (''size_bytes'', JInt size_bytes)]
       i ns ip sid ok"

definition command_exec ::
  "string \<Rightarrow> string \<Rightarrow> int option \<Rightarrow> string option \<Rightarrow> string option \<Rightarrow> string option \<Rightarrow>
   string option \<Rightarrow> audit_event" where
  "command_exec now command exit_code i ip ns sid =
     audit_log now COMMAND_EXEC
       ([(''command'', JStr command)] @ opt_field ''exit_code'' (map_option JInt exit_code))
       i ns ip sid (case exit_code of None \<Rightarrow> True | Some n \<Rightarrow> n = 0)"

definition policy_violation ::
  "string \<Rightarrow> string \<Rightarrow> string \<Rightarrow> string option \<Rightarrow> string option \<Rightarrow> string option \<Rightarrow>
   string option \<Rightarrow> audit_event" where
  "policy_violation now policy_type violation i ip ns sid =
     audit_log now POLICY_VIOLATION
       [(''policy_type'', JStr policy_type), (''violation'', JStr violation)] i ns ip sid False"

definition namespace_change ::
  "string \<Rightarrow> string \<Rightarrow> string \<Rightarrow> string option \<Rightarrow> string option \<Rightarrow> string option \<Rightarrow> audit_event" where
  "namespace_change now action ns i ip sid =
     audit_log now NAMESPACE_CHANGE [(''action'', JStr action)] i (Some ns) ip sid True"

definition close_audit :: "'c audit_logger \<Rightarrow> 'c audit_logger" where
  "close_audit l = l\<lparr>al_handlers := 0\<rparr>"

section \<open>One event, one line\<close>

text \<open>Number literals, the only text that is written as it is, have no line feed.\<close>

fun plain_val :: "jval \<Rightarrow> bool" and plain_vals :: "jval list \<Rightarrow> bool"
  and plain_pairs :: "(string \<times> jval) list \<Rightarrow> bool" where
  "plain_val (JFloat l) = (CHR 0x0A \<notin> set l)"
| "plain_val (JList vs) = plain_vals vs"
| "plain_val (JObj kvs) = plain_pairs kvs"
| "plain_val _ = True"
| "plain_vals [] = True"
| "plain_vals (v # vs) = (plain_val v \<and> plain_vals vs)"
| "plain_pairs [] = True"
| "plain_pairs ((k, v) # kvs) = (plain_val v \<and> plain_pairs kvs)"

lemma newline_hex: "n < 16 \<Longrightarrow> hex_digit n \<noteq> CHR 0x0A"
proof
  assume n: "n < 16" and "hex_digit n = CHR 0x0A"
  then have "cp (hex_digit n) = 10" by (simp add: cp_def)
  moreover have "cp (hex_digit n) = (if n < 10 then 48 + n else 87 + n)" using n by (simp add: hex_digit_def)
  ultimately show False by (simp split: if_splits)
qed

lemma newline_json_char: "CHR 0x0A \<notin> set (json_char c)"
proof -
  have "cp c div 16 < 16" using cp_less [of c] by (simp add: less_mult_imp_div_less)
  moreover have "cp c = 10 \<longleftrightarrow> c = CHR 0x0A" by (rule cp_control)
  ultimately show ?thesis
    using newline_hex [of "cp c div 16"] newline_hex [of "cp c mod 16"]
    by (auto simp: json_char_def)
qed

lemma newline_json_string: "CHR 0x0A \<notin> set (json_string s)"
  using newline_json_char by (auto simp: json_string_def)

lemma newline_show_int: "CHR 0x0A \<notin> set (show_int n)"
  using show_int_chars [of "CHR 0x0A" n] by (auto simp: is_dec_def cp_def)

lemma dump_one_line:
  shows "plain_val v \<Longrightarrow> CHR 0x0A \<notin> set (dump_val None d v)"
    and "plain_vals vs \<Longrightarrow> CHR 0x0A \<notin> set (dump_tail None d vs)"
    and "plain_pairs kvs \<Longrightarrow> CHR 0x0A \<notin> set (dump_pairs None d kvs)"
  by (induction "None :: nat option" d v and "None :: nat option" d vs and "None :: nat option" d kvs
      rule: dump_val_dump_tail_dump_pairs.induct)
    (auto simp: newline_json_string newline_show_int json_nl_def json_sep_def)

lemma plain_pairs_append: "plain_pairs (xs @ ys) \<longleftrightarrow> plain_pairs xs \<and> plain_pairs ys"
  by (induction xs) auto

lemma plain_opt_entry: "plain_pairs (opt_entry k x)"
  by (auto simp: opt_entry_def split: option.split)

lemma plain_event: "plain_pairs (ev_details e) \<Longrightarrow> plain_pairs (event_to_dict e)"
  by (simp add: event_to_dict_def plain_pairs_append plain_opt_entry)

lemma log_all:
  "al_records (fold log_event es l) = al_records l @ map (log_line (al_config l)) (filter (should_log (al_config l)) es)
   \<and> al_calls (fold log_event es l) = al_calls l
       @ concat (map (\<lambda>e. map (\<lambda>c. (c, e)) (al_callbacks l)) (filter (should_log (al_config l)) es))
   \<and> al_config (fold log_event es l) = al_config l \<and> al_callbacks (fold log_event es l) = al_callbacks l"
  by (induction es arbitrary: l) (auto simp: log_event_def)

lemma split_lines:
  "(\<And>s. s \<in> set ls \<Longrightarrow> c \<notin> set s) \<Longrightarrow> split_on c (concat (map (\<lambda>s. s @ [c]) ls)) = ls @ ['''']"
  by (induction ls) (auto simp: split_on_append)

section \<open>Properties\<close>

text \<open>
  The audit log cannot be forged through what is logged: for every sequence of events, whatever
  text their fields hold, the lines a handler writes, one record and a line feed at a time, are
  exactly the JSON texts of the events the filters admit, one line each and in order; the callbacks
  are called for the same events.
\<close>

theorem audit_lines_are_events:
  fixes l :: "'c audit_logger"
  assumes "\<not> au_json_pretty (al_config l)" "al_records l = []" "al_calls l = []"
    and "\<And>e. e \<in> set es \<Longrightarrow> plain_pairs (ev_details e)"
  shows "split_on (CHR 0x0A) (concat (map (\<lambda>s. s @ [CHR 0x0A]) (al_records (fold log_event es l))))
      = map event_to_json (filter (should_log (al_config l)) es) @ ['''']
    \<and> al_calls (fold log_event es l)
      = concat (map (\<lambda>e. map (\<lambda>c. (c, e)) (al_callbacks l)) (filter (should_log (al_config l)) es))"
proof -
  have r: "al_records (fold log_event es l) = map event_to_json (filter (should_log (al_config l)) es)"
    using log_all [of es l] assms(1,2) by (simp add: log_line_def cong: map_cong)
  have "CHR 0x0A \<notin> set (event_to_json e)" if "e \<in> set es" for e
    unfolding event_to_json_def json_dumps_def
    by (rule dump_one_line(1)) (use plain_event [OF assms(4) [OF that]] in simp)
  then have "split_on (CHR 0x0A) (concat (map (\<lambda>s. s @ [CHR 0x0A]) (al_records (fold log_event es l))))
      = map event_to_json (filter (should_log (al_config l)) es) @ ['''']"
    unfolding r by (intro split_lines) auto
  moreover have "al_calls (fold log_event es l)
      = concat (map (\<lambda>e. map (\<lambda>c. (c, e)) (al_callbacks l)) (filter (should_log (al_config l)) es))"
    using log_all [of es l] assms(3) by simp
  ultimately show ?thesis by (rule conjI)
qed

definition forging_event :: audit_event where
  "forging_event = auth_failure_event ''t'' ''password'' (Some (''x'' @ [CHR 0x0A] @ ''{}'')) None None None None"

theorem audit_lines_are_events_witness:
  "length (split_on (CHR 0x0A) (concat (map (\<lambda>s. s @ [CHR 0x0A])
     (al_records (fold log_event [forging_event]
        (new_audit_logger None \<lparr>au_log_file = None, au_log_to_stdout = True, au_filter_events = None,
           au_success_only = False, au_json_pretty = False\<rparr> :: nat audit_logger)))))) = 2"
proof -
  let ?l = "new_audit_logger None \<lparr>au_log_file = None, au_log_to_stdout = True, au_filter_events = None,
           au_success_only = False, au_json_pretty = False\<rparr> :: nat audit_logger"
  have c: "should_log (al_config ?l) forging_event" by (simp add: should_log_def new_audit_logger_def)
  have "plain_pairs (ev_details forging_event)"
    by (simp add: forging_event_def auth_failure_event_def audit_log_def opt_entry_def)
  then show ?thesis
    using audit_lines_are_events [of ?l "[forging_event]"] c by (simp add: new_audit_logger_def)
qed

end
