(* ===== verification/Auth.thy ===== *)
theory Auth
  imports Identity
begin

text \<open>
  \<^verbatim>\<open>src/wh/enterprise/auth.py\<close>: the authenticators. A file is the list of its lines. PyNaCl, bcrypt
  and the LDAP directory are parameters; random challenges are arguments. The messages of a failed
  result are a datatype.
\<close>

datatype auth_method = AuthNone | AuthPubkey | AuthPassword | AuthLdap

datatype auth_error =
    MissingKeyOrSignature | KeyNotAuthorized | SignatureFailed | MissingUserOrPassword
  | InvalidCredentials | BcryptMissing | AuthenticationError | UserNotFound | NotInGroup string
  | LdapMissing | LdapError

record auth_result =
  ar_success :: bool
  ar_identity :: "string option"
  ar_groups :: "string list"
  ar_error :: "auth_error option"
  ar_metadata :: "(string, string) dict"

definition auth_fail :: "auth_error \<Rightarrow> auth_result" where
  "auth_fail e =
     \<lparr>ar_success = False, ar_identity = None, ar_groups = [], ar_error = Some e, ar_metadata = []\<rparr>"

definition auth_pass :: "string \<Rightarrow> string list \<Rightarrow> (string, string) dict \<Rightarrow> auth_result" where
  "auth_pass i gs meta =
     \<lparr>ar_success = True, ar_identity = Some i, ar_groups = gs, ar_error = None, ar_metadata = meta\<rparr>"

type_synonym credentials = "(string, string) dict"

definition no_authenticate :: "credentials \<Rightarrow> auth_result" where
  "no_authenticate c = auth_pass ''anonymous'' [] [(''method'', ''none'')]"

section \<open>Public keys\<close>

text \<open>\<^verbatim>\<open>Base64Encoder.decode(s.encode())\<close>: decoding of bytes skips every byte outside the alphabet.\<close>

definition b64decode_utf8 :: "string \<Rightarrow> bytes result" where
  "b64decode_utf8 s = a2b_base64 (map char_of_byte (encode_utf8 s)) 0 0 0"

text \<open>\<^verbatim>\<open>line.split(None, 1)\<close> on a stripped line.\<close>

definition split_blank :: "string \<Rightarrow> string \<times> string option" where
  "split_blank s =
     (let r = lstrip (dropWhile (\<lambda>c. \<not> is_space c) s)
      in (takeWhile (\<lambda>c. \<not> is_space c) s, if r = [] then None else Some r))"

definition load_key_line :: "nat \<times> string \<Rightarrow> (string, string) dict \<Rightarrow> (string, string) dict" where
  "load_key_line nl keys =
     (let line = strip (snd nl) in
      if line = [] \<or> startswith line ''#'' then keys
      else
        (case split_blank line of
           (key, rest) \<Rightarrow>
             (case b64decode_utf8 key of
                Inl _ \<Rightarrow> keys
              | Inr bs \<Rightarrow>
                  if length bs = 32
                  then dset key (case rest of Some k \<Rightarrow> k | None \<Rightarrow> ''key-'' @ show_nat (fst nl)) keys
                  else keys)))"

definition load_keys :: "string list option \<Rightarrow> (string, string) dict" where
  "load_keys file =
     (case file of
        None \<Rightarrow> []
      | Some lines \<Rightarrow> fold load_key_line (zip [1..<length lines + 1] lines) [])"

record pubkey_auth =
  pk_keys :: "(string, string) dict"
  pk_challenge :: bytes

definition new_pubkey_auth :: "string list option \<Rightarrow> bytes \<Rightarrow> pubkey_auth" where
  "new_pubkey_auth file rnd = \<lparr>pk_keys = load_keys file, pk_challenge = rnd\<rparr>"

definition reload_keys :: "string list option \<Rightarrow> pubkey_auth \<Rightarrow> pubkey_auth" where
  "reload_keys file a = a\<lparr>pk_keys := load_keys file\<rparr>"

definition pubkey_get_challenge :: "bytes \<Rightarrow> pubkey_auth \<Rightarrow> (string, string) dict \<times> pubkey_auth" where
  "pubkey_get_challenge rnd a =
     ([(''method'', ''pubkey''), (''challenge'', b64encode rnd)], a\<lparr>pk_challenge := rnd\<rparr>)"

text \<open>
  \<^verbatim>\<open>VerifyKey(key).verify(challenge, signature)\<close>: a key of 32 bytes and a signature of 64 that
  opens; everything else raises.
\<close>

definition verify_signature :: "nacl \<Rightarrow> bytes \<Rightarrow> bytes \<Rightarrow> bytes \<Rightarrow> bool" where
  "verify_signature nc key msg sig \<longleftrightarrow>
     length key = 32 \<and> length sig = 64 \<and> open_ok nc key (sig @ msg)"

definition pubkey_authenticate :: "nacl \<Rightarrow> pubkey_auth \<Rightarrow> credentials \<Rightarrow> auth_result" where
  "pubkey_authenticate nc a c =
     (let key = dget c ''public_key''; sig = dget c ''signature'' in
      if \<not> truthy key \<or> \<not> truthy sig then auth_fail MissingKeyOrSignature
      else
        (case dget (pk_keys a) (the key) of
           None \<Rightarrow> auth_fail KeyNotAuthorized
         | Some key_id \<Rightarrow>
             (case (b64decode_utf8 (the key), b64decode_utf8 (the sig)) of
                (Inr kb, Inr sb) \<Rightarrow>
                  if verify_signature nc kb (pk_challenge a) sb
                  then auth_pass key_id [] [(''method'', ''pubkey''), (''public_key'', take 16 (the key) @ ''...'')]
                  else auth_fail SignatureFailed
              | _ \<Rightarrow> auth_fail SignatureFailed)))"

section \<open>Passwords\<close>

definition load_user_line :: "string \<Rightarrow> (string, string) dict \<Rightarrow> (string, string) dict" where
  "load_user_line line0 users =
     (let line = strip line0 in
      if line = [] \<or> startswith line ''#'' \<or> CHR '':'' \<notin> set line then users
      else (case split1 CHR '':'' line of (u, h) \<Rightarrow> dset u h users))"

definition load_users :: "string list option \<Rightarrow> (string, string) dict" where
  "load_users file = (case file of None \<Rightarrow> [] | Some lines \<Rightarrow> fold load_user_line lines [])"

definition is_bcrypt :: "string \<Rightarrow> bool" where
  "is_bcrypt h \<longleftrightarrow> startswith h ''$2a$'' \<or> startswith h ''$2b$'' \<or> startswith h ''$2y$''"

text \<open>\<^verbatim>\<open>checkpw\<close>: \<^const>\<open>None\<close> when bcrypt is not installed, \<^const>\<open>Inl\<close> when it raises.\<close>

type_synonym bcrypt = "(bytes \<Rightarrow> bytes \<Rightarrow> bool result) option"

definition password_authenticate :: "bcrypt \<Rightarrow> (string, string) dict \<Rightarrow> credentials \<Rightarrow> auth_result" where
  "password_authenticate bc users c =
     (let user = dget c ''username''; pw = dget c ''password'' in
      if \<not> truthy user \<or> \<not> truthy pw then auth_fail MissingUserOrPassword
      else if \<not> truthy (dget users (the user)) then auth_fail InvalidCredentials
      else
        (let h = the (dget users (the user)) in
         if is_bcrypt h then
           (case bc of
              None \<Rightarrow> auth_fail BcryptMissing
            | Some checkpw \<Rightarrow>
                (case checkpw (encode_utf8 (the pw)) (encode_utf8 h) of
                   Inl _ \<Rightarrow> auth_fail AuthenticationError
                 | Inr True \<Rightarrow> auth_pass (the user) [] [(''method'', ''password'')]
                 | Inr False \<Rightarrow> auth_fail InvalidCredentials))
         else if the pw = h then
           auth_pass (the user) [] [(''method'', ''password''), (''warning'', ''plaintext password'')]
         else auth_fail InvalidCredentials))"

section \<open>LDAP\<close>

text \<open>
  The directory: binding with a name and a password (\<^const>\<open>None\<close> for an anonymous bind), and
  searching under a base with a filter, the entries found with their \<^verbatim>\<open>memberOf\<close> values;
  \<^const>\<open>None\<close> for the directory when ldap3 is not installed, \<^const>\<open>Inl\<close> when a call raises.
\<close>

record ldap_dir =
  ld_bind :: "(string \<times> string) option \<Rightarrow> unit result"
  ld_search :: "string \<Rightarrow> string \<Rightarrow> (string \<times> string list) list result"

record ldap_auth =
  la_base_dn :: string
  la_bind_dn :: "string option"
  la_bind_password :: "string option"
  la_user_filter :: string
  la_required_group :: "string option"

definition ldap_authenticate :: "ldap_dir option \<Rightarrow> ldap_auth \<Rightarrow> credentials \<Rightarrow> auth_result" where
  "ldap_authenticate dir a c =
     (let user = dget c ''username''; pw = dget c ''password'' in
      if \<not> truthy user \<or> \<not> truthy pw then auth_fail MissingUserOrPassword
      else
        (case dir of
           None \<Rightarrow> auth_fail LdapMissing
         | Some d \<Rightarrow>
             (case format_field ''username'' (the user) (la_user_filter a) of
                None \<Rightarrow> auth_fail LdapError
              | Some flt \<Rightarrow>
                  (let service = (if truthy (la_bind_dn a) \<and> truthy (la_bind_password a)
                                  then Some (the (la_bind_dn a), the (la_bind_password a)) else None) in
                   case ld_bind d service of
                     Inl _ \<Rightarrow> auth_fail LdapError
                   | Inr _ \<Rightarrow>
                       (case ld_search d (la_base_dn a) flt of
                          Inl _ \<Rightarrow> auth_fail LdapError
                        | Inr [] \<Rightarrow> auth_fail UserNotFound
                        | Inr ((dn, member_of) # _) \<Rightarrow>
                            (case ld_bind d (Some (dn, the pw)) of
                               Inl _ \<Rightarrow> auth_fail LdapError
                             | Inr _ \<Rightarrow>
                                 if truthy (la_required_group a)
                                    \<and> \<not> list_ex (\<lambda>g. contains g (the (la_required_group a))) member_of
                                 then auth_fail (NotInGroup (the (la_required_group a)))
                                 else auth_pass (the user) member_of [(''method'', ''ldap''), (''dn'', dn)]))))))"

section \<open>The factory\<close>

datatype authenticator =
    NoAuth
  | PubkeyAuth pubkey_auth
  | PasswordAuth "(string, string) dict"
  | LdapAuth ldap_auth

text \<open>\<^verbatim>\<open>files\<close> gives the lines of the file at a path.\<close>

definition create_authenticator ::
  "(string \<Rightarrow> string list option) \<Rightarrow> bytes \<Rightarrow> auth_method \<Rightarrow> string option \<Rightarrow> string option \<Rightarrow>
   string option \<Rightarrow> string option \<Rightarrow> string option \<Rightarrow> string option \<Rightarrow> string \<Rightarrow> string option \<Rightarrow>
   authenticator result" where
  "create_authenticator files rnd m keys pwfile server base bind_dn bind_pw user_filter req_group =
     (case m of
        AuthNone \<Rightarrow> Inr NoAuth
      | AuthPubkey \<Rightarrow>
          if \<not> truthy keys then Inl ValueError else Inr (PubkeyAuth (new_pubkey_auth (files (the keys)) rnd))
      | AuthPassword \<Rightarrow>
          if \<not> truthy pwfile then Inl ValueError else Inr (PasswordAuth (load_users (files (the pwfile))))
      | AuthLdap \<Rightarrow>
          if \<not> truthy server \<or> \<not> truthy base then Inl ValueError
          else Inr (LdapAuth \<lparr>la_base_dn = the base, la_bind_dn = bind_dn, la_bind_password = bind_pw,
                              la_user_filter = user_filter, la_required_group = req_group\<rparr>))"

definition authenticate ::
  "nacl \<Rightarrow> bcrypt \<Rightarrow> ldap_dir option \<Rightarrow> authenticator \<Rightarrow> credentials \<Rightarrow> auth_result" where
  "authenticate nc bc dir a c =
     (case a of
        NoAuth \<Rightarrow> no_authenticate c
      | PubkeyAuth p \<Rightarrow> pubkey_authenticate nc p c
      | PasswordAuth us \<Rightarrow> password_authenticate bc us c
      | LdapAuth l \<Rightarrow> ldap_authenticate dir l c)"

text \<open>\<^verbatim>\<open>get_challenge\<close> of each authenticator; only the one for public keys keeps what it sent.\<close>

definition get_challenge ::
  "bytes \<Rightarrow> authenticator \<Rightarrow> (string, string) dict option \<times> authenticator" where
  "get_challenge rnd a =
     (case a of
        NoAuth \<Rightarrow> (None, NoAuth)
      | PubkeyAuth p \<Rightarrow> (case pubkey_get_challenge rnd p of (c, p') \<Rightarrow> (Some c, PubkeyAuth p'))
      | PasswordAuth us \<Rightarrow> (Some [(''method'', ''password'')], PasswordAuth us)
      | LdapAuth l \<Rightarrow> (Some [(''method'', ''ldap'')], LdapAuth l))"

section \<open>Lemmas\<close>

lemma utf8_of_ascii: "(\<forall>c \<in> set s. cp c < 128) \<Longrightarrow> map char_of_byte (encode_utf8 s) = s"
  by (simp add: encode_utf8_ascii)

lemma b64encode_chars:
  assumes "list_all P (CHR ''='' # b64_alphabet)" "c \<in> set (b64encode bs)"
  shows "P c"
proof -
  have ch: "P (b64_char d)" if "d < 64" for d
    using assms(1) b64_char_in [OF that] by (auto simp: list_all_iff)
  have "P CHR ''=''" using assms(1) by simp
  then show ?thesis
    using assms(2) by (induction bs rule: b64encode.induct) (auto simp: ch)
qed

lemma b64encode_ascii: "c \<in> set (b64encode bs) \<Longrightarrow> cp c < 128"
  by (rule b64encode_chars [of "\<lambda>c. cp c < 128"], code_simp)

lemma b64encode_plain: "c \<in> set (b64encode bs) \<Longrightarrow> \<not> is_space c \<and> c \<noteq> CHR ''#''"
  by (rule b64encode_chars [of "\<lambda>c. \<not> is_space c \<and> c \<noteq> CHR ''#''"], code_simp)

lemma b64encode_nonempty: "bs \<noteq> [] \<Longrightarrow> b64encode bs \<noteq> []"
  by (cases bs rule: b64encode.cases) auto

lemma b64decode_utf8_encode: "b64decode_utf8 (b64encode bs) = Inr bs"
  using utf8_of_ascii [of "b64encode bs"] b64encode_ascii
  by (auto simp: b64decode_utf8_def a2b_encode)

lemma split_blank_word:
  assumes "\<And>c. c \<in> set k \<Longrightarrow> \<not> is_space c" "x \<noteq> []" "\<not> is_space (hd x)"
  shows "split_blank (k @ '' '' @ x) = (k, Some x)"
proof -
  have sp: "is_space (CHR '' '')" by (simp add: is_space_def cp_def)
  have "takeWhile (\<lambda>c. \<not> is_space c) (k @ '' '' @ x) = k" "dropWhile (\<lambda>c. \<not> is_space c) (k @ '' '' @ x) = '' '' @ x"
    using assms(1) sp by (simp_all add: takeWhile_append2 dropWhile_append2)
  moreover have "lstrip ('' '' @ x) = x"
    using assms(2,3) sp by (cases x) (simp_all add: lstrip_def)
  ultimately show ?thesis using assms(2) by (simp add: split_blank_def)
qed

text \<open>A line changes at most the entry of the key it names, and names it as the file says.\<close>

lemma load_key_line_other:
  "fst (split_blank (strip (snd nl))) \<noteq> k \<Longrightarrow> dget (load_key_line nl keys) k = dget keys k"
  by (auto simp: load_key_line_def Let_def split: prod.splits sum.splits)

lemma load_key_line_named:
  assumes "dget (load_key_line nl keys) k = Some v"
  shows "dget keys k = Some v
     \<or> (\<exists>rest. \<not> startswith (strip (snd nl)) ''#'' \<and> split_blank (strip (snd nl)) = (k, rest)
          \<and> v = (case rest of Some x \<Rightarrow> x | None \<Rightarrow> ''key-'' @ show_nat (fst nl)))"
  using assms by (auto simp: load_key_line_def Let_def split: prod.splits sum.splits if_splits)

lemma load_keys_other:
  "(\<forall>nl \<in> set nls. fst (split_blank (strip (snd nl))) \<noteq> k) \<Longrightarrow>
   dget (fold load_key_line nls keys) k = dget keys k"
  by (induction nls arbitrary: keys) (auto simp: load_key_line_other)

lemma load_keys_named:
  assumes "dget (fold load_key_line nls keys) k = Some v"
  shows "dget keys k = Some v
     \<or> (\<exists>nl rest. nl \<in> set nls \<and> \<not> startswith (strip (snd nl)) ''#'' \<and> split_blank (strip (snd nl)) = (k, rest)
          \<and> v = (case rest of Some x \<Rightarrow> x | None \<Rightarrow> ''key-'' @ show_nat (fst nl)))"
  using assms
proof (induction nls arbitrary: keys)
  case Nil
  then show ?case by simp
next
  case (Cons nl nls)
  consider "dget (load_key_line nl keys) k = Some v"
    | nl' rest where "nl' \<in> set nls" "\<not> startswith (strip (snd nl')) ''#''" "split_blank (strip (snd nl')) = (k, rest)"
        "v = (case rest of Some x \<Rightarrow> x | None \<Rightarrow> ''key-'' @ show_nat (fst nl'))"
    using Cons.IH [of "load_key_line nl keys"] Cons.prems by auto
  then show ?case
  proof cases
    case 1
    then show ?thesis using load_key_line_named by (metis list.set_intros(1))
  next
    case 2
    then show ?thesis by (metis list.set_intros(2))
  qed
qed

lemma load_keys_line:
  assumes "dget (load_keys (Some lines)) k = Some v"
  shows "\<exists>n rest. n < length lines \<and> \<not> startswith (strip (lines ! n)) ''#'' \<and> split_blank (strip (lines ! n)) = (k, rest)
     \<and> v = (case rest of Some x \<Rightarrow> x | None \<Rightarrow> ''key-'' @ show_nat (n + 1))"
proof -
  have "dget (fold load_key_line (zip [1..<length lines + 1] lines) []) k = Some v"
    using assms by (simp add: load_keys_def)
  then obtain nl rest where nl: "nl \<in> set (zip [1..<length lines + 1] lines)" "\<not> startswith (strip (snd nl)) ''#''"
    "split_blank (strip (snd nl)) = (k, rest)" "v = (case rest of Some x \<Rightarrow> x | None \<Rightarrow> ''key-'' @ show_nat (fst nl))"
    using load_keys_named by fastforce
  then obtain n where "n < length lines" "nl = (n + 1, lines ! n)"
    by (auto simp: set_zip simp del: upt_Suc)
  have [simp]: "fst nl = n + 1" "snd nl = lines ! n" by (simp_all add: \<open>nl = (n + 1, lines ! n)\<close>)
  from nl \<open>n < length lines\<close> have "n < length lines \<and> \<not> startswith (strip (lines ! n)) ''#'' \<and> split_blank (strip (lines ! n)) = (k, rest)
     \<and> v = (case rest of Some x \<Rightarrow> x | None \<Rightarrow> ''key-'' @ show_nat (n + 1))"
    by (simp del: upt_Suc split: option.split)
  then show ?thesis by blast
qed

text \<open>A line of the documented format lists its key under its comment, unless a later line names the key again.\<close>

lemma load_written_key:
  assumes "length k = 32" "nm \<noteq> []" "\<not> is_space (hd nm)" "\<not> is_space (last nm)"
    and "\<forall>l \<in> set ls'. fst (split_blank (strip l)) \<noteq> b64encode k"
  shows "dget (load_keys (Some (ls @ [b64encode k @ '' '' @ nm @ [CHR 0x0A]] @ ls'))) (b64encode k) = Some nm"
proof -
  let ?l = "b64encode k @ '' '' @ nm"
  have ne: "b64encode k \<noteq> []" using assms(1) by (intro b64encode_nonempty) auto
  have hd: "\<not> is_space (hd ?l)" "hd ?l \<noteq> CHR ''#''"
    using b64encode_plain [of "hd (b64encode k)" k] ne by simp_all
  have "strip (?l @ [CHR 0x0A]) = ?l"
    by (rule strip_append_nl) (use assms hd in simp_all)
  moreover have "\<not> startswith ?l ''#''"
    using ne hd(2) by (cases "b64encode k") (simp_all add: startswith_def)
  moreover have "split_blank ?l = (b64encode k, Some nm)"
    using b64encode_plain assms by (intro split_blank_word) auto
  ultimately have "load_key_line (n, ?l @ [CHR 0x0A]) keys = dset (b64encode k) nm keys" for n keys
    using assms(1) ne by (simp add: load_key_line_def b64decode_utf8_encode)
  then obtain x where x: "x = b64encode k @ '' '' @ nm @ [CHR 0x0A]"
    and line: "\<And>n keys. load_key_line (n, x) keys = dset (b64encode k) nm keys"
    by (metis append_assoc)
  let ?ns = "[1..<length ls + length ls' + 2]"
  have ns: "?ns = [1..<length ls + 1] @ (length ls + 1) # [length ls + 2..<length ls + length ls' + 2]"
    using upt_add_eq_append [of 1 "length ls + 1" "length ls' + 1"]
    by (simp add: upt_conv_Cons del: upt_Suc)
  have z: "zip ?ns (ls @ x # ls')
     = zip [1..<length ls + 1] ls @ (length ls + 1, x) # zip [length ls + 2..<length ls + length ls' + 2] ls'"
    unfolding ns by (simp del: upt_Suc)
  have "\<forall>nl \<in> set (zip [length ls + 2..<length ls + length ls' + 2] ls'). fst (split_blank (strip (snd nl))) \<noteq> b64encode k"
    using assms(5) set_zip_rightD by fastforce
  then have "dget (fold load_key_line (zip ?ns (ls @ x # ls')) []) (b64encode k) = Some nm"
    unfolding z by (simp add: line load_keys_other del: upt_Suc)
  moreover have "[1..<length (ls @ [x] @ ls') + 1] = ?ns" by (simp del: upt_Suc)
  ultimately have "dget (load_keys (Some (ls @ [x] @ ls'))) (b64encode k) = Some nm"
    unfolding load_keys_def option.case append_Cons append_Nil by (simp del: upt_Suc)
  then show ?thesis by (simp add: x)
qed

lemma pubkey_authenticate_success:
  assumes "ar_success (pubkey_authenticate nc a c)"
  shows "\<exists>key sig kb sb. dget c ''public_key'' = Some key \<and> dget c ''signature'' = Some sig
     \<and> has_key (pk_keys a) key \<and> ar_identity (pubkey_authenticate nc a c) = dget (pk_keys a) key
     \<and> b64decode_utf8 key = Inr kb \<and> b64decode_utf8 sig = Inr sb
     \<and> length kb = 32 \<and> length sb = 64 \<and> open_ok nc kb (sb @ pk_challenge a)"
  using assms
  by (auto simp: pubkey_authenticate_def Let_def auth_fail_def auth_pass_def verify_signature_def truthy_iff
      has_key_iff split: if_splits option.splits sum.splits)

section \<open>Properties\<close>

text \<open>
  C35. Public-key authentication is sound and complete over the whole key file. Whoever is let in
  named a key of 32 bytes that stands at the start of some line of the file that is no comment, sent
  a signature of 64 bytes that opens the current challenge under that key, and is identified by the
  rest of that line (or as the key with the line's number). Conversely the holder of a key listed
  with a name on any line, that no later line lists again, gets in under that name by signing the
  challenge, whatever the other lines are.
\<close>

theorem pubkey_auth_correct:
  assumes "lines = ls @ [b64encode (pub_of nc sk) @ '' '' @ nm @ [CHR 0x0A]] @ ls'"
    and "a = snd (pubkey_get_challenge rnd (new_pubkey_auth (Some lines) r0))"
    and "nacl_ok nc" "length sk = 32" "nm \<noteq> []" "\<not> is_space (hd nm)" "\<not> is_space (last nm)"
    and "\<forall>l \<in> set ls'. fst (split_blank (strip l)) \<noteq> b64encode (pub_of nc sk)"
  shows "(ar_success (pubkey_authenticate nc a c) \<longrightarrow>
     (\<exists>n rest key sig kb sb. dget c ''public_key'' = Some key \<and> dget c ''signature'' = Some sig
       \<and> n < length lines \<and> \<not> startswith (strip (lines ! n)) ''#'' \<and> split_blank (strip (lines ! n)) = (key, rest)
       \<and> ar_identity (pubkey_authenticate nc a c)
           = Some (case rest of Some x \<Rightarrow> x | None \<Rightarrow> ''key-'' @ show_nat (n + 1))
       \<and> b64decode_utf8 key = Inr kb \<and> b64decode_utf8 sig = Inr sb
       \<and> length kb = 32 \<and> length sb = 64 \<and> open_ok nc kb (sb @ rnd)))
   \<and> ar_identity (pubkey_authenticate nc a
       [(''public_key'', b64encode (pub_of nc sk)), (''signature'', b64encode (sign_with nc sk rnd))]) = Some nm"
proof (intro conjI impI)
  have ch: "pk_challenge a = rnd" and keys: "pk_keys a = load_keys (Some lines)"
    by (simp_all add: assms(2) pubkey_get_challenge_def new_pubkey_auth_def)
  show "\<exists>n rest key sig kb sb. dget c ''public_key'' = Some key \<and> dget c ''signature'' = Some sig
       \<and> n < length lines \<and> \<not> startswith (strip (lines ! n)) ''#'' \<and> split_blank (strip (lines ! n)) = (key, rest)
       \<and> ar_identity (pubkey_authenticate nc a c)
           = Some (case rest of Some x \<Rightarrow> x | None \<Rightarrow> ''key-'' @ show_nat (n + 1))
       \<and> b64decode_utf8 key = Inr kb \<and> b64decode_utf8 sig = Inr sb
       \<and> length kb = 32 \<and> length sb = 64 \<and> open_ok nc kb (sb @ rnd)"
    if "ar_success (pubkey_authenticate nc a c)"
  proof -
    from pubkey_authenticate_success [OF that, unfolded ch]
    obtain key sig kb sb where k: "dget c ''public_key'' = Some key" "dget c ''signature'' = Some sig"
      "has_key (pk_keys a) key" "ar_identity (pubkey_authenticate nc a c) = dget (pk_keys a) key"
      "b64decode_utf8 key = Inr kb" "b64decode_utf8 sig = Inr sb" "length kb = 32" "length sb = 64"
      "open_ok nc kb (sb @ rnd)"
      by blast
    obtain v where v: "dget (load_keys (Some lines)) key = Some v"
      using k(3) by (auto simp: keys has_key_iff)
    show ?thesis using load_keys_line [OF v] k v unfolding keys by (metis (no_types, lifting))
  qed
  have k: "length (pub_of nc sk) = 32" "length (sign_with nc sk rnd) = 64"
    "open_ok nc (pub_of nc sk) (sign_with nc sk rnd @ rnd)"
    using assms(3,4) by (simp_all add: nacl_ok_def)
  have "b64encode (pub_of nc sk) \<noteq> []" "b64encode (sign_with nc sk rnd) \<noteq> []"
    using k by (auto intro!: b64encode_nonempty)
  moreover have "dget (pk_keys a) (b64encode (pub_of nc sk)) = Some nm"
    using load_written_key [OF k(1) assms(5-8)] by (simp add: keys assms(1))
  ultimately show "ar_identity (pubkey_authenticate nc a
       [(''public_key'', b64encode (pub_of nc sk)), (''signature'', b64encode (sign_with nc sk rnd))]) = Some nm"
    using k ch by (simp add: pubkey_authenticate_def b64decode_utf8_encode verify_signature_def auth_pass_def)
qed

text \<open>Two keys, and the holder of the one on the first line.\<close>

theorem pubkey_auth_correct_witness:
  "ar_identity (pubkey_authenticate toy_nacl
      (snd (pubkey_get_challenge [5] (new_pubkey_auth
         (Some [b64encode (replicate 32 1) @ '' '' @ ''lab'' @ [CHR 0x0A], ''BBBB desk'']) [4])))
      [(''public_key'', b64encode (replicate 32 1)), (''signature'', b64encode (replicate 64 1))]) = Some ''lab''"
proof -
  have p: "pub_of toy_nacl (replicate 32 1) = replicate 32 1"
    "sign_with toy_nacl (replicate 32 1) [5] = replicate 64 1"
    by (simp_all add: toy_nacl_def flip: replicate_add)
  have s: "\<not> is_space (hd ''lab'')" "\<not> is_space (last ''lab'')" by code_simp+
  have o: "\<forall>l \<in> set [''BBBB desk'']. fst (split_blank (strip l)) \<noteq> b64encode (pub_of toy_nacl (replicate 32 1))"
    unfolding p by code_simp
  show ?thesis
    using conjunct2 [OF pubkey_auth_correct [where rnd = "[5]" and ls = "[]" and nm = "''lab''"
      and nc = toy_nacl and sk = "replicate 32 1" and ?r0.0 = "[4]" and c = "[]" and ls' = "[''BBBB desk'']",
      OF refl refl toy_nacl_ok _ _ s o]]
    by (simp add: p)
qed

end
