(* ===== verification/Discovery.thy ===== *)
theory Discovery
  imports Dht_Service Names
begin

text \<open>
  \<^verbatim>\<open>src/wh/wns/discovery.py\<close>: looking up the code behind a name over the configured backends, with
  global names, known hosts and trust on first use. The files under \<^verbatim>\<open>~/.wh\<close> are a record; the
  clock, the DHT network, the peers and the HTTP server are an environment.
\<close>

section \<open>The environment and the files\<close>

record disc_env =
  en_nacl :: nacl
  en_now :: datetime
  en_net :: network
  en_peers :: ad_net
  en_out :: outside
  en_node_id :: bytes
  en_secret :: bytes
  en_http :: "string \<Rightarrow> string result"

record wh_home =
  hm_ads :: "(string, string) dict"
  hm_ids :: identity_store
  hm_claims :: claim_store

section \<open>Backends\<close>

text \<open>\<^verbatim>\<open>HttpBackend\<close>: the URL template and whether its client is open.\<close>

datatype backend = FileBackend | DhtBackend dht_client | HttpBackend string bool

definition new_dht_client :: "host_port list option \<Rightarrow> dht_client" where
  "new_dht_client nodes =
     \<lparr>dc_nodes = (case nodes of None \<Rightarrow> [] | Some ns \<Rightarrow> ns), dc_urls = [], dc_relay_urls = [], dc_auto = True,
      dc_mdns = True, dc_public = True, dc_dht = None, dc_running = False\<rparr>"

definition default_url_template :: string where
  "default_url_template = ''https://{address}.wns.example.com/.well-known/wns''"

definition new_http_backend :: "string option \<Rightarrow> backend" where
  "new_http_backend t = HttpBackend (if truthy t then the t else default_url_template) False"

definition start_backend :: "disc_env \<Rightarrow> backend \<Rightarrow> backend" where
  "start_backend env b =
     (case b of
        FileBackend \<Rightarrow> FileBackend
      | DhtBackend c \<Rightarrow> DhtBackend (start_dht_client (en_out env) (en_node_id env) (en_secret env) c)
      | HttpBackend t _ \<Rightarrow> HttpBackend t True)"

definition stop_backend :: "backend \<Rightarrow> backend" where
  "stop_backend b =
     (case b of
        FileBackend \<Rightarrow> FileBackend
      | DhtBackend c \<Rightarrow> DhtBackend (stop_dht_client c)
      | HttpBackend t _ \<Rightarrow> HttpBackend t False)"

text \<open>What the file and the HTTP backend make of a text: every exception is no advertisement.\<close>

definition accept_text :: "disc_env \<Rightarrow> string \<Rightarrow> string \<Rightarrow> advertisement option" where
  "accept_text env a txt =
     (case ad_from_json txt of
        Inl _ \<Rightarrow> None
      | Inr ad \<Rightarrow> if usable_ad (en_nacl env) (en_now env) a ad then Some ad else None)"

definition file_lookup :: "disc_env \<Rightarrow> wh_home \<Rightarrow> string \<Rightarrow> advertisement option" where
  "file_lookup env home a =
     (case dget (hm_ads home) a of None \<Rightarrow> None | Some txt \<Rightarrow> accept_text env a txt)"

definition http_lookup :: "disc_env \<Rightarrow> string \<Rightarrow> bool \<Rightarrow> string \<Rightarrow> advertisement option result" where
  "http_lookup env template is_open a =
     (if \<not> is_open then Inr None
      else
        (case format_field ''address'' a template of
           None \<Rightarrow> Inl KeyError
         | Some url \<Rightarrow> (case en_http env url of Inl _ \<Rightarrow> Inr None | Inr txt \<Rightarrow> Inr (accept_text env a txt))))"

definition backend_lookup ::
  "disc_env \<Rightarrow> wh_home \<Rightarrow> string \<Rightarrow> backend \<Rightarrow> (advertisement option result \<times> backend) option" where
  "backend_lookup env home a b =
     (case b of
        FileBackend \<Rightarrow> Some (Inr (file_lookup env home a), b)
      | DhtBackend c \<Rightarrow>
          map_option (apsnd DhtBackend)
            (client_lookup (en_nacl env) (en_now env) (en_net env) (en_peers env) a c)
      | HttpBackend t is_open \<Rightarrow> Some (http_lookup env t is_open a, b))"

section \<open>Name claims over the DHT\<close>

definition claim_from_json :: "string \<Rightarrow> name_claim result" where
  "claim_from_json s =
     (case json_loads s of
        Inl e \<Rightarrow> Inl e
      | Inr (JObj d) \<Rightarrow> claim_from_dict d
      | Inr _ \<Rightarrow> Inl AttributeError)"

definition fetch_name_claim :: "ad_net \<Rightarrow> addr \<Rightarrow> string \<Rightarrow> name_claim option" where
  "fetch_name_claim net peer nm =
     (case net peer (encode_utf8 (''GET_CLAIM '' @ nm @ [CHR 0x0A])) of
        None \<Rightarrow> None
      | Some reply \<Rightarrow>
          (case readline reply of
             Inl _ \<Rightarrow> None
           | Inr line \<Rightarrow>
               (case decode_utf8 line of
                  None \<Rightarrow> None
                | Some text0 \<Rightarrow>
                    (let response = strip text0 in
                     if response = ''NOT_FOUND'' \<or> response = [] \<or> startswith response ''ERROR'' then None
                     else (case claim_from_json response of Inl _ \<Rightarrow> None | Inr c \<Rightarrow> Some c)))))"

definition usable_claim :: "nacl \<Rightarrow> datetime \<Rightarrow> string \<Rightarrow> name_claim \<Rightarrow> bool" where
  "usable_claim nc now nm c \<longleftrightarrow>
     verify_claim nc now c (Some nm) = Inr True \<and> claim_is_expired now c = Inr False"

fun try_claim_peers :: "disc_env \<Rightarrow> string \<Rightarrow> addr list \<Rightarrow> name_claim option" where
  "try_claim_peers env nm [] = None"
| "try_claim_peers env nm (p # ps) =
     (case fetch_name_claim (en_peers env) p nm of
        None \<Rightarrow> try_claim_peers env nm ps
      | Some c \<Rightarrow>
          if usable_claim (en_nacl env) (en_now env) nm c then Some c else try_claim_peers env nm ps)"

definition lookup_name_claim ::
  "disc_env \<Rightarrow> string \<Rightarrow> dht_client \<Rightarrow> (name_claim option result \<times> dht_client) option" where
  "lookup_name_claim env nm c =
     (case (dc_running c, dc_dht c) of
        (True, Some n) \<Rightarrow>
          (case get_peers (en_net env) n (wns_address_to_info_hash (''name:'' @ nm)) 50 of
             None \<Rightarrow> None
           | Some (Inl e) \<Rightarrow> Some (Inl e, c)
           | Some (Inr (peers, n')) \<Rightarrow> Some (Inr (try_claim_peers env nm peers), c\<lparr>dc_dht := Some n'\<rparr>))
      | _ \<Rightarrow> Some (Inr None, c))"

section \<open>Discovery\<close>

record discovery =
  di_backends :: "backend list"
  di_started :: bool

definition new_discovery ::
  "backend list \<Rightarrow> bool \<Rightarrow> bool \<Rightarrow> bool \<Rightarrow> string option \<Rightarrow> host_port list option \<Rightarrow> discovery" where
  "new_discovery backends use_dht use_file use_http template nodes =
     \<lparr>di_backends =
        (if backends \<noteq> [] then backends
         else (if use_file then [FileBackend] else [])
              @ (if use_dht then [DhtBackend (new_dht_client nodes)] else [])
              @ (if use_http then [new_http_backend template] else [])),
      di_started = False\<rparr>"

definition start_discovery :: "disc_env \<Rightarrow> discovery \<Rightarrow> discovery" where
  "start_discovery env d =
     (if di_started d then d
      else d\<lparr>di_backends := map (start_backend env) (di_backends d), di_started := True\<rparr>)"

definition stop_discovery :: "discovery \<Rightarrow> discovery" where
  "stop_discovery d = d\<lparr>di_backends := map stop_backend (di_backends d), di_started := False\<rparr>"

text \<open>The DHT backends are asked for a claim in order; other backends have none.\<close>

fun claim_over_dht :: "disc_env \<Rightarrow> string \<Rightarrow> backend list \<Rightarrow> (string option result \<times> backend list) option" where
  "claim_over_dht env nm [] = Some (Inr None, [])"
| "claim_over_dht env nm (b # bs) =
     (case b of
        DhtBackend c \<Rightarrow>
          (case lookup_name_claim env nm c of
             None \<Rightarrow> None
           | Some (Inl e, c') \<Rightarrow> Some (Inl e, DhtBackend c' # bs)
           | Some (Inr (Some cl), c') \<Rightarrow> Some (Inr (Some (cl_address cl)), DhtBackend c' # bs)
           | Some (Inr None, c') \<Rightarrow> map_option (apsnd ((#) (DhtBackend c'))) (claim_over_dht env nm bs))
      | _ \<Rightarrow> map_option (apsnd ((#) b)) (claim_over_dht env nm bs))"

definition resolve_global_name ::
  "disc_env \<Rightarrow> wh_home \<Rightarrow> string \<Rightarrow> backend list \<Rightarrow> (string option result \<times> backend list) option" where
  "resolve_global_name env home nm bs =
     (case load_claim (hm_claims home) nm of
        Inl e \<Rightarrow> Some (Inl e, bs)
      | Inr None \<Rightarrow> claim_over_dht env nm bs
      | Inr (Some c) \<Rightarrow>
          (case claim_is_expired (en_now env) c of
             Inl e \<Rightarrow> Some (Inl e, bs)
           | Inr True \<Rightarrow> claim_over_dht env nm bs
           | Inr False \<Rightarrow> Some (Inr (Some (cl_address c)), bs)))"

text \<open>The check against the known host; an exception there passes on to the next backend.\<close>

definition trusted :: "wh_home \<Rightarrow> bool \<Rightarrow> string \<Rightarrow> advertisement \<Rightarrow> bool" where
  "trusted home verify_known a ad \<longleftrightarrow>
     \<not> verify_known
     \<or> (case load_known_host (hm_ids home) a of
          Inl _ \<Rightarrow> False
        | Inr None \<Rightarrow> True
        | Inr (Some k) \<Rightarrow> public_key k = ad_public_key ad)"

text \<open>The loop over the backends, for any way to ask one: the first acceptable answer ends it.\<close>

fun scan_backends ::
  "('b \<Rightarrow> (advertisement option result \<times> 'b) option) \<Rightarrow> (advertisement \<Rightarrow> bool) \<Rightarrow> 'b list \<Rightarrow>
   (advertisement option \<times> 'b list) option" where
  "scan_backends ask accept [] = Some (None, [])"
| "scan_backends ask accept (b # bs) =
     (case ask b of
        None \<Rightarrow> None
      | Some (r, b') \<Rightarrow>
          (case (case r of Inr (Some ad) \<Rightarrow> if accept ad then Some ad else None | _ \<Rightarrow> None) of
             Some ad \<Rightarrow> Some (Some ad, b' # bs)
           | None \<Rightarrow> map_option (apsnd ((#) b')) (scan_backends ask accept bs)))"

definition try_backends ::
  "disc_env \<Rightarrow> wh_home \<Rightarrow> bool \<Rightarrow> string \<Rightarrow> backend list \<Rightarrow> (advertisement option \<times> backend list) option" where
  "try_backends env home vk a bs = scan_backends (backend_lookup env home a) (trusted home vk a) bs"

definition find_address ::
  "disc_env \<Rightarrow> wh_home \<Rightarrow> string \<Rightarrow> backend list \<Rightarrow> (string option result \<times> backend list) option" where
  "find_address env home x bs =
     (case parse_global_name x of
        Some nm \<Rightarrow> if nm = [] then Some (Inr (parse_wns_address x), bs) else resolve_global_name env home nm bs
      | None \<Rightarrow> Some (Inr (parse_wns_address x), bs))"

definition disc_lookup ::
  "disc_env \<Rightarrow> wh_home \<Rightarrow> bool \<Rightarrow> string \<Rightarrow> discovery \<Rightarrow> (advertisement option result \<times> discovery) option" where
  "disc_lookup env home vk x d0 =
     (let d = start_discovery env d0 in
      case find_address env home x (di_backends d) of
        None \<Rightarrow> None
      | Some (Inl e, bs) \<Rightarrow> Some (Inl e, d\<lparr>di_backends := bs\<rparr>)
      | Some (Inr a, bs) \<Rightarrow>
          if \<not> truthy a then Some (Inr None, d\<lparr>di_backends := bs\<rparr>)
          else map_option (\<lambda>(r, bs'). (Inr r, d\<lparr>di_backends := bs'\<rparr>)) (try_backends env home vk (the a) bs))"

text \<open>\<^verbatim>\<open>lookup_and_cache\<close> reads the known host under the text it was given, not under the parsed address.\<close>

definition remember_host :: "string \<Rightarrow> advertisement \<Rightarrow> wh_home \<Rightarrow> wh_home result" where
  "remember_host x ad home =
     (case load_known_host (hm_ids home) x of
        Inl e \<Rightarrow> Inl e
      | Inr (Some _) \<Rightarrow> Inr home
      | Inr None \<Rightarrow>
          (case from_public_key (ad_public_key ad) of
             Inl e \<Rightarrow> Inl e
           | Inr i \<Rightarrow> Inr (home\<lparr>hm_ids := save_known_host i (hm_ids home)\<rparr>)))"

definition lookup_and_cache ::
  "disc_env \<Rightarrow> string \<Rightarrow> wh_home \<Rightarrow> discovery \<Rightarrow> (advertisement option result \<times> wh_home \<times> discovery) option" where
  "lookup_and_cache env x home d =
     (case disc_lookup env home True x d of
        None \<Rightarrow> None
      | Some (Inl e, d') \<Rightarrow> Some (Inl e, home, d')
      | Some (Inr None, d') \<Rightarrow> Some (Inr None, home, d')
      | Some (Inr (Some ad), d') \<Rightarrow>
          (case remember_host x ad home of
             Inl e \<Rightarrow> Some (Inl e, home, d')
           | Inr home' \<Rightarrow> Some (Inr (Some ad), home', d')))"

definition default_discovery :: discovery where
  "default_discovery = new_discovery [] True True False None None"

definition discover_code :: "disc_env \<Rightarrow> string \<Rightarrow> wh_home \<Rightarrow> (string option result \<times> wh_home) option" where
  "discover_code env x home =
     map_option (\<lambda>(r, home', d). (map_sum id (map_option ad_code) r, home'))
       (lookup_and_cache env x home (start_discovery env default_discovery))"

section \<open>The contract of a backend\<close>

text \<open>
  \<^verbatim>\<open>DiscoveryBackend.lookup\<close>: it answers, and an advertisement it answers with is good for the
  address asked for.
\<close>

locale discovery_backend =
  fixes ask :: "'b \<Rightarrow> (advertisement option result \<times> 'b) option"
    and good :: "advertisement \<Rightarrow> bool"
  assumes answers: "\<exists>r b'. ask b = Some (r, b')"
    and answers_good: "ask b = Some (Inr (Some ad), b') \<Longrightarrow> good ad"
begin

lemma scan_returns: "\<exists>r bs'. scan_backends ask accept bs = Some (r, bs')"
proof (induction bs)
  case (Cons b bs)
  obtain r b' where "ask b = Some (r, b')" using answers by blast
  with Cons show ?case by (fastforce split: option.split sum.split)
qed simp

lemma scan_good: "scan_backends ask accept bs = Some (Some ad, bs') \<Longrightarrow> good ad \<and> accept ad"
  by (induction bs arbitrary: bs')
    (auto dest: answers_good split: option.splits sum.splits if_splits)

lemma scan_first:
  "ask b = Some (Inr (Some ad), b') \<Longrightarrow> accept ad \<Longrightarrow>
   scan_backends ask accept (b # bs) = Some (Some ad, b' # bs)"
  by simp

end

lemma usable_ad_iff: "usable_ad nc now a ad \<longleftrightarrow> verify_ad nc now ad (Some a) = Inr True"
  by (auto simp: usable_ad_def ad.accepts_iff expiry_ok_def ad_is_expired_def)

lemma usable_claim_iff: "usable_claim nc now nm c \<longleftrightarrow> verify_claim nc now c (Some nm) = Inr True"
  by (auto simp: usable_claim_def claim.accepts_iff expiry_ok_def claim_is_expired_def)

lemma accept_text_usable:
  "accept_text env a txt = Some ad \<Longrightarrow> verify_ad (en_nacl env) (en_now env) ad (Some a) = Inr True"
  by (auto simp: accept_text_def usable_ad_iff split: sum.splits if_splits)

lemma client_lookup_cases:
  "(\<exists>peers n. client_lookup nc now net adnet a c
      = Some (Inr (try_peers nc now adnet a peers), c\<lparr>dc_dht := Some n\<rparr>))
   \<or> client_lookup nc now net adnet a c = Some (Inl RuntimeError, c)"
proof (cases "dc_dht c")
  case (Some n)
  obtain peers n' where "get_peers net n (wns_address_to_info_hash a) 50 = Some (Inr (peers, n'))"
    using get_peers_total [OF length_info_hash] by blast
  then show ?thesis
    using Some by (cases "dc_running c") (auto simp: client_lookup_def client_try_peers_eq)
qed (simp add: client_lookup_def split: bool.split)

interpretation backends: discovery_backend "backend_lookup env home a"
  "\<lambda>ad. verify_ad (en_nacl env) (en_now env) ad (Some a) = Inr True" for env home a
proof unfold_locales
  show "\<exists>r b'. backend_lookup env home a b = Some (r, b')" for b
    using client_lookup_cases [of "en_nacl env" "en_now env" "en_net env" "en_peers env" a]
    by (cases b) (fastforce simp: backend_lookup_def)+
  show "verify_ad (en_nacl env) (en_now env) ad (Some a) = Inr True"
    if "backend_lookup env home a b = Some (Inr (Some ad), b')" for b ad b'
  proof (cases b)
    case FileBackend
    then show ?thesis
      using that by (auto simp: backend_lookup_def file_lookup_def accept_text_usable split: option.splits)
  next
    case (DhtBackend c)
    then show ?thesis
      using that client_lookup_cases [of "en_nacl env" "en_now env" "en_net env" "en_peers env" a c]
      by (auto simp: backend_lookup_def usable_ad_iff [symmetric] dest: try_peers_Some)
  next
    case (HttpBackend t op)
    then show ?thesis
      using that by (auto simp: backend_lookup_def http_lookup_def accept_text_usable split: option.splits
        sum.splits if_splits)
  qed
qed

section \<open>Names\<close>

lemma try_claim_peers_Some:
  "try_claim_peers env nm ps = Some c \<Longrightarrow> verify_claim (en_nacl env) (en_now env) c (Some nm) = Inr True"
  by (induction ps) (auto simp: usable_claim_iff split: option.splits if_splits)

lemma lookup_name_claim_cases:
  "\<exists>r c'. lookup_name_claim env nm c = Some (Inr r, c')
     \<and> (\<forall>cl. r = Some cl \<longrightarrow> verify_claim (en_nacl env) (en_now env) cl (Some nm) = Inr True)"
proof (cases "dc_dht c")
  case (Some n)
  obtain peers n' where "get_peers (en_net env) n (wns_address_to_info_hash (''name:'' @ nm)) 50 = Some (Inr (peers, n'))"
    using get_peers_total [OF length_info_hash] by blast
  then show ?thesis
    using Some by (cases "dc_running c") (auto simp: lookup_name_claim_def dest: try_claim_peers_Some)
qed (simp add: lookup_name_claim_def split: bool.split)

lemma claim_over_dht_cases:
  "\<exists>r bs'. claim_over_dht env nm bs = Some (Inr r, bs')
     \<and> (\<forall>a. r = Some a \<longrightarrow>
          (\<exists>cl. cl_address cl = a \<and> verify_claim (en_nacl env) (en_now env) cl (Some nm) = Inr True))"
proof (induction bs)
  case (Cons b bs)
  show ?case
  proof (cases b)
    case (DhtBackend c)
    obtain r c' where "lookup_name_claim env nm c = Some (Inr r, c')"
      "\<forall>cl. r = Some cl \<longrightarrow> verify_claim (en_nacl env) (en_now env) cl (Some nm) = Inr True"
      using lookup_name_claim_cases by blast
    then show ?thesis using Cons DhtBackend by (cases r) fastforce+
  qed (use Cons in fastforce)+
qed simp

text \<open>Who a name may stand for: the address in it, an unexpired local claim, or a verified one.\<close>

definition stands_for :: "disc_env \<Rightarrow> wh_home \<Rightarrow> string \<Rightarrow> string \<Rightarrow> bool" where
  "stands_for env home x a \<longleftrightarrow>
     (case parse_global_name x of
        None \<Rightarrow> parse_wns_address x = Some a
      | Some nm \<Rightarrow>
          (\<exists>cl. cl_address cl = a
             \<and> (load_claim (hm_claims home) nm = Inr (Some cl) \<and> claim_is_expired (en_now env) cl = Inr False
                \<or> verify_claim (en_nacl env) (en_now env) cl (Some nm) = Inr True)))"

lemma parse_global_nonempty: "parse_global_name x = Some nm \<Longrightarrow> nm \<noteq> []"
  by (auto simp: parse_global_core is_valid_global_name_def lower_def split: if_splits)

lemma find_address_cases:
  "\<exists>r bs'. find_address env home x bs = Some (r, bs') \<and> (\<forall>a. r = Inr (Some a) \<longrightarrow> stands_for env home x a)"
proof (cases "parse_global_name x")
  case (Some nm)
  obtain r bs' where "claim_over_dht env nm bs = Some (Inr r, bs')"
    "\<forall>a. r = Some a \<longrightarrow>
          (\<exists>cl. cl_address cl = a \<and> verify_claim (en_nacl env) (en_now env) cl (Some nm) = Inr True)"
    using claim_over_dht_cases by blast
  moreover have "nm \<noteq> []" by (rule parse_global_nonempty [OF Some])
  ultimately show ?thesis
    using Some
    by (auto simp: find_address_def resolve_global_name_def stands_for_def
        split: sum.splits option.splits bool.splits)
qed (simp add: find_address_def stands_for_def)

lemma disc_lookup_cases:
  "\<exists>r d'. disc_lookup env home vk x d = Some (r, d')
     \<and> (\<forall>ad. r = Inr (Some ad) \<longrightarrow>
          (\<exists>a. a \<noteq> [] \<and> stands_for env home x a \<and> trusted home vk a ad
             \<and> verify_ad (en_nacl env) (en_now env) ad (Some a) = Inr True))"
proof -
  let ?bs = "di_backends (start_discovery env d)"
  obtain r bs where f: "find_address env home x ?bs = Some (r, bs)"
    "\<forall>a. r = Inr (Some a) \<longrightarrow> stands_for env home x a"
    using find_address_cases by blast
  show ?thesis
  proof (cases "\<exists>a. r = Inr (Some a) \<and> a \<noteq> []")
    case True
    then obtain a where a: "r = Inr (Some a)" "a \<noteq> []" by blast
    obtain q bs' where q: "try_backends env home vk a bs = Some (q, bs')"
      using backends.scan_returns unfolding try_backends_def by blast
    have "trusted home vk a ad \<and> verify_ad (en_nacl env) (en_now env) ad (Some a) = Inr True" if "q = Some ad" for ad
      using backends.scan_good [OF q [unfolded try_backends_def that]] by simp
    then show ?thesis using f a q by (auto simp: disc_lookup_def Let_def)
  next
    case False
    then have "\<exists>q. disc_lookup env home vk x d = Some (q, (start_discovery env d)\<lparr>di_backends := bs\<rparr>)
        \<and> (\<forall>ad. q \<noteq> Inr (Some ad))"
      using f(1) by (cases r) (auto simp: disc_lookup_def Let_def truthy_iff split: option.split)
    then show ?thesis by auto
  qed
qed

section \<open>Known hosts\<close>

text \<open>Every file among the known hosts is named by the address of the key it holds.\<close>

definition hosts_ok :: "identity_store \<Rightarrow> bool" where
  "hosts_ok s \<longleftrightarrow>
     list_all (\<lambda>a. case load_known_host s a of Inr (Some k) \<Rightarrow> derive_address (public_key k) = a | _ \<Rightarrow> False)
       (dkeys (known_hosts s))"

lemma hosts_ok_iff:
  "hosts_ok s \<longleftrightarrow>
     (\<forall>a. has_key (known_hosts s) a \<longrightarrow>
        (\<exists>k. load_known_host s a = Inr (Some k) \<and> derive_address (public_key k) = a))"
proof -
  have "(case r of Inr (Some k) \<Rightarrow> P k | _ \<Rightarrow> False) \<longleftrightarrow> (\<exists>k. r = Inr (Some k) \<and> P k)"
    for r :: "identity option result" and P
    by (auto split: sum.split option.split)
  then show ?thesis by (auto simp: hosts_ok_def list_all_iff has_key_def)
qed

lemma load_saved_host:
  assumes "from_public_key vk = Inr i"
  shows "load_known_host (save_known_host i s) a =
     (if a = derive_address vk then Inr (Some i) else load_known_host s a)"
  using assms
  by (auto simp: load_known_host_def save_known_host_def from_public_key_def jbytes_def jstr_def jopt_str_def
      public_key_def opt_jstr_def split: if_splits)

lemma uri_core_bare:
  assumes "is_base32_address a"
  shows "uri_core a = a"
proof -
  have c: "\<forall>c \<in> set a. \<not> is_space c" "CHR ''@'' \<notin> set a" "CHR '':'' \<notin> set a" "CHR ''.'' \<notin> set a"
    using base32_address_chars [OF assms] by auto
  have "CHR '':'' \<in> set a" if "startswith a ''wh://''"
    using that set_take_subset [of 5 a] by (auto simp: startswith_def numeral_eq_Suc)
  moreover have "CHR ''.'' \<in> set a" if "endswith a ''.wns''"
    using that set_drop_subset [of "length a - 4" a] by (auto simp: endswith_def numeral_eq_Suc)
  ultimately have "\<not> startswith a ''wh://''" "\<not> endswith a ''.wns''" using c(3,4) by blast+
  then show ?thesis
    using strip_id [OF c(1)] strip_user_none [OF c(2)] by (simp add: uri_core_def strip_scheme_def strip_wns_def)
qed

lemma bare_address_parses: "is_base32_address a \<Longrightarrow> parse_global_name a = None \<and> parse_wns_address a = Some a"
  using uri_core_bare [of a] valid_name_not_address [of a]
  by (auto simp: parse_global_core parse_wns_address_def parse_core_bare)

lemma remembered_host:
  assumes "hosts_ok (hm_ids home)" "disc_lookup env home True x d = Some (Inr (Some ad), d')"
    and "remember_host x ad home = Inr home'"
  shows "hosts_ok (hm_ids home')
    \<and> (\<exists>k. load_known_host (hm_ids home') (ad_address ad) = Inr (Some k) \<and> public_key k = ad_public_key ad
         \<and> (x \<noteq> ad_address ad \<longrightarrow> id_name k = None))
    \<and> (\<forall>a. a \<noteq> ad_address ad \<longrightarrow> load_known_host (hm_ids home') a = load_known_host (hm_ids home) a)"
proof -
  obtain a where a: "stands_for env home x a" "trusted home True a ad"
      "verify_ad (en_nacl env) (en_now env) ad (Some a) = Inr True" "a \<noteq> []"
    using disc_lookup_cases [of env home True x d] assms(2) by auto
  then have ad: "ad_address ad = a" "derive_address (ad_public_key ad) = a" "length (ad_public_key ad) = 32"
    by (simp_all add: ad.accepts_iff)
  obtain i where i: "from_public_key (ad_public_key ad) = Inr i" "public_key i = ad_public_key ad" "id_name i = None"
    using ad(3) by (auto simp: from_public_key_def public_key_def)
  show ?thesis
  proof (cases "load_known_host (hm_ids home) x")
    case (Inr r)
    show ?thesis
    proof (cases r)
      case None
      have k: "load_known_host (hm_ids home') b = (if b = a then Inr (Some i) else load_known_host (hm_ids home) b)" for b
        using assms(3) Inr None i(1) load_saved_host [OF i(1)] ad(2) by (auto simp: remember_host_def)
      have h: "has_key (known_hosts (hm_ids home')) b \<longleftrightarrow> b = a \<or> has_key (known_hosts (hm_ids home)) b" for b
        using assms(3) Inr None i(1) ad(2)
        by (auto simp: remember_host_def save_known_host_def has_key_iff from_public_key_def split: if_splits)
      show ?thesis
        using assms(1) unfolding hosts_ok_iff h k ad(1) by (auto simp: i ad(2))
    next
      case (Some k)
      then have "has_key (known_hosts (hm_ids home)) x"
        using Inr by (auto simp: load_known_host_def has_key_iff split: option.splits)
      then have "derive_address (public_key k) = x"
        using assms(1) Inr Some by (fastforce simp: hosts_ok_iff)
      then have "is_base32_address x" using derive_address_base32 by metis
      then have "x = a" using bare_address_parses [of x] a(1) by (simp add: stands_for_def)
      moreover have "home' = home" using assms(3) Inr Some by (simp add: remember_host_def)
      ultimately show ?thesis using assms(1) a(2) Inr Some ad(1) by (simp add: trusted_def)
    qed
  qed (use assms(3) in \<open>simp add: remember_host_def\<close>)
qed

section \<open>Peers that run this program\<close>

lemma own_reply_no_claim:
  assumes "net p (encode_utf8 (''GET_CLAIM '' @ nm @ [CHR 0x0A]))
      = Some (handle_client now s (encode_utf8 (''GET_CLAIM '' @ nm @ [CHR 0x0A])))"
  shows "fetch_name_claim net p nm = None"
proof -
  define r where "r = handle_client now s (encode_utf8 (''GET_CLAIM '' @ nm @ [CHR 0x0A]))"
  note net = assms [folded r_def]
  consider "r = []" | l rest where "own_line l" "r = encode_utf8 l @ newline # rest"
    using handle_client_lines [of now s "encode_utf8 (''GET_CLAIM '' @ nm @ [CHR 0x0A])"] r_def by blast
  then show ?thesis
  proof cases
    case 1
    have "strip [] = []" by (simp add: strip_def lstrip_def rstrip_def)
    then show ?thesis unfolding fetch_name_claim_def net by (simp add: 1 readline_def)
  next
    case 2
    have "readline r = Inr (encode_utf8 (l @ [CHR 0x0A]))"
      unfolding 2(2) by (rule readline_line) (use own_line_ok [OF 2(1)] in auto)
    then have "fetch_name_claim net p nm =
        (if l = ''NOT_FOUND'' \<or> l = [] \<or> startswith l ''ERROR'' then None
         else (case claim_from_json l of Inl _ \<Rightarrow> None | Inr c \<Rightarrow> Some c))"
      unfolding fetch_name_claim_def net
      by (simp add: own_line_ok(4) [OF 2(1)] del: encode_utf8_append)
    then show ?thesis
      using 2(1) by (auto simp: own_line_def claim_from_json_def json_loads_brace startswith_def)
  qed
qed

lemma own_peers_no_claim:
  assumes "\<And>p. \<exists>t s. \<forall>req. en_peers env p req = Some (handle_client t s req)"
  shows "try_claim_peers env nm ps = None"
proof (induction ps)
  case (Cons p ps)
  obtain t s where "\<forall>req. en_peers env p req = Some (handle_client t s req)" using assms by blast
  then have "fetch_name_claim (en_peers env) p nm = None" by (intro own_reply_no_claim) blast
  with Cons show ?case by simp
qed simp

lemma own_peers_claim_over_dht:
  assumes "\<And>p. \<exists>t s. \<forall>req. en_peers env p req = Some (handle_client t s req)"
  shows "\<exists>bs'. claim_over_dht env nm bs = Some (Inr None, bs')"
proof (induction bs)
  case (Cons b bs)
  show ?case
  proof (cases b)
    case (DhtBackend c)
    obtain r c' where l: "lookup_name_claim env nm c = Some (Inr r, c')" using lookup_name_claim_cases by blast
    then have "r = None"
      by (auto simp: lookup_name_claim_def own_peers_no_claim [OF assms] split: option.splits bool.splits sum.splits)
    then show ?thesis using Cons DhtBackend l by auto
  qed (use Cons in auto)
qed simp

section \<open>Advertisements in files\<close>

text \<open>A written advertisement that verifies is what the file backend answers with.\<close>

lemma file_lookup_written:
  assumes "dget (hm_ads home) a = Some (ad_to_json ad)"
    and "valid_datetime (ad_timestamp ad)" "valid_datetime (ad_expires ad)" "ad_scoped_name ad \<noteq> Some []"
  shows "file_lookup env home a =
    (if verify_ad (en_nacl env) (en_now env) ad (Some a) = Inr True then Some ad else None)"
  using assms by (simp add: file_lookup_def accept_text_def ad_from_to_json usable_ad_iff)

lemma disc_lookup_file:
  assumes "parse_global_name x = None" "parse_wns_address x = Some a" "a \<noteq> []"
    and "di_backends d = FileBackend # bs" "file_lookup env home a = Some ad" "trusted home vk a ad"
  shows "\<exists>d'. disc_lookup env home vk x d = Some (Inr (Some ad), d')"
proof -
  have "\<exists>bs'. di_backends (start_discovery env d) = FileBackend # bs'"
    using assms(4) by (simp add: start_discovery_def start_backend_def)
  then obtain bs' where bs: "di_backends (start_discovery env d) = FileBackend # bs'" by blast
  have "try_backends env home vk a (FileBackend # bs') = Some (Some ad, FileBackend # bs')"
    unfolding try_backends_def
    by (rule backends.scan_first) (use assms(5,6) in \<open>simp_all add: backend_lookup_def\<close>)
  then show ?thesis using assms(1-3) by (simp add: disc_lookup_def Let_def find_address_def bs)
qed

lemma full_address_names:
  assumes "wf_identity nc i"
  shows "parse_global_name (id_full_address i) = None \<and> parse_wns_address (id_full_address i) = Some (id_address i)"
proof -
  have b: "is_base32_address (id_address i)" using assms derive_address_base32 by (simp add: wf_identity_def)
  then have "uri_core (id_full_address i) = id_address i"
    unfolding id_full_address_def by (rule uri_core_full(1) [OF address_chars])
  then show ?thesis
    using parse_core_bare [OF _ b] b valid_name_not_address by (auto simp: parse_global_core parse_wns_address_def)
qed

definition toy_env :: disc_env where
  "toy_env = \<lparr>en_nacl = toy_nacl, en_now = toy_now, en_net = (\<lambda>_ _. None), en_peers = (\<lambda>_ _. None),
     en_out = \<lparr>ou_env = \<lparr>env_nodes = [], env_public = ''0''\<rparr>, ou_fetched = (\<lambda>_. None), ou_local = None,
               ou_net = (\<lambda>_ _. None), ou_resolve = (\<lambda>_ _. None), ou_bound = 1\<rparr>,
     en_node_id = replicate 20 7, en_secret = [1], en_http = (\<lambda>_. Inl OtherError)\<rparr>"

definition empty_home :: wh_home where
  "empty_home =
     \<lparr>hm_ads = [], hm_ids = \<lparr>identity_files = [], known_hosts = [], id_config = []\<rparr>, hm_claims = []\<rparr>"

definition toy_home :: "advertisement \<Rightarrow> wh_home" where
  "toy_home ad =
     \<lparr>hm_ads = [(ad_address ad, ad_to_json ad)],
      hm_ids = \<lparr>identity_files = [], known_hosts = [], id_config = []\<rparr>, hm_claims = []\<rparr>"

lemma toy_ad:
  obtains ad where "create_ad toy_nacl toy_now toy_identity ''7-guitar-sunset'' 300 = Inr ad"
    "ad_address ad = id_address toy_identity" "ad_code ad = ''7-guitar-sunset''"
    "ad_public_key ad = replicate 32 1"
    "\<And>vk. \<exists>d'. disc_lookup toy_env (toy_home ad) vk (id_full_address toy_identity)
       (new_discovery [] True True False None None) = Some (Inr (Some ad), d')"
proof -
  have can: "can_sign toy_identity" by (simp add: can_sign_def toy_identity_def)
  obtain ad where ad: "create_ad toy_nacl toy_now toy_identity ''7-guitar-sunset'' 300 = Inr ad"
    using toy_created by blast
  note c = created_ad [OF can ad]
  have b: "is_base32_address (id_address toy_identity)"
    using derive_address_base32 by (simp add: toy_identity_def)
  have valid: "valid_datetime toy_now" "valid_datetime (ad_expires ad)"
    using toy_now_ok add_seconds_Inr(3) [OF c(4)] by (simp_all add: utc_ok_def)
  have v: "verify_ad toy_nacl toy_now ad (Some (id_address toy_identity)) = Inr True"
    using verify_created_ad [OF toy_nacl_ok wf_toy_identity can toy_now_ok _ ad, of toy_now] by (simp add: toy_now_def)
  have "file_lookup toy_env (toy_home ad) (id_address toy_identity) = Some ad"
    using valid v by (subst file_lookup_written [where ad = ad])
      (simp_all add: toy_home_def toy_env_def c, simp add: toy_identity_def)
  moreover have "trusted (toy_home ad) vk (id_address toy_identity) ad" for vk
    by (simp add: trusted_def load_known_host_def toy_home_def)
  ultimately have "\<exists>d'. disc_lookup toy_env (toy_home ad) vk (id_full_address toy_identity)
       (new_discovery [] True True False None None) = Some (Inr (Some ad), d')" for vk
    using full_address_names [OF wf_toy_identity] base32_address_nonempty [OF b]
    by (intro disc_lookup_file) (simp_all add: new_discovery_def)
  moreover have "ad_public_key ad = replicate 32 1" by (simp add: c toy_identity_def)
  ultimately show ?thesis using that ad c by blast
qed


section \<open>Properties\<close>

text \<open>
  C4. Looking a name up always ends, and whatever backend answers, an advertisement it returns is
  authentic: the name stands for its address, its key hashes to that address and opens the signature
  over address, code and times, it is not expired, and where a key for the address is already known
  it is that key.
\<close>

theorem discovered_code_is_authentic:
  "\<exists>r d'. disc_lookup env home vk x d = Some (r, d')
     \<and> (\<forall>ad. r = Inr (Some ad) \<longrightarrow>
          stands_for env home x (ad_address ad)
        \<and> derive_address (ad_public_key ad) = ad_address ad
        \<and> instant (en_now env) < instant (ad_expires ad)
        \<and> open_ok (en_nacl env) (ad_public_key ad)
            (ad_signature ad
             @ ad_sign_message (ad_address ad) (ad_code ad) (ad_timestamp ad) (ad_expires ad))
        \<and> (\<forall>k. vk \<longrightarrow> load_known_host (hm_ids home) (ad_address ad) = Inr (Some k) \<longrightarrow>
             public_key k = ad_public_key ad))"
proof -
  obtain r d' where l: "disc_lookup env home vk x d = Some (r, d')"
    and r: "\<And>ad. r = Inr (Some ad) \<Longrightarrow>
          \<exists>a. a \<noteq> [] \<and> stands_for env home x a \<and> trusted home vk a ad
             \<and> verify_ad (en_nacl env) (en_now env) ad (Some a) = Inr True"
    using disc_lookup_cases by blast
  show ?thesis
    by (rule exI [of _ r], rule exI [of _ d'])
      (auto simp: l trusted_def ad.accepts_iff expiry_ok_iff dest!: r)
qed

theorem discovered_code_is_authentic_witness:
  "\<exists>ad d'. disc_lookup toy_env (toy_home ad) True (id_full_address toy_identity)
      (new_discovery [] True True False None None) = Some (Inr (Some ad), d')
    \<and> ad_code ad = ''7-guitar-sunset'' \<and> derive_address (ad_public_key ad) = ad_address ad"
proof -
  obtain ad d' where "ad_code ad = ''7-guitar-sunset''"
    "disc_lookup toy_env (toy_home ad) True (id_full_address toy_identity)
       (new_discovery [] True True False None None) = Some (Inr (Some ad), d')"
    using toy_ad by metis
  then show ?thesis
    using discovered_code_is_authentic [of toy_env "toy_home ad" True "id_full_address toy_identity"
      "new_discovery [] True True False None None"] by auto
qed

text \<open>
  C8. Trust on first use: once a lookup has been cached, the key of that address is pinned under the
  address, keys of other addresses and the shape of the store are as before, and no later lookup
  under any name, at any time and through any backends returns an advertisement for the address
  under another key. A host cached under a full URI has lost its local name.
\<close>

theorem tofu_pins_key:
  assumes "hosts_ok (hm_ids home)"
    and "lookup_and_cache env x home d = Some (Inr (Some ad), home', d')"
  shows "hosts_ok (hm_ids home')
    \<and> (\<exists>k. load_known_host (hm_ids home') (ad_address ad) = Inr (Some k) \<and> public_key k = ad_public_key ad
         \<and> (x \<noteq> ad_address ad \<longrightarrow> id_name k = None))
    \<and> (\<forall>a. a \<noteq> ad_address ad \<longrightarrow> load_known_host (hm_ids home') a = load_known_host (hm_ids home) a)
    \<and> (\<forall>env2 x2 d2 ad2 d3. disc_lookup env2 home' True x2 d2 = Some (Inr (Some ad2), d3) \<longrightarrow>
         ad_address ad2 = ad_address ad \<longrightarrow> ad_public_key ad2 = ad_public_key ad)"
proof -
  have l: "disc_lookup env home True x d = Some (Inr (Some ad), d')" and h: "remember_host x ad home = Inr home'"
    using assms(2) by (auto simp: lookup_and_cache_def split: option.splits sum.splits)
  note rem = remembered_host [OF assms(1) l h]
  then obtain k where k: "load_known_host (hm_ids home') (ad_address ad) = Inr (Some k)" "public_key k = ad_public_key ad"
    by blast
  have "ad_public_key ad2 = ad_public_key ad"
    if "disc_lookup env2 home' True x2 d2 = Some (Inr (Some ad2), d3)" "ad_address ad2 = ad_address ad"
    for env2 x2 d2 ad2 d3
    using disc_lookup_cases [of env2 home' True x2 d2] that k by (auto simp: trusted_def ad.accepts_iff)
  then show ?thesis using rem by blast
qed

theorem tofu_pins_key_witness:
  "\<exists>ad home' d' k. lookup_and_cache toy_env (id_full_address toy_identity) (toy_home ad)
      (new_discovery [] True True False None None) = Some (Inr (Some ad), home', d')
    \<and> load_known_host (hm_ids home') (ad_address ad) = Inr (Some k) \<and> public_key k = replicate 32 1"
proof -
  obtain ad where pk: "ad_public_key ad = replicate 32 1"
    and l: "\<And>vk. \<exists>d'. disc_lookup toy_env (toy_home ad) vk (id_full_address toy_identity)
       (new_discovery [] True True False None None) = Some (Inr (Some ad), d')"
    using toy_ad by metis
  obtain d' where d: "disc_lookup toy_env (toy_home ad) True (id_full_address toy_identity)
       (new_discovery [] True True False None None) = Some (Inr (Some ad), d')"
    using l by blast
  have "\<exists>h. remember_host (id_full_address toy_identity) ad (toy_home ad) = Inr h"
    by (simp add: remember_host_def load_known_host_def toy_home_def from_public_key_def pk)
  then obtain home' where c: "lookup_and_cache toy_env (id_full_address toy_identity) (toy_home ad)
      (new_discovery [] True True False None None) = Some (Inr (Some ad), home', d')"
    using d by (auto simp: lookup_and_cache_def)
  have "hosts_ok (hm_ids (toy_home ad))" by (simp add: hosts_ok_def toy_home_def)
  from tofu_pins_key [OF this c] show ?thesis using c pk by metis
qed

text \<open>
  Global names stay on the machine that claimed them: when every peer of the DHT runs this
  program's own server, which knows no request for claims, a global name resolves through the local
  claim, while that is not expired, and through nothing else.
\<close>

theorem global_names_stay_local:
  assumes "\<And>p. \<exists>t s. \<forall>req. en_peers env p req = Some (handle_client t s req)"
  shows "\<exists>bs'. resolve_global_name env home nm bs
    = Some (case load_claim (hm_claims home) nm of
              Inl e \<Rightarrow> Inl e
            | Inr None \<Rightarrow> Inr None
            | Inr (Some c) \<Rightarrow> map_sum id (\<lambda>ex. if ex then None else Some (cl_address c))
                                (claim_is_expired (en_now env) c), bs')"
  using own_peers_claim_over_dht [OF assms, of nm bs]
  by (auto simp: resolve_global_name_def split: sum.split option.split bool.split)

theorem global_names_stay_local_witness:
  "\<exists>bs'. resolve_global_name
      (toy_env\<lparr>en_peers := \<lambda>p req. Some (handle_client toy_now (new_ad_server 8470) req)\<rparr>)
      empty_home ''laptop'' [FileBackend, DhtBackend (new_dht_client None)]
    = Some (Inr None, bs')"
proof -
  let ?env = "toy_env\<lparr>en_peers := \<lambda>p req. Some (handle_client toy_now (new_ad_server 8470) req)\<rparr>"
  have "\<And>p. \<exists>t s. \<forall>req. en_peers ?env p req = Some (handle_client t s req)" by auto
  from global_names_stay_local [OF this, of empty_home "''laptop''"
      "[FileBackend, DhtBackend (new_dht_client None)]"] show ?thesis
    by (simp add: load_claim_def empty_home_def)
qed

end
