(* ===== verification/Wormhole_Manager.thy ===== *)
theory Wormhole_Manager
  imports Complex_Main Discovery Relay_Config
begin

text \<open>
  \<^verbatim>\<open>src/wh/core/wormhole_manager.py\<close>: one Magic Wormhole connection with its code, its dilation and
  the fallback over several relays. The wormhole library is a record of functions of a wormhole,
  which tells the wormholes a manager creates apart by their number; a call that runs into its time
  limit is one that raises. Status callbacks are left out.
\<close>

section \<open>The wormhole library\<close>

record wormhole =
  wh_number :: nat
  wh_appid :: string
  wh_relay :: string
  wh_dilation :: bool

text \<open>
  \<^verbatim>\<open>wl_allocate\<close> stands for \<^verbatim>\<open>allocate_code\<close> and \<^verbatim>\<open>get_code\<close>; \<^verbatim>\<open>wl_versions\<close> takes the time limit.
\<close>

record wormhole_lib =
  wl_allocate :: "wormhole \<Rightarrow> nat \<Rightarrow> string result"
  wl_set_code :: "wormhole \<Rightarrow> string \<Rightarrow> unit result"
  wl_versions :: "wormhole \<Rightarrow> rat option \<Rightarrow> jdict result"
  wl_dilate :: "wormhole \<Rightarrow> unit result"
  wl_when_dilated :: "wormhole \<Rightarrow> unit result"
  wl_send :: "wormhole \<Rightarrow> bytes \<Rightarrow> unit result"
  wl_get :: "wormhole \<Rightarrow> bytes result"

section \<open>The manager\<close>

record manager =
  wm_appid :: string
  wm_relay_url :: string
  wm_transit :: string
  wm_code_length :: nat
  wm_enable_dilation :: bool
  wm_relays :: "(string \<times> string) list"
  wm_index :: nat
  wm_wormhole :: "wormhole option"
  wm_code :: "string option"
  wm_wns_address :: "string option"
  wm_dilated :: bool
  wm_dilated_wormhole :: "wormhole option"
  wm_versions :: "jdict option"
  wm_created :: nat

definition default_appid :: string where
  "default_appid = ''wh.tools/v1''"

definition default_relay_url :: string where
  "default_relay_url = ''wss://relay.magic-wormhole.io/v1''"

definition default_transit_url :: string where
  "default_transit_url = ''tcp:transit.magic-wormhole.io:4001''"

definition new_wormhole_manager ::
  "string option \<Rightarrow> string option \<Rightarrow> string option \<Rightarrow> nat \<Rightarrow> (string \<times> string) list \<Rightarrow> bool \<Rightarrow> manager" where
  "new_wormhole_manager appid relay transit code_length fallbacks dilation =
     (let r = (if truthy relay then the relay else default_relay_url);
          t = (if truthy transit then the transit else default_transit_url)
      in \<lparr>wm_appid = (if truthy appid then the appid else default_appid), wm_relay_url = r, wm_transit = t,
          wm_code_length = code_length, wm_enable_dilation = dilation, wm_relays = (r, t) # fallbacks,
          wm_index = 0, wm_wormhole = None, wm_code = None, wm_wns_address = None, wm_dilated = False,
          wm_dilated_wormhole = None, wm_versions = None, wm_created = 0\<rparr>)"

text \<open>The default relay first and the others behind it, in the order of the file.\<close>

definition relay_pair :: "relay_config \<Rightarrow> string \<times> string" where
  "relay_pair r = (rl_mailbox_url r, rl_transit_url r)"

definition relay_order :: "string \<Rightarrow> relay_config list \<Rightarrow> (string \<times> string) \<times> (string \<times> string) list" where
  "relay_order dflt relays =
     (let found = filter (\<lambda>r. rl_name r = dflt) relays;
          others = map relay_pair (filter (\<lambda>r. rl_name r \<noteq> dflt) relays)
      in if found \<noteq> [] then (relay_pair (last found), others)
         else (case relays of
                 r # rs \<Rightarrow> (relay_pair r, map relay_pair rs)
               | [] \<Rightarrow> ((default_relay_url, default_transit_url), others)))"

definition manager_from_config ::
  "string option \<Rightarrow> nat \<Rightarrow> relay_manager \<Rightarrow> manager result \<times> relay_manager" where
  "manager_from_config appid code_length rm =
     (case list_relays rm of
        (Inl e, rm') \<Rightarrow> (Inl e, rm')
      | (Inr relays, rm') \<Rightarrow>
          (case load_config rm' of
             (Inl e, rm'') \<Rightarrow> (Inl e, rm'')
           | (Inr c, rm'') \<Rightarrow>
               (case relay_order (rf_default c) relays of
                  (d, fallbacks) \<Rightarrow>
                    (Inr (new_wormhole_manager appid (Some (fst d)) (Some (snd d)) code_length fallbacks True), rm''))))"

definition current_relay :: "manager \<Rightarrow> string \<times> string" where
  "current_relay m = wm_relays m ! wm_index m"

definition try_next_relay :: "manager \<Rightarrow> bool \<times> manager" where
  "try_next_relay m =
     (if int (wm_index m) < int (length (wm_relays m)) - 1 then
        (let m' = m\<lparr>wm_index := wm_index m + 1\<rparr>
         in (True, m'\<lparr>wm_relay_url := fst (current_relay m'), wm_transit := snd (current_relay m')\<rparr>))
      else (False, m))"

definition has_fallback_relays :: "manager \<Rightarrow> bool" where
  "has_fallback_relays m \<longleftrightarrow> 1 < length (wm_relays m)"

section \<open>Codes and connections\<close>

definition next_wormhole :: "manager \<Rightarrow> wormhole" where
  "next_wormhole m =
     \<lparr>wh_number = wm_created m, wh_appid = wm_appid m, wh_relay = wm_relay_url m,
      wh_dilation = wm_enable_dilation m\<rparr>"

definition create_wormhole :: "manager \<Rightarrow> manager" where
  "create_wormhole m = m\<lparr>wm_wormhole := Some (next_wormhole m), wm_created := wm_created m + 1\<rparr>"

definition create_and_allocate_code :: "wormhole_lib \<Rightarrow> manager \<Rightarrow> string result \<times> manager" where
  "create_and_allocate_code lib m =
     (case wl_allocate lib (next_wormhole m) (wm_code_length m) of
        Inl e \<Rightarrow> (Inl e, create_wormhole m)
      | Inr c \<Rightarrow> (Inr c, (create_wormhole m)\<lparr>wm_code := Some c\<rparr>))"

definition create_with_code :: "wormhole_lib \<Rightarrow> string \<Rightarrow> manager \<Rightarrow> unit result \<times> manager" where
  "create_with_code lib code m =
     (case wl_set_code lib (next_wormhole m) code of
        Inl e \<Rightarrow> (Inl e, create_wormhole m)
      | Inr _ \<Rightarrow> (Inr (), (create_wormhole m)\<lparr>wm_code := Some code\<rparr>))"

definition resolve_wns_code :: "disc_env \<Rightarrow> string \<Rightarrow> wh_home \<Rightarrow> (string result \<times> wh_home) option" where
  "resolve_wns_code env a home =
     (case discover_code env a home of
        None \<Rightarrow> None
      | Some (Inl e, home') \<Rightarrow> Some (Inl e, home')
      | Some (Inr None, home') \<Rightarrow> Some (Inl ValueError, home')
      | Some (Inr (Some c), home') \<Rightarrow> Some (Inr c, home'))"

definition create_and_set_code ::
  "wormhole_lib \<Rightarrow> disc_env \<Rightarrow> alias_store \<Rightarrow> string \<Rightarrow> manager \<Rightarrow> wh_home \<Rightarrow>
   (unit result \<times> manager \<times> wh_home) option" where
  "create_and_set_code lib env st x m home =
     (let resolved = resolve_alias st x;
          y = (if truthy resolved then the resolved else x)
      in if is_wns_address y then
           (let m1 = m\<lparr>wm_wns_address := Some y\<rparr>
            in case resolve_wns_code env y home of
                 None \<Rightarrow> None
               | Some (Inl e, home') \<Rightarrow> Some (Inl e, m1, home')
               | Some (Inr code, home') \<Rightarrow>
                   (case create_with_code lib code m1 of (r, m2) \<Rightarrow> Some (r, m2, home')))
         else (case create_with_code lib y m of (r, m2) \<Rightarrow> Some (r, m2, home)))"

definition verify_connection :: "wormhole_lib \<Rightarrow> rat option \<Rightarrow> manager \<Rightarrow> jdict result \<times> manager" where
  "verify_connection lib limit m =
     (case wm_wormhole m of
        None \<Rightarrow> (Inl RuntimeError, m)
      | Some w \<Rightarrow>
          (case wl_versions lib w limit of
             Inl e \<Rightarrow> (Inl e, m)
           | Inr v \<Rightarrow> (Inr v, m\<lparr>wm_versions := Some v\<rparr>)))"

definition establish :: "wormhole_lib \<Rightarrow> rat option \<Rightarrow> manager \<Rightarrow> jdict result \<times> manager" where
  "establish lib timeout m = verify_connection lib (if timeout = Some 0 then None else timeout) m"

definition close_manager :: "manager \<Rightarrow> manager" where
  "close_manager m =
     (case wm_wormhole m of
        None \<Rightarrow> m
      | Some _ \<Rightarrow>
          m\<lparr>wm_wormhole := None, wm_dilated := False, wm_dilated_wormhole := None, wm_code := None,
            wm_wns_address := None\<rparr>)"

text \<open>One attempt of \<^verbatim>\<open>establish_with_fallback\<close>: the code is set and the peer awaited.\<close>

definition connect_once ::
  "wormhole_lib \<Rightarrow> disc_env \<Rightarrow> alias_store \<Rightarrow> string \<Rightarrow> rat \<Rightarrow> manager \<Rightarrow> wh_home \<Rightarrow>
   (jdict result \<times> manager \<times> wh_home) option" where
  "connect_once lib env st x timeout m home =
     (case create_and_set_code lib env st x m home of
        None \<Rightarrow> None
      | Some (Inl e, m1, home1) \<Rightarrow> Some (Inl e, m1, home1)
      | Some (Inr _, m1, home1) \<Rightarrow>
          (case establish lib (Some timeout) m1 of (r, m2) \<Rightarrow> Some (r, m2, home1)))"

definition same_relays :: "manager \<Rightarrow> manager \<Rightarrow> bool" where
  "same_relays m m' \<longleftrightarrow>
     wm_relays m' = wm_relays m \<and> wm_index m' = wm_index m \<and> wm_relay_url m' = wm_relay_url m
     \<and> wm_transit m' = wm_transit m \<and> wm_appid m' = wm_appid m
     \<and> wm_enable_dilation m' = wm_enable_dilation m"

lemma same_relays_close: "same_relays m (close_manager m)"
  by (simp add: same_relays_def close_manager_def split: option.split)

lemma create_with_code_relays: "create_with_code lib c m = (r, m') \<Longrightarrow> same_relays m m'"
  by (auto simp: create_with_code_def same_relays_def create_wormhole_def split: sum.splits)

lemma verify_connection_relays: "verify_connection lib t m = (r, m') \<Longrightarrow> same_relays m m'"
  by (auto simp: verify_connection_def same_relays_def split: sum.splits option.splits)

lemma same_relays_trans: "same_relays m m' \<Longrightarrow> same_relays m' m'' \<Longrightarrow> same_relays m m''"
  by (simp add: same_relays_def)

lemma connect_once_relays:
  assumes "connect_once lib env st x t m home = Some (r, m', home')"
  shows "same_relays m m'"
proof -
  have s: "same_relays m m1" if "create_and_set_code lib env st x m home = Some (q, m1, h)" for q m1 h
  proof -
    have w: "same_relays m (m\<lparr>wm_wns_address := a\<rparr>)" for a by (simp add: same_relays_def)
    show ?thesis
      using that w create_with_code_relays same_relays_trans [OF w]
      by (fastforce simp: create_and_set_code_def Let_def split: if_splits option.splits sum.splits prod.splits)
  qed
  then show ?thesis
    using assms verify_connection_relays same_relays_trans
    by (fastforce simp: connect_once_def establish_def split: option.splits sum.splits prod.splits)
qed

lemma next_relay_later:
  assumes "connect_once lib env st x t m home = Some (r, m1, home1)"
    and "try_next_relay (close_manager m1) = (True, m2)"
  shows "length (wm_relays m2) - wm_index m2 < length (wm_relays m) - wm_index m"
proof -
  have "same_relays m (close_manager m1)"
    using connect_once_relays [OF assms(1)] same_relays_close same_relays_trans by blast
  then show ?thesis
    using assms(2) by (auto simp: try_next_relay_def same_relays_def Let_def split: if_splits)
qed

function establish_with_fallback ::
  "wormhole_lib \<Rightarrow> disc_env \<Rightarrow> alias_store \<Rightarrow> string \<Rightarrow> rat \<Rightarrow> manager \<Rightarrow> wh_home \<Rightarrow>
   (jdict result \<times> manager \<times> wh_home) option" where
  "establish_with_fallback lib env st x timeout m home =
     (case connect_once lib env st x timeout m home of
        None \<Rightarrow> None
      | Some (Inr v, m1, home1) \<Rightarrow> Some (Inr v, m1, home1)
      | Some (Inl e, m1, home1) \<Rightarrow>
          (case try_next_relay (close_manager m1) of
             (False, m2) \<Rightarrow> Some (Inl ConnectionError, m2, home1)
           | (True, m2) \<Rightarrow> establish_with_fallback lib env st x timeout m2 home1))"
  by pat_completeness auto

termination
  by (relation "measure (\<lambda>(lib, env, st, x, t, m, home). length (wm_relays m) - wm_index m)")
    (auto dest: next_relay_later [OF _ sym])

declare establish_with_fallback.simps [simp del]

section \<open>Dilation and messages\<close>

definition dilate :: "wormhole_lib \<Rightarrow> manager \<Rightarrow> unit result \<times> manager" where
  "dilate lib m =
     (case wm_wormhole m of
        None \<Rightarrow> (Inl RuntimeError, m)
      | Some w \<Rightarrow>
          (case (if truthy (wm_versions m) then (Inr [], m) else verify_connection lib None m) of
             (Inl e, m1) \<Rightarrow> (Inl e, m1)
           | (Inr _, m1) \<Rightarrow>
               (case wl_dilate lib w of
                  Inl e \<Rightarrow> (Inl e, m1)
                | Inr _ \<Rightarrow>
                    (let m2 = m1\<lparr>wm_dilated_wormhole := Some w\<rparr> in
                     case wl_when_dilated lib w of
                       Inl e \<Rightarrow> (Inl e, m2)
                     | Inr _ \<Rightarrow> (Inr (), m2\<lparr>wm_dilated := True\<rparr>)))))"

text \<open>\<^verbatim>\<open>connector_for\<close> and \<^verbatim>\<open>listener_for\<close>: the dilated wormhole whose endpoint is returned.\<close>

definition endpoint_for :: "manager \<Rightarrow> string \<Rightarrow> (wormhole \<times> string) result" where
  "endpoint_for m protocol =
     (case wm_dilated_wormhole m of None \<Rightarrow> Inl RuntimeError | Some w \<Rightarrow> Inr (w, protocol))"

definition wm_send_message :: "wormhole_lib \<Rightarrow> manager \<Rightarrow> bytes \<Rightarrow> unit result" where
  "wm_send_message lib m msg =
     (case wm_wormhole m of None \<Rightarrow> Inl RuntimeError | Some w \<Rightarrow> wl_send lib w msg)"

definition wm_receive_message :: "wormhole_lib \<Rightarrow> manager \<Rightarrow> bytes result" where
  "wm_receive_message lib m = (case wm_wormhole m of None \<Rightarrow> Inl RuntimeError | Some w \<Rightarrow> wl_get lib w)"

definition wm_send_json :: "wormhole_lib \<Rightarrow> manager \<Rightarrow> jdict \<Rightarrow> unit result" where
  "wm_send_json lib m d = wm_send_message lib m (encode_utf8 (json_dumps None (JObj d)))"

definition wm_receive_json :: "wormhole_lib \<Rightarrow> manager \<Rightarrow> jval result" where
  "wm_receive_json lib m =
     (case wm_receive_message lib m of
        Inl e \<Rightarrow> Inl e
      | Inr msg \<Rightarrow> (case decode_utf8 msg of None \<Rightarrow> Inl ValueError | Some t \<Rightarrow> json_loads t))"

section \<open>Lemmas\<close>

definition wm_ok :: "manager \<Rightarrow> bool" where
  "wm_ok m \<longleftrightarrow>
     wm_index m < length (wm_relays m) \<and> (wm_relay_url m, wm_transit m) = current_relay m
     \<and> (wm_dilated m \<longrightarrow> wm_dilated_wormhole m \<noteq> None) \<and> (wm_code m \<noteq> None \<longrightarrow> wm_wormhole m \<noteq> None)
     \<and> (wm_dilated_wormhole m \<noteq> None \<longrightarrow> wm_wormhole m \<noteq> None)"

lemma wm_ok_new: "wm_ok (new_wormhole_manager a r t n fs b)"
  by (simp add: wm_ok_def new_wormhole_manager_def Let_def current_relay_def)

lemma wm_ok_create: "wm_ok m \<Longrightarrow> wm_ok (create_wormhole m)"
  by (simp add: wm_ok_def create_wormhole_def current_relay_def)

lemma wm_ok_close: "wm_ok m \<Longrightarrow> wm_ok (close_manager m)"
  by (auto simp: wm_ok_def close_manager_def current_relay_def split: option.splits)

lemma wm_ok_next: "wm_ok m \<Longrightarrow> wm_ok (snd (try_next_relay m))"
  by (auto simp: wm_ok_def try_next_relay_def current_relay_def Let_def)

lemma wm_ok_allocate: "wm_ok m \<Longrightarrow> wm_ok (snd (create_and_allocate_code lib m))"
  by (auto simp: create_and_allocate_code_def wm_ok_def create_wormhole_def current_relay_def
      split: sum.split)

lemma wm_ok_with_code:
  "wm_ok m \<Longrightarrow> create_with_code lib c m = (r, m') \<Longrightarrow> wm_ok m' \<and> wm_wormhole m' = Some (next_wormhole m)
     \<and> wm_versions m' = wm_versions m \<and> (r = Inr () \<longrightarrow> wm_code m' = Some c)"
  by (auto simp: create_with_code_def wm_ok_def create_wormhole_def current_relay_def split: sum.splits)

lemma wm_ok_verify:
  "wm_ok m \<Longrightarrow> verify_connection lib t m = (r, m') \<Longrightarrow> wm_ok m' \<and> wm_wormhole m' = wm_wormhole m
     \<and> wm_code m' = wm_code m"
  by (auto simp: verify_connection_def wm_ok_def current_relay_def split: option.splits sum.splits)

lemma wm_ok_dilate:
  assumes "wm_ok m"
  shows "wm_ok (snd (dilate lib m))"
proof -
  have "wm_ok (m1\<lparr>wm_dilated_wormhole := Some w\<rparr>)
      \<and> wm_ok (m1\<lparr>wm_dilated_wormhole := Some w, wm_dilated := True\<rparr>)"
    if "wm_ok m1" "wm_wormhole m1 = Some w" for m1 w
    using that by (simp add: wm_ok_def current_relay_def)
  then show ?thesis
    using assms wm_ok_verify [OF assms]
    by (fastforce simp: dilate_def Let_def split: option.split sum.split prod.split if_splits)
qed

text \<open>What a relay of the list answers to a plain code.\<close>

definition relay_wormhole :: "manager \<Rightarrow> nat \<Rightarrow> wormhole" where
  "relay_wormhole m k =
     \<lparr>wh_number = wm_created m + k, wh_appid = wm_appid m, wh_relay = fst (wm_relays m ! (wm_index m + k)),
      wh_dilation = wm_enable_dilation m\<rparr>"

definition relay_answer :: "wormhole_lib \<Rightarrow> string \<Rightarrow> rat \<Rightarrow> manager \<Rightarrow> nat \<Rightarrow> jdict result" where
  "relay_answer lib code timeout m k =
     (case wl_set_code lib (relay_wormhole m k) code of
        Inl e \<Rightarrow> Inl e
      | Inr _ \<Rightarrow> wl_versions lib (relay_wormhole m k) (if timeout = 0 then None else Some timeout))"

definition plain_code :: "alias_store \<Rightarrow> string \<Rightarrow> bool" where
  "plain_code st x \<longleftrightarrow> \<not> truthy (resolve_alias st x) \<and> \<not> is_wns_address x"

lemma connect_plain:
  assumes "plain_code st x" "wm_ok m"
  shows "\<exists>m1. connect_once lib env st x t m home = Some (relay_answer lib x t m 0, m1, home)
    \<and> wm_ok m1 \<and> same_relays m m1 \<and> wm_created m1 = wm_created m + 1
    \<and> wm_wormhole m1 = Some (relay_wormhole m 0)
    \<and> (\<not> isl (relay_answer lib x t m 0) \<longrightarrow> wm_code m1 = Some x)"
proof -
  have n: "next_wormhole m = relay_wormhole m 0"
    using arg_cong [where f = fst, OF conjunct1 [OF conjunct2 [OF assms(2) [unfolded wm_ok_def]]]]
    by (simp add: next_wormhole_def relay_wormhole_def current_relay_def)
  obtain r m1 where c: "create_with_code lib x m = (r, m1)" by fastforce
  have m1: "wm_ok m1" "wm_wormhole m1 = Some (relay_wormhole m 0)" "r = Inr () \<Longrightarrow> wm_code m1 = Some x"
    "same_relays m m1"
    using wm_ok_with_code [OF assms(2) c] create_with_code_relays [OF c] by (simp_all add: n)
  have k: "wm_created m1 = wm_created m + 1"
    using c by (auto simp: create_with_code_def create_wormhole_def split: sum.splits)
  have s: "create_and_set_code lib env st x m home = Some (r, m1, home)"
    using assms(1) c by (simp add: create_and_set_code_def plain_code_def Let_def)
  obtain q m2 where v: "establish lib (Some t) m1 = (q, m2)" by fastforce
  then have v': "verify_connection lib (if t = 0 then None else Some t) m1 = (q, m2)" by (simp add: establish_def)
  have m2: "wm_ok m2" "wm_wormhole m2 = wm_wormhole m1" "wm_code m2 = wm_code m1" "same_relays m1 m2"
    using wm_ok_verify [OF m1(1) v'] verify_connection_relays [OF v'] by simp_all
  have q: "wm_created m2 = wm_created m1"
    "q = wl_versions lib (relay_wormhole m 0) (if t = 0 then None else Some t)"
    using v' m1(2) by (auto simp: verify_connection_def split: sum.splits)
  show ?thesis
  proof (cases r)
    case (Inl e)
    then have "relay_answer lib x t m 0 = Inl e"
      using c by (auto simp: create_with_code_def relay_answer_def n split: sum.splits)
    then show ?thesis using Inl s m1 k by (simp add: connect_once_def)
  next
    case (Inr u)
    then have "relay_answer lib x t m 0 = q"
      using c q(2) by (auto simp: create_with_code_def relay_answer_def n split: sum.splits)
    then show ?thesis
      using Inr s m1 m2 q(1) k v same_relays_trans [OF m1(4) m2(4)] by (simp add: connect_once_def)
  qed
qed

text \<open>After a failed attempt the search goes on at the next relay, as if it had started there.\<close>

lemma connect_next:
  assumes "plain_code st x" "wm_ok m" "isl (relay_answer lib x t m 0)"
    and "wm_index m + 1 < length (wm_relays m)"
  shows "\<exists>m2. establish_with_fallback lib env st x t m home = establish_with_fallback lib env st x t m2 home
    \<and> wm_ok m2 \<and> wm_relays m2 = wm_relays m \<and> wm_index m2 = wm_index m + 1
    \<and> (\<forall>k. relay_wormhole m2 k = relay_wormhole m (k + 1))"
proof -
  obtain m1 where c: "connect_once lib env st x t m home = Some (relay_answer lib x t m 0, m1, home)"
    and ok: "wm_ok m1" and same: "same_relays m m1" and k: "wm_created m1 = wm_created m + 1"
    using connect_plain [OF assms(1,2)] by blast
  obtain e where e: "relay_answer lib x t m 0 = Inl e" using assms(3) by (auto simp: isl_def)
  let ?c = "close_manager m1"
  have sc: "same_relays m ?c" "wm_ok ?c" "wm_created ?c = wm_created m + 1"
    using same_relays_trans [OF same same_relays_close] wm_ok_close [OF ok] k
    by (simp_all add: close_manager_def split: option.split)
  obtain m2 where m2: "try_next_relay ?c = (True, m2)"
    using assms(4) sc(1) by (simp add: try_next_relay_def same_relays_def Let_def)
  then have "wm_ok m2" using wm_ok_next [OF sc(2)] by simp
  moreover have "wm_relays m2 = wm_relays m" "wm_index m2 = wm_index m + 1" "wm_appid m2 = wm_appid m"
    "wm_enable_dilation m2 = wm_enable_dilation m" "wm_created m2 = wm_created m + 1"
    using m2 sc(1,3) by (auto simp: try_next_relay_def same_relays_def Let_def split: if_splits)
  moreover have "establish_with_fallback lib env st x t m home = establish_with_fallback lib env st x t m2 home"
    by (subst establish_with_fallback.simps) (simp add: c e m2)
  ultimately show ?thesis by (intro exI [of _ m2]) (simp add: relay_wormhole_def)
qed

lemma fallback_success:
  assumes "plain_code st x" "wm_ok m" "wm_index m + k < length (wm_relays m)"
    and "\<not> isl (relay_answer lib x t m k)" "\<And>j. j < k \<Longrightarrow> isl (relay_answer lib x t m j)"
  shows "\<exists>m'. establish_with_fallback lib env st x t m home = Some (relay_answer lib x t m k, m', home)
    \<and> wm_ok m' \<and> wm_index m' = wm_index m + k \<and> wm_wormhole m' = Some (relay_wormhole m k)
    \<and> wm_code m' = Some x"
  using assms(2-)
proof (induction k arbitrary: m)
  case 0
  obtain v where v: "relay_answer lib x t m 0 = Inr v" using 0(3) by (cases "relay_answer lib x t m 0") auto
  obtain m1 where "connect_once lib env st x t m home = Some (Inr v, m1, home)" "wm_ok m1"
    "same_relays m m1" "wm_wormhole m1 = Some (relay_wormhole m 0)" "wm_code m1 = Some x"
    using connect_plain [OF assms(1) 0(1), of lib env t home] v by auto
  then show ?case by (subst establish_with_fallback.simps) (simp add: v same_relays_def)
next
  case (Suc k)
  obtain m2 where m2: "establish_with_fallback lib env st x t m home = establish_with_fallback lib env st x t m2 home"
    "wm_ok m2" "wm_relays m2 = wm_relays m" "wm_index m2 = wm_index m + 1"
    "\<And>k. relay_wormhole m2 k = relay_wormhole m (k + 1)"
    using connect_next [OF assms(1) Suc.prems(1), of lib t env home] Suc.prems(2,4) by auto
  have a: "relay_answer lib x t m2 j = relay_answer lib x t m (Suc j)" for j
    by (simp only: relay_answer_def m2(5) Suc_eq_plus1)
  have "\<exists>m'. establish_with_fallback lib env st x t m2 home = Some (relay_answer lib x t m2 k, m', home)
    \<and> wm_ok m' \<and> wm_index m' = wm_index m2 + k \<and> wm_wormhole m' = Some (relay_wormhole m2 k)
    \<and> wm_code m' = Some x"
    by (rule Suc.IH [OF m2(2)]) (use Suc.prems(2-4) m2(3,4) in \<open>simp_all add: a\<close>)
  then show ?case by (simp add: m2 a)
qed

lemma fallback_failure:
  assumes "plain_code st x" "wm_ok m"
    and "\<And>j. wm_index m + j < length (wm_relays m) \<Longrightarrow> isl (relay_answer lib x t m j)"
  shows "\<exists>m'. establish_with_fallback lib env st x t m home = Some (Inl ConnectionError, m', home)
    \<and> wm_ok m' \<and> wm_index m' + 1 = length (wm_relays m) \<and> wm_wormhole m' = None"
  using assms(2-)
proof (induction "length (wm_relays m) - wm_index m" arbitrary: m rule: less_induct)
  case less
  have i: "wm_index m < length (wm_relays m)" using less.prems(1) by (simp add: wm_ok_def)
  then have l: "isl (relay_answer lib x t m 0)" using less.prems(2) [of 0] by simp
  show ?case
  proof (cases "wm_index m + 1 < length (wm_relays m)")
    case True
    obtain m2 where m2: "establish_with_fallback lib env st x t m home = establish_with_fallback lib env st x t m2 home"
      "wm_ok m2" "wm_relays m2 = wm_relays m" "wm_index m2 = wm_index m + 1"
      "\<And>k. relay_wormhole m2 k = relay_wormhole m (k + 1)"
      using connect_next [OF assms(1) less.prems(1) l True] by blast
    have "isl (relay_answer lib x t m2 j)" if "wm_index m2 + j < length (wm_relays m2)" for j
    proof -
      have "relay_answer lib x t m2 j = relay_answer lib x t m (j + 1)" by (simp only: relay_answer_def m2(5))
      then show ?thesis using less.prems(2) [of "j + 1"] that m2(3,4) by simp
    qed
    from less.hyps [OF _ m2(2) this] show ?thesis using i m2(1,3,4) by auto
  next
    case False
    obtain m1 where c: "connect_once lib env st x t m home = Some (relay_answer lib x t m 0, m1, home)"
      and ok: "wm_ok m1" and same: "same_relays m m1"
      using connect_plain [OF assms(1) less.prems(1)] by blast
    obtain e where e: "relay_answer lib x t m 0 = Inl e" using l by (auto simp: isl_def)
    have "same_relays m (close_manager m1)" by (rule same_relays_trans [OF same same_relays_close])
    then have "try_next_relay (close_manager m1) = (False, close_manager m1)" "wm_index (close_manager m1) = wm_index m"
      using False i by (simp_all add: try_next_relay_def same_relays_def)
    moreover have "wm_wormhole (close_manager m1) = None" by (simp add: close_manager_def split: option.split)
    ultimately show ?thesis
      using False i wm_ok_close [OF ok] by (subst establish_with_fallback.simps) (simp add: c e)
  qed
qed

section \<open>Properties\<close>

text \<open>
  C15. Fallback over the relays: with a plain code the search ends, the peer is reached through the
  first relay of the list, from the current one on, that takes the code and answers in time, the
  manager is then connected through that relay, and only when every relay has failed is a
  connection error raised, with nothing left open.
\<close>

theorem fallback_in_order:
  assumes "plain_code st x" "wm_ok m"
  shows "\<exists>r m'. establish_with_fallback lib env st x t m home = Some (r, m', home) \<and> wm_ok m'
    \<and> (case r of
         Inl e \<Rightarrow> e = ConnectionError \<and> wm_wormhole m' = None
           \<and> (\<forall>j. wm_index m + j < length (wm_relays m) \<longrightarrow> isl (relay_answer lib x t m j))
       | Inr v \<Rightarrow>
           (\<exists>k. wm_index m' = wm_index m + k \<and> wm_index m' < length (wm_relays m)
              \<and> relay_answer lib x t m k = Inr v \<and> (\<forall>j<k. isl (relay_answer lib x t m j))
              \<and> wm_wormhole m' = Some (relay_wormhole m k) \<and> wm_code m' = Some x))"
proof (cases "\<exists>k. wm_index m + k < length (wm_relays m) \<and> \<not> isl (relay_answer lib x t m k)")
  case True
  define k where "k = (LEAST k. wm_index m + k < length (wm_relays m) \<and> \<not> isl (relay_answer lib x t m k))"
  have k: "wm_index m + k < length (wm_relays m)" "\<not> isl (relay_answer lib x t m k)"
    using LeastI_ex [OF True] by (simp_all add: k_def)
  have j: "isl (relay_answer lib x t m j)" if "j < k" for j
    using not_less_Least [OF that [unfolded k_def]] that k(1) by auto
  obtain v where v: "relay_answer lib x t m k = Inr v" using k(2) by (cases "relay_answer lib x t m k") auto
  obtain m' where "establish_with_fallback lib env st x t m home = Some (Inr v, m', home)" "wm_ok m'"
    "wm_index m' = wm_index m + k" "wm_wormhole m' = Some (relay_wormhole m k)" "wm_code m' = Some x"
    using fallback_success [OF assms k j, of env home] v by auto
  then show ?thesis using k(1) j v by (intro exI [of _ "Inr v"] exI [of _ m']) auto
next
  case False
  then obtain m' where "establish_with_fallback lib env st x t m home = Some (Inl ConnectionError, m', home)"
    "wm_ok m'" "wm_wormhole m' = None"
    using fallback_failure [OF assms] by blast
  then show ?thesis using False by (intro exI [of _ "Inl ConnectionError"] exI [of _ m']) auto
qed

text \<open>A library under which only the second relay answers.\<close>

definition toy_lib :: wormhole_lib where
  "toy_lib =
     \<lparr>wl_allocate = (\<lambda>w n. Inr ''7-guitar-sunset''), wl_set_code = (\<lambda>w c. Inr ()),
      wl_versions = (\<lambda>w t. if wh_relay w = ''ws://b'' then Inr [(''v'', JInt 1)] else Inl TimeoutError),
      wl_dilate = (\<lambda>w. Inr ()), wl_when_dilated = (\<lambda>w. Inr ()), wl_send = (\<lambda>w b. Inr ()),
      wl_get = (\<lambda>w. Inr [])\<rparr>"

definition toy_manager :: manager where
  "toy_manager = new_wormhole_manager None (Some ''ws://a'') (Some ''tcp:a'') 2 [(''ws://b'', ''tcp:b'')] True"

theorem fallback_in_order_witness:
  "\<exists>m'. establish_with_fallback toy_lib toy_env (open_alias_store None) ''7-guitar-sunset'' 30 toy_manager empty_home
      = Some (Inr [(''v'', JInt 1)], m', empty_home) \<and> wm_index m' = 1"
proof -
  have p: "plain_code (open_alias_store None) ''7-guitar-sunset''" by code_simp
  have ok: "wm_ok toy_manager" unfolding toy_manager_def by (rule wm_ok_new)
  have a: "relay_answer toy_lib ''7-guitar-sunset'' 30 toy_manager 0 = Inl TimeoutError"
    "relay_answer toy_lib ''7-guitar-sunset'' 30 toy_manager 1 = Inr [(''v'', JInt 1)]"
    "wm_index toy_manager = 0" "length (wm_relays toy_manager) = 2"
    by (simp_all add: relay_answer_def toy_lib_def relay_wormhole_def toy_manager_def new_wormhole_manager_def Let_def)
  obtain r m' where r: "establish_with_fallback toy_lib toy_env (open_alias_store None) ''7-guitar-sunset'' 30
      toy_manager empty_home = Some (r, m', empty_home)"
    and c: "case r of
         Inl e \<Rightarrow> e = ConnectionError \<and> wm_wormhole m' = None
           \<and> (\<forall>j. wm_index toy_manager + j < length (wm_relays toy_manager) \<longrightarrow>
                isl (relay_answer toy_lib ''7-guitar-sunset'' 30 toy_manager j))
       | Inr v \<Rightarrow>
           (\<exists>k. wm_index m' = wm_index toy_manager + k \<and> wm_index m' < length (wm_relays toy_manager)
              \<and> relay_answer toy_lib ''7-guitar-sunset'' 30 toy_manager k = Inr v
              \<and> (\<forall>j<k. isl (relay_answer toy_lib ''7-guitar-sunset'' 30 toy_manager j))
              \<and> wm_wormhole m' = Some (relay_wormhole toy_manager k) \<and> wm_code m' = Some ''7-guitar-sunset'')"
    using fallback_in_order [OF p ok, of toy_lib toy_env 30 empty_home] by blast
  show ?thesis
  proof (cases r)
    case (Inl e)
    then have "isl (relay_answer toy_lib ''7-guitar-sunset'' 30 toy_manager 1)"
      using c a(3,4) by auto
    then show ?thesis by (simp only: a sum.disc)
  next
    case (Inr v)
    then obtain k where "wm_index m' = k" "k < 2" "relay_answer toy_lib ''7-guitar-sunset'' 30 toy_manager k = Inr v"
      using c a(3,4) by auto
    then have "k = 1 \<and> v = [(''v'', JInt 1)]" using a(1,2) by (auto simp: less_2_cases_iff)
    then show ?thesis using r Inr \<open>wm_index m' = k\<close> by auto
  qed
qed

text \<open>
  A manager that is closed and used again does not wait for its new peer: the versions of the first
  peer are kept over \<^verbatim>\<open>close\<close>, so dilation of a later wormhole succeeds or fails as the library's
  dilation does, whether or not that peer ever connects, while a manager that is used for the first
  time fails with the error its peer's versions raise.
\<close>

theorem dilation_after_close:
  assumes "verify_connection lib0 t m = (Inr v, m1)" "v \<noteq> []"
    and "create_and_allocate_code lib (close_manager m1) = (Inr c, m2)"
    and "wl_dilate lib (next_wormhole (close_manager m1)) = Inr ()"
  shows "fst (dilate lib m2) = wl_when_dilated lib (next_wormhole (close_manager m1))
    \<and> (wl_versions lib (next_wormhole (close_manager m1)) None = Inl e \<longrightarrow>
         fst (dilate lib (m2\<lparr>wm_versions := None\<rparr>)) = Inl e)"
proof -
  have "wm_versions (close_manager m1) = Some v"
    using assms(1) by (auto simp: verify_connection_def close_manager_def split: option.splits sum.splits)
  then have "wm_versions m2 = Some v" "wm_wormhole m2 = Some (next_wormhole (close_manager m1))"
    using assms(3) by (auto simp: create_and_allocate_code_def create_wormhole_def split: sum.splits)
  then show ?thesis
    using assms(2,4) by (simp add: dilate_def verify_connection_def Let_def split: sum.split)
qed

theorem dilation_after_close_witness:
  "let m1 = snd (verify_connection (toy_lib\<lparr>wl_versions := \<lambda>_ _. Inr [(''v'', JInt 1)]\<rparr>) None
                  (create_wormhole toy_manager));
       m2 = snd (create_and_allocate_code toy_lib (close_manager m1))
   in fst (dilate toy_lib m2) = Inr () \<and> fst (dilate toy_lib (m2\<lparr>wm_versions := None\<rparr>)) = Inl TimeoutError"
proof -
  let ?lib0 = "toy_lib\<lparr>wl_versions := \<lambda>_ _. Inr [(''v'', JInt 1)]\<rparr>"
  obtain m1 where m1: "verify_connection ?lib0 None (create_wormhole toy_manager) = (Inr [(''v'', JInt 1)], m1)"
    by (simp add: verify_connection_def create_wormhole_def)
  obtain m2 where m2: "create_and_allocate_code toy_lib (close_manager m1) = (Inr ''7-guitar-sunset'', m2)"
    by (simp add: create_and_allocate_code_def toy_lib_def)
  have "wm_relay_url (close_manager m1) = ''ws://a''"
    using m1 by (auto simp: verify_connection_def create_wormhole_def close_manager_def toy_manager_def
        new_wormhole_manager_def Let_def)
  then have v: "wl_versions toy_lib (next_wormhole (close_manager m1)) None = Inl TimeoutError"
    by (simp add: toy_lib_def next_wormhole_def)
  have d: "wl_dilate toy_lib w = Inr ()" "wl_when_dilated toy_lib w = Inr ()" for w by (simp_all add: toy_lib_def)
  from dilation_after_close [OF m1 _ m2 d(1)] v show ?thesis by (simp add: m1 m2 d(2))
qed

end
