(* ===== verification/Wns_Server.thy ===== *)
theory Wns_Server
  imports Wormhole_Manager
begin

text \<open>
  \<^verbatim>\<open>src/wh/wns/server.py\<close>: the persistent server. It allocates a code, advertises it in the DHT and
  in a file, serves one connection and starts over. What the wormhole library, the clock, the
  service and the shutdown signal do in a turn of the loop is the input of that turn.
\<close>

section \<open>The server\<close>

datatype service_type = SSH | HTTP | NC | PORT

definition parse_service :: "string \<Rightarrow> service_type result" where
  "parse_service s =
     (let l = lower s in
      if l = ''ssh'' then Inr SSH else if l = ''http'' then Inr HTTP else if l = ''nc'' then Inr NC
      else if l = ''port'' then Inr PORT else Inl ValueError)"

record wns_server =
  ws_identity :: identity
  ws_service :: service_type
  ws_port :: "int option"
  ws_relay_url :: "string option"
  ws_transit :: "string option"
  ws_config :: dht_config
  ws_to_file :: bool
  ws_running :: bool
  ws_shutdown :: bool
  ws_node :: "wns_node option"
  ws_code :: "string option"
  ws_count :: nat

definition new_wns_server ::
  "identity \<Rightarrow> service_type \<Rightarrow> int option \<Rightarrow> string option \<Rightarrow> string option \<Rightarrow> dht_config \<Rightarrow> bool \<Rightarrow>
   wns_server result" where
  "new_wns_server i svc port relay transit cfg to_file =
     (if \<not> can_sign i then Inl ValueError
      else Inr \<lparr>ws_identity = i, ws_service = svc, ws_port = port, ws_relay_url = relay, ws_transit = transit,
                ws_config = cfg, ws_to_file = to_file, ws_running = False, ws_shutdown = False,
                ws_node = None, ws_code = None, ws_count = 0\<rparr>)"

text \<open>\<^verbatim>\<open>_publish_advertisement\<close>: failures of the DHT are only logged.\<close>

definition publish_to_dht :: "disc_env \<Rightarrow> advertisement \<Rightarrow> wns_node option \<Rightarrow> wns_node option" where
  "publish_to_dht env ad node =
     (case node of
        Some w \<Rightarrow> if wn_running w then Some (snd (publish (en_nacl env) (en_now env) (en_net env) ad w)) else Some w
      | None \<Rightarrow> None)"

definition publish_code :: "disc_env \<Rightarrow> string \<Rightarrow> wns_server \<Rightarrow> wh_home \<Rightarrow> unit result \<times> wns_server \<times> wh_home" where
  "publish_code env code s home =
     (case create_ad (en_nacl env) (en_now env) (ws_identity s) code (cfg_ttl_seconds (ws_config s)) of
        Inl e \<Rightarrow> (Inl e, s, home)
      | Inr ad \<Rightarrow>
          (Inr (), s\<lparr>ws_node := publish_to_dht env ad (ws_node s)\<rparr>,
           if ws_to_file s
           then home\<lparr>hm_ads := dset (id_address (ws_identity s)) (ad_to_json ad) (hm_ads home)\<rparr> else home))"

datatype service_end = ServiceDone | ServiceRaised exn | ServiceCancelled

definition run_service :: "service_end \<Rightarrow> wns_server \<Rightarrow> service_end" where
  "run_service outcome s =
     (if ws_service s = PORT \<and> (ws_port s = None \<or> ws_port s = Some 0) then ServiceRaised ValueError
      else outcome)"

record serve_input =
  si_env :: disc_env
  si_lib :: wormhole_lib
  si_service :: service_end
  si_shutdown :: bool

definition server_manager :: "wns_server \<Rightarrow> manager" where
  "server_manager s = new_wormhole_manager None (ws_relay_url s) (ws_transit s) 2 [] True"

text \<open>
  One turn of \<^verbatim>\<open>_connection_loop\<close>, and whether the loop goes on: an exception of any step ends the
  turn, a cancelled service ends the loop.
\<close>

definition serve_turn :: "serve_input \<Rightarrow> wns_server \<Rightarrow> wh_home \<Rightarrow> bool \<times> wns_server \<times> wh_home" where
  "serve_turn inp s0 home =
     (let s = s0\<lparr>ws_count := ws_count s0 + 1\<rparr>;
          done = (\<lambda>go t h. (go, t\<lparr>ws_shutdown := ws_shutdown t \<or> si_shutdown inp\<rparr>, h))
      in case create_and_allocate_code (si_lib inp) (server_manager s) of
           (Inl _, _) \<Rightarrow> done True s home
         | (Inr code, m) \<Rightarrow>
             (case publish_code (si_env inp) code (s\<lparr>ws_code := Some code\<rparr>) home of
                (Inl _, t, h) \<Rightarrow> done True t h
              | (Inr _, t, h) \<Rightarrow>
                  (case dilate (si_lib inp) m of
                     (Inl _, _) \<Rightarrow> done True t h
                   | (Inr _, _) \<Rightarrow> done (run_service (si_service inp) t \<noteq> ServiceCancelled) t h)))"

fun connection_loop :: "serve_input list \<Rightarrow> wns_server \<Rightarrow> wh_home \<Rightarrow> wns_server \<times> wh_home" where
  "connection_loop [] s home = (s, home)"
| "connection_loop (inp # inps) s home =
     (if ws_shutdown s then (s, home)
      else
        (case serve_turn inp s home of
           (True, s', home') \<Rightarrow> connection_loop inps s' home'
         | (False, s', home') \<Rightarrow> (s', home')))"

text \<open>\<^verbatim>\<open>joined\<close>: whether the DHT node starts; the server runs without one otherwise.\<close>

definition start_server :: "bool \<Rightarrow> outside \<Rightarrow> bytes \<Rightarrow> bytes \<Rightarrow> wns_server \<Rightarrow> wns_server" where
  "start_server joined ou nid tok s =
     s\<lparr>ws_running := True, ws_shutdown := False,
       ws_node := (if joined then Some (start_wns_node ou nid tok (new_wns_node (ws_config s))) else None)\<rparr>"

definition stop_server :: "wns_server \<Rightarrow> wns_server" where
  "stop_server s = s\<lparr>ws_node := map_option stop_wns_node (ws_node s), ws_running := False\<rparr>"

definition shutdown_server :: "wns_server \<Rightarrow> wns_server" where
  "shutdown_server s = s\<lparr>ws_shutdown := True\<rparr>"

definition run_server ::
  "bool \<Rightarrow> outside \<Rightarrow> bytes \<Rightarrow> bytes \<Rightarrow> serve_input list \<Rightarrow> wns_server \<Rightarrow> wh_home \<Rightarrow>
   wns_server \<times> wh_home" where
  "run_server joined ou nid tok inps s home =
     apfst stop_server (connection_loop inps (start_server joined ou nid tok s) home)"

text \<open>\<^verbatim>\<open>run_wns_server\<close> up to \<^verbatim>\<open>server.run\<close>: the identity and the service it runs with.\<close>

definition choose_server ::
  "nacl \<Rightarrow> identity_store \<Rightarrow> string option \<Rightarrow> string \<Rightarrow> int option \<Rightarrow> string option \<Rightarrow> dht_config \<Rightarrow>
   wns_server result" where
  "choose_server nc store addr svc port relay cfg =
     (case (if truthy addr then load_identity nc store (the addr) else get_default_identity nc store) of
        Inl e \<Rightarrow> Inl e
      | Inr None \<Rightarrow> Inl ValueError
      | Inr (Some i) \<Rightarrow>
          (case parse_service svc of
             Inl e \<Rightarrow> Inl e
           | Inr t \<Rightarrow> new_wns_server i t port relay None cfg True))"

section \<open>Lemmas\<close>

lemma serve_turn_publishes:
  assumes "serve_turn inp s home = (go, s', home')" "can_sign (ws_identity s)" "ws_to_file s"
    and "wl_allocate (si_lib inp) (next_wormhole (server_manager s)) 2 = Inr code"
    and "add_seconds (en_now (si_env inp)) (cfg_ttl_seconds (ws_config s)) = Inr e"
  shows "\<exists>ad. create_ad (en_nacl (si_env inp)) (en_now (si_env inp)) (ws_identity s) code
        (cfg_ttl_seconds (ws_config s)) = Inr ad
    \<and> hm_ads home' = dset (id_address (ws_identity s)) (ad_to_json ad) (hm_ads home)
    \<and> hm_ids home' = hm_ids home \<and> hm_claims home' = hm_claims home
    \<and> ws_code s' = Some code \<and> ws_identity s' = ws_identity s"
proof -
  obtain ad where ad: "create_ad (en_nacl (si_env inp)) (en_now (si_env inp)) (ws_identity s) code
        (cfg_ttl_seconds (ws_config s)) = Inr ad"
    using create_ad_signs [OF assms(2,5)] by blast
  have m: "server_manager (s\<lparr>ws_count := ws_count s + 1\<rparr>) = server_manager s"
    and l: "wm_code_length (server_manager s) = 2"
    by (simp_all add: server_manager_def new_wormhole_manager_def Let_def)
  show ?thesis
    using assms(1,3,4) ad m l
    by (fastforce simp: serve_turn_def Let_def create_and_allocate_code_def publish_code_def
        split: sum.splits prod.splits)
qed

lemma hosts_ok_loads: "hosts_ok s \<Longrightarrow> \<exists>r. load_known_host s a = Inr r"
  by (cases "has_key (known_hosts s) a") (auto simp: hosts_ok_iff load_known_host_def has_key_iff)

section \<open>Properties\<close>

text \<open>
  C2. From the server to the client: when a turn of the server's loop has been given a code, a client on
  the same machine that connects to the server's address, or to an alias for it, before the
  advertisement expires sets exactly that code, whatever advertisements there were before; the server
  itself reports it as its current code.
\<close>

theorem served_code_reaches_client:
  assumes turn: "serve_turn inp s home = (go, s', home')"
    and alloc: "wl_allocate (si_lib inp) (next_wormhole (server_manager s)) 2 = Inr code"
    and i: "wf_identity (en_nacl (si_env inp)) (ws_identity s)" "can_sign (ws_identity s)" "ws_to_file s"
    and time: "nacl_ok (en_nacl (si_env inp))" "utc_ok (en_now (si_env inp))" "0 \<le> cfg_ttl_seconds (ws_config s)"
      "instant (en_now (si_env inp)) + cfg_ttl_seconds (ws_config s) * 1000000 < 315537984000000000"
    and hosts: "hosts_ok (hm_ids home)"
      "\<And>k. load_known_host (hm_ids home) (id_address (ws_identity s)) = Inr (Some k) \<Longrightarrow>
         public_key k = verify_key (ws_identity s)"
    and client: "en_nacl env = en_nacl (si_env inp)" "utcoff (en_now env) \<noteq> None"
      "instant (en_now env) < instant (en_now (si_env inp)) + cfg_ttl_seconds (ws_config s) * 1000000"
      "resolve_alias st x = Some (id_full_address (ws_identity s))"
      "wl_set_code lib (next_wormhole m) code = Inr ()"
  shows "ws_code s' = Some code
    \<and> (\<exists>m' home''. create_and_set_code lib env st x m home' = Some (Inr (), m', home'')
        \<and> wm_code m' = Some code \<and> wm_wns_address m' = Some (id_full_address (ws_identity s)))"
proof -
  let ?i = "ws_identity s" and ?ttl = "cfg_ttl_seconds (ws_config s)"
  obtain e where e: "add_seconds (en_now (si_env inp)) ?ttl = Inr e"
    using add_seconds_ok [OF time(2,3)] time(4) by (auto simp: end_of_calendar_def)
  obtain ad where ad: "create_ad (en_nacl (si_env inp)) (en_now (si_env inp)) ?i code ?ttl = Inr ad"
    and home': "hm_ads home' = dset (id_address ?i) (ad_to_json ad) (hm_ads home)" "hm_ids home' = hm_ids home"
    and s': "ws_code s' = Some code"
    using serve_turn_publishes [OF turn i(2,3) alloc e] by blast
  note c = created_ad [OF i(2) ad]
  have b: "is_base32_address (id_address ?i)"
    using i(1) derive_address_base32 by (simp add: wf_identity_def)
  have valid: "valid_datetime (ad_timestamp ad)" "valid_datetime (ad_expires ad)" "ad_scoped_name ad \<noteq> Some []"
    using time(2) i(1) add_seconds_Inr(3) [OF c(4)] by (simp_all add: c(5,6) utc_ok_def wf_identity_def)
  have "verify_ad (en_nacl env) (en_now env) ad (Some (id_address ?i)) = Inr True"
    using verify_created_ad [OF time(1) i(1,2) time(2,3) ad client(2)] client(1,3) by simp
  then have f: "file_lookup env home' (id_address ?i) = Some ad"
    using file_lookup_written [OF _ valid, of home' "id_address ?i" env] home'(1) by simp
  have t: "trusted home' True (id_address ?i) ad"
    using hosts hosts_ok_loads [OF hosts(1), of "id_address ?i"]
    by (auto simp: trusted_def home'(2) c split: option.split)
  note names = full_address_names [OF i(1)]
  obtain d where d: "disc_lookup env home' True (id_full_address ?i) (start_discovery env default_discovery)
      = Some (Inr (Some ad), d)"
    using disc_lookup_file [OF conjunct1 [OF names] conjunct2 [OF names] base32_address_nonempty [OF b] _ f t,
      of "start_discovery env default_discovery"]
    by (auto simp: default_discovery_def new_discovery_def start_discovery_def start_backend_def)
  have "length (ad_public_key ad) = 32" using i(1) by (simp add: c wf_identity_def)
  then have "\<exists>h. remember_host (id_full_address ?i) ad home' = Inr h"
    using hosts_ok_loads [OF hosts(1), of "id_full_address ?i"]
    by (auto simp: remember_host_def home'(2) from_public_key_def split: option.split)
  then obtain h where "remember_host (id_full_address ?i) ad home' = Inr h" ..
  then have "resolve_wns_code env (id_full_address ?i) home' = Some (Inr code, h)"
    using d by (simp add: resolve_wns_code_def discover_code_def lookup_and_cache_def c)
  moreover have "is_wns_address (id_full_address ?i)" "id_full_address ?i \<noteq> []"
    using names by (simp_all add: is_wns_address_def) (simp add: id_full_address_def)
  moreover have "next_wormhole (m\<lparr>wm_wns_address := a\<rparr>) = next_wormhole m" for a
    by (simp add: next_wormhole_def)
  ultimately have "create_and_set_code lib env st x m home'
      = Some (Inr (), (create_wormhole (m\<lparr>wm_wns_address := Some (id_full_address ?i)\<rparr>))\<lparr>wm_code := Some code\<rparr>, h)"
    using client(4,5) by (simp add: create_and_set_code_def create_with_code_def)
  then show ?thesis using s' by (auto simp: create_wormhole_def)
qed

definition toy_server :: wns_server where
  "toy_server =
     \<lparr>ws_identity = toy_identity, ws_service = NC, ws_port = None, ws_relay_url = None, ws_transit = None,
      ws_config = toy_config, ws_to_file = True, ws_running = True, ws_shutdown = False, ws_node = None,
      ws_code = None, ws_count = 0\<rparr>"

definition toy_turn :: serve_input where
  "toy_turn = \<lparr>si_env = toy_env, si_lib = toy_lib, si_service = ServiceDone, si_shutdown = False\<rparr>"

theorem served_code_reaches_client_witness:
  "\<exists>go s' home' m' home''. serve_turn toy_turn toy_server empty_home = (go, s', home')
    \<and> create_and_set_code toy_lib toy_env (open_alias_store None) (id_full_address toy_identity) toy_manager home'
        = Some (Inr (), m', home'')
    \<and> wm_code m' = Some ''7-guitar-sunset''"
proof -
  obtain go s' home' where t: "serve_turn toy_turn toy_server empty_home = (go, s', home')"
    by (cases "serve_turn toy_turn toy_server empty_home") auto
  have time: "instant toy_now + 3600 * 1000000 < 315537984000000000"
    by (simp add: toy_now_def instant_def ymd2ord_def days_before_year_def days_before_month_def
        month_days_def leap_def)
  have r: "resolve_alias (open_alias_store None) (id_full_address toy_identity) = Some (id_full_address toy_identity)"
    using full_address_names [OF wf_toy_identity] by (simp add: resolve_alias_def is_wns_address_def)
  have a: "wl_allocate (si_lib toy_turn) (next_wormhole (server_manager toy_server)) 2 = Inr ''7-guitar-sunset''"
    by (simp add: toy_turn_def toy_lib_def)
  have s: "ws_identity toy_server = toy_identity" "si_env toy_turn = toy_env" "ws_to_file toy_server"
    "cfg_ttl_seconds (ws_config toy_server) = 3600" "en_nacl toy_env = toy_nacl" "en_now toy_env = toy_now"
    "can_sign toy_identity" "utcoff toy_now \<noteq> None" "hosts_ok (hm_ids empty_home)"
    "\<And>a. load_known_host (hm_ids empty_home) a = Inr None" "wl_set_code toy_lib w c = Inr ()" for w c
    by (simp_all add: toy_server_def toy_turn_def toy_env_def toy_config_def can_sign_def toy_identity_def
        toy_now_def hosts_ok_def empty_home_def load_known_host_def toy_lib_def)
  show ?thesis
    using served_code_reaches_client [OF t a, of toy_env "open_alias_store None" "id_full_address toy_identity"
        toy_lib toy_manager] t wf_toy_identity toy_nacl_ok toy_now_ok time r
    by (simp add: s) blast
qed

end
