(* ===== verification/Framing.thy ===== *)
theory Framing
  imports Py_Bytes
begin

text \<open>
  The framing that the multiplexing commands share (\<^verbatim>\<open>src/wh/cli/proxy.py\<close>, \<^verbatim>\<open>ftp.py\<close>, \<^verbatim>\<open>mount.py\<close>):
  a message is a header of fixed length, whose last four bytes are the big-endian length of the
  payload, and the payload; a receiver collects what arrives and takes complete messages off the front.
\<close>

section \<open>Taking messages off a buffer\<close>

definition payload_length :: "nat \<Rightarrow> bytes \<Rightarrow> nat" where
  "payload_length h buf = unpack_be (drop (h - 4) (take h buf))"

text \<open>The header and payload of every complete message, and the rest of the buffer.\<close>

function take_frames :: "nat \<Rightarrow> bytes \<Rightarrow> (bytes \<times> bytes) list \<times> bytes" where
  "take_frames h buf =
     (if h = 0 \<or> length buf < h \<or> length buf < h + payload_length h buf then ([], buf)
      else
        (case take_frames h (drop (h + payload_length h buf) buf) of
           (ms, rest) \<Rightarrow> ((take h buf, take (payload_length h buf) (drop h buf)) # ms, rest)))"
  by pat_completeness auto

termination by (relation "measure (\<lambda>(h, buf). length buf)") auto

declare take_frames.simps [simp del]

text \<open>\<^verbatim>\<open>_on_data\<close> for one chunk after another: all messages, and the buffer at the end.\<close>

fun feed_chunks :: "nat \<Rightarrow> bytes \<Rightarrow> bytes list \<Rightarrow> (bytes \<times> bytes) list \<times> bytes" where
  "feed_chunks h buf [] = ([], buf)"
| "feed_chunks h buf (c # cs) =
     (case take_frames h (buf @ c) of
        (ms, rest) \<Rightarrow> (case feed_chunks h rest cs of (ms', rest') \<Rightarrow> (ms @ ms', rest')))"

lemma payload_length_append: "h \<le> length buf \<Longrightarrow> payload_length h (buf @ c) = payload_length h buf"
  by (simp add: payload_length_def)

lemma take_frames_append:
  "take_frames h (buf @ c) =
     (case take_frames h buf of
        (ms, rest) \<Rightarrow> (case take_frames h (rest @ c) of (ms', rest') \<Rightarrow> (ms @ ms', rest')))"
proof (induction h buf rule: take_frames.induct)
  case (1 h buf)
  show ?case
  proof (cases "h = 0 \<or> length buf < h \<or> length buf < h + payload_length h buf")
    case True
    then show ?thesis by (simp add: take_frames.simps [of h buf] split: prod.split)
  next
    case False
    let ?n = "payload_length h buf"
    have p: "payload_length h (buf @ c) = ?n" using False by (simp add: payload_length_append)
    have "take_frames h (buf @ c) =
        (case take_frames h (drop (h + ?n) buf @ c) of
           (ms, rest) \<Rightarrow> ((take h buf, take ?n (drop h buf)) # ms, rest))"
      using False by (subst take_frames.simps) (simp add: p)
    then show ?thesis
      using 1 [OF False] False by (simp add: take_frames.simps [of h buf] split: prod.split)
  qed
qed

text \<open>How the bytes are cut into chunks does not matter.\<close>

lemma feed_chunks_concat:
  assumes "take_frames h buf = ([], buf)"
  shows "feed_chunks h buf cs = take_frames h (buf @ concat cs)"
  using assms
proof (induction cs arbitrary: buf)
  case (Cons c cs)
  obtain ms rest where t: "take_frames h (buf @ c) = (ms, rest)" by fastforce
  have r: "take_frames h rest = ([], rest)"
  proof -
    have "take_frames h ((buf @ c) @ []) = (case take_frames h (rest @ []) of (ms', rest') \<Rightarrow> (ms @ ms', rest'))"
      by (subst take_frames_append) (simp add: t)
    then show ?thesis using t by (auto split: prod.splits)
  qed
  show ?case
    using Cons.IH [OF r] take_frames_append [of h "buf @ c" "concat cs"] t by (simp split: prod.split)
qed simp

lemma take_frames_Nil: "take_frames h [] = ([], [])"
  by (cases "h = 0") (simp_all add: take_frames.simps)

text \<open>
  The loop over the messages of a buffer with a handler that may raise: the exception leaves the rest
  of the messages in the buffer, where the next data find them.
\<close>

fun run_frames :: "(bytes \<times> bytes \<Rightarrow> 's \<Rightarrow> bool \<times> 's) \<Rightarrow> (bytes \<times> bytes) list \<Rightarrow> bytes \<Rightarrow> 's \<Rightarrow> bytes \<times> 's" where
  "run_frames h [] rest s = (rest, s)"
| "run_frames h (f # fs) rest s =
     (case h f s of
        (False, s') \<Rightarrow> (concat (map (\<lambda>g. fst g @ snd g) fs) @ rest, s')
      | (True, s') \<Rightarrow> run_frames h fs rest s')"

lemma run_frames_fold_inv:
  "(\<And>f s. f \<in> set fs \<Longrightarrow> Q s \<Longrightarrow> fst (h f s) \<and> Q (snd (h f s))) \<Longrightarrow> Q s \<Longrightarrow>
    run_frames h fs rest s = (rest, fold (\<lambda>f s. snd (h f s)) fs s) \<and> Q (fold (\<lambda>f s. snd (h f s)) fs s)"
proof (induction fs arbitrary: s)
  case (Cons f fs)
  then have "fst (h f s)" "Q (snd (h f s))" by simp_all
  then obtain s' where "h f s = (True, s')" "Q s'" by (cases "h f s") simp
  then show ?case using Cons by simp
qed simp

lemma run_frames_fold:
  "(\<And>f s. f \<in> set fs \<Longrightarrow> fst (h f s)) \<Longrightarrow> run_frames h fs rest s = (rest, fold (\<lambda>f s. snd (h f s)) fs s)"
  using run_frames_fold_inv [of fs "\<lambda>_. True" h s rest] by simp

lemma run_frames_inv:
  assumes "\<And>f s. f \<in> set fs \<Longrightarrow> Q s \<Longrightarrow> Q (snd (h f s))" "Q s"
  shows "Q (snd (run_frames h fs rest s))"
  using assms
proof (induction fs arbitrary: s)
  case (Cons f fs)
  have "Q (snd (h f s))" using Cons.prems by simp
  then show ?case
    using Cons.IH Cons.prems(1) by (cases "h f s") (auto split: bool.split)
qed simp

text \<open>\<^verbatim>\<open>_on_data\<close> with \<^verbatim>\<open>_process_buffer\<close> on the buffer and the rest of the state.\<close>

definition feed :: "nat \<Rightarrow> (bytes \<times> bytes \<Rightarrow> 's \<Rightarrow> bool \<times> 's) \<Rightarrow> bytes \<Rightarrow> bytes \<times> 's \<Rightarrow> bytes \<times> 's" where
  "feed h f chunk s = (case take_frames h (fst s @ chunk) of (fs, rest) \<Rightarrow> run_frames f fs rest (snd s))"

lemma feed_inv:
  assumes "\<And>f s. Q s \<Longrightarrow> Q (snd (g f s))" "Q (snd s)"
  shows "Q (snd (feed h g chunk s))"
  unfolding feed_def using run_frames_inv [of _ Q g] assms by (auto split: prod.split)

lemma fold_feed_inv:
  assumes "\<And>f s. f \<in> set (fst (feed_chunks h buf chunks)) \<Longrightarrow> Q s \<Longrightarrow> fst (g f s) \<and> Q (snd (g f s))" "Q s"
  shows "fold (feed h g) chunks (buf, s) =
    (snd (feed_chunks h buf chunks), fold (\<lambda>f s. snd (g f s)) (fst (feed_chunks h buf chunks)) s)"
  using assms
proof (induction chunks arbitrary: buf s)
  case (Cons c cs)
  obtain ms rest where t: "take_frames h (buf @ c) = (ms, rest)" by fastforce
  obtain ms' rest' where u: "feed_chunks h rest cs = (ms', rest')" by fastforce
  have "run_frames g ms rest s = (rest, fold (\<lambda>f s. snd (g f s)) ms s) \<and> Q (fold (\<lambda>f s. snd (g f s)) ms s)"
    by (rule run_frames_fold_inv) (use Cons.prems t u in auto)
  then show ?case using Cons.IH [of rest] Cons.prems t u by (simp add: feed_def)
qed simp

lemma fold_feed:
  assumes "\<forall>f \<in> set (fst (feed_chunks h buf chunks)). \<forall>s. fst (g f s)"
  shows "fold (feed h g) chunks (buf, s) =
    (snd (feed_chunks h buf chunks), fold (\<lambda>f s. snd (g f s)) (fst (feed_chunks h buf chunks)) s)"
  by (rule fold_feed_inv [where Q = "\<lambda>_. True"]) (use assms in auto)

text \<open>No byte is lost: the messages taken and the rest are what arrived.\<close>

definition frame_bytes :: "(bytes \<times> bytes) list \<Rightarrow> bytes" where
  "frame_bytes fs = concat (map (\<lambda>g. fst g @ snd g) fs)"

lemma take_frames_bytes: "frame_bytes (fst (take_frames h buf)) @ snd (take_frames h buf) = buf"
proof (induction h buf rule: take_frames.induct)
  case (1 h buf)
  show ?case
  proof (cases "h = 0 \<or> length buf < h \<or> length buf < h + payload_length h buf")
    case True
    then show ?thesis by (simp add: take_frames.simps [of h buf] frame_bytes_def)
  next
    case False
    let ?n = "payload_length h buf"
    obtain ms r where t: "take_frames h (drop (h + ?n) buf) = (ms, r)" by fastforce
    have "take h buf @ take ?n (drop h buf) @ drop (h + ?n) buf = buf"
      by (metis append_take_drop_id drop_drop add.commute)
    then show ?thesis
      using 1 [OF False] False t by (simp add: take_frames.simps [of h buf] frame_bytes_def)
  qed
qed

lemma feed_chunks_bytes:
  "frame_bytes (fst (feed_chunks h buf cs)) @ snd (feed_chunks h buf cs) = buf @ concat cs"
proof (induction cs arbitrary: buf)
  case (Cons c cs)
  obtain ms r where t: "take_frames h (buf @ c) = (ms, r)" by fastforce
  obtain ms' r' where u: "feed_chunks h r cs = (ms', r')" by fastforce
  show ?case
    using take_frames_bytes [of h "buf @ c"] Cons.IH [of r] t u by (simp add: frame_bytes_def)
qed (simp add: frame_bytes_def)

lemma feed_chunks_append:
  "feed_chunks h buf (cs @ ds) =
     (fst (feed_chunks h buf cs) @ fst (feed_chunks h (snd (feed_chunks h buf cs)) ds),
      snd (feed_chunks h (snd (feed_chunks h buf cs)) ds))"
  by (induction cs arbitrary: buf) (simp_all split: prod.split)

lemma feed_chunks_rest: "take_frames h buf = ([], buf) \<Longrightarrow>
    take_frames h (snd (feed_chunks h buf cs)) = ([], snd (feed_chunks h buf cs))"
proof (induction cs arbitrary: buf)
  case (Cons c cs)
  obtain ms r where t: "take_frames h (buf @ c) = (ms, r)" by fastforce
  have "take_frames h r = ([], r)"
    using take_frames_append [of h "buf @ c" "[]"] t by (auto split: prod.splits)
  then show ?case using Cons.IH [of r] t by (cases "feed_chunks h r cs") simp
qed simp

text \<open>\<^verbatim>\<open>struct.pack\<close> of a header whose last field is the length.\<close>

definition put_frame :: "bytes \<Rightarrow> bytes \<Rightarrow> bytes" where
  "put_frame front payload = front @ pack_be 4 (length payload) @ payload"

lemma take_put_frame:
  assumes "length front + 4 = h" "length payload < 256 ^ 4"
  shows "take_frames h (put_frame front payload @ rest) =
    (case take_frames h rest of
       (ms, r) \<Rightarrow> ((front @ pack_be 4 (length payload), payload) # ms, r))"
proof -
  let ?b = "put_frame front payload @ rest"
  have h: "take h ?b = front @ pack_be 4 (length payload)" "drop h ?b = payload @ rest"
    using assms(1) by (simp_all add: put_frame_def)
  then have p: "payload_length h ?b = length payload"
    using assms by (auto simp: payload_length_def simp del: take_append)
  have d: "drop (h + length payload) ?b = rest"
    by (metis append_eq_conv_conj drop_drop add.commute h(2))
  have n: "h \<noteq> 0" "h + length payload \<le> length ?b" using assms(1) by (simp_all add: put_frame_def)
  show ?thesis
    by (subst take_frames.simps) (simp only: p h d, use n in \<open>auto split: prod.split\<close>)
qed

text \<open>\<^verbatim>\<open>struct.pack\<close> of big-endian fields, each with its width in bytes.\<close>

fun pack_fields :: "(nat \<times> nat) list \<Rightarrow> bytes result" where
  "pack_fields [] = Inr []"
| "pack_fields ((k, n) # fs) =
     (if n < 256 ^ k then map_sum id ((@) (pack_be k n)) (pack_fields fs) else Inl StructError)"

definition fields_frame :: "(nat \<times> nat) list \<Rightarrow> bytes \<Rightarrow> bytes result" where
  "fields_frame fs payload = map_sum id (\<lambda>front. front @ payload) (pack_fields (fs @ [(4, length payload)]))"

lemma pack_fields_snoc:
  "pack_fields (fs @ [(k, n)]) =
     (case pack_fields fs of
        Inl e \<Rightarrow> Inl e
      | Inr front \<Rightarrow> if n < 256 ^ k then Inr (front @ pack_be k n) else Inl StructError)"
  by (induction fs rule: pack_fields.induct) (auto split: sum.split)

lemma fields_frame_put:
  assumes "fields_frame fs payload = Inr bs"
  shows "\<exists>front. pack_fields fs = Inr front \<and> bs = put_frame front payload \<and> length payload < 256 ^ 4"
  using assms by (auto simp: fields_frame_def pack_fields_snoc put_frame_def split: sum.splits if_splits)

lemma map_sum_eq_Inr: "map_sum id f r = Inr y \<longleftrightarrow> (\<exists>x. r = Inr x \<and> y = f x)"
  by (cases r) auto

lemma length_pack_fields: "pack_fields fs = Inr front \<Longrightarrow> length front = sum_list (map fst fs)"
  by (induction fs arbitrary: front rule: pack_fields.induct) (auto simp: map_sum_eq_Inr split: if_splits)

section \<open>Framed messages\<close>

text \<open>
  The contract of a message format: an encodable message is one frame, and its header and payload
  determine it.
\<close>

locale framed =
  fixes hlen :: nat
    and enc :: "'m \<Rightarrow> bytes result"
    and dec :: "bytes \<times> bytes \<Rightarrow> 'm"
  assumes frame: "enc m = Inr bs \<Longrightarrow>
      \<exists>front payload. bs = put_frame front payload \<and> length front + 4 = hlen \<and> length payload < 256 ^ 4
        \<and> dec (front @ pack_be 4 (length payload), payload) = m"
begin

lemma frames_of_messages:
  assumes "list_all2 (\<lambda>m bs. enc m = Inr bs) ms bss"
  shows "map dec (fst (take_frames hlen (concat bss @ part))) = ms @ map dec (fst (take_frames hlen part))
    \<and> snd (take_frames hlen (concat bss @ part)) = snd (take_frames hlen part)"
  using assms
proof (induction ms bss rule: list_all2_induct)
  case (Cons m ms bs bss)
  obtain front payload where f: "bs = put_frame front payload" "length front + 4 = hlen"
    "length payload < 256 ^ 4" "dec (front @ pack_be 4 (length payload), payload) = m"
    using frame [OF Cons.hyps(1)] by blast
  show ?case
    using Cons.IH f(4) take_put_frame [OF f(2,3), of "concat bss @ part"]
    by (cases "take_frames hlen (concat bss @ part)") (simp add: f(1))
qed simp

text \<open>Whatever the chunks a stream arrives in, its receiver sees its messages, in order.\<close>

lemma stream_received:
  assumes "list_all2 (\<lambda>m bs. enc m = Inr bs) ms bss" "concat chunks = concat bss"
  shows "map dec (fst (feed_chunks hlen [] chunks)) = ms \<and> snd (feed_chunks hlen [] chunks) = []"
  using frames_of_messages [OF assms(1), of "[]"] assms(2)
  by (simp add: feed_chunks_concat take_frames_Nil)

text \<open>A receiver whose handler does not raise on these messages handles each of them once, in order.\<close>

lemma messages_handled_inv:
  assumes "list_all2 (\<lambda>m bs. enc m = Inr bs) ms bss" "concat chunks = concat bss"
    and "\<And>m s. m \<in> set ms \<Longrightarrow> Q s \<Longrightarrow> fst (g m s) \<and> Q (snd (g m s))" "Q s"
  shows "fold (feed hlen (\<lambda>f. g (dec f))) chunks ([], s) = ([], fold (\<lambda>m s. snd (g m s)) ms s)"
proof -
  have r: "map dec (fst (feed_chunks hlen [] chunks)) = ms" "snd (feed_chunks hlen [] chunks) = []"
    using stream_received [OF assms(1,2)] by simp_all
  have m: "fold (\<lambda>f s. snd (g (dec f) s)) fs s = fold (\<lambda>m s. snd (g m s)) (map dec fs) s" for fs s
    by (induction fs arbitrary: s) simp_all
  have "fst (g (dec f) t) \<and> Q (snd (g (dec f) t))" if "f \<in> set (fst (feed_chunks hlen [] chunks))" "Q t" for f t
    using assms(3) that r(1) by (metis (no_types, lifting) image_eqI list.set_map)
  then show ?thesis using fold_feed_inv [of hlen "[]" chunks Q "\<lambda>f. g (dec f)" s] assms(4) r by (simp add: m)
qed

lemma messages_handled:
  assumes "list_all2 (\<lambda>m bs. enc m = Inr bs) ms bss" "concat chunks = concat bss"
    and "\<And>m s. m \<in> set ms \<Longrightarrow> fst (g m s)"
  shows "fold (feed hlen (\<lambda>f. g (dec f))) chunks ([], s) = ([], fold (\<lambda>m s. snd (g m s)) ms s)"
  by (rule messages_handled_inv [where Q = "\<lambda>_. True"]) (use assms in auto)

text \<open>
  The stream in two parts: the first \<^verbatim>\<open>k\<close> messages are handled with the first part, and all of them
  exactly when nothing is left for the second.
\<close>

lemma stream_cut:
  assumes "list_all2 (\<lambda>m bs. enc m = Inr bs) ms bss" "concat cs @ concat ds = concat bss"
  shows "\<exists>k. k \<le> length ms \<and> (k = length ms \<longleftrightarrow> concat ds = [])
    \<and> map dec (fst (feed_chunks hlen [] cs)) = take k ms
    \<and> map dec (fst (feed_chunks hlen (snd (feed_chunks hlen [] cs)) ds)) = drop k ms
    \<and> snd (feed_chunks hlen (snd (feed_chunks hlen [] cs)) ds) = []"
proof -
  obtain f1 r1 where f1: "feed_chunks hlen [] cs = (f1, r1)" by fastforce
  obtain f2 r2 where f2: "feed_chunks hlen r1 ds = (f2, r2)" by fastforce
  have s: "map dec (f1 @ f2) = ms" "r2 = []"
    using stream_received [of ms bss "cs @ ds"] assms f1 f2 by (simp_all add: feed_chunks_append)
  have b: "frame_bytes f1 @ r1 = concat cs" "frame_bytes f2 @ r2 = r1 @ concat ds"
    using feed_chunks_bytes [of hlen "[]" cs] feed_chunks_bytes [of hlen r1 ds] f1 f2 by simp_all
  have r: "take_frames hlen r1 = ([], r1)"
    using feed_chunks_rest [of hlen "[]" cs] f1 by (simp add: take_frames_Nil)
  have "f2 = [] \<longleftrightarrow> concat ds = []"
  proof
    assume "f2 = []"
    then show "concat ds = []" using b(2) s(2) by (simp add: frame_bytes_def)
  next
    assume "concat ds = []"
    then have "feed_chunks hlen r1 ds = ([], r1)" using feed_chunks_concat [OF r, of ds] r by (simp del: concat_eq_Nil_conv)
    then show "f2 = []" using f2 by simp
  qed
  then show ?thesis
    using s f1 f2 by (intro exI [of _ "length f1"]) auto
qed

lemma messages_cut:
  assumes "list_all2 (\<lambda>m bs. enc m = Inr bs) ms bss" "concat cs @ concat ds = concat bss"
    and "\<And>m s. m \<in> set ms \<Longrightarrow> fst (g m s)"
  shows "\<exists>k buf. k \<le> length ms \<and> (k = length ms \<longleftrightarrow> concat ds = [])
    \<and> fold (feed hlen (\<lambda>f. g (dec f))) cs ([], s) = (buf, fold (\<lambda>m s. snd (g m s)) (take k ms) s)
    \<and> (\<forall>s. fold (feed hlen (\<lambda>f. g (dec f))) ds (buf, s) = ([], fold (\<lambda>m s. snd (g m s)) (drop k ms) s))"
proof -
  obtain f1 r1 where f1: "feed_chunks hlen [] cs = (f1, r1)" by fastforce
  obtain f2 r2 where f2: "feed_chunks hlen r1 ds = (f2, r2)" by fastforce
  obtain k where k: "k \<le> length ms" "k = length ms \<longleftrightarrow> concat ds = []" "map dec f1 = take k ms"
      "map dec f2 = drop k ms" "r2 = []"
    using stream_cut [OF assms(1,2)] f1 f2 by auto
  have m: "fold (\<lambda>f s. snd (g (dec f) s)) fs s = fold (\<lambda>m s. snd (g m s)) (map dec fs) s" for fs s
    by (induction fs arbitrary: s) simp_all
  have ok: "fst (g (dec f) s)" if "f \<in> set f1 \<union> set f2" for f s
  proof -
    have "dec f \<in> set (take k ms) \<union> set (drop k ms)" using that k(3,4) by (metis Un_iff image_eqI list.set_map)
    then show ?thesis using assms(3) by (metis Un_iff in_set_dropD in_set_takeD)
  qed
  have "fold (feed hlen (\<lambda>f. g (dec f))) cs ([], s) = (r1, fold (\<lambda>m s. snd (g m s)) (take k ms) s)"
    using fold_feed [of hlen "[]" cs "\<lambda>f. g (dec f)"] ok f1 k(3) m by simp
  moreover have "fold (feed hlen (\<lambda>f. g (dec f))) ds (r1, s) = ([], fold (\<lambda>m s. snd (g m s)) (drop k ms) s)" for s
    using fold_feed [of hlen r1 ds "\<lambda>f. g (dec f)"] ok f2 k(4,5) m by simp
  ultimately show ?thesis using k(1,2) by blast
qed

end

end
