(* ===== verification/Proxy.thy ===== *)
theory Proxy
  imports Framing
begin

text \<open>
  \<^verbatim>\<open>src/wh/cli/proxy.py\<close>: many connections over one wormhole channel, and the SOCKS5 server in front
  of it. The handlers of messages are operations on the state of one side; what sockets and timers
  do are operations of their own, so that every interleaving is a sequence of operations.
\<close>

section \<open>Messages\<close>

record pmsg =
  pm_type :: nat
  pm_channel :: nat
  pm_data :: bytes

definition msg_connect :: nat where "msg_connect = 1"
definition msg_connect_ok :: nat where "msg_connect_ok = 2"
definition msg_connect_fail :: nat where "msg_connect_fail = 3"
definition msg_data :: nat where "msg_data = 4"
definition msg_close :: nat where "msg_close = 5"

lemmas msg_defs = msg_connect_def msg_connect_ok_def msg_connect_fail_def msg_data_def msg_close_def

text \<open>\<^verbatim>\<open>struct.pack(">BHI", ...)\<close> and the payload, and back.\<close>

definition proxy_frame :: "pmsg \<Rightarrow> bytes result" where
  "proxy_frame m = fields_frame [(1, pm_type m), (2, pm_channel m)] (pm_data m)"

definition proxy_message :: "bytes \<times> bytes \<Rightarrow> pmsg" where
  "proxy_message f =
     \<lparr>pm_type = unpack_be (take 1 (fst f)), pm_channel = unpack_be (take 2 (drop 1 (fst f))),
      pm_data = snd f\<rparr>"

definition proxy_header :: nat where
  "proxy_header = 7"

section \<open>One side of the connection\<close>

text \<open>
  A channel has the future of a pending request or not, and a local writer or not. The futures
  outlive their channels: \<^verbatim>\<open>connect\<close> holds them.
\<close>

record channel =
  ch_future :: bool
  ch_writer :: bool

record mux =
  mx_linked :: bool
  mx_buffer :: bytes
  mx_channels :: "(nat, channel) dict"
  mx_next :: nat
  mx_futures :: "(nat, bool option) dict"
  mx_sent :: bytes
  mx_written :: "(nat \<times> bytes) list"
  mx_closed :: "nat list"
  mx_dialing :: "(nat \<times> string \<times> nat) list"
  mx_done :: bool

definition new_mux :: mux where
  "new_mux =
     \<lparr>mx_linked = False, mx_buffer = [], mx_channels = [], mx_next = 1, mx_futures = [], mx_sent = [],
      mx_written = [], mx_closed = [], mx_dialing = [], mx_done = False\<rparr>"

definition mux_send :: "nat \<Rightarrow> nat \<Rightarrow> bytes \<Rightarrow> mux \<Rightarrow> unit result \<times> mux" where
  "mux_send t c payload m =
     (if \<not> mx_linked m then (Inr (), m)
      else
        (case proxy_frame \<lparr>pm_type = t, pm_channel = c, pm_data = payload\<rparr> of
           Inl e \<Rightarrow> (Inl e, m)
         | Inr bs \<Rightarrow> (Inr (), m\<lparr>mx_sent := mx_sent m @ bs\<rparr>)))"

definition dial :: "nat \<Rightarrow> string \<Rightarrow> nat \<Rightarrow> mux \<Rightarrow> mux" where
  "dial c host port m = m\<lparr>mx_dialing := mx_dialing m @ [(c, host, port)]\<rparr>"

text \<open>\<^verbatim>\<open>_handle_connect\<close> up to the dialling; a host that is not UTF-8 ends the task with no reply.\<close>

definition handle_connect :: "nat \<Rightarrow> bytes \<Rightarrow> mux \<Rightarrow> mux" where
  "handle_connect c payload m =
     (if length payload < 3 then snd (mux_send msg_connect_fail c [] m)
      else
        (let host_len = unat (hd payload) in
         if length payload < 1 + host_len + 2 then snd (mux_send msg_connect_fail c [] m)
         else
           (case decode_utf8 (take host_len (drop 1 payload)) of
              None \<Rightarrow> m
            | Some host \<Rightarrow> dial c host (unpack_be (take 2 (drop (1 + host_len) payload))) m)))"

text \<open>The end of a dialling: whether the target was reached.\<close>

definition dialed :: "bool \<Rightarrow> nat \<times> string \<times> nat \<Rightarrow> mux \<Rightarrow> mux" where
  "dialed ok task m =
     (let m' = m\<lparr>mx_dialing := remove1 task (mx_dialing m)\<rparr> in
      if ok then
        snd (mux_send msg_connect_ok (fst task) []
          (m'\<lparr>mx_channels := dset (fst task) \<lparr>ch_future = False, ch_writer = True\<rparr> (mx_channels m')\<rparr>))
      else snd (mux_send msg_connect_fail (fst task) [] m'))"

definition resolve_pending :: "bool \<Rightarrow> nat \<Rightarrow> mux \<Rightarrow> mux" where
  "resolve_pending ok c m =
     (case dget (mx_channels m) c of
        Some ch \<Rightarrow>
          if ch_future ch \<and> dget (mx_futures m) c = Some None
          then m\<lparr>mx_futures := dset c (Some ok) (mx_futures m)\<rparr> else m
      | None \<Rightarrow> m)"

definition handle_channel_data :: "nat \<Rightarrow> bytes \<Rightarrow> mux \<Rightarrow> mux" where
  "handle_channel_data c d m =
     (case dget (mx_channels m) c of
        Some ch \<Rightarrow> if ch_writer ch then m\<lparr>mx_written := mx_written m @ [(c, d)]\<rparr> else m
      | None \<Rightarrow> m)"

definition close_writer :: "nat \<Rightarrow> mux \<Rightarrow> mux" where
  "close_writer c m =
     (case dget (mx_channels m) c of
        Some ch \<Rightarrow> if ch_writer ch then m\<lparr>mx_closed := mx_closed m @ [c]\<rparr> else m
      | None \<Rightarrow> m)"

definition handle_channel_close :: "nat \<Rightarrow> mux \<Rightarrow> mux" where
  "handle_channel_close c m =
     (let m' = close_writer c m in m'\<lparr>mx_channels := ddel c (mx_channels m')\<rparr>)"

definition handle_frame :: "pmsg \<Rightarrow> mux \<Rightarrow> mux" where
  "handle_frame p m =
     (if pm_type p = msg_connect then handle_connect (pm_channel p) (pm_data p) m
      else if pm_type p = msg_connect_ok then resolve_pending True (pm_channel p) m
      else if pm_type p = msg_connect_fail then resolve_pending False (pm_channel p) m
      else if pm_type p = msg_data then handle_channel_data (pm_channel p) (pm_data p) m
      else if pm_type p = msg_close then handle_channel_close (pm_channel p) m
      else m)"

text \<open>\<^verbatim>\<open>_on_data\<close> with \<^verbatim>\<open>_process_buffer\<close>; no handler looks at the buffer.\<close>

definition mux_on_data :: "bytes \<Rightarrow> mux \<Rightarrow> mux" where
  "mux_on_data chunk m =
     (case take_frames proxy_header (mx_buffer m @ chunk) of
        (fs, rest) \<Rightarrow> fold (\<lambda>f. handle_frame (proxy_message f)) fs (m\<lparr>mx_buffer := rest\<rparr>))"

text \<open>\<^verbatim>\<open>_forward_from_target\<close>: one read with data, and its end.\<close>

definition target_data :: "nat \<Rightarrow> bytes \<Rightarrow> mux \<Rightarrow> mux" where
  "target_data c d m = snd (mux_send msg_data c d m)"

definition target_eof :: "nat \<Rightarrow> mux \<Rightarrow> mux" where
  "target_eof c m = handle_channel_close c (snd (mux_send msg_close c [] m))"

text \<open>\<^verbatim>\<open>connect\<close> up to the wait for the reply, and after it: the future has a result or has timed out.\<close>

definition start_connect :: "string \<Rightarrow> nat \<Rightarrow> mux \<Rightarrow> nat result \<times> mux" where
  "start_connect host port m =
     (let c = mx_next m;
          m1 = m\<lparr>mx_next := c + 1, mx_futures := dset c None (mx_futures m),
                 mx_channels := dset c \<lparr>ch_future = True, ch_writer = False\<rparr> (mx_channels m)\<rparr>;
          hb = encode_utf8 host
      in if 256 \<le> length hb then (Inl ValueError, m1)
         else if 256 ^ 2 \<le> port then (Inl StructError, m1)
         else
           (case mux_send msg_connect c (word_of_nat (length hb) # hb @ pack_be 2 port) m1 of
              (Inl e, m2) \<Rightarrow> (Inl e, m2)
            | (Inr _, m2) \<Rightarrow> (Inr c, m2)))"

definition finish_connect :: "nat \<Rightarrow> mux \<Rightarrow> nat option result \<times> mux" where
  "finish_connect c m =
     (case dget (mx_futures m) c of
        Some (Some True) \<Rightarrow> (Inr (Some c), m)
      | Some (Some False) \<Rightarrow>
          if has_key (mx_channels m) c then (Inr None, m\<lparr>mx_channels := ddel c (mx_channels m)\<rparr>)
          else (Inl KeyError, m)
      | _ \<Rightarrow> (Inr None, m\<lparr>mx_channels := ddel c (mx_channels m)\<rparr>))"

text \<open>What the SOCKS5 server does after it has sent its success reply, and with its client's data.\<close>

definition attach_writer :: "nat \<Rightarrow> mux \<Rightarrow> unit result \<times> mux" where
  "attach_writer c m =
     (case dget (mx_channels m) c of
        None \<Rightarrow> (Inl KeyError, m)
      | Some ch \<Rightarrow> (Inr (), m\<lparr>mx_channels := dset c (ch\<lparr>ch_writer := True\<rparr>) (mx_channels m)\<rparr>))"

definition local_data :: "nat \<Rightarrow> bytes \<Rightarrow> mux \<Rightarrow> mux" where
  "local_data c d m = snd (mux_send msg_data c d m)"

definition local_eof :: "nat \<Rightarrow> mux \<Rightarrow> mux" where
  "local_eof c m =
     (let m' = snd (mux_send msg_close c [] m)
      in m'\<lparr>mx_channels := ddel c (mx_channels m'), mx_closed := mx_closed m' @ [c]\<rparr>)"

definition connection_lost :: "mux \<Rightarrow> mux" where
  "connection_lost m = m\<lparr>mx_done := True\<rparr>"

section \<open>The SOCKS5 server\<close>

text \<open>
  \<^verbatim>\<open>StreamReader.read(n)\<close>: at most \<^verbatim>\<open>n\<close> of the bytes that have arrived, or of the next piece when none
  have; nothing at the end of the stream. The stream is what has arrived and the pieces to come.
\<close>

type_synonym stream = "bytes \<times> bytes list"

definition sread :: "nat \<Rightarrow> stream \<Rightarrow> bytes \<times> stream" where
  "sread n s =
     (if n = 0 then ([], s)
      else
        (case s of
           (b # bs, cs) \<Rightarrow> (take n (b # bs), (drop n (b # bs), cs))
         | ([], []) \<Rightarrow> ([], s)
         | ([], c # cs) \<Rightarrow> (take n c, (drop n c, cs))))"

definition socks_reply :: "byte \<Rightarrow> bytes" where
  "socks_reply code = [5, code, 0, 1, 0, 0, 0, 0, 0, 0]"

definition socks_success :: bytes where
  "socks_success = [5, 0, 0, 1, 127, 0, 0, 1, 0, 0]"

text \<open>\<^verbatim>\<open>inet_ntoa\<close> and \<^verbatim>\<open>inet_ntop\<close>: dotted decimal, and hexadecimal groups with the longest run of zeros cut.\<close>

definition dotted :: "bytes \<Rightarrow> string" where
  "dotted bs = join_with ''.'' (map (\<lambda>b. show_nat (unat b)) bs)"

definition ipv4_text :: "bytes \<Rightarrow> string result" where
  "ipv4_text bs = (if length bs = 4 then Inr (dotted bs) else Inl OSError)"

definition hex_nibble :: "nat \<Rightarrow> char" where
  "hex_nibble n = ''0123456789abcdef'' ! n"

definition hex_group :: "nat \<Rightarrow> string" where
  "hex_group n =
     (if n < 16 then [hex_nibble n]
      else if n < 256 then [hex_nibble (n div 16), hex_nibble (n mod 16)]
      else if n < 4096 then [hex_nibble (n div 256), hex_nibble (n div 16 mod 16), hex_nibble (n mod 16)]
      else [hex_nibble (n div 4096), hex_nibble (n div 256 mod 16), hex_nibble (n div 16 mod 16), hex_nibble (n mod 16)])"

text \<open>Start and length of the first longest run of zeros.\<close>

fun longest_zeros :: "nat \<Rightarrow> nat list \<Rightarrow> nat \<times> nat" where
  "longest_zeros i [] = (0, 0)"
| "longest_zeros i (g # gs) =
     (let k = length (takeWhile (\<lambda>x. x = 0) (g # gs)); (j, l) = longest_zeros (i + 1) gs
      in if l \<le> k \<and> k \<noteq> 0 then (i, k) else (j, l))"

definition ipv6_text :: "bytes \<Rightarrow> string result" where
  "ipv6_text bs =
     (if length bs \<noteq> 16 then Inl ValueError
      else
        (let gs = map (\<lambda>i. unpack_be (take 2 (drop (2 * i) bs))) [0..<8];
             (j, l) = longest_zeros 0 gs;
             v4 = j = 0 \<and> (l = 6 \<or> l = 7 \<and> gs ! 7 \<noteq> 1 \<or> l = 5 \<and> gs ! 5 = 65535)
         in if l < 2 then Inr (join_with '':'' (map hex_group gs))
            else if v4 then
              Inr (''::'' @ (if l = 5 then ''ffff:'' else []) @ dotted (drop 12 bs))
            else Inr (join_with '':'' (map hex_group (take j gs)) @ ''::''
                      @ join_with '':'' (map hex_group (drop (j + l) gs)))))"

datatype socks_end = SocksClosed | SocksConnect string nat stream

text \<open>The address of a request: an exception, an unknown type, or a host.\<close>

definition socks_address :: "byte \<Rightarrow> stream \<Rightarrow> string option result \<times> stream" where
  "socks_address atyp s =
     (if atyp = 1 then (case sread 4 s of (a, s') \<Rightarrow> (map_sum id Some (ipv4_text a), s'))
      else if atyp = 3 then
        (case sread 1 s of
           ([], s') \<Rightarrow> (Inl IndexError, s')
         | (n # _, s') \<Rightarrow>
             (case sread (unat n) s' of
                (h, s'') \<Rightarrow> (case decode_utf8 h of None \<Rightarrow> Inl ValueError | Some host \<Rightarrow> Inr (Some host), s'')))
      else if atyp = 4 then (case sread 16 s of (a, s') \<Rightarrow> (map_sum id Some (ipv6_text a), s'))
      else (Inr None, s))"

text \<open>\<^verbatim>\<open>_handle_client\<close> up to the connection: the bytes written to the client, and how it goes on.\<close>

definition socks_request :: "stream \<Rightarrow> bytes \<times> socks_end result" where
  "socks_request s0 =
     (case sread 2 s0 of
        ([v, n], s1) \<Rightarrow>
          if v \<noteq> 5 then ([], Inr SocksClosed)
          else
            (case sread (unat n) s1 of
               (methods, s2) \<Rightarrow>
                 if 0 \<notin> set methods then ([5, 255], Inr SocksClosed)
                 else
                   (case sread 4 s2 of
                      ([_, cmd, _, atyp], s3) \<Rightarrow>
                        if cmd \<noteq> 1 then ([5, 0] @ socks_reply 7, Inr SocksClosed)
                        else
                          (case socks_address atyp s3 of
                             (Inl e, _) \<Rightarrow> ([5, 0], Inl e)
                           | (Inr None, _) \<Rightarrow> ([5, 0] @ socks_reply 8, Inr SocksClosed)
                           | (Inr (Some host), s4) \<Rightarrow>
                               (case sread 2 s4 of
                                  (p, s5) \<Rightarrow>
                                    if length p = 2 then ([5, 0], Inr (SocksConnect host (unpack_be p) s5))
                                    else ([5, 0], Inl StructError)))
                    | _ \<Rightarrow> ([5, 0], Inr SocksClosed)))
      | _ \<Rightarrow> ([], Inr SocksClosed))"

text \<open>The reply to the client once \<^verbatim>\<open>connect\<close> has returned.\<close>

definition socks_answer :: "nat option \<Rightarrow> bytes" where
  "socks_answer c = (if c = None then socks_reply 4 else socks_success)"

section \<open>The format\<close>

interpretation proxy_format: framed proxy_header proxy_frame proxy_message
proof unfold_locales
  fix m bs assume e: "proxy_frame m = Inr bs"
  then obtain front where f: "pack_fields [(1, pm_type m), (2, pm_channel m)] = Inr front"
      "bs = put_frame front (pm_data m)" "length (pm_data m) < 256 ^ 4"
    unfolding proxy_frame_def using fields_frame_put by blast
  then have "front = pack_be 1 (pm_type m) @ pack_be 2 (pm_channel m)" "pm_type m < 256 ^ 1" "pm_channel m < 256 ^ 2"
    by (auto simp: map_sum_eq_Inr split: if_splits)
  then show "\<exists>front payload. bs = put_frame front payload \<and> length front + 4 = proxy_header
      \<and> length payload < 256 ^ 4 \<and> proxy_message (front @ pack_be 4 (length payload), payload) = m"
    using f by (intro exI [of _ front] exI [of _ "pm_data m"]) (simp add: proxy_header_def proxy_message_def)
qed

section \<open>The handlers and the buffer\<close>

lemma mux_send_buffer:
  "mux_send t c d (m\<lparr>mx_buffer := b\<rparr>) = apsnd (\<lambda>m. m\<lparr>mx_buffer := b\<rparr>) (mux_send t c d m)"
  by (simp add: mux_send_def split: sum.split)

lemma mux_send_simps [simp]:
  "mx_buffer (snd (mux_send t c d m)) = mx_buffer m" "mx_channels (snd (mux_send t c d m)) = mx_channels m"
  "mx_written (snd (mux_send t c d m)) = mx_written m" "mx_futures (snd (mux_send t c d m)) = mx_futures m"
  "mx_next (snd (mux_send t c d m)) = mx_next m" "mx_linked (snd (mux_send t c d m)) = mx_linked m"
  by (simp_all add: mux_send_def split: sum.split)

lemma handler_buffer:
  "handle_connect c d (m\<lparr>mx_buffer := b\<rparr>) = (handle_connect c d m)\<lparr>mx_buffer := b\<rparr>"
  "resolve_pending ok c (m\<lparr>mx_buffer := b\<rparr>) = (resolve_pending ok c m)\<lparr>mx_buffer := b\<rparr>"
  "handle_channel_data c d (m\<lparr>mx_buffer := b\<rparr>) = (handle_channel_data c d m)\<lparr>mx_buffer := b\<rparr>"
  "handle_channel_close c (m\<lparr>mx_buffer := b\<rparr>) = (handle_channel_close c m)\<lparr>mx_buffer := b\<rparr>"
proof -
  show "handle_connect c d (m\<lparr>mx_buffer := b\<rparr>) = (handle_connect c d m)\<lparr>mx_buffer := b\<rparr>"
    by (simp add: handle_connect_def dial_def mux_send_buffer Let_def split: option.split)
  show "resolve_pending ok c (m\<lparr>mx_buffer := b\<rparr>) = (resolve_pending ok c m)\<lparr>mx_buffer := b\<rparr>"
    by (simp add: resolve_pending_def split: option.split)
  show "handle_channel_data c d (m\<lparr>mx_buffer := b\<rparr>) = (handle_channel_data c d m)\<lparr>mx_buffer := b\<rparr>"
    by (simp add: handle_channel_data_def split: option.split)
  show "handle_channel_close c (m\<lparr>mx_buffer := b\<rparr>) = (handle_channel_close c m)\<lparr>mx_buffer := b\<rparr>"
    by (simp add: handle_channel_close_def close_writer_def Let_def split: option.split)
qed

lemma handle_frame_buffer: "handle_frame p (m\<lparr>mx_buffer := b\<rparr>) = (handle_frame p m)\<lparr>mx_buffer := b\<rparr>"
  by (simp add: handle_frame_def handler_buffer)

lemma fold_frame_buffer: "fold handle_frame ms (m\<lparr>mx_buffer := b\<rparr>) = (fold handle_frame ms m)\<lparr>mx_buffer := b\<rparr>"
  by (induction ms arbitrary: m) (simp_all add: handle_frame_buffer)

lemma fold_map_frame:
  "fold (\<lambda>f. handle_frame (proxy_message f)) fs m = fold handle_frame (map proxy_message fs) m"
  by (induction fs arbitrary: m) simp_all

lemma mux_feed:
  "fold mux_on_data chunks m =
     (case feed_chunks proxy_header (mx_buffer m) chunks of
        (fs, rest) \<Rightarrow> (fold handle_frame (map proxy_message fs) m)\<lparr>mx_buffer := rest\<rparr>)"
proof (induction chunks arbitrary: m)
  case (Cons c cs)
  obtain fs rest where t: "take_frames proxy_header (mx_buffer m @ c) = (fs, rest)" by fastforce
  have m: "mux_on_data c m = (fold handle_frame (map proxy_message fs) m)\<lparr>mx_buffer := rest\<rparr>"
    by (simp add: mux_on_data_def t fold_map_frame fold_frame_buffer)
  obtain fs' rest' where f: "feed_chunks proxy_header rest cs = (fs', rest')" by fastforce
  show ?case
    using Cons.IH [of "mux_on_data c m"]
    by (simp add: m t f fold_frame_buffer)
qed simp

lemma handle_frame_keeps_buffer: "mx_buffer (handle_frame p m) = mx_buffer m"
proof -
  have "handle_frame p m = (handle_frame p m)\<lparr>mx_buffer := mx_buffer m\<rparr>"
    using handle_frame_buffer [where p = p and m = m and b = "mx_buffer m"] by simp
  from arg_cong [where f = mx_buffer, OF this] show ?thesis by simp
qed

lemma fold_keeps_buffer: "mx_buffer (fold handle_frame ms m) = mx_buffer m"
  by (induction ms arbitrary: m) (simp_all add: handle_frame_keeps_buffer)

lemma mux_receives:
  assumes "mx_buffer m = []" "list_all2 (\<lambda>p bs. proxy_frame p = Inr bs) ms bss" "concat chunks = concat bss"
  shows "fold mux_on_data chunks m = fold handle_frame ms m"
proof -
  obtain fs where f: "feed_chunks proxy_header [] chunks = (fs, [])" "map proxy_message fs = ms"
    using proxy_format.stream_received [OF assms(2,3)] by (metis prod.collapse)
  have "mx_buffer (fold handle_frame ms m) = []" using assms(1) by (simp add: fold_keeps_buffer)
  then show ?thesis by (simp add: mux_feed assms(1) f)
qed

section \<open>What reaches a local writer\<close>

definition attached :: "nat \<Rightarrow> mux \<Rightarrow> bool" where
  "attached c m \<longleftrightarrow> (case dget (mx_channels m) c of Some ch \<Rightarrow> ch_writer ch | None \<Rightarrow> False)"

definition written_to :: "nat \<Rightarrow> mux \<Rightarrow> bytes list" where
  "written_to c m = map snd (filter (\<lambda>w. fst w = c) (mx_written m))"

definition data_for :: "nat \<Rightarrow> pmsg list \<Rightarrow> bytes list" where
  "data_for c ms = map pm_data (filter (\<lambda>p. pm_type p = msg_data \<and> pm_channel p = c) ms)"

lemma handler_attached:
  "attached c (handle_connect c' d m) = attached c m" "mx_written (handle_connect c' d m) = mx_written m"
  "attached c (resolve_pending ok c' m) = attached c m" "mx_written (resolve_pending ok c' m) = mx_written m"
  "attached c (handle_channel_data c' d m) = attached c m" "mx_written (handle_channel_close c' m) = mx_written m"
  "c' \<noteq> c \<Longrightarrow> attached c (handle_channel_close c' m) = attached c m"
  "attached c m \<Longrightarrow> mx_written (handle_channel_data c d m) = mx_written m @ [(c, d)]"
  "c' \<noteq> c \<Longrightarrow> written_to c (handle_channel_data c' d m) = written_to c m"
  by (auto simp: handle_connect_def dial_def resolve_pending_def handle_channel_data_def handle_channel_close_def
      close_writer_def attached_def written_to_def Let_def split: option.splits)

lemma handle_frame_attached:
  assumes "attached c m" "\<not> (pm_type p = msg_close \<and> pm_channel p = c)"
  shows "attached c (handle_frame p m) \<and> written_to c (handle_frame p m) = written_to c m @ data_for c [p]"
proof (cases "pm_type p = msg_data \<and> pm_channel p = c")
  case True
  then show ?thesis
    using assms(1) by (simp add: handle_frame_def handler_attached written_to_def data_for_def msg_defs)
next
  case False
  then have "data_for c [p] = []" by (auto simp: data_for_def)
  moreover have "attached c (handle_frame p m)" "written_to c (handle_frame p m) = written_to c m"
    using False assms by (auto simp: handle_frame_def handler_attached)
      (auto simp: written_to_def handler_attached)
  ultimately show ?thesis by simp
qed

lemma fold_attached:
  assumes "attached c m" "\<And>p. p \<in> set ms \<Longrightarrow> \<not> (pm_type p = msg_close \<and> pm_channel p = c)"
  shows "attached c (fold handle_frame ms m) \<and> written_to c (fold handle_frame ms m) = written_to c m @ data_for c ms"
  using assms
proof (induction ms arbitrary: m)
  case (Cons p ms)
  have p: "attached c (handle_frame p m)" "written_to c (handle_frame p m) = written_to c m @ data_for c [p]"
    using handle_frame_attached [OF Cons.prems(1), of p] Cons.prems(2) by auto
  show ?case using Cons.IH [OF p(1)] Cons.prems(2) p(2) by (auto simp: data_for_def)
qed (simp add: data_for_def)

section \<open>Properties\<close>

text \<open>
  A stream cut at any byte: the messages complete in the first part are handled with it, and the
  beginning of the next one waits in the buffer.
\<close>

lemma partial_frame_waits:
  assumes "proxy_frame p = Inr bs" "part @ rest = bs" "rest \<noteq> []"
  shows "take_frames proxy_header part = ([], part)"
proof -
  obtain front payload where f: "bs = put_frame front payload" "length front + 4 = proxy_header"
    "length payload < 256 ^ 4" "proxy_message (front @ pack_be 4 (length payload), payload) = p"
    using proxy_format.frame [OF assms(1)] by blast
  have len: "length part < proxy_header + length payload"
  proof -
    have "length bs = proxy_header + length payload" using f(2) by (simp add: f(1) put_frame_def)
    moreover have "length bs = length part + length rest" by (simp flip: assms(2))
    moreover have "0 < length rest" using assms(3) by simp
    ultimately show ?thesis by linarith
  qed
  have "payload_length proxy_header part = length payload" if "proxy_header \<le> length part"
  proof -
    have "payload_length proxy_header part = payload_length proxy_header bs"
      using payload_length_append [OF that, of rest] by (simp add: assms(2))
    also have "take proxy_header bs = front @ pack_be 4 (length payload)"
      using f(2) by (simp add: f(1) put_frame_def)
    then have "payload_length proxy_header bs = length payload"
      using f(2,3) by (auto simp: payload_length_def)
    finally show ?thesis .
  qed
  then show ?thesis using len by (auto simp: take_frames.simps [of proxy_header part])
qed

lemma mux_receives_cut:
  assumes "list_all2 (\<lambda>p bs. proxy_frame p = Inr bs) early es" "list_all2 (\<lambda>p bs. proxy_frame p = Inr bs) late ls"
    and "concat before = concat es @ part" "part @ concat after = concat ls" "ls = [] \<or> length part < length (hd ls)"
  shows "mx_buffer m = [] \<Longrightarrow> fold mux_on_data before m = (fold handle_frame early m)\<lparr>mx_buffer := part\<rparr>"
    and "mx_buffer m = part \<Longrightarrow> fold mux_on_data after m = (fold handle_frame late m)\<lparr>mx_buffer := []\<rparr>"
proof -
  have waits: "take_frames proxy_header part = ([], part)"
  proof (cases ls)
    case Nil
    then show ?thesis using assms(4) by (simp add: take_frames_Nil)
  next
    case (Cons l ls')
    then obtain p where p: "proxy_frame p = Inr l" using assms(2) by (auto simp: list_all2_Cons2)
    have "length part < length l" using assms(5) Cons by simp
    moreover have "part @ concat after = l @ concat ls'" using assms(4) Cons by simp
    then have "part = take (length part) (l @ concat ls')" by (metis append_eq_conv_conj)
    ultimately have "part = take (length part) l" by simp
    then have "part @ drop (length part) l = l" by (metis append_take_drop_id)
    moreover have "drop (length part) l \<noteq> []" using \<open>length part < length l\<close> by simp
    ultimately show ?thesis using partial_frame_waits [OF p] by blast
  qed
  have "map proxy_message (fst (feed_chunks proxy_header [] before)) = early"
    "snd (feed_chunks proxy_header [] before) = part"
    using proxy_format.frames_of_messages [OF assms(1), of part] assms(3) waits
    by (simp_all add: feed_chunks_concat take_frames_Nil)
  then show "fold mux_on_data before m = (fold handle_frame early m)\<lparr>mx_buffer := part\<rparr>" if "mx_buffer m = []"
    using that by (auto simp: mux_feed split: prod.split)
  have "map proxy_message (fst (feed_chunks proxy_header part after)) = late"
    "snd (feed_chunks proxy_header part after) = []"
    using proxy_format.frames_of_messages [OF assms(2), of "[]"] assms(4) waits
    by (simp_all add: feed_chunks_concat take_frames_Nil)
  then show "fold mux_on_data after m = (fold handle_frame late m)\<lparr>mx_buffer := []\<rparr>" if "mx_buffer m = part"
    using that by (auto simp: mux_feed split: prod.split)
qed

text \<open>A channel without a writer gets nothing, and no message attaches one.\<close>

lemma fold_unattached:
  "\<not> attached c m \<Longrightarrow> \<not> attached c (fold handle_frame ms m) \<and> written_to c (fold handle_frame ms m) = written_to c m"
proof (induction ms arbitrary: m)
  case (Cons p ms)
  have "\<not> attached c (handle_frame p m) \<and> written_to c (handle_frame p m) = written_to c m"
  proof (cases "pm_channel p = c")
    case True
    have "\<not> attached c (handle_channel_close c m)"
      by (simp add: attached_def handle_channel_close_def Let_def)
    moreover have "mx_written (handle_channel_data c d m) = mx_written m" for d
      using Cons.prems by (auto simp: handle_channel_data_def attached_def split: option.splits)
    ultimately show ?thesis
      using Cons.prems True by (auto simp: handle_frame_def handler_attached written_to_def)
  next
    case False
    then show ?thesis
      using Cons.prems by (auto simp: handle_frame_def handler_attached) (auto simp: written_to_def handler_attached)
  qed
  then show ?case using Cons.IH [of "handle_frame p m"] by simp
qed simp

definition closes :: "nat \<Rightarrow> pmsg \<Rightarrow> bool" where
  "closes c p \<longleftrightarrow> pm_type p = msg_close \<and> pm_channel p = c"

lemma fold_until_closed:
  assumes "attached c m"
  shows "written_to c (fold handle_frame ms m) = written_to c m @ data_for c (takeWhile (\<lambda>p. \<not> closes c p) ms)
    \<and> (attached c (fold handle_frame ms m) \<longleftrightarrow> (\<forall>p \<in> set ms. \<not> closes c p))"
proof -
  let ?open = "takeWhile (\<lambda>p. \<not> closes c p) ms"
  have o: "attached c (fold handle_frame ?open m)" "written_to c (fold handle_frame ?open m) = written_to c m @ data_for c ?open"
    using fold_attached [OF assms, of ?open] by (auto simp: closes_def dest: set_takeWhileD)
  show ?thesis
  proof (cases "dropWhile (\<lambda>p. \<not> closes c p) ms")
    case Nil
    then show ?thesis using o by (simp add: dropWhile_eq_Nil_conv takeWhile_eq_all_conv [THEN iffD2])
  next
    case (Cons q rest)
    have q: "closes c q" using Cons hd_dropWhile [of "\<lambda>p. \<not> closes c p" ms] by simp
    have ms: "ms = ?open @ q # rest" by (metis Cons takeWhile_dropWhile_id)
    let ?m = "handle_frame q (fold handle_frame ?open m)"
    have "\<not> attached c ?m" "written_to c ?m = written_to c (fold handle_frame ?open m)"
      using q by (auto simp: closes_def handle_frame_def msg_defs attached_def handle_channel_close_def
          close_writer_def Let_def written_to_def split: option.split)
    then have "\<not> attached c (fold handle_frame rest ?m)" "written_to c (fold handle_frame rest ?m) = written_to c m @ data_for c ?open"
      using fold_unattached [of c ?m rest] o by simp_all
    moreover have "fold handle_frame ms m = fold handle_frame rest ?m" by (subst ms) simp
    moreover have "q \<in> set ms" by (subst ms) simp
    ultimately show ?thesis using q by auto
  qed
qed

lemma attached_buffer [simp]:
  "attached c (m\<lparr>mx_buffer := b\<rparr>) = attached c m" "written_to c (m\<lparr>mx_buffer := b\<rparr>) = written_to c m"
  by (simp_all add: attached_def written_to_def)

text \<open>The two ways to a local writer: the SOCKS5 server attaches its client, or a dialling succeeds.\<close>

lemma gets_writer:
  assumes "attach_writer c m = (Inr (), m') \<or> m' = dialed True (c, host, port) m"
  shows "attached c m' \<and> written_to c m' = written_to c m \<and> mx_buffer m' = mx_buffer m"
  using assms by (auto simp: attach_writer_def dialed_def attached_def written_to_def Let_def split: option.splits)

text \<open>
  C12. What a channel's local writer gets in the whole life of the channel, whatever chunks the messages
  arrive in, and wherever in the stream, also inside of a message, the writer is attached (by the SOCKS5
  server, or by a dialling that succeeds): nothing of the data that was handled before it was attached,
  and then exactly the data sent on the channel, in order, up to the first message that closes it, and
  nothing after that, whatever other channels send. The writer is still attached when no message closed it.
\<close>

theorem proxy_delivers:
  assumes "list_all2 (\<lambda>p bs. proxy_frame p = Inr bs) early es" "list_all2 (\<lambda>p bs. proxy_frame p = Inr bs) late ls"
    and "concat before = concat es @ part" "part @ concat after = concat ls" "ls = [] \<or> length part < length (hd ls)"
    and "mx_buffer m = []" "\<not> attached c m" "m1 = fold mux_on_data before m"
    and "attach_writer c m1 = (Inr (), m2) \<or> m2 = dialed True (c, host, port) m1"
    and "m3 = fold mux_on_data after m2"
  shows "written_to c m3 = written_to c m @ data_for c (takeWhile (\<lambda>p. \<not> closes c p) late)
    \<and> (attached c m3 \<longleftrightarrow> (\<forall>p \<in> set late. \<not> closes c p))"
proof -
  note cut = mux_receives_cut [OF assms(1-5)]
  have m1: "m1 = (fold handle_frame early m)\<lparr>mx_buffer := part\<rparr>" using cut(1) assms(6,8) by simp
  then have m2: "attached c m2" "written_to c m2 = written_to c m" "mx_buffer m2 = part"
    using gets_writer [OF assms(9)] fold_unattached [OF assms(7), of early] by simp_all
  then have "m3 = (fold handle_frame late m2)\<lparr>mx_buffer := []\<rparr>" using cut(2) assms(10) by simp
  then show ?thesis using fold_until_closed [OF m2(1), of late] m2(2) by simp
qed

definition toy_mux :: mux where
  "toy_mux = new_mux\<lparr>mx_linked := True, mx_channels := [(1, \<lparr>ch_future = True, ch_writer = False\<rparr>)]\<rparr>"

text \<open>A greeting before the writer, a message cut in two by its attachment, and data behind the close.\<close>

theorem proxy_delivers_witness:
  "written_to 1 (fold mux_on_data [ [0, 0, 0, 2, 9, 8, 4, 0, 2, 0, 0, 0], [1, 7, 5, 0, 1, 0, 0, 0, 0], [4, 0, 1, 0, 0, 0, 1, 3]]
     (snd (attach_writer 1 (fold mux_on_data [ [4, 0, 1, 0, 0], [0, 1, 5, 4, 0, 1]] toy_mux)))) = [ [9, 8]]"
proof -
  let ?e = "[\<lparr>pm_type = 4, pm_channel = 1, pm_data = [5]\<rparr>]" and ?es = "[ [4, 0, 1, 0, 0, 0, 1, 5]] :: bytes list"
  let ?l = "[\<lparr>pm_type = 4, pm_channel = 1, pm_data = [9, 8]\<rparr>, \<lparr>pm_type = 4, pm_channel = 2, pm_data = [7]\<rparr>,
             \<lparr>pm_type = 5, pm_channel = 1, pm_data = []\<rparr>, \<lparr>pm_type = 4, pm_channel = 1, pm_data = [3]\<rparr>]"
  let ?ls = "[ [4, 0, 1, 0, 0, 0, 2, 9, 8], [4, 0, 2, 0, 0, 0, 1, 7], [5, 0, 1, 0, 0, 0, 0], [4, 0, 1, 0, 0, 0, 1, 3]] :: bytes list"
  let ?before = "[ [4, 0, 1, 0, 0], [0, 1, 5, 4, 0, 1]] :: bytes list" and ?part = "[4, 0, 1] :: bytes"
  let ?after = "[ [0, 0, 0, 2, 9, 8, 4, 0, 2, 0, 0, 0], [1, 7, 5, 0, 1, 0, 0, 0, 0], [4, 0, 1, 0, 0, 0, 1, 3]] :: bytes list"
  have f: "list_all2 (\<lambda>p bs. proxy_frame p = Inr bs) ?e ?es" "list_all2 (\<lambda>p bs. proxy_frame p = Inr bs) ?l ?ls"
    by (simp_all add: proxy_frame_def fields_frame_def pack_be_def upt_rec)
  have b: "mx_buffer toy_mux = []" "\<not> attached 1 toy_mux" by (simp_all add: toy_mux_def new_mux_def attached_def)
  have c: "concat ?before = concat ?es @ ?part" "?part @ concat ?after = concat ?ls" "?ls = [] \<or> length ?part < length (hd ?ls)"
    by simp_all
  have "fold mux_on_data ?before toy_mux = (fold handle_frame ?e toy_mux)\<lparr>mx_buffer := ?part\<rparr>"
    by (rule mux_receives_cut(1) [OF f c b(1)])
  then have a: "attach_writer 1 (fold mux_on_data ?before toy_mux) = (Inr (), snd (attach_writer 1 (fold mux_on_data ?before toy_mux)))"
    by (simp add: attach_writer_def handle_frame_def msg_defs handle_channel_data_def toy_mux_def new_mux_def)
  have "written_to 1 (fold mux_on_data ?after (snd (attach_writer 1 (fold mux_on_data ?before toy_mux))))
      = written_to 1 toy_mux @ data_for 1 (takeWhile (\<lambda>p. \<not> closes 1 p) ?l)"
    by (rule conjunct1 [OF proxy_delivers [OF f c b refl disjI1 [OF a] refl]])
  also have "\<dots> = [ [9, 8]]"
    by (simp add: written_to_def data_for_def closes_def toy_mux_def new_mux_def msg_defs)
  finally show ?thesis .
qed

text \<open>
  A greeting is lost: when the peer's first data arrive with its connect reply, before the SOCKS5
  server has resumed and attached its client, the connection succeeds, the client is attached, and
  the data are dropped without trace, however the stream was cut.
\<close>

theorem early_data_lost:
  assumes "start_connect host port m = (Inr c, m1)" "mx_buffer m = []"
    and "proxy_frame \<lparr>pm_type = msg_connect_ok, pm_channel = c, pm_data = []\<rparr> = Inr b1"
    and "proxy_frame \<lparr>pm_type = msg_data, pm_channel = c, pm_data = d\<rparr> = Inr b2"
    and "concat chunks = b1 @ b2"
  shows "\<exists>m2 m3. fold mux_on_data chunks m1 = m2 \<and> finish_connect c m2 = (Inr (Some c), m2)
    \<and> attach_writer c m2 = (Inr (), m3) \<and> attached c m3 \<and> mx_written m3 = mx_written m"
proof -
  have m1: "dget (mx_channels m1) c = Some \<lparr>ch_future = True, ch_writer = False\<rparr>"
    "dget (mx_futures m1) c = Some None" "mx_written m1 = mx_written m" "mx_buffer m1 = []"
    using assms(1,2)
    by (auto simp: start_connect_def mux_send_def Let_def split: if_splits sum.splits prod.splits)
  let ?p = "\<lparr>pm_type = msg_connect_ok, pm_channel = c, pm_data = []\<rparr>"
  let ?q = "\<lparr>pm_type = msg_data, pm_channel = c, pm_data = d\<rparr>"
  have "fold mux_on_data chunks m1 = fold handle_frame [?p, ?q] m1"
    by (rule mux_receives [OF m1(4), where bss = "[b1, b2]"]) (use assms(3-5) in simp_all)
  moreover have "fold handle_frame [?p, ?q] m1 = m1\<lparr>mx_futures := dset c (Some True) (mx_futures m1)\<rparr>"
    using m1 by (simp add: handle_frame_def msg_defs resolve_pending_def handle_channel_data_def)
  ultimately show ?thesis
    using m1 by (simp add: finish_connect_def attach_writer_def attached_def)
qed

theorem early_data_lost_witness:
  "\<exists>m3. attach_writer 1 (fold mux_on_data [ [2, 0, 1, 0, 0, 0, 0, 4, 0, 1, 0, 0, 0, 2, 72, 105]]
      (snd (start_connect ''h'' 22 (new_mux\<lparr>mx_linked := True\<rparr>)))) = (Inr (), m3) \<and> mx_written m3 = []"
proof -
  let ?m = "new_mux\<lparr>mx_linked := True\<rparr>"
  have l: "length (encode_utf8 ''h'') = 1" by code_simp
  have "start_connect ''h'' 22 ?m = (Inr 1, snd (start_connect ''h'' 22 ?m))"
    using l by (simp add: start_connect_def mux_send_def proxy_frame_def fields_frame_def new_mux_def msg_connect_def)
  note e = early_data_lost [OF this, where ?b1.0 = "[2, 0, 1, 0, 0, 0, 0]"
      and ?b2.0 = "[4, 0, 1, 0, 0, 0, 2, 72, 105]" and d = "[72, 105]"
      and chunks = "[ [2, 0, 1, 0, 0, 0, 0, 4, 0, 1, 0, 0, 0, 2, 72, 105]]"]
  show ?thesis
    using e by (auto simp: new_mux_def proxy_frame_def fields_frame_def msg_defs pack_be_def upt_rec)
qed

text \<open>
  Channel identifiers run out: every request, also a refused one, uses one up, the identifiers up
  to 65535 are granted to hosts of at most 255 bytes, and from the next on every request of the
  session raises, and leaves its channel behind.
\<close>

theorem channel_ids_run_out:
  assumes "mx_linked m" "length (encode_utf8 host) < 256" "port < 65536"
  shows "fst (start_connect host port m) = (if mx_next m < 65536 then Inr (mx_next m) else Inl StructError)
    \<and> mx_next (snd (start_connect host port m)) = mx_next m + 1
    \<and> mx_linked (snd (start_connect host port m))
    \<and> has_key (mx_channels (snd (start_connect host port m))) (mx_next m)"
proof -
  have "length (word_of_nat (length (encode_utf8 host)) # encode_utf8 host @ pack_be 2 port) < 256 ^ 4"
    using assms(2) by simp
  then show ?thesis
    using assms
    by (simp add: start_connect_def Let_def mux_send_def proxy_frame_def fields_frame_def msg_connect_def
        has_key_iff)
qed

theorem channel_ids_run_out_witness:
  "fst (start_connect ''h'' 22 (new_mux\<lparr>mx_linked := True, mx_next := 65536\<rparr>)) = Inl StructError"
proof -
  have l: "length (encode_utf8 ''h'') < 256" by code_simp
  show ?thesis
    using channel_ids_run_out [OF _ l, of "new_mux\<lparr>mx_linked := True, mx_next := 65536\<rparr>" 22]
    by (simp add: new_mux_def)
qed

text \<open>
  What the SOCKS5 server makes of a request for a domain name that arrives in two pieces: when the
  cut is behind the name, it connects to the host and port that were asked for; when the cut is
  inside the name, it connects to the first part of the name, at the port that the next two bytes of
  the name spell.
\<close>

theorem socks_domain_request:
  assumes "host = h1 @ h2" "h1 \<noteq> []" "\<forall>c \<in> set host. cp c < 128" "length host < 256" "port < 65536"
  shows "socks_request ([], [ [5, 1, 0], [5, 1, 0, 3, word_of_nat (length host)] @ lit h1, lit h2 @ pack_be 2 port])
    = ([5, 0], Inr (SocksConnect h1
        (if h2 = [] then port else unpack_be (take 2 (lit h2 @ pack_be 2 port)))
        (if h2 = [] then ([], []) else (drop 2 (lit h2 @ pack_be 2 port), []))))"
proof -
  let ?n = "word_of_nat (length host) :: byte"
  have n: "unat ?n = length host" using assms(4) by (simp add: unat_of_nat)
  have h1: "lit h1 \<noteq> []" "length (lit h1) \<le> length host" using assms(1,2) by (auto simp: lit_def)
  have d: "decode_utf8 (lit h1) = Some h1"
    using assms(1,3) encode_utf8_ascii [of h1] decode_encode_utf8 [of h1] by auto
  have r: "sread (length host) (lit h1, [lit h2 @ pack_be 2 port]) = (lit h1, ([], [lit h2 @ pack_be 2 port]))"
    using h1 assms(4) by (cases "lit h1") (auto simp: sread_def)
  have p: "pack_be 2 port = [word_of_nat (port div 256 mod 256), word_of_nat (port mod 256)]"
    by (simp add: pack_be_def upt_rec)
  have q: "sread 2 ([], [lit h2 @ pack_be 2 port])
      = (take 2 (lit h2 @ pack_be 2 port), (drop 2 (lit h2 @ pack_be 2 port), []))"
    by (simp add: sread_def)
  have u: "unpack_be (pack_be 2 port) = port" using assms(5) by simp
  have "socks_request ([], [ [5, 1, 0], [5, 1, 0, 3, ?n] @ lit h1, lit h2 @ pack_be 2 port])
      = ([5, 0], Inr (SocksConnect h1 (unpack_be (take 2 (lit h2 @ pack_be 2 port)))
          (drop 2 (lit h2 @ pack_be 2 port), [])))"
    using r q d by (simp add: socks_request_def socks_address_def sread_def n)
  then show ?thesis using u by simp
qed

theorem socks_domain_request_witness:
  "socks_request ([], [ [5, 1, 0], [5, 1, 0, 3, 7] @ lit ''exam'', lit ''ple'' @ pack_be 2 80])
    = ([5, 0], Inr (SocksConnect ''exam'' 28780 ([101, 0, 80], [])))"
proof -
  have "\<forall>c \<in> set ''example''. cp c < 128" by code_simp
  moreover have "lit ''ple'' @ pack_be 2 80 = [112, 108, 101, 0, 80]" by code_simp
  moreover have "unpack_be [112, 108] = 28780" by (simp add: unpack_be_def)
  ultimately show ?thesis
    using socks_domain_request [of "''example''" "''exam''" "''ple''" 80] by simp
qed

end
