(* ===== verification/Posix_Path.thy ===== *)
theory Posix_Path
  imports Py_Text
begin

text \<open>
  The functions of Python's \<^verbatim>\<open>os.path\<close> on POSIX that the file servers of the program use
  (\<^verbatim>\<open>src/wh/cli/ftp.py\<close>, \<^verbatim>\<open>mount.py\<close>): all of them work on the text of a path.
\<close>

section \<open>Functions of \<^verbatim>\<open>os.path\<close>\<close>

definition isabs :: "string \<Rightarrow> bool" where
  "isabs p = startswith p ''/''"

definition path_join :: "string \<Rightarrow> string \<Rightarrow> string" where
  "path_join a b =
     (if startswith b ''/'' then b
      else if a = [] \<or> endswith a ''/'' then a @ b
      else a @ ''/'' @ b)"

text \<open>One component in the loop of \<^verbatim>\<open>normpath\<close>; the components kept so far are in reverse order.\<close>

definition norm_step :: "bool \<Rightarrow> string \<Rightarrow> string list \<Rightarrow> string list" where
  "norm_step ab c acc =
     (if c = [] \<or> c = ''.'' then acc
      else if c \<noteq> ''..'' \<or> (\<not> ab \<and> acc = []) \<or> (acc \<noteq> [] \<and> hd acc = ''..'') then c # acc
      else tl acc)"

definition norm_comps :: "bool \<Rightarrow> string list \<Rightarrow> string list" where
  "norm_comps ab cs = rev (fold (norm_step ab) cs [])"

definition initial_slashes :: "string \<Rightarrow> nat" where
  "initial_slashes p =
     (if startswith p ''//'' \<and> \<not> startswith p ''///'' then 2 else if startswith p ''/'' then 1 else 0)"

definition normpath :: "string \<Rightarrow> string" where
  "normpath p =
     (let k = initial_slashes p;
          q = replicate k (CHR ''/'') @ join_with ''/'' (norm_comps (k \<noteq> 0) (split_on (CHR ''/'') p))
      in if q = [] then ''.'' else q)"

text \<open>\<^verbatim>\<open>relpath(path, start)\<close> for absolute paths.\<close>

fun strip_common :: "'a list \<Rightarrow> 'a list \<Rightarrow> 'a list \<times> 'a list" where
  "strip_common (x # xs) (y # ys) = (if x = y then strip_common xs ys else (x # xs, y # ys))"
| "strip_common xs ys = (xs, ys)"

definition path_list :: "string \<Rightarrow> string list" where
  "path_list p = filter (\<lambda>c. c \<noteq> []) (split_on (CHR ''/'') (normpath p))"

definition relpath :: "string \<Rightarrow> string \<Rightarrow> string" where
  "relpath path start =
     (case strip_common (path_list start) (path_list path) of
        (ups, downs) \<Rightarrow>
          let parts = map (\<lambda>_. ''..'') ups @ downs
          in if parts = [] then ''.'' else join_with ''/'' parts)"

definition path_basename :: "string \<Rightarrow> string" where
  "path_basename p = last (split_on (CHR ''/'') p)"

section \<open>Components of a path\<close>

lemma split_on_append_full: "split_on c (s @ c # t) = split_on c s @ split_on c t"
proof (induction s)
  case (Cons x s)
  show ?case
  proof (cases "x = c")
    case False
    obtain p ps where "split_on c s = p # ps" by (cases "split_on c s") auto
    then show ?thesis using Cons False by simp
  qed (use Cons in simp)
qed simp

lemma split_join_with:
  "cs \<noteq> [] \<Longrightarrow> (\<And>c. c \<in> set cs \<Longrightarrow> x \<notin> set c) \<Longrightarrow> split_on x (join_with [x] cs) = cs"
proof (induction "[x]" cs rule: join_with.induct)
  case (3 s t ss)
  then show ?case by (simp add: split_on_append)
qed (simp_all add: split_on_notin)

lemma join_with_snoc: "cs \<noteq> [] \<Longrightarrow> join_with sep (cs @ [c]) = join_with sep cs @ sep @ c"
  by (induction sep cs rule: join_with.induct) simp_all

lemma join_with_append:
  "cs \<noteq> [] \<Longrightarrow> ds \<noteq> [] \<Longrightarrow> join_with sep (cs @ ds) = join_with sep cs @ sep @ join_with sep ds"
  by (induction sep cs rule: join_with.induct) (auto simp: neq_Nil_conv)

text \<open>A component that names something in a directory.\<close>

definition comp_ok :: "string \<Rightarrow> bool" where
  "comp_ok c \<longleftrightarrow> c \<noteq> [] \<and> c \<noteq> ''.'' \<and> c \<noteq> ''..'' \<and> CHR ''/'' \<notin> set c"

definition abs_path :: "string list \<Rightarrow> string" where
  "abs_path cs = CHR ''/'' # join_with ''/'' cs"

lemma norm_step_ok: "comp_ok c \<Longrightarrow> norm_step ab c acc = c # acc"
  by (simp add: norm_step_def comp_ok_def)

lemma norm_comps_ok: "list_all comp_ok cs \<Longrightarrow> norm_comps ab cs = cs"
proof -
  have "list_all comp_ok cs \<Longrightarrow> fold (norm_step ab) cs acc = rev cs @ acc" for acc
    by (induction cs arbitrary: acc) (simp_all add: norm_step_ok)
  then show "list_all comp_ok cs \<Longrightarrow> norm_comps ab cs = cs" by (simp add: norm_comps_def)
qed

lemma norm_comps_abs: "(\<And>c. c \<in> set cs \<Longrightarrow> CHR ''/'' \<notin> set c) \<Longrightarrow> list_all comp_ok (norm_comps True cs)"
proof -
  have "list_all comp_ok acc \<Longrightarrow> (\<forall>c \<in> set cs. CHR ''/'' \<notin> set c) \<Longrightarrow>
      list_all comp_ok (fold (norm_step True) cs acc)" for acc
  proof (induction cs arbitrary: acc)
    case (Cons c cs)
    have "list_all comp_ok (norm_step True c acc)"
      using Cons.prems by (cases acc) (auto simp: norm_step_def comp_ok_def list_all_iff)
    then show ?case using Cons by simp
  qed simp
  then show "(\<And>c. c \<in> set cs \<Longrightarrow> CHR ''/'' \<notin> set c) \<Longrightarrow> list_all comp_ok (norm_comps True cs)"
    by (simp add: norm_comps_def)
qed

lemma norm_comps_append: "norm_comps ab (xs @ ys) = rev (fold (norm_step ab) ys (rev (norm_comps ab xs)))"
  by (simp add: norm_comps_def)

text \<open>A normalised absolute path has one or two slashes in front and no component that leads up.\<close>

lemma normpath_abs:
  assumes "isabs p"
  shows "\<exists>cs. list_all comp_ok cs \<and> normpath p = replicate (initial_slashes p) (CHR ''/'') @ join_with ''/'' cs"
proof -
  have "list_all comp_ok (norm_comps True (split_on (CHR ''/'') p))"
    by (rule norm_comps_abs) (rule split_on_pieces)
  moreover have "initial_slashes p \<noteq> 0" using assms by (simp add: isabs_def initial_slashes_def)
  ultimately show ?thesis by (auto simp: normpath_def Let_def)
qed

lemma ok_comps_split:
  "list_all comp_ok cs \<Longrightarrow> split_on (CHR ''/'') (join_with ''/'' cs) = (if cs = [] then [ [] ] else cs)"
  by (auto simp: list_all_iff comp_ok_def intro!: split_join_with)

lemma ok_join_hd:
  "list_all comp_ok cs \<Longrightarrow> \<not> startswith (join_with ''/'' cs) ''/''"
  by (cases cs rule: list.exhaust) (auto simp: comp_ok_def startswith_iff Cons_eq_append_conv neq_Nil_conv
      elim!: join_with.elims)

lemma startswith_one: "startswith s [c] \<longleftrightarrow> (\<exists>t. s = c # t)"
  by (simp add: startswith_iff)

lemma initial_slashes_one: "\<not> startswith x ''/'' \<Longrightarrow> initial_slashes (CHR ''/'' # x) = 1"
  by (auto simp: initial_slashes_def startswith_iff)

lemma initial_slashes_abs: "list_all comp_ok cs \<Longrightarrow> initial_slashes (abs_path cs) = 1"
  unfolding abs_path_def by (rule initial_slashes_one) (rule ok_join_hd)

lemma join_with_nonempty: "list_all comp_ok cs \<Longrightarrow> cs \<noteq> [] \<Longrightarrow> join_with sep cs \<noteq> []"
  by (induction sep cs rule: join_with.induct) (auto simp: comp_ok_def)

lemma norm_comps_Nil [simp]: "norm_comps ab ([] # cs) = norm_comps ab cs"
  by (simp add: norm_comps_def norm_step_def)

lemma normpath_abs_path: "list_all comp_ok cs \<Longrightarrow> normpath (abs_path cs) = abs_path cs"
  using ok_comps_split [of cs] norm_comps_ok [of cs True]
  by (simp add: normpath_def Let_def initial_slashes_abs) (auto simp: abs_path_def norm_comps_def norm_step_def)

lemma normpath_dotdot:
  assumes "list_all comp_ok cs" "comp_ok b" "comp_ok c"
  shows "normpath (abs_path (cs @ [b]) @ ''/../'' @ c) = abs_path (cs @ [c])"
proof -
  let ?p = "abs_path (cs @ [b]) @ ''/../'' @ c"
  have j: "join_with ''/'' (cs @ [b]) @ ''/../'' @ c = join_with ''/'' (cs @ [b, ''..'', c])"
    using join_with_append [of "cs @ [b]" "[''..'', c]" "''/''"] by simp
  have "split_on (CHR ''/'') ?p = [] # cs @ [b, ''..'', c]"
  proof -
    have "split_on (CHR ''/'') (join_with ''/'' (cs @ [b, ''..'', c])) = cs @ [b, ''..'', c]"
    proof (rule split_join_with)
      fix x assume "x \<in> set (cs @ [b, ''..'', c])"
      then have "x = ''..'' \<or> comp_ok x" using assms by (auto simp: list_all_iff)
      then show "CHR ''/'' \<notin> set x" by (auto simp: comp_ok_def)
    qed simp
    moreover have "?p = CHR ''/'' # join_with ''/'' (cs @ [b, ''..'', c])"
      using j by (simp add: abs_path_def)
    ultimately show ?thesis by simp
  qed
  moreover have "norm_comps True (cs @ [b, ''..'', c]) = cs @ [c]"
    using assms norm_step_ok [OF assms(2)] norm_step_ok [OF assms(3)]
    by (simp add: norm_comps_append norm_comps_ok) (simp add: norm_step_def comp_ok_def)
  moreover have "initial_slashes ?p = 1"
  proof -
    have ok: "list_all comp_ok (cs @ [b])" using assms by simp
    have "\<not> startswith (join_with ''/'' (cs @ [b]) @ ''/../'' @ c) ''/''"
      using ok_join_hd [OF ok] join_with_nonempty [OF ok, of "''/''"]
      by (cases "join_with ''/'' (cs @ [b])") (simp_all add: startswith_one)
    then show ?thesis unfolding abs_path_def append_Cons by (rule initial_slashes_one)
  qed
  ultimately show ?thesis by (simp add: normpath_def Let_def) (simp add: abs_path_def)
qed

end
