(* ===== verification/Os_Files.thy ===== *)
theory Os_Files
  imports Posix_Path Py_Bytes
begin

text \<open>
  The operating system as the file servers see it (\<^verbatim>\<open>src/wh/cli/ftp.py\<close>, \<^verbatim>\<open>mount.py\<close>): the calls of
  \<^verbatim>\<open>os\<close>, \<^verbatim>\<open>os.path\<close> and of file objects are functions of the state of the disk. A call that fails
  raises an \<^verbatim>\<open>OSError\<close>, whose kind and text are given.
\<close>

datatype os_kind = FileNotFound | FileExists | AccessDenied | OtherOs

type_synonym os_error = "os_kind \<times> string"

type_synonym 'a os_result = "os_error + 'a"

text \<open>
  \<^verbatim>\<open>os.stat\<close>; the times are the literals that JSON prints for them, and the local time of the
  modification in ISO format.
\<close>

record file_stat =
  st_mode :: nat
  st_size :: int
  st_atime :: string
  st_mtime :: string
  st_ctime :: string
  st_uid :: int
  st_gid :: int
  st_nlink :: int
  st_modified :: string

text \<open>
  \<^verbatim>\<open>os_read\<close> is what can be read of a file and the text of the error that ended the reading;
  \<^verbatim>\<open>os_pread\<close> and \<^verbatim>\<open>os_pwrite\<close> open the file, seek and then read or write.
\<close>

record 'w os =
  os_isdir :: "'w \<Rightarrow> string \<Rightarrow> bool"
  os_isfile :: "'w \<Rightarrow> string \<Rightarrow> bool"
  os_listdir :: "'w \<Rightarrow> string \<Rightarrow> string list os_result"
  os_stat :: "'w \<Rightarrow> string \<Rightarrow> file_stat os_result"
  os_read :: "'w \<Rightarrow> string \<Rightarrow> bytes \<times> string option"
  os_write :: "string \<Rightarrow> bytes \<Rightarrow> 'w \<Rightarrow> unit os_result \<times> 'w"
  os_makedirs :: "string \<Rightarrow> 'w \<Rightarrow> unit os_result \<times> 'w"
  os_rmdir :: "string \<Rightarrow> 'w \<Rightarrow> unit os_result \<times> 'w"
  os_remove :: "string \<Rightarrow> 'w \<Rightarrow> unit os_result \<times> 'w"
  os_pread :: "'w \<Rightarrow> string \<Rightarrow> int \<Rightarrow> int \<Rightarrow> bytes os_result"
  os_pwrite :: "string \<Rightarrow> int \<Rightarrow> bytes \<Rightarrow> 'w \<Rightarrow> int os_result \<times> 'w"
  os_create :: "string \<Rightarrow> int \<Rightarrow> 'w \<Rightarrow> unit os_result \<times> 'w"
  os_mkdir :: "string \<Rightarrow> int \<Rightarrow> 'w \<Rightarrow> unit os_result \<times> 'w"
  os_rename :: "string \<Rightarrow> string \<Rightarrow> 'w \<Rightarrow> unit os_result \<times> 'w"
  os_truncate :: "string \<Rightarrow> int \<Rightarrow> 'w \<Rightarrow> unit os_result \<times> 'w"
  os_chmod :: "string \<Rightarrow> int \<Rightarrow> 'w \<Rightarrow> unit os_result \<times> 'w"

text \<open>Two operating systems that cannot be told apart through paths that begin with \<^verbatim>\<open>root\<close>.\<close>

definition same_below :: "string \<Rightarrow> 'w os \<Rightarrow> 'w os \<Rightarrow> bool" where
  "same_below root o1 o2 \<longleftrightarrow>
     (\<forall>p. startswith p root \<longrightarrow>
        (\<forall>w. os_isdir o1 w p = os_isdir o2 w p \<and> os_isfile o1 w p = os_isfile o2 w p
           \<and> os_listdir o1 w p = os_listdir o2 w p \<and> os_stat o1 w p = os_stat o2 w p
           \<and> os_read o1 w p = os_read o2 w p \<and> os_pread o1 w p = os_pread o2 w p)
        \<and> os_write o1 p = os_write o2 p \<and> os_makedirs o1 p = os_makedirs o2 p
        \<and> os_rmdir o1 p = os_rmdir o2 p \<and> os_remove o1 p = os_remove o2 p
        \<and> os_pwrite o1 p = os_pwrite o2 p \<and> os_create o1 p = os_create o2 p
        \<and> os_mkdir o1 p = os_mkdir o2 p \<and> os_truncate o1 p = os_truncate o2 p
        \<and> os_chmod o1 p = os_chmod o2 p
        \<and> (\<forall>q. startswith q root \<longrightarrow> os_rename o1 p q = os_rename o2 p q))"

lemma same_belowD:
  assumes "same_below root o1 o2" "startswith p root"
  shows "os_isdir o1 w p = os_isdir o2 w p" "os_isfile o1 w p = os_isfile o2 w p"
    "os_listdir o1 w p = os_listdir o2 w p" "os_stat o1 w p = os_stat o2 w p"
    "os_read o1 w p = os_read o2 w p" "os_pread o1 w p = os_pread o2 w p"
    "os_write o1 p = os_write o2 p" "os_makedirs o1 p = os_makedirs o2 p"
    "os_rmdir o1 p = os_rmdir o2 p" "os_remove o1 p = os_remove o2 p"
    "os_pwrite o1 p = os_pwrite o2 p" "os_create o1 p = os_create o2 p"
    "os_mkdir o1 p = os_mkdir o2 p" "os_truncate o1 p = os_truncate o2 p" "os_chmod o1 p = os_chmod o2 p"
    "startswith q root \<Longrightarrow> os_rename o1 p q = os_rename o2 p q"
  using assms by (simp_all add: same_below_def)

lemma same_below_refl: "same_below root sys sys"
  by (simp add: same_below_def)

section \<open>The common check of paths\<close>

text \<open>The check at the end of both \<^verbatim>\<open>_resolve_path\<close>: \<^const>\<open>None\<close> is the \<^verbatim>\<open>PermissionError\<close>.\<close>

definition within_root :: "string \<Rightarrow> string \<Rightarrow> string option" where
  "within_root root p = (if startswith p root then Some p else None)"

definition denied_text :: string where
  "denied_text = ''Access denied: path outside root directory''"

lemma startswith_self [simp]: "startswith s s"
  by (simp add: startswith_iff)

lemma within_root_starts: "within_root root p = Some q \<Longrightarrow> startswith q root"
  by (simp add: within_root_def split: if_splits)

lemma startswith_join: "startswith p root \<Longrightarrow> \<not> startswith x ''/'' \<Longrightarrow> startswith (path_join p x) root"
  by (auto simp: path_join_def startswith_iff)

section \<open>A disk in memory\<close>

text \<open>Files and directories by path; what it cannot do it refuses.\<close>

datatype node = Folder | Plain bytes

type_synonym disk = "(string, node) dict"

definition disk_read :: "disk \<Rightarrow> string \<Rightarrow> bytes \<times> string option" where
  "disk_read w p = (case dget w p of Some (Plain d) \<Rightarrow> (d, None) | _ \<Rightarrow> ([], Some ''No such file''))"

definition disk_write :: "string \<Rightarrow> bytes \<Rightarrow> disk \<Rightarrow> unit os_result \<times> disk" where
  "disk_write p d w =
     (case dget w p of Some Folder \<Rightarrow> (Inl (OtherOs, ''Is a directory''), w) | _ \<Rightarrow> (Inr (), dset p (Plain d) w))"

definition disk_pwrite :: "string \<Rightarrow> int \<Rightarrow> bytes \<Rightarrow> disk \<Rightarrow> int os_result \<times> disk" where
  "disk_pwrite p off d w =
     (case dget w p of
        Some (Plain old) \<Rightarrow>
          if off < 0 then (Inl (OtherOs, ''Invalid argument''), w)
          else
            (let n = nat off
             in (Inr (int (length d)),
                 dset p (Plain (take n old @ replicate (n - length old) 0 @ d @ drop (n + length d) old)) w))
      | _ \<Rightarrow> (Inl (FileNotFound, ''No such file''), w))"

definition disk_pread :: "disk \<Rightarrow> string \<Rightarrow> int \<Rightarrow> int \<Rightarrow> bytes os_result" where
  "disk_pread w p off n =
     (case dget w p of
        Some (Plain d) \<Rightarrow>
          if off < 0 then Inl (OtherOs, ''Invalid argument'')
          else Inr (if n < 0 then drop (nat off) d else take (nat n) (drop (nat off) d))
      | _ \<Rightarrow> Inl (FileNotFound, ''No such file''))"

definition disk_os :: "disk os" where
  "disk_os =
     \<lparr>os_isdir = (\<lambda>w p. dget w p = Some Folder), os_isfile = (\<lambda>w p. case dget w p of Some (Plain _) \<Rightarrow> True | _ \<Rightarrow> False),
      os_listdir = (\<lambda>w p. Inl (OtherOs, ''refused'')), os_stat = (\<lambda>w p. Inl (OtherOs, ''refused'')),
      os_read = disk_read, os_write = disk_write,
      os_makedirs = (\<lambda>p w. if has_key w p then (Inl (FileExists, ''File exists''), w) else (Inr (), dset p Folder w)),
      os_rmdir = (\<lambda>p w. (Inr (), ddel p w)), os_remove = (\<lambda>p w. (Inr (), ddel p w)),
      os_pread = disk_pread, os_pwrite = disk_pwrite,
      os_create = (\<lambda>p m w. (Inr (), if has_key w p then w else dset p (Plain []) w)),
      os_mkdir = (\<lambda>p m w. if has_key w p then (Inl (FileExists, ''File exists''), w) else (Inr (), dset p Folder w)),
      os_rename = (\<lambda>p q w. (Inl (OtherOs, ''refused''), w)),
      os_truncate = (\<lambda>p n w. (Inl (OtherOs, ''refused''), w)),
      os_chmod = (\<lambda>p m w. (Inl (OtherOs, ''refused''), w))\<rparr>"

text \<open>What a system promises of whole files, and of parts of them.\<close>

definition keeps_files :: "'w os \<Rightarrow> bool" where
  "keeps_files sys \<longleftrightarrow>
     (\<forall>p d w w'. os_write sys p d w = (Inr (), w') \<longrightarrow> os_isfile sys w' p \<and> os_read sys w' p = (d, None))"

definition keeps_parts :: "'w os \<Rightarrow> bool" where
  "keeps_parts sys \<longleftrightarrow>
     (\<forall>p off d n w w'. os_pwrite sys p off d w = (Inr n, w') \<longrightarrow>
        n = int (length d) \<and> os_pread sys w' p off n = Inr d)"

lemma disk_keeps_files: "keeps_files disk_os"
  by (auto simp: keeps_files_def disk_os_def disk_write_def disk_read_def split: option.splits node.splits)

lemma disk_keeps_parts: "keeps_parts disk_os"
  by (auto simp: keeps_parts_def disk_os_def disk_pwrite_def disk_pread_def Let_def
      split: option.splits node.splits if_splits)

end
