(* ===== verification/Ftp.thy ===== *)
theory Ftp
  imports Framing Os_Files Json_Text Py_Base
begin

text \<open>
  \<^verbatim>\<open>src/wh/cli/ftp.py\<close>: file transfer over a wormhole channel. A side is a record; what arrives, the
  commands that wait as tasks, and the timers are operations of their own. The operating system is
  an argument, and so are the texts of the exceptions of the interpreter.
\<close>

section \<open>Messages\<close>

record fmsg =
  fm_type :: nat
  fm_data :: bytes

definition ftp_command :: nat where "ftp_command = 1"
definition ftp_response :: nat where "ftp_response = 2"
definition ftp_data_start :: nat where "ftp_data_start = 3"
definition ftp_data :: nat where "ftp_data = 4"
definition ftp_data_end :: nat where "ftp_data_end = 5"
definition ftp_error :: nat where "ftp_error = 6"

lemmas ftp_types = ftp_command_def ftp_response_def ftp_data_start_def ftp_data_def ftp_data_end_def ftp_error_def

definition ftp_frame :: "fmsg \<Rightarrow> bytes result" where
  "ftp_frame m = fields_frame [(1, fm_type m)] (fm_data m)"

definition ftp_bytes :: "nat \<Rightarrow> bytes \<Rightarrow> bytes" where
  "ftp_bytes t d = put_frame (pack_be 1 t) d"

definition ftp_message :: "bytes \<times> bytes \<Rightarrow> fmsg" where
  "ftp_message f = \<lparr>fm_type = unpack_be (take 1 (fst f)), fm_data = snd f\<rparr>"

definition ftp_header :: nat where
  "ftp_header = 5"

section \<open>One side\<close>

text \<open>The future of a reply: awaited, set to a reply, or set to an exception.\<close>

datatype ftp_reply = Awaited | Reply nat string | Failed string

record ftp =
  ft_linked :: bool
  ft_server :: bool
  ft_root :: string
  ft_cwd :: string
  ft_tasks :: "bytes list"
  ft_future :: "ftp_reply option"
  ft_data :: bytes
  ft_receiving :: bool
  ft_target :: "string option"
  ft_sent :: bytes
  ft_done :: bool

definition new_ftp :: "bool \<Rightarrow> string \<Rightarrow> ftp" where
  "new_ftp server root =
     \<lparr>ft_linked = False, ft_server = server, ft_root = root, ft_cwd = root, ft_tasks = [],
      ft_future = None, ft_data = [], ft_receiving = False, ft_target = None, ft_sent = [], ft_done = False\<rparr>"

definition ftp_send :: "nat \<Rightarrow> bytes \<Rightarrow> ftp \<Rightarrow> unit result \<times> ftp" where
  "ftp_send t d m =
     (if \<not> ft_linked m then (Inr (), m)
      else
        (case ftp_frame \<lparr>fm_type = t, fm_data = d\<rparr> of
           Inl e \<Rightarrow> (Inl e, m)
         | Inr bs \<Rightarrow> (Inr (), m\<lparr>ft_sent := ft_sent m @ bs\<rparr>)))"

text \<open>A sequence of messages: the first that cannot be packed raises.\<close>

fun ftp_send_all :: "(nat \<times> bytes) list \<Rightarrow> ftp \<Rightarrow> unit result \<times> ftp" where
  "ftp_send_all [] m = (Inr (), m)"
| "ftp_send_all ((t, d) # ms) m =
     (case ftp_send t d m of (Inl e, m') \<Rightarrow> (Inl e, m') | (Inr _, m') \<Rightarrow> ftp_send_all ms m')"

definition response_payload :: "nat \<Rightarrow> string \<Rightarrow> bytes" where
  "response_payload code txt = pack_be 2 code @ encode_utf8 txt"

definition ftp_send_response :: "nat \<Rightarrow> string \<Rightarrow> ftp \<Rightarrow> unit result \<times> ftp" where
  "ftp_send_response code txt m = ftp_send ftp_response (response_payload code txt) m"

section \<open>The commands of the server\<close>

text \<open>
  \<^verbatim>\<open>_resolve_path\<close>. A handler ends normally or with the text of an exception, which \<^verbatim>\<open>_handle_command\<close>
  sends with code 550.
\<close>

definition ftp_resolve :: "ftp \<Rightarrow> string \<Rightarrow> string option" where
  "ftp_resolve m path =
     within_root (ft_root m) (if isabs path then normpath path else normpath (path_join (ft_cwd m) path))"

type_synonym 'w handler_end = "(string + unit) \<times> ftp \<times> 'w"

definition sent :: "(exn \<Rightarrow> string) \<Rightarrow> unit result \<times> ftp \<Rightarrow> 'w \<Rightarrow> 'w handler_end" where
  "sent msg r w = (case r of (Inl e, m) \<Rightarrow> (Inl (msg e), m, w) | (Inr _, m) \<Rightarrow> (Inr (), m, w))"

definition respond :: "(exn \<Rightarrow> string) \<Rightarrow> nat \<Rightarrow> string \<Rightarrow> ftp \<Rightarrow> 'w \<Rightarrow> 'w handler_end" where
  "respond msg code txt m w = sent msg (ftp_send_response code txt m) w"

definition with_path ::
  "ftp \<Rightarrow> string \<Rightarrow> 'w \<Rightarrow> (string \<Rightarrow> 'w handler_end) \<Rightarrow> 'w handler_end" where
  "with_path m path w k =
     (case ftp_resolve m path of None \<Rightarrow> (Inl denied_text, m, w) | Some target \<Rightarrow> k target)"

definition cmd_pwd :: "(exn \<Rightarrow> string) \<Rightarrow> ftp \<Rightarrow> 'w \<Rightarrow> 'w handler_end" where
  "cmd_pwd msg m w =
     (let rel = relpath (ft_cwd m) (ft_root m);
          shown = (if rel = ''.'' then ''/'' else ''/'' @ rel)
      in respond msg 257 ([CHR 0x22] @ shown @ [CHR 0x22] @ '' is current directory'') m w)"

definition cmd_cwd :: "(exn \<Rightarrow> string) \<Rightarrow> 'w os \<Rightarrow> string \<Rightarrow> ftp \<Rightarrow> 'w \<Rightarrow> 'w handler_end" where
  "cmd_cwd msg sys path m w =
     (case if path = ''/'' then Some (ft_root m) else ftp_resolve m path of
        None \<Rightarrow> (Inl denied_text, m, w)
      | Some new \<Rightarrow>
          if \<not> os_isdir sys w new then respond msg 550 (''Directory not found: '' @ path) m w
          else respond msg 250 ''Directory changed successfully'' (m\<lparr>ft_cwd := new\<rparr>) w)"

text \<open>\<^verbatim>\<open>oct(n)[-3:]\<close>.\<close>

fun octal :: "nat \<Rightarrow> string" where
  "octal n = (if n < 8 then [digit_char n] else octal (n div 8) @ [digit_char (n mod 8)])"

declare octal.simps [simp del]

definition permissions :: "nat \<Rightarrow> string" where
  "permissions mode = (let s = ''0o'' @ octal mode in drop (length s - 3) s)"

fun list_entries :: "'w os \<Rightarrow> 'w \<Rightarrow> string \<Rightarrow> string list \<Rightarrow> jval list" where
  "list_entries sys w target [] = []"
| "list_entries sys w target (name # names) =
     (let full = path_join target name in
      (case os_stat sys w full of
         Inl _ \<Rightarrow> []
       | Inr st \<Rightarrow>
           [JObj [(''name'', JStr name), (''size'', JInt (st_size st)), (''is_dir'', JBool (os_isdir sys w full)),
                  (''modified'', JStr (st_modified st)), (''permissions'', JStr (permissions (st_mode st)))]])
      @ list_entries sys w target names)"

definition cmd_list :: "(exn \<Rightarrow> string) \<Rightarrow> 'w os \<Rightarrow> string \<Rightarrow> ftp \<Rightarrow> 'w \<Rightarrow> 'w handler_end" where
  "cmd_list msg sys path m w =
     (case if path = [] then Some (ft_cwd m) else ftp_resolve m path of
        None \<Rightarrow> (Inl denied_text, m, w)
      | Some target \<Rightarrow>
          if \<not> os_isdir sys w target then respond msg 550 (''Not a directory: '' @ path) m w
          else
            (case os_listdir sys w target of
               Inl e \<Rightarrow> (Inl (snd e), m, w)
             | Inr names \<Rightarrow>
                 sent msg
                   (ftp_send_all
                     [(ftp_response, response_payload 150 ''Opening data connection''), (ftp_data_start, []),
                      (ftp_data, encode_utf8 (json_dumps None (JList (list_entries sys w target names)))),
                      (ftp_data_end, []), (ftp_response, response_payload 226 ''Transfer complete'')] m) w))"

text \<open>A file is sent in pieces of 8192 bytes; an error of the reading is sent as such, and nothing after it.\<close>

definition cmd_retr :: "(exn \<Rightarrow> string) \<Rightarrow> 'w os \<Rightarrow> string \<Rightarrow> ftp \<Rightarrow> 'w \<Rightarrow> 'w handler_end" where
  "cmd_retr msg sys path m w =
     with_path m path w (\<lambda>target.
       if \<not> os_isfile sys w target then respond msg 550 (''File not found: '' @ path) m w
       else
         (case os_read sys w target of
            (d, err) \<Rightarrow>
              sent msg
                (ftp_send_all
                  ([(ftp_response, response_payload 150 ''Opening data connection''), (ftp_data_start, [])]
                   @ map (Pair ftp_data) (groups 8192 d)
                   @ (case err of
                        None \<Rightarrow> [(ftp_data_end, []), (ftp_response, response_payload 226 ''Transfer complete'')]
                      | Some t \<Rightarrow> [(ftp_error, encode_utf8 t)])) m) w))"

definition cmd_stor :: "(exn \<Rightarrow> string) \<Rightarrow> string \<Rightarrow> ftp \<Rightarrow> 'w \<Rightarrow> 'w handler_end" where
  "cmd_stor msg path m w =
     with_path m path w (\<lambda>target.
       (case respond msg 150 ''Ready to receive data'' m w of
          (Inl e, r) \<Rightarrow> (Inl e, r)
        | (Inr _, m', w') \<Rightarrow> (Inr (), m'\<lparr>ft_receiving := True, ft_data := [], ft_target := Some target\<rparr>, w')))"

definition cmd_mkd :: "(exn \<Rightarrow> string) \<Rightarrow> 'w os \<Rightarrow> string \<Rightarrow> ftp \<Rightarrow> 'w \<Rightarrow> 'w handler_end" where
  "cmd_mkd msg sys path m w =
     with_path m path w (\<lambda>target.
       (case os_makedirs sys target w of
          (Inr _, w') \<Rightarrow> respond msg 257 ([CHR 0x22] @ path @ [CHR 0x22] @ '' directory created'') m w'
        | (Inl (FileExists, _), w') \<Rightarrow> respond msg 550 (''Directory already exists: '' @ path) m w'
        | (Inl (_, t), w') \<Rightarrow> respond msg 550 t m w'))"

definition cmd_rmd :: "(exn \<Rightarrow> string) \<Rightarrow> 'w os \<Rightarrow> string \<Rightarrow> ftp \<Rightarrow> 'w \<Rightarrow> 'w handler_end" where
  "cmd_rmd msg sys path m w =
     with_path m path w (\<lambda>target.
       if \<not> os_isdir sys w target then respond msg 550 (''Not a directory: '' @ path) m w
       else
         (case os_rmdir sys target w of
            (Inr _, w') \<Rightarrow> respond msg 250 ''Directory removed'' m w'
          | (Inl (_, t), w') \<Rightarrow> respond msg 550 t m w'))"

definition cmd_dele :: "(exn \<Rightarrow> string) \<Rightarrow> 'w os \<Rightarrow> string \<Rightarrow> ftp \<Rightarrow> 'w \<Rightarrow> 'w handler_end" where
  "cmd_dele msg sys path m w =
     with_path m path w (\<lambda>target.
       if \<not> os_isfile sys w target then respond msg 550 (''File not found: '' @ path) m w
       else
         (case os_remove sys target w of
            (Inr _, w') \<Rightarrow> respond msg 250 ''File deleted'' m w'
          | (Inl (_, t), w') \<Rightarrow> respond msg 550 t m w'))"

definition cmd_size :: "(exn \<Rightarrow> string) \<Rightarrow> 'w os \<Rightarrow> string \<Rightarrow> ftp \<Rightarrow> 'w \<Rightarrow> 'w handler_end" where
  "cmd_size msg sys path m w =
     with_path m path w (\<lambda>target.
       if \<not> os_isfile sys w target then respond msg 550 (''File not found: '' @ path) m w
       else
         (case os_stat sys w target of
            Inl e \<Rightarrow> (Inl (snd e), m, w)
          | Inr st \<Rightarrow> respond msg 213 (show_int (st_size st)) m w))"

definition run_command ::
  "(exn \<Rightarrow> string) \<Rightarrow> 'w os \<Rightarrow> string \<Rightarrow> string \<Rightarrow> ftp \<Rightarrow> 'w \<Rightarrow> 'w handler_end" where
  "run_command msg sys cmd args m w =
     (if cmd = ''PWD'' then cmd_pwd msg m w
      else if cmd = ''CWD'' then cmd_cwd msg sys args m w
      else if cmd = ''LIST'' then cmd_list msg sys args m w
      else if cmd = ''RETR'' then cmd_retr msg sys args m w
      else if cmd = ''STOR'' then cmd_stor msg args m w
      else if cmd = ''MKD'' then cmd_mkd msg sys args m w
      else if cmd = ''RMD'' then cmd_rmd msg sys args m w
      else if cmd = ''DELE'' then cmd_dele msg sys args m w
      else if cmd = ''SIZE'' then cmd_size msg sys args m w
      else if cmd = ''QUIT'' then
        (case respond msg 221 ''Goodbye'' m w of
           (Inl e, r) \<Rightarrow> (Inl e, r)
         | (Inr _, m', w') \<Rightarrow> (Inr (), m'\<lparr>ft_done := True\<rparr>, w'))
      else respond msg 502 (''Command not implemented: '' @ cmd) m w)"

text \<open>\<^verbatim>\<open>_handle_command\<close>: a command that is not UTF-8 ends the task without a response.\<close>

definition end_command :: "'w handler_end \<Rightarrow> ftp \<times> 'w" where
  "end_command r =
     (case r of
        (Inl e, m', w') \<Rightarrow> (snd (ftp_send_response 550 e m'), w')
      | (Inr _, m', w') \<Rightarrow> (m', w'))"

definition handle_command :: "(exn \<Rightarrow> string) \<Rightarrow> 'w os \<Rightarrow> bytes \<Rightarrow> ftp \<times> 'w \<Rightarrow> ftp \<times> 'w" where
  "handle_command msg sys payload s =
     (let m = fst s; w = snd s in
      if payload = [] then (snd (ftp_send_response 500 ''Invalid command'' m), w)
      else
        (let n = unat (hd payload) in
         if length payload < 1 + n then (snd (ftp_send_response 500 ''Invalid command'' m), w)
         else
           (case (decode_utf8 (take n (tl payload)), decode_utf8 (drop n (tl payload))) of
              (Some cmd, Some args) \<Rightarrow> end_command (run_command msg sys (py_upper cmd) args m w)
            | _ \<Rightarrow> (m, w))))"

section \<open>What arrives\<close>

definition settle :: "ftp_reply \<Rightarrow> ftp \<Rightarrow> ftp" where
  "settle r m = (if ft_future m = Some Awaited then m\<lparr>ft_future := Some r\<rparr> else m)"

text \<open>\<^verbatim>\<open>_handle_data_complete\<close>.\<close>

definition data_complete :: "'w os \<Rightarrow> ftp \<times> 'w \<Rightarrow> ftp \<times> 'w" where
  "data_complete sys s =
     (case (ft_server (fst s), ft_target (fst s)) of
        (True, Some t) \<Rightarrow>
          (case os_write sys t (ft_data (fst s)) (snd s) of
             (Inr _, w') \<Rightarrow> ((snd (ftp_send_response 226 ''Transfer complete'' (fst s)))\<lparr>ft_target := None\<rparr>, w')
           | (Inl e, w') \<Rightarrow> ((snd (ftp_send_response 550 (snd e) (fst s)))\<lparr>ft_target := None\<rparr>, w'))
      | _ \<Rightarrow> s)"

text \<open>One message; \<^const>\<open>False\<close> when it raises, as text that is not UTF-8 does.\<close>

definition handle_ftp :: "'w os \<Rightarrow> fmsg \<Rightarrow> ftp \<times> 'w \<Rightarrow> bool \<times> ftp \<times> 'w" where
  "handle_ftp sys p s =
     (let t = fm_type p; d = fm_data p; m = fst s; w = snd s in
      if t = ftp_command then (True, m\<lparr>ft_tasks := ft_tasks m @ [d]\<rparr>, w)
      else if t = ftp_response then
        (if length d < 2 then (True, s)
         else
           (case decode_utf8 (drop 2 d) of
              None \<Rightarrow> (False, s)
            | Some txt \<Rightarrow> (True, settle (Reply (unpack_be (take 2 d)) txt) m, w)))
      else if t = ftp_data_start then (True, m\<lparr>ft_receiving := True, ft_data := []\<rparr>, w)
      else if t = ftp_data then (True, if ft_receiving m then m\<lparr>ft_data := ft_data m @ d\<rparr> else m, w)
      else if t = ftp_data_end then (True, data_complete sys (m\<lparr>ft_receiving := False\<rparr>, w))
      else if t = ftp_error then
        (if d = [] then (True, settle (Failed ''Unknown error'') m, w)
         else (case decode_utf8 d of None \<Rightarrow> (False, s) | Some txt \<Rightarrow> (True, settle (Failed txt) m, w)))
      else (True, s))"

text \<open>A side with its buffer and its disk.\<close>

type_synonym 'w ftp_side = "bytes \<times> ftp \<times> 'w"

definition ftp_on_data :: "'w os \<Rightarrow> bytes \<Rightarrow> 'w ftp_side \<Rightarrow> 'w ftp_side" where
  "ftp_on_data sys = feed ftp_header (\<lambda>f. handle_ftp sys (ftp_message f))"

text \<open>What happens to a side: data arrive, the first waiting command runs, the connection is lost.\<close>

datatype ftp_event = Arrives bytes | RunTask | Lost

definition ftp_lost :: "ftp \<Rightarrow> ftp" where
  "ftp_lost m = settle (Failed ''Connection lost'') (m\<lparr>ft_done := True\<rparr>)"

definition run_task :: "(exn \<Rightarrow> string) \<Rightarrow> 'w os \<Rightarrow> ftp \<times> 'w \<Rightarrow> ftp \<times> 'w" where
  "run_task msg sys s =
     (case ft_tasks (fst s) of
        [] \<Rightarrow> s
      | t # ts \<Rightarrow> handle_command msg sys t ((fst s)\<lparr>ft_tasks := ts\<rparr>, snd s))"

fun ftp_event_step :: "(exn \<Rightarrow> string) \<Rightarrow> 'w os \<Rightarrow> ftp_event \<Rightarrow> 'w ftp_side \<Rightarrow> 'w ftp_side" where
  "ftp_event_step msg sys (Arrives c) s = ftp_on_data sys c s"
| "ftp_event_step msg sys RunTask s = apsnd (run_task msg sys) s"
| "ftp_event_step msg sys Lost s = apsnd (apfst ftp_lost) s"

definition ftp_run :: "(exn \<Rightarrow> string) \<Rightarrow> 'w os \<Rightarrow> ftp_event list \<Rightarrow> 'w ftp_side \<Rightarrow> 'w ftp_side" where
  "ftp_run msg sys evs s = fold (ftp_event_step msg sys) evs s"

section \<open>The client\<close>

definition request_payload :: "string \<Rightarrow> string \<Rightarrow> bytes" where
  "request_payload cmd args = word_of_nat (length (encode_utf8 cmd)) # encode_utf8 cmd @ encode_utf8 args"

text \<open>The wait for a reply: the reply, the text of an exception, or the end of the wait.\<close>

definition await_reply :: "string \<Rightarrow> ftp \<Rightarrow> string + (nat \<times> string)" where
  "await_reply late m =
     (case ft_future m of
        Some (Reply c t) \<Rightarrow> Inr (c, t)
      | Some (Failed t) \<Rightarrow> Inl t
      | _ \<Rightarrow> Inr (421, late))"

definition send_command :: "string \<Rightarrow> string \<Rightarrow> ftp \<Rightarrow> unit result \<times> ftp" where
  "send_command cmd args m =
     (let m' = m\<lparr>ft_future := Some Awaited, ft_data := []\<rparr>
      in if 256 \<le> length (encode_utf8 cmd) then (Inl ValueError, m')
         else ftp_send ftp_command (request_payload cmd args) m')"

definition command_result :: "ftp \<Rightarrow> string + (nat \<times> string)" where
  "command_result m = await_reply ''Request timed out'' m"

text \<open>\<^verbatim>\<open>upload_file\<close> up to its first wait, and from the reply of the server on; a result ends it.\<close>

definition upload_request ::
  "'w os \<Rightarrow> 'w \<Rightarrow> string \<Rightarrow> string \<Rightarrow> ftp \<Rightarrow> (nat \<times> string) option \<times> ftp" where
  "upload_request sys w local remote m =
     (if \<not> os_isfile sys w local then (Some (550, ''Local file not found: '' @ local), m)
      else (None, snd (ftp_send ftp_command (request_payload ''STOR'' remote) (m\<lparr>ft_future := Some Awaited\<rparr>))))"

definition upload_data ::
  "'w os \<Rightarrow> 'w \<Rightarrow> string \<Rightarrow> ftp \<Rightarrow> (string + (nat \<times> string) option) \<times> ftp" where
  "upload_data sys w local m =
     (case await_reply ''Request timed out'' m of
        Inl t \<Rightarrow> (Inl t, m)
      | Inr (code, txt) \<Rightarrow>
          if code \<noteq> 150 then (Inr (Some (code, txt)), m)
          else
            (case os_read sys w local of
               (d, None) \<Rightarrow>
                 (Inr None, (snd (ftp_send_all ([(ftp_data_start, [])] @ map (Pair ftp_data) (groups 8192 d)
                     @ [(ftp_data_end, [])]) m))\<lparr>ft_future := Some Awaited\<rparr>)
             | (d, Some t) \<Rightarrow>
                 (Inr (Some (550, t)), snd (ftp_send_all ((ftp_data_start, []) # map (Pair ftp_data) (groups 8192 d)) m))))"

definition upload_result :: "ftp \<Rightarrow> string + (nat \<times> string)" where
  "upload_result m = await_reply ''Transfer timed out'' m"

text \<open>\<^verbatim>\<open>download_file\<close>: the request, the second wait, and the writing of the file.\<close>

definition download_request :: "string \<Rightarrow> ftp \<Rightarrow> unit result \<times> ftp" where
  "download_request remote m =
     ftp_send ftp_command (request_payload ''RETR'' remote) (m\<lparr>ft_future := Some Awaited, ft_data := []\<rparr>)"

definition download_wait :: "ftp \<Rightarrow> (string + (nat \<times> string) option) \<times> ftp" where
  "download_wait m =
     (case await_reply ''Request timed out'' m of
        Inl t \<Rightarrow> (Inl t, m)
      | Inr (code, txt) \<Rightarrow>
          if code \<noteq> 150 then (Inr (Some (code, txt)), m) else (Inr None, m\<lparr>ft_future := Some Awaited\<rparr>))"

definition download_result :: "'w os \<Rightarrow> string \<Rightarrow> ftp \<Rightarrow> 'w \<Rightarrow> (string + (nat \<times> string)) \<times> 'w" where
  "download_result sys local m w =
     (case await_reply ''Transfer timed out'' m of
        Inl t \<Rightarrow> (Inl t, w)
      | Inr (code, txt) \<Rightarrow>
          if code \<noteq> 226 then (Inr (code, txt), w)
          else
            (case os_write sys local (ft_data m) w of
               (Inr _, w') \<Rightarrow> (Inr (226, ''Downloaded '' @ show_nat (length (ft_data m)) @ '' bytes''), w')
             | (Inl e, w') \<Rightarrow> (Inr (550, snd e), w')))"

text \<open>
  \<^verbatim>\<open>run_server\<close> when its client is connected, and \<^verbatim>\<open>run_client\<close>: only the client keeps the protocol
  object it sends through.
\<close>

definition run_ftp_server :: "ftp \<Rightarrow> ftp" where
  "run_ftp_server m = snd (ftp_send_response 220 ''wh-ftp server ready'' m)"

definition run_ftp_client :: "ftp \<Rightarrow> ftp" where
  "run_ftp_client m = m\<lparr>ft_linked := True, ft_future := Some Awaited\<rparr>"

definition client_welcome :: "ftp \<Rightarrow> string + unit" where
  "client_welcome m =
     (case ft_future m of
        Some (Reply c t) \<Rightarrow> Inr ()
      | Some (Failed t) \<Rightarrow> Inl t
      | _ \<Rightarrow> Inl ''No response from server'')"

section \<open>Sending\<close>

declare ftp_send_all.simps [simp del]

interpretation ftp_format: framed ftp_header ftp_frame ftp_message
proof unfold_locales
  fix m bs assume e: "ftp_frame m = Inr bs"
  then obtain front where f: "pack_fields [(1, fm_type m)] = Inr front"
      "bs = put_frame front (fm_data m)" "length (fm_data m) < 256 ^ 4"
    unfolding ftp_frame_def using fields_frame_put by blast
  then have "front = pack_be 1 (fm_type m)" "fm_type m < 256 ^ 1"
    by (auto simp: map_sum_eq_Inr split: if_splits)
  then show "\<exists>front payload. bs = put_frame front payload \<and> length front + 4 = ftp_header
      \<and> length payload < 256 ^ 4 \<and> ftp_message (front @ pack_be 4 (length payload), payload) = m"
    using f by (intro exI [of _ front] exI [of _ "fm_data m"]) (simp add: ftp_header_def ftp_message_def)
qed

text \<open>What sending may change: the bytes sent, and only when the side is linked.\<close>

lemma ftp_send_shape:
  "\<exists>bs. snd (ftp_send t d m) = m\<lparr>ft_sent := ft_sent m @ bs\<rparr> \<and> (ft_linked m \<or> bs = [])"
  unfolding ftp_send_def by (cases m) (auto split: sum.split intro: exI [of _ "[]"])

lemma ftp_send_all_shape:
  "\<exists>bs. snd (ftp_send_all ms m) = m\<lparr>ft_sent := ft_sent m @ bs\<rparr> \<and> (ft_linked m \<or> bs = [])"
proof (induction ms arbitrary: m)
  case Nil
  show ?case by (cases m) (auto simp: ftp_send_all.simps intro: exI [of _ "[]"])
next
  case (Cons p ms)
  obtain t d where p: "p = (t, d)" by fastforce
  obtain bs where b: "snd (ftp_send t d m) = m\<lparr>ft_sent := ft_sent m @ bs\<rparr>" "ft_linked m \<or> bs = []"
    using ftp_send_shape by blast
  obtain r m1 where r: "ftp_send t d m = (r, m1)" by fastforce
  obtain bs' where c: "snd (ftp_send_all ms m1) = m1\<lparr>ft_sent := ft_sent m1 @ bs'\<rparr>" "ft_linked m1 \<or> bs' = []"
    using Cons.IH by blast
  show ?case
  proof (cases r)
    case (Inr u)
    have "snd (ftp_send_all ms m1) = m\<lparr>ft_sent := ft_sent m @ bs @ bs'\<rparr>" using c(1) b(1) r by simp
    moreover have "ft_linked m \<or> bs @ bs' = []" using b c(2) r by auto
    ultimately show ?thesis using p r Inr by (auto simp: ftp_send_all.simps)
  qed (use p r b in \<open>auto simp: ftp_send_all.simps\<close>)
qed

text \<open>A property of a side that does not look at what was sent survives sending.\<close>

lemma ftp_send_keeps:
  "(\<And>bs. Q (m\<lparr>ft_sent := bs\<rparr>) = Q m) \<Longrightarrow> Q (snd (ftp_send t d m)) = Q m"
  "(\<And>bs. Q (m\<lparr>ft_sent := bs\<rparr>) = Q m) \<Longrightarrow> Q (snd (ftp_send_response c txt m)) = Q m"
  "(\<And>bs. Q (m\<lparr>ft_sent := bs\<rparr>) = Q m) \<Longrightarrow> Q (snd (ftp_send_all ms m)) = Q m"
  using ftp_send_shape [of t d m] ftp_send_all_shape [of ms m]
    ftp_send_shape [of ftp_response "response_payload c txt" m]
  by (auto simp: ftp_send_response_def)

lemma sent_eq: "sent msg r w = (map_sum msg id (fst r), snd r, w)"
  by (cases r) (auto simp: sent_def split: sum.split)

lemma respond_eq: "respond msg code txt m w =
    (map_sum msg id (fst (ftp_send_response code txt m)), snd (ftp_send_response code txt m), w)"
  by (simp add: respond_def sent_eq)

section \<open>The server stays below its root\<close>

text \<open>The invariant: the directories and the target that the side keeps begin with the root.\<close>

definition ftp_inside :: "string \<Rightarrow> ftp \<Rightarrow> bool" where
  "ftp_inside root m \<longleftrightarrow>
     ft_root m = root \<and> startswith (ft_cwd m) root \<and> (\<forall>t. ft_target m = Some t \<longrightarrow> startswith t root)"

lemma ftp_inside_sent [simp]: "ftp_inside root (m\<lparr>ft_sent := bs\<rparr>) = ftp_inside root m"
  by (simp add: ftp_inside_def)

lemmas inside_sends [simp] = ftp_send_keeps [where Q = "ftp_inside root" for root, OF ftp_inside_sent]

lemma ftp_resolve_inside: "ftp_inside root m \<Longrightarrow> ftp_resolve m path = Some t \<Longrightarrow> startswith t root"
  by (auto simp: ftp_resolve_def ftp_inside_def dest: within_root_starts)

text \<open>Names in a directory have no slash, as POSIX has it.\<close>

definition plain_names :: "'w os \<Rightarrow> bool" where
  "plain_names sys \<longleftrightarrow> (\<forall>w p names. os_listdir sys w p = Inr names \<longrightarrow> (\<forall>n \<in> set names. \<not> startswith n ''/''))"

lemma list_entries_same:
  assumes "same_below root o1 o2" "startswith t root" "\<forall>n \<in> set names. \<not> startswith n ''/''"
  shows "list_entries o1 w t names = list_entries o2 w t names"
  using assms(3)
proof (induction names)
  case (Cons n ns)
  then have "startswith (path_join t n) root" by (simp add: startswith_join assms(2))
  then show ?case using Cons same_belowD(1,4) [OF assms(1)] by (simp add: Let_def split: sum.split)
qed simp

text \<open>A handler that depends on the disk below the root only, and keeps the invariant.\<close>

definition confined :: "string \<Rightarrow> ('w os \<Rightarrow> ftp \<Rightarrow> 'w \<Rightarrow> 'w handler_end) \<Rightarrow> bool" where
  "confined root k \<longleftrightarrow>
     (\<forall>o1 o2 m w. same_below root o1 o2 \<longrightarrow> plain_names o1 \<longrightarrow> ftp_inside root m \<longrightarrow>
        k o1 m w = k o2 m w \<and> ftp_inside root (fst (snd (k o2 m w))))"

lemma confinedI:
  assumes "\<And>o1 o2 m w. same_below root o1 o2 \<Longrightarrow> plain_names o1 \<Longrightarrow> ftp_inside root m \<Longrightarrow>
      k o1 m w = k o2 m w \<and> ftp_inside root (fst (snd (k o2 m w)))"
  shows "confined root k"
  using assms unfolding confined_def by blast

lemma confinedD:
  assumes "confined root k" "same_below root o1 o2" "plain_names o1" "ftp_inside root m"
  shows "k o1 m w = k o2 m w \<and> ftp_inside root (fst (snd (k o2 m w)))"
  using assms unfolding confined_def by simp

lemma confined_with_path:
  assumes "\<And>o1 o2 m w t. same_below root o1 o2 \<Longrightarrow> ftp_inside root m \<Longrightarrow> startswith t root \<Longrightarrow>
      k o1 m w t = k o2 m w t \<and> ftp_inside root (fst (snd (k o2 m w t)))"
  shows "confined root (\<lambda>sys m w. with_path m path w (k sys m w))"
proof (rule confinedI)
  fix o1 o2 :: "'a os" and m w
  assume a: "same_below root o1 o2" "ftp_inside root m"
  show "with_path m path w (k o1 m w) = with_path m path w (k o2 m w)
      \<and> ftp_inside root (fst (snd (with_path m path w (k o2 m w))))"
  proof (cases "ftp_resolve m path")
    case (Some t)
    show ?thesis
      unfolding with_path_def Some option.case by (rule assms [OF a ftp_resolve_inside [OF a(2) Some]])
  qed (use a in \<open>simp add: with_path_def\<close>)
qed

lemmas command_simps = respond_eq sent_eq

lemma cmd_pwd_confined: "confined root (\<lambda>sys. cmd_pwd msg)"
  by (rule confinedI) (simp add: cmd_pwd_def Let_def command_simps)

lemma cmd_cwd_confined: "confined root (\<lambda>sys. cmd_cwd msg sys path)"
proof (rule confinedI)
  fix o1 o2 :: "'a os" and m w
  assume a: "same_below root o1 o2" "ftp_inside root m"
  let ?new = "if path = ''/'' then Some (ft_root m) else ftp_resolve m path"
  show "cmd_cwd msg o1 path m w = cmd_cwd msg o2 path m w
      \<and> ftp_inside root (fst (snd (cmd_cwd msg o2 path m w)))"
  proof (cases ?new)
    case (Some t)
    have t: "startswith t root"
      using Some a(2) ftp_resolve_inside [OF a(2)] by (auto simp: ftp_inside_def split: if_splits)
    then have "ftp_inside root (m\<lparr>ft_cwd := t\<rparr>)" using a(2) by (simp add: ftp_inside_def)
    then show ?thesis
      unfolding cmd_cwd_def Some using same_belowD(1) [OF a(1) t] a(2) by (simp add: command_simps)
  qed (use a in \<open>simp add: cmd_cwd_def\<close>)
qed

lemma cmd_list_confined: "confined root (\<lambda>sys. cmd_list msg sys path)"
proof (rule confinedI)
  fix o1 o2 :: "'a os" and m w
  assume a: "same_below root o1 o2" "plain_names o1" "ftp_inside root m"
  let ?new = "if path = [] then Some (ft_cwd m) else ftp_resolve m path"
  show "cmd_list msg o1 path m w = cmd_list msg o2 path m w
      \<and> ftp_inside root (fst (snd (cmd_list msg o2 path m w)))"
  proof (cases ?new)
    case (Some t)
    have t: "startswith t root"
      using Some a(3) ftp_resolve_inside [OF a(3)] by (auto simp: ftp_inside_def split: if_splits)
    have "list_entries o1 w t names = list_entries o2 w t names" if "os_listdir o2 w t = Inr names" for names
      by (rule list_entries_same [OF a(1) t]) (use a(2) that same_belowD(3) [OF a(1) t, of w] in \<open>metis plain_names_def\<close>)
    then show ?thesis
      unfolding cmd_list_def Some using same_belowD(1,3) [OF a(1) t] a(3)
      by (simp add: command_simps split: sum.split)
  qed (use a in \<open>simp add: cmd_list_def\<close>)
qed

lemma cmd_retr_confined: "confined root (\<lambda>sys. cmd_retr msg sys path)"
  unfolding cmd_retr_def
  by (rule confined_with_path) (simp add: command_simps same_belowD split: prod.split)

lemma cmd_stor_confined: "confined root (\<lambda>sys. cmd_stor msg path)"
  unfolding cmd_stor_def
proof (rule confined_with_path)
  fix o1 o2 :: "'a os" and m :: ftp and w :: 'a and t
  assume a: "ftp_inside root m" "startswith t root"
  let ?m = "snd (ftp_send_response 150 ''Ready to receive data'' m)"
  have "ftp_inside root (?m\<lparr>ft_receiving := True, ft_data := [], ft_target := Some t\<rparr>)"
    using a inside_sends(2) [of root 150 "''Ready to receive data''" m] by (simp add: ftp_inside_def)
  then show "(case respond msg 150 ''Ready to receive data'' m w of
          (Inl e, r) \<Rightarrow> (Inl e, r)
        | (Inr _, m', w') \<Rightarrow> (Inr (), m'\<lparr>ft_receiving := True, ft_data := [], ft_target := Some t\<rparr>, w'))
      = (case respond msg 150 ''Ready to receive data'' m w of
          (Inl e, r) \<Rightarrow> (Inl e, r)
        | (Inr _, m', w') \<Rightarrow> (Inr (), m'\<lparr>ft_receiving := True, ft_data := [], ft_target := Some t\<rparr>, w'))
      \<and> ftp_inside root (fst (snd (case respond msg 150 ''Ready to receive data'' m w of
          (Inl e, r) \<Rightarrow> (Inl e, r)
        | (Inr _, m', w') \<Rightarrow> (Inr (), m'\<lparr>ft_receiving := True, ft_data := [], ft_target := Some t\<rparr>, w'))))"
    using a(1) by (simp add: command_simps split: sum.split)
qed

lemma cmd_mkd_confined: "confined root (\<lambda>sys. cmd_mkd msg sys path)"
  unfolding cmd_mkd_def
  by (rule confined_with_path)
    (simp add: command_simps same_belowD split: prod.split sum.split os_kind.split)

lemma cmd_rmd_confined: "confined root (\<lambda>sys. cmd_rmd msg sys path)"
  unfolding cmd_rmd_def
  by (rule confined_with_path) (simp add: command_simps same_belowD split: prod.split sum.split)

lemma cmd_dele_confined: "confined root (\<lambda>sys. cmd_dele msg sys path)"
  unfolding cmd_dele_def
  by (rule confined_with_path) (simp add: command_simps same_belowD split: prod.split sum.split)

lemma cmd_size_confined: "confined root (\<lambda>sys. cmd_size msg sys path)"
  unfolding cmd_size_def
  by (rule confined_with_path) (simp add: command_simps same_belowD split: sum.split)

lemmas commands_confined = cmd_pwd_confined cmd_cwd_confined cmd_list_confined cmd_retr_confined
  cmd_stor_confined cmd_mkd_confined cmd_rmd_confined cmd_dele_confined cmd_size_confined

lemma cmd_quit_confined:
  "confined root (\<lambda>sys m w. case respond msg 221 ''Goodbye'' m w of
      (Inl e, r) \<Rightarrow> (Inl e, r) | (Inr _, m', w') \<Rightarrow> (Inr (), m'\<lparr>ft_done := True\<rparr>, w'))"
proof (rule confinedI)
  fix m :: ftp and w :: 'a
  assume "ftp_inside root m"
  then have "ftp_inside root ((snd (ftp_send_response 221 ''Goodbye'' m))\<lparr>ft_done := True\<rparr>)"
    using inside_sends(2) [of root 221 "''Goodbye''" m] by (simp add: ftp_inside_def)
  then show "(case respond msg 221 ''Goodbye'' m w of
      (Inl e, r) \<Rightarrow> (Inl e, r) | (Inr _, m', w') \<Rightarrow> (Inr (), m'\<lparr>ft_done := True\<rparr>, w'))
    = (case respond msg 221 ''Goodbye'' m w of
      (Inl e, r) \<Rightarrow> (Inl e, r) | (Inr _, m', w') \<Rightarrow> (Inr (), m'\<lparr>ft_done := True\<rparr>, w'))
    \<and> ftp_inside root (fst (snd (case respond msg 221 ''Goodbye'' m w of
      (Inl e, r) \<Rightarrow> (Inl e, r) | (Inr _, m', w') \<Rightarrow> (Inr (), m'\<lparr>ft_done := True\<rparr>, w'))))"
    using \<open>ftp_inside root m\<close> by (simp add: command_simps split: sum.split)
qed

lemma confined_if:
  "confined root k \<Longrightarrow> confined root l \<Longrightarrow> confined root (\<lambda>sys m w. if b then k sys m w else l sys m w)"
  by (cases b) simp_all

lemma cmd_unknown_confined: "confined root (\<lambda>sys. respond msg code txt)"
  by (rule confinedI) (simp add: command_simps)

lemma run_command_confined: "confined root (\<lambda>sys. run_command msg sys cmd args)"
  unfolding run_command_def
  by (intro confined_if commands_confined cmd_quit_confined cmd_unknown_confined)

text \<open>The steps of a side, as far as they look at the disk.\<close>

definition confined_step :: "string \<Rightarrow> ('w os \<Rightarrow> ftp \<times> 'w \<Rightarrow> ftp \<times> 'w) \<Rightarrow> bool" where
  "confined_step root k \<longleftrightarrow>
     (\<forall>o1 o2 s. same_below root o1 o2 \<longrightarrow> plain_names o1 \<longrightarrow> ftp_inside root (fst s) \<longrightarrow>
        k o1 s = k o2 s \<and> ftp_inside root (fst (k o2 s)))"

lemma confined_stepD:
  assumes "confined_step root k" "same_below root o1 o2" "plain_names o1" "ftp_inside root (fst s)"
  shows "k o1 s = k o2 s \<and> ftp_inside root (fst (k o2 s))"
  using assms unfolding confined_step_def by blast

lemma end_command_inside: "ftp_inside root (fst (snd r)) \<Longrightarrow> ftp_inside root (fst (end_command r))"
  by (auto simp: end_command_def split: prod.split sum.split)

lemma handle_command_confined: "confined_step root (\<lambda>sys. handle_command msg sys payload)"
  unfolding confined_step_def
proof (intro allI impI)
  fix o1 o2 :: "'a os" and s :: "ftp \<times> 'a"
  assume a: "same_below root o1 o2" "plain_names o1" "ftp_inside root (fst s)"
  have "run_command msg o1 cmd args (fst s) (snd s) = run_command msg o2 cmd args (fst s) (snd s)
      \<and> ftp_inside root (fst (snd (run_command msg o2 cmd args (fst s) (snd s))))" for cmd args
    by (rule confinedD [OF run_command_confined a])
  note c = this [THEN conjunct1] this [THEN conjunct2, THEN end_command_inside]
  have "ftp_inside root (fst (handle_command msg o2 payload s))"
    using a(3) c(2) by (simp add: handle_command_def Let_def split: option.split)
  then show "handle_command msg o1 payload s = handle_command msg o2 payload s
      \<and> ftp_inside root (fst (handle_command msg o2 payload s))"
    by (simp add: handle_command_def c(1) Let_def split: option.split)
qed

lemma settle_inside [simp]: "ftp_inside root (settle r m) = ftp_inside root m"
  by (simp add: settle_def ftp_inside_def)

lemma data_complete_confined: "confined_step root data_complete"
  unfolding confined_step_def
proof (intro allI impI)
  fix o1 o2 :: "'a os" and s :: "ftp \<times> 'a"
  assume a: "same_below root o1 o2" "ftp_inside root (fst s)"
  show "data_complete o1 s = data_complete o2 s \<and> ftp_inside root (fst (data_complete o2 s))"
  proof (cases "ft_server (fst s) \<and> ft_target (fst s) \<noteq> None")
    case True
    then obtain t where t: "ft_target (fst s) = Some t" "ft_server (fst s)" by auto
    then have "startswith t root" using a(2) by (simp add: ftp_inside_def)
    then have w: "os_write o1 t = os_write o2 t" by (rule same_belowD(7) [OF a(1)])
    have "ftp_inside root (m\<lparr>ft_target := None\<rparr>)" if "ftp_inside root m" for m
      using that by (simp add: ftp_inside_def)
    then show ?thesis using t w a(2) by (auto simp: data_complete_def split: prod.split sum.split)
  next
    case False
    then show ?thesis using a(2) by (auto simp: data_complete_def split: bool.split option.split)
  qed
qed

lemma handle_ftp_confined:
  assumes "same_below root o1 o2" "plain_names o1" "ftp_inside root (fst s)"
  shows "handle_ftp o1 p s = handle_ftp o2 p s \<and> ftp_inside root (fst (snd (handle_ftp o2 p s)))"
proof -
  have i: "ftp_inside root ((fst s)\<lparr>ft_receiving := False\<rparr>)" "ftp_inside root ((fst s)\<lparr>ft_tasks := ts\<rparr>)"
    "ftp_inside root ((fst s)\<lparr>ft_receiving := True, ft_data := d\<rparr>)" "ftp_inside root ((fst s)\<lparr>ft_data := d\<rparr>)" for ts d
    using assms(3) by (simp_all add: ftp_inside_def)
  let ?s = "((fst s)\<lparr>ft_receiving := False\<rparr>, snd s)"
  have c: "data_complete o1 ?s = data_complete o2 ?s \<and> ftp_inside root (fst (data_complete o2 ?s))"
    by (rule confined_stepD [OF data_complete_confined assms(1,2)]) (simp add: i)
  then have "ftp_inside root (fst (snd (handle_ftp o2 p s)))"
    using assms(3) i by (auto simp: handle_ftp_def Let_def split: option.split)
  then show ?thesis using c by (simp add: handle_ftp_def Let_def)
qed

lemma ftp_on_data_confined:
  assumes "same_below root o1 o2" "plain_names o1" "ftp_inside root (fst (snd s))"
  shows "ftp_on_data o1 c s = ftp_on_data o2 c s \<and> ftp_inside root (fst (snd (ftp_on_data o2 c s)))"
proof -
  have "run_frames (\<lambda>f. handle_ftp o1 (ftp_message f)) fs rest t
      = run_frames (\<lambda>f. handle_ftp o2 (ftp_message f)) fs rest t" if "ftp_inside root (fst t)" for fs rest t
    using that
  proof (induction fs arbitrary: t)
    case (Cons f fs)
    show ?case
      using handle_ftp_confined [OF assms(1,2) Cons.prems, of "ftp_message f"] Cons.IH
      by (auto split: prod.split bool.split)
  qed simp
  then have "ftp_on_data o1 c s = ftp_on_data o2 c s"
    using assms(3) by (simp add: ftp_on_data_def feed_def split: prod.split)
  moreover have "ftp_inside root (fst (snd (ftp_on_data o1 c s)))"
    unfolding ftp_on_data_def
    by (rule feed_inv [where Q = "\<lambda>s. ftp_inside root (fst s)"])
      (use handle_ftp_confined [OF same_below_refl assms(2)] assms(3) in simp_all)
  ultimately show ?thesis by simp
qed

lemma ftp_step_confined:
  assumes "same_below root o1 o2" "plain_names o1" "ftp_inside root (fst (snd s))"
  shows "ftp_event_step msg o1 e s = ftp_event_step msg o2 e s
    \<and> ftp_inside root (fst (snd (ftp_event_step msg o2 e s)))"
proof (cases e)
  case (Arrives c)
  then show ?thesis using ftp_on_data_confined [OF assms] by simp
next
  case RunTask
  have i: "ftp_inside root ((fst (snd s))\<lparr>ft_tasks := ts\<rparr>)" for ts
    using assms(3) by (simp add: ftp_inside_def)
  have "handle_command msg o1 t ((fst (snd s))\<lparr>ft_tasks := ts\<rparr>, snd (snd s))
      = handle_command msg o2 t ((fst (snd s))\<lparr>ft_tasks := ts\<rparr>, snd (snd s))
      \<and> ftp_inside root (fst (handle_command msg o2 t ((fst (snd s))\<lparr>ft_tasks := ts\<rparr>, snd (snd s))))" for t ts
    by (rule confined_stepD [OF handle_command_confined assms(1,2)]) (simp add: i)
  then show ?thesis using RunTask assms(3) by (cases s) (auto simp: run_task_def split: list.split)
next
  case Lost
  have "ftp_inside root (m\<lparr>ft_done := True\<rparr>) = ftp_inside root m" for m by (simp add: ftp_inside_def)
  then show ?thesis using Lost assms(3) by (cases s) (simp add: ftp_lost_def)
qed

lemma ftp_run_confined:
  assumes "same_below root o1 o2" "plain_names o1" "ftp_inside root (fst (snd s))"
  shows "ftp_run msg o1 evs s = ftp_run msg o2 evs s \<and> ftp_inside root (fst (snd (ftp_run msg o2 evs s)))"
  using assms(3)
proof (induction evs arbitrary: s)
  case (Cons e evs)
  show ?case
    using Cons.IH [of "ftp_event_step msg o1 e s"] ftp_step_confined [OF assms(1,2) Cons.prems, of msg e]
    by (simp add: ftp_run_def)
qed (simp add: ftp_run_def)

section \<open>A server without a protocol object\<close>

lemma ftp_send_unlinked [simp]:
  "\<not> ft_linked m \<Longrightarrow> ftp_send t d m = (Inr (), m)"
  "\<not> ft_linked m \<Longrightarrow> ftp_send_response c txt m = (Inr (), m)"
  "\<not> ft_linked m \<Longrightarrow> respond msg c txt m w = (Inr (), m, w)"
  by (simp_all add: ftp_send_def ftp_send_response_def respond_def sent_def)

lemma ftp_send_all_unlinked [simp]: "\<not> ft_linked m \<Longrightarrow> ftp_send_all ms m = (Inr (), m)"
  by (induction ms) (auto simp: ftp_send_all.simps)

definition mute :: "ftp \<Rightarrow> bool" where
  "mute m \<longleftrightarrow> \<not> ft_linked m \<and> ft_sent m = []"

lemma mute_with_path:
  "mute m \<Longrightarrow> (\<And>t. mute (fst (snd (k t)))) \<Longrightarrow> mute (fst (snd (with_path m path w k)))"
  by (simp add: with_path_def split: option.split)

lemma mute_commands:
  assumes "mute m"
  shows "mute (fst (snd (cmd_pwd msg m w)))" "mute (fst (snd (cmd_cwd msg sys path m w)))"
    "mute (fst (snd (cmd_list msg sys path m w)))" "mute (fst (snd (cmd_retr msg sys path m w)))"
    "mute (fst (snd (cmd_stor msg path m w)))" "mute (fst (snd (cmd_mkd msg sys path m w)))"
    "mute (fst (snd (cmd_rmd msg sys path m w)))" "mute (fst (snd (cmd_dele msg sys path m w)))"
    "mute (fst (snd (cmd_size msg sys path m w)))"
proof -
  have u: "\<not> ft_linked m" "mute m" using assms by (simp_all add: mute_def)
  show "mute (fst (snd (cmd_pwd msg m w)))" using u by (simp add: cmd_pwd_def Let_def)
  show "mute (fst (snd (cmd_cwd msg sys path m w)))"
    using u by (simp add: cmd_cwd_def mute_def split: option.split)
  show "mute (fst (snd (cmd_list msg sys path m w)))"
    using u by (simp add: cmd_list_def sent_def split: option.split sum.split)
  show "mute (fst (snd (cmd_retr msg sys path m w)))"
    unfolding cmd_retr_def using u by (intro mute_with_path) (simp_all add: sent_def split: prod.split)
  show "mute (fst (snd (cmd_stor msg path m w)))"
    unfolding cmd_stor_def using u by (intro mute_with_path) (simp_all add: mute_def)
  show "mute (fst (snd (cmd_mkd msg sys path m w)))"
    unfolding cmd_mkd_def using u by (intro mute_with_path) (simp_all split: prod.split sum.split os_kind.split)
  show "mute (fst (snd (cmd_rmd msg sys path m w)))"
    unfolding cmd_rmd_def using u by (intro mute_with_path) (simp_all split: prod.split sum.split)
  show "mute (fst (snd (cmd_dele msg sys path m w)))"
    unfolding cmd_dele_def using u by (intro mute_with_path) (simp_all split: prod.split sum.split)
  show "mute (fst (snd (cmd_size msg sys path m w)))"
    unfolding cmd_size_def using u by (intro mute_with_path) (simp_all split: sum.split)
qed

lemma mute_run_command: "mute m \<Longrightarrow> mute (fst (snd (run_command msg sys cmd args m w)))"
proof -
  assume m: "mute m"
  then have "\<not> ft_linked m" "mute (m\<lparr>ft_done := True\<rparr>)" by (simp_all add: mute_def)
  then show ?thesis using m by (simp add: run_command_def mute_commands)
qed

lemma mute_settle [simp]: "mute (settle r m) = mute m"
  by (simp add: mute_def settle_def)

lemma mute_data_complete: "mute (fst s) \<Longrightarrow> mute (fst (data_complete sys s))"
  by (auto simp: data_complete_def mute_def split: bool.split option.split prod.split sum.split)

lemma mute_handle_ftp: "mute (fst s) \<Longrightarrow> mute (fst (snd (handle_ftp sys p s)))"
proof -
  assume m: "mute (fst s)"
  then have "mute (fst (data_complete sys ((fst s)\<lparr>ft_receiving := False\<rparr>, snd s)))"
    by (intro mute_data_complete) (simp add: mute_def)
  moreover have "mute ((fst s)\<lparr>ft_tasks := ts\<rparr>)" "mute ((fst s)\<lparr>ft_receiving := True, ft_data := d\<rparr>)"
    "mute ((fst s)\<lparr>ft_data := d\<rparr>)" for ts d
    using m by (simp_all add: mute_def)
  ultimately show ?thesis using m by (simp add: handle_ftp_def Let_def split: option.split)
qed

lemma mute_handle_command: "mute (fst s) \<Longrightarrow> mute (fst (handle_command msg sys payload s))"
proof -
  assume m: "mute (fst s)"
  have e: "mute (fst (snd r)) \<Longrightarrow> mute (fst (end_command r))" for r :: "'a handler_end"
    by (auto simp: end_command_def mute_def split: prod.split sum.split)
  have "mute (snd (ftp_send_response c t (fst s)))" for c t
    using m by (simp add: mute_def)
  then show ?thesis
    using m e [OF mute_run_command [OF m]] by (simp add: handle_command_def Let_def split: option.split)
qed

lemma mute_step: "mute (fst (snd s)) \<Longrightarrow> mute (fst (snd (ftp_event_step msg sys e s)))"
proof (cases e)
  case (Arrives c)
  assume "mute (fst (snd s))"
  then show ?thesis
    unfolding Arrives ftp_event_step.simps ftp_on_data_def
    by (intro feed_inv [where Q = "\<lambda>s. mute (fst s)"] mute_handle_ftp)
next
  case RunTask
  assume m: "mute (fst (snd s))"
  then have "mute ((fst (snd s))\<lparr>ft_tasks := ts\<rparr>)" for ts by (simp add: mute_def)
  then show ?thesis
    using m RunTask by (cases s) (auto simp: run_task_def mute_handle_command split: list.split)
next
  case Lost
  assume "mute (fst (snd s))"
  then have "mute ((fst (snd s))\<lparr>ft_done := True\<rparr>)" by (simp add: mute_def)
  then show ?thesis using Lost by (cases s) (simp add: ftp_lost_def)
qed

lemma mute_run: "mute (fst (snd s)) \<Longrightarrow> mute (fst (snd (ftp_run msg sys evs s)))"
  unfolding ftp_run_def by (induction evs arbitrary: s) (simp_all add: mute_step)

text \<open>
  C11. The server stays below its root: with two operating systems that agree on all paths which
  begin with the text of the root, whatever a client sends and however it is cut and scheduled, the
  server ends in the same state with the same replies sent and the same disk; so nothing it writes,
  and nothing it reads and answers, depends on or reaches any other path. This holds for the server as
  it runs, which keeps no protocol object and so sends nothing at all (the second part), and for a
  server that had kept it, whose replies to every command are compared.
\<close>

theorem ftp_stays_below_root:
  assumes "same_below root o1 o2" "plain_names o1"
  shows "ftp_run msg o1 evs ([], (new_ftp True root)\<lparr>ft_linked := linked\<rparr>, w)
      = ftp_run msg o2 evs ([], (new_ftp True root)\<lparr>ft_linked := linked\<rparr>, w)
    \<and> ft_sent (fst (snd (ftp_run msg o1 evs ([], new_ftp True root, w)))) = []"
proof -
  have "mute (fst (snd (ftp_run msg o1 evs ([], new_ftp True root, w))))"
    by (rule mute_run) (simp add: mute_def new_ftp_def)
  moreover have "ftp_inside root ((new_ftp True root)\<lparr>ft_linked := linked\<rparr>)"
    by (simp add: ftp_inside_def new_ftp_def)
  ultimately show ?thesis
    using ftp_run_confined [OF assms, of "([], (new_ftp True root)\<lparr>ft_linked := linked\<rparr>, w)" msg evs]
    by (simp add: mute_def)
qed

text \<open>Two operating systems, the second without anything outside of the root to read, list or write.\<close>

theorem ftp_stays_below_root_witness:
  "let jail = disk_os\<lparr>os_read := (\<lambda>w p. if startswith p ''/srv'' then disk_read w p else ([], None)),
                      os_stat := (\<lambda>w p. if startswith p ''/srv'' then os_stat disk_os w p else Inl (FileNotFound, [])),
                      os_write := (\<lambda>p d w. if startswith p ''/srv'' then disk_write p d w else (Inr (), []))\<rparr>;
       evs = [Arrives (ftp_bytes ftp_command (request_payload ''STOR'' ''../etc/x'')), RunTask,
              Arrives (ftp_bytes ftp_data_end []),
              Arrives (ftp_bytes ftp_command (request_payload ''RETR'' ''../etc/x'')), RunTask];
       server = (new_ftp True ''/srv'')\<lparr>ft_linked := True\<rparr>
   in ftp_run (\<lambda>_. []) disk_os evs ([], server, [(''/etc/x'', Plain [1])])
    = ftp_run (\<lambda>_. []) jail evs ([], server, [(''/etc/x'', Plain [1])])"
  unfolding Let_def
  by (rule ftp_stays_below_root [THEN conjunct1]) (simp_all add: same_below_def plain_names_def disk_os_def)

definition arrived :: "ftp_event list \<Rightarrow> bytes" where
  "arrived evs = concat (map (\<lambda>e. case e of Arrives c \<Rightarrow> c | _ \<Rightarrow> []) evs)"

text \<open>A client to which nothing arrives keeps waiting, unless the connection is lost.\<close>

lemma silent_client:
  assumes "arrived evs = []" "ft_tasks m = []" "\<forall>c t. ft_future m \<noteq> Some (Reply c t)"
  shows "\<exists>t. client_welcome (fst (snd (ftp_run msg sys evs ([], m, w)))) = Inl t"
  using assms
proof (induction evs arbitrary: m)
  case Nil
  then show ?case by (auto simp: ftp_run_def client_welcome_def split: option.split ftp_reply.split)
next
  case (Cons e evs)
  have n: "arrived evs = []" using Cons.prems(1) by (simp add: arrived_def)
  show ?case
  proof (cases e)
    case (Arrives c)
    then have "c = []" using Cons.prems(1) by (simp add: arrived_def)
    then show ?thesis
      using Cons.IH [OF n Cons.prems(2,3)] Arrives
      by (simp add: ftp_run_def ftp_on_data_def feed_def take_frames_Nil)
  next
    case RunTask
    then show ?thesis
      using Cons.IH [OF n Cons.prems(2,3)] Cons.prems(2) by (simp add: ftp_run_def run_task_def)
  next
    case Lost
    have "ft_tasks (ftp_lost m) = []" "\<forall>c t. ft_future (ftp_lost m) \<noteq> Some (Reply c t)"
      using Cons.prems by (auto simp: ftp_lost_def settle_def)
    then show ?thesis using Cons.IH [OF n] Lost by (simp add: ftp_run_def)
  qed
qed

text \<open>
  No FTP session ever starts: the server that \<^verbatim>\<open>run_server\<close> starts never learns the object it would
  send through, so it sends nothing, neither the welcome nor the response to any command, and a
  client to which no more arrives than the server sent fails with the wait for the welcome.
\<close>

theorem ftp_session_never_starts:
  assumes "server = fst (snd (ftp_run msg sys evs ([], run_ftp_server (new_ftp True root), w)))"
    and "arrived evs' = ft_sent server"
  shows "ft_sent server = []
    \<and> (\<exists>t. client_welcome (fst (snd (ftp_run msg csys evs' ([], run_ftp_client (new_ftp False home), w')))) = Inl t)"
proof -
  have "mute (run_ftp_server (new_ftp True root))"
    by (simp add: mute_def run_ftp_server_def new_ftp_def)
  then have "mute server"
    unfolding assms(1) by (intro mute_run) simp
  then have s: "ft_sent server = []" by (simp add: mute_def)
  then have a: "arrived evs' = []" using assms(2) by simp
  have "ft_tasks (run_ftp_client (new_ftp False home)) = []"
    "\<forall>c t. ft_future (run_ftp_client (new_ftp False home)) \<noteq> Some (Reply c t)"
    by (simp_all add: run_ftp_client_def new_ftp_def)
  then show ?thesis
    using s silent_client [OF a, where m = "run_ftp_client (new_ftp False home)"] by simp
qed

theorem ftp_session_never_starts_witness:
  "\<exists>t. client_welcome (fst (snd (ftp_run (\<lambda>_. []) disk_os [Lost] ([], run_ftp_client (new_ftp False ''/home''), []))))
    = Inl t"
  by (rule conjunct2 [OF ftp_session_never_starts [OF refl, where msg = "\<lambda>_. []" and sys = disk_os and evs = "[]"
      and root = "''/srv''" and w = "[]"]])
    (simp add: arrived_def ftp_run_def run_ftp_server_def new_ftp_def)

section \<open>A linked server and its client\<close>

definition sendable :: "nat \<times> bytes \<Rightarrow> bool" where
  "sendable p \<longleftrightarrow> fst p < 256 \<and> length (snd p) < 256 ^ 4"

definition wire :: "(nat \<times> bytes) list \<Rightarrow> bytes" where
  "wire ms = concat (map (\<lambda>p. ftp_bytes (fst p) (snd p)) ms)"

lemma ftp_frame_sendable:
  "sendable p \<Longrightarrow> ftp_frame \<lparr>fm_type = fst p, fm_data = snd p\<rparr> = Inr (ftp_bytes (fst p) (snd p))"
  by (simp add: ftp_frame_def fields_frame_def sendable_def ftp_bytes_def put_frame_def)

lemma ftp_send_all_linked:
  assumes "ft_linked m" "list_all sendable ms"
  shows "ftp_send_all ms m = (Inr (), m\<lparr>ft_sent := ft_sent m @ wire ms\<rparr>)"
  using assms
proof (induction ms arbitrary: m)
  case (Cons p ms)
  then show ?case
    using ftp_frame_sendable [of p]
    by (cases p) (simp add: ftp_send_all.simps ftp_send_def wire_def)
qed (simp add: ftp_send_all.simps wire_def)

lemma wire_frames: "list_all sendable ms \<Longrightarrow>
    list_all2 (\<lambda>p bs. ftp_frame p = Inr bs)
      (map (\<lambda>p. \<lparr>fm_type = fst p, fm_data = snd p\<rparr>) ms) (map (\<lambda>p. ftp_bytes (fst p) (snd p)) ms)"
  by (induction ms) (simp_all add: ftp_frame_sendable)

lemma group_at_most: "g \<in> set (groups k xs) \<Longrightarrow> length g \<le> k"
proof (induction k xs rule: groups.induct)
  case (1 k xs)
  show ?case
  proof (cases "k = 0 \<or> xs = []")
    case True
    then have "groups k xs = []" by (subst groups.simps) simp
    then show ?thesis using "1.prems" by simp
  next
    case False
    then have "groups k xs = take k xs # groups k (drop k xs)" by (subst groups.simps) simp
    then show ?thesis using 1 False by auto
  qed
qed

lemma groups_sendable: "t < 256 \<Longrightarrow> list_all sendable (map (Pair t) (groups 8192 d))"
  by (auto simp: list_all_iff sendable_def dest!: group_at_most)

text \<open>The first reply settles the future; nothing that follows changes it.\<close>

lemma settled_stays:
  assumes "ft_future (fst s) = Some r" "r \<noteq> Awaited"
  shows "ft_future (fst (snd (handle_ftp sys p s))) = Some r"
proof -
  have "ft_future (settle x m) = Some r" if "ft_future m = Some r" for x m
    using that assms(2) by (simp add: settle_def)
  moreover have "ft_future (fst (data_complete sys s')) = ft_future (fst s')" for s' :: "ftp \<times> 'a"
  proof -
    have "ft_future (snd (ftp_send_response c t m)) = ft_future m" for c t m
      using ftp_send_shape [of ftp_response "response_payload c t" m] by (auto simp: ftp_send_response_def)
    then show ?thesis
      by (simp add: data_complete_def split: bool.split option.split prod.split sum.split)
  qed
  ultimately show ?thesis using assms(1) by (simp add: handle_ftp_def Let_def split: option.split)
qed

text \<open>Messages that a client handles without an exception: what \<^verbatim>\<open>LIST\<close> and \<^verbatim>\<open>RETR\<close> answer.\<close>

definition start_reply :: "nat \<times> bytes" where
  "start_reply = (ftp_response, response_payload 150 ''Opening data connection'')"

definition end_reply :: "nat \<times> bytes" where
  "end_reply = (ftp_response, response_payload 226 ''Transfer complete'')"

definition transfer :: "bytes list \<Rightarrow> (nat \<times> bytes) list" where
  "transfer ds = (ftp_data_start, []) # map (Pair ftp_data) ds @ [(ftp_data_end, [])]"

definition fmsgs :: "(nat \<times> bytes) list \<Rightarrow> fmsg list" where
  "fmsgs ms = map (\<lambda>p. \<lparr>fm_type = fst p, fm_data = snd p\<rparr>) ms"

lemma ascii_text:
  "list_all (\<lambda>c. cp c < 128) s \<Longrightarrow> encode_utf8 s = lit s"
  by (intro encode_utf8_ascii) (simp add: list_all_iff)

lemma response_sendable: "length (encode_utf8 t) + 2 < 256 ^ 4 \<Longrightarrow> sendable (ftp_response, response_payload c t)"
  by (simp add: sendable_def response_payload_def ftp_response_def)

lemma replies_sendable: "sendable start_reply" "sendable end_reply"
proof -
  have "length (encode_utf8 ''Opening data connection'') = 23" "length (encode_utf8 ''Transfer complete'') = 17"
    by code_simp+
  then show "sendable start_reply" "sendable end_reply"
    unfolding start_reply_def end_reply_def by (intro response_sendable; simp)+
qed

lemma transfer_sendable: "(\<And>d. d \<in> set ds \<Longrightarrow> length d < 256 ^ 4) \<Longrightarrow> list_all sendable (transfer ds)"
  by (auto simp: transfer_def sendable_def ftp_types list_all_iff)

lemma handle_response_message:
  "c < 256 ^ 2 \<Longrightarrow> handle_ftp sys \<lparr>fm_type = ftp_response, fm_data = response_payload c t\<rparr> s
     = (True, settle (Reply c t) (fst s), snd s)"
  by (simp add: handle_ftp_def Let_def ftp_types response_payload_def)

lemma handle_replies:
  "handle_ftp sys \<lparr>fm_type = fst start_reply, fm_data = snd start_reply\<rparr> s
     = (True, settle (Reply 150 ''Opening data connection'') (fst s), snd s)"
  "handle_ftp sys \<lparr>fm_type = fst end_reply, fm_data = snd end_reply\<rparr> s
     = (True, settle (Reply 226 ''Transfer complete'') (fst s), snd s)"
  unfolding start_reply_def end_reply_def fst_conv snd_conv by (rule handle_response_message, simp)+

lemma transfer_types:
  "p \<in> set (fmsgs (transfer ds)) \<Longrightarrow> fm_type p = ftp_data_start \<or> fm_type p = ftp_data \<or> fm_type p = ftp_data_end"
  by (auto simp: fmsgs_def transfer_def)

lemma transfer_handled:
  assumes "p \<in> set (fmsgs (start_reply # transfer ds @ [end_reply]))"
  shows "fst (handle_ftp sys p s)"
proof -
  consider "p = \<lparr>fm_type = fst start_reply, fm_data = snd start_reply\<rparr>"
    | "p = \<lparr>fm_type = fst end_reply, fm_data = snd end_reply\<rparr>" | "p \<in> set (fmsgs (transfer ds))"
    using assms by (auto simp: fmsgs_def)
  then show ?thesis
  proof cases
    case 3
    then show ?thesis using transfer_types [OF 3] by (auto simp: handle_ftp_def Let_def ftp_types)
  qed (simp_all only: handle_replies fst_conv)
qed

text \<open>What the messages between the two responses do to a client, whose future they leave alone.\<close>

definition takes_part :: "fmsg \<Rightarrow> ftp \<Rightarrow> ftp" where
  "takes_part p m =
     (if fm_type p = ftp_data_start then m\<lparr>ft_receiving := True, ft_data := []\<rparr>
      else if fm_type p = ftp_data then (if ft_receiving m then m\<lparr>ft_data := ft_data m @ fm_data p\<rparr> else m)
      else m\<lparr>ft_receiving := False\<rparr>)"

lemma transfer_takes_part:
  assumes "p \<in> set (fmsgs (transfer ds))" "\<not> ft_server m"
  shows "snd (handle_ftp sys p (m, w)) = (takes_part p m, w)"
  using transfer_types [OF assms(1)]
proof (elim disjE)
  assume "fm_type p = ftp_data_end"
  then show ?thesis
    using assms(2) by (simp add: handle_ftp_def Let_def ftp_types takes_part_def data_complete_def)
qed (simp_all add: handle_ftp_def Let_def ftp_types takes_part_def)

lemma takes_part_simps [simp]:
  "ft_server (takes_part p m) = ft_server m" "ft_future (takes_part p m) = ft_future m"
  "takes_part p (m\<lparr>ft_future := r\<rparr>) = (takes_part p m)\<lparr>ft_future := r\<rparr>"
  by (simp_all add: takes_part_def)

lemma fold_takes_part:
  assumes "set ps \<subseteq> set (fmsgs (transfer ds))" "\<not> ft_server m"
  shows "fold (\<lambda>p s. snd (handle_ftp sys p s)) ps (m, w) = (fold takes_part ps m, w)"
  using assms
proof (induction ps arbitrary: m)
  case (Cons p ps)
  have "snd (handle_ftp sys p (m, w)) = (takes_part p m, w)"
    by (rule transfer_takes_part) (use Cons.prems in auto)
  then show ?case using Cons by simp
qed simp

lemma fold_takes_part_simps [simp]:
  "ft_server (fold takes_part ps m) = ft_server m" "ft_future (fold takes_part ps m) = ft_future m"
  "fold takes_part ps (m\<lparr>ft_future := r\<rparr>) = (fold takes_part ps m)\<lparr>ft_future := r\<rparr>"
  by (induction ps arbitrary: m) simp_all

lemma fold_takes_pieces:
  "ft_receiving m \<Longrightarrow> ft_data (fold takes_part (fmsgs (map (Pair ftp_data) ds)) m) = ft_data m @ concat ds
     \<and> ft_receiving (fold takes_part (fmsgs (map (Pair ftp_data) ds)) m)"
  by (induction ds arbitrary: m) (simp_all add: fmsgs_def takes_part_def ftp_types)

lemma fold_takes_transfer: "ft_data (fold takes_part (fmsgs (transfer ds)) m) = concat ds"
  using fold_takes_pieces [of "m\<lparr>ft_receiving := True, ft_data := []\<rparr>" ds]
  by (simp add: transfer_def fmsgs_def) (simp add: takes_part_def ftp_types)

text \<open>
  The messages of a transfer in two parts, for a client that awaits a reply: after the first it has
  the first reply, unless nothing was complete; only what is left decides the second one.
\<close>

lemma transfer_messages:
  assumes "\<not> ft_server m" "ft_future m = Some Awaited" "ms = start_reply # transfer ds @ [end_reply]"
    and "k \<le> length ms" "fold (\<lambda>p s. snd (handle_ftp sys p s)) (take k (fmsgs ms)) (m, w) = (m1, w1)"
    and "ft_future m1 \<noteq> Some Awaited"
    and "fold (\<lambda>p s. snd (handle_ftp sys p s)) (drop k (fmsgs ms)) (m1\<lparr>ft_future := Some Awaited\<rparr>, w1) = (m2, w2)"
  shows "w1 = w \<and> w2 = w \<and> ft_future m1 = Some (Reply 150 ''Opening data connection'')
    \<and> ft_future m2 = Some (if k = length ms then Awaited else Reply 226 ''Transfer complete'')
    \<and> (k < length ms \<longrightarrow> ft_data m2 = concat ds)"
proof -
  let ?h = "\<lambda>p s. snd (handle_ftp sys p s)" and ?T = "fmsgs (transfer ds)"
  let ?s = "\<lparr>fm_type = fst start_reply, fm_data = snd start_reply\<rparr>"
  let ?e = "\<lparr>fm_type = fst end_reply, fm_data = snd end_reply\<rparr>"
  let ?r = "Reply 150 ''Opening data connection''"
  have f: "fmsgs ms = ?s # ?T @ [?e]" "length ms = length ?T + 2" using assms(3) by (simp_all add: fmsgs_def)
  have "k \<noteq> 0" using assms(2,5,6) by (cases k) auto
  then obtain j where j: "k = Suc j" by (cases k) auto
  let ?m = "m\<lparr>ft_future := Some ?r\<rparr>"
  have s: "?h ?s (m, w) = (?m, w)" using assms(2) by (simp add: handle_replies settle_def)
  show ?thesis
  proof (cases "j \<le> length ?T")
    case True
    have "fold ?h (take j ?T) (?m, w) = (fold takes_part (take j ?T) ?m, w)"
      by (rule fold_takes_part) (use assms(1) in \<open>auto dest: in_set_takeD\<close>)
    then have m1: "m1 = fold takes_part (take j ?T) ?m" "w1 = w"
      using assms(5) s f j True by simp_all
    have "fold ?h (drop j ?T) (m1\<lparr>ft_future := Some Awaited\<rparr>, w)
        = (fold takes_part (drop j ?T) (m1\<lparr>ft_future := Some Awaited\<rparr>), w)"
      by (rule fold_takes_part) (use assms(1) m1 in \<open>auto dest: in_set_dropD\<close>)
    moreover have "?h ?e (n\<lparr>ft_future := Some Awaited\<rparr>, w)
        = (n\<lparr>ft_future := Some (Reply 226 ''Transfer complete'')\<rparr>, w)" for n
      by (simp add: handle_replies settle_def)
    ultimately have m2: "m2 = (fold takes_part (drop j ?T) m1)\<lparr>ft_future := Some (Reply 226 ''Transfer complete'')\<rparr>"
        "w2 = w"
      using assms(7) f j True m1(2) by simp_all
    have "fold takes_part (drop j ?T) m1 = fold takes_part ?T ?m"
      using m1(1) fold_append [of takes_part "take j ?T" "drop j ?T"] by (simp add: append_take_drop_id)
    then have "ft_data m2 = concat ds" using m2 fold_takes_transfer by simp
    then show ?thesis using m1 m2 f j True by simp
  next
    case False
    then have j: "j = length ?T + 1" using assms(4) f j by simp
    have t: "fold ?h ?T (?m, w) = (fold takes_part ?T ?m, w)"
      by (rule fold_takes_part) (use assms(1) in auto)
    have "?h ?e (fold takes_part ?T ?m, w) = (fold takes_part ?T ?m, w)"
      by (simp add: handle_replies settle_def)
    then have m1: "m1 = fold takes_part ?T ?m" "w1 = w"
      using assms(5) s t f j \<open>k = Suc j\<close> by simp_all
    then have "m2 = m1\<lparr>ft_future := Some Awaited\<rparr>" "w2 = w" using assms(7) f j \<open>k = Suc j\<close> by simp_all
    then show ?thesis using m1 f j \<open>k = Suc j\<close> by simp
  qed
qed

text \<open>What the server answers, when it is linked.\<close>

lemma wire_append: "wire (xs @ ys) = wire xs @ wire ys"
  by (simp add: wire_def)

lemma handle_request:
  assumes "list_all (\<lambda>c. cp c < 128) cmd" "length cmd < 256" "py_upper cmd = cmd"
  shows "handle_command msg sys (request_payload cmd args) (m, w) = end_command (run_command msg sys cmd args m w)"
proof -
  have "encode_utf8 cmd = lit cmd" by (rule ascii_text [OF assms(1)])
  moreover have "decode_utf8 (lit cmd) = Some cmd" using ascii_text [OF assms(1)] decode_encode_utf8 [of cmd] by simp
  ultimately show ?thesis
    using assms(2,3) by (simp add: handle_command_def request_payload_def unat_of_nat)
qed

lemma retr_sends:
  assumes "ft_linked m" "ftp_resolve m remote = Some t" "os_isfile sys w t" "os_read sys w t = (d, None)"
  shows "handle_command msg sys (request_payload ''RETR'' remote) (m, w)
    = (m\<lparr>ft_sent := ft_sent m @ wire (start_reply # transfer (groups 8192 d) @ [end_reply])\<rparr>, w)"
proof -
  let ?ms = "start_reply # transfer (groups 8192 d) @ [end_reply]"
  have "list_all sendable ?ms"
    using replies_sendable by (auto intro!: transfer_sendable dest!: group_at_most)
  then have "ftp_send_all ?ms m = (Inr (), m\<lparr>ft_sent := ft_sent m @ wire ?ms\<rparr>)"
    using assms(1) by (rule ftp_send_all_linked [rotated])
  then have "cmd_retr msg sys remote m w = (Inr (), m\<lparr>ft_sent := ft_sent m @ wire ?ms\<rparr>, w)"
    using assms(2-4) by (simp add: cmd_retr_def with_path_def sent_def start_reply_def end_reply_def transfer_def)
  moreover have "py_upper ''RETR'' = ''RETR''" by code_simp
  ultimately show ?thesis
    by (subst handle_request) (simp_all add: run_command_def end_command_def cp_def)
qed

lemma list_sends:
  assumes "ft_linked m" "(if path = [] then Some (ft_cwd m) else ftp_resolve m path) = Some t"
    and "os_isdir sys w t" "os_listdir sys w t = Inr names"
    and "d = encode_utf8 (json_dumps None (JList (list_entries sys w t names)))" "length d < 256 ^ 4"
  shows "handle_command msg sys (request_payload ''LIST'' path) (m, w)
    = (m\<lparr>ft_sent := ft_sent m @ wire (start_reply # transfer [d] @ [end_reply])\<rparr>, w)"
proof -
  let ?ms = "start_reply # transfer [d] @ [end_reply]"
  have "list_all sendable ?ms"
    using replies_sendable assms(6) by (auto intro!: transfer_sendable)
  then have "ftp_send_all ?ms m = (Inr (), m\<lparr>ft_sent := ft_sent m @ wire ?ms\<rparr>)"
    using assms(1) by (rule ftp_send_all_linked [rotated])
  then have "cmd_list msg sys path m w = (Inr (), m\<lparr>ft_sent := ft_sent m @ wire ?ms\<rparr>, w)"
    unfolding cmd_list_def assms(2) using assms(3-5)
    by (simp add: sent_def start_reply_def end_reply_def transfer_def)
  moreover have "py_upper ''LIST'' = ''LIST''" by code_simp
  ultimately show ?thesis
    by (subst handle_request) (simp_all add: run_command_def end_command_def cp_def)
qed

text \<open>A client that receives such an answer in pieces, and waits for its first reply somewhere in between.\<close>

lemma answer_received:
  assumes "list_all sendable (transfer ds)" "\<not> ft_server c" "ft_future c = Some Awaited"
    and "concat cs1 @ concat cs2 = wire (start_reply # transfer ds @ [end_reply])"
    and "fold (ftp_on_data sys) cs1 ([], c, w) = (b1, c1, w1)" "ft_future c1 \<noteq> Some Awaited"
    and "fold (ftp_on_data sys) cs2 (b1, c1\<lparr>ft_future := Some Awaited\<rparr>, w1) = (b2, c2, w2)"
  shows "w1 = w \<and> w2 = w \<and> ft_future c1 = Some (Reply 150 ''Opening data connection'')
    \<and> ft_future c2 = Some (if concat cs2 = [] then Awaited else Reply 226 ''Transfer complete'')
    \<and> (concat cs2 \<noteq> [] \<longrightarrow> ft_data c2 = concat ds)"
proof -
  let ?ms = "start_reply # transfer ds @ [end_reply]"
  have "list_all sendable ?ms" using assms(1) replies_sendable by simp
  note fr = wire_frames [OF this]
  have cat: "concat cs1 @ concat cs2 = concat (map (\<lambda>p. ftp_bytes (fst p) (snd p)) ?ms)"
    using assms(4) by (simp add: wire_def)
  have h: "fst (handle_ftp sys p s)" if "p \<in> set (map (\<lambda>p. \<lparr>fm_type = fst p, fm_data = snd p\<rparr>) ?ms)" for p s
    by (rule transfer_handled) (use that in \<open>simp add: fmsgs_def\<close>)
  obtain k buf where k: "k \<le> length (fmsgs ?ms)" "k = length (fmsgs ?ms) \<longleftrightarrow> concat cs2 = []"
    "fold (ftp_on_data sys) cs1 ([], c, w) = (buf, fold (\<lambda>p s. snd (handle_ftp sys p s)) (take k (fmsgs ?ms)) (c, w))"
    "\<forall>s. fold (ftp_on_data sys) cs2 (buf, s) = ([], fold (\<lambda>p s. snd (handle_ftp sys p s)) (drop k (fmsgs ?ms)) s)"
    using ftp_format.messages_cut [OF fr cat, of "handle_ftp sys" "(c, w)"] h
    unfolding ftp_on_data_def fmsgs_def by blast
  have l: "length (fmsgs ?ms) = length ?ms" by (simp add: fmsgs_def)
  have "fold (\<lambda>p s. snd (handle_ftp sys p s)) (take k (fmsgs ?ms)) (c, w) = (c1, w1)" "buf = b1"
    using k(3) assms(5) by simp_all
  moreover have "fold (\<lambda>p s. snd (handle_ftp sys p s)) (drop k (fmsgs ?ms)) (c1\<lparr>ft_future := Some Awaited\<rparr>, w1) = (c2, w2)"
    using k(4) assms(7) calculation(2) by simp
  ultimately show ?thesis
    using transfer_messages [OF assms(2,3) refl, of k ds sys w c1 w1 c2 w2] assms(6) k(1,2) l by auto
qed

lemma settled_fold:
  "ft_future (fst s) = Some r \<Longrightarrow> r \<noteq> Awaited \<Longrightarrow>
     ft_future (fst (fold (\<lambda>p s. snd (handle_ftp sys p s)) ps s)) = Some r"
  by (induction ps arbitrary: s) (simp_all add: settled_stays)

lemma answer_arrives:
  assumes "list_all sendable (transfer ds)" "ft_future c = Some Awaited"
  shows "ft_future (fst (snd (ftp_on_data sys (wire (start_reply # transfer ds @ [end_reply])) ([], c, w))))
    = Some (Reply 150 ''Opening data connection'')"
proof -
  let ?ms = "start_reply # transfer ds @ [end_reply]"
  have "list_all sendable ?ms" using assms(1) replies_sendable by simp
  note fr = wire_frames [OF this]
  have h: "fst (handle_ftp sys p s)" if "p \<in> set (map (\<lambda>p. \<lparr>fm_type = fst p, fm_data = snd p\<rparr>) ?ms)" for p s
    by (rule transfer_handled) (use that in \<open>simp add: fmsgs_def\<close>)
  have "ftp_on_data sys (wire ?ms) ([], c, w)
      = ([], fold (\<lambda>p s. snd (handle_ftp sys p s)) (map (\<lambda>p. \<lparr>fm_type = fst p, fm_data = snd p\<rparr>) ?ms) (c, w))"
    using ftp_format.messages_handled [OF fr, of "[wire ?ms]" "handle_ftp sys" "(c, w)"] h
    by (simp add: ftp_on_data_def wire_def)
  moreover have "ft_future (fst (fold (\<lambda>p s. snd (handle_ftp sys p s)) ps
      (snd (handle_ftp sys \<lparr>fm_type = fst start_reply, fm_data = snd start_reply\<rparr> (c, w)))))
      = Some (Reply 150 ''Opening data connection'')" for ps
    by (rule settled_fold) (simp_all add: handle_replies settle_def assms(2))
  note k = this
  have "map (\<lambda>p. \<lparr>fm_type = fst p, fm_data = snd p\<rparr>) ?ms
      = \<lparr>fm_type = fst start_reply, fm_data = snd start_reply\<rparr>
        # map (\<lambda>p. \<lparr>fm_type = fst p, fm_data = snd p\<rparr>) (transfer ds @ [end_reply])"
    by simp
  with calculation show ?thesis by (simp only: fst_conv snd_conv fold_simps k)
qed

text \<open>
  A listing is never shown: the client takes the first response for the end of the command, so
  \<^verbatim>\<open>ls\<close> of a directory that the server lists ends with code 150, whatever has arrived by then, and
  not with the 226 for which the command line prints the files.
\<close>

theorem listing_never_shown:
  assumes "ft_linked m" "ft_sent m = []"
    and "(if path = [] then Some (ft_cwd m) else ftp_resolve m path) = Some t"
    and "os_isdir sys w t" "os_listdir sys w t = Inr names"
    and "length (encode_utf8 (json_dumps None (JList (list_entries sys w t names)))) < 256 ^ 4"
    and "\<not> ft_server c0" "c = snd (send_command ''LIST'' path c0)"
    and "concat cs1 @ concat cs2 = ft_sent (fst (handle_command msg sys (request_payload ''LIST'' path) (m, w)))"
    and "fold (ftp_on_data csys) cs1 ([], c, v) = (b1, c1, v1)" "ft_future c1 \<noteq> Some Awaited"
  shows "command_result c1 = Inr (150, ''Opening data connection'')"
proof -
  let ?d = "encode_utf8 (json_dumps None (JList (list_entries sys w t names)))"
  have o: "concat cs1 @ concat cs2 = wire (start_reply # transfer [?d] @ [end_reply])"
    using assms(9) list_sends [OF assms(1,3-5) refl assms(6), of msg] assms(2) by simp
  have t: "list_all sendable (transfer [?d])" using assms(6) by (intro transfer_sendable) simp
  have c: "\<not> ft_server c" "ft_future c = Some Awaited"
    using assms(7,8) ftp_send_keeps(1) [of ft_server] ftp_send_keeps(1) [of ft_future]
    by (auto simp: send_command_def Let_def)
  obtain b2 c2 v2 where f: "fold (ftp_on_data csys) cs2 (b1, c1\<lparr>ft_future := Some Awaited\<rparr>, v1) = (b2, c2, v2)"
    by (metis prod.exhaust)
  show ?thesis
    using answer_received [OF t c o assms(10,11) f] by (simp add: command_result_def await_reply_def)
qed

theorem listing_never_shown_witness:
  "let sys = disk_os\<lparr>os_listdir := \<lambda>_ _. Inr []\<rparr>; m = (new_ftp True ''/srv'')\<lparr>ft_linked := True\<rparr>;
       out = ft_sent (fst (handle_command (\<lambda>_. []) sys (request_payload ''LIST'' []) (m, [(''/srv'', Folder)])));
       c = snd (send_command ''LIST'' [] (new_ftp False ''/home''))
   in command_result (fst (snd (ftp_on_data disk_os out ([], c, [])))) = Inr (150, ''Opening data connection'')"
proof -
  let ?sys = "disk_os\<lparr>os_listdir := \<lambda>_ _. Inr []\<rparr>" and ?m = "(new_ftp True ''/srv'')\<lparr>ft_linked := True\<rparr>"
  let ?h = "handle_command (\<lambda>_. []) ?sys (request_payload ''LIST'' []) (?m, [(''/srv'', Folder)])"
  let ?c = "snd (send_command ''LIST'' [] (new_ftp False ''/home''))"
  obtain b1 c1 v1 where f: "ftp_on_data disk_os (ft_sent (fst ?h)) ([], ?c, []) = (b1, c1, v1)"
    by (metis prod.exhaust)
  have j: "encode_utf8 (json_dumps None (JList [])) = [91, 93]" by code_simp
  have h: "ft_sent (fst ?h) = wire (start_reply # transfer [encode_utf8 (json_dumps None (JList []))] @ [end_reply])"
    by (subst list_sends [where t = "''/srv''" and names = "[]", OF _ _ _ _ refl])
      (simp_all add: new_ftp_def disk_os_def j)
  have c: "ft_future ?c = Some Awaited"
    by (simp add: send_command_def Let_def new_ftp_def)
  have t: "list_all sendable (transfer [encode_utf8 (json_dumps None (JList []))])"
    by (rule transfer_sendable) (simp add: j)
  have "ft_future c1 = Some (Reply 150 ''Opening data connection'')"
    using answer_arrives [OF t c, of disk_os "[]"] f h by simp
  then have "command_result c1 = Inr (150, ''Opening data connection'')"
    by (intro listing_never_shown [where ?cs1.0 = "[ft_sent (fst ?h)]" and ?cs2.0 = "[]" and path = "[]" and m = ?m and sys = ?sys
        and w = "[(''/srv'', Folder)]" and msg = "\<lambda>_. []" and t = "''/srv''" and names = "[]" and csys = disk_os
        and ?c0.0 = "new_ftp False ''/home''" and v = "[]" and ?b1.0 = b1 and ?v1.0 = v1])
      (use f in \<open>simp_all add: new_ftp_def disk_os_def j\<close>)
  then show ?thesis using f by (simp add: Let_def)
qed

text \<open>
  A download of a file from a linked server: the client writes exactly the bytes of the file and
  reports 226, if the last of the answer arrives after the client has seen the first response; if
  everything arrived by then, which a fast link does with a small file, it waits for a response that
  has been dropped, reports 421 and writes nothing.
\<close>

theorem download_outcome:
  assumes "ft_linked m" "ft_sent m = []" "ftp_resolve m remote = Some t" "os_isfile sys w t"
    and "os_read sys w t = (d, None)" "\<not> ft_server c0" "c = snd (download_request remote c0)"
    and "concat cs1 @ concat cs2 = ft_sent (fst (handle_command msg sys (request_payload ''RETR'' remote) (m, w)))"
    and "fold (ftp_on_data csys) cs1 ([], c, v) = (b1, c1, v1)" "ft_future c1 \<noteq> Some Awaited"
    and "fold (ftp_on_data csys) cs2 (b1, snd (download_wait c1), v1) = (b2, c2, v2)"
  shows "download_result csys local c2 v2 =
    (if concat cs2 = [] then (Inr (421, ''Transfer timed out''), v)
     else (case os_write csys local d v of
         (Inr _, v') \<Rightarrow> (Inr (226, ''Downloaded '' @ show_nat (length d) @ '' bytes''), v')
       | (Inl e, v') \<Rightarrow> (Inr (550, snd e), v')))"
proof -
  have o: "concat cs1 @ concat cs2 = wire (start_reply # transfer (groups 8192 d) @ [end_reply])"
    using assms(8) retr_sends [OF assms(1,3-5), of msg] assms(2) by simp
  have t: "list_all sendable (transfer (groups 8192 d))"
    by (rule transfer_sendable) (auto dest!: group_at_most)
  have c: "\<not> ft_server c" "ft_future c = Some Awaited"
    using assms(6,7) ftp_send_keeps(1) [of ft_server] ftp_send_keeps(1) [of ft_future]
    by (auto simp: download_request_def)
  obtain b' c' v' where f: "fold (ftp_on_data csys) cs2 (b1, c1\<lparr>ft_future := Some Awaited\<rparr>, v1) = (b', c', v')"
    by (metis prod.exhaust)
  note a = answer_received [OF t c o assms(9,10) f]
  have "snd (download_wait c1) = c1\<lparr>ft_future := Some Awaited\<rparr>"
    using a by (simp add: download_wait_def await_reply_def)
  then have "c' = c2" "v' = v2" using f assms(11) by simp_all
  then show ?thesis
    using a concat_groups [of 8192 d] by (auto simp: download_result_def await_reply_def simp del: concat_eq_Nil_conv)
qed

theorem download_outcome_witness:
  "let m = (new_ftp True ''/srv'')\<lparr>ft_linked := True\<rparr>;
       out = ft_sent (fst (handle_command (\<lambda>_. []) disk_os (request_payload ''RETR'' ''a'') (m, [(''/srv/a'', Plain [7])])));
       c = snd (download_request ''a'' (new_ftp False ''/home''));
       c1 = fst (snd (ftp_on_data disk_os out ([], c, [])))
   in download_result disk_os ''/home/a'' (snd (download_wait c1)) [] = (Inr (421, ''Transfer timed out''), [])"
proof -
  let ?m = "(new_ftp True ''/srv'')\<lparr>ft_linked := True\<rparr>"
  let ?h = "handle_command (\<lambda>_. []) disk_os (request_payload ''RETR'' ''a'') (?m, [(''/srv/a'', Plain [7])])"
  let ?c = "snd (download_request ''a'' (new_ftp False ''/home''))"
  have p: "ftp_resolve ?m ''a'' = Some ''/srv/a''" by code_simp
  have o: "os_isfile disk_os [(''/srv/a'', Plain [7])] ''/srv/a''"
    "os_read disk_os [(''/srv/a'', Plain [7])] ''/srv/a'' = ([7], None)"
    by (simp_all add: disk_os_def disk_read_def)
  have l: "ft_linked ?m" by simp
  have h: "ft_sent (fst ?h) = wire (start_reply # transfer (groups 8192 [7]) @ [end_reply])"
    by (subst retr_sends [OF l p o]) (simp add: new_ftp_def)
  have c: "ft_future ?c = Some Awaited" by (simp add: download_request_def new_ftp_def)
  obtain b1 c1 v1 where f: "ftp_on_data disk_os (ft_sent (fst ?h)) ([], ?c, []) = (b1, c1, v1)"
    by (metis prod.exhaust)
  have t: "list_all sendable (transfer (groups 8192 [7]))"
    by (rule transfer_sendable) (auto dest!: group_at_most)
  have "ft_future c1 = Some (Reply 150 ''Opening data connection'')"
    using answer_arrives [OF t c, of disk_os "[]"] f h by simp
  then have "download_result disk_os ''/home/a'' (snd (download_wait c1)) v1 = (Inr (421, ''Transfer timed out''), [])"
    using download_outcome [OF l _ p o, where ?cs1.0 = "[ft_sent (fst ?h)]" and ?cs2.0 = "[]" and msg = "\<lambda>_. []"
        and ?c0.0 = "new_ftp False ''/home''" and c = ?c and csys = disk_os and v = "[]" and ?b1.0 = b1 and ?c1.0 = c1
        and ?v1.0 = v1 and local = "''/home/a''" and ?b2.0 = b1 and ?c2.0 = "snd (download_wait c1)" and ?v2.0 = v1] f
    by (simp add: new_ftp_def)
  moreover have "v1 = []"
    using calculation by (auto simp: download_result_def split: sum.splits prod.splits if_splits)
  ultimately show ?thesis using f by (simp add: Let_def)
qed

section \<open>Uploads\<close>

lemma server_takes_part:
  "fm_type p = ftp_data_start \<or> fm_type p = ftp_data \<Longrightarrow> handle_ftp sys p (m, w) = (True, takes_part p m, w)"
  by (elim disjE) (simp_all add: handle_ftp_def Let_def ftp_types takes_part_def)

lemma server_takes_parts:
  "\<forall>p \<in> set ps. fm_type p = ftp_data_start \<or> fm_type p = ftp_data \<Longrightarrow>
     fold (\<lambda>p s. snd (handle_ftp sys p s)) ps (m, w) = (fold takes_part ps m, w)"
  by (induction ps arbitrary: m) (simp_all add: server_takes_part)

lemma takes_part_target [simp]:
  "ft_target (takes_part p m) = ft_target m" "ft_target (fold takes_part ps m) = ft_target m"
proof -
  show "ft_target (takes_part p m) = ft_target m" for p m by (simp add: takes_part_def)
  then show "ft_target (fold takes_part ps m) = ft_target m" by (induction ps arbitrary: m) simp_all
qed

lemma upload_sends:
  assumes "ft_linked c" "ft_future c = Some (Reply 150 t)" "os_read sys v local = (d, None)"
  shows "ft_sent (snd (upload_data sys v local c)) = ft_sent c @ wire (transfer (groups 8192 d))"
proof -
  have "list_all sendable (transfer (groups 8192 d))"
    by (rule transfer_sendable) (auto dest!: group_at_most)
  then have "ftp_send_all (transfer (groups 8192 d)) c = (Inr (), c\<lparr>ft_sent := ft_sent c @ wire (transfer (groups 8192 d))\<rparr>)"
    using assms(1) by (rule ftp_send_all_linked [rotated])
  then show ?thesis using assms(2,3) by (simp add: upload_data_def await_reply_def transfer_def)
qed

lemma stor_answer:
  assumes "ftp_resolve m remote = Some t"
  shows "\<exists>m1. handle_command msg sys (request_payload ''STOR'' remote) (m, w) = (m1, w)
    \<and> ft_target m1 = Some t \<and> ft_server m1 = ft_server m"
proof -
  have "length (encode_utf8 ''Ready to receive data'') = 21" by code_simp
  then have "sendable (ftp_response, response_payload 150 ''Ready to receive data'')"
    by (intro response_sendable) simp
  then have "fst (ftp_send_response 150 ''Ready to receive data'' m) = Inr ()"
    using ftp_frame_sendable by (fastforce simp: ftp_send_response_def ftp_send_def)
  then have "cmd_stor msg remote m w = (Inr (), (snd (ftp_send_response 150 ''Ready to receive data'' m))
      \<lparr>ft_receiving := True, ft_data := [], ft_target := Some t\<rparr>, w)"
    using assms by (simp add: cmd_stor_def with_path_def respond_eq)
  moreover have "py_upper ''STOR'' = ''STOR''" by code_simp
  moreover have "ft_server (snd (ftp_send_response 150 ''Ready to receive data'' m)) = ft_server m"
    by (rule ftp_send_keeps(2)) simp
  ultimately show ?thesis
    by (subst handle_request) (simp_all add: run_command_def end_command_def cp_def)
qed

text \<open>
  An upload arrives: when the server has answered \<^verbatim>\<open>STOR\<close> and the client then sends its file,
  the server writes exactly the bytes of the local file to the path of the request, once, however
  the stream is cut; a system that keeps files returns them to the next reader.
\<close>

theorem upload_stores_file:
  assumes "ft_server m" "ftp_resolve m remote = Some t"
    and "handle_command msg sys (request_payload ''STOR'' remote) (m, w) = (m1, w1)"
    and "ft_linked c" "ft_sent c = []" "ft_future c = Some (Reply 150 reply)" "os_read csys v local = (d, None)"
    and "concat cs = ft_sent (snd (upload_data csys v local c))"
    and "fold (ftp_on_data sys) cs ([], m1, w1) = (b, m2, w2)"
  shows "b = [] \<and> ft_target m2 = None \<and> w2 = snd (os_write sys t d w)
    \<and> (keeps_files sys \<and> fst (os_write sys t d w) = Inr () \<longrightarrow> os_read sys w2 t = (d, None))"
proof -
  have "list_all sendable (transfer (groups 8192 d))"
    by (rule transfer_sendable) (auto dest!: group_at_most)
  note fr = wire_frames [OF this]
  have cat: "concat cs = concat (map (\<lambda>p. ftp_bytes (fst p) (snd p)) (transfer (groups 8192 d)))"
    using assms(8) upload_sends [OF assms(4,6,7)] assms(5) by (simp add: wire_def)
  let ?ps = "map (\<lambda>p. \<lparr>fm_type = fst p, fm_data = snd p\<rparr>) ((ftp_data_start, []) # map (Pair ftp_data) (groups 8192 d))"
  let ?e = "\<lparr>fm_type = ftp_data_end, fm_data = []\<rparr>"
  have e: "fst (handle_ftp sys ?e s)" for s by (simp add: handle_ftp_def Let_def ftp_types)
  have ps: "\<forall>p \<in> set ?ps. fm_type p = ftp_data_start \<or> fm_type p = ftp_data" by auto
  have ok: "fst (handle_ftp sys p s)" if "p \<in> set (?ps @ [?e])" for p s
    using that ps e by (cases s) (auto simp: server_takes_part)
  have "fold (ftp_on_data sys) cs ([], m1, w1) = ([], fold (\<lambda>p s. snd (handle_ftp sys p s)) (?ps @ [?e]) (m1, w1))"
    unfolding ftp_on_data_def using ftp_format.messages_handled [OF fr cat, of "handle_ftp sys" "(m1, w1)"] ok
    by (simp add: transfer_def)
  also have "fold (\<lambda>p s. snd (handle_ftp sys p s)) (?ps @ [?e]) (m1, w1)
      = snd (handle_ftp sys ?e (fold takes_part ?ps m1, w1))"
    by (simp only: fold_append o_apply server_takes_parts [OF ps] fold.simps id_apply)
  also have "\<dots> = data_complete sys ((fold takes_part ?ps m1)\<lparr>ft_receiving := False\<rparr>, w1)"
    by (simp add: handle_ftp_def Let_def ftp_types)
  finally have r: "b = []" "(m2, w2) = data_complete sys ((fold takes_part ?ps m1)\<lparr>ft_receiving := False\<rparr>, w1)"
    using assms(9) by simp_all
  have m1: "ft_server m1" "ft_target m1 = Some t" "w1 = w"
    using stor_answer [OF assms(2), of msg sys w] assms(1,3) by auto
  let ?n = "(fold takes_part ?ps m1)\<lparr>ft_receiving := False\<rparr>"
  have n: "ft_server ?n" "ft_target ?n = Some t" using m1 by simp_all
  have "ft_data ?n = d"
  proof -
    have "ft_data (fold takes_part ?ps m1) = d"
      using fold_takes_pieces [of "m1\<lparr>ft_receiving := True, ft_data := []\<rparr>" "groups 8192 d"]
        concat_groups [of 8192 d]
      by (simp add: takes_part_def ftp_data_start_def fmsgs_def)
    then show ?thesis by simp
  qed
  with n have "data_complete sys (?n, w) =
      (case os_write sys t d w of
         (Inr _, w') \<Rightarrow> ((snd (ftp_send_response 226 ''Transfer complete'' ?n))\<lparr>ft_target := None\<rparr>, w')
       | (Inl e, w') \<Rightarrow> ((snd (ftp_send_response 550 (snd e) ?n))\<lparr>ft_target := None\<rparr>, w'))"
    unfolding data_complete_def fst_conv snd_conv n by simp
  then have "ft_target m2 = None \<and> w2 = snd (os_write sys t d w)"
    using r(2) m1(3) by (auto split: prod.splits sum.splits)
  then show ?thesis
    using r(1) by (cases "os_write sys t d w") (auto simp: keeps_files_def)
qed

theorem upload_stores_file_witness:
  "let c = (new_ftp False ''/home'')\<lparr>ft_linked := True, ft_future := Some (Reply 150 [])\<rparr>;
       out = ft_sent (snd (upload_data disk_os [(''/b'', Plain [7])] ''/b'' c));
       s = handle_command (\<lambda>_. []) disk_os (request_payload ''STOR'' ''a'') (new_ftp True ''/srv'', [])
   in os_read disk_os (snd (snd (ftp_on_data disk_os out ([], s)))) ''/srv/a'' = ([7], None)"
proof -
  let ?c = "(new_ftp False ''/home'')\<lparr>ft_linked := True, ft_future := Some (Reply 150 [])\<rparr>"
  let ?s = "handle_command (\<lambda>_. []) disk_os (request_payload ''STOR'' ''a'') (new_ftp True ''/srv'', [])"
  let ?out = "ft_sent (snd (upload_data disk_os [(''/b'', Plain [7])] ''/b'' ?c))"
  have p: "ftp_resolve (new_ftp True ''/srv'') ''a'' = Some ''/srv/a''" by code_simp
  obtain m1 w1 where s: "?s = (m1, w1)" by fastforce
  obtain b m2 w2 where f: "ftp_on_data disk_os ?out ([], m1, w1) = (b, m2, w2)" by (metis prod.exhaust)
  have "os_read disk_os w2 ''/srv/a'' = ([7], None)"
    using upload_stores_file [OF _ p s, where c = ?c and csys = disk_os and v = "[(''/b'', Plain [7])]" and local = "''/b''"
        and d = "[7]" and reply = "[]" and cs = "[?out]" and b = b and ?m2.0 = m2 and ?w2.0 = w2] f disk_keeps_files
    by (simp add: new_ftp_def disk_os_def disk_read_def disk_write_def)
  then show ?thesis using s f by (simp add: Let_def)
qed

end
