(* ===== verification/Mount.thy ===== *)
theory Mount
  imports Framing Os_Files Json_Text Py_Base
begin

text \<open>
  \<^verbatim>\<open>src/wh/cli/mount.py\<close>: a directory served over a wormhole channel. Requests and responses are JSON
  in numbered frames; a request runs as a task of the server, a response settles the future of its
  number. The operating system and the texts of the interpreter's exceptions are arguments.
\<close>

section \<open>Messages\<close>

record mmsg =
  mm_type :: nat
  mm_id :: nat
  mm_data :: bytes

definition mt_getattr :: nat where "mt_getattr = 1"
definition mt_readdir :: nat where "mt_readdir = 2"
definition mt_read :: nat where "mt_read = 3"
definition mt_write :: nat where "mt_write = 4"
definition mt_create :: nat where "mt_create = 5"
definition mt_mkdir :: nat where "mt_mkdir = 6"
definition mt_unlink :: nat where "mt_unlink = 7"
definition mt_rmdir :: nat where "mt_rmdir = 8"
definition mt_rename :: nat where "mt_rename = 9"
definition mt_truncate :: nat where "mt_truncate = 10"
definition mt_chmod :: nat where "mt_chmod = 11"
definition mt_response :: nat where "mt_response = 16"
definition mt_error :: nat where "mt_error = 17"

lemmas mount_types = mt_getattr_def mt_readdir_def mt_read_def mt_write_def mt_create_def mt_mkdir_def
  mt_unlink_def mt_rmdir_def mt_rename_def mt_truncate_def mt_chmod_def mt_response_def mt_error_def

definition mount_frame :: "mmsg \<Rightarrow> bytes result" where
  "mount_frame m = fields_frame [(1, mm_type m), (4, mm_id m)] (mm_data m)"

definition mount_message :: "bytes \<times> bytes \<Rightarrow> mmsg" where
  "mount_message f =
     \<lparr>mm_type = unpack_be (take 1 (fst f)), mm_id = unpack_be (take 4 (drop 1 (fst f))), mm_data = snd f\<rparr>"

definition mount_header :: nat where
  "mount_header = 9"

text \<open>A future: awaited, a result, an \<^verbatim>\<open>OSError\<close> with its number and text, or another exception.\<close>

datatype future = Pending | Result jval | RemoteError jval jval | Raised string

record mount =
  mo_linked :: bool
  mo_root :: string
  mo_tasks :: "mmsg list"
  mo_next :: nat
  mo_pending :: "nat list"
  mo_futures :: "(nat, future) dict"
  mo_sent :: bytes
  mo_done :: bool

definition new_mount :: "string \<Rightarrow> mount" where
  "new_mount root =
     \<lparr>mo_linked = False, mo_root = root, mo_tasks = [], mo_next = 0, mo_pending = [], mo_futures = [],
      mo_sent = [], mo_done = False\<rparr>"

definition mount_send :: "nat \<Rightarrow> nat \<Rightarrow> bytes \<Rightarrow> mount \<Rightarrow> unit result \<times> mount" where
  "mount_send t i d m =
     (if \<not> mo_linked m then (Inr (), m)
      else
        (case mount_frame \<lparr>mm_type = t, mm_id = i, mm_data = d\<rparr> of
           Inl e \<Rightarrow> (Inl e, m)
         | Inr bs \<Rightarrow> (Inr (), m\<lparr>mo_sent := mo_sent m @ bs\<rparr>)))"

definition json_bytes :: "jval \<Rightarrow> bytes" where
  "json_bytes v = encode_utf8 (json_dumps None v)"

definition mount_error :: "nat \<Rightarrow> int \<Rightarrow> string \<Rightarrow> mount \<Rightarrow> mount" where
  "mount_error i code txt m =
     snd (mount_send mt_error i (json_bytes (JObj [(''error'', JInt code), (''message'', JStr txt)])) m)"

definition EACCES :: int where "EACCES = 13"
definition ENOENT :: int where "ENOENT = 2"
definition EIO :: int where "EIO = 5"
definition ENOSYS :: int where "ENOSYS = 38"
definition ETIMEDOUT :: int where "ETIMEDOUT = 110"

text \<open>A response; one that cannot be packed raises, and the handlers send that as an error.\<close>

definition mount_response :: "(exn \<Rightarrow> string) \<Rightarrow> nat \<Rightarrow> jdict \<Rightarrow> mount \<Rightarrow> mount" where
  "mount_response msg i d m =
     (case mount_send mt_response i (json_bytes (JObj d)) m of
        (Inl e, m') \<Rightarrow> mount_error i EIO (msg e) m'
      | (Inr _, m') \<Rightarrow> m')"

section \<open>Requests\<close>

text \<open>\<^verbatim>\<open>_resolve_path\<close>.\<close>

definition mount_resolve :: "string \<Rightarrow> string \<Rightarrow> string option" where
  "mount_resolve root path =
     (let p = dropWhile (\<lambda>c. c = CHR ''/'') path
      in if p = [] then Some root else within_root root (normpath (path_join root p)))"

definition request_get :: "jdict \<Rightarrow> string \<Rightarrow> jval \<Rightarrow> jval" where
  "request_get d k v = (case dget d k of Some x \<Rightarrow> x | None \<Rightarrow> v)"

definition json_int :: "jval \<Rightarrow> int option" where
  "json_int v = (case v of JInt n \<Rightarrow> Some n | JBool b \<Rightarrow> Some (of_bool b) | _ \<Rightarrow> None)"

text \<open>\<^verbatim>\<open>except Exception\<close> in a handler: the text of the error with \<^verbatim>\<open>EIO\<close>.\<close>

definition io_error :: "nat \<Rightarrow> os_error \<Rightarrow> mount \<Rightarrow> mount" where
  "io_error i e m = mount_error i EIO (snd e) m"

definition success :: "(exn \<Rightarrow> string) \<Rightarrow> nat \<Rightarrow> unit os_result \<times> 'w \<Rightarrow> mount \<Rightarrow> mount \<times> 'w" where
  "success msg i r m =
     (case r of
        (Inr _, w) \<Rightarrow> (mount_response msg i [(''success'', JBool True)] m, w)
      | (Inl e, w) \<Rightarrow> (io_error i e m, w))"

text \<open>The errors that leave a handler, by their kind.\<close>

definition outer_error :: "nat \<Rightarrow> os_error \<Rightarrow> mount \<Rightarrow> mount" where
  "outer_error i e m =
     mount_error i (case fst e of AccessDenied \<Rightarrow> EACCES | FileNotFound \<Rightarrow> ENOENT | _ \<Rightarrow> EIO) (snd e) m"

definition handle_getattr :: "(exn \<Rightarrow> string) \<Rightarrow> 'w os \<Rightarrow> nat \<Rightarrow> string \<Rightarrow> mount \<Rightarrow> 'w \<Rightarrow> mount" where
  "handle_getattr msg sys i p m w =
     (case os_stat sys w p of
        Inr st \<Rightarrow>
          mount_response msg i
            [(''mode'', JInt (int (st_mode st))), (''size'', JInt (st_size st)), (''atime'', JFloat (st_atime st)),
             (''mtime'', JFloat (st_mtime st)), (''ctime'', JFloat (st_ctime st)), (''uid'', JInt (st_uid st)),
             (''gid'', JInt (st_gid st)), (''nlink'', JInt (st_nlink st))] m
      | Inl e \<Rightarrow>
          if fst e = FileNotFound then mount_error i ENOENT ''File not found'' m else outer_error i e m)"

definition handle_readdir :: "(exn \<Rightarrow> string) \<Rightarrow> 'w os \<Rightarrow> nat \<Rightarrow> string \<Rightarrow> mount \<Rightarrow> 'w \<Rightarrow> mount" where
  "handle_readdir msg sys i p m w =
     (case os_listdir sys w p of
        Inr names \<Rightarrow> mount_response msg i [(''entries'', JList (map JStr ([''.'', ''..''] @ names)))] m
      | Inl e \<Rightarrow> io_error i e m)"

text \<open>
  An offset or size that is no integer raises once the file is open; \<^verbatim>\<open>read(None)\<close> reads all, and
  \<^verbatim>\<open>truncate(None)\<close> cuts at the start.
\<close>

definition handle_read :: "(exn \<Rightarrow> string) \<Rightarrow> 'w os \<Rightarrow> nat \<Rightarrow> string \<Rightarrow> jdict \<Rightarrow> mount \<Rightarrow> 'w \<Rightarrow> mount" where
  "handle_read msg sys i p d m w =
     (let size = request_get d ''size'' (JInt 4096) in
      case (json_int (request_get d ''offset'' (JInt 0)), if size = JNull then Some (- 1) else json_int size) of
        (Some off, Some n) \<Rightarrow>
          (case os_pread sys w p off n of
             Inr bs \<Rightarrow> mount_response msg i [(''data'', JStr (b64encode bs))] m
           | Inl e \<Rightarrow> io_error i e m)
      | _ \<Rightarrow>
          (case os_pread sys w p 0 0 of
             Inr _ \<Rightarrow> mount_error i EIO (msg TypeError) m
           | Inl e \<Rightarrow> io_error i e m))"

definition handle_write ::
  "(exn \<Rightarrow> string) \<Rightarrow> 'w os \<Rightarrow> nat \<Rightarrow> string \<Rightarrow> jdict \<Rightarrow> mount \<Rightarrow> 'w \<Rightarrow> mount \<times> 'w" where
  "handle_write msg sys i p d m w =
     (case (case request_get d ''data'' (JStr []) of JStr s \<Rightarrow> b64decode s | _ \<Rightarrow> Inl TypeError) of
        Inl e \<Rightarrow> (mount_error i EIO (msg e) m, w)
      | Inr bs \<Rightarrow>
          (case json_int (request_get d ''offset'' (JInt 0)) of
             Some off \<Rightarrow>
               (case os_pwrite sys p off bs w of
                  (Inr n, w') \<Rightarrow> (mount_response msg i [(''written'', JInt n)] m, w')
                | (Inl e, w') \<Rightarrow> (io_error i e m, w'))
           | None \<Rightarrow>
               (case os_pwrite sys p 0 [] w of
                  (Inr _, w') \<Rightarrow> (mount_error i EIO (msg TypeError) m, w')
                | (Inl e, w') \<Rightarrow> (io_error i e m, w'))))"

definition with_mode ::
  "(exn \<Rightarrow> string) \<Rightarrow> nat \<Rightarrow> jval \<Rightarrow> (int \<Rightarrow> 'w \<Rightarrow> unit os_result \<times> 'w) \<Rightarrow> mount \<Rightarrow> 'w \<Rightarrow> mount \<times> 'w" where
  "with_mode msg i v k m w =
     (case json_int v of
        Some n \<Rightarrow> success msg i (k n w) m
      | None \<Rightarrow> (mount_error i EIO (msg TypeError) m, w))"

definition handle_truncate ::
  "(exn \<Rightarrow> string) \<Rightarrow> 'w os \<Rightarrow> nat \<Rightarrow> string \<Rightarrow> jdict \<Rightarrow> mount \<Rightarrow> 'w \<Rightarrow> mount \<times> 'w" where
  "handle_truncate msg sys i p d m w =
     (let v = request_get d ''length'' (JInt 0) in
      case (if v = JNull then Some 0 else json_int v) of
        Some n \<Rightarrow> success msg i (os_truncate sys p n w) m
      | None \<Rightarrow>
          (case os_pwrite sys p 0 [] w of
             (Inr _, w') \<Rightarrow> (mount_error i EIO (msg TypeError) m, w')
           | (Inl e, w') \<Rightarrow> (io_error i e m, w')))"

definition handle_rename ::
  "(exn \<Rightarrow> string) \<Rightarrow> 'w os \<Rightarrow> nat \<Rightarrow> string \<Rightarrow> jdict \<Rightarrow> mount \<Rightarrow> 'w \<Rightarrow> mount \<times> 'w" where
  "handle_rename msg sys i p d m w =
     (case request_get d ''new_path'' (JStr []) of
        JStr new \<Rightarrow>
          (case mount_resolve (mo_root m) new of
             None \<Rightarrow> (mount_error i EACCES denied_text m, w)
           | Some q \<Rightarrow> success msg i (os_rename sys p q w) m)
      | _ \<Rightarrow> (mount_error i EIO (msg AttributeError) m, w))"

definition dispatch ::
  "(exn \<Rightarrow> string) \<Rightarrow> 'w os \<Rightarrow> nat \<Rightarrow> nat \<Rightarrow> string \<Rightarrow> jdict \<Rightarrow> mount \<Rightarrow> 'w \<Rightarrow> mount \<times> 'w" where
  "dispatch msg sys t i p d m w =
     (if t = mt_getattr then (handle_getattr msg sys i p m w, w)
      else if t = mt_readdir then (handle_readdir msg sys i p m w, w)
      else if t = mt_read then (handle_read msg sys i p d m w, w)
      else if t = mt_write then handle_write msg sys i p d m w
      else if t = mt_create then with_mode msg i (request_get d ''mode'' (JInt 420)) (os_create sys p) m w
      else if t = mt_mkdir then with_mode msg i (request_get d ''mode'' (JInt 493)) (os_mkdir sys p) m w
      else if t = mt_unlink then success msg i (os_remove sys p w) m
      else if t = mt_rmdir then success msg i (os_rmdir sys p w) m
      else if t = mt_rename then handle_rename msg sys i p d m w
      else if t = mt_truncate then handle_truncate msg sys i p d m w
      else if t = mt_chmod then with_mode msg i (request_get d ''mode'' (JInt 420)) (os_chmod sys p) m w
      else (mount_error i ENOSYS ''Not implemented'' m, w))"

text \<open>\<^verbatim>\<open>_handle_request\<close>: what is no object, or has a path that is no string, has no such attribute.\<close>

definition parse_request :: "bytes \<Rightarrow> jval result" where
  "parse_request payload =
     (if payload = [] then Inr (JObj [])
      else (case decode_utf8 payload of None \<Rightarrow> Inl ValueError | Some s \<Rightarrow> json_loads s))"

definition handle_mount_request :: "(exn \<Rightarrow> string) \<Rightarrow> 'w os \<Rightarrow> mmsg \<Rightarrow> mount \<times> 'w \<Rightarrow> mount \<times> 'w" where
  "handle_mount_request msg sys q s =
     (let m = fst s; w = snd s; i = mm_id q in
      case parse_request (mm_data q) of
        Inl e \<Rightarrow> (mount_error i EIO (msg e) m, w)
      | Inr (JObj d) \<Rightarrow>
          (case request_get d ''path'' (JStr ''/'') of
             JStr path \<Rightarrow>
               (case mount_resolve (mo_root m) path of
                  None \<Rightarrow> (mount_error i EACCES denied_text m, w)
                | Some p \<Rightarrow> dispatch msg sys (mm_type q) i p d m w)
           | _ \<Rightarrow> (mount_error i EIO (msg AttributeError) m, w))
      | Inr _ \<Rightarrow> (mount_error i EIO (msg AttributeError) m, w))"

section \<open>Responses\<close>

definition settle_future :: "nat \<Rightarrow> future \<Rightarrow> mount \<Rightarrow> mount" where
  "settle_future i r m =
     (if dget (mo_futures m) i = Some Pending then m\<lparr>mo_futures := dset i r (mo_futures m)\<rparr> else m)"

definition response_result :: "(exn \<Rightarrow> string) \<Rightarrow> nat \<Rightarrow> bytes \<Rightarrow> future" where
  "response_result msg t payload =
     (case parse_request payload of
        Inl e \<Rightarrow> Raised (msg e)
      | Inr v \<Rightarrow>
          if t = mt_error then
            (case v of
               JObj d \<Rightarrow> RemoteError (request_get d ''error'' (JInt EIO)) (request_get d ''message'' (JStr ''Error''))
             | _ \<Rightarrow> Raised (msg AttributeError))
          else Result v)"

definition handle_mount_response :: "(exn \<Rightarrow> string) \<Rightarrow> mmsg \<Rightarrow> mount \<Rightarrow> mount" where
  "handle_mount_response msg q m =
     (if mm_id q \<in> set (mo_pending m) then
        settle_future (mm_id q) (response_result msg (mm_type q) (mm_data q))
          (m\<lparr>mo_pending := filter (\<lambda>i. i \<noteq> mm_id q) (mo_pending m)\<rparr>)
      else m)"

definition handle_mount :: "(exn \<Rightarrow> string) \<Rightarrow> mmsg \<Rightarrow> mount \<times> 'w \<Rightarrow> bool \<times> mount \<times> 'w" where
  "handle_mount msg q s =
     (True,
      if mm_type q = mt_response \<or> mm_type q = mt_error then (handle_mount_response msg q (fst s), snd s)
      else ((fst s)\<lparr>mo_tasks := mo_tasks (fst s) @ [q]\<rparr>, snd s))"

type_synonym 'w mount_side = "bytes \<times> mount \<times> 'w"

definition mount_on_data :: "(exn \<Rightarrow> string) \<Rightarrow> bytes \<Rightarrow> 'w mount_side \<Rightarrow> 'w mount_side" where
  "mount_on_data msg = feed mount_header (\<lambda>f. handle_mount msg (mount_message f))"

definition run_request :: "(exn \<Rightarrow> string) \<Rightarrow> 'w os \<Rightarrow> mount \<times> 'w \<Rightarrow> mount \<times> 'w" where
  "run_request msg sys s =
     (case mo_tasks (fst s) of
        [] \<Rightarrow> s
      | q # qs \<Rightarrow> handle_mount_request msg sys q ((fst s)\<lparr>mo_tasks := qs\<rparr>, snd s))"

definition mount_lost :: "mount \<Rightarrow> mount" where
  "mount_lost m = fold (\<lambda>i. settle_future i (Raised ''Connection lost'')) (mo_pending m) (m\<lparr>mo_done := True\<rparr>)"

datatype mount_event = MountData bytes | MountTask | MountLost

fun mount_step :: "(exn \<Rightarrow> string) \<Rightarrow> 'w os \<Rightarrow> mount_event \<Rightarrow> 'w mount_side \<Rightarrow> 'w mount_side" where
  "mount_step msg sys (MountData c) s = mount_on_data msg c s"
| "mount_step msg sys MountTask s = apsnd (run_request msg sys) s"
| "mount_step msg sys MountLost s = apsnd (apfst mount_lost) s"

definition mount_run :: "(exn \<Rightarrow> string) \<Rightarrow> 'w os \<Rightarrow> mount_event list \<Rightarrow> 'w mount_side \<Rightarrow> 'w mount_side" where
  "mount_run msg sys evs s = fold (mount_step msg sys) evs s"

section \<open>The client\<close>

text \<open>\<^verbatim>\<open>_send_request\<close> up to its wait, with the number of the request, and the end of the wait.\<close>

definition mount_request :: "nat \<Rightarrow> jdict \<Rightarrow> mount \<Rightarrow> nat result \<times> mount" where
  "mount_request t d m =
     (let i = mo_next m + 1;
          m' = m\<lparr>mo_next := i, mo_pending := mo_pending m @ [i], mo_futures := dset i Pending (mo_futures m)\<rparr>
      in (case mount_send t i (json_bytes (JObj d)) m' of
            (Inl e, m'') \<Rightarrow> (Inl e, m'')
          | (Inr _, m'') \<Rightarrow> (Inr i, m'')))"

definition mount_reply :: "nat \<Rightarrow> mount \<Rightarrow> future \<times> mount" where
  "mount_reply i m =
     (case dget (mo_futures m) i of
        Some Pending \<Rightarrow>
          (RemoteError (JInt ETIMEDOUT) (JStr ''Request timed out''),
           m\<lparr>mo_pending := filter (\<lambda>j. j \<noteq> i) (mo_pending m)\<rparr>)
      | Some r \<Rightarrow> (r, m)
      | None \<Rightarrow> (Raised [], m))"

text \<open>The operations of the client: their requests, and what they make of the results.\<close>

definition getattr_request :: "string \<Rightarrow> jdict" where
  "getattr_request path = [(''path'', JStr path)]"

definition read_request :: "string \<Rightarrow> int \<Rightarrow> int \<Rightarrow> jdict" where
  "read_request path off n = [(''path'', JStr path), (''offset'', JInt off), (''size'', JInt n)]"

definition write_request :: "string \<Rightarrow> int \<Rightarrow> bytes \<Rightarrow> jdict" where
  "write_request path off d =
     [(''path'', JStr path), (''offset'', JInt off), (''data'', JStr (b64encode d))]"

definition mode_request :: "string \<Rightarrow> int \<Rightarrow> jdict" where
  "mode_request path mode = [(''path'', JStr path), (''mode'', JInt mode)]"

definition rename_request :: "string \<Rightarrow> string \<Rightarrow> jdict" where
  "rename_request old new = [(''path'', JStr old), (''new_path'', JStr new)]"

definition truncate_request :: "string \<Rightarrow> int \<Rightarrow> jdict" where
  "truncate_request path n = [(''path'', JStr path), (''length'', JInt n)]"

text \<open>\<^verbatim>\<open>result[key]\<close>.\<close>

definition result_field :: "string \<Rightarrow> future \<Rightarrow> jval option" where
  "result_field k r = (case r of Result (JObj d) \<Rightarrow> dget d k | _ \<Rightarrow> None)"

definition read_result :: "future \<Rightarrow> bytes option" where
  "read_result r =
     (case result_field ''data'' r of
        Some (JStr s) \<Rightarrow> (case b64decode s of Inr d \<Rightarrow> Some d | Inl _ \<Rightarrow> None)
      | _ \<Rightarrow> None)"

definition write_result :: "future \<Rightarrow> jval option" where
  "write_result r = result_field ''written'' r"

definition entries_result :: "future \<Rightarrow> jval option" where
  "entries_result r = result_field ''entries'' r"

text \<open>\<^verbatim>\<open>run_client\<close> keeps the protocol object; \<^verbatim>\<open>run_server\<close> does not.\<close>

definition run_mount_client :: "mount \<Rightarrow> mount" where
  "run_mount_client m = m\<lparr>mo_linked := True\<rparr>"

section \<open>Sending\<close>

interpretation mount_format: framed mount_header mount_frame mount_message
proof unfold_locales
  fix m bs assume e: "mount_frame m = Inr bs"
  then obtain front where f: "pack_fields [(1, mm_type m), (4, mm_id m)] = Inr front"
      "bs = put_frame front (mm_data m)" "length (mm_data m) < 256 ^ 4"
    unfolding mount_frame_def using fields_frame_put by blast
  then have "front = pack_be 1 (mm_type m) @ pack_be 4 (mm_id m)" "mm_type m < 256 ^ 1" "mm_id m < 256 ^ 4"
    by (auto simp: map_sum_eq_Inr split: if_splits)
  then show "\<exists>front payload. bs = put_frame front payload \<and> length front + 4 = mount_header
      \<and> length payload < 256 ^ 4 \<and> mount_message (front @ pack_be 4 (length payload), payload) = m"
    using f by (intro exI [of _ front] exI [of _ "mm_data m"]) (simp add: mount_header_def mount_message_def)
qed

lemma mount_send_shape:
  "\<exists>bs. snd (mount_send t i d m) = m\<lparr>mo_sent := mo_sent m @ bs\<rparr> \<and> (mo_linked m \<or> bs = [])"
  unfolding mount_send_def by (cases m) (auto split: sum.split intro: exI [of _ "[]"])

text \<open>Sending leaves all of a side but the bytes sent.\<close>

definition unsent :: "mount \<Rightarrow> mount" where
  "unsent m = m\<lparr>mo_sent := []\<rparr>"

lemma unsent_sends [simp]:
  "unsent (snd (mount_send t i d m)) = unsent m" "unsent (mount_error i e t' m) = unsent m"
  "unsent (mount_response msg i r m) = unsent m" "unsent (io_error i x m) = unsent m"
  "unsent (outer_error i x m) = unsent m" "unsent (fst (success msg i y m)) = unsent m"
proof -
  have s: "unsent (snd (mount_send t i d m)) = unsent m" for t i d m
    using mount_send_shape [of t i d m] by (auto simp: unsent_def)
  show "unsent (snd (mount_send t i d m)) = unsent m" by (rule s)
  have e: "unsent (mount_error i e t' m) = unsent m" for i e t' m by (simp add: mount_error_def s)
  show "unsent (mount_error i e t' m) = unsent m" by (rule e)
  have r: "unsent (mount_response msg i r m) = unsent m" for r
    using s [of mt_response i "json_bytes (JObj r)" m]
    by (cases "mount_send mt_response i (json_bytes (JObj r)) m") (simp add: mount_response_def e split: sum.split)
  show "unsent (mount_response msg i r m) = unsent m" by (rule r)
  show i: "unsent (io_error i x m) = unsent m" by (simp add: io_error_def e)
  show "unsent (outer_error i x m) = unsent m" by (simp add: outer_error_def e)
  show "unsent (fst (success msg i y m)) = unsent m"
    by (auto simp: success_def r io_error_def e split: prod.split sum.split)
qed

lemma unsent_dispatch: "unsent (fst (dispatch msg sys t i p d m w)) = unsent m"
proof -
  have "unsent (handle_getattr msg sys i p m w) = unsent m" "unsent (handle_readdir msg sys i p m w) = unsent m"
    "unsent (fst (with_mode msg i v k m w)) = unsent m" for v k
    by (simp_all add: handle_getattr_def handle_readdir_def with_mode_def split: sum.split option.split)
  moreover have "unsent (handle_read msg sys i p d m w) = unsent m"
    by (simp add: handle_read_def Let_def split: sum.split option.split)
  moreover have "unsent (fst (handle_write msg sys i p d m w)) = unsent m"
    by (simp add: handle_write_def split: sum.split option.split prod.split)
  moreover have "unsent (fst (handle_truncate msg sys i p d m w)) = unsent m"
    by (simp add: handle_truncate_def Let_def split: sum.split option.split prod.split)
  moreover have "unsent (fst (handle_rename msg sys i p d m w)) = unsent m"
    by (simp add: handle_rename_def split: jval.split option.split)
  ultimately show ?thesis by (simp add: dispatch_def)
qed

lemma unsent_request: "unsent (fst (handle_mount_request msg sys q s)) = unsent (fst s)"
  by (simp add: handle_mount_request_def Let_def unsent_dispatch split: sum.split jval.split option.split)

section \<open>The server stays below its root\<close>

lemma mount_resolve_inside: "mount_resolve root path = Some p \<Longrightarrow> startswith p root"
  by (auto simp: mount_resolve_def Let_def startswith_iff dest: within_root_starts split: if_splits)

lemma mo_root_unsent: "unsent m = unsent n \<Longrightarrow> mo_root m = mo_root n"
  by (auto simp: unsent_def dest: arg_cong [where f = mo_root])

lemma dispatch_same:
  assumes "same_below root o1 o2" "mo_root m = root" "startswith p root"
  shows "dispatch msg o1 t i p d m w = dispatch msg o2 t i p d m w"
proof -
  note e = same_belowD [OF assms(1,3)]
  have "handle_rename msg o1 i p d m w = handle_rename msg o2 i p d m w"
  proof -
    have "os_rename o1 p q = os_rename o2 p q" if "mount_resolve root new = Some q" for new q
      by (rule e(16)) (rule mount_resolve_inside [OF that])
    then show ?thesis using assms(2) by (simp add: handle_rename_def split: jval.split option.split)
  qed
  moreover have "handle_getattr msg o1 i p m w = handle_getattr msg o2 i p m w"
    "handle_readdir msg o1 i p m w = handle_readdir msg o2 i p m w"
    "handle_read msg o1 i p d m w = handle_read msg o2 i p d m w"
    "handle_write msg o1 i p d m w = handle_write msg o2 i p d m w"
    "handle_truncate msg o1 i p d m w = handle_truncate msg o2 i p d m w"
    unfolding handle_getattr_def handle_readdir_def handle_read_def handle_write_def handle_truncate_def e(1-15)
    by simp_all
  ultimately show ?thesis by (simp add: dispatch_def e(1-15))
qed

lemma handle_mount_request_same:
  assumes "same_below root o1 o2" "mo_root (fst s) = root"
  shows "handle_mount_request msg o1 q s = handle_mount_request msg o2 q s"
proof -
  have "dispatch msg o1 t i p d (fst s) w = dispatch msg o2 t i p d (fst s) w"
    if "mount_resolve root path = Some p" for t i p d w path
    by (rule dispatch_same [OF assms mount_resolve_inside [OF that]])
  then show ?thesis
    using assms(2) by (simp add: handle_mount_request_def Let_def split: sum.split jval.split option.split)
qed

lemma settle_future_root [simp]: "mo_root (settle_future i r m) = mo_root m"
  by (simp add: settle_future_def)

lemma mount_step_same:
  assumes "same_below root o1 o2" "mo_root (fst (snd s)) = root"
  shows "mount_step msg o1 e s = mount_step msg o2 e s \<and> mo_root (fst (snd (mount_step msg o2 e s))) = root"
proof (cases e)
  case (MountData c)
  have "mo_root (fst (snd (handle_mount msg q t))) = mo_root (fst t)" for q and t :: "mount \<times> 'a"
    by (simp add: handle_mount_def handle_mount_response_def)
  then have "mo_root (fst (snd (mount_on_data msg c s))) = root"
    unfolding mount_on_data_def
    by (intro feed_inv [where Q = "\<lambda>t. mo_root (fst t) = root"]) (simp_all add: assms(2))
  then show ?thesis using MountData by simp
next
  case MountTask
  let ?t = "\<lambda>qs. ((fst (snd s))\<lparr>mo_tasks := qs\<rparr>, snd (snd s))"
  have "mo_root (fst (handle_mount_request msg o2 q (?t qs))) = root" for q qs
    using mo_root_unsent [OF unsent_request [of msg o2 q "?t qs"]] assms(2) by simp
  moreover have "handle_mount_request msg o1 q (?t qs) = handle_mount_request msg o2 q (?t qs)" for q qs
    by (rule handle_mount_request_same [OF assms(1)]) (simp add: assms(2))
  ultimately show ?thesis
    using MountTask assms(2) by (cases s) (auto simp: run_request_def split: list.split)
next
  case MountLost
  have "mo_root (fold (\<lambda>i. settle_future i r) is m) = mo_root m" for r "is" m
    by (induction "is" arbitrary: m) simp_all
  then show ?thesis using MountLost assms(2) by (cases s) (simp add: mount_lost_def)
qed

text \<open>
  The mount server stays below its root: with two operating systems that agree on all paths
  which begin with the text of the root, whatever arrives and in whatever order its requests run, it
  does the same; this includes the target of a rename.
\<close>

theorem mount_stays_below_root:
  assumes "same_below root o1 o2"
  shows "mount_run msg o1 evs ([], new_mount root, w) = mount_run msg o2 evs ([], new_mount root, w)"
proof -
  have "mount_run msg o1 evs s = mount_run msg o2 evs s" if "mo_root (fst (snd s)) = root" for s
    using that
  proof (induction evs arbitrary: s)
    case (Cons e evs)
    show ?case
      using Cons.IH [of "mount_step msg o2 e s"] mount_step_same [OF assms Cons.prems, of msg e]
      by (simp add: mount_run_def)
  qed (simp add: mount_run_def)
  then show ?thesis by (simp add: new_mount_def)
qed

theorem mount_stays_below_root_witness:
  "let jail = disk_os\<lparr>os_remove := (\<lambda>p w. if startswith p ''/srv'' then (Inr (), ddel p w) else (Inr (), []))\<rparr>;
       q = put_frame (pack_be 1 mt_unlink @ pack_be 4 1) (json_bytes (JObj (getattr_request ''/../etc/x'')))
   in mount_run (\<lambda>_. []) disk_os [MountData q, MountTask] ([], new_mount ''/srv'', [(''/etc/x'', Plain [1])])
    = mount_run (\<lambda>_. []) jail [MountData q, MountTask] ([], new_mount ''/srv'', [(''/etc/x'', Plain [1])])"
  unfolding Let_def by (rule mount_stays_below_root) (simp add: same_below_def disk_os_def)

section \<open>Calls\<close>

text \<open>
  A call of the client and its answer, over a stream that is cut into pieces in any way: the request,
  the server that takes it and runs it, and the response.
\<close>

definition mount_call ::
  "(exn \<Rightarrow> string) \<Rightarrow> 'w os \<Rightarrow> (bytes \<Rightarrow> bytes list) \<Rightarrow> nat \<Rightarrow> jdict \<Rightarrow> mount \<Rightarrow> mount \<Rightarrow> 'w \<Rightarrow>
   future result \<times> mount \<times> mount \<times> 'w" where
  "mount_call msg sys pieces t d c s w =
     (case mount_request t d (unsent c) of
        (Inl e, c1) \<Rightarrow> (Inl e, c1, s, w)
      | (Inr i, c1) \<Rightarrow>
          (case apsnd (run_request msg sys) (fold (mount_on_data msg) (pieces (mo_sent c1)) ([], unsent s, w)) of
             (_, s1, w1) \<Rightarrow>
               (case fold (mount_on_data msg) (pieces (mo_sent s1)) ([], c1, w1) of
                  (_, c2, _) \<Rightarrow> (Inr (fst (mount_reply i c2)), snd (mount_reply i c2), s1, w1))))"

definition mbytes :: "nat \<Rightarrow> nat \<Rightarrow> bytes \<Rightarrow> bytes" where
  "mbytes t i d = put_frame (pack_be 1 t @ pack_be 4 i) d"

lemma mount_frame_ok:
  "t < 256 \<Longrightarrow> i < 256 ^ 4 \<Longrightarrow> length d < 256 ^ 4 \<Longrightarrow>
     mount_frame \<lparr>mm_type = t, mm_id = i, mm_data = d\<rparr> = Inr (mbytes t i d)"
  by (simp add: mount_frame_def fields_frame_def mbytes_def put_frame_def)

lemma mount_send_linked:
  "mo_linked m \<Longrightarrow> t < 256 \<Longrightarrow> i < 256 ^ 4 \<Longrightarrow> length d < 256 ^ 4 \<Longrightarrow>
     mount_send t i d m = (Inr (), m\<lparr>mo_sent := mo_sent m @ mbytes t i d\<rparr>)"
  using mount_frame_ok [of t i d] by (simp add: mount_send_def)

text \<open>One message, in any pieces, is handled once.\<close>

lemma mount_receives:
  assumes "concat cs = mbytes t i d" "t < 256" "i < 256 ^ 4" "length d < 256 ^ 4"
  shows "fold (mount_on_data msg) cs ([], s) = ([], snd (handle_mount msg \<lparr>mm_type = t, mm_id = i, mm_data = d\<rparr> s))"
proof -
  have "list_all2 (\<lambda>m bs. mount_frame m = Inr bs) [\<lparr>mm_type = t, mm_id = i, mm_data = d\<rparr>] [mbytes t i d]"
    using mount_frame_ok [OF assms(2-4)] by simp
  from mount_format.messages_handled [OF this, of cs "handle_mount msg" s] assms(1)
  show ?thesis by (simp add: mount_on_data_def handle_mount_def)
qed

lemma parse_json_bytes: "flat d \<Longrightarrow> parse_request (json_bytes (JObj d)) = Inr (JObj d)"
proof -
  assume f: "flat d"
  have "json_dumps None (JObj d) \<noteq> []" by (cases d) (auto simp: json_dumps_def)
  then have "json_bytes (JObj d) \<noteq> []"
    using decode_encode_utf8 [of "json_dumps None (JObj d)"] unfolding json_bytes_def
    by (metis decode_utf8.simps(1) option.inject)
  then show ?thesis
    using json_flat_roundtrip [OF f, of None] by (simp add: parse_request_def json_bytes_def)
qed

lemma mount_call_result:
  assumes "mo_linked c" "mo_linked s" "mo_tasks s = []" "mo_next c + 1 < 256 ^ 4" "\<And>bs. concat (pieces bs) = bs"
    and "t < 256" "t \<noteq> mt_response" "t \<noteq> mt_error" "flat d" "dget d ''path'' = Some (JStr path)"
    and "mount_resolve (mo_root s) path = Some p" "length (json_bytes (JObj d)) < 256 ^ 4"
    and "dispatch msg sys t (mo_next c + 1) p d (unsent s) w = (mount_response msg (mo_next c + 1) r (unsent s), w')"
    and "flat r" "length (json_bytes (JObj r)) < 256 ^ 4"
  shows "\<exists>c' s'. mount_call msg sys pieces t d c s w = (Inr (Result (JObj r)), c', s', w')
    \<and> mo_linked c' \<and> mo_next c' = mo_next c + 1 \<and> mo_linked s' \<and> mo_tasks s' = [] \<and> mo_root s' = mo_root s"
proof -
  let ?i = "mo_next c + 1" and ?q = "json_bytes (JObj d)" and ?a = "json_bytes (JObj r)"
  let ?c1 = "c\<lparr>mo_sent := mbytes t ?i ?q, mo_next := ?i, mo_pending := mo_pending c @ [?i],
      mo_futures := dset ?i Pending (mo_futures c)\<rparr>"
  have req: "mount_request t d (unsent c) = (Inr ?i, ?c1)"
    using assms(1,4,6,12) by (simp add: mount_request_def Let_def unsent_def mount_send_linked)
  let ?m = "\<lparr>mm_type = t, mm_id = ?i, mm_data = ?q\<rparr>"
  have "fold (mount_on_data msg) (pieces (mbytes t ?i ?q)) ([], unsent s, w) = ([], snd (handle_mount msg ?m (unsent s, w)))"
    by (rule mount_receives) (use assms in simp_all)
  also have "\<dots> = ([], (unsent s)\<lparr>mo_tasks := [?m]\<rparr>, w)"
    using assms(3,7,8) by (simp add: handle_mount_def unsent_def)
  finally have got: "fold (mount_on_data msg) (pieces (mbytes t ?i ?q)) ([], unsent s, w) = ([], (unsent s)\<lparr>mo_tasks := [?m]\<rparr>, w)" .
  have u: "(unsent s)\<lparr>mo_tasks := []\<rparr> = unsent s" using assms(3) by (simp add: unsent_def)
  have ran: "run_request msg sys ((unsent s)\<lparr>mo_tasks := [?m]\<rparr>, w) = (mount_response msg ?i r (unsent s), w')"
    using assms(10,11,13) parse_json_bytes [OF assms(9)] u
    by (simp add: run_request_def handle_mount_request_def Let_def request_get_def) (simp add: unsent_def)
  let ?s1 = "(unsent s)\<lparr>mo_sent := mbytes mt_response ?i ?a\<rparr>"
  have sent: "mount_response msg ?i r (unsent s) = ?s1"
    using mount_send_linked [of "unsent s" mt_response ?i ?a] assms(2,4,15)
    by (simp add: mount_response_def unsent_def mt_response_def)
  have "fold (mount_on_data msg) (pieces (mbytes mt_response ?i ?a)) ([], ?c1, w')
      = ([], snd (handle_mount msg \<lparr>mm_type = mt_response, mm_id = ?i, mm_data = ?a\<rparr> (?c1, w')))"
    by (rule mount_receives) (use assms in \<open>simp_all add: mt_response_def\<close>)
  moreover have "handle_mount_response msg \<lparr>mm_type = mt_response, mm_id = ?i, mm_data = ?a\<rparr> ?c1
      = ?c1\<lparr>mo_pending := filter (\<lambda>j. j \<noteq> ?i) (mo_pending c), mo_futures := dset ?i (Result (JObj r)) (dset ?i Pending (mo_futures c))\<rparr>"
    using parse_json_bytes [OF assms(14)]
    by (simp add: handle_mount_response_def response_result_def settle_future_def mt_response_def mt_error_def)
  ultimately have ret: "fold (mount_on_data msg) (pieces (mo_sent ?s1)) ([], ?c1, w')
      = ([], ?c1\<lparr>mo_pending := filter (\<lambda>j. j \<noteq> ?i) (mo_pending c),
                 mo_futures := dset ?i (Result (JObj r)) (dset ?i Pending (mo_futures c))\<rparr>, w')"
    by (simp add: handle_mount_def)
  show ?thesis
    using assms(1-3) got ran sent ret
    by (simp add: mount_call_def req mount_reply_def) (simp add: unsent_def)
qed

definition fits :: "jdict \<Rightarrow> bool" where
  "fits d \<longleftrightarrow> length (json_bytes (JObj d)) < 256 ^ 4"

lemma flat_requests: "flat (write_request path off d)" "flat (read_request path off n)"
    "flat [(''written'', JInt n)]" "flat [(''data'', JStr x)]"
  by (simp_all add: flat_def write_request_def read_request_def)

text \<open>
  What a client writes it reads back: when the server can write the data at the place, the call
  reports their length, and a call that reads as many bytes there returns the same data, through the
  JSON, the base 64 and the frames of both directions, however the streams are cut.
\<close>

theorem mount_write_then_read:
  assumes "keeps_parts sys" "mo_linked c" "mo_linked s" "mo_tasks s = []" "mo_next c + 2 < 256 ^ 4"
    and "\<And>bs. concat (pieces bs) = bs" "mount_resolve (mo_root s) path = Some p"
    and "os_pwrite sys p off d w = (Inr n, w')"
    and "fits (write_request path off d)" "fits (read_request path off n)"
    and "fits [(''written'', JInt n)]" "fits [(''data'', JStr (b64encode d))]"
  shows "\<exists>rw c1 s1 rr c2 s2.
    mount_call msg sys pieces mt_write (write_request path off d) c s w = (Inr rw, c1, s1, w')
    \<and> write_result rw = Some (JInt (int (length d)))
    \<and> mount_call msg sys pieces mt_read (read_request path off (int (length d))) c1 s1 w' = (Inr rr, c2, s2, w')
    \<and> read_result rr = Some d"
proof -
  have n: "n = int (length d)" "os_pread sys w' p off n = Inr d"
    using assms(1,8) unfolding keeps_parts_def by blast+
  have "dispatch msg sys mt_write i p (write_request path off d) m w = (mount_response msg i [(''written'', JInt n)] m, w')" for i m
    using assms(8) by (simp add: dispatch_def mount_types handle_write_def write_request_def request_get_def json_int_def)
  then obtain c1 s1 where w: "mount_call msg sys pieces mt_write (write_request path off d) c s w
      = (Inr (Result (JObj [(''written'', JInt n)])), c1, s1, w')"
    and c1: "mo_linked c1" "mo_next c1 = mo_next c + 1" "mo_linked s1" "mo_tasks s1 = []" "mo_root s1 = mo_root s"
    using mount_call_result [OF assms(2-4) _ assms(6), of mt_write "write_request path off d" path p msg sys w
        "[(''written'', JInt n)]" w'] assms(5,7,9,11) flat_requests
    by (auto simp: fits_def write_request_def mount_types)
  have "dispatch msg sys mt_read i p (read_request path off n) m w'
      = (mount_response msg i [(''data'', JStr (b64encode d))] m, w')" for i m
    using n(2) by (simp add: dispatch_def mount_types handle_read_def read_request_def request_get_def json_int_def)
  then obtain c2 s2 where r: "mount_call msg sys pieces mt_read (read_request path off n) c1 s1 w'
      = (Inr (Result (JObj [(''data'', JStr (b64encode d))])), c2, s2, w')"
    using mount_call_result [OF c1(1,3,4) _ assms(6), of mt_read "read_request path off n" path p msg sys w'
        "[(''data'', JStr (b64encode d))]" w'] assms(5,7,10,12) c1 flat_requests
    by (auto simp: fits_def read_request_def mount_types)
  show ?thesis
    using w r n(1) by (auto simp: write_result_def read_result_def result_field_def)
qed

theorem mount_write_then_read_witness:
  "let s = (new_mount ''/srv'')\<lparr>mo_linked := True\<rparr>; c = run_mount_client (new_mount ''/home'');
       (_, c1, s1, w1) = mount_call (\<lambda>_. []) disk_os (\<lambda>bs. [bs]) mt_write (write_request ''a'' 1 [9]) c s
         [(''/srv/a'', Plain [1, 2, 3])];
       (r, _) = mount_call (\<lambda>_. []) disk_os (\<lambda>bs. [bs]) mt_read (read_request ''a'' 1 1) c1 s1 w1
   in map_sum id read_result r = Inr (Some [9]) \<and> w1 = [(''/srv/a'', Plain [1, 9, 3])]"
proof -
  let ?s = "(new_mount ''/srv'')\<lparr>mo_linked := True\<rparr>" and ?c = "run_mount_client (new_mount ''/home'')"
  have p: "mount_resolve (mo_root ?s) ''a'' = Some ''/srv/a''" by code_simp
  have w: "os_pwrite disk_os ''/srv/a'' 1 [9] [(''/srv/a'', Plain [1, 2, 3])] = (Inr 1, [(''/srv/a'', Plain [1, 9, 3])])"
    by (simp add: disk_os_def disk_pwrite_def)
  have f: "fits (write_request ''a'' 1 [9])" "fits (read_request ''a'' 1 1)" "fits [(''written'', JInt 1)]"
    "fits [(''data'', JStr (b64encode [9]))]"
  proof -
    have "length (json_bytes (JObj (write_request ''a'' 1 [9]))) = 42"
      "length (json_bytes (JObj (read_request ''a'' 1 1))) = 37"
      "length (json_bytes (JObj [(''written'', JInt 1)])) = 14"
      "length (json_bytes (JObj [(''data'', JStr (b64encode [9]))])) = 16"
      by code_simp+
    then show "fits (write_request ''a'' 1 [9])" "fits (read_request ''a'' 1 1)" "fits [(''written'', JInt 1)]"
      "fits [(''data'', JStr (b64encode [9]))]"
      by (simp_all add: fits_def)
  qed
  have c: "mo_linked ?c" "mo_next ?c + 2 < 256 ^ 4" by (simp_all add: run_mount_client_def new_mount_def)
  obtain rw c1 s1 rr c2 s2 where
    "mount_call (\<lambda>_. []) disk_os (\<lambda>bs. [bs]) mt_write (write_request ''a'' 1 [9]) ?c ?s [(''/srv/a'', Plain [1, 2, 3])]
       = (Inr rw, c1, s1, [(''/srv/a'', Plain [1, 9, 3])])"
    "mount_call (\<lambda>_. []) disk_os (\<lambda>bs. [bs]) mt_read (read_request ''a'' 1 1) c1 s1 [(''/srv/a'', Plain [1, 9, 3])]
       = (Inr rr, c2, s2, [(''/srv/a'', Plain [1, 9, 3])])" "read_result rr = Some [9]"
    using mount_write_then_read [OF disk_keeps_parts c(1) _ _ c(2) _ p w f, of "\<lambda>bs. [bs]" "\<lambda>_. []"]
    by (auto simp: new_mount_def)
  then show ?thesis by (simp add: Let_def)
qed

end
