(* ===== verification/Daemon.thy ===== *)
theory Daemon
  imports Wormhole_Manager Json_Text
begin

text \<open>
  \<^verbatim>\<open>src/wh/cli/daemon.py\<close>: the local HTTP daemon between browsers or web servers and wormholes. The
  handlers of the HTTP server and the callbacks of the bridged protocols are operations on the state
  of the daemon; a handler that waits is two operations, so that everything may happen in between.
\<close>

section \<open>Requests and responses\<close>

text \<open>
  A response: JSON, bytes, the page of \<^verbatim>\<open>handle_browse\<close> with the two texts that are put into it, or the
  500 of the HTTP library for an exception that leaves the handler.
\<close>

datatype http_response =
    JsonResponse nat jdict
  | BytesResponse nat bytes
  | BrowsePage string string
  | ServerError

fun response_status :: "http_response \<Rightarrow> nat" where
  "response_status (JsonResponse n _) = n"
| "response_status (BytesResponse n _) = n"
| "response_status (BrowsePage _ _) = 200"
| "response_status ServerError = 500"

definition http_error :: "nat \<Rightarrow> string \<Rightarrow> http_response" where
  "http_error n t = JsonResponse n [(''error'', JStr t)]"

section \<open>The state\<close>

text \<open>
  Listeners and connections live on after they are no longer tracked, because the tasks that wait on
  them and the callbacks of their protocols still hold them. \<^const>\<open>None\<close> in a queue is the end.
\<close>

record listener =
  li_code :: string
  li_manager :: manager
  li_protocol :: jval
  li_queue :: "string list"
  li_closed :: bool
  li_tracked :: bool

record connection =
  co_listener :: string
  co_queue :: "bytes option list"
  co_closed :: bool
  co_tracked :: bool
  co_written :: "bytes list"
  co_lost :: bool

record daemon =
  dm_port :: nat
  dm_legacy :: "(string, string) dict"
  dm_listeners :: "(string, listener) dict"
  dm_conns :: "(string, connection) dict"

definition new_daemon :: "nat \<Rightarrow> daemon" where
  "new_daemon port = \<lparr>dm_port = port, dm_legacy = [], dm_listeners = [], dm_conns = []\<rparr>"

definition tracked_listener :: "daemon \<Rightarrow> string \<Rightarrow> listener option" where
  "tracked_listener dm i =
     (case dget (dm_listeners dm) i of Some l \<Rightarrow> if li_tracked l then Some l else None | None \<Rightarrow> None)"

definition tracked_conn :: "daemon \<Rightarrow> string \<Rightarrow> connection option" where
  "tracked_conn dm i =
     (case dget (dm_conns dm) i of Some c \<Rightarrow> if co_tracked c then Some c else None | None \<Rightarrow> None)"

definition put_listener :: "string \<Rightarrow> listener \<Rightarrow> daemon \<Rightarrow> daemon" where
  "put_listener i l dm = dm\<lparr>dm_listeners := dset i l (dm_listeners dm)\<rparr>"

definition put_conn :: "string \<Rightarrow> connection \<Rightarrow> daemon \<Rightarrow> daemon" where
  "put_conn i c dm = dm\<lparr>dm_conns := dset i c (dm_conns dm)\<rparr>"

section \<open>The endpoints of the browser extension\<close>

definition handle_status :: "daemon \<Rightarrow> http_response" where
  "handle_status dm =
     JsonResponse 200 [(''running'', JBool True), (''version'', JStr ''0.3.0''),
       (''connections'', JInt (int (length (dm_legacy dm)))), (''port'', JInt (int (dm_port dm)))]"

text \<open>\<^verbatim>\<open>await request.json()\<close> and the address in it, which \<^verbatim>\<open>parse_wns_address\<close> needs to be a text.\<close>

definition request_address :: "bytes \<Rightarrow> string result" where
  "request_address body =
     (case decode_utf8 body of
        None \<Rightarrow> Inl ValueError
      | Some s \<Rightarrow>
          (case json_loads s of
             Inl e \<Rightarrow> Inl e
           | Inr (JObj d) \<Rightarrow>
               (case dget d ''address'' of
                  None \<Rightarrow> Inr []
                | Some (JStr a) \<Rightarrow> Inr a
                | Some (JList _) \<Rightarrow> Inl AttributeError
                | Some (JObj _) \<Rightarrow> Inl AttributeError
                | Some _ \<Rightarrow> Inl TypeError)
           | Inr _ \<Rightarrow> Inl AttributeError))"

text \<open>
  \<^verbatim>\<open>parsed['address']\<close> where \<^verbatim>\<open>parsed\<close> is the text that \<^verbatim>\<open>parse_wns_address\<close> returns: indexing a text with a
  text raises.
\<close>

definition index_text :: "string \<Rightarrow> string \<Rightarrow> string result" where
  "index_text s k = Inl TypeError"

definition resolve_address ::
  "(exn \<Rightarrow> string) \<Rightarrow> disc_env \<Rightarrow> bytes \<Rightarrow> wh_home \<Rightarrow>
   ((http_response + string \<times> string \<times> string option) \<times> wh_home) option" where
  "resolve_address msg env body home =
     (case request_address body of
        Inl e \<Rightarrow> Some (Inl (http_error 500 (msg e)), home)
      | Inr a \<Rightarrow>
          (case parse_wns_address a of
             None \<Rightarrow> Some (Inl (http_error 400 ''Invalid WNS address''), home)
           | Some parsed \<Rightarrow>
               (case index_text parsed ''address'' of
                  Inl e \<Rightarrow> Some (Inl (http_error 500 (msg e)), home)
                | Inr x \<Rightarrow>
                    (case discover_code env x home of
                       None \<Rightarrow> None
                     | Some (Inl e, home') \<Rightarrow> Some (Inl (http_error 500 (msg e)), home')
                     | Some (Inr r, home') \<Rightarrow> Some (Inr (a, x, r), home')))))"

text \<open>
  \<^verbatim>\<open>handle_resolve\<close> and \<^verbatim>\<open>handle_connect\<close>: the code that was found is a text, which has no \<^verbatim>\<open>get\<close>. An
  empty code counts as not found.
\<close>

definition handle_resolve ::
  "(exn \<Rightarrow> string) \<Rightarrow> disc_env \<Rightarrow> bytes \<Rightarrow> wh_home \<Rightarrow> (http_response \<times> wh_home) option" where
  "handle_resolve msg env body home =
     map_option (apfst (\<lambda>r. case r of
         Inl resp \<Rightarrow> resp
       | Inr (a, x, code) \<Rightarrow>
           if truthy code then http_error 500 (msg AttributeError) else http_error 404 ''Address not found''))
       (resolve_address msg env body home)"

definition daemon_connect ::
  "(exn \<Rightarrow> string) \<Rightarrow> disc_env \<Rightarrow> bytes \<Rightarrow> wh_home \<Rightarrow> daemon \<Rightarrow> (http_response \<times> wh_home \<times> daemon) option" where
  "daemon_connect msg env body home dm =
     map_option (\<lambda>(r, home'). (r, home', dm)) (handle_resolve msg env body home)"

text \<open>\<^verbatim>\<open>handle_browse\<close> on the unquoted URL: the host and the path go into the page as they are.\<close>

definition handle_browse :: "string \<Rightarrow> http_response" where
  "handle_browse url =
     (if \<not> startswith url ''wh://'' then http_error 400 ''URL must start with wh://''
      else
        (let rest = drop 5 url in
         if CHR ''/'' \<in> set rest then BrowsePage (fst (split1 (CHR ''/'') rest)) (''/'' @ snd (split1 (CHR ''/'') rest))
         else BrowsePage rest ''/''))"

definition relay_entry :: "string \<Rightarrow> relay_config \<Rightarrow> jval" where
  "relay_entry dflt r =
     JObj [(''name'', JStr (rl_name r)), (''mailboxUrl'', JStr (rl_mailbox_url r)),
       (''transitUrl'', JStr (rl_transit_url r)),
       (''description'', JStr (case rl_description r of None \<Rightarrow> [] | Some s \<Rightarrow> s)),
       (''isDefault'', JBool (rl_name r = dflt)), (''hasNamespaceKey'', JBool (truthy (rl_namespace_key r)))]"

definition handle_get_relays :: "(exn \<Rightarrow> string) \<Rightarrow> relay_manager \<Rightarrow> http_response \<times> relay_manager" where
  "handle_get_relays msg rm =
     (case load_config rm of
        (Inl e, rm') \<Rightarrow> (http_error 500 (msg e), rm')
      | (Inr c, rm') \<Rightarrow>
          (case list_relays rm' of
             (Inl e, rm'') \<Rightarrow> (http_error 500 (msg e), rm'')
           | (Inr rs, rm'') \<Rightarrow>
               (JsonResponse 200 [(''relays'', JList (map (relay_entry (rf_default c)) rs)),
                  (''default'', JStr (rf_default c))], rm'')))"

section \<open>Listeners\<close>

text \<open>\<^verbatim>\<open>handle_listen\<close>; \<^verbatim>\<open>i\<close> is the identifier that \<^verbatim>\<open>uuid4\<close> draws.\<close>

definition handle_listen ::
  "(exn \<Rightarrow> string) \<Rightarrow> wormhole_lib \<Rightarrow> string \<Rightarrow> bytes option \<Rightarrow> relay_manager \<Rightarrow> daemon \<Rightarrow>
   http_response \<times> relay_manager \<times> daemon" where
  "handle_listen msg lib i body rm dm =
     (case (case body of
              None \<Rightarrow> Inr (JStr ''wh-http'')
            | Some b \<Rightarrow>
                (case (case decode_utf8 b of None \<Rightarrow> Inl ValueError | Some s \<Rightarrow> json_loads s) of
                   Inl e \<Rightarrow> Inl e
                 | Inr (JObj d) \<Rightarrow> Inr (case dget d ''protocol'' of None \<Rightarrow> JStr ''wh-http'' | Some v \<Rightarrow> v)
                 | Inr _ \<Rightarrow> Inl AttributeError)) of
        Inl e \<Rightarrow> (http_error 500 (msg e), rm, dm)
      | Inr protocol \<Rightarrow>
          (case manager_from_config None 2 rm of
             (Inl e, rm') \<Rightarrow> (http_error 500 (msg e), rm', dm)
           | (Inr m, rm') \<Rightarrow>
               (case create_and_allocate_code lib m of
                  (Inl e, _) \<Rightarrow> (http_error 500 (msg e), rm', dm)
                | (Inr code, m') \<Rightarrow>
                    (JsonResponse 200 [(''listener_id'', JStr i), (''code'', JStr code), (''status'', JStr ''listening'')],
                     rm',
                     put_listener i \<lparr>li_code = code, li_manager = m', li_protocol = protocol, li_queue = [],
                       li_closed = False, li_tracked = True\<rparr> dm))))"

text \<open>
  \<^verbatim>\<open>_listener_accept_loop\<close> up to its loop: whether the endpoint could listen is an input; any failure
  closes the listener.
\<close>

definition accept_connections :: "wormhole_lib \<Rightarrow> bool \<Rightarrow> string \<Rightarrow> daemon \<Rightarrow> daemon" where
  "accept_connections lib listening i dm =
     (case dget (dm_listeners dm) i of
        None \<Rightarrow> dm
      | Some l \<Rightarrow>
          (case dilate lib (li_manager l) of
             (Inl e, m) \<Rightarrow> put_listener i (l\<lparr>li_manager := m, li_closed := True\<rparr>) dm
           | (Inr _, m) \<Rightarrow>
               put_listener i (l\<lparr>li_manager := m, li_closed := li_closed l \<or> \<not> listening\<rparr>) dm))"

text \<open>The callbacks of \<^verbatim>\<open>BridgeProtocol\<close>: \<^verbatim>\<open>c\<close> is the identifier of the connection.\<close>

definition connection_made :: "string \<Rightarrow> string \<Rightarrow> daemon \<Rightarrow> daemon" where
  "connection_made i c dm =
     (let dm' = put_conn c \<lparr>co_listener = i, co_queue = [], co_closed = False, co_tracked = True,
                            co_written = [], co_lost = False\<rparr> dm
      in (case dget (dm_listeners dm) i of
            None \<Rightarrow> dm'
          | Some l \<Rightarrow> put_listener i (l\<lparr>li_queue := li_queue l @ [c]\<rparr>) dm'))"

definition data_received :: "string \<Rightarrow> bytes \<Rightarrow> daemon \<Rightarrow> daemon" where
  "data_received c d dm =
     (case dget (dm_conns dm) c of
        None \<Rightarrow> dm
      | Some x \<Rightarrow> put_conn c (x\<lparr>co_queue := co_queue x @ [Some d]\<rparr>) dm)"

definition bridge_lost :: "string \<Rightarrow> daemon \<Rightarrow> daemon" where
  "bridge_lost c dm =
     (case dget (dm_conns dm) c of
        None \<Rightarrow> dm
      | Some x \<Rightarrow> put_conn c (x\<lparr>co_closed := True, co_queue := co_queue x @ [None]\<rparr>) dm)"

text \<open>
  \<^verbatim>\<open>handle_accept\<close> up to its wait and from there: a response, or the wait. A timeout that is no number
  raises outside the handler's \<^verbatim>\<open>try\<close>.
\<close>

definition accept_start :: "bool \<Rightarrow> string \<Rightarrow> daemon \<Rightarrow> http_response option" where
  "accept_start timeout_ok i dm =
     (if \<not> timeout_ok then Some ServerError
      else
        (case tracked_listener dm i of
           None \<Rightarrow> Some (http_error 404 ''Listener not found'')
         | Some l \<Rightarrow> if li_closed l then Some (http_error 410 ''Listener closed'') else None))"

definition accept_end :: "string \<Rightarrow> daemon \<Rightarrow> http_response \<times> daemon" where
  "accept_end i dm =
     (case dget (dm_listeners dm) i of
        Some l \<Rightarrow>
          (case li_queue l of
             c # cs \<Rightarrow>
               (JsonResponse 200 [(''connection_id'', JStr c), (''status'', JStr ''connected'')],
                put_listener i (l\<lparr>li_queue := cs\<rparr>) dm)
           | [] \<Rightarrow> (JsonResponse 200 [(''connection_id'', JNull), (''status'', JStr ''timeout'')], dm))
      | None \<Rightarrow> (JsonResponse 200 [(''connection_id'', JNull), (''status'', JStr ''timeout'')], dm))"

section \<open>Connections\<close>

definition handle_send :: "string \<Rightarrow> bytes \<Rightarrow> daemon \<Rightarrow> http_response \<times> daemon" where
  "handle_send c d dm =
     (case tracked_conn dm c of
        None \<Rightarrow> (http_error 404 ''Connection not found'', dm)
      | Some x \<Rightarrow>
          if co_closed x then (http_error 410 ''Connection closed'', dm)
          else (JsonResponse 200 [(''bytes_sent'', JInt (int (length d)))],
                put_conn c (x\<lparr>co_written := co_written x @ [d]\<rparr>) dm))"

text \<open>\<^verbatim>\<open>handle_recv\<close> up to its wait, with the number of bytes it will return at most, and from there.\<close>

definition recv_start :: "bool \<Rightarrow> string \<Rightarrow> string \<Rightarrow> daemon \<Rightarrow> http_response + int" where
  "recv_start timeout_ok max_text c dm =
     (if \<not> timeout_ok then Inl ServerError
      else
        (case py_int max_text of
           None \<Rightarrow> Inl ServerError
         | Some n \<Rightarrow>
             (case tracked_conn dm c of
                None \<Rightarrow> Inl (http_error 404 ''Connection not found'')
              | Some x \<Rightarrow> if co_closed x then Inl (http_error 410 ''Connection closed'') else Inr n)))"

definition recv_end :: "int \<Rightarrow> string \<Rightarrow> daemon \<Rightarrow> http_response \<times> daemon" where
  "recv_end n c dm =
     (case dget (dm_conns dm) c of
        None \<Rightarrow> (BytesResponse 408 [], dm)
      | Some x \<Rightarrow>
          (case co_queue x of
             [] \<Rightarrow> (BytesResponse 408 [], dm)
           | None # q \<Rightarrow> (BytesResponse 204 [], put_conn c (x\<lparr>co_queue := q\<rparr>) dm)
           | Some d # q \<Rightarrow>
               if n < int (length d)
               then (BytesResponse 200 (pslice d 0 n),
                     put_conn c (x\<lparr>co_queue := q @ [Some (pslice d n (int (length d)))]\<rparr>) dm)
               else (BytesResponse 200 d, put_conn c (x\<lparr>co_queue := q\<rparr>) dm)))"

definition drop_conn :: "connection \<Rightarrow> connection" where
  "drop_conn x = x\<lparr>co_closed := True, co_lost := True, co_tracked := False\<rparr>"

definition handle_close_connection :: "string \<Rightarrow> daemon \<Rightarrow> http_response \<times> daemon" where
  "handle_close_connection c dm =
     (case tracked_conn dm c of
        None \<Rightarrow> (http_error 404 ''Connection not found'', dm)
      | Some x \<Rightarrow> (JsonResponse 200 [(''status'', JStr ''closed'')], put_conn c (drop_conn x) dm))"

definition handle_close_listener :: "string \<Rightarrow> daemon \<Rightarrow> http_response \<times> daemon" where
  "handle_close_listener i dm =
     (case tracked_listener dm i of
        None \<Rightarrow> (http_error 404 ''Listener not found'', dm)
      | Some l \<Rightarrow>
          (let dm' = put_listener i (l\<lparr>li_closed := True, li_manager := close_manager (li_manager l), li_tracked := False\<rparr>) dm
           in (JsonResponse 200 [(''status'', JStr ''closed'')],
               dm'\<lparr>dm_conns := map (\<lambda>(c, x). (c, if co_tracked x \<and> co_listener x = i then drop_conn x else x)) (dm_conns dm')\<rparr>)))"

section \<open>What happens to a daemon\<close>

datatype daemon_event =
    Listen string "bytes option" relay_manager
  | AcceptLoop string bool
  | Made string string
  | Received string bytes
  | BridgeLost string
  | AcceptEnd string
  | Send string bytes
  | RecvEnd string int
  | CloseConnection string
  | CloseListener string

fun daemon_step :: "(exn \<Rightarrow> string) \<Rightarrow> wormhole_lib \<Rightarrow> daemon_event \<Rightarrow> daemon \<Rightarrow> daemon" where
  "daemon_step msg lib (Listen i body rm) dm = snd (snd (handle_listen msg lib i body rm dm))"
| "daemon_step msg lib (AcceptLoop i b) dm = accept_connections lib b i dm"
| "daemon_step msg lib (Made i c) dm = connection_made i c dm"
| "daemon_step msg lib (Received c d) dm = data_received c d dm"
| "daemon_step msg lib (BridgeLost c) dm = bridge_lost c dm"
| "daemon_step msg lib (AcceptEnd i) dm = snd (accept_end i dm)"
| "daemon_step msg lib (Send c d) dm = snd (handle_send c d dm)"
| "daemon_step msg lib (RecvEnd c n) dm = snd (recv_end n c dm)"
| "daemon_step msg lib (CloseConnection c) dm = snd (handle_close_connection c dm)"
| "daemon_step msg lib (CloseListener i) dm = snd (handle_close_listener i dm)"

definition daemon_run :: "(exn \<Rightarrow> string) \<Rightarrow> wormhole_lib \<Rightarrow> daemon_event list \<Rightarrow> daemon \<Rightarrow> daemon" where
  "daemon_run msg lib evs dm = fold (daemon_step msg lib) evs dm"

lemma put_simps [simp]:
  "dget (dm_conns (put_conn c x dm)) c' = (if c' = c then Some x else dget (dm_conns dm) c')"
  "dm_listeners (put_conn c x dm) = dm_listeners dm" "dm_conns (put_listener i l dm) = dm_conns dm"
  "dget (dm_listeners (put_listener i l dm)) i' = (if i' = i then Some l else dget (dm_listeners dm) i')"
  by (simp_all add: put_conn_def put_listener_def)

lemma dget_map_snd: "dget (map (\<lambda>(k, v). (k, f v)) d) k = map_option f (dget d k)"
  by (induction d) auto

text \<open>A closed connection stays closed, unless its identifier is drawn again.\<close>

definition conn_closed :: "string \<Rightarrow> daemon \<Rightarrow> bool" where
  "conn_closed c dm \<longleftrightarrow> (\<exists>x. dget (dm_conns dm) c = Some x \<and> co_closed x)"

lemma handle_listen_conns: "dm_conns (snd (snd (handle_listen msg lib i b rm dm))) = dm_conns dm"
  by (auto simp: handle_listen_def split: sum.split prod.split)

lemma handle_close_listener_conns:
  "dget (dm_conns (snd (handle_close_listener i dm))) c =
     map_option (\<lambda>x. if tracked_listener dm i \<noteq> None \<and> co_tracked x \<and> co_listener x = i then drop_conn x else x)
       (dget (dm_conns dm) c)"
  by (cases "tracked_listener dm i") (simp_all add: handle_close_listener_def Let_def dget_map_snd option.map_ident)

lemma conn_closed_step:
  assumes "conn_closed c dm" "\<And>i. e \<noteq> Made i c"
  shows "conn_closed c (daemon_step msg lib e dm)"
proof (cases e)
  case (Listen i b rm)
  then show ?thesis using assms(1) by (simp add: conn_closed_def handle_listen_conns)
next
  case (AcceptLoop i b)
  then show ?thesis using assms(1) by (auto simp: conn_closed_def accept_connections_def split: option.split sum.split prod.split)
next
  case (Made i c')
  then show ?thesis using assms by (auto simp: conn_closed_def connection_made_def Let_def split: option.split)
next
  case (Received c' d)
  then show ?thesis using assms(1) by (auto simp: conn_closed_def data_received_def split: option.split)
next
  case (BridgeLost c')
  then show ?thesis using assms(1) by (auto simp: conn_closed_def bridge_lost_def split: option.split)
next
  case (AcceptEnd i)
  then show ?thesis using assms(1) by (auto simp: conn_closed_def accept_end_def split: option.split list.split)
next
  case (Send c' d)
  then show ?thesis
    using assms(1) by (auto simp: conn_closed_def handle_send_def tracked_conn_def split: option.splits if_splits)
next
  case (RecvEnd c' n)
  then show ?thesis using assms(1) by (auto simp: conn_closed_def recv_end_def split: option.split list.split)
next
  case (CloseConnection c')
  then show ?thesis
    using assms(1) by (auto simp: conn_closed_def handle_close_connection_def tracked_conn_def drop_conn_def split: option.splits if_splits)
next
  case (CloseListener i)
  then show ?thesis
    using assms(1) unfolding conn_closed_def CloseListener daemon_step.simps handle_close_listener_conns
    by (elim exE conjE) (simp only: option.map option.inject simp_thms, simp add: drop_conn_def)
qed

lemma conn_closed_run:
  "conn_closed c dm \<Longrightarrow> (\<And>i. Made i c \<notin> set evs) \<Longrightarrow> conn_closed c (daemon_run msg lib evs dm)"
  unfolding daemon_run_def
proof (induction evs arbitrary: dm)
  case (Cons e evs)
  then show ?case using conn_closed_step [OF Cons.prems(1), of e msg lib] by fastforce
qed simp

text \<open>
  Data are lost when the peer closes: from the moment the connection is lost on, whatever happens,
  every request to receive from it is refused, with 410 while it is tracked and 404 afterwards, so
  what was received and waits in its queue is returned to nobody who asks later.
\<close>

theorem closed_connection_loses_data:
  assumes "dget (dm_conns dm) c = Some x" "\<And>i. Made i c \<notin> set evs"
    and "recv_start True max_text c (daemon_run msg lib evs (bridge_lost c dm)) = r" "py_int max_text = Some n"
  shows "r = Inl (http_error 410 ''Connection closed'') \<or> r = Inl (http_error 404 ''Connection not found'')"
proof -
  have "conn_closed c (bridge_lost c dm)" using assms(1) by (simp add: conn_closed_def bridge_lost_def)
  then have "conn_closed c (daemon_run msg lib evs (bridge_lost c dm))" using assms(2) by (rule conn_closed_run)
  then show ?thesis
    using assms(3,4) by (auto simp: conn_closed_def recv_start_def tracked_conn_def split: option.splits if_splits)
qed

theorem closed_connection_loses_data_witness:
  "let dm = data_received ''c'' [1, 2] (connection_made ''l'' ''c'' (new_daemon 9475))
   in recv_start True ''65536'' ''c'' dm = Inr 65536
    \<and> recv_start True ''65536'' ''c'' (bridge_lost ''c'' dm) = Inl (http_error 410 ''Connection closed'')"
proof -
  let ?dm = "data_received ''c'' [1, 2] (connection_made ''l'' ''c'' (new_daemon 9475))"
  have n: "py_int ''65536'' = Some 65536" by code_simp
  have x: "dget (dm_conns ?dm) ''c'' = Some \<lparr>co_listener = ''l'', co_queue = [Some [1, 2]], co_closed = False,
      co_tracked = True, co_written = [], co_lost = False\<rparr>"
    by (simp add: data_received_def connection_made_def new_daemon_def put_conn_def)
  have "recv_start True ''65536'' ''c'' (bridge_lost ''c'' ?dm) \<noteq> Inl (http_error 404 ''Connection not found'')"
    using x n by (simp add: recv_start_def tracked_conn_def bridge_lost_def http_error_def)
  then have "recv_start True ''65536'' ''c'' (bridge_lost ''c'' ?dm) = Inl (http_error 410 ''Connection closed'')"
    using closed_connection_loses_data [OF x _ _ n, where evs = "[]"] by (simp add: daemon_run_def)
  then show ?thesis using x n by (simp add: recv_start_def tracked_conn_def)
qed

section \<open>The order of the data\<close>

fun response_body :: "http_response \<Rightarrow> bytes" where
  "response_body (BytesResponse _ b) = b"
| "response_body _ = []"

text \<open>The bodies of successive receives.\<close>

fun recv_many :: "nat \<Rightarrow> int \<Rightarrow> string \<Rightarrow> daemon \<Rightarrow> bytes" where
  "recv_many 0 n c dm = []"
| "recv_many (Suc k) n c dm = response_body (fst (recv_end n c dm)) @ recv_many k n c (snd (recv_end n c dm))"

lemma recv_end_data:
  assumes "dget (dm_conns dm) c = Some x" "co_queue x = Some d # q" "0 \<le> n"
  shows "recv_end n c dm =
    (BytesResponse 200 (take (nat n) d),
     put_conn c (x\<lparr>co_queue := q @ (if n < int (length d) then [Some (drop (nat n) d)] else [])\<rparr>) dm)"
  using assms pslice_nat [of d 0 "nat n"] pslice_nat [of d "nat n" "length d"]
  by (simp add: recv_end_def)

text \<open>
  C26. The order of received data: receives with a limit that no chunk exceeds return the chunks as
  they came; a chunk that exceeds the limit is cut, and its rest is returned after the chunks that
  came behind it.
\<close>

theorem received_data_order:
  assumes "dget (dm_conns dm) c = Some x" "co_queue x = map Some ds" "0 \<le> n"
  shows "((\<forall>d \<in> set ds. int (length d) \<le> n) \<longrightarrow> recv_many (length ds) n c dm = concat ds)
    \<and> (\<forall>d ds'. ds = d # ds' \<and> n < int (length d) \<and> int (length d) \<le> 2 * n \<and> (\<forall>d' \<in> set ds'. int (length d') \<le> n)
         \<longrightarrow> recv_many (Suc (length ds)) n c dm = take (nat n) d @ concat ds' @ drop (nat n) d)"
proof -
  have fit: "recv_many (length ds) n c dm = concat ds"
    if "dget (dm_conns dm) c = Some x" "co_queue x = map Some ds" "\<forall>d \<in> set ds. int (length d) \<le> n" for dm x ds
    using that
  proof (induction ds arbitrary: dm x)
    case (Cons d ds)
    have q: "co_queue x = Some d # map Some ds" using Cons.prems(2) by simp
    have l: "\<not> n < int (length d)" "length d \<le> nat n" using Cons.prems(3) by auto
    have "recv_many (length ds) n c (put_conn c (x\<lparr>co_queue := map Some ds\<rparr>) dm) = concat ds"
      by (rule Cons.IH) (use Cons.prems(3) in auto)
    then show ?case using recv_end_data [OF Cons.prems(1) q assms(3)] l by simp
  qed simp
  have "recv_many (Suc (length ds)) n c dm = take (nat n) d @ concat ds' @ drop (nat n) d"
    if "ds = d # ds'" "n < int (length d)" "int (length d) \<le> 2 * n" "\<forall>d' \<in> set ds'. int (length d') \<le> n" for d ds'
  proof -
    have q: "co_queue x = Some d # map Some ds'" using assms(2) that(1) by simp
    have "recv_many (length (ds' @ [drop (nat n) d])) n c
        (put_conn c (x\<lparr>co_queue := map Some (ds' @ [drop (nat n) d])\<rparr>) dm) = concat (ds' @ [drop (nat n) d])"
      by (rule fit) (use that(2-4) assms(3) in auto)
    then show ?thesis using recv_end_data [OF assms(1) q assms(3)] that by simp
  qed
  then show ?thesis using fit [OF assms(1,2)] by blast
qed

theorem received_data_order_witness:
  "let dm = data_received ''c'' [4] (data_received ''c'' [1, 2, 3] (connection_made ''l'' ''c'' (new_daemon 9475)))
   in recv_many 3 2 ''c'' dm = [1, 2, 4, 3]"
proof -
  let ?dm = "data_received ''c'' [4] (data_received ''c'' [1, 2, 3] (connection_made ''l'' ''c'' (new_daemon 9475)))"
  have x: "dget (dm_conns ?dm) ''c'' = Some \<lparr>co_listener = ''l'', co_queue = map Some [ [1, 2, 3], [4] ], co_closed = False,
      co_tracked = True, co_written = [], co_lost = False\<rparr>"
    by (simp add: data_received_def connection_made_def new_daemon_def put_conn_def)
  show ?thesis
    using conjunct2 [OF received_data_order [OF x, of "[ [1, 2, 3], [4] ]" 2], rule_format, of "[1, 2, 3]" "[ [4] ]"]
    by (simp add: numeral_2_eq_2 numeral_3_eq_3)
qed

section \<open>Closing and resolving\<close>

text \<open>
  Closing a listener closes its wormhole and every connection that came through it: none of them
  is tracked any longer, their transports are told to close, and all other connections and
  listeners are as they were.
\<close>

theorem listener_close_complete:
  assumes "tracked_listener dm i = Some l" "handle_close_listener i dm = (r, dm')"
  shows "response_status r = 200 \<and> tracked_listener dm' i = None
    \<and> (\<exists>l'. dget (dm_listeners dm') i = Some l' \<and> li_closed l' \<and> wm_wormhole (li_manager l') = None)
    \<and> (\<forall>j. j \<noteq> i \<longrightarrow> dget (dm_listeners dm') j = dget (dm_listeners dm) j)
    \<and> (\<forall>c x. dget (dm_conns dm) c = Some x \<longrightarrow>
         dget (dm_conns dm') c = Some (if co_tracked x \<and> co_listener x = i then drop_conn x else x))
    \<and> (\<forall>c x. tracked_conn dm' c = Some x \<longrightarrow> co_listener x \<noteq> i)"
proof -
  let ?l = "l\<lparr>li_closed := True, li_manager := close_manager (li_manager l), li_tracked := False\<rparr>"
  let ?f = "\<lambda>x. if co_tracked x \<and> co_listener x = i then drop_conn x else x"
  have r: "response_status r = 200" and m: "dm' = (put_listener i ?l dm)\<lparr>dm_conns := map (\<lambda>(c, x). (c, ?f x)) (dm_conns dm)\<rparr>"
    using assms by (auto simp: handle_close_listener_def Let_def)
  have c: "dget (dm_conns dm') c = map_option ?f (dget (dm_conns dm) c)" for c
    unfolding m by (simp add: dget_map_snd)
  have l: "dget (dm_listeners dm') j = (if j = i then Some ?l else dget (dm_listeners dm) j)" for j
    unfolding m by (simp add: put_listener_def)
  have "wm_wormhole (close_manager (li_manager l)) = None"
    by (simp add: close_manager_def split: option.split)
  moreover have "co_listener x \<noteq> i" if "tracked_conn dm' c = Some x" for c x
    using that c by (auto simp: tracked_conn_def drop_conn_def split: option.splits if_splits)
  ultimately show ?thesis using r l c by (auto simp: tracked_listener_def)
qed

theorem listener_close_complete_witness:
  "let l = \<lparr>li_code = ''7-guitar-sunset'', li_manager = toy_manager, li_protocol = JNull, li_queue = [], li_closed = False,
             li_tracked = True\<rparr>;
       (r, dm) = handle_close_listener ''l'' (connection_made ''l'' ''c'' (put_listener ''l'' l (new_daemon 9475)))
   in response_status r = 200 \<and> tracked_conn dm ''c'' = None"
proof -
  let ?l = "\<lparr>li_code = ''7-guitar-sunset'', li_manager = toy_manager, li_protocol = JNull, li_queue = [], li_closed = False,
             li_tracked = True\<rparr>"
  let ?dm = "connection_made ''l'' ''c'' (put_listener ''l'' ?l (new_daemon 9475))"
  have x: "dget (dm_conns ?dm) ''c'' = Some \<lparr>co_listener = ''l'', co_queue = [], co_closed = False, co_tracked = True,
      co_written = [], co_lost = False\<rparr>" and l: "tracked_listener ?dm ''l'' = Some (?l\<lparr>li_queue := [''c'']\<rparr>)"
    by (simp_all add: connection_made_def new_daemon_def tracked_listener_def)
  obtain r dm where h: "handle_close_listener ''l'' ?dm = (r, dm)" by fastforce
  show ?thesis using listener_close_complete [OF l h] x h by (simp add: tracked_conn_def drop_conn_def)
qed

text \<open>
  The daemon never resolves an address: \<^verbatim>\<open>resolve\<close> and \<^verbatim>\<open>connect\<close> answer 400 or 500, and 500 for
  every valid address, without looking it up; nothing is ever recorded as connected.
\<close>

theorem addresses_never_resolve:
  "\<exists>r. handle_resolve msg env body home = Some (r, home) \<and> daemon_connect msg env body home dm = Some (r, home, dm)
    \<and> (case request_address body of
         Inr a \<Rightarrow> response_status r = (if parse_wns_address a = None then 400 else 500)
       | Inl e \<Rightarrow> response_status r = 500)"
  by (cases "request_address body")
    (auto simp: handle_resolve_def daemon_connect_def resolve_address_def index_text_def http_error_def split: option.split)

end
