(* ===== verification/Stream_Core.thy ===== *)
theory Stream_Core
  imports Py_Bytes
begin

text \<open>
  The core of every streaming command: \<^verbatim>\<open>src/wh/core/protocol.py\<close> (the protocol of a subchannel and the
  netcat pipe), \<^verbatim>\<open>transport.py\<close> (the adapters between Twisted and asyncio and the pipe in memory) and
  \<^verbatim>\<open>forwarder.py\<close> (the forwarder to a local port). What Twisted and asyncio call is an operation on the
  state; everything that can happen at an \<^verbatim>\<open>await\<close> is a step of its own, so every order is a list of steps.
\<close>

section \<open>The protocol of a subchannel\<close>

text \<open>What is asked of a Twisted transport.\<close>

datatype transport_call = Write bytes | LoseConnection | LoseWriteConnection | AbortConnection

fun written :: "transport_call list \<Rightarrow> bytes" where
  "written [] = []"
| "written (Write d # ws) = d @ written ws"
| "written (_ # ws) = written ws"

lemma written_append [simp]: "written (xs @ ys) = written xs @ written ys"
  by (induction xs rule: written.induct) simp_all

text \<open>\<^verbatim>\<open>StreamingProtocol\<close>, with the callbacks as functions on the state of their owner.\<close>

record streaming =
  sp_transport :: bool
  sp_connected :: bool
  sp_wire :: "transport_call list"

record 's hooks =
  hk_data :: "(bytes \<Rightarrow> 's \<Rightarrow> 's) option"
  hk_made :: "('s \<Rightarrow> 's) option"
  hk_lost :: "(exn option \<Rightarrow> 's \<Rightarrow> 's) option"

definition new_streaming :: streaming where
  "new_streaming = \<lparr>sp_transport = False, sp_connected = False, sp_wire = []\<rparr>"

text \<open>\<^verbatim>\<open>buildProtocol\<close> of the factory: every connection gets a new protocol and the same callbacks.\<close>

definition build_protocol :: "'s hooks \<Rightarrow> streaming \<times> 's hooks" where
  "build_protocol hk = (new_streaming, hk)"

definition sp_made :: "'s hooks \<Rightarrow> streaming \<times> 's \<Rightarrow> streaming \<times> 's" where
  "sp_made hk ps =
     ((fst ps)\<lparr>sp_connected := True\<rparr>, case hk_made hk of None \<Rightarrow> snd ps | Some f \<Rightarrow> f (snd ps))"

text \<open>Twisted sets the transport and then calls \<^verbatim>\<open>connectionMade\<close>.\<close>

definition make_connection :: "'s hooks \<Rightarrow> streaming \<times> 's \<Rightarrow> streaming \<times> 's" where
  "make_connection hk ps = sp_made hk ((fst ps)\<lparr>sp_transport := True\<rparr>, snd ps)"

definition sp_data :: "'s hooks \<Rightarrow> bytes \<Rightarrow> streaming \<times> 's \<Rightarrow> streaming \<times> 's" where
  "sp_data hk d ps = (fst ps, case hk_data hk of None \<Rightarrow> snd ps | Some f \<Rightarrow> f d (snd ps))"

definition sp_lost :: "'s hooks \<Rightarrow> exn option \<Rightarrow> streaming \<times> 's \<Rightarrow> streaming \<times> 's" where
  "sp_lost hk e ps =
     ((fst ps)\<lparr>sp_connected := False\<rparr>, case hk_lost hk of None \<Rightarrow> snd ps | Some f \<Rightarrow> f e (snd ps))"

definition sp_send :: "bytes \<Rightarrow> streaming \<Rightarrow> streaming" where
  "sp_send d p = (if sp_transport p \<and> sp_connected p then p\<lparr>sp_wire := sp_wire p @ [Write d]\<rparr> else p)"

definition sp_close :: "streaming \<Rightarrow> streaming" where
  "sp_close p = (if sp_transport p then p\<lparr>sp_wire := sp_wire p @ [LoseConnection]\<rparr> else p)"

definition sp_half_close :: "streaming \<Rightarrow> streaming" where
  "sp_half_close p = (if sp_transport p then p\<lparr>sp_wire := sp_wire p @ [LoseWriteConnection]\<rparr> else p)"

lemma sp_send_simps [simp]:
  "sp_transport (sp_send d p) = sp_transport p" "sp_connected (sp_send d p) = sp_connected p"
  "written (sp_wire (sp_send d p)) = written (sp_wire p) @ (if sp_transport p \<and> sp_connected p then d else [])"
  by (simp_all add: sp_send_def)

lemma sp_close_simps [simp]:
  "sp_transport (sp_close p) = sp_transport p" "sp_connected (sp_close p) = sp_connected p"
  "written (sp_wire (sp_close p)) = written (sp_wire p)"
  "sp_transport (sp_half_close p) = sp_transport p" "sp_connected (sp_half_close p) = sp_connected p"
  "written (sp_wire (sp_half_close p)) = written (sp_wire p)"
  by (simp_all add: sp_close_def sp_half_close_def)

section \<open>The pipe between standard input and output and the peer\<close>

text \<open>
  The pump of standard input: how its set-up went (the reader of asyncio, the fallback through an
  executor after an \<^verbatim>\<open>OSError\<close> or \<^verbatim>\<open>NotImplementedError\<close>, or another exception) and what a read gave; an empty
  chunk is the end of the input.
\<close>

datatype pump = PumpOff | PumpStarting | PumpReader | PumpFallback

datatype pump_setup = ReaderReady | UseFallback | SetupRaises

datatype stdin_read = Chunk bytes | ReadTimeout | ReadOsError | ReadRaises

datatype role = Initiator | Listener

datatype pipe_phase = Connecting | Piping | Returned

text \<open>
  \<^verbatim>\<open>BidirectionalPipe\<close> during one run. \<^verbatim>\<open>pi_orphans\<close> counts the reads of the executor that nobody waits
  for any more, and \<^verbatim>\<open>pi_consumed\<close> is what has been taken from standard input.
\<close>

record pipe =
  pi_protocol :: bool
  pi_stdout :: bytes
  pi_done :: bool
  pi_fired :: bool
  pi_up :: bool
  pi_shutdown :: bool
  pi_phase :: pipe_phase
  pi_pump :: pump
  pi_orphans :: nat
  pi_consumed :: bytes

definition new_pipe :: pipe where
  "new_pipe =
     \<lparr>pi_protocol = False, pi_stdout = [], pi_done = False, pi_fired = False, pi_up = False, pi_shutdown = False,
      pi_phase = Connecting, pi_pump = PumpOff, pi_orphans = 0, pi_consumed = []\<rparr>"

text \<open>\<^verbatim>\<open>_on_data\<close>; an exception of standard output becomes a status message.\<close>

definition pipe_on_data :: "bool \<Rightarrow> bytes \<Rightarrow> pipe \<Rightarrow> pipe" where
  "pipe_on_data stdout_ok d s = (if stdout_ok then s\<lparr>pi_stdout := pi_stdout s @ d\<rparr> else s)"

definition pipe_on_lost :: "exn option \<Rightarrow> pipe \<Rightarrow> pipe" where
  "pipe_on_lost e s = s\<lparr>pi_done := True\<rparr>"

definition pipe_hooks :: "bool \<Rightarrow> pipe hooks" where
  "pipe_hooks stdout_ok =
     \<lparr>hk_data = Some (pipe_on_data stdout_ok), hk_made = Some (\<lambda>s. s\<lparr>pi_up := True\<rparr>), hk_lost = Some pipe_on_lost\<rparr>"

text \<open>The end of \<^verbatim>\<open>_pump_stdin\<close>, and the test at the head of its loop.\<close>

definition pump_end :: "pipe \<Rightarrow> pipe" where
  "pump_end s = s\<lparr>pi_pump := PumpOff, pi_done := True\<rparr>"

definition pump_next :: "pipe \<Rightarrow> pipe" where
  "pump_next s = (if pi_done s then pump_end s else s)"

definition pump_start :: "pump_setup \<Rightarrow> pipe \<Rightarrow> pipe" where
  "pump_start r s =
     (if pi_pump s \<noteq> PumpStarting then s
      else
        (case r of
           ReaderReady \<Rightarrow> pump_next (s\<lparr>pi_pump := PumpReader\<rparr>)
         | UseFallback \<Rightarrow> pump_next (s\<lparr>pi_pump := PumpFallback\<rparr>)
         | SetupRaises \<Rightarrow> pump_end s))"

text \<open>
  One read. An \<^verbatim>\<open>OSError\<close> of the reader leaves its loop for the fallback; every other exception ends the pump.
\<close>

definition pump_read :: "stdin_read \<Rightarrow> streaming \<times> pipe \<Rightarrow> streaming \<times> pipe" where
  "pump_read r ps =
     (let p = fst ps; s = snd ps in
      if pi_pump s \<noteq> PumpReader \<and> pi_pump s \<noteq> PumpFallback then ps
      else
        (case r of
           Chunk d \<Rightarrow>
             if d = [] then (if pi_protocol s then sp_half_close p else p, pump_end s)
             else (if pi_protocol s then sp_send d p else p, pump_next (s\<lparr>pi_consumed := pi_consumed s @ d\<rparr>))
         | ReadTimeout \<Rightarrow>
             (p, pump_next (if pi_pump s = PumpFallback then s\<lparr>pi_orphans := pi_orphans s + 1\<rparr> else s))
         | ReadOsError \<Rightarrow>
             (p, if pi_pump s = PumpReader then pump_next (s\<lparr>pi_pump := PumpFallback\<rparr>) else pump_end s)
         | ReadRaises \<Rightarrow> (p, pump_end s)))"

text \<open>A read of the executor that was given up ends: its bytes go nowhere.\<close>

definition orphan_read :: "bytes \<Rightarrow> pipe \<Rightarrow> pipe" where
  "orphan_read d s =
     (if pi_orphans s = 0 then s
      else s\<lparr>pi_orphans := pi_orphans s - 1, pi_consumed := pi_consumed s @ d\<rparr>)"

text \<open>The result of \<^verbatim>\<open>endpoint.connect\<close> and of \<^verbatim>\<open>endpoint.listen\<close>: only the initiator keeps the protocol.\<close>

definition initiator_fired :: "pipe \<Rightarrow> pipe" where
  "initiator_fired s = s\<lparr>pi_fired := True, pi_protocol := True\<rparr>"

definition listener_fired :: "pipe \<Rightarrow> pipe" where
  "listener_fired s = s\<lparr>pi_fired := True\<rparr>"

definition endpoint_fired :: "role \<Rightarrow> pipe \<Rightarrow> pipe" where
  "endpoint_fired r s = (case r of Initiator \<Rightarrow> initiator_fired s | Listener \<Rightarrow> listener_fired s)"

definition endpoint_failed :: "pipe \<Rightarrow> pipe" where
  "endpoint_failed s = (if pi_fired s then s else s\<lparr>pi_phase := Returned\<rparr>)"

text \<open>The pipe runs: a new pump, and the end once \<^verbatim>\<open>_done\<close> or the shutdown event is set.\<close>

definition start_piping :: "pipe \<Rightarrow> pipe" where
  "start_piping s = s\<lparr>pi_phase := Piping, pi_pump := PumpStarting\<rparr>"

definition end_piping :: "pipe \<Rightarrow> pipe" where
  "end_piping s =
     (if pi_done s \<or> pi_shutdown s then s\<lparr>pi_done := True, pi_phase := Returned, pi_pump := PumpOff\<rparr> else s)"

text \<open>
  The two methods, when they get their turn: \<^verbatim>\<open>run_as_initiator\<close> does not look at the shutdown event before
  it is connected, \<^verbatim>\<open>run_as_listener\<close> does.
\<close>

definition initiator_resume :: "pipe \<Rightarrow> pipe" where
  "initiator_resume s =
     (case pi_phase s of
        Connecting \<Rightarrow> if pi_fired s \<and> pi_up s then start_piping s else s
      | Piping \<Rightarrow> end_piping s
      | Returned \<Rightarrow> s)"

definition listener_resume :: "pipe \<Rightarrow> pipe" where
  "listener_resume s =
     (case pi_phase s of
        Connecting \<Rightarrow>
          if pi_fired s \<and> pi_shutdown s then s\<lparr>pi_phase := Returned\<rparr>
          else if pi_fired s \<and> pi_up s then start_piping s
          else s
      | Piping \<Rightarrow> end_piping s
      | Returned \<Rightarrow> s)"

definition pipe_resume :: "role \<Rightarrow> pipe \<Rightarrow> pipe" where
  "pipe_resume r s = (case r of Initiator \<Rightarrow> initiator_resume s | Listener \<Rightarrow> listener_resume s)"

text \<open>\<^verbatim>\<open>run_with_protocol\<close> starts with a connected protocol, and \<^verbatim>\<open>PipeProtocolFactory\<close> stores the one it builds.\<close>

definition run_with_protocol :: "pipe \<Rightarrow> pipe" where
  "run_with_protocol s = s\<lparr>pi_protocol := True, pi_phase := Piping, pi_pump := PumpStarting\<rparr>"

definition build_tracked :: "pipe \<Rightarrow> streaming \<times> pipe" where
  "build_tracked s = (new_streaming, s\<lparr>pi_protocol := True\<rparr>)"

datatype pipe_event =
    EndpointFired
  | EndpointFailed
  | PeerMade
  | PeerData bytes bool
  | PeerLost "exn option"
  | PumpSetup pump_setup
  | StdinRead stdin_read
  | OrphanRead bytes
  | ShutdownSet
  | ResumeRun

fun pipe_step :: "role \<Rightarrow> pipe_event \<Rightarrow> streaming \<times> pipe \<Rightarrow> streaming \<times> pipe" where
  "pipe_step r EndpointFired ps = apsnd (endpoint_fired r) ps"
| "pipe_step r EndpointFailed ps = apsnd endpoint_failed ps"
| "pipe_step r PeerMade ps = make_connection (pipe_hooks True) ps"
| "pipe_step r (PeerData d ok) ps = sp_data (pipe_hooks ok) d ps"
| "pipe_step r (PeerLost e) ps = sp_lost (pipe_hooks True) e ps"
| "pipe_step r (PumpSetup x) ps = apsnd (pump_start x) ps"
| "pipe_step r (StdinRead x) ps = pump_read x ps"
| "pipe_step r (OrphanRead d) ps = apsnd (orphan_read d) ps"
| "pipe_step r ShutdownSet ps = apsnd (\<lambda>s. s\<lparr>pi_shutdown := True\<rparr>) ps"
| "pipe_step r ResumeRun ps = apsnd (pipe_resume r) ps"

definition pipe_run :: "role \<Rightarrow> pipe_event list \<Rightarrow> streaming \<times> pipe" where
  "pipe_run r evs = fold (pipe_step r) evs (new_streaming, new_pipe)"

text \<open>The data that data_arrived and that standard output took.\<close>

fun data_arrived :: "pipe_event list \<Rightarrow> bytes" where
  "data_arrived [] = []"
| "data_arrived (PeerData d ok # evs) = (if ok then d else []) @ data_arrived evs"
| "data_arrived (_ # evs) = data_arrived evs"

lemmas resume_defs = pipe_resume_def initiator_resume_def listener_resume_def start_piping_def end_piping_def

lemmas fired_defs = endpoint_fired_def initiator_fired_def listener_fired_def

lemmas pipe_defs = fired_defs endpoint_failed_def make_connection_def sp_made_def sp_data_def sp_lost_def
  pipe_hooks_def pipe_on_data_def pipe_on_lost_def pump_start_def pump_read_def pump_next_def pump_end_def
  orphan_read_def resume_defs

lemma arrived_snoc: "data_arrived (evs @ [e]) = data_arrived evs @ data_arrived [e]"
  by (induction evs rule: data_arrived.induct) simp_all

text \<open>
  What holds of a run without a lost connection and without reads given up: the pump runs only over
  a live connection, and an initiator's pump has a protocol.
\<close>

definition pipe_ok :: "role \<Rightarrow> streaming \<times> pipe \<Rightarrow> bool" where
  "pipe_ok r ps \<longleftrightarrow>
     (pi_protocol (snd ps) \<longleftrightarrow> pi_fired (snd ps) \<and> r = Initiator)
   \<and> (pi_up (snd ps) \<longrightarrow> sp_transport (fst ps) \<and> sp_connected (fst ps))
   \<and> (pi_pump (snd ps) \<noteq> PumpOff \<longrightarrow> pi_fired (snd ps) \<and> pi_up (snd ps))
   \<and> written (sp_wire (fst ps)) = (if r = Initiator then pi_consumed (snd ps) else [])"

lemma pump_read_ok: "pipe_ok r ps \<Longrightarrow> pipe_ok r (pump_read x ps)"
  by (cases x) (auto simp: pipe_ok_def pump_read_def pump_next_def pump_end_def Let_def)

lemma pipe_step_ok:
  assumes "pipe_ok r ps" "\<And>x. e \<noteq> PeerLost x" "\<And>d. e \<noteq> OrphanRead d"
  shows "pipe_ok r (pipe_step r e ps)"
proof (cases e)
  case (StdinRead x)
  then show ?thesis using assms(1) by (simp add: pump_read_ok)
next
  case (PumpSetup x)
  then show ?thesis using assms(1) by (cases x) (auto simp: pipe_ok_def pump_start_def pump_next_def pump_end_def)
next
  case ResumeRun
  then show ?thesis using assms(1) by (cases r; cases "pi_phase (snd ps)") (auto simp: pipe_ok_def resume_defs)
qed (use assms in \<open>auto simp: pipe_ok_def pipe_defs split: role.split\<close>)

lemma pump_read_stdout: "pi_stdout (snd (pump_read x ps)) = pi_stdout (snd ps)"
  by (cases x) (auto simp: pump_read_def pump_next_def pump_end_def Let_def)

lemma pipe_step_stdout: "pi_stdout (snd (pipe_step r e ps)) = pi_stdout (snd ps) @ data_arrived [e]"
  by (cases e)
    (auto simp: pump_read_stdout fired_defs endpoint_failed_def make_connection_def sp_made_def sp_data_def
      sp_lost_def pipe_hooks_def pipe_on_data_def pipe_on_lost_def pump_start_def pump_next_def pump_end_def
      orphan_read_def resume_defs split: pump_setup.split pipe_phase.split role.split)

text \<open>
  C19. The netcat pipe, for every order of events in which the connection is not lost and no read of
  standard input was given up: standard output gets exactly what the peer sends, in order; the peer
  of an initiator is sent exactly what was read from standard input, in order; a listener, which
  never keeps the protocol of its connection, sends nothing of what it reads.
\<close>

theorem pipe_copies:
  assumes "\<And>x. PeerLost x \<notin> set evs" "\<And>d. OrphanRead d \<notin> set evs"
  shows "pi_stdout (snd (pipe_run r evs)) = data_arrived evs
    \<and> written (sp_wire (fst (pipe_run r evs))) = (case r of Initiator \<Rightarrow> pi_consumed (snd (pipe_run r evs)) | Listener \<Rightarrow> [])"
proof -
  have "pipe_ok r (pipe_run r evs) \<and> pi_stdout (snd (pipe_run r evs)) = data_arrived evs"
    using assms
  proof (induction evs rule: rev_induct)
    case Nil
    then show ?case by (simp add: pipe_run_def pipe_ok_def new_pipe_def new_streaming_def)
  next
    case (snoc e evs)
    have s: "pipe_run r (evs @ [e]) = pipe_step r e (pipe_run r evs)" by (simp add: pipe_run_def)
    have i: "pipe_ok r (pipe_run r evs)" "pi_stdout (snd (pipe_run r evs)) = data_arrived evs"
      using snoc by auto
    have "e \<noteq> PeerLost x" "e \<noteq> OrphanRead d" for x d using snoc.prems(1) [of x] snoc.prems(2) [of d] by auto
    then show ?case unfolding s using pipe_step_ok [OF i(1), of e] i(2) by (simp add: pipe_step_stdout arrived_snoc)
  qed
  then show ?thesis by (simp add: pipe_ok_def split: role.split)
qed

theorem pipe_copies_witness:
  "let evs = [EndpointFired, PeerMade, ResumeRun, PumpSetup ReaderReady, StdinRead (Chunk [1, 2]), PeerData [7] True,
              StdinRead ReadTimeout, StdinRead (Chunk [3])]
   in pi_stdout (snd (pipe_run Initiator evs)) = [7] \<and> written (sp_wire (fst (pipe_run Initiator evs))) = [1, 2, 3]
    \<and> pi_consumed (snd (pipe_run Listener evs)) = [1, 2, 3] \<and> written (sp_wire (fst (pipe_run Listener evs))) = []"
proof -
  let ?evs = "[EndpointFired, PeerMade, ResumeRun, PumpSetup ReaderReady, StdinRead (Chunk [1, 2]), PeerData [7] True,
              StdinRead ReadTimeout, StdinRead (Chunk [3])]"
  have "pi_consumed (snd (pipe_run r ?evs)) = [1, 2, 3]" for r
    by (cases r) (simp_all add: pipe_run_def pipe_defs new_pipe_def new_streaming_def)
  then show ?thesis using pipe_copies [of ?evs Initiator] pipe_copies [of ?evs Listener] by simp
qed


section \<open>Forwarding to a local port\<close>

text \<open>
  \<^verbatim>\<open>ForwarderProtocol\<close> of \<^verbatim>\<open>PortForwarder.run\<close>: \<^verbatim>\<open>fw_writer\<close> holds once the local connection is open, and
  \<^verbatim>\<open>fw_task\<close> while its reader runs.
\<close>

record forwarder =
  fw_proto :: streaming
  fw_writer :: bool
  fw_task :: bool
  fw_local :: bytes
  fw_closed :: bool

definition new_forwarder :: forwarder where
  "new_forwarder = \<lparr>fw_proto = new_streaming, fw_writer = False, fw_task = False, fw_local = [], fw_closed = False\<rparr>"

datatype forward_event =
    TunnelMade
  | LocalConnected
  | LocalFailed
  | LocalRead stdin_read
  | TunnelData bytes
  | TunnelLost "exn option"

definition fw_made :: "forwarder \<Rightarrow> forwarder" where
  "fw_made f = f\<lparr>fw_proto := (fw_proto f)\<lparr>sp_transport := True, sp_connected := True\<rparr>\<rparr>"

definition connect_local :: "bool \<Rightarrow> forwarder \<Rightarrow> forwarder" where
  "connect_local ok f =
     (if ok then f\<lparr>fw_writer := True, fw_task := True\<rparr> else f\<lparr>fw_proto := sp_close (fw_proto f)\<rparr>)"

definition forward_from_local :: "stdin_read \<Rightarrow> forwarder \<Rightarrow> forwarder" where
  "forward_from_local r f =
     (if \<not> fw_task f then f
      else
        (case r of
           Chunk d \<Rightarrow>
             if d = [] then f\<lparr>fw_task := False, fw_proto := sp_close (fw_proto f)\<rparr>
             else f\<lparr>fw_proto := sp_send d (fw_proto f)\<rparr>
         | _ \<Rightarrow> f\<lparr>fw_task := False, fw_proto := sp_close (fw_proto f)\<rparr>))"

definition fw_data :: "bytes \<Rightarrow> forwarder \<Rightarrow> forwarder" where
  "fw_data d f = (if fw_writer f then f\<lparr>fw_local := fw_local f @ d\<rparr> else f)"

text \<open>Cancelling the task runs its \<^verbatim>\<open>finally\<close>.\<close>

definition fw_lost :: "forwarder \<Rightarrow> forwarder" where
  "fw_lost f =
     (let f1 = f\<lparr>fw_proto := (fw_proto f)\<lparr>sp_connected := False\<rparr>\<rparr>;
          f2 = (if fw_writer f1 then f1\<lparr>fw_closed := True\<rparr> else f1)
      in if fw_task f2 then f2\<lparr>fw_task := False, fw_proto := sp_close (fw_proto f2)\<rparr> else f2)"

fun forward_step :: "forward_event \<Rightarrow> forwarder \<Rightarrow> forwarder" where
  "forward_step TunnelMade f = fw_made f"
| "forward_step LocalConnected f = connect_local True f"
| "forward_step LocalFailed f = connect_local False f"
| "forward_step (LocalRead r) f = forward_from_local r f"
| "forward_step (TunnelData d) f = fw_data d f"
| "forward_step (TunnelLost e) f = fw_lost f"

definition forward_run :: "forward_event list \<Rightarrow> forwarder \<Rightarrow> forwarder" where
  "forward_run evs f = fold forward_step evs f"

fun tunnel_bytes :: "forward_event list \<Rightarrow> bytes" where
  "tunnel_bytes [] = []"
| "tunnel_bytes (TunnelData d # evs) = d @ tunnel_bytes evs"
| "tunnel_bytes (_ # evs) = tunnel_bytes evs"

lemma forward_run_writer: "fw_writer f \<Longrightarrow> fw_local (forward_run evs f) = fw_local f @ tunnel_bytes evs"
  unfolding forward_run_def
proof (induction evs arbitrary: f)
  case (Cons e evs)
  have "fw_writer (forward_step e f) \<and> fw_local (forward_step e f) = fw_local f @ tunnel_bytes [e]"
    using Cons.prems
    by (cases e) (auto simp: fw_made_def connect_local_def forward_from_local_def fw_data_def fw_lost_def Let_def
      split: stdin_read.split)
  then show ?case using Cons.IH [of "forward_step e f"] by (cases e) auto
qed simp

lemma forward_run_waiting:
  "\<not> fw_writer f \<Longrightarrow> LocalConnected \<notin> set evs \<Longrightarrow>
    \<not> fw_writer (forward_run evs f) \<and> fw_local (forward_run evs f) = fw_local f \<and> fw_closed (forward_run evs f) = fw_closed f"
  unfolding forward_run_def
proof (induction evs arbitrary: f)
  case (Cons e evs)
  have "\<not> fw_writer (forward_step e f) \<and> fw_local (forward_step e f) = fw_local f \<and> fw_closed (forward_step e f) = fw_closed f"
    using Cons.prems
    by (cases e) (auto simp: fw_made_def connect_local_def forward_from_local_def fw_data_def fw_lost_def Let_def
      split: stdin_read.split)
  then show ?case using Cons.IH [of "forward_step e f"] Cons.prems(2) by auto
qed simp

text \<open>
  The forwarder of \<^verbatim>\<open>wh listen -p\<close>: the local service gets exactly the data that arrive after the
  local connection is open, in order; what data_arrived before is lost. The local connection is closed
  exactly if the tunnel is lost after it opened: when the tunnel was lost before, it stays open.
\<close>

theorem forwarder_delivers:
  assumes "LocalConnected \<notin> set evs"
  shows "fw_local (forward_run (evs @ LocalConnected # evs') new_forwarder) = tunnel_bytes evs'
    \<and> (fw_closed (forward_run (evs @ LocalConnected # evs') new_forwarder) \<longleftrightarrow> (\<exists>x. TunnelLost x \<in> set evs'))"
proof -
  let ?f = "forward_run evs new_forwarder"
  have w: "\<not> fw_writer ?f" "fw_local ?f = []" "\<not> fw_closed ?f"
    using forward_run_waiting [OF _ assms, of new_forwarder] by (simp_all add: new_forwarder_def)
  have r: "forward_run (evs @ LocalConnected # evs') new_forwarder = forward_run evs' (connect_local True ?f)"
    by (simp add: forward_run_def)
  have c: "fw_writer f \<Longrightarrow> fw_closed (forward_run es f) \<longleftrightarrow> fw_closed f \<or> (\<exists>x. TunnelLost x \<in> set es)" for es f
    unfolding forward_run_def
  proof (induction es arbitrary: f)
    case (Cons e es)
    have "fw_writer (forward_step e f) \<and> (fw_closed (forward_step e f) \<longleftrightarrow> fw_closed f \<or> (\<exists>x. e = TunnelLost x))"
      using Cons.prems
      by (cases e) (auto simp: fw_made_def connect_local_def forward_from_local_def fw_data_def fw_lost_def Let_def
        split: stdin_read.split)
    then show ?case using Cons.IH [of "forward_step e f"] by auto
  qed simp
  show ?thesis
    unfolding r using forward_run_writer [of "connect_local True ?f" evs'] c [of "connect_local True ?f" evs'] w
    by (simp add: connect_local_def)
qed

theorem forwarder_delivers_witness:
  "let f = forward_run [TunnelMade, TunnelData [1], LocalConnected, TunnelData [2], LocalRead (Chunk [9])] new_forwarder
   in fw_local f = [2] \<and> written (sp_wire (fw_proto f)) = [9]"
  using forwarder_delivers [of "[TunnelMade, TunnelData [1]]" "[TunnelData [2], LocalRead (Chunk [9])]"]
  by (simp add: forward_run_def new_forwarder_def new_streaming_def fw_made_def fw_data_def connect_local_def
    forward_from_local_def sp_send_def)


section \<open>A Twisted transport as one of asyncio\<close>

text \<open>\<^verbatim>\<open>AsyncioTransportAdapter\<close>: \<^verbatim>\<open>half\<close> says whether the transport can lose its writing half.\<close>

record adapter =
  ad_transport :: bool
  ad_half :: bool
  ad_closing :: bool
  ad_wire :: "transport_call list"
  ad_protocol :: "nat option"

definition new_adapter :: "bool \<Rightarrow> bool \<Rightarrow> adapter" where
  "new_adapter t h = \<lparr>ad_transport = t, ad_half = h, ad_closing = False, ad_wire = [], ad_protocol = None\<rparr>"

datatype extra_info = Endpoint string nat | NoInfo

definition get_extra_info :: "string \<Rightarrow> extra_info \<Rightarrow> extra_info" where
  "get_extra_info k dflt =
     (if k = ''peername'' then Endpoint ''wormhole'' 0
      else if k = ''sockname'' then Endpoint ''wormhole'' 0
      else if k \<in> {''socket'', ''compression'', ''cipher'', ''peercert'', ''sslcontext''} then NoInfo
      else dflt)"

definition ad_ask :: "transport_call \<Rightarrow> adapter \<Rightarrow> adapter" where
  "ad_ask w a = (if ad_transport a then a\<lparr>ad_wire := ad_wire a @ [w]\<rparr> else a)"

definition ad_close :: "adapter \<Rightarrow> adapter" where
  "ad_close a = (if ad_closing a then a else ad_ask LoseConnection (a\<lparr>ad_closing := True\<rparr>))"

definition ad_write :: "bytes \<Rightarrow> adapter \<Rightarrow> adapter" where
  "ad_write d a = (if ad_closing a then a else ad_ask (Write d) a)"

definition ad_writelines :: "bytes list \<Rightarrow> adapter \<Rightarrow> adapter" where
  "ad_writelines ds a = fold ad_write ds a"

definition ad_write_eof :: "adapter \<Rightarrow> adapter" where
  "ad_write_eof a = (if ad_half a then ad_ask LoseWriteConnection a else a)"

definition ad_abort :: "adapter \<Rightarrow> adapter" where
  "ad_abort a = ad_ask AbortConnection (a\<lparr>ad_closing := True\<rparr>)"

datatype adapter_call = CallClose | CallWrite bytes | CallWritelines "bytes list" | CallWriteEof | CallAbort | CallSetProtocol nat

fun adapter_step :: "adapter_call \<Rightarrow> adapter \<Rightarrow> adapter" where
  "adapter_step CallClose a = ad_close a"
| "adapter_step (CallWrite d) a = ad_write d a"
| "adapter_step (CallWritelines ds) a = ad_writelines ds a"
| "adapter_step CallWriteEof a = ad_write_eof a"
| "adapter_step CallAbort a = ad_abort a"
| "adapter_step (CallSetProtocol p) a = a\<lparr>ad_protocol := Some p\<rparr>"

definition adapter_run :: "adapter_call list \<Rightarrow> adapter \<Rightarrow> adapter" where
  "adapter_run cs a = fold adapter_step cs a"

fun call_bytes :: "adapter_call \<Rightarrow> bytes" where
  "call_bytes (CallWrite d) = d"
| "call_bytes (CallWritelines ds) = concat ds"
| "call_bytes _ = []"

definition closing_call :: "adapter_call \<Rightarrow> bool" where
  "closing_call c \<longleftrightarrow> c = CallClose \<or> c = CallAbort"

lemma ad_writelines_open:
  "\<not> ad_closing a \<Longrightarrow> ad_transport a \<Longrightarrow> ad_writelines ds a = a\<lparr>ad_wire := ad_wire a @ map Write ds\<rparr>"
  unfolding ad_writelines_def by (induction ds arbitrary: a) (simp_all add: ad_write_def ad_ask_def)

lemma ad_writelines_closing: "ad_closing a \<Longrightarrow> ad_writelines ds a = a"
  unfolding ad_writelines_def by (induction ds) (simp_all add: ad_write_def)

lemma written_map_Write [simp]: "written (map Write ds) = concat ds"
  by (induction ds) simp_all

lemma adapter_step_transport: "ad_transport (adapter_step c a) = ad_transport a"
proof (cases c)
  case (CallWritelines ds)
  have "ad_transport (fold ad_write ds a) = ad_transport a"
    by (induction ds arbitrary: a) (simp_all add: ad_write_def ad_ask_def)
  then show ?thesis using CallWritelines by (simp add: ad_writelines_def)
qed (simp_all add: ad_close_def ad_write_def ad_write_eof_def ad_abort_def ad_ask_def)

lemma adapter_closing_silent:
  "ad_closing a \<Longrightarrow> written (ad_wire (adapter_run cs a)) = written (ad_wire a)
    \<and> count_list (ad_wire (adapter_run cs a)) LoseConnection = count_list (ad_wire a) LoseConnection"
  unfolding adapter_run_def
proof (induction cs arbitrary: a)
  case (Cons c cs)
  have "ad_closing (adapter_step c a) \<and> written (ad_wire (adapter_step c a)) = written (ad_wire a)
    \<and> count_list (ad_wire (adapter_step c a)) LoseConnection = count_list (ad_wire a) LoseConnection"
    using Cons.prems
    by (cases c) (simp_all add: ad_writelines_closing ad_close_def ad_write_def ad_write_eof_def ad_abort_def ad_ask_def
      count_list_append)
  then show ?case using Cons.IH [of "adapter_step c a"] by simp
qed simp

lemma adapter_open_writes:
  "\<not> ad_closing a \<Longrightarrow> ad_transport a \<Longrightarrow> (\<forall>c \<in> set cs. \<not> closing_call c) \<Longrightarrow>
    \<not> ad_closing (adapter_run cs a) \<and> ad_transport (adapter_run cs a)
    \<and> written (ad_wire (adapter_run cs a)) = written (ad_wire a) @ concat (map call_bytes cs)
    \<and> count_list (ad_wire (adapter_run cs a)) LoseConnection = count_list (ad_wire a) LoseConnection"
  unfolding adapter_run_def
proof (induction cs arbitrary: a)
  case (Cons c cs)
  have m: "count_list (map Write ds) LoseConnection = 0" for ds by (induction ds) simp_all
  have "\<not> ad_closing (adapter_step c a) \<and> ad_transport (adapter_step c a)
    \<and> written (ad_wire (adapter_step c a)) = written (ad_wire a) @ call_bytes c
    \<and> count_list (ad_wire (adapter_step c a)) LoseConnection = count_list (ad_wire a) LoseConnection"
    using Cons.prems m
    by (cases c) (simp_all add: ad_writelines_open ad_close_def ad_write_def ad_write_eof_def ad_abort_def ad_ask_def
      count_list_append closing_call_def)
  then show ?case using Cons.IH [of "adapter_step c a"] Cons.prems(3) by simp
qed simp

text \<open>
  The adapter under asyncio writes to its transport exactly the bytes of the calls before the
  first close or abort, in order, and nothing after it, and it asks the transport to lose its
  connection at most once.
\<close>

theorem adapter_writes_until_close:
  assumes "\<forall>c \<in> set cs. \<not> closing_call c" "closing_call c"
  shows "written (ad_wire (adapter_run (cs @ c # cs') (new_adapter True h))) = concat (map call_bytes cs)
    \<and> count_list (ad_wire (adapter_run (cs @ c # cs') (new_adapter True h))) LoseConnection = (if c = CallClose then 1 else 0)"
proof -
  let ?a = "adapter_run cs (new_adapter True h)"
  have o: "\<not> ad_closing ?a" "ad_transport ?a" "written (ad_wire ?a) = concat (map call_bytes cs)"
    "count_list (ad_wire ?a) LoseConnection = 0"
    using adapter_open_writes [OF _ _ assms(1), of "new_adapter True h"] by (simp_all add: new_adapter_def)
  have "ad_closing (adapter_step c ?a)" "written (ad_wire (adapter_step c ?a)) = concat (map call_bytes cs)"
    "count_list (ad_wire (adapter_step c ?a)) LoseConnection = (if c = CallClose then 1 else 0)"
    using o assms(2) by (auto simp: closing_call_def ad_close_def ad_abort_def ad_ask_def count_list_append)
  then show ?thesis
    using adapter_closing_silent [of "adapter_step c ?a" cs'] by (simp add: adapter_run_def)
qed

theorem adapter_writes_until_close_witness:
  "ad_wire (adapter_run [CallWrite [1], CallWritelines [ [2], [3] ], CallClose, CallWrite [4], CallClose] (new_adapter True True))
     = [Write [1], Write [2], Write [3], LoseConnection]
   \<and> written [Write [1], Write [2], Write [3], LoseConnection] = [1, 2, 3]"
  using adapter_writes_until_close [of "[CallWrite [1], CallWritelines [ [2], [3] ] ]" CallClose "[CallWrite [4], CallClose]" True]
  by (simp add: closing_call_def adapter_run_def new_adapter_def ad_write_def ad_writelines_def ad_ask_def ad_close_def)

text \<open>\<^verbatim>\<open>TwistedProtocolAdapter\<close>: what Twisted calls is scheduled in the event loop of asyncio, in order.\<close>

datatype asyncio_call = ConnectionMadeCall | DataReceivedCall bytes | ConnectionLostCall "exn option"

record bridge =
  br_transport :: bool
  br_scheduled :: "asyncio_call list"

definition br_make_connection :: "bridge \<Rightarrow> bridge" where
  "br_make_connection b = b\<lparr>br_transport := True, br_scheduled := br_scheduled b @ [ConnectionMadeCall]\<rparr>"

definition br_data_received :: "bytes \<Rightarrow> bridge \<Rightarrow> bridge" where
  "br_data_received d b = b\<lparr>br_scheduled := br_scheduled b @ [DataReceivedCall d]\<rparr>"

definition br_connection_lost :: "exn option \<Rightarrow> bridge \<Rightarrow> bridge" where
  "br_connection_lost e b = b\<lparr>br_scheduled := br_scheduled b @ [ConnectionLostCall e]\<rparr>"

section \<open>The pipe in memory\<close>

datatype side = SideA | SideB

fun other_side :: "side \<Rightarrow> side" where
  "other_side SideA = SideB"
| "other_side SideB = SideA"

text \<open>
  \<^verbatim>\<open>DuplexPipe\<close> with its two endpoints: the queue towards each side and whether the endpoint of a side is
  closed. \<^verbatim>\<open>dp_closed\<close> is the flag of the pipe, which nothing reads.
\<close>

record duplex =
  dp_queue :: "side \<Rightarrow> bytes list"
  dp_end_closed :: "side \<Rightarrow> bool"
  dp_closed :: bool

definition new_duplex :: duplex where
  "new_duplex = \<lparr>dp_queue = (\<lambda>_. []), dp_end_closed = (\<lambda>_. False), dp_closed = False\<rparr>"

definition end_write :: "side \<Rightarrow> bytes \<Rightarrow> duplex \<Rightarrow> duplex" where
  "end_write s d p =
     (if dp_end_closed p s then p
      else p\<lparr>dp_queue := (dp_queue p)(other_side s := dp_queue p (other_side s) @ [d])\<rparr>)"

definition end_close :: "side \<Rightarrow> duplex \<Rightarrow> duplex" where
  "end_close s p = p\<lparr>dp_end_closed := (dp_end_closed p)(s := True), dp_closed := True\<rparr>"

text \<open>\<^const>\<open>None\<close> waits. The size is not used.\<close>

definition end_read :: "side \<Rightarrow> duplex \<Rightarrow> bytes option \<times> duplex" where
  "end_read s p =
     (if dp_end_closed p s then (Some [], p)
      else
        (case dp_queue p s of
           [] \<Rightarrow> (None, p)
         | d # ds \<Rightarrow> (Some d, p\<lparr>dp_queue := (dp_queue p)(s := ds)\<rparr>)))"

datatype duplex_op = EndWrite side bytes | EndRead side | EndClose side

text \<open>What each side has written while open and has read while open, chunk by chunk.\<close>

type_synonym duplex_log = "(side \<Rightarrow> bytes list) \<times> (side \<Rightarrow> bytes list)"

fun duplex_step :: "duplex_op \<Rightarrow> duplex \<times> duplex_log \<Rightarrow> duplex \<times> duplex_log" where
  "duplex_step (EndWrite s d) (p, w, r) =
     (end_write s d p, if dp_end_closed p s then w else w(s := w s @ [d]), r)"
| "duplex_step (EndRead s) (p, w, r) =
     (case end_read s p of
        (Some d, p') \<Rightarrow> (p', w, if dp_end_closed p s then r else r(s := r s @ [d]))
      | (None, p') \<Rightarrow> (p', w, r))"
| "duplex_step (EndClose s) (p, w, r) = (end_close s p, w, r)"

definition duplex_run :: "duplex_op list \<Rightarrow> duplex \<times> duplex_log" where
  "duplex_run ops = fold duplex_step ops (new_duplex, \<lambda>_. [], \<lambda>_. [])"

definition duplex_fifo :: "duplex \<times> duplex_log \<Rightarrow> bool" where
  "duplex_fifo x \<longleftrightarrow> (\<forall>s. fst (snd x) (other_side s) = snd (snd x) s @ dp_queue (fst x) s)"

lemma other_side_simps [simp]: "other_side (other_side s) = s" "other_side s \<noteq> s" "s \<noteq> other_side s"
  by (cases s; simp)+

lemma all_sides: "(\<forall>s. P s) \<longleftrightarrow> P SideA \<and> P SideB"
  by (metis side.exhaust)

lemma duplex_step_fifo: "duplex_fifo x \<Longrightarrow> duplex_fifo (duplex_step op x)"
proof (cases x)
  case (fields p w r)
  assume "duplex_fifo x"
  then show ?thesis
    unfolding fields duplex_fifo_def all_sides
    by (cases op rule: duplex_op.exhaust [case_names W R C]; cases "case op of EndWrite s d \<Rightarrow> s | EndRead s \<Rightarrow> s | EndClose s \<Rightarrow> s")
      (auto simp: end_write_def end_read_def end_close_def split: list.split)
qed

text \<open>
  The pipe in memory is first in, first out in both directions, whatever the order of the
  operations: what one side has read is what the other has written, less what is still queued; and
  closing an end does not tell the other, whose read on an empty queue waits.
\<close>

theorem duplex_pipe_fifo:
  "case duplex_run ops of
     (p, w, r) \<Rightarrow> w (other_side s) = r s @ dp_queue p s
       \<and> (\<not> dp_end_closed p s \<and> dp_queue p s = [] \<longrightarrow> fst (end_read s (end_close (other_side s) p)) = None)"
proof -
  have "duplex_fifo (duplex_run ops)"
    unfolding duplex_run_def
    by (rule fold_invariant [where Q = "\<lambda>_. True"])
      (simp_all add: duplex_step_fifo, simp add: duplex_fifo_def new_duplex_def)
  then show ?thesis
    by (auto simp: duplex_fifo_def end_read_def end_close_def split: prod.split)
qed

theorem duplex_pipe_fifo_witness:
  "case duplex_run [EndWrite SideA [1], EndWrite SideA [2], EndRead SideB, EndRead SideB] of
     (p, w, r) \<Rightarrow> r SideB = [ [1], [2] ] \<and> fst (end_read SideB (end_close SideA p)) = None"
  using duplex_pipe_fifo [of SideB "[EndWrite SideA [1], EndWrite SideA [2], EndRead SideB, EndRead SideB]"]
  by (simp add: duplex_run_def new_duplex_def end_write_def end_read_def)

end
