(* ===== verification/Chunked.thy ===== *)
theory Chunked
  imports Framing
begin

text \<open>
  Receivers whose messages tell their own length (\<^verbatim>\<open>src/wh/cli/tunnel.py\<close>, \<^verbatim>\<open>ping.py\<close>): the loop that
  takes one message after another off the buffer and handles it, and the interface of such a format.
\<close>

section \<open>The loop\<close>

text \<open>
  At the front of a buffer there is no complete message yet, something that raises and stays in the
  buffer, or a message with the rest of the buffer behind it. A handler that raises leaves that rest.
\<close>

datatype 'm took = More | Bad exn | Took 'm bytes

function msg_loop ::
  "(bytes \<Rightarrow> 'm took) \<Rightarrow> ('m \<Rightarrow> 's \<Rightarrow> exn option \<times> 's) \<Rightarrow> bytes \<Rightarrow> 's \<Rightarrow> exn option \<times> bytes \<times> 's" where
  "msg_loop next h buf s =
     (case next buf of
        More \<Rightarrow> (None, buf, s)
      | Bad e \<Rightarrow> (Some e, buf, s)
      | Took m rest \<Rightarrow>
          (case h m s of
             (Some e, s') \<Rightarrow> (Some e, rest, s')
           | (None, s') \<Rightarrow>
               if length rest < length buf then msg_loop next h rest s' else (None, rest, s')))"
  by pat_completeness auto

termination by (relation "measure (\<lambda>(next, h, buf, s). length buf)") auto

declare msg_loop.simps [simp del]

text \<open>\<^verbatim>\<open>_on_data\<close>: the chunk goes behind the buffer, then the loop.\<close>

definition msg_feed ::
  "(bytes \<Rightarrow> 'm took) \<Rightarrow> ('m \<Rightarrow> 's \<Rightarrow> exn option \<times> 's) \<Rightarrow> bytes \<Rightarrow> bytes \<times> 's \<Rightarrow> bytes \<times> 's" where
  "msg_feed next h chunk bs = snd (msg_loop next h (fst bs @ chunk) (snd bs))"

lemma msg_loop_inv:
  assumes "\<And>m s. Q s \<Longrightarrow> Q (snd (h m s))" "Q s"
  shows "Q (snd (snd (msg_loop next h buf s)))"
  using assms
proof (induction "next" h buf s rule: msg_loop.induct)
  case (1 "next" h buf s)
  show ?case
  proof (cases "next buf")
    case (Took m rest)
    obtain e s' where h: "h m s = (e, s')" by fastforce
    then have q: "Q s'" using 1(2) [OF 1(3), of m] by simp
    show ?thesis
    proof (cases e)
      case None
      then show ?thesis using 1(1) [OF Took h [symmetric] None _ 1(2) q] Took h q
        by (simp add: msg_loop.simps [of "next" h buf s])
    qed (use Took h q in \<open>simp add: msg_loop.simps [of "next" h buf s]\<close>)
  qed (use 1(3) in \<open>simp_all add: msg_loop.simps [of "next" h buf s]\<close>)
qed

section \<open>The interface of a format\<close>

text \<open>A message is never empty, and what follows it does not change it.\<close>

locale chunked =
  fixes nxt :: "bytes \<Rightarrow> 'm took"
  assumes shorter: "nxt buf = Took m rest \<Longrightarrow> length rest < length buf"
    and stable: "nxt buf = Took m rest \<Longrightarrow> nxt (buf @ x) = Took m (rest @ x)"
    and bad_stable: "nxt buf = Bad e \<Longrightarrow> nxt (buf @ x) = Bad e"
begin

lemma loop_took:
  "nxt buf = Took m rest \<Longrightarrow> h m s = (None, s') \<Longrightarrow> msg_loop nxt h buf s = msg_loop nxt h rest s'"
  using shorter [of buf m rest] by (subst msg_loop.simps) simp

lemma loop_append:
  assumes "msg_loop nxt h buf s = (None, rest, s')"
  shows "msg_loop nxt h (buf @ x) s = msg_loop nxt h (rest @ x) s'"
  using assms
proof (induction buf arbitrary: s rule: length_induct)
  case (1 buf)
  show ?case
  proof (cases "nxt buf")
    case More
    then show ?thesis using 1(2) by (simp add: msg_loop.simps [of nxt h buf])
  next
    case (Bad e)
    then show ?thesis using 1(2) by (simp add: msg_loop.simps [of nxt h buf])
  next
    case (Took m r)
    obtain e t where h: "h m s = (e, t)" by fastforce
    have e: "e = None" using 1(2) Took h by (auto simp: msg_loop.simps [of nxt h buf] split: option.splits)
    have "msg_loop nxt h r t = (None, rest, s')" using 1(2) loop_took [of buf m r h s t] Took h e by simp
    then have "msg_loop nxt h (r @ x) t = msg_loop nxt h (rest @ x) s'" using 1(1) shorter [OF Took] by blast
    then show ?thesis using loop_took [OF stable [OF Took, of x], of h s t] h e by simp
  qed
qed

text \<open>If the whole stream is handled without an exception, so is every part of it that has arrived.\<close>

lemma loop_prefix: "fst (msg_loop nxt h (buf @ x) s) = None \<Longrightarrow> fst (msg_loop nxt h buf s) = None"
proof (induction buf arbitrary: s rule: length_induct)
  case (1 buf)
  show ?case
  proof (cases "nxt buf")
    case More
    then show ?thesis by (simp add: msg_loop.simps [of nxt h buf])
  next
    case (Bad e)
    then show ?thesis using 1(2) bad_stable [OF Bad, of x] by (simp add: msg_loop.simps [of nxt h "buf @ x"])
  next
    case (Took m r)
    obtain e t where h: "h m s = (e, t)" by fastforce
    have e: "e = None"
      using 1(2) stable [OF Took, of x] h by (auto simp: msg_loop.simps [of nxt h "buf @ x"] split: option.splits)
    then show ?thesis
      using 1 shorter [OF Took] loop_took [OF Took, of h s t] loop_took [OF stable [OF Took, of x], of h s t] h by simp
  qed
qed

lemma loop_rest: "msg_loop nxt h buf s = (None, rest, s') \<Longrightarrow> nxt rest = More"
proof (induction buf arbitrary: s rule: length_induct)
  case (1 buf)
  show ?case
  proof (cases "nxt buf")
    case More
    then show ?thesis using 1(2) by (simp add: msg_loop.simps [of nxt h buf])
  next
    case (Bad e)
    then show ?thesis using 1(2) by (simp add: msg_loop.simps [of nxt h buf])
  next
    case (Took m r)
    obtain e t where h: "h m s = (e, t)" by fastforce
    have "e = None" using 1(2) Took h by (auto simp: msg_loop.simps [of nxt h buf] split: option.splits)
    then have "msg_loop nxt h r t = (None, rest, s')" using 1(2) loop_took [OF Took, of h s t] h by simp
    then show ?thesis using 1(1) shorter [OF Took] by blast
  qed
qed

text \<open>How the bytes are cut into chunks does not matter.\<close>

lemma feed_cut:
  assumes "fst (msg_loop nxt h (buf @ concat cs) s) = None" "nxt buf = More"
  shows "fold (msg_feed nxt h) cs (buf, s) = snd (msg_loop nxt h (buf @ concat cs) s)"
  using assms
proof (induction cs arbitrary: buf s)
  case Nil
  then show ?case by (simp add: msg_loop.simps [of nxt h buf])
next
  case (Cons c cs)
  have "fst (msg_loop nxt h (buf @ c) s) = None"
    using loop_prefix [of h "buf @ c" "concat cs" s] Cons.prems(1) by simp
  then obtain rest s' where l: "msg_loop nxt h (buf @ c) s = (None, rest, s')" by (metis prod.collapse)
  have r: "msg_loop nxt h (buf @ c @ concat cs) s = msg_loop nxt h (rest @ concat cs) s'"
    using loop_append [OF l, of "concat cs"] by simp
  show ?case using Cons.IH [OF _ loop_rest [OF l], of s'] Cons.prems(1) l r by (simp add: msg_feed_def)
qed

end

text \<open>With an encoder whose messages are taken off the buffer as they are.\<close>

locale chunked_codec = chunked nxt for nxt :: "bytes \<Rightarrow> 'm took" +
  fixes enc :: "'m \<Rightarrow> bytes result"
  assumes front: "enc m = Inr bs \<Longrightarrow> nxt (bs @ rest) = Took m rest"
    and start: "nxt [] = More"
begin

lemma loop_messages:
  assumes "list_all2 (\<lambda>m bs. enc m = Inr bs) ms bss"
    and "\<And>m s. m \<in> set ms \<Longrightarrow> Q s \<Longrightarrow> fst (h m s) = None \<and> Q (snd (h m s))" "Q s"
  shows "msg_loop nxt h (concat bss @ part) s = msg_loop nxt h part (fold (\<lambda>m s. snd (h m s)) ms s)"
  using assms
proof (induction ms bss arbitrary: s rule: list_all2_induct)
  case (Cons m ms bs bss)
  have h: "h m s = (None, snd (h m s))" "Q (snd (h m s))"
    using Cons.prems(1) [of m s] Cons.prems(2) by (auto simp: prod_eq_iff)
  have "msg_loop nxt h (concat bss @ part) (snd (h m s)) =
      msg_loop nxt h part (fold (\<lambda>m s. snd (h m s)) ms (snd (h m s)))"
    by (rule Cons.IH) (use Cons.prems(1) h(2) in auto)
  then show ?case using loop_took [where h = h, OF front [OF Cons.hyps(1), of "concat bss @ part"] h(1)] by simp
qed simp

text \<open>A stream of messages, in whatever chunks, is handled message by message.\<close>

lemma messages_fed:
  assumes "list_all2 (\<lambda>m bs. enc m = Inr bs) ms bss" "concat cs = concat bss"
    and "\<And>m s. m \<in> set ms \<Longrightarrow> Q s \<Longrightarrow> fst (h m s) = None \<and> Q (snd (h m s))" "Q s"
  shows "fold (msg_feed nxt h) cs ([], s) = ([], fold (\<lambda>m s. snd (h m s)) ms s)"
proof -
  have l: "msg_loop nxt h (concat cs) s = (None, [], fold (\<lambda>m s. snd (h m s)) ms s)"
    using loop_messages [where part = "[]" and Q = Q, OF assms(1,3,4)] start
    by (simp add: assms(2) msg_loop.simps [of nxt h "[]"])
  then show ?thesis using feed_cut [of h "[]" cs s] start by simp
qed

end

end
