(* ===== verification/Tunnel.thy ===== *)
theory Tunnel
  imports Chunked
begin

text \<open>
  \<^verbatim>\<open>src/wh/cli/tunnel.py\<close>: port forwarding, many local connections over one wormhole channel. What
  sockets and timers do are operations of their own, so that every interleaving is a sequence of
  operations; local connections are numbered.
\<close>

section \<open>Messages\<close>

definition tn_open :: nat where "tn_open = 1"
definition tn_open_ok :: nat where "tn_open_ok = 2"
definition tn_open_fail :: nat where "tn_open_fail = 3"
definition tn_data :: nat where "tn_data = 4"
definition tn_close :: nat where "tn_close = 5"

lemmas tn_defs = tn_open_def tn_open_ok_def tn_open_fail_def tn_data_def tn_close_def

datatype tmsg =
    OpenMsg nat string nat
  | OpenOkMsg nat
  | OpenFailMsg nat
  | DataMsg nat bytes
  | CloseMsg nat
  | OtherMsg

text \<open>
  The body of the loop of \<^verbatim>\<open>_process_buffer\<close> up to the handler: the format depends on the type; a host
  that is not UTF-8 raises before the buffer is advanced.
\<close>

definition tunnel_next :: "bytes \<Rightarrow> tmsg took" where
  "tunnel_next buf =
     (if length buf < 3 then More
      else
        (let t = unpack_be (take 1 buf); c = unpack_be (take 2 (drop 1 buf)) in
         if t = tn_data then
           (if length buf < 7 then More
            else
              (let n = unpack_be (take 4 (drop 3 buf)) in
               if length buf < 7 + n then More
               else Took (DataMsg c (take n (drop 7 buf))) (drop (7 + n) buf)))
         else if t = tn_open then
           (if length buf < 4 then More
            else
              (let n = unat (buf ! 3) in
               if length buf < 4 + n + 2 then More
               else
                 (case decode_utf8 (take n (drop 4 buf)) of
                    None \<Rightarrow> Bad ValueError
                  | Some host \<Rightarrow> Took (OpenMsg c host (unpack_be (take 2 (drop (4 + n) buf)))) (drop (4 + n + 2) buf))))
         else
           Took (if t = tn_open_ok then OpenOkMsg c
                 else if t = tn_open_fail then OpenFailMsg c
                 else if t = tn_close then CloseMsg c else OtherMsg)
             (drop 3 buf)))"

text \<open>\<^verbatim>\<open>struct.pack\<close> of the header, and a message as \<^verbatim>\<open>_send_message\<close> packs it.\<close>

definition tunnel_header :: "nat \<Rightarrow> nat \<Rightarrow> bytes result" where
  "tunnel_header t c = pack_fields [(1, t), (2, c)]"

definition tunnel_frame :: "nat \<Rightarrow> nat \<Rightarrow> bytes \<Rightarrow> bytes result" where
  "tunnel_frame t c d =
     map_sum id (\<lambda>h. h @ d) (pack_fields ([(1, t), (2, c)] @ (if t = tn_data then [(4, length d)] else [])))"

text \<open>What \<^verbatim>\<open>open_channel\<close> builds for the request.\<close>

definition open_frame :: "nat \<Rightarrow> string \<Rightarrow> int \<Rightarrow> bytes result" where
  "open_frame c host port =
     (let hb = encode_utf8 host in
      if 256 \<le> length hb then Inl ValueError
      else
        (case pack_uint 2 port of
           Inl e \<Rightarrow> Inl e
         | Inr p \<Rightarrow> map_sum id (\<lambda>h. h @ word_of_nat (length hb) # hb @ p) (tunnel_header tn_open c)))"

section \<open>One side\<close>

record tun =
  tn_linked :: bool
  tn_channels :: "(nat, nat) dict"
  tn_next :: nat
  tn_pending :: "(nat, bool option) dict"
  tn_sent :: bytes
  tn_written :: "(nat \<times> bytes) list"
  tn_closed :: "nat list"
  tn_dialing :: "(nat \<times> string \<times> nat) list"
  tn_done :: bool

definition new_tun :: tun where
  "new_tun =
     \<lparr>tn_linked = False, tn_channels = [], tn_next = 1, tn_pending = [], tn_sent = [], tn_written = [],
      tn_closed = [], tn_dialing = [], tn_done = False\<rparr>"

text \<open>\<^verbatim>\<open>connectionMade\<close> of both protocols stores the connection.\<close>

definition tun_made :: "tun \<Rightarrow> tun" where
  "tun_made t = t\<lparr>tn_linked := True\<rparr>"

definition tun_send :: "nat \<Rightarrow> nat \<Rightarrow> bytes \<Rightarrow> tun \<Rightarrow> exn option \<times> tun" where
  "tun_send ty c d t =
     (if \<not> tn_linked t then (None, t)
      else
        (case tunnel_frame ty c d of
           Inl e \<Rightarrow> (Some e, t)
         | Inr bs \<Rightarrow> (None, t\<lparr>tn_sent := tn_sent t @ bs\<rparr>)))"

definition tun_data :: "nat \<Rightarrow> bytes \<Rightarrow> tun \<Rightarrow> tun" where
  "tun_data c d t =
     (case dget (tn_channels t) c of
        None \<Rightarrow> t
      | Some w \<Rightarrow> t\<lparr>tn_written := tn_written t @ [(w, d)]\<rparr>)"

text \<open>\<^verbatim>\<open>set_result\<close> on a future that has a result raises.\<close>

definition tun_opened :: "bool \<Rightarrow> nat \<Rightarrow> tun \<Rightarrow> exn option \<times> tun" where
  "tun_opened ok c t =
     (case dget (tn_pending t) c of
        None \<Rightarrow> (None, t)
      | Some None \<Rightarrow> (None, t\<lparr>tn_pending := dset c (Some ok) (tn_pending t)\<rparr>)
      | Some (Some _) \<Rightarrow> (Some OtherError, t))"

definition tun_closed :: "nat \<Rightarrow> tun \<Rightarrow> tun" where
  "tun_closed c t =
     (case dget (tn_channels t) c of
        None \<Rightarrow> t
      | Some w \<Rightarrow> t\<lparr>tn_channels := ddel c (tn_channels t), tn_closed := tn_closed t @ [w]\<rparr>)"

fun handle_tunnel :: "tmsg \<Rightarrow> tun \<Rightarrow> exn option \<times> tun" where
  "handle_tunnel (OpenMsg c host port) t = (None, t\<lparr>tn_dialing := tn_dialing t @ [(c, host, port)]\<rparr>)"
| "handle_tunnel (OpenOkMsg c) t = tun_opened True c t"
| "handle_tunnel (OpenFailMsg c) t = tun_opened False c t"
| "handle_tunnel (DataMsg c d) t = (None, tun_data c d t)"
| "handle_tunnel (CloseMsg c) t = (None, tun_closed c t)"
| "handle_tunnel OtherMsg t = (None, t)"

definition tunnel_on_data :: "bytes \<Rightarrow> bytes \<times> tun \<Rightarrow> bytes \<times> tun" where
  "tunnel_on_data chunk s = msg_feed tunnel_next handle_tunnel chunk s"

text \<open>
  The end of the \<^verbatim>\<open>open_connection\<close> of a requested channel: the connection with the number \<^verbatim>\<open>w\<close>, or a
  failure. The channel is registered before the reply; a reply that cannot be packed makes another.
\<close>

definition tunnel_dialed :: "nat option \<Rightarrow> nat \<times> string \<times> nat \<Rightarrow> tun \<Rightarrow> tun" where
  "tunnel_dialed r task t =
     (let c = fst task; t' = t\<lparr>tn_dialing := remove1 task (tn_dialing t)\<rparr> in
      case r of
        None \<Rightarrow> snd (tun_send tn_open_fail c [] t')
      | Some w \<Rightarrow>
          (case tun_send tn_open_ok c [] (t'\<lparr>tn_channels := dset c w (tn_channels t')\<rparr>) of
             (None, t2) \<Rightarrow> t2
           | (Some e, t2) \<Rightarrow> snd (tun_send tn_open_fail c [] t2)))"

text \<open>\<^verbatim>\<open>_forward_to_wormhole\<close>: one read with data, and the end of the loop.\<close>

definition tunnel_read :: "nat \<Rightarrow> bytes \<Rightarrow> tun \<Rightarrow> exn option \<times> tun" where
  "tunnel_read c d t = tun_send tn_data c d t"

definition tunnel_eof :: "nat \<Rightarrow> tun \<Rightarrow> exn option \<times> tun" where
  "tunnel_eof c t =
     (case tun_send tn_close c [] t of
        (Some e, t') \<Rightarrow> (Some e, t')
      | (None, t') \<Rightarrow> (None, t'\<lparr>tn_channels := ddel c (tn_channels t')\<rparr>))"

text \<open>
  \<^verbatim>\<open>open_channel\<close> up to the wait: \<^verbatim>\<open>_send_message\<close> with the type of the request sends the bare header, and
  then the request is sent.
\<close>

definition open_channel :: "string \<Rightarrow> int \<Rightarrow> tun \<Rightarrow> nat result \<times> tun" where
  "open_channel host port t =
     (let c = tn_next t; t1 = t\<lparr>tn_next := c + 1\<rparr>; hb = encode_utf8 host in
      if 256 \<le> length hb then (Inl ValueError, t1)
      else
        (case pack_uint 2 port of
           Inl e \<Rightarrow> (Inl e, t1)
         | Inr p \<Rightarrow>
             (case tun_send tn_open c [] t1 of
                (Some e, t2) \<Rightarrow> (Inl e, t2)
              | (None, t2) \<Rightarrow>
                  (case open_frame c host port of
                     Inl e \<Rightarrow> (Inl e, t2)
                   | Inr bs \<Rightarrow>
                       if \<not> tn_linked t2 then (Inl AttributeError, t2)
                       else (Inr c, t2\<lparr>tn_sent := tn_sent t2 @ bs, tn_pending := dset c None (tn_pending t2)\<rparr>)))))"

text \<open>After the wait: the result of the future, or the timeout.\<close>

definition opened_channel :: "nat \<Rightarrow> tun \<Rightarrow> nat option \<times> tun" where
  "opened_channel c t =
     (if dget (tn_pending t) c = Some (Some True) then Some c else None,
      t\<lparr>tn_pending := ddel c (tn_pending t)\<rparr>)"

text \<open>\<^verbatim>\<open>LocalForwarder._handle_connection\<close> after \<^verbatim>\<open>open_channel\<close>, for the local connection \<^verbatim>\<open>w\<close>.\<close>

definition forward_connection :: "nat option \<Rightarrow> nat \<Rightarrow> tun \<Rightarrow> tun" where
  "forward_connection r w t =
     (case r of
        None \<Rightarrow> t\<lparr>tn_closed := tn_closed t @ [w]\<rparr>
      | Some c \<Rightarrow> t\<lparr>tn_channels := dset c w (tn_channels t)\<rparr>)"

definition tunnel_lost :: "tun \<Rightarrow> tun" where
  "tunnel_lost t = t\<lparr>tn_done := True, tn_closed := tn_closed t @ map snd (tn_channels t), tn_channels := []\<rparr>"

section \<open>Forward specifications\<close>

definition parse_forward_spec :: "string \<Rightarrow> (int \<times> string \<times> int) result" where
  "parse_forward_spec spec =
     (case split_on (CHR '':'') spec of
        [a, b] \<Rightarrow>
          (case py_int a of
             None \<Rightarrow> Inl ValueError
           | Some l \<Rightarrow> (case py_int b of None \<Rightarrow> Inl ValueError | Some r \<Rightarrow> Inr (l, ''localhost'', r)))
      | [a, h, b] \<Rightarrow>
          (case py_int a of
             None \<Rightarrow> Inl ValueError
           | Some l \<Rightarrow> (case py_int b of None \<Rightarrow> Inl ValueError | Some r \<Rightarrow> Inr (l, h, r)))
      | _ \<Rightarrow> Inl ValueError)"


section \<open>The format\<close>

lemma tunnel_next_shorter: "tunnel_next buf = Took m rest \<Longrightarrow> length rest < length buf"
  by (auto simp: tunnel_next_def Let_def split: if_splits option.splits)

lemma tunnel_next_append:
  assumes "tunnel_next buf \<noteq> More"
  shows "tunnel_next (buf @ x) = (case tunnel_next buf of Took m rest \<Rightarrow> Took m (rest @ x) | r \<Rightarrow> r)"
proof -
  have l: "3 \<le> length buf" using assms by (auto simp: tunnel_next_def split: if_splits)
  then have h: "take (Suc 0) (buf @ x) = take (Suc 0) buf" "take 2 (drop (Suc 0) (buf @ x)) = take 2 (drop (Suc 0) buf)"
    by simp_all
  let ?t = "unpack_be (take (Suc 0) buf)"
  consider (data) "?t = tn_data" | (request) "?t = tn_open" | (other) "?t \<noteq> tn_data" "?t \<noteq> tn_open" by blast
  then show ?thesis
  proof cases
    case data
    have n: "7 \<le> length buf" using assms data by (auto simp: tunnel_next_def Let_def split: if_splits)
    then have "take 4 (drop 3 (buf @ x)) = take 4 (drop 3 buf)" by simp
    then show ?thesis using assms data l n h by (auto simp: tunnel_next_def Let_def split: if_splits)
  next
    case request
    have n: "4 \<le> length buf" using assms request by (auto simp: tunnel_next_def Let_def tn_defs split: if_splits)
    then have "(buf @ x) ! 3 = buf ! 3" by (simp add: nth_append)
    then show ?thesis using assms request l n h
      by (auto simp: tunnel_next_def Let_def tn_defs split: if_splits option.splits)
  next
    case other
    then show ?thesis using assms l h by (auto simp: tunnel_next_def Let_def split: if_splits)
  qed
qed

fun tunnel_enc :: "tmsg \<Rightarrow> bytes result" where
  "tunnel_enc (OpenMsg c host port) = open_frame c host (int port)"
| "tunnel_enc (OpenOkMsg c) = tunnel_frame tn_open_ok c []"
| "tunnel_enc (OpenFailMsg c) = tunnel_frame tn_open_fail c []"
| "tunnel_enc (DataMsg c d) = tunnel_frame tn_data c d"
| "tunnel_enc (CloseMsg c) = tunnel_frame tn_close c []"
| "tunnel_enc OtherMsg = Inl ValueError"

lemma tunnel_next_enc: "tunnel_enc m = Inr bs \<Longrightarrow> tunnel_next (bs @ rest) = Took m rest"
proof (cases m)
  case (OpenMsg c host port)
  assume "tunnel_enc m = Inr bs"
  then have b: "length (encode_utf8 host) < 256" "port < 256 ^ 2" "c < 256 ^ 2"
      "bs = pack_be 1 1 @ pack_be 2 c @ word_of_nat (length (encode_utf8 host)) # encode_utf8 host @ pack_be 2 port"
    using OpenMsg by (auto simp: open_frame_def tunnel_header_def pack_uint_def tn_defs Let_def map_sum_eq_Inr split: if_splits)
  have u: "unat (word_of_nat (length (encode_utf8 host)) :: byte) = length (encode_utf8 host)"
    using b(1) by (simp add: unat_of_nat)
  have n: "(pack_be 1 1 @ pack_be 2 c @ x # y) ! 3 = x" for x y by (simp add: nth_append)
  have d: "drop (3 + length e) (x # e @ pack_be 2 port @ y) = y" for x y and e :: bytes by (simp add: numeral_3_eq_3)
  show ?thesis
    unfolding b(4) OpenMsg using b(1-3) u n d by (simp add: tunnel_next_def Let_def tn_defs)
next
  case (DataMsg c d)
  assume "tunnel_enc m = Inr bs"
  then have b: "length d < 256 ^ 4" "c < 256 ^ 2" "bs = pack_be 1 4 @ pack_be 2 c @ pack_be 4 (length d) @ d"
    using DataMsg by (auto simp: tunnel_frame_def tn_defs map_sum_eq_Inr split: if_splits)
  show ?thesis unfolding b(3) DataMsg using b(1,2) by (simp add: tunnel_next_def Let_def tn_defs)
qed (auto simp: tunnel_frame_def tn_defs map_sum_eq_Inr tunnel_next_def Let_def split: if_splits)

interpretation tnl: chunked_codec tunnel_next tunnel_enc
proof
  show "tunnel_next buf = Took m rest \<Longrightarrow> length rest < length buf" for buf m rest by (rule tunnel_next_shorter)
  show "tunnel_next buf = Took m rest \<Longrightarrow> tunnel_next (buf @ x) = Took m (rest @ x)" for buf m rest x
    using tunnel_next_append [of buf x] by simp
  show "tunnel_next buf = Bad e \<Longrightarrow> tunnel_next (buf @ x) = Bad e" for buf e x
    using tunnel_next_append [of buf x] by simp
  show "tunnel_enc m = Inr bs \<Longrightarrow> tunnel_next (bs @ rest) = Took m rest" for m bs rest by (rule tunnel_next_enc)
  show "tunnel_next [] = More" by (simp add: tunnel_next_def)
qed

lemma tunnel_feed: "tunnel_on_data = msg_feed tunnel_next handle_tunnel"
  by (simp add: fun_eq_iff tunnel_on_data_def)


section \<open>Data on an open channel\<close>

lemma tun_send_ok:
  assumes "tn_linked t" "ty < 256" "c < 256 ^ 2" "length d < 256 ^ 4"
  shows "\<exists>bs. tunnel_frame ty c d = Inr bs \<and> tun_send ty c d t = (None, t\<lparr>tn_sent := tn_sent t @ bs\<rparr>)"
  using assms by (auto simp: tun_send_def tunnel_frame_def)

lemma tunnel_reads:
  assumes "tn_linked t" "c < 256 ^ 2" "\<forall>d \<in> set ds. length d < 256 ^ 4"
  shows "\<exists>bss. list_all2 (\<lambda>d bs. tunnel_frame tn_data c d = Inr bs) ds bss
    \<and> fold (\<lambda>d t. snd (tunnel_read c d t)) ds t = t\<lparr>tn_sent := tn_sent t @ concat bss\<rparr>"
  using assms
proof (induction ds arbitrary: t)
  case (Cons d ds)
  obtain b where b: "tunnel_frame tn_data c d = Inr b" "tunnel_read c d t = (None, t\<lparr>tn_sent := tn_sent t @ b\<rparr>)"
    using tun_send_ok [of t tn_data c d] Cons.prems by (auto simp: tunnel_read_def tn_defs)
  obtain bss where "list_all2 (\<lambda>d bs. tunnel_frame tn_data c d = Inr bs) ds bss"
      "fold (\<lambda>d t. snd (tunnel_read c d t)) ds (t\<lparr>tn_sent := tn_sent t @ b\<rparr>) = t\<lparr>tn_sent := tn_sent t @ b @ concat bss\<rparr>"
    using Cons.IH [of "t\<lparr>tn_sent := tn_sent t @ b\<rparr>"] Cons.prems by auto
  then show ?case using b by (intro exI [of _ "b # bss"]) simp
qed simp

lemma tun_data_many:
  "dget (tn_channels s) c = Some w \<Longrightarrow>
    fold (\<lambda>d. tun_data c d) ds s = s\<lparr>tn_written := tn_written s @ map (Pair w) ds\<rparr>"
  by (induction ds arbitrary: s) (simp_all add: tun_data_def)

text \<open>
  Data on an open channel: what one side reads from its local connection, up to the end, the
  other side writes to its local connection, chunk by chunk, in order and exactly once, and then
  closes it and forgets the channel, however the stream between them is cut into pieces.
\<close>

theorem tunnel_data_in_order:
  assumes "tn_linked t" "c < 256 ^ 2" "\<forall>d \<in> set ds. length d < 256 ^ 4"
    and "snd (tunnel_eof c (fold (\<lambda>d t. snd (tunnel_read c d t)) ds t)) = t'" "tn_sent t' = tn_sent t @ concat cs"
    and "dget (tn_channels s) c = Some w"
  shows "fold tunnel_on_data cs ([], s) =
    ([], s\<lparr>tn_written := tn_written s @ map (Pair w) ds, tn_channels := ddel c (tn_channels s), tn_closed := tn_closed s @ [w]\<rparr>)"
proof -
  obtain bss where b: "list_all2 (\<lambda>d bs. tunnel_frame tn_data c d = Inr bs) ds bss"
    "fold (\<lambda>d t. snd (tunnel_read c d t)) ds t = t\<lparr>tn_sent := tn_sent t @ concat bss\<rparr>" (is "_ = ?t")
    using tunnel_reads [OF assms(1-3)] by blast
  obtain e where e: "tunnel_frame tn_close c [] = Inr e" "tun_send tn_close c [] ?t = (None, ?t\<lparr>tn_sent := tn_sent ?t @ e\<rparr>)"
    using tun_send_ok [of ?t tn_close c "[]"] assms(1,2) by (auto simp: tn_defs)
  have c: "concat cs = concat (bss @ [e])"
    using assms(4,5) unfolding b(2) tunnel_eof_def e(2) by auto
  let ?ms = "map (DataMsg c) ds @ [CloseMsg c]"
  have l: "list_all2 (\<lambda>m bs. tunnel_enc m = Inr bs) ?ms (bss @ [e])"
    using b(1) e(1) by (intro list_all2_appendI) (simp_all add: list_all2_map1)
  have f: "fold tunnel_on_data cs ([], s) = ([], fold (\<lambda>m s. snd (handle_tunnel m s)) ?ms s)"
    unfolding tunnel_feed by (rule tnl.messages_fed [OF l c, where Q = "\<lambda>_. True"]) auto
  have "fold (\<lambda>m s. snd (handle_tunnel m s)) (map (DataMsg c) ds) s = s\<lparr>tn_written := tn_written s @ map (Pair w) ds\<rparr>"
    using tun_data_many [OF assms(6), of ds] by (simp add: fold_map comp_def)
  then show ?thesis using f assms(6) by (simp add: tun_closed_def)
qed

theorem tunnel_data_in_order_witness:
  "fold tunnel_on_data [pack_be 1 4 @ pack_be 2 1, pack_be 4 2 @ [7, 8] @ pack_be 1 5, pack_be 2 1]
     ([], new_tun\<lparr>tn_channels := [(1, 30)]\<rparr>) = ([], new_tun\<lparr>tn_written := [(30, [7, 8])], tn_closed := [30]\<rparr>)"
  using tunnel_data_in_order [of "tun_made new_tun" 1 "[ [7, 8] ]"
      "snd (tunnel_eof 1 (fold (\<lambda>d t. snd (tunnel_read 1 d t)) [ [7, 8] ] (tun_made new_tun)))"
      "[pack_be 1 4 @ pack_be 2 1, pack_be 4 2 @ [7, 8] @ pack_be 1 5, pack_be 2 1]" "new_tun\<lparr>tn_channels := [(1, 30)]\<rparr>" 30]
  by (simp add: tun_made_def new_tun_def tunnel_eof_def tunnel_read_def tun_send_def tunnel_frame_def tn_defs numeral_2_eq_2)

section \<open>Opening a channel\<close>

text \<open>Bytes above the message types, and two more: three at a time they are unknown messages.\<close>

lemma junk_dropped:
  "\<forall>b \<in> set hb. 5 < unat b \<Longrightarrow> length p = 2 \<Longrightarrow>
    \<exists>buf. length buf = (length hb + 2) mod 3 \<and> (\<forall>s. msg_loop tunnel_next handle_tunnel (hb @ p) s = (None, buf, s))"
proof (induction hb rule: length_induct)
  case (1 hb)
  show ?case
  proof (cases hb)
    case Nil
    then show ?thesis using 1(3) by (simp add: msg_loop.simps tunnel_next_def)
  next
    case (Cons b bs)
    have t: "5 < unpack_be (take 1 (hb @ p))" using Cons 1(2) by (simp add: unpack_be_Cons)
    then have n: "tunnel_next (hb @ p) = Took OtherMsg (drop 3 (hb @ p))"
      using Cons 1(3) by (simp add: tunnel_next_def Let_def tn_defs)
    have l: "msg_loop tunnel_next handle_tunnel (hb @ p) s = msg_loop tunnel_next handle_tunnel (drop 3 (hb @ p)) s" for s
      by (rule tnl.loop_took [OF n]) simp
    show ?thesis
    proof (cases "3 \<le> length hb")
      case True
      have "\<exists>buf. length buf = (length (drop 3 hb) + 2) mod 3
          \<and> (\<forall>s. msg_loop tunnel_next handle_tunnel (drop 3 hb @ p) s = (None, buf, s))"
        using 1 Cons by (metis (no_types, lifting) in_set_dropD length_drop length_greater_0_conv diff_less list.discI
          zero_less_numeral)
      moreover have "(length (drop 3 hb) + 2) mod 3 = (length hb + 2) mod 3"
        using True mod_add_self2 [of "length (drop 3 hb) + 2" 3] by (simp add: add.commute)
      ultimately show ?thesis using l True by simp
    next
      case False
      moreover have "0 < length hb" using Cons by simp
      ultimately have "length hb = 1 \<or> length hb = 2" by linarith
      then have "length (drop 3 (hb @ p)) = (length hb + 2) mod 3" using 1(3) by auto
      then have "length (drop 3 (hb @ p)) \<le> 2" by simp
      moreover have "tunnel_next (drop 3 (hb @ p)) = More" using calculation by (simp add: tunnel_next_def)
      ultimately show ?thesis unfolding l using \<open>length (drop 3 (hb @ p)) = (length hb + 2) mod 3\<close>
        by (simp add: msg_loop.simps)
    qed
  qed
qed

lemma utf8_char_above: "5 < cp c \<Longrightarrow> b \<in> set (utf8_char c) \<Longrightarrow> 5 < unat b"
proof -
  have "cp c div 64 < 4" using cp_less [of c] by linarith
  then have "unat (word_of_nat (192 + cp c div 64) :: byte) = 192 + cp c div 64"
    "unat (word_of_nat (128 + cp c mod 64) :: byte) = 128 + cp c mod 64"
    by (simp_all add: unat_of_nat del: of_nat_add)
  then show "5 < cp c \<Longrightarrow> b \<in> set (utf8_char c) \<Longrightarrow> 5 < unat b"
    by (auto simp: utf8_char_def simp del: of_nat_add split: if_splits)
qed

lemma garbled_request:
  "tunnel_next ([1, 0, x, 1, 0, y, z] @ rest) = Took (OpenMsg (unat x) [CHR 0x00] (unat y * 256 + unat z)) rest"
  by (simp add: tunnel_next_def Let_def tn_defs unpack_be_Cons char_of_byte_def char_of_def)

text \<open>
  C17. A request for a channel whose other side has nothing waiting in its buffer, as the first of every
  session, opens no channel. The request of \<^verbatim>\<open>open_channel\<close> comes after a bare header of the same type, so
  the other side takes both for a request to the host with the name NUL and a made-up port, and
  the name and port that were meant for junk, of which nothing to two bytes stay in the buffer; once
  that connection has failed, the reply tells the caller of \<^verbatim>\<open>open_channel\<close> that there is no channel. This
  is so for every port, for every host of at most 255 bytes without the control characters 0 to 5, for
  the channel numbers 1 to 255 and for every cutting of the stream. A later request meets an empty buffer
  again exactly when the bytes of the host before it and two more are a multiple of three.
\<close>

theorem tunnel_request_fails:
  assumes "tn_linked t" "0 < tn_next t" "tn_next t < 256" "\<forall>x \<in> set host. 5 < cp x" "length (encode_utf8 host) < 256"
    and "0 \<le> port" "port < 65536" "tn_linked s"
  shows "\<exists>t' stream buf task s'. open_channel host port t = (Inr (tn_next t), t') \<and> tn_sent t' = tn_sent t @ stream
    \<and> task = (tn_next t, [CHR 0x00], 256 * tn_next t + length (encode_utf8 host))
    \<and> (\<forall>cs. concat cs = stream \<longrightarrow> fold tunnel_on_data cs ([], s) = (buf, s\<lparr>tn_dialing := tn_dialing s @ [task]\<rparr>))
    \<and> length buf = (length (encode_utf8 host) + 2) mod 3
    \<and> s' = tunnel_dialed None task (s\<lparr>tn_dialing := tn_dialing s @ [task]\<rparr>)
    \<and> (\<exists>reply. tn_sent s' = tn_sent s @ reply
         \<and> (\<forall>cs. concat cs = reply \<longrightarrow>
              fst (opened_channel (tn_next t) (snd (fold tunnel_on_data cs ([], t')))) = None))"
proof -
  let ?c = "tn_next t" and ?hb = "encode_utf8 host"
  let ?p = "pack_be 2 (nat port)" and ?h = "pack_be 1 1 @ pack_be 2 (tn_next t)"
  define t' where "t' = t\<lparr>tn_next := ?c + 1, tn_sent := tn_sent t @ ?h @ ?h @ word_of_nat (length ?hb) # ?hb @ ?p,
      tn_pending := dset ?c None (tn_pending t)\<rparr>"
  define task where "task = (?c, [CHR 0x00], 256 * ?c + length ?hb)"
  have o: "open_channel host port t = (Inr ?c, t')"
    using assms by (simp add: open_channel_def t'_def open_frame_def tunnel_header_def pack_uint_def tun_send_def
      tunnel_frame_def tn_defs Let_def)
  have h: "?h = [1, 0, word_of_nat ?c]" using assms(3) by (simp add: pack_be_def numeral_2_eq_2)
  obtain buf where b: "length buf = (length ?hb + 2) mod 3" "\<And>s. msg_loop tunnel_next handle_tunnel (?hb @ ?p) s = (None, buf, s)"
    using junk_dropped [of ?hb ?p] assms(4) utf8_char_above by (auto simp: encode_utf8_def)
  let ?stream = "?h @ ?h @ word_of_nat (length ?hb) # ?hb @ ?p"
  have g: "tunnel_next ?stream = Took (OpenMsg ?c [CHR 0x00] (256 * ?c + length ?hb)) (?hb @ ?p)"
    using garbled_request [of "word_of_nat ?c" "word_of_nat ?c" "word_of_nat (length ?hb)" "?hb @ ?p"] assms(3,5)
    unfolding h by (simp add: unat_of_nat)
  have l: "msg_loop tunnel_next handle_tunnel ?stream s = (None, buf, s\<lparr>tn_dialing := tn_dialing s @ [task]\<rparr>)"
    using tnl.loop_took [OF g, of handle_tunnel s] b(2) by (simp add: task_def)
  then have srv: "fold tunnel_on_data cs ([], s) = (buf, s\<lparr>tn_dialing := tn_dialing s @ [task]\<rparr>)" if "concat cs = ?stream" for cs
    unfolding tunnel_feed using tnl.feed_cut [of handle_tunnel "[]" cs s] that tnl.start by simp
  define s' where "s' = tunnel_dialed None task (s\<lparr>tn_dialing := tn_dialing s @ [task]\<rparr>)"
  obtain reply where r: "tunnel_enc (OpenFailMsg ?c) = Inr reply" "tn_sent s' = tn_sent s @ reply"
    using tun_send_ok [of "s\<lparr>tn_dialing := remove1 task (tn_dialing s @ [task])\<rparr>" tn_open_fail ?c "[]"] assms(3,8)
    by (auto simp: s'_def tunnel_dialed_def task_def tn_defs)
  have k: "msg_loop tunnel_next handle_tunnel (reply @ []) t' = (None, [], t'\<lparr>tn_pending := dset ?c (Some False) (tn_pending t')\<rparr>)"
    using tnl.loop_took [OF tnl.front [OF r(1)], of handle_tunnel t' _ "[]"] tnl.start
    by (simp add: tun_opened_def t'_def msg_loop.simps [of _ _ "[]"])
  have "fst (opened_channel ?c (snd (fold tunnel_on_data cs ([], t')))) = None" if "concat cs = reply" for cs
    unfolding tunnel_feed using tnl.feed_cut [of handle_tunnel "[]" cs t'] that tnl.start k
    by (simp add: opened_channel_def t'_def)
  moreover have "tn_sent t' = tn_sent t @ ?stream" by (simp add: t'_def)
  ultimately show ?thesis using o srv b(1) s'_def task_def r(2) by blast
qed

theorem tunnel_request_fails_witness:
  "let (r, t') = open_channel ''localhost'' 80 (tun_made new_tun); s = snd (tunnel_on_data (tn_sent t') ([], tun_made new_tun))
   in r = Inr 1 \<and> tn_dialing s = [(1, [CHR 0x00], 265)]"
proof -
  obtain t' stream where o: "open_channel ''localhost'' 80 (tun_made new_tun) = (Inr 1, t')" "tn_sent t' = stream"
    "\<forall>cs. concat cs = stream \<longrightarrow> (\<exists>buf. fold tunnel_on_data cs ([], tun_made new_tun) =
        (buf, (tun_made new_tun)\<lparr>tn_dialing := [(1, [CHR 0x00], 265)]\<rparr>))"
    using tunnel_request_fails [of "tun_made new_tun" "''localhost''" 80 "tun_made new_tun"]
    by (auto simp: tun_made_def new_tun_def cp_def encode_utf8_def utf8_char_def)
  then show ?thesis using spec [OF o(3), of "[stream]"] by auto
qed

end
