(* ===== verification/Typed_Frames.thy ===== *)
theory Typed_Frames
  imports Framing
begin

text \<open>
  The format that \<^verbatim>\<open>src/wh/cli/rsync.py\<close>, \<^verbatim>\<open>dns.py\<close> and \<^verbatim>\<open>nmap.py\<close> share: one byte for the type, four for
  the length, and the payload.
\<close>

definition type_header :: nat where
  "type_header = 5"

definition type_frame :: "nat \<times> bytes \<Rightarrow> bytes result" where
  "type_frame m = fields_frame [(1, fst m)] (snd m)"

definition type_message :: "bytes \<times> bytes \<Rightarrow> nat \<times> bytes" where
  "type_message f = (unpack_be (take 1 (fst f)), snd f)"

lemma type_frame_Inr:
  "type_frame m = Inr bs \<longleftrightarrow> fst m < 256 \<and> length (snd m) < 256 ^ 4 \<and> bs = put_frame (pack_be 1 (fst m)) (snd m)"
  by (auto simp: type_frame_def fields_frame_def put_frame_def map_sum_eq_Inr split: if_splits)

interpretation typed: framed type_header type_frame type_message
proof
  fix m bs assume "type_frame m = Inr bs"
  then have "fst m < 256" "length (snd m) < 256 ^ 4" "bs = put_frame (pack_be 1 (fst m)) (snd m)"
    by (simp_all add: type_frame_Inr)
  then show "\<exists>front payload. bs = put_frame front payload \<and> length front + 4 = type_header \<and> length payload < 256 ^ 4
      \<and> type_message (front @ pack_be 4 (length payload), payload) = m"
    by (intro exI [of _ "pack_be 1 (fst m)"] exI [of _ "snd m"]) (auto simp: type_header_def type_message_def prod_eq_iff)
qed

text \<open>\<^verbatim>\<open>_send_message\<close>: nothing happens without a connection.\<close>

definition type_send :: "bool \<Rightarrow> nat \<Rightarrow> bytes \<Rightarrow> bytes \<Rightarrow> bytes result" where
  "type_send linked t d sent =
     (if \<not> linked then Inr sent
      else (case type_frame (t, d) of Inl e \<Rightarrow> Inl e | Inr bs \<Rightarrow> Inr (sent @ bs)))"

end
