(* ===== verification/Rsync.thy ===== *)
theory Rsync
  imports Typed_Frames Json_Text
begin

text \<open>
  \<^verbatim>\<open>src/wh/cli/rsync.py\<close>: synchronising a directory over the wormhole. The file system is a parameter;
  what arrives and what a side does in turn are operations on its state.
\<close>

section \<open>Paths\<close>

text \<open>\<^verbatim>\<open>str(Path(s))\<close>: slashes are merged and single dots dropped, but not double dots.\<close>

definition path_root :: "string \<Rightarrow> string" where
  "path_root s =
     (if startswith s ''//'' \<and> \<not> startswith s ''///'' then ''//''
      else if startswith s ''/'' then ''/'' else [])"

definition path_text :: "string \<Rightarrow> string" where
  "path_text s =
     (let r = path_root s; ps = filter (\<lambda>p. p \<noteq> [] \<and> p \<noteq> ''.'') (split_on (CHR ''/'') s) in
      if r = [] \<and> ps = [] then ''.'' else r @ join_with ''/'' ps)"

text \<open>\<^verbatim>\<open>str(Path(base) / s)\<close>\<close>

definition path_under :: "string \<Rightarrow> string \<Rightarrow> string" where
  "path_under base s =
     path_text (if path_root s \<noteq> [] then s
                else if base = [] \<or> last base = CHR ''/'' then base @ s else base @ ''/'' @ s)"

section \<open>The file system\<close>

text \<open>
  \<^verbatim>\<open>path.parent.mkdir(parents=True, exist_ok=True)\<close>, \<^verbatim>\<open>open(path, "wb")\<close>, writing to the open file,
  \<^verbatim>\<open>exists\<close>, \<^verbatim>\<open>unlink\<close>, the size and the contents.
\<close>

record 'w files =
  fs_parents :: "string \<Rightarrow> 'w \<Rightarrow> exn option \<times> 'w"
  fs_open :: "string \<Rightarrow> 'w \<Rightarrow> exn option \<times> 'w"
  fs_append :: "string \<Rightarrow> bytes \<Rightarrow> 'w \<Rightarrow> exn option \<times> 'w"
  fs_exists :: "string \<Rightarrow> 'w \<Rightarrow> bool result"
  fs_unlink :: "string \<Rightarrow> 'w \<Rightarrow> exn option \<times> 'w"
  fs_size :: "string \<Rightarrow> 'w \<Rightarrow> nat result"
  fs_read :: "string \<Rightarrow> 'w \<Rightarrow> bytes result"

section \<open>Manifests\<close>

text \<open>
  \<^verbatim>\<open>scan_directory\<close>: for every item below the directory whether it is a file, its path from the base,
  size, time of modification as JSON prints it, and contents. \<^verbatim>\<open>md5\<close> is the digest in hexadecimal.
\<close>

definition scan_directory :: "(bytes \<Rightarrow> string) \<Rightarrow> (bool \<times> string \<times> nat \<times> string \<times> bytes) list \<Rightarrow> jval list" where
  "scan_directory md5 items =
     map (\<lambda>(_, p, n, t, d). JObj [(''path'', JStr p), (''size'', JInt (int n)), (''mtime'', JFloat t),
           (''checksum'', JStr (md5 d))])
       (filter fst items)"

text \<open>\<^verbatim>\<open>f[key]\<close>, iterating over a value, and the check that a value can be a key.\<close>

fun jfield :: "jval \<Rightarrow> string \<Rightarrow> jval result" where
  "jfield (JObj d) k = (case dget d k of None \<Rightarrow> Inl KeyError | Some v \<Rightarrow> Inr v)"
| "jfield _ k = Inl TypeError"

fun jitems :: "jval \<Rightarrow> jval list result" where
  "jitems (JList xs) = Inr xs"
| "jitems (JObj d) = Inr (map JStr (dkeys d))"
| "jitems (JStr s) = Inr (map (\<lambda>c. JStr [c]) s)"
| "jitems _ = Inl TypeError"

fun valid_key :: "jval \<Rightarrow> bool" where
  "valid_key (JList _) = False"
| "valid_key (JObj _) = False"
| "valid_key _ = True"

fun manifest_dict :: "jval list \<Rightarrow> (jval, jval) dict \<Rightarrow> (jval, jval) dict result" where
  "manifest_dict [] acc = Inr acc"
| "manifest_dict (f # fs) acc =
     (case jfield f ''path'' of
        Inl e \<Rightarrow> Inl e
      | Inr p \<Rightarrow> if valid_key p then manifest_dict fs (dset p f acc) else Inl TypeError)"

text \<open>The loop over the local files: those that are not on the other side or differ there.\<close>

fun files_to_send :: "(jval, jval) dict \<Rightarrow> (jval, jval) dict \<Rightarrow> jval list result" where
  "files_to_send remote [] = Inr []"
| "files_to_send remote ((p, info) # l) =
     (case dget remote p of
        None \<Rightarrow> map_sum id ((#) p) (files_to_send remote l)
      | Some r \<Rightarrow>
          (case jfield r ''checksum'' of
             Inl e \<Rightarrow> Inl e
           | Inr c \<Rightarrow>
               (case jfield info ''checksum'' of
                  Inl e \<Rightarrow> Inl e
                | Inr c' \<Rightarrow> if c \<noteq> c' then map_sum id ((#) p) (files_to_send remote l) else files_to_send remote l)))"

definition compare_manifests :: "jval \<Rightarrow> jval \<Rightarrow> bool \<Rightarrow> (jval list \<times> jval list) result" where
  "compare_manifests local remote delete =
     (case jitems local of
        Inl e \<Rightarrow> Inl e
      | Inr ls \<Rightarrow>
          (case manifest_dict ls [] of
             Inl e \<Rightarrow> Inl e
           | Inr l \<Rightarrow>
               (case jitems remote of
                  Inl e \<Rightarrow> Inl e
                | Inr rs \<Rightarrow>
                    (case manifest_dict rs [] of
                       Inl e \<Rightarrow> Inl e
                     | Inr r \<Rightarrow>
                         (case files_to_send r l of
                            Inl e \<Rightarrow> Inl e
                          | Inr send \<Rightarrow>
                              Inr (send, if delete then filter (\<lambda>p. \<not> has_key l p) (dkeys r) else []))))))"

section \<open>One side\<close>

definition rs_manifest_msg :: nat where "rs_manifest_msg = 1"
definition rs_request_msg :: nat where "rs_request_msg = 2"
definition rs_file_start :: nat where "rs_file_start = 3"
definition rs_file_data :: nat where "rs_file_data = 4"
definition rs_file_end :: nat where "rs_file_end = 5"
definition rs_delete_msg :: nat where "rs_delete_msg = 6"
definition rs_done_msg :: nat where "rs_done_msg = 7"

lemmas rs_types = rs_manifest_msg_def rs_request_msg_def rs_file_start_def rs_file_data_def rs_file_end_def
  rs_delete_msg_def rs_done_msg_def

datatype json_future = NoFuture | Awaiting | Arrived jval

record 'w rsync =
  rs_linked :: bool
  rs_sent :: bytes
  rs_file :: "string option"
  rs_handle :: "string option"
  rs_size :: nat
  rs_received :: nat
  rs_files :: nat
  rs_bytes :: nat
  rs_manifest :: json_future
  rs_request :: json_future
  rs_done :: bool
  rs_world :: 'w

definition new_rsync :: "'w \<Rightarrow> 'w rsync" where
  "new_rsync w =
     \<lparr>rs_linked = False, rs_sent = [], rs_file = None, rs_handle = None, rs_size = 0, rs_received = 0, rs_files = 0,
      rs_bytes = 0, rs_manifest = NoFuture, rs_request = NoFuture, rs_done = False, rs_world = w\<rparr>"

definition rsync_send :: "nat \<Rightarrow> bytes \<Rightarrow> 'w rsync \<Rightarrow> exn option \<times> 'w rsync" where
  "rsync_send t d s =
     (case type_send (rs_linked s) t d (rs_sent s) of
        Inl e \<Rightarrow> (Some e, s)
      | Inr b \<Rightarrow> (None, s\<lparr>rs_sent := b\<rparr>))"

text \<open>\<^verbatim>\<open>json.loads(payload.decode())\<close>, and the result of a future, which can be set once.\<close>

definition payload_json :: "bytes \<Rightarrow> jval result" where
  "payload_json b = (case decode_utf8 b of None \<Rightarrow> Inl ValueError | Some s \<Rightarrow> json_loads s)"

definition answer :: "bytes \<Rightarrow> json_future \<Rightarrow> exn option \<times> json_future" where
  "answer b f =
     (case f of
        NoFuture \<Rightarrow> (None, f)
      | Awaiting \<Rightarrow> (case payload_json b of Inl e \<Rightarrow> (Some e, f) | Inr v \<Rightarrow> (None, Arrived v))
      | Arrived _ \<Rightarrow> (case payload_json b of Inl e \<Rightarrow> (Some e, f) | Inr v \<Rightarrow> (Some OtherError, f)))"

definition handle_manifest :: "bytes \<Rightarrow> 'w rsync \<Rightarrow> exn option \<times> 'w rsync" where
  "handle_manifest b s = (case answer b (rs_manifest s) of (e, f) \<Rightarrow> (e, s\<lparr>rs_manifest := f\<rparr>))"

definition rsync_request :: "bytes \<Rightarrow> 'w rsync \<Rightarrow> exn option \<times> 'w rsync" where
  "rsync_request b s = (case answer b (rs_request s) of (e, f) \<Rightarrow> (e, s\<lparr>rs_request := f\<rparr>))"

definition handle_file_start :: "'w files \<Rightarrow> bytes \<Rightarrow> 'w rsync \<Rightarrow> exn option \<times> 'w rsync" where
  "handle_file_start fs b s =
     (if length b < 2 then (Some StructError, s)
      else
        (let n = unpack_be (take 2 b) in
         case decode_utf8 (take n (drop 2 b)) of
           None \<Rightarrow> (Some ValueError, s)
         | Some p \<Rightarrow>
             if length (take 8 (drop (2 + n) b)) < 8 then (Some StructError, s)
             else
               (let q = path_text p;
                    s1 = s\<lparr>rs_file := Some q, rs_size := unpack_be (take 8 (drop (2 + n) b)), rs_received := 0\<rparr>
                in (case fs_parents fs q (rs_world s1) of
                      (Some e, w) \<Rightarrow> (Some e, s1\<lparr>rs_world := w\<rparr>)
                    | (None, w) \<Rightarrow>
                        (case fs_open fs q w of
                           (Some e, w') \<Rightarrow> (Some e, s1\<lparr>rs_world := w'\<rparr>)
                         | (None, w') \<Rightarrow> (None, s1\<lparr>rs_world := w', rs_handle := Some q\<rparr>))))))"

definition handle_file_data :: "'w files \<Rightarrow> bytes \<Rightarrow> 'w rsync \<Rightarrow> exn option \<times> 'w rsync" where
  "handle_file_data fs b s =
     (case rs_handle s of
        None \<Rightarrow> (None, s)
      | Some q \<Rightarrow>
          (case fs_append fs q b (rs_world s) of
             (Some e, w) \<Rightarrow> (Some e, s\<lparr>rs_world := w\<rparr>)
           | (None, w) \<Rightarrow>
               (None, s\<lparr>rs_world := w, rs_received := rs_received s + length b, rs_bytes := rs_bytes s + length b\<rparr>)))"

definition handle_file_end :: "'w rsync \<Rightarrow> exn option \<times> 'w rsync" where
  "handle_file_end s =
     (None, (case rs_handle s of None \<Rightarrow> s | Some q \<Rightarrow> s\<lparr>rs_handle := None, rs_files := rs_files s + 1\<rparr>)\<lparr>rs_file := None\<rparr>)"

fun delete_files :: "'w files \<Rightarrow> jval list \<Rightarrow> 'w \<Rightarrow> exn option \<times> 'w" where
  "delete_files fs [] w = (None, w)"
| "delete_files fs (JStr p # ps) w =
     (let q = path_text p in
      case fs_exists fs q w of
        Inl e \<Rightarrow> (Some e, w)
      | Inr True \<Rightarrow>
          (case fs_unlink fs q w of
             (Some e, w') \<Rightarrow> (Some e, w')
           | (None, w') \<Rightarrow> delete_files fs ps w')
      | Inr False \<Rightarrow> delete_files fs ps w)"
| "delete_files fs (_ # ps) w = (Some TypeError, w)"

definition handle_delete :: "'w files \<Rightarrow> bytes \<Rightarrow> 'w rsync \<Rightarrow> exn option \<times> 'w rsync" where
  "handle_delete fs b s =
     (case payload_json b of
        Inl e \<Rightarrow> (Some e, s)
      | Inr v \<Rightarrow>
          (case jitems v of
             Inl e \<Rightarrow> (Some e, s)
           | Inr ps \<Rightarrow> (case delete_files fs ps (rs_world s) of (e, w) \<Rightarrow> (e, s\<lparr>rs_world := w\<rparr>))))"

definition rsync_done :: "'w rsync \<Rightarrow> 'w rsync" where
  "rsync_done s = s\<lparr>rs_done := True\<rparr>"

definition handle_rsync :: "'w files \<Rightarrow> nat \<times> bytes \<Rightarrow> 'w rsync \<Rightarrow> exn option \<times> 'w rsync" where
  "handle_rsync fs m s =
     (if fst m = rs_manifest_msg then handle_manifest (snd m) s
      else if fst m = rs_request_msg then rsync_request (snd m) s
      else if fst m = rs_file_start then handle_file_start fs (snd m) s
      else if fst m = rs_file_data then handle_file_data fs (snd m) s
      else if fst m = rs_file_end then handle_file_end s
      else if fst m = rs_delete_msg then handle_delete fs (snd m) s
      else if fst m = rs_done_msg then (None, rsync_done s)
      else (None, s))"

definition rsync_on_data :: "'w files \<Rightarrow> bytes \<Rightarrow> bytes \<times> 'w rsync \<Rightarrow> bytes \<times> 'w rsync" where
  "rsync_on_data fs =
     feed type_header (\<lambda>f s. case handle_rsync fs (type_message f) s of (e, s') \<Rightarrow> (e = None, s'))"

definition rsync_lost :: "'w rsync \<Rightarrow> 'w rsync" where
  "rsync_lost s = s\<lparr>rs_done := True\<rparr>"

section \<open>What a side does\<close>

definition send_json :: "nat \<Rightarrow> jval \<Rightarrow> 'w rsync \<Rightarrow> exn option \<times> 'w rsync" where
  "send_json t v s = rsync_send t (encode_utf8 (json_dumps None v)) s"

definition send_manifest :: "jval list \<Rightarrow> 'w rsync \<Rightarrow> exn option \<times> 'w rsync" where
  "send_manifest m s = send_json rs_manifest_msg (JList m) s"

definition send_request :: "jval list \<Rightarrow> 'w rsync \<Rightarrow> exn option \<times> 'w rsync" where
  "send_request ps s = send_json rs_request_msg (JList ps) s"

definition send_delete :: "jval list \<Rightarrow> 'w rsync \<Rightarrow> exn option \<times> 'w rsync" where
  "send_delete ps s = send_json rs_delete_msg (JList ps) s"

definition send_done :: "'w rsync \<Rightarrow> exn option \<times> 'w rsync" where
  "send_done s = rsync_send rs_done_msg [] s"

text \<open>\<^verbatim>\<open>receive_manifest\<close> and \<^verbatim>\<open>receive_request\<close>: the new future, and what is returned once it has a value.\<close>

definition await_manifest :: "'w rsync \<Rightarrow> 'w rsync" where
  "await_manifest s = s\<lparr>rs_manifest := Awaiting\<rparr>"

definition received_manifest :: "'w rsync \<Rightarrow> jval option \<times> 'w rsync" where
  "received_manifest s =
     (case rs_manifest s of Arrived v \<Rightarrow> (Some v, s\<lparr>rs_manifest := NoFuture\<rparr>) | _ \<Rightarrow> (None, s))"

definition await_request :: "'w rsync \<Rightarrow> 'w rsync" where
  "await_request s = s\<lparr>rs_request := Awaiting\<rparr>"

definition received_request :: "'w rsync \<Rightarrow> jval option \<times> 'w rsync" where
  "received_request s =
     (case rs_request s of Arrived v \<Rightarrow> (Some v, s\<lparr>rs_request := NoFuture\<rparr>) | _ \<Rightarrow> (None, s))"

text \<open>\<^verbatim>\<open>iter(lambda: f.read(n), b"")\<close>\<close>

function chunks_of :: "nat \<Rightarrow> bytes \<Rightarrow> bytes list" where
  "chunks_of n b = (if b = [] \<or> n = 0 then [] else take n b # chunks_of n (drop n b))"
  by pat_completeness auto

termination by (relation "measure (\<lambda>(n, b). length b)") auto

declare chunks_of.simps [simp del]

fun send_chunks :: "bytes list \<Rightarrow> 'w rsync \<Rightarrow> exn option \<times> 'w rsync" where
  "send_chunks [] s = (None, s)"
| "send_chunks (c # cs) s =
     (case rsync_send rs_file_data c s of
        (Some e, s') \<Rightarrow> (Some e, s')
      | (None, s') \<Rightarrow> send_chunks cs (s'\<lparr>rs_bytes := rs_bytes s' + length c\<rparr>))"

definition send_file :: "'w files \<Rightarrow> string \<Rightarrow> string \<Rightarrow> 'w rsync \<Rightarrow> exn option \<times> 'w rsync" where
  "send_file fs path rel s =
     (case fs_size fs path (rs_world s) of
        Inl e \<Rightarrow> (Some e, s)
      | Inr n \<Rightarrow>
          (case (pack_fields [(2, length (encode_utf8 rel))], pack_fields [(8, n)]) of
             (Inl e, _) \<Rightarrow> (Some e, s)
           | (_, Inl e) \<Rightarrow> (Some e, s)
           | (Inr a, Inr b) \<Rightarrow>
               (case rsync_send rs_file_start (a @ encode_utf8 rel @ b) s of
                  (Some e, s1) \<Rightarrow> (Some e, s1)
                | (None, s1) \<Rightarrow>
                    (case fs_read fs path (rs_world s1) of
                       Inl e \<Rightarrow> (Some e, s1)
                     | Inr d \<Rightarrow>
                         (case send_chunks (chunks_of 32768 d) s1 of
                            (Some e, s2) \<Rightarrow> (Some e, s2)
                          | (None, s2) \<Rightarrow>
                              (case rsync_send rs_file_end [] s2 of
                                 (Some e, s3) \<Rightarrow> (Some e, s3)
                               | (None, s3) \<Rightarrow> (None, s3\<lparr>rs_files := rs_files s3 + 1\<rparr>)))))))"

text \<open>The sender's loop over what the other side has asked for; \<^verbatim>\<open>source\<close> is a directory or one file.\<close>

fun send_requested :: "'w files \<Rightarrow> bool \<Rightarrow> string \<Rightarrow> jval list \<Rightarrow> 'w rsync \<Rightarrow> exn option \<times> 'w rsync" where
  "send_requested fs dir source [] s = (None, s)"
| "send_requested fs dir source (JStr rel # ps) s =
     (let full = (if dir then path_under source rel else path_text source) in
      case fs_exists fs full (rs_world s) of
        Inl e \<Rightarrow> (Some e, s)
      | Inr False \<Rightarrow> send_requested fs dir source ps s
      | Inr True \<Rightarrow>
          (case send_file fs full rel s of
             (Some e, s') \<Rightarrow> (Some e, s')
           | (None, s') \<Rightarrow> send_requested fs dir source ps s'))"
| "send_requested fs dir source (_ # ps) s =
     (if dir then (Some TypeError, s)
      else
        (case fs_exists fs (path_text source) (rs_world s) of
           Inl e \<Rightarrow> (Some e, s)
         | Inr False \<Rightarrow> send_requested fs dir source ps s
         | Inr True \<Rightarrow>
             (Some (case fs_size fs (path_text source) (rs_world s) of Inl e \<Rightarrow> e | Inr _ \<Rightarrow> AttributeError), s)))"

text \<open>
  \<^verbatim>\<open>run_rsync\<close> between its waits. The receiver: up to the manifest of the other side, and with it. The
  sender: with the manifest of the other side, and with its request.
\<close>

definition receiver_start :: "jval list \<Rightarrow> 'w rsync \<Rightarrow> exn option \<times> 'w rsync" where
  "receiver_start own s =
     (case send_manifest own s of
        (Some e, s') \<Rightarrow> (Some e, s')
      | (None, s') \<Rightarrow> (None, await_manifest s'))"

definition receiver_compare :: "jval list \<Rightarrow> bool \<Rightarrow> jval \<Rightarrow> 'w rsync \<Rightarrow> exn option \<times> 'w rsync" where
  "receiver_compare own delete remote s =
     (case compare_manifests remote (JList own) delete of
        Inl e \<Rightarrow> (Some e, s)
      | Inr (need, gone) \<Rightarrow> send_request need s)"

definition sender_compare :: "jval list \<Rightarrow> bool \<Rightarrow> bool \<Rightarrow> jval \<Rightarrow> 'w rsync \<Rightarrow> (exn + jval list) \<times> 'w rsync" where
  "sender_compare own delete dry remote s =
     (case compare_manifests (JList own) remote delete of
        Inl e \<Rightarrow> (Inl e, s)
      | Inr (send, gone) \<Rightarrow>
          if dry then (Inr gone, s)
          else
            (case send_manifest own s of
               (Some e, s') \<Rightarrow> (Inl e, s')
             | (None, s') \<Rightarrow> (Inr gone, await_request s')))"

definition sender_send :: "'w files \<Rightarrow> bool \<Rightarrow> string \<Rightarrow> bool \<Rightarrow> jval list \<Rightarrow> jval \<Rightarrow> 'w rsync \<Rightarrow> exn option \<times> 'w rsync" where
  "sender_send fs dir source delete gone requested s =
     (case jitems requested of
        Inl e \<Rightarrow> (Some e, s)
      | Inr ps \<Rightarrow>
          (case send_requested fs dir source ps s of
             (Some e, s1) \<Rightarrow> (Some e, s1)
           | (None, s1) \<Rightarrow>
               (case (if delete \<and> gone \<noteq> [] then send_delete gone s1 else (None, s1)) of
                  (Some e, s2) \<Rightarrow> (Some e, s2)
                | (None, s2) \<Rightarrow> send_done s2)))"


section \<open>The plan of a synchronisation\<close>

lemma dget_conv_set: "distinct (dkeys d) \<Longrightarrow> dget d k = Some v \<longleftrightarrow> (k, v) \<in> set d"
  by (induction d) (auto simp: image_iff)

lemma manifest_dict_keys: "manifest_dict fs acc = Inr d \<Longrightarrow> distinct (dkeys acc) \<Longrightarrow> distinct (dkeys d)"
  by (induction fs acc rule: manifest_dict.induct) (auto split: sum.splits if_splits)

definition other_content :: "(jval, jval) dict \<Rightarrow> jval \<Rightarrow> jval \<Rightarrow> bool" where
  "other_content d p info \<longleftrightarrow>
     (case dget d p of None \<Rightarrow> True | Some r \<Rightarrow> jfield r ''checksum'' \<noteq> jfield info ''checksum'')"

lemma files_to_send_filter:
  "files_to_send r l = Inr ps \<Longrightarrow> ps = map fst (filter (\<lambda>(p, info). other_content r p info) l)"
  by (induction r l arbitrary: ps rule: files_to_send.induct)
    (auto simp: other_content_def map_sum_eq_Inr split: option.splits sum.splits if_splits)

lemma compare_Inr:
  assumes "compare_manifests local remote delete = Inr (send, gone)"
  shows "\<exists>ls rs l r. jitems local = Inr ls \<and> manifest_dict ls [] = Inr l \<and> jitems remote = Inr rs
    \<and> manifest_dict rs [] = Inr r \<and> send = map fst (filter (\<lambda>(p, info). other_content r p info) l)
    \<and> gone = (if delete then filter (\<lambda>p. \<not> has_key l p) (dkeys r) else [])
    \<and> distinct (dkeys l) \<and> distinct (dkeys r)"
  using assms manifest_dict_keys [of _ "[]"]
  by (auto simp: compare_manifests_def files_to_send_filter split: sum.splits)

text \<open>
  C24. The plan of a synchronisation: no file is listed twice; once the files to send have replaced
  those of the other side and the files to delete are gone, every local path is there with the
  local checksum; with \<^verbatim>\<open>--delete\<close> nothing else is there, without it all else is as it was. Nothing
  is sent that the other side has already.
\<close>

theorem rsync_plan_converges:
  assumes "compare_manifests local remote delete = Inr (send, gone)"
  shows "\<exists>ls rs l r. jitems local = Inr ls \<and> manifest_dict ls [] = Inr l \<and> jitems remote = Inr rs \<and> manifest_dict rs [] = Inr r
    \<and> distinct send \<and> distinct gone \<and> set send \<inter> set gone = {}
    \<and> (\<forall>p. let after = (if p \<in> set send then dget l p else if p \<in> set gone then None else dget r p) in
         (case dget l p of
            Some info \<Rightarrow> \<exists>x. after = Some x \<and> jfield x ''checksum'' = jfield info ''checksum''
          | None \<Rightarrow> after = (if delete then None else dget r p)))
    \<and> (\<forall>p info x. dget l p = Some info \<and> dget r p = Some x \<and> jfield x ''checksum'' = jfield info ''checksum'' \<longrightarrow> p \<notin> set send)"
proof -
  obtain ls rs l r where c: "jitems local = Inr ls" "manifest_dict ls [] = Inr l" "jitems remote = Inr rs"
    "manifest_dict rs [] = Inr r" "send = map fst (filter (\<lambda>(p, info). other_content r p info) l)"
    "gone = (if delete then filter (\<lambda>p. \<not> has_key l p) (dkeys r) else [])" and d: "distinct (dkeys l)" "distinct (dkeys r)"
    using compare_Inr [OF assms] by blast
  have s: "p \<in> set send \<longleftrightarrow> (\<exists>info. dget l p = Some info \<and> other_content r p info)" for p
    unfolding c(5) using dget_conv_set [OF d(1)] by force
  have g: "p \<in> set gone \<longleftrightarrow> delete \<and> dget l p = None \<and> dget r p \<noteq> None" for p
    unfolding c(6) using has_key_iff [of r p] has_key_iff [of l p] by (auto simp: has_key_def)
  have ds: "distinct send" unfolding c(5) using d(1) by (rule distinct_map_filter)
  have dg: "distinct gone" unfolding c(6) using d(2) by simp
  have i: "set send \<inter> set gone = {}" using s g by fastforce
  have a: "case dget l p of
      Some info \<Rightarrow> \<exists>x. (if p \<in> set send then dget l p else if p \<in> set gone then None else dget r p) = Some x
        \<and> jfield x ''checksum'' = jfield info ''checksum''
    | None \<Rightarrow> (if p \<in> set send then dget l p else if p \<in> set gone then None else dget r p) = (if delete then None else dget r p)" for p
    using s [of p] g [of p] by (auto simp: other_content_def split: option.splits)
  have n: "p \<notin> set send" if "dget l p = Some info" "dget r p = Some x" "jfield x ''checksum'' = jfield info ''checksum''" for p info x
    using s [of p] that by (simp add: other_content_def)
  show ?thesis unfolding Let_def using c(1-4) ds dg i a n by blast
qed


definition toy_entry :: "string \<Rightarrow> string \<Rightarrow> jval" where
  "toy_entry p c = JObj [(''path'', JStr p), (''checksum'', JStr c)]"

theorem rsync_plan_converges_witness:
  "let here = JList [toy_entry ''a'' ''1'', toy_entry ''b'' ''2'', toy_entry ''c'' ''3''];
       there = JList [toy_entry ''b'' ''2'', toy_entry ''c'' ''0'', toy_entry ''d'' ''4'']
   in compare_manifests here there True = Inr ([JStr ''a'', JStr ''c''], [JStr ''d''])
    \<and> distinct [JStr ''a'', JStr ''c'']"
proof -
  have c: "compare_manifests (JList [toy_entry ''a'' ''1'', toy_entry ''b'' ''2'', toy_entry ''c'' ''3''])
      (JList [toy_entry ''b'' ''2'', toy_entry ''c'' ''0'', toy_entry ''d'' ''4'']) True = Inr ([JStr ''a'', JStr ''c''], [JStr ''d''])"
    by (simp add: compare_manifests_def toy_entry_def dict_simps)
  show ?thesis using rsync_plan_converges [OF c] c by simp
qed

section \<open>A file on its way\<close>

lemma concat_chunks: "0 < n \<Longrightarrow> concat (chunks_of n b) = b"
  by (induction n b rule: chunks_of.induct) (subst chunks_of.simps, simp)

lemma chunk_length: "c \<in> set (chunks_of n b) \<Longrightarrow> length c \<le> n"
  by (induction n b rule: chunks_of.induct) (subst (asm) (2) chunks_of.simps, auto split: if_splits)

lemma rsync_send_Inr:
  "rsync_send t d s = (None, s') \<Longrightarrow> rs_linked s \<Longrightarrow>
    \<exists>bs. type_frame (t, d) = Inr bs \<and> s' = s\<lparr>rs_sent := rs_sent s @ bs\<rparr>"
  by (auto simp: rsync_send_def type_send_def split: sum.splits)

lemma send_chunks_Inr:
  assumes "send_chunks cs s = (None, s')" "rs_linked s"
  shows "\<exists>bss. list_all2 (\<lambda>m bs. type_frame m = Inr bs) (map (Pair rs_file_data) cs) bss
    \<and> s' = s\<lparr>rs_sent := rs_sent s @ concat bss, rs_bytes := rs_bytes s + length (concat cs)\<rparr>"
  using assms
proof (induction cs arbitrary: s)
  case (Cons c cs)
  obtain s1 where "rsync_send rs_file_data c s = (None, s1)"
    using Cons.prems(1) by (auto split: prod.splits option.splits)
  then obtain bs where b: "type_frame (rs_file_data, c) = Inr bs"
      "send_chunks cs (s\<lparr>rs_sent := rs_sent s @ bs, rs_bytes := rs_bytes s + length c\<rparr>) = (None, s')"
    using rsync_send_Inr [of rs_file_data c s s1] Cons.prems by auto
  then obtain bss where "list_all2 (\<lambda>m bs. type_frame m = Inr bs) (map (Pair rs_file_data) cs) bss"
      "s' = s\<lparr>rs_sent := rs_sent s @ bs @ concat bss, rs_bytes := rs_bytes s + length c + length (concat cs)\<rparr>"
    using Cons.IH [OF b(2)] Cons.prems(2) by auto
  then show ?case using b(1) by (intro exI [of _ "bs # bss"]) simp
qed simp

lemma send_file_Inr:
  assumes "send_file fs path rel s = (None, s')" "rs_linked s"
  shows "\<exists>n d bss. fs_size fs path (rs_world s) = Inr n \<and> fs_read fs path (rs_world s) = Inr d
    \<and> length (encode_utf8 rel) < 256 ^ 2 \<and> n < 256 ^ 8
    \<and> list_all2 (\<lambda>m bs. type_frame m = Inr bs)
        ((rs_file_start, pack_be 2 (length (encode_utf8 rel)) @ encode_utf8 rel @ pack_be 8 n)
          # map (Pair rs_file_data) (chunks_of 32768 d) @ [(rs_file_end, [])]) bss
    \<and> rs_sent s' = rs_sent s @ concat bss"
proof -
  obtain n where n: "fs_size fs path (rs_world s) = Inr n" using assms(1) by (auto simp: send_file_def split: sum.splits)
  have f: "length (encode_utf8 rel) < 256 ^ 2" "n < 256 ^ 8"
    using assms(1) n by (auto simp: send_file_def split: if_splits)
  let ?h = "pack_be 2 (length (encode_utf8 rel)) @ encode_utf8 rel @ pack_be 8 n"
  obtain b1 where b1: "type_frame (rs_file_start, ?h) = Inr b1"
      "rsync_send rs_file_start ?h s = (None, s\<lparr>rs_sent := rs_sent s @ b1\<rparr>)"
    using assms n f rsync_send_Inr [of rs_file_start ?h s]
    by (cases "rsync_send rs_file_start ?h s") (auto simp: send_file_def split: option.splits)
  let ?s1 = "s\<lparr>rs_sent := rs_sent s @ b1\<rparr>"
  obtain d where d: "fs_read fs path (rs_world s) = Inr d"
    using assms(1) n f b1(2) by (auto simp: send_file_def split: sum.splits)
  obtain s2 where "send_chunks (chunks_of 32768 d) ?s1 = (None, s2)"
    using assms(1) n f b1(2) d by (auto simp: send_file_def split: prod.splits option.splits)
  then obtain bss where bss: "list_all2 (\<lambda>m bs. type_frame m = Inr bs) (map (Pair rs_file_data) (chunks_of 32768 d)) bss"
      "send_chunks (chunks_of 32768 d) ?s1 =
        (None, ?s1\<lparr>rs_sent := rs_sent ?s1 @ concat bss, rs_bytes := rs_bytes s + length (concat (chunks_of 32768 d))\<rparr>)"
    using send_chunks_Inr [of _ ?s1 s2] assms(2) by fastforce
  let ?s2 = "?s1\<lparr>rs_sent := rs_sent ?s1 @ concat bss, rs_bytes := rs_bytes s + length (concat (chunks_of 32768 d))\<rparr>"
  obtain b3 where b3: "type_frame (rs_file_end, []) = Inr b3" "rs_sent s' = rs_sent ?s2 @ b3"
    using assms n f b1(2) d bss(2) rsync_send_Inr [of rs_file_end "[]" ?s2]
    by (cases "rsync_send rs_file_end [] ?s2") (auto simp: send_file_def split: option.splits)
  show ?thesis
    using n d f b1(1) bss(1) b3
    by (intro exI [of _ n] exI [of _ d] exI [of _ "b1 # bss @ [b3]"]) (auto intro!: list_all2_appendI)
qed


text \<open>The handler as \<^verbatim>\<open>_process_buffer\<close> sees it, and what a file does to it.\<close>

definition rsync_step :: "'w files \<Rightarrow> nat \<times> bytes \<Rightarrow> 'w rsync \<Rightarrow> bool \<times> 'w rsync" where
  "rsync_step fs m s = (case handle_rsync fs m s of (e, s') \<Rightarrow> (e = None, s'))"

lemma rsync_on_data_step: "rsync_on_data fs = feed type_header (\<lambda>f. rsync_step fs (type_message f))"
  unfolding rsync_on_data_def
  by (rule arg_cong [where f = "feed type_header"]) (simp add: fun_eq_iff rsync_step_def)

definition writable :: "'w files \<Rightarrow> string \<Rightarrow> bool" where
  "writable fs q \<longleftrightarrow> (\<forall>w. fst (fs_parents fs q w) = None \<and> fst (fs_open fs q w) = None \<and> (\<forall>d. fst (fs_append fs q d w) = None))"

lemma rsync_step_start:
  assumes "writable fs (path_text rel)" "length (encode_utf8 rel) < 256 ^ 2" "n < 256 ^ 8"
  shows "rsync_step fs (rs_file_start, pack_be 2 (length (encode_utf8 rel)) @ encode_utf8 rel @ pack_be 8 n) s =
    (True, s\<lparr>rs_file := Some (path_text rel), rs_size := n, rs_received := 0,
      rs_world := snd (fs_open fs (path_text rel) (snd (fs_parents fs (path_text rel) (rs_world s)))),
      rs_handle := Some (path_text rel)\<rparr>)"
proof -
  let ?q = "path_text rel"
  obtain w where w: "fs_parents fs ?q (rs_world s) = (None, w)"
    using assms(1) unfolding writable_def by (metis prod.collapse)
  obtain w' where w': "fs_open fs ?q w = (None, w')" using assms(1) unfolding writable_def by (metis prod.collapse)
  show ?thesis using assms(2,3) w w' by (simp add: rsync_step_def handle_rsync_def handle_file_start_def rs_types Let_def)
qed

lemma rsync_step_data:
  assumes "writable fs q" "rs_handle s = Some q"
  shows "rsync_step fs (rs_file_data, d) s =
    (True, s\<lparr>rs_world := snd (fs_append fs q d (rs_world s)), rs_received := rs_received s + length d,
      rs_bytes := rs_bytes s + length d\<rparr>)"
proof -
  obtain w where "fs_append fs q d (rs_world s) = (None, w)" using assms(1) unfolding writable_def by (metis prod.collapse)
  then show ?thesis using assms(2) by (simp add: rsync_step_def handle_rsync_def handle_file_data_def rs_types)
qed

lemma rsync_data_fold:
  assumes "writable fs q"
  shows "rs_handle s = Some q \<Longrightarrow> fold (\<lambda>m s. snd (rsync_step fs m s)) (map (Pair rs_file_data) cs) s =
    s\<lparr>rs_world := fold (\<lambda>d w. snd (fs_append fs q d w)) cs (rs_world s),
      rs_received := rs_received s + length (concat cs), rs_bytes := rs_bytes s + length (concat cs)\<rparr>"
  by (induction cs arbitrary: s) (simp_all add: rsync_step_data [OF assms])

lemma rsync_step_end:
  "rs_handle s = Some q \<Longrightarrow>
    rsync_step fs (rs_file_end, []) s = (True, s\<lparr>rs_handle := None, rs_files := rs_files s + 1, rs_file := None\<rparr>)"
  by (simp add: rsync_step_def handle_rsync_def handle_file_end_def rs_types)

lemma rsync_step_idle:
  "rs_handle s = None \<Longrightarrow> rsync_step fs (rs_file_data, d) s = (True, s)"
  "rs_handle s = None \<Longrightarrow> rsync_step fs (rs_file_end, []) s = (True, s\<lparr>rs_file := None\<rparr>)"
  by (simp_all add: rsync_step_def handle_rsync_def handle_file_data_def handle_file_end_def rs_types)

text \<open>
  C22. A file on its way: whatever the pieces in which it arrives, the receiver creates the file that
  the sender names, writes exactly the contents to it, in order, and counts it. The name is taken
  as it is: it is not put below the destination, and neither an absolute path nor double dots
  are refused.
\<close>

theorem rsync_file_transfer:
  assumes "send_file fs path rel s = (None, s')" "rs_linked s" "fs_read fs path (rs_world s) = Inr d"
    and "rs_sent s' = rs_sent s @ concat cs" "writable gs (path_text rel)" "rs_handle t = None"
  shows "\<exists>t' chunks. fold (rsync_on_data gs) cs ([], t) = ([], t') \<and> concat chunks = d
    \<and> rs_world t' = fold (\<lambda>c w. snd (fs_append gs (path_text rel) c w)) chunks
        (snd (fs_open gs (path_text rel) (snd (fs_parents gs (path_text rel) (rs_world t)))))
    \<and> rs_files t' = rs_files t + 1 \<and> rs_bytes t' = rs_bytes t + length d \<and> rs_handle t' = None"
proof -
  let ?q = "path_text rel" and ?cs = "chunks_of 32768 d"
  obtain n bss where b: "length (encode_utf8 rel) < 256 ^ 2" "n < 256 ^ 8"
    "list_all2 (\<lambda>m bs. type_frame m = Inr bs)
        ((rs_file_start, pack_be 2 (length (encode_utf8 rel)) @ encode_utf8 rel @ pack_be 8 n)
          # map (Pair rs_file_data) ?cs @ [(rs_file_end, [])]) bss"
    "rs_sent s' = rs_sent s @ concat bss"
    using send_file_Inr [OF assms(1,2)] assms(3) by auto
  let ?ms = "(rs_file_start, pack_be 2 (length (encode_utf8 rel)) @ encode_utf8 rel @ pack_be 8 n)
          # map (Pair rs_file_data) ?cs @ [(rs_file_end, [])]"
  have ok: "fst (rsync_step gs m u) \<and> rs_handle (snd (rsync_step gs m u)) \<in> {None, Some ?q}"
    if "m \<in> set ?ms" "rs_handle u \<in> {None, Some ?q}" for m u
    using that rsync_step_start [OF assms(5) b(1,2), of u] rsync_step_data [OF assms(5), of u] rsync_step_end [of u ?q gs]
      rsync_step_idle [of u gs]
    by (cases "rs_handle u") auto
  have f: "fold (rsync_on_data gs) cs ([], t) = ([], fold (\<lambda>m s. snd (rsync_step gs m s)) ?ms t)"
    unfolding rsync_on_data_step
    by (rule typed.messages_handled_inv [OF b(3), where Q = "\<lambda>u. rs_handle u \<in> {None, Some ?q}"])
      (use ok assms(4,6) b(4) in \<open>simp_all del: list.set set_append\<close>)
  show ?thesis
    unfolding f
    by (intro exI [of _ ?cs] exI)
      (auto simp: rsync_step_start [OF assms(5) b(1,2)] rsync_data_fold [OF assms(5)] rsync_step_end [of _ ?q] concat_chunks)
qed

text \<open>Files in memory.\<close>

definition memory_files :: "(string, bytes) dict files" where
  "memory_files =
     \<lparr>fs_parents = (\<lambda>p w. (None, w)), fs_open = (\<lambda>p w. (None, dset p [] w)),
      fs_append = (\<lambda>p d w. (None, dset p ((case dget w p of None \<Rightarrow> [] | Some x \<Rightarrow> x) @ d) w)),
      fs_exists = (\<lambda>p w. Inr (has_key w p)), fs_unlink = (\<lambda>p w. (None, ddel p w)),
      fs_size = (\<lambda>p w. case dget w p of None \<Rightarrow> Inl OSError | Some d \<Rightarrow> Inr (length d)),
      fs_read = (\<lambda>p w. case dget w p of None \<Rightarrow> Inl OSError | Some d \<Rightarrow> Inr d)\<rparr>"

theorem rsync_file_transfer_witness:
  "let s = (new_rsync [(''src/x'', [1, 2])])\<lparr>rs_linked := True\<rparr>;
       stream = rs_sent (snd (send_file memory_files ''src/x'' ''../x'' s))
   in stream \<noteq> [] \<and> rs_world (snd (fold (rsync_on_data memory_files) [stream] ([], new_rsync []))) = [(''../x'', [1, 2])]"
proof -
  let ?s = "(new_rsync [(''src/x'', [1, 2])])\<lparr>rs_linked := True\<rparr>"
  let ?s' = "snd (send_file memory_files ''src/x'' ''../x'' ?s)"
  have u: "encode_utf8 ''../x'' = lit ''../x''" by (rule encode_utf8_ascii) (auto simp: cp_def)
  have c: "chunks_of 32768 [1, 2] = [ [1, 2] ]" by (simp add: chunks_of.simps)
  have q: "path_text ''../x'' = ''../x''" by code_simp
  have r: "fst (send_file memory_files ''src/x'' ''../x'' ?s) = None" "rs_sent ?s' \<noteq> []"
    by (simp_all add: send_file_def memory_files_def new_rsync_def rsync_send_def type_send_def type_frame_def
      fields_frame_def rs_types u c lit_def)
  then have e: "send_file memory_files ''src/x'' ''../x'' ?s = (None, ?s')" by (simp add: prod_eq_iff)
  have "writable memory_files (path_text ''../x'')" by (simp add: writable_def memory_files_def)
  then obtain t' chunks where "fold (rsync_on_data memory_files) [rs_sent ?s'] ([], new_rsync []) = ([], t')"
      "concat chunks = [1, 2]"
      "rs_world t' = fold (\<lambda>c w. snd (fs_append memory_files ''../x'' c w)) chunks [(''../x'', [])]"
    using rsync_file_transfer [OF e, of "[1, 2]" "[rs_sent ?s']" memory_files "new_rsync []"] q
    by (auto simp: new_rsync_def memory_files_def)
  moreover have "fold (\<lambda>c w. snd (fs_append memory_files p c w)) cs [(p, d)] = [(p, d @ concat cs)]" for p d cs
    by (induction cs arbitrary: d) (simp_all add: memory_files_def)
  ultimately show ?thesis using r(2) by simp
qed

end
