(* ===== verification/Dns.thy ===== *)
theory Dns
  imports Typed_Frames Json_Text
begin

text \<open>
  \<^verbatim>\<open>src/wh/cli/dns.py\<close>: DNS queries over the wormhole. The resolvers of the operating system and of
  \<^verbatim>\<open>dnspython\<close> are parameters, as is the text of an exception.
\<close>

section \<open>Records and responses\<close>

record dns_record =
  dr_name :: jval
  dr_type :: string
  dr_ttl :: int
  dr_value :: string

record dns_response =
  dq_query :: jval
  dq_type :: jval
  dq_answers :: "dns_record list"
  dq_authorities :: "dns_record list"
  dq_additionals :: "dns_record list"
  dq_error :: string

definition record_json :: "dns_record \<Rightarrow> jval" where
  "record_json r =
     JObj [(''name'', dr_name r), (''type'', JStr (dr_type r)), (''ttl'', JInt (dr_ttl r)), (''value'', JStr (dr_value r))]"

definition response_json :: "dns_response \<Rightarrow> jval" where
  "response_json r =
     JObj [(''query'', dq_query r), (''query_type'', dq_type r), (''answers'', JList (map record_json (dq_answers r))),
       (''authorities'', JList (map record_json (dq_authorities r))),
       (''additionals'', JList (map record_json (dq_additionals r))), (''error'', JStr (dq_error r))]"

section \<open>The lookup\<close>

text \<open>
  What the resolvers give for a value that need not be a text: the text of an exception, or the
  result. \<^verbatim>\<open>rv_dns\<close> is \<^verbatim>\<open>dns.resolver.resolve\<close>, \<^const>\<open>None\<close> where \<^verbatim>\<open>dnspython\<close> is not installed, with the
  fields of each record that the code prints.
\<close>

record resolver =
  rv_host :: "jval \<Rightarrow> string + string \<times> string list"
  rv_addrinfo :: "jval \<Rightarrow> string + string list"
  rv_byaddr :: "jval \<Rightarrow> string + string"
  rv_dns :: "(jval \<Rightarrow> string \<Rightarrow> string + string list list) option"

definition dns_answer :: "jval \<Rightarrow> string \<Rightarrow> string \<Rightarrow> dns_record" where
  "dns_answer name t v = \<lparr>dr_name = name, dr_type = t, dr_ttl = 300, dr_value = v\<rparr>"

text \<open>The branches on the type; the CNAME branch has its own fallback.\<close>

definition dns_library :: "resolver \<Rightarrow> jval \<Rightarrow> string \<Rightarrow> dns_record list \<times> string \<Rightarrow> dns_record list \<times> string" where
  "dns_library rv name t missing =
     (case rv_dns rv of
        None \<Rightarrow> missing
      | Some resolve \<Rightarrow>
          (case resolve name t of
             Inl e \<Rightarrow> ([], e)
           | Inr rs \<Rightarrow> (map (\<lambda>fs. dns_answer name t (join_with '' '' fs)) rs, [])))"

definition missing_library :: "string \<Rightarrow> dns_record list \<times> string" where
  "missing_library t = ([], t @ '' lookup requires dnspython library'')"

definition dns_lookup :: "resolver \<Rightarrow> (jval \<Rightarrow> string) \<Rightarrow> jval \<Rightarrow> jval \<Rightarrow> dns_record list \<times> string" where
  "dns_lookup rv str name qtype =
     (if qtype = JStr ''A'' then
        (case rv_host rv name of Inl e \<Rightarrow> ([], e) | Inr (_, ips) \<Rightarrow> (map (dns_answer name ''A'') ips, []))
      else if qtype = JStr ''AAAA'' then
        (case rv_addrinfo rv name of Inl e \<Rightarrow> ([], e) | Inr ips \<Rightarrow> (map (dns_answer name ''AAAA'') (rev (remdups (rev ips))), []))
      else if qtype = JStr ''PTR'' then
        (case rv_byaddr rv name of Inl e \<Rightarrow> ([], e) | Inr h \<Rightarrow> ([dns_answer name ''PTR'' h], []))
      else if qtype = JStr ''MX'' then dns_library rv name ''MX'' (missing_library ''MX'')
      else if qtype = JStr ''NS'' then dns_library rv name ''NS'' (missing_library ''NS'')
      else if qtype = JStr ''TXT'' then dns_library rv name ''TXT'' (missing_library ''TXT'')
      else if qtype = JStr ''CNAME'' then
        dns_library rv name ''CNAME''
          (case rv_host rv name of
             Inl e \<Rightarrow> ([], [])
           | Inr (c, _) \<Rightarrow> (if JStr c \<noteq> name then [dns_answer name ''CNAME'' c] else [], []))
      else if qtype = JStr ''SOA'' then dns_library rv name ''SOA'' (missing_library ''SOA'')
      else if qtype = JStr ''SRV'' then dns_library rv name ''SRV'' (missing_library ''SRV'')
      else ([], ''Unsupported query type: '' @ str qtype))"

section \<open>One side\<close>

definition dns_query_msg :: nat where "dns_query_msg = 1"
definition dns_response_msg :: nat where "dns_response_msg = 2"

text \<open>The future of a query: its value, or an exception with its text, or given up after the timeout.\<close>

datatype dns_future = DnsPending | DnsValue jval | DnsRaised string | DnsCancelled

record dns =
  dn_linked :: bool
  dn_sent :: bytes
  dn_tasks :: "bytes list"
  dn_future :: "dns_future option"
  dn_done :: bool

definition new_dns :: dns where
  "new_dns = \<lparr>dn_linked = False, dn_sent = [], dn_tasks = [], dn_future = None, dn_done = False\<rparr>"

text \<open>\<^verbatim>\<open>on_connected\<close> of \<^verbatim>\<open>run_server\<close> does not store the connection, \<^verbatim>\<open>callback\<close> of \<^verbatim>\<open>run_client\<close> does.\<close>

definition dns_server_connected :: "dns \<Rightarrow> dns" where
  "dns_server_connected s = s"

definition dns_client_connected :: "dns \<Rightarrow> dns" where
  "dns_client_connected s = s\<lparr>dn_linked := True\<rparr>"

definition dns_send :: "nat \<Rightarrow> jval \<Rightarrow> dns \<Rightarrow> unit result \<times> dns" where
  "dns_send t v s =
     (case type_send (dn_linked s) t (encode_utf8 (json_dumps None v)) (dn_sent s) of
        Inl e \<Rightarrow> (Inl e, s)
      | Inr b \<Rightarrow> (Inr (), s\<lparr>dn_sent := b\<rparr>))"

definition dns_error_json :: "string \<Rightarrow> jval" where
  "dns_error_json e = JObj [(''error'', JStr e)]"

text \<open>\<^verbatim>\<open>_handle_query\<close>: what is sent for a payload.\<close>

definition query_response :: "resolver \<Rightarrow> (jval \<Rightarrow> string) \<Rightarrow> bytes \<Rightarrow> jval result" where
  "query_response rv str payload =
     (case (case decode_utf8 payload of None \<Rightarrow> Inl ValueError | Some t \<Rightarrow> json_loads t) of
        Inl e \<Rightarrow> Inl e
      | Inr (JObj d) \<Rightarrow>
          (let name = (case dget d ''name'' of None \<Rightarrow> JStr [] | Some v \<Rightarrow> v);
               qtype = (case dget d ''type'' of None \<Rightarrow> JStr ''A'' | Some v \<Rightarrow> v)
           in (case dns_lookup rv str name qtype of
                 (answers, e) \<Rightarrow>
                   Inr (response_json \<lparr>dq_query = name, dq_type = qtype, dq_answers = answers, dq_authorities = [],
                     dq_additionals = [], dq_error = e\<rparr>)))
      | Inr _ \<Rightarrow> Inl AttributeError)"

definition handle_dns_query :: "(exn \<Rightarrow> string) \<Rightarrow> resolver \<Rightarrow> (jval \<Rightarrow> string) \<Rightarrow> bytes \<Rightarrow> dns \<Rightarrow> dns" where
  "handle_dns_query msg rv str payload s =
     (case query_response rv str payload of
        Inl e \<Rightarrow> snd (dns_send dns_response_msg (dns_error_json (msg e)) s)
      | Inr v \<Rightarrow>
          (case dns_send dns_response_msg v s of
             (Inl e, s') \<Rightarrow> snd (dns_send dns_response_msg (dns_error_json (msg e)) s')
           | (Inr _, s') \<Rightarrow> s'))"

definition handle_dns_response :: "(exn \<Rightarrow> string) \<Rightarrow> bytes \<Rightarrow> dns \<Rightarrow> dns" where
  "handle_dns_response msg payload s =
     (if dn_future s = Some DnsPending then
        s\<lparr>dn_future := Some (case (case decode_utf8 payload of None \<Rightarrow> Inl ValueError | Some t \<Rightarrow> json_loads t) of
            Inl e \<Rightarrow> DnsRaised (msg e) | Inr v \<Rightarrow> DnsValue v)\<rparr>
      else s)"

definition handle_dns :: "(exn \<Rightarrow> string) \<Rightarrow> nat \<times> bytes \<Rightarrow> dns \<Rightarrow> dns" where
  "handle_dns msg m s =
     (if fst m = dns_query_msg then s\<lparr>dn_tasks := dn_tasks s @ [snd m]\<rparr>
      else if fst m = dns_response_msg then handle_dns_response msg (snd m) s
      else s)"

definition dns_on_data :: "(exn \<Rightarrow> string) \<Rightarrow> bytes \<Rightarrow> bytes \<times> dns \<Rightarrow> bytes \<times> dns" where
  "dns_on_data msg = feed type_header (\<lambda>f s. (True, handle_dns msg (type_message f) s))"

text \<open>The task of the oldest query runs.\<close>

definition run_dns_task :: "(exn \<Rightarrow> string) \<Rightarrow> resolver \<Rightarrow> (jval \<Rightarrow> string) \<Rightarrow> dns \<Rightarrow> dns" where
  "run_dns_task msg rv str s =
     (case dn_tasks s of
        [] \<Rightarrow> s
      | p # ps \<Rightarrow> handle_dns_query msg rv str p (s\<lparr>dn_tasks := ps\<rparr>))"

definition dns_lost :: "dns \<Rightarrow> dns" where
  "dns_lost s =
     s\<lparr>dn_done := True,
       dn_future := (if dn_future s = Some DnsPending then Some (DnsRaised ''Connection lost'') else dn_future s)\<rparr>"

text \<open>\<^verbatim>\<open>query\<close> up to its wait, its timeout, and what it returns or raises.\<close>

definition start_query :: "string \<Rightarrow> string \<Rightarrow> dns \<Rightarrow> unit result \<times> dns" where
  "start_query name qtype s =
     dns_send dns_query_msg (JObj [(''name'', JStr name), (''type'', JStr (py_upper qtype))])
       (s\<lparr>dn_future := Some DnsPending\<rparr>)"

definition query_timeout :: "dns \<Rightarrow> dns" where
  "query_timeout s = (if dn_future s = Some DnsPending then s\<lparr>dn_future := Some DnsCancelled\<rparr> else s)"

definition query_result :: "dns \<Rightarrow> (string + jval) option" where
  "query_result s =
     (case dn_future s of
        Some (DnsValue v) \<Rightarrow> Some (Inr v)
      | Some (DnsRaised e) \<Rightarrow> Some (Inl e)
      | Some DnsCancelled \<Rightarrow> Some (Inr (dns_error_json ''Query timed out''))
      | _ \<Rightarrow> None)"


section \<open>The type of the responses\<close>

text \<open>
  An answer to the query of \<^verbatim>\<open>name\<close> with type \<^verbatim>\<open>t\<close>, and a response to it: an object with the query and its
  type, three lists, of which the answers are all of the type that was asked for, and a text as
  \<^verbatim>\<open>error\<close>, which is empty if there is an answer.
\<close>

definition is_text :: "jval option \<Rightarrow> bool" where
  "is_text v = (case v of Some (JStr _) \<Rightarrow> True | _ \<Rightarrow> False)"

definition typed_answer :: "jval \<Rightarrow> jval \<Rightarrow> jval \<Rightarrow> bool" where
  "typed_answer name t v =
     (case v of
        JObj d \<Rightarrow> dkeys d = [''name'', ''type'', ''ttl'', ''value''] \<and> dget d ''name'' = Some name \<and> dget d ''type'' = Some t
          \<and> is_text (Some t) \<and> dget d ''ttl'' = Some (JInt 300) \<and> is_text (dget d ''value'')
      | _ \<Rightarrow> False)"

definition typed_response :: "jval \<Rightarrow> jval \<Rightarrow> jval \<Rightarrow> bool" where
  "typed_response name t v =
     (case v of
        JObj d \<Rightarrow> dkeys d = [''query'', ''query_type'', ''answers'', ''authorities'', ''additionals'', ''error'']
          \<and> dget d ''query'' = Some name \<and> dget d ''query_type'' = Some t
          \<and> dget d ''authorities'' = Some (JList []) \<and> dget d ''additionals'' = Some (JList [])
          \<and> is_text (dget d ''error'')
          \<and> (case dget d ''answers'' of
               Some (JList as) \<Rightarrow> list_all (typed_answer name t) as \<and> (as = [] \<or> dget d ''error'' = Some (JStr []))
             | _ \<Rightarrow> False)
      | _ \<Rightarrow> False)"

text \<open>The name and type that an object asks for, and the answers of a response.\<close>

definition asked_name :: "jdict \<Rightarrow> jval" where
  "asked_name d = (case dget d ''name'' of None \<Rightarrow> JStr [] | Some v \<Rightarrow> v)"

definition asked_type :: "jdict \<Rightarrow> jval" where
  "asked_type d = (case dget d ''type'' of None \<Rightarrow> JStr ''A'' | Some v \<Rightarrow> v)"

definition answers_of :: "jval \<Rightarrow> jval option" where
  "answers_of v = (case v of JObj d \<Rightarrow> dget d ''answers'' | _ \<Rightarrow> None)"

lemma typed_dns_answer: "typed_answer name (JStr t) (record_json (dns_answer name t v))"
  by (simp add: record_json_def dns_answer_def typed_answer_def is_text_def)

lemma dns_library_typed:
  assumes "dns_library rv name t missing = (as, e)"
    and "rv_dns rv = None \<Longrightarrow> list_all (typed_answer name (JStr t)) (map record_json (fst missing)) \<and> (fst missing \<noteq> [] \<longrightarrow> snd missing = [])"
  shows "list_all (typed_answer name (JStr t)) (map record_json as) \<and> (as \<noteq> [] \<longrightarrow> e = [])"
  using assms typed_dns_answer
  by (auto simp: dns_library_def list_all_iff split: option.splits sum.splits)

lemma dns_lookup_typed:
  assumes "dns_lookup rv str name t = (as, e)"
  shows "list_all (typed_answer name t) (map record_json as) \<and> (as \<noteq> [] \<longrightarrow> e = [])"
proof -
  note library = dns_library_typed [where rv = rv and name = name and as = as and e = e]
  consider (A) "t = JStr ''A''" | (AAAA) "t = JStr ''AAAA''" | (PTR) "t = JStr ''PTR''" | (CNAME) "t = JStr ''CNAME''"
    | (lib) x where "t = JStr x" "x \<in> {''MX'', ''NS'', ''TXT'', ''SOA'', ''SRV''}"
    | (bad) "t \<notin> {JStr ''A'', JStr ''AAAA'', JStr ''PTR'', JStr ''CNAME'', JStr ''MX'', JStr ''NS'', JStr ''TXT'', JStr ''SOA'', JStr ''SRV''}"
    by (simp only: insert_iff empty_iff) metis
  then show ?thesis
  proof cases
    case CNAME
    then have "dns_library rv name ''CNAME'' (case rv_host rv name of Inl e \<Rightarrow> ([], [])
        | Inr (c, _) \<Rightarrow> (if JStr c \<noteq> name then [dns_answer name ''CNAME'' c] else [], [])) = (as, e)"
      using assms by (simp add: dns_lookup_def)
    then show ?thesis unfolding CNAME by (rule library) (auto simp: typed_dns_answer split: sum.split)
  next
    case lib
    then have "dns_lookup rv str name t = dns_library rv name x (missing_library x)"
      by (elim insertE emptyE) (simp_all add: dns_lookup_def)
    then have "dns_library rv name x (missing_library x) = (as, e)" using assms by simp
    then show ?thesis unfolding lib(1) by (rule library) (simp add: missing_library_def)
  next
    case A
    then show ?thesis using assms typed_dns_answer by (auto simp: dns_lookup_def list_all_iff split: sum.splits)
  next
    case AAAA
    then show ?thesis using assms typed_dns_answer by (auto simp: dns_lookup_def list_all_iff split: sum.splits)
  next
    case PTR
    then show ?thesis using assms typed_dns_answer by (auto simp: dns_lookup_def list_all_iff split: sum.splits)
  next
    case bad
    then have "as = []" using assms by (simp add: dns_lookup_def)
    then show ?thesis by simp
  qed
qed

lemma response_json_typed:
  "dns_lookup rv str name t = (as, e) \<Longrightarrow>
    typed_response name t
      (response_json \<lparr>dq_query = name, dq_type = t, dq_answers = as, dq_authorities = [], dq_additionals = [], dq_error = e\<rparr>)"
  using dns_lookup_typed [of rv str name t as e] by (auto simp: typed_response_def response_json_def is_text_def)

lemma query_response_object:
  assumes "decode_utf8 payload = Some t" "json_loads t = Inr (JObj d)"
  shows "\<exists>as e. dns_lookup rv str (asked_name d) (asked_type d) = (as, e)
    \<and> query_response rv str payload
        = Inr (response_json \<lparr>dq_query = asked_name d, dq_type = asked_type d, dq_answers = as, dq_authorities = [],
            dq_additionals = [], dq_error = e\<rparr>)"
  using assms
  by (cases "dns_lookup rv str (asked_name d) (asked_type d)")
    (simp add: query_response_def Let_def asked_name_def asked_type_def)

lemma query_response_no_object:
  "\<forall>t d. decode_utf8 payload = Some t \<longrightarrow> json_loads t \<noteq> Inr (JObj d) \<Longrightarrow> \<exists>e. query_response rv str payload = Inl e"
  by (auto simp: query_response_def split: sum.split jval.split option.splits)

section \<open>The server\<close>

text \<open>What happens to a side: data arrive, the oldest query's task runs, the connection is lost.\<close>

datatype dns_event = DnsChunk bytes | DnsTask | DnsLost

fun dns_step :: "(exn \<Rightarrow> string) \<Rightarrow> resolver \<Rightarrow> (jval \<Rightarrow> string) \<Rightarrow> dns_event \<Rightarrow> bytes \<times> dns \<Rightarrow> bytes \<times> dns" where
  "dns_step msg rv str (DnsChunk c) s = dns_on_data msg c s"
| "dns_step msg rv str DnsTask s = (fst s, run_dns_task msg rv str (snd s))"
| "dns_step msg rv str DnsLost s = (fst s, dns_lost (snd s))"

definition dns_mute :: "dns \<Rightarrow> bool" where
  "dns_mute s \<longleftrightarrow> \<not> dn_linked s \<and> dn_sent s = []"

lemma dns_send_mute: "dns_mute s \<Longrightarrow> dns_mute (snd (dns_send t v s))"
  by (auto simp: dns_send_def type_send_def dns_mute_def split: sum.split)

lemma dns_step_mute: "dns_mute (snd s) \<Longrightarrow> dns_mute (snd (dns_step msg rv str e s))"
proof (cases e)
  case (DnsChunk c)
  have "dns_mute (handle_dns msg m s)" if "dns_mute s" for m s
    using that by (simp add: handle_dns_def handle_dns_response_def dns_mute_def)
  note m = this
  show "dns_mute (snd s) \<Longrightarrow> ?thesis"
    unfolding DnsChunk dns_step.simps dns_on_data_def by (rule feed_inv [where Q = dns_mute]) (simp_all add: m)
next
  case DnsTask
  have "dns_mute (handle_dns_query msg rv str p s)" if m: "dns_mute s" for p s
  proof (cases "query_response rv str p")
    case (Inl x)
    then show ?thesis using dns_send_mute [OF m] by (simp add: handle_dns_query_def)
  next
    case (Inr v)
    obtain r s' where d: "dns_send dns_response_msg v s = (r, s')" by (rule prod.exhaust)
    have "dns_mute s'" using dns_send_mute [OF m, of dns_response_msg v] d by simp
    then show ?thesis using dns_send_mute [of s'] d Inr by (cases r) (simp_all add: handle_dns_query_def)
  qed
  moreover have "dns_mute (m\<lparr>dn_tasks := ps\<rparr>) = dns_mute m" for m ps by (simp add: dns_mute_def)
  ultimately show "dns_mute (snd s) \<Longrightarrow> ?thesis"
    by (simp add: DnsTask run_dns_task_def split: list.split)
qed (simp add: dns_lost_def dns_mute_def)

text \<open>
  C37. The type of the responses: whatever a query is and whatever the resolvers give or raise, the
  server builds a response exactly when the query is the JSON text of an object, and the response is a
  well-typed object about the name and type that were asked for (the empty name and A if there is none):
  only answers of that name and type, none if there is an error, and for the type A one answer for every
  address that the resolver gives, in its order. But whatever happens to a server as it runs, it sends
  nothing: it never stores its connection.
\<close>

theorem dns_responses_typed:
  "(case query_response rv str payload of
      Inl e \<Rightarrow> \<not> (\<exists>t d. decode_utf8 payload = Some t \<and> json_loads t = Inr (JObj d))
    | Inr v \<Rightarrow> \<exists>t d. decode_utf8 payload = Some t \<and> json_loads t = Inr (JObj d)
        \<and> typed_response (asked_name d) (asked_type d) v
        \<and> (\<forall>c ips. asked_type d = JStr ''A'' \<longrightarrow> rv_host rv (asked_name d) = Inr (c, ips) \<longrightarrow>
             answers_of v = Some (JList (map (\<lambda>ip. record_json (dns_answer (asked_name d) ''A'' ip)) ips))))
   \<and> dn_sent (snd (fold (dns_step msg rv str) evs ([], dns_server_connected new_dns))) = []"
proof
  have "dns_mute (snd (fold (dns_step msg rv str) evs s))" if "dns_mute (snd s)" for s
    using that dns_step_mute by (induction evs arbitrary: s) auto
  moreover have "dns_mute (dns_server_connected new_dns)"
    by (simp add: dns_mute_def dns_server_connected_def new_dns_def)
  ultimately show "dn_sent (snd (fold (dns_step msg rv str) evs ([], dns_server_connected new_dns))) = []"
    by (simp add: dns_mute_def)
  show "case query_response rv str payload of
      Inl e \<Rightarrow> \<not> (\<exists>t d. decode_utf8 payload = Some t \<and> json_loads t = Inr (JObj d))
    | Inr v \<Rightarrow> \<exists>t d. decode_utf8 payload = Some t \<and> json_loads t = Inr (JObj d)
        \<and> typed_response (asked_name d) (asked_type d) v
        \<and> (\<forall>c ips. asked_type d = JStr ''A'' \<longrightarrow> rv_host rv (asked_name d) = Inr (c, ips) \<longrightarrow>
             answers_of v = Some (JList (map (\<lambda>ip. record_json (dns_answer (asked_name d) ''A'' ip)) ips)))"
  proof (cases "\<exists>t d. decode_utf8 payload = Some t \<and> json_loads t = Inr (JObj d)")
    case True
    then obtain t d where td: "decode_utf8 payload = Some t" "json_loads t = Inr (JObj d)" by blast
    obtain as e where r: "dns_lookup rv str (asked_name d) (asked_type d) = (as, e)"
      "query_response rv str payload
        = Inr (response_json \<lparr>dq_query = asked_name d, dq_type = asked_type d, dq_answers = as, dq_authorities = [],
            dq_additionals = [], dq_error = e\<rparr>)"
      using query_response_object [OF td] by blast
    have "as = map (dns_answer (asked_name d) ''A'') ips"
      if "asked_type d = JStr ''A''" "rv_host rv (asked_name d) = Inr (c, ips)" for c ips
      using r(1) that by (simp add: dns_lookup_def)
    then show ?thesis
      using td response_json_typed [OF r(1)] unfolding r(2) sum.case
      by (intro exI [of _ t] exI [of _ d]) (auto simp: answers_of_def response_json_def)
  next
    case False
    then show ?thesis using query_response_no_object [of payload rv str] by auto
  qed
qed

definition toy_resolver :: resolver where
  "toy_resolver =
     \<lparr>rv_host = (\<lambda>n. if n = JStr ''x'' then Inr (''x'', [''10.0.0.1'']) else Inl ''not found''),
      rv_addrinfo = (\<lambda>n. Inl ''not found''), rv_byaddr = (\<lambda>n. Inl ''not found''), rv_dns = None\<rparr>"

lemma dns_send_ok:
  "t < 256 \<Longrightarrow> length (encode_utf8 (json_dumps None v)) < 256 ^ 4 \<Longrightarrow>
    dns_send t v s = (Inr (), s\<lparr>dn_sent := dn_sent s @ (if dn_linked s then put_frame (pack_be 1 t) (encode_utf8 (json_dumps None v)) else [])\<rparr>)"
  using type_frame_Inr [of "(t, encode_utf8 (json_dumps None v))" "put_frame (pack_be 1 t) (encode_utf8 (json_dumps None v))"]
  by (simp only: dns_send_def type_send_def fst_conv snd_conv) simp

theorem dns_responses_typed_witness:
  "(\<exists>v. query_response toy_resolver (\<lambda>_. []) (lit ''{\"name\": \"x\"}'') = Inr v
      \<and> typed_response (JStr ''x'') (JStr ''A'') v
      \<and> answers_of v = Some (JList [record_json (dns_answer (JStr ''x'') ''A'' ''10.0.0.1'')]))
   \<and> dn_sent (snd (fold (dns_step (\<lambda>_. []) toy_resolver (\<lambda>_. [])) [DnsChunk [1, 0, 0, 0, 1, 255], DnsTask]
        ([], dns_server_connected new_dns))) = []"
proof -
  let ?p = "lit ''{\"name\": \"x\"}''"
  have d: "decode_utf8 ?p = Some ''{\"name\": \"x\"}''" by code_simp
  have j: "json_loads ''{\"name\": \"x\"}'' = Inr (JObj [(''name'', JStr ''x'')])" by code_simp
  obtain v where v: "query_response toy_resolver (\<lambda>_. []) ?p = Inr v"
    using query_response_object [OF d j] by blast
  have a: "asked_name [(''name'', JStr ''x'')] = JStr ''x''" "asked_type [(''name'', JStr ''x'')] = JStr ''A''"
    by (simp_all add: asked_name_def asked_type_def)
  have h: "rv_host toy_resolver (JStr ''x'') = Inr (''x'', [''10.0.0.1''])" by (simp add: toy_resolver_def)
  note t = dns_responses_typed [where rv = toy_resolver and str = "\<lambda>_. []" and payload = ?p and msg = "\<lambda>_. []" and evs = "[DnsChunk [1, 0, 0, 0, 1, 255], DnsTask]"]
  have "typed_response (JStr ''x'') (JStr ''A'') v
      \<and> answers_of v = Some (JList [record_json (dns_answer (JStr ''x'') ''A'' ''10.0.0.1'')])"
    using conjunct1 [OF t] h unfolding v d sum.case by (auto simp: j a)
  then show ?thesis using v conjunct2 [OF t] by blast
qed

section \<open>A late response\<close>

text \<open>
  A late response answers the next query: responses carry nothing that tells which query they
  belong to, so the response to a query that has timed out becomes the result of the query that
  was started after it, in whatever pieces it arrives.
\<close>

theorem late_dns_response_taken:
  assumes "start_query name qtype (query_timeout s) = (Inr (), s2)"
    and "type_frame (dns_response_msg, payload) = Inr bs" "decode_utf8 payload = Some t" "json_loads t = Inr v" "concat cs = bs"
  shows "query_result (snd (fold (dns_on_data msg) cs ([], s2))) = Some (Inr v)"
proof -
  have p: "dn_future s2 = Some DnsPending"
    using assms(1) by (auto simp: start_query_def dns_send_def split: sum.splits)
  have "fold (dns_on_data msg) cs ([], s2) = ([], handle_dns msg (dns_response_msg, payload) s2)"
    using typed.messages_handled [of "[(dns_response_msg, payload)]" "[bs]" cs "\<lambda>m s. (True, handle_dns msg m s)"] assms(2,5)
    by (simp add: dns_on_data_def)
  then show ?thesis
    using p assms(3,4) by (simp add: handle_dns_def handle_dns_response_def dns_query_msg_def dns_response_msg_def query_result_def)
qed

theorem late_dns_response_taken_witness:
  "let s1 = snd (start_query ''a'' ''A'' (dns_client_connected new_dns)); s2 = snd (start_query ''b'' ''A'' (query_timeout s1))
   in query_result s1 = None \<and> query_result s2 = None
    \<and> (\<exists>bs. type_frame (dns_response_msg, lit ''7'') = Inr bs
         \<and> query_result (snd (fold (dns_on_data (\<lambda>_. [])) [bs] ([], s2))) = Some (Inr (JInt 7)))"
proof -
  let ?s1 = "snd (start_query ''a'' ''A'' (dns_client_connected new_dns))"
  let ?s2 = "snd (start_query ''b'' ''A'' (query_timeout ?s1))"
  have n: "length (encode_utf8 (json_dumps None (JObj [(''name'', JStr ''a''), (''type'', JStr ''A'')]))) = 26"
    "length (encode_utf8 (json_dumps None (JObj [(''name'', JStr ''b''), (''type'', JStr ''A'')]))) = 26"
    by code_simp+
  have u: "py_upper ''A'' = ''A''" by code_simp
  have "fst (start_query ''a'' ''A'' s) = Inr ()" "fst (start_query ''b'' ''A'' s) = Inr ()" for s
    unfolding start_query_def u
    using n dns_send_ok [of dns_query_msg "JObj [(''name'', JStr ''a''), (''type'', JStr ''A'')]"]
      dns_send_ok [of dns_query_msg "JObj [(''name'', JStr ''b''), (''type'', JStr ''A'')]"]
    by (simp_all only: dns_query_msg_def) simp_all
  then have e: "start_query ''b'' ''A'' (query_timeout ?s1) = (Inr (), ?s2)" by (simp add: prod_eq_iff)
  have f: "dn_future (snd (start_query x y z)) = Some DnsPending" for x y z
    by (auto simp: start_query_def dns_send_def split: sum.split)
  obtain bs where b: "type_frame (dns_response_msg, lit ''7'') = Inr bs"
    by (simp add: type_frame_def fields_frame_def dns_response_msg_def lit_def)
  have "decode_utf8 (lit ''7'') = Some ''7''" "json_loads ''7'' = Inr (JInt 7)" by code_simp+
  then show ?thesis
    using late_dns_response_taken [OF e b, of _ _ "[bs]"] f b by (auto simp: query_result_def)
qed

end
