(* ===== verification/Ldap_Client.thy ===== *)
theory Ldap_Client
  imports Py_Text Py_Base
begin

text \<open>
  \<^verbatim>\<open>src/wh/enterprise/ldap_client.py\<close>: the pool of LDAP connections, and the lookups over it. The
  directory is a parameter; connections are numbered.
\<close>

section \<open>The pool\<close>

record ldap_pool =
  lp_size :: nat
  lp_idle :: "nat list"
  lp_permits :: nat
  lp_initialized :: bool

definition new_ldap_pool :: "nat \<Rightarrow> ldap_pool" where
  "new_ldap_pool n = \<lparr>lp_size = n, lp_idle = [], lp_permits = n, lp_initialized = False\<rparr>"

definition initialize :: "bool \<Rightarrow> ldap_pool \<Rightarrow> unit result \<times> ldap_pool" where
  "initialize has_ldap3 p =
     (if lp_initialized p then (Inr (), p)
      else if has_ldap3 then (Inr (), p\<lparr>lp_initialized := True\<rparr>)
      else (Inl OtherError, p))"

text \<open>
  The entry of \<^verbatim>\<open>acquire\<close>: \<^const>\<open>None\<close> waits for the semaphore. \<^verbatim>\<open>made\<close> is what \<^verbatim>\<open>_create_connection\<close> gives if
  it is called; a failure gives the permit back.
\<close>

definition pool_acquire :: "(nat \<Rightarrow> bool) \<Rightarrow> nat result \<Rightarrow> ldap_pool \<Rightarrow> (nat result \<times> ldap_pool) option" where
  "pool_acquire bound made p =
     (if lp_permits p = 0 then None
      else
        (let p1 = p\<lparr>lp_permits := lp_permits p - 1\<rparr>;
             (r, p2) = (if lp_idle p1 \<noteq> []
                        then (if bound (last (lp_idle p1)) then Inr (last (lp_idle p1)) else made,
                              p1\<lparr>lp_idle := butlast (lp_idle p1)\<rparr>)
                        else (made, p1))
         in Some (case r of
                    Inr c \<Rightarrow> (Inr c, p2)
                  | Inl e \<Rightarrow> (Inl e, p2\<lparr>lp_permits := lp_permits p2 + 1\<rparr>))))"

text \<open>
  Its exit: after the block the connection goes back, or is unbound if the pool is full; after an
  exception in the block only the permit does.
\<close>

definition pool_return :: "nat \<Rightarrow> ldap_pool \<Rightarrow> bool \<times> ldap_pool" where
  "pool_return c p =
     (if length (lp_idle p) < lp_size p
      then (False, p\<lparr>lp_idle := lp_idle p @ [c], lp_permits := lp_permits p + 1\<rparr>)
      else (True, p\<lparr>lp_permits := lp_permits p + 1\<rparr>))"

definition pool_abandon :: "ldap_pool \<Rightarrow> ldap_pool" where
  "pool_abandon p = p\<lparr>lp_permits := lp_permits p + 1\<rparr>"

definition pool_close :: "ldap_pool \<Rightarrow> nat list \<times> ldap_pool" where
  "pool_close p = (lp_idle p, p\<lparr>lp_idle := [], lp_initialized := False\<rparr>)"

section \<open>What can happen to a pool\<close>

text \<open>The pool and the connections in use, after any number of operations of any number of tasks.\<close>

inductive pool_reachable :: "nat \<Rightarrow> ldap_pool \<Rightarrow> nat list \<Rightarrow> bool" for n where
  pool_new: "pool_reachable n (new_ldap_pool n) []"
| pool_init: "pool_reachable n p held \<Longrightarrow> initialize b p = (r, p') \<Longrightarrow> pool_reachable n p' held"
| pool_got: "pool_reachable n p held \<Longrightarrow> pool_acquire bound made p = Some (Inr c, p') \<Longrightarrow> pool_reachable n p' (c # held)"
| pool_failed: "pool_reachable n p held \<Longrightarrow> pool_acquire bound made p = Some (Inl e, p') \<Longrightarrow> pool_reachable n p' held"
| pool_back: "pool_reachable n p held \<Longrightarrow> c \<in> set held \<Longrightarrow> pool_return c p = (u, p') \<Longrightarrow> pool_reachable n p' (remove1 c held)"
| pool_lost: "pool_reachable n p held \<Longrightarrow> c \<in> set held \<Longrightarrow> pool_reachable n (pool_abandon p) (remove1 c held)"
| pool_closed: "pool_reachable n p held \<Longrightarrow> pool_close p = (cs, p') \<Longrightarrow> pool_reachable n p' held"

definition pool_ok :: "nat \<Rightarrow> ldap_pool \<Rightarrow> nat list \<Rightarrow> bool" where
  "pool_ok n p held \<longleftrightarrow> lp_size p = n \<and> lp_permits p + length held = n \<and> length (lp_idle p) + length held \<le> n"

lemma pool_acquire_ok:
  assumes "pool_acquire bound made p = Some (r, p')" "pool_ok n p held"
  shows "pool_ok n p' (case r of Inr c \<Rightarrow> c # held | Inl e \<Rightarrow> held)"
proof -
  have "lp_idle p \<noteq> [] \<Longrightarrow> length (butlast (lp_idle p)) + 1 = length (lp_idle p)" by (cases "lp_idle p") simp_all
  then show ?thesis
    using assms by (auto simp: pool_acquire_def pool_ok_def Let_def split: if_splits sum.splits)
qed

lemma pool_reachable_ok: "pool_reachable n p held \<Longrightarrow> pool_ok n p held"
proof (induction rule: pool_reachable.induct)
  case pool_new
  then show ?case by (simp add: pool_ok_def new_ldap_pool_def)
next
  case (pool_init p held b r p')
  then show ?case by (auto simp: initialize_def pool_ok_def split: if_splits)
next
  case (pool_got p held bound made c p')
  then show ?case using pool_acquire_ok by fastforce
next
  case (pool_failed p held bound made e p')
  then show ?case using pool_acquire_ok by fastforce
next
  case (pool_back p held c u p')
  obtain m where "length held = Suc m" using length_pos_if_in_set [OF pool_back(2)] by (cases held) auto
  then show ?case using pool_back(2-4) by (auto simp: pool_return_def pool_ok_def length_remove1 split: if_splits)
next
  case (pool_lost p held c)
  obtain m where "length held = Suc m" using length_pos_if_in_set [OF pool_lost(2)] by (cases held) auto
  then show ?case using pool_lost(2,3) by (auto simp: pool_abandon_def pool_ok_def length_remove1)
next
  case (pool_closed p held cs p')
  then show ?case by (auto simp: pool_close_def pool_ok_def)
qed

text \<open>
  C34. The pool is bounded: however tasks acquire, return and abandon connections and close the pool,
  the connections in use and the permits left are together as many as the pool is large, those in
  use and those kept are never more, and so a connection that is returned is never unbound for
  want of room. A task waits exactly when as many are in use.
\<close>

theorem ldap_pool_bounded:
  assumes "pool_reachable n p held"
  shows "lp_permits p + length held = n \<and> length (lp_idle p) + length held \<le> n
    \<and> (\<forall>c \<in> set held. \<not> fst (pool_return c p)) \<and> (pool_acquire bound made p = None \<longleftrightarrow> length held = n)"
proof -
  have o: "pool_ok n p held" using assms by (rule pool_reachable_ok)
  have r: "\<not> fst (pool_return c p)" if c: "c \<in> set held" for c
  proof -
    obtain m where "length held = Suc m" using length_pos_if_in_set [OF c] by (cases held) auto
    then show ?thesis using o by (auto simp: pool_ok_def pool_return_def)
  qed
  show ?thesis using o r by (auto simp: pool_ok_def pool_acquire_def Let_def split: prod.split)
qed

theorem ldap_pool_bounded_witness:
  "let p = snd (the (pool_acquire (\<lambda>_. True) (Inr 7) (new_ldap_pool 1)))
   in pool_reachable 1 p [7] \<and> lp_permits p = 0 \<and> pool_acquire (\<lambda>_. True) (Inr 8) p = None"
proof -
  let ?p = "snd (the (pool_acquire (\<lambda>_. True) (Inr 7) (new_ldap_pool 1)))"
  have "pool_reachable 1 ?p [7]"
    by (rule pool_got [OF pool_new, where bound = "\<lambda>_. True" and made = "Inr 7"]) (simp add: pool_acquire_def new_ldap_pool_def)
  then show ?thesis using ldap_pool_bounded [where bound = "\<lambda>_. True" and made = "Inr 8" and n = 1 and p = ?p and held = "[7]"] by simp
qed

section \<open>The client\<close>

text \<open>
  An entry: its name and its attributes with their values; \<^verbatim>\<open>attr_text\<close> is the text of several values.
  The search is a parameter that takes the filter, the attributes and the limit.
\<close>

record ldap_entry =
  le_dn :: string
  le_attrs :: "(string, string list) dict"

record ldap_user =
  lu_dn :: string
  lu_username :: string
  lu_display_name :: "string option"
  lu_email :: "string option"
  lu_groups :: "string list"
  lu_attributes :: "(string, string list) dict"

record ldap_client =
  lc_pool :: "ldap_pool option"
  lc_size :: nat

type_synonym ldap_search = "string \<Rightarrow> string list \<Rightarrow> nat option \<Rightarrow> ldap_entry list result"

definition new_ldap_client :: "nat \<Rightarrow> ldap_client" where
  "new_ldap_client n = \<lparr>lc_pool = None, lc_size = n\<rparr>"

definition ldap_connect :: "bool \<Rightarrow> ldap_client \<Rightarrow> unit result \<times> ldap_client" where
  "ldap_connect has_ldap3 c =
     (case initialize has_ldap3 (new_ldap_pool (lc_size c)) of (r, p) \<Rightarrow> (r, c\<lparr>lc_pool := Some p\<rparr>))"

definition ldap_disconnect :: "ldap_client \<Rightarrow> nat list \<times> ldap_client" where
  "ldap_disconnect c =
     (case lc_pool c of None \<Rightarrow> ([], c) | Some p \<Rightarrow> (fst (pool_close p), c\<lparr>lc_pool := None\<rparr>))"

definition present :: "string \<Rightarrow> ldap_entry \<Rightarrow> string list option" where
  "present a e = (case dget (le_attrs e) a of Some (v # vs) \<Rightarrow> Some (v # vs) | _ \<Rightarrow> None)"

definition attr_text :: "(string list \<Rightarrow> string) \<Rightarrow> string list \<Rightarrow> string" where
  "attr_text str vs = (case vs of [v] \<Rightarrow> v | _ \<Rightarrow> str vs)"

text \<open>What \<^verbatim>\<open>get_user\<close> and \<^verbatim>\<open>search_users\<close> extract; an empty display name gives way to the common name.\<close>

definition display_name :: "(string list \<Rightarrow> string) \<Rightarrow> ldap_entry \<Rightarrow> string option" where
  "display_name str e =
     (let d = map_option (attr_text str) (present ''displayName'' e) in
      case present ''cn'' e of
        None \<Rightarrow> d
      | Some vs \<Rightarrow> if truthy d then d else Some (attr_text str vs))"

definition entry_user :: "(string list \<Rightarrow> string) \<Rightarrow> string \<Rightarrow> string list \<Rightarrow> ldap_entry \<Rightarrow> ldap_user" where
  "entry_user str username attrs e =
     \<lparr>lu_dn = le_dn e, lu_username = username, lu_display_name = display_name str e,
      lu_email = map_option (attr_text str) (present ''mail'' e),
      lu_groups = (case present ''memberOf'' e of None \<Rightarrow> [] | Some gs \<Rightarrow> gs),
      lu_attributes = fold (\<lambda>a d. case present a e of None \<Rightarrow> d | Some vs \<Rightarrow> dset a vs d) attrs []\<rparr>"

text \<open>A search over a connection of the pool: the pool is as before if it ends well.\<close>

definition with_connection ::
  "(nat \<Rightarrow> bool) \<Rightarrow> nat result \<Rightarrow> (nat \<Rightarrow> 'a result) \<Rightarrow> ldap_pool \<Rightarrow> ('a result \<times> ldap_pool) option" where
  "with_connection bound made body p =
     (case pool_acquire bound made p of
        None \<Rightarrow> None
      | Some (Inl e, p') \<Rightarrow> Some (Inl e, p')
      | Some (Inr c, p') \<Rightarrow>
          Some (case body c of
                  Inl e \<Rightarrow> (Inl e, pool_abandon p')
                | Inr x \<Rightarrow> (Inr x, snd (pool_return c p'))))"

definition get_user ::
  "(string list \<Rightarrow> string) \<Rightarrow> ldap_search \<Rightarrow> (nat \<Rightarrow> bool) \<Rightarrow> nat result \<Rightarrow> string \<Rightarrow> string \<Rightarrow> string list option \<Rightarrow>
   ldap_client \<Rightarrow> (ldap_user option result \<times> ldap_client) option" where
  "get_user str search bound made username filt attributes c =
     (case lc_pool c of
        None \<Rightarrow> Some (Inl RuntimeError, c)
      | Some p \<Rightarrow>
          (case format_field ''username'' username filt of
             None \<Rightarrow> Some (Inl ValueError, c)
           | Some f \<Rightarrow>
               (let attrs = (case attributes of Some (a # as) \<Rightarrow> a # as
                             | _ \<Rightarrow> [''cn'', ''mail'', ''memberOf'', ''displayName''])
                in map_option (\<lambda>(r, p'). (r, c\<lparr>lc_pool := Some p'\<rparr>))
                     (with_connection bound made (\<lambda>_.
                        map_sum id (\<lambda>es. case es of [] \<Rightarrow> None | e # _ \<Rightarrow> Some (entry_user str username attrs e))
                          (search f attrs None)) p))))"

definition get_user_groups ::
  "(string list \<Rightarrow> string) \<Rightarrow> ldap_search \<Rightarrow> (nat \<Rightarrow> bool) \<Rightarrow> nat result \<Rightarrow> string \<Rightarrow> string \<Rightarrow>
   ldap_client \<Rightarrow> (string list result \<times> ldap_client) option" where
  "get_user_groups str search bound made username attr c =
     map_option (apfst (map_sum id (\<lambda>u. case u of None \<Rightarrow> [] | Some u \<Rightarrow> lu_groups u)))
       (get_user str search bound made username ''(uid={username})'' (Some [attr]) c)"

definition is_member_of ::
  "(string list \<Rightarrow> string) \<Rightarrow> ldap_search \<Rightarrow> (nat \<Rightarrow> bool) \<Rightarrow> nat result \<Rightarrow> string \<Rightarrow> string \<Rightarrow>
   ldap_client \<Rightarrow> (bool result \<times> ldap_client) option" where
  "is_member_of str search bound made username group_dn c =
     map_option (apfst (map_sum id (\<lambda>gs. list_ex (\<lambda>g. contains (lower g) (lower group_dn)) gs)))
       (get_user_groups str search bound made username ''memberOf'' c)"

definition search_users ::
  "(string list \<Rightarrow> string) \<Rightarrow> ldap_search \<Rightarrow> (nat \<Rightarrow> bool) \<Rightarrow> nat result \<Rightarrow> string \<Rightarrow> string list option \<Rightarrow> nat \<Rightarrow>
   ldap_client \<Rightarrow> (ldap_user list result \<times> ldap_client) option" where
  "search_users str search bound made filt attributes limit c =
     (case lc_pool c of
        None \<Rightarrow> Some (Inl RuntimeError, c)
      | Some p \<Rightarrow>
          (let attrs = (case attributes of Some (a # as) \<Rightarrow> a # as
                        | _ \<Rightarrow> [''uid'', ''cn'', ''mail'', ''memberOf'', ''displayName''])
           in map_option (\<lambda>(r, p'). (r, c\<lparr>lc_pool := Some p'\<rparr>))
                (with_connection bound made (\<lambda>_.
                   map_sum id (\<lambda>es.
                       List.map_filter (\<lambda>e.
                         case map_option (attr_text str) (present ''uid'' e) of
                           None \<Rightarrow> None
                         | Some u \<Rightarrow> if u = [] then None else Some ((entry_user str u [] e)\<lparr>lu_attributes := []\<rparr>))
                         (take limit es))
                     (search filt attrs (Some limit))) p)))"

definition health_check :: "(nat \<Rightarrow> bool) \<Rightarrow> nat result \<Rightarrow> ldap_client \<Rightarrow> (bool \<times> ldap_client) option" where
  "health_check bound made c =
     (case lc_pool c of
        None \<Rightarrow> Some (False, c)
      | Some p \<Rightarrow>
          map_option (\<lambda>(r, p'). (case r of Inl e \<Rightarrow> False | Inr b \<Rightarrow> b, c\<lparr>lc_pool := Some p'\<rparr>))
            (with_connection bound made (\<lambda>x. Inr (bound x)) p))"

definition create_ldap_client :: "bool \<Rightarrow> unit result \<times> ldap_client" where
  "create_ldap_client has_ldap3 = ldap_connect has_ldap3 (new_ldap_client 5)"

lemma get_user_groups_first:
  assumes "lc_pool c = Some p" "pool_acquire bound made p = Some (Inr k, p')"
    and "search (''(uid='' @ username @ '')'') [''memberOf''] None = Inr (e # es)"
  shows "\<exists>c'. get_user_groups str search bound made username ''memberOf'' c =
    Some (Inr (case present ''memberOf'' e of None \<Rightarrow> [] | Some gs \<Rightarrow> gs), c')"
proof -
  have "format_field ''username'' username ''(uid={username})'' = Some (''(uid='' @ username @ '')'')"
    by (simp add: startswith_iff)
  then show ?thesis
    using assms by (simp add: get_user_groups_def get_user_def with_connection_def entry_user_def)
qed

text \<open>
  Membership is a matter of text: for every user that the directory has, \<^verbatim>\<open>is_member_of\<close> says yes exactly
  if the name of the group, in lower case, is a part of the name of one of the user's groups. A
  member of a group is a member of every part of its name, and the empty name is every group.
\<close>

theorem ldap_membership_by_substring:
  assumes "lc_pool c = Some p" "pool_acquire bound made p = Some (Inr k, p')"
    and "search (''(uid='' @ username @ '')'') [''memberOf''] None = Inr (e # es)"
  shows "\<exists>b c'. is_member_of str search bound made username g c = Some (Inr b, c')
    \<and> (b \<longleftrightarrow> (\<exists>gs h u v. present ''memberOf'' e = Some gs \<and> h \<in> set gs \<and> lower h = u @ lower g @ v))"
proof -
  obtain c' where "get_user_groups str search bound made username ''memberOf'' c =
      Some (Inr (case present ''memberOf'' e of None \<Rightarrow> [] | Some gs \<Rightarrow> gs), c')"
    using get_user_groups_first assms by blast
  then show ?thesis
    by (cases "present ''memberOf'' e") (auto simp: is_member_of_def list_ex_iff contains_iff)
qed

theorem ldap_membership_by_substring_witness:
  "let search = (\<lambda>f as l. Inr [\<lparr>le_dn = ''uid=eve'', le_attrs = [(''memberOf'', [''cn=not-admins,dc=x''])]\<rparr>]);
       c = snd (create_ldap_client True)
   in map_option fst (is_member_of concat search (\<lambda>_. True) (Inr 1) ''eve'' ''admins'' c) = Some (Inr True)"
proof -
  let ?e = "\<lparr>le_dn = ''uid=eve'', le_attrs = [(''memberOf'', [''cn=not-admins,dc=x''])]\<rparr>"
  let ?c = "snd (create_ldap_client True)"
  have p: "lc_pool ?c = Some ((new_ldap_pool 5)\<lparr>lp_initialized := True\<rparr>)" (is "_ = Some ?p")
    by (simp add: create_ldap_client_def ldap_connect_def new_ldap_client_def initialize_def new_ldap_pool_def)
  have a: "pool_acquire (\<lambda>_. True) (Inr 1) ?p = Some (Inr 1, ?p\<lparr>lp_permits := 4\<rparr>)"
    by (simp add: pool_acquire_def new_ldap_pool_def)
  have m: "lower ''cn=not-admins,dc=x'' = ''cn=not-'' @ lower ''admins'' @ '',dc=x''" by code_simp
  obtain b c' where b: "is_member_of concat (\<lambda>f as l. Inr [?e]) (\<lambda>_. True) (Inr 1) ''eve'' ''admins'' ?c = Some (Inr b, c')"
    "b \<longleftrightarrow> (\<exists>gs h u v. present ''memberOf'' ?e = Some gs \<and> h \<in> set gs \<and> lower h = u @ lower ''admins'' @ v)"
    using ldap_membership_by_substring [OF p a, of "\<lambda>f as l. Inr [?e]" "''eve''" ?e "[]" concat "''admins''"] by auto
  have "present ''memberOf'' ?e = Some [''cn=not-admins,dc=x'']" by (simp add: present_def)
  then have b using b(2) m by (metis list.set_intros(1))
  then show ?thesis using b(1) by (simp add: Let_def)
qed

end
