(* ===== verification/Port_Scan.thy ===== *)
theory Port_Scan
  imports Typed_Frames
begin

text \<open>
  \<^verbatim>\<open>src/wh/cli/nmap.py\<close>: port scans from the network of the peer. What connecting to a port gives is a
  parameter; a latency is the four bytes that \<^verbatim>\<open>struct\<close> packs for it.
\<close>

section \<open>Port specifications\<close>

definition common_ports :: "int list" where
  "common_ports =
     [21, 22, 23, 25, 53, 80, 110, 111, 135, 139, 143, 443, 445, 993, 995,
      1723, 3306, 3389, 5432, 5900, 6379, 8080, 8443, 27017]"

definition valid_port :: "int \<Rightarrow> bool" where
  "valid_port p \<longleftrightarrow> 1 \<le> p \<and> p \<le> 65535"

text \<open>The ports of one part; what is no number is passed over.\<close>

definition part_ports :: "string \<Rightarrow> int list" where
  "part_ports part =
     (if CHR ''-'' \<in> set part then
        (case (py_int (strip (fst (split1 (CHR ''-'') part))), py_int (strip (snd (split1 (CHR ''-'') part)))) of
           (Some a, Some b) \<Rightarrow> filter valid_port [a..min (b + 1) 65536 - 1]
         | _ \<Rightarrow> [])
      else (case py_int part of Some p \<Rightarrow> filter valid_port [p] | None \<Rightarrow> []))"

definition parse_ports :: "string \<Rightarrow> int list" where
  "parse_ports spec =
     (if lower spec = ''common'' then common_ports
      else sort (remdups (concat (map (\<lambda>p. part_ports (strip p)) (split_on (CHR '','') spec)))))"

lemma part_ports_valid: "p \<in> set (part_ports s) \<Longrightarrow> valid_port p"
  by (auto simp: part_ports_def split: if_splits option.splits)

text \<open>A part denotes a port: a range with two numbers as its ends, or the number itself.\<close>

definition denotes_port :: "string \<Rightarrow> int \<Rightarrow> bool" where
  "denotes_port part p \<longleftrightarrow>
     (if CHR ''-'' \<in> set part
      then (\<exists>a b. py_int (strip (fst (split1 (CHR ''-'') part))) = Some a \<and>
              py_int (strip (snd (split1 (CHR ''-'') part))) = Some b \<and> a \<le> p \<and> p \<le> b)
      else py_int part = Some p)"

lemma part_ports_denotes: "p \<in> set (part_ports part) \<longleftrightarrow> valid_port p \<and> denotes_port part p"
  by (cases "py_int (strip (fst (split1 (CHR ''-'') part)))"; cases "py_int (strip (snd (split1 (CHR ''-'') part)))")
    (auto simp: part_ports_def denotes_port_def valid_port_def split: option.splits)

text \<open>
  C38. A port specification gives ports between 1 and 65535, in ascending order and each once, and
  these are exactly the valid ports that its parts denote (the word common stands for a fixed list);
  every specification gives some list.
\<close>

theorem parse_ports_in_bounds:
  "sorted (parse_ports spec) \<and> distinct (parse_ports spec) \<and> (\<forall>p \<in> set (parse_ports spec). 1 \<le> p \<and> p \<le> 65535)
   \<and> (lower spec \<noteq> ''common'' \<longrightarrow>
        set (parse_ports spec) = {p. valid_port p \<and> (\<exists>s \<in> set (split_on (CHR '','') spec). denotes_port (strip s) p)})"
proof (cases "lower spec = ''common''")
  case True
  then show ?thesis by (simp add: parse_ports_def common_ports_def)
next
  case False
  then show ?thesis by (auto simp: parse_ports_def part_ports_denotes valid_port_def)
qed

theorem parse_ports_in_bounds_witness:
  "parse_ports ''80, 22-24,80,x,70000'' = [22, 23, 24, 80]
   \<and> {22, 23, 24, 80} = {p. valid_port p \<and> (\<exists>s \<in> set (split_on (CHR '','') ''80, 22-24,80,x,70000''). denotes_port (strip s) p)}"
proof -
  have p: "parse_ports ''80, 22-24,80,x,70000'' = [22, 23, 24, 80]" by code_simp
  have c: "lower ''80, 22-24,80,x,70000'' \<noteq> ''common''" by code_simp
  have "set (parse_ports ''80, 22-24,80,x,70000'')
      = {p. valid_port p \<and> (\<exists>s \<in> set (split_on (CHR '','') ''80, 22-24,80,x,70000''). denotes_port (strip s) p)}"
    using parse_ports_in_bounds [of "''80, 22-24,80,x,70000''"] c by blast
  then show ?thesis using p by simp
qed

section \<open>One side\<close>

definition scan_request_msg :: nat where "scan_request_msg = 1"
definition scan_result_msg :: nat where "scan_result_msg = 2"
definition scan_complete_msg :: nat where "scan_complete_msg = 3"

lemmas scan_types = scan_request_msg_def scan_result_msg_def scan_complete_msg_def

definition service_names :: "(nat \<times> string) list" where
  "service_names =
     [(21, ''ftp''), (22, ''ssh''), (23, ''telnet''), (25, ''smtp''), (53, ''dns''), (80, ''http''), (110, ''pop3''),
      (111, ''rpcbind''), (135, ''msrpc''), (139, ''netbios-ssn''), (143, ''imap''), (443, ''https''),
      (445, ''microsoft-ds''), (993, ''imaps''), (995, ''pop3s''), (1723, ''pptp''), (3306, ''mysql''),
      (3389, ''ms-wbt-server''), (5432, ''postgresql''), (5900, ''vnc''), (6379, ''redis''), (8080, ''http-proxy''),
      (8443, ''https-alt''), (27017, ''mongodb'')]"

definition service_name :: "nat \<Rightarrow> string" where
  "service_name p = (case map_of service_names p of None \<Rightarrow> [] | Some s \<Rightarrow> s)"

record port_result =
  pr_state :: string
  pr_service :: string
  pr_latency :: bytes

record scanner =
  sc_linked :: bool
  sc_sent :: bytes
  sc_tasks :: "bytes list"
  sc_results :: "(nat, port_result) dict"
  sc_complete :: bool
  sc_done :: bool

definition new_scanner :: scanner where
  "new_scanner =
     \<lparr>sc_linked = False, sc_sent = [], sc_tasks = [], sc_results = [], sc_complete = False, sc_done = False\<rparr>"

text \<open>\<^verbatim>\<open>on_connected\<close> of \<^verbatim>\<open>run_server\<close> does not store the connection, \<^verbatim>\<open>callback\<close> of \<^verbatim>\<open>run_client\<close> does.\<close>

definition scan_server_connected :: "scanner \<Rightarrow> scanner" where
  "scan_server_connected s = s"

definition scan_client_connected :: "scanner \<Rightarrow> scanner" where
  "scan_client_connected s = s\<lparr>sc_linked := True\<rparr>"

definition scan_send :: "nat \<Rightarrow> bytes \<Rightarrow> scanner \<Rightarrow> unit result \<times> scanner" where
  "scan_send t d s =
     (case type_send (sc_linked s) t d (sc_sent s) of
        Inl e \<Rightarrow> (Inl e, s)
      | Inr b \<Rightarrow> (Inr (), s\<lparr>sc_sent := b\<rparr>))"

text \<open>What connecting gives: open after a time, refused, or neither.\<close>

datatype probe = Reached bytes | Refused | NoAnswer

definition scan_port :: "(string \<Rightarrow> nat \<Rightarrow> probe) \<Rightarrow> string \<Rightarrow> nat \<Rightarrow> port_result" where
  "scan_port connect host p =
     (case connect host p of
        Reached l \<Rightarrow> \<lparr>pr_state = ''open'', pr_service = service_name p, pr_latency = l\<rparr>
      | Refused \<Rightarrow> \<lparr>pr_state = ''closed'', pr_service = [], pr_latency = [0, 0, 0, 0]\<rparr>
      | NoAnswer \<Rightarrow> \<lparr>pr_state = ''filtered'', pr_service = [], pr_latency = [0, 0, 0, 0]\<rparr>)"

definition state_byte :: "string \<Rightarrow> nat" where
  "state_byte s = (if s = ''open'' then 1 else if s = ''closed'' then 2 else if s = ''filtered'' then 3 else 0)"

definition byte_state :: "nat \<Rightarrow> string" where
  "byte_state n = (if n = 1 then ''open'' else if n = 2 then ''closed'' else if n = 3 then ''filtered'' else ''unknown'')"

definition result_data :: "nat \<Rightarrow> port_result \<Rightarrow> bytes" where
  "result_data p r =
     pack_be 2 p @ pack_be 1 (state_byte (pr_state r)) @ pack_be 1 (length (encode_utf8 (pr_service r))) @ pr_latency r
       @ encode_utf8 (pr_service r)"

text \<open>The list of ports stops where the payload does.\<close>

fun read_ports :: "nat \<Rightarrow> bytes \<Rightarrow> nat list" where
  "read_ports 0 b = []"
| "read_ports (Suc k) b = (if length b < 2 then [] else unpack_be (take 2 b) # read_ports k (drop 2 b))"

definition scan_request :: "bytes \<Rightarrow> (string \<times> nat list) option" where
  "scan_request b =
     (if length b < 1 then None
      else
        (let n = unat (hd b) in
         if length b < 1 + n + 4 then None
         else
           map_option (\<lambda>host. (host, read_ports (unpack_be (take 4 (drop (1 + n) b))) (drop (5 + n) b)))
             (decode_utf8 (take n (drop 1 b)))))"

fun send_results :: "(nat \<times> port_result) list \<Rightarrow> scanner \<Rightarrow> unit result \<times> scanner" where
  "send_results [] s = scan_send scan_complete_msg [] s"
| "send_results ((p, r) # rs) s =
     (case scan_send scan_result_msg (result_data p r) s of
        (Inl e, s') \<Rightarrow> (Inl e, s')
      | (Inr _, s') \<Rightarrow> send_results rs s')"

definition handle_scan_request :: "(string \<Rightarrow> nat \<Rightarrow> probe) \<Rightarrow> bytes \<Rightarrow> scanner \<Rightarrow> scanner" where
  "handle_scan_request connect b s =
     (case scan_request b of
        None \<Rightarrow> s
      | Some (host, ports) \<Rightarrow> snd (send_results (map (\<lambda>p. (p, scan_port connect host p)) ports) s))"

text \<open>A payload of six or seven bytes passes the check and raises.\<close>

definition handle_scan_result :: "bytes \<Rightarrow> scanner \<Rightarrow> exn option \<times> scanner" where
  "handle_scan_result b s =
     (if length b < 6 then (None, s)
      else if length b < 8 then (Some StructError, s)
      else
        (let n = unpack_be (take 1 (drop 3 b)) in
         case (if n = 0 then Some [] else decode_utf8 (take n (drop 8 b))) of
           None \<Rightarrow> (Some ValueError, s)
         | Some service \<Rightarrow>
             (None, s\<lparr>sc_results := dset (unpack_be (take 2 b))
                \<lparr>pr_state = byte_state (unpack_be (take 1 (drop 2 b))), pr_service = service, pr_latency = take 4 (drop 4 b)\<rparr>
                (sc_results s)\<rparr>)))"

definition handle_scan :: "nat \<times> bytes \<Rightarrow> scanner \<Rightarrow> bool \<times> scanner" where
  "handle_scan m s =
     (if fst m = scan_request_msg then (True, s\<lparr>sc_tasks := sc_tasks s @ [snd m]\<rparr>)
      else if fst m = scan_result_msg then (case handle_scan_result (snd m) s of (e, s') \<Rightarrow> (e = None, s'))
      else if fst m = scan_complete_msg then (True, s\<lparr>sc_complete := True\<rparr>)
      else (True, s))"

definition scan_on_data :: "bytes \<Rightarrow> bytes \<times> scanner \<Rightarrow> bytes \<times> scanner" where
  "scan_on_data = feed type_header (\<lambda>f. handle_scan (type_message f))"

definition run_scan_task :: "(string \<Rightarrow> nat \<Rightarrow> probe) \<Rightarrow> scanner \<Rightarrow> scanner" where
  "run_scan_task connect s =
     (case sc_tasks s of
        [] \<Rightarrow> s
      | b # bs \<Rightarrow> handle_scan_request connect b (s\<lparr>sc_tasks := bs\<rparr>))"

definition scan_lost :: "scanner \<Rightarrow> scanner" where
  "scan_lost s = s\<lparr>sc_done := True, sc_complete := True\<rparr>"

text \<open>\<^verbatim>\<open>scan\<close> up to its wait; it returns the results once the scan is complete or 300 seconds have passed.\<close>

definition scan_payload :: "string \<Rightarrow> int list \<Rightarrow> bytes result" where
  "scan_payload host ports =
     (let hb = encode_utf8 host in
      if 256 \<le> length hb then Inl ValueError
      else
        (case pack_fields [(4, length ports)] of
           Inl e \<Rightarrow> Inl e
         | Inr n \<Rightarrow>
             (if list_ex (\<lambda>p. p < 0 \<or> 65536 \<le> p) ports then Inl StructError
              else Inr (word_of_nat (length hb) # hb @ n @ concat (map (\<lambda>p. pack_be 2 (nat p)) ports)))))"

definition start_scan :: "string \<Rightarrow> int list \<Rightarrow> scanner \<Rightarrow> unit result \<times> scanner" where
  "start_scan host ports s =
     (let s1 = s\<lparr>sc_results := [], sc_complete := False\<rparr> in
      case scan_payload host ports of
        Inl e \<Rightarrow> (Inl e, s1)
      | Inr b \<Rightarrow> scan_send scan_request_msg b s1)"


section \<open>A scan and its results\<close>

lemma read_ports_pack:
  "\<forall>p \<in> set ps. p < 256 ^ 2 \<Longrightarrow> read_ports (length ps) (concat (map (pack_be 2) ps)) = ps"
  by (induction ps) simp_all

lemma scanned_request:
  assumes "scan_payload host ports = Inr b"
  shows "scan_request b = Some (host, map nat ports)"
proof -
  let ?hb = "encode_utf8 host"
  have b: "length ?hb < 256" "length ports < 256 ^ 4" "\<forall>p \<in> set ports. 0 \<le> p \<and> p < 65536"
      "b = word_of_nat (length ?hb) # ?hb @ pack_be 4 (length ports) @ concat (map (\<lambda>p. pack_be 2 (nat p)) ports)"
    using assms by (auto simp: scan_payload_def Let_def list_ex_iff split: if_splits)
  have u: "unat (word_of_nat (length ?hb) :: byte) = length ?hb" using b(1) by (simp add: unat_of_nat)
  have r: "read_ports (length ports) (concat (map (\<lambda>p. pack_be 2 (nat p)) ports)) = map nat ports"
  proof -
    have "\<forall>p \<in> set (map nat ports). p < 256 ^ 2" using b(3) by auto
    from read_ports_pack [OF this] show ?thesis by (simp add: comp_def)
  qed
  have d: "drop (5 + length ?hb) (x # ?hb @ pack_be 4 n @ y) = y" for x n y by (simp add: eval_nat_numeral)
  show ?thesis unfolding b(4) scan_request_def using b(2) u r d by simp
qed

lemma length_encode_utf8: "length (encode_utf8 s) \<le> 2 * length s"
  by (induction s) (auto simp: encode_utf8_def utf8_char_def)

lemma service_name_short: "length (encode_utf8 (service_name p)) < 256"
proof -
  have "\<forall>s \<in> set ([] # map snd service_names). length s < 128" by (simp add: service_names_def)
  then have "length (encode_utf8 s) < 256" if "s \<in> set ([] # map snd service_names)" for s
    using that length_encode_utf8 [of s] by fastforce
  moreover have "service_name p \<in> set ([] # map snd service_names)"
    by (auto simp: service_name_def image_iff split: option.split dest: map_of_SomeD) (metis map_of_SomeD snd_conv)
  ultimately show ?thesis by blast
qed

lemma scan_port_fields:
  assumes "\<And>l. connect host p = Reached l \<Longrightarrow> length l = 4"
  shows "length (pr_latency (scan_port connect host p)) = 4 \<and> length (encode_utf8 (pr_service (scan_port connect host p))) < 256
    \<and> byte_state (state_byte (pr_state (scan_port connect host p))) = pr_state (scan_port connect host p)
    \<and> state_byte (pr_state (scan_port connect host p)) < 256"
  using assms service_name_short
  by (cases "connect host p") (simp_all add: scan_port_def state_byte_def byte_state_def encode_utf8_def)

lemma handle_result_data:
  assumes "\<And>l. connect host p = Reached l \<Longrightarrow> length l = 4" "p < 256 ^ 2"
  shows "handle_scan_result (result_data p (scan_port connect host p)) s =
    (None, s\<lparr>sc_results := dset p (scan_port connect host p) (sc_results s)\<rparr>)"
proof -
  let ?r = "scan_port connect host p"
  note f = scan_port_fields [of connect host p, OF assms(1)]
  have b: "take 2 (result_data p ?r) = pack_be 2 p" "take 1 (drop 2 (result_data p ?r)) = pack_be 1 (state_byte (pr_state ?r))"
    "take 1 (drop 3 (result_data p ?r)) = pack_be 1 (length (encode_utf8 (pr_service ?r)))"
    "take 4 (drop 4 (result_data p ?r)) = pr_latency ?r" "drop 8 (result_data p ?r) = encode_utf8 (pr_service ?r)"
    "8 \<le> length (result_data p ?r)"
    using f by (simp_all add: result_data_def)
  have u: "unpack_be (pack_be 1 (length (encode_utf8 (pr_service ?r)))) = length (encode_utf8 (pr_service ?r))"
    "unpack_be (pack_be 1 (state_byte (pr_state ?r))) = state_byte (pr_state ?r)" "unpack_be (pack_be 2 p) = p"
    using f assms(2) by (simp_all add: unpack_pack_be)
  have e: "(if length (encode_utf8 (pr_service ?r)) = 0 then Some []
      else decode_utf8 (take (length (encode_utf8 (pr_service ?r))) (encode_utf8 (pr_service ?r)))) = Some (pr_service ?r)"
    by (metis decode_encode_utf8 decode_utf8.simps(1) length_0_conv take_all_iff order_refl)
  have eta: "\<lparr>pr_state = pr_state ?r, pr_service = pr_service ?r, pr_latency = pr_latency ?r\<rparr> = ?r" by (cases ?r) simp
  show ?thesis
    unfolding handle_scan_result_def Let_def b u e option.case using b(6) f by (simp only: eta) simp
qed

lemma send_results_frames:
  assumes "sc_linked s" "\<And>p l. connect host p = Reached l \<Longrightarrow> length l = 4"
  shows "\<exists>bss. list_all2 (\<lambda>m bs. type_frame m = Inr bs)
      (map (\<lambda>p. (scan_result_msg, result_data p (scan_port connect host p))) ps @ [(scan_complete_msg, [])]) bss
    \<and> send_results (map (\<lambda>p. (p, scan_port connect host p)) ps) s = (Inr (), s\<lparr>sc_sent := sc_sent s @ concat bss\<rparr>)"
  using assms(1)
proof (induction ps arbitrary: s)
  case Nil
  then show ?case
    by (intro exI [of _ "[put_frame (pack_be 1 3) []]"])
      (simp add: scan_send_def type_send_def type_frame_Inr scan_types type_frame_def fields_frame_def put_frame_def)
next
  case (Cons p ps)
  let ?d = "result_data p (scan_port connect host p)"
  have "length ?d < 256 ^ 4"
  proof -
    have "length (pr_latency (scan_port connect host p)) = 4" "length (encode_utf8 (pr_service (scan_port connect host p))) < 256"
      using scan_port_fields [of connect host p] assms(2) by blast+
    then show ?thesis by (simp add: result_data_def)
  qed
  then obtain bs where b: "type_frame (scan_result_msg, ?d) = Inr bs"
    using type_frame_Inr [of "(scan_result_msg, ?d)"] by (auto simp: scan_types)
  then have s: "scan_send scan_result_msg ?d s = (Inr (), s\<lparr>sc_sent := sc_sent s @ bs\<rparr>)"
    using Cons.prems by (simp add: scan_send_def type_send_def)
  obtain bss where "list_all2 (\<lambda>m bs. type_frame m = Inr bs)
      (map (\<lambda>p. (scan_result_msg, result_data p (scan_port connect host p))) ps @ [(scan_complete_msg, [])]) bss"
    "send_results (map (\<lambda>p. (p, scan_port connect host p)) ps) (s\<lparr>sc_sent := sc_sent s @ bs\<rparr>) =
      (Inr (), s\<lparr>sc_sent := sc_sent s @ bs @ concat bss\<rparr>)"
    using Cons.IH [of "s\<lparr>sc_sent := sc_sent s @ bs\<rparr>"] Cons.prems by auto
  then show ?case using b s by (intro exI [of _ "bs # bss"]) simp
qed

lemma results_collected:
  assumes "\<And>p l. connect host p = Reached l \<Longrightarrow> length l = 4" "\<forall>p \<in> set ps. p < 256 ^ 2"
  shows "fold (\<lambda>m s. snd (handle_scan m s)) (map (\<lambda>p. (scan_result_msg, result_data p (scan_port connect host p))) ps) s =
    s\<lparr>sc_results := fold (\<lambda>p. dset p (scan_port connect host p)) ps (sc_results s)\<rparr>"
  using assms(2)
  by (induction ps arbitrary: s) (simp_all add: handle_scan_def scan_types handle_result_data [OF assms(1)])

lemma dget_fold_dset: "dget (fold (\<lambda>p. dset p (f p)) ps d) k = (if k \<in> set ps then Some (f k) else dget d k)"
  by (induction ps arbitrary: d) auto

text \<open>
  A scan: if the server kept its connection as the client does (it does not), the client would get, in whatever pieces the
  request and the results arrive, for every port that it asked for the state, service and latency
  that the other side found, for no other port anything, and then the end of the scan.
\<close>

theorem scan_roundtrip:
  assumes "start_scan host ports c = (Inr (), c1)" "sc_linked c" "sc_sent c1 = sc_sent c @ concat cs"
    and "\<And>p l. connect host p = Reached l \<Longrightarrow> length l = 4"
    and "sc_linked s" "sc_tasks s = []" "run_scan_task connect (snd (fold scan_on_data cs ([], s))) = s1"
    and "sc_sent s1 = sc_sent s @ concat ds"
  shows "\<exists>c2. fold scan_on_data ds ([], c1) = ([], c2) \<and> sc_complete c2
    \<and> (\<forall>p. dget (sc_results c2) p = (if int p \<in> set ports then Some (scan_port connect host p) else None))"
proof -
  obtain b where b: "scan_payload host ports = Inr b" "scan_send scan_request_msg b (c\<lparr>sc_results := [], sc_complete := False\<rparr>) = (Inr (), c1)"
    using assms(1) by (auto simp: start_scan_def Let_def split: sum.splits)
  then obtain bs where f: "type_frame (scan_request_msg, b) = Inr bs"
      "c1 = c\<lparr>sc_results := [], sc_complete := False, sc_sent := sc_sent c @ bs\<rparr>"
    using assms(2) by (auto simp: scan_send_def type_send_def split: sum.splits)
  have srv: "fold scan_on_data cs ([], s) = ([], s\<lparr>sc_tasks := [b]\<rparr>)"
    using typed.messages_handled [of "[(scan_request_msg, b)]" "[bs]" cs handle_scan s] f assms(3,6)
    by (simp add: scan_on_data_def handle_scan_def)
  have v: "\<forall>p \<in> set ports. 0 \<le> p \<and> p < 65536" using b(1) by (auto simp: scan_payload_def Let_def list_ex_iff split: if_splits)
  let ?ps = "map nat ports"
  let ?ms = "map (\<lambda>p. (scan_result_msg, result_data p (scan_port connect host p))) ?ps @ [(scan_complete_msg, [])]"
  obtain bss where r: "list_all2 (\<lambda>m bs. type_frame m = Inr bs) ?ms bss" "sc_sent s1 = sc_sent s @ concat bss"
    using send_results_frames [of "s\<lparr>sc_tasks := []\<rparr>" connect host ?ps] assms(4,5,7) srv scanned_request [OF b(1)]
    by (auto simp: run_scan_task_def handle_scan_request_def)
  have v': "\<forall>p \<in> set ?ps. p < 256 ^ 2" using v by auto
  have ok: "fst (handle_scan m u)" if m: "m \<in> set ?ms" for m u
  proof -
    obtain p where "m = (scan_complete_msg, []) \<or> p \<in> set ?ps \<and> m = (scan_result_msg, result_data p (scan_port connect host p))"
      using m by auto
    then show ?thesis using v' handle_result_data [of connect host _ u, OF assms(4)] by (auto simp: handle_scan_def scan_types)
  qed
  have "fold scan_on_data ds ([], c1) = ([], fold (\<lambda>m s. snd (handle_scan m s)) ?ms c1)"
    unfolding scan_on_data_def by (rule typed.messages_handled [OF r(1)]) (use ok assms(8) r(2) in auto)
  also have "\<dots> = ([], c1\<lparr>sc_results := fold (\<lambda>p. dset p (scan_port connect host p)) ?ps [], sc_complete := True\<rparr>)"
    using results_collected [of connect host ?ps c1, OF assms(4) v'] f(2) by (simp add: handle_scan_def scan_types)
  finally show ?thesis
    using v by (auto simp: dget_fold_dset image_iff)
qed


theorem scan_roundtrip_witness:
  "let connect = (\<lambda>h p. if p = 80 then Reached [1, 2, 3, 4] else Refused); c = scan_client_connected new_scanner;
       c1 = snd (start_scan ''h'' [80, 81] c); s1 = run_scan_task connect (snd (scan_on_data (sc_sent c1) ([], c)));
       c2 = snd (scan_on_data (sc_sent s1) ([], c1))
   in sc_complete c2 \<and> map_option pr_state (dget (sc_results c2) 80) = Some ''open''
    \<and> map_option pr_state (dget (sc_results c2) 81) = Some ''closed'' \<and> dget (sc_results c2) 82 = None"
proof -
  let ?connect = "\<lambda>h p. if p = 80 then Reached [1, 2, 3, 4] else Refused" and ?c = "scan_client_connected new_scanner"
  let ?c1 = "snd (start_scan ''h'' [80, 81] ?c)"
  let ?s1 = "run_scan_task ?connect (snd (fold scan_on_data [sc_sent ?c1] ([], ?c)))"
  have "encode_utf8 ''h'' = [104]" by code_simp
  then have "fst (start_scan ''h'' [80, 81] ?c) = Inr ()"
    by (simp add: start_scan_def scan_payload_def scan_send_def type_send_def type_frame_def fields_frame_def
      scan_types scan_client_connected_def)
  then have e: "start_scan ''h'' [80, 81] ?c = (Inr (), ?c1)" by (simp add: prod_eq_iff)
  have c: "sc_linked ?c" "sc_sent ?c1 = sc_sent ?c @ concat [sc_sent ?c1]" "sc_tasks ?c = []" "sc_sent ?s1 = sc_sent ?c @ concat [sc_sent ?s1]"
    by (simp_all add: scan_client_connected_def new_scanner_def)
  have l: "\<And>p l. ?connect ''h'' p = Reached l \<Longrightarrow> length l = 4" by (auto split: if_splits)
  have "\<exists>c2. fold scan_on_data [sc_sent ?s1] ([], ?c1) = ([], c2) \<and> sc_complete c2
      \<and> (\<forall>p. dget (sc_results c2) p = (if int p \<in> set [80, 81] then Some (scan_port ?connect ''h'' p) else None))"
    by (rule scan_roundtrip [OF e c(1,2) l c(1,3) refl c(4)])
  then obtain c2 where "scan_on_data (sc_sent ?s1) ([], ?c1) = ([], c2)" "sc_complete c2"
      "\<And>p. dget (sc_results c2) p = (if int p \<in> set [80, 81] then Some (scan_port ?connect ''h'' p) else None)"
    by (elim exE conjE) simp
  then show ?thesis by (simp add: Let_def scan_port_def)
qed

end
