(* ===== verification/Ping.thy ===== *)
theory Ping
  imports Complex_Main Chunked
begin

text \<open>
  \<^verbatim>\<open>src/wh/cli/ping.py\<close>: round trips over the wormhole. Times are whole milliseconds; the timestamp in a
  packet, which only the other side looks at, is the eight bytes that \<^verbatim>\<open>struct\<close> packs for it.
\<close>

section \<open>Packets\<close>

definition ping_request :: nat where "ping_request = 1"
definition ping_reply :: nat where "ping_reply = 2"
definition ping_header :: nat where "ping_header = 11"

lemmas ping_defs = ping_request_def ping_reply_def ping_header_def

definition make_packet :: "int \<Rightarrow> nat \<Rightarrow> nat \<Rightarrow> bytes \<Rightarrow> bytes result" where
  "make_packet sz t i ts =
     map_sum id (\<lambda>h. h @ ts @ replicate (nat (max 0 (sz - int ping_header))) 0) (pack_fields [(1, t), (2, i)])"

definition parse_packet :: "bytes \<Rightarrow> (nat \<times> nat \<times> bytes) option" where
  "parse_packet d =
     (if length d < ping_header then None
      else Some (unpack_be (take 1 d), unpack_be (take 2 (drop 1 d)), take 8 (drop 3 d)))"

section \<open>One side\<close>

record ping =
  pg_server :: bool
  pg_linked :: bool
  pg_size :: int
  pg_out :: bytes
  pg_pending :: "(nat, int) dict"
  pg_rtts :: "int list"
  pg_sent :: nat
  pg_received :: nat
  pg_done :: bool

definition new_ping :: "bool \<Rightarrow> int \<Rightarrow> ping" where
  "new_ping server sz =
     \<lparr>pg_server = server, pg_linked = False, pg_size = sz, pg_out = [], pg_pending = [], pg_rtts = [],
      pg_sent = 0, pg_received = 0, pg_done = False\<rparr>"

text \<open>The body of the loop of \<^verbatim>\<open>_on_data\<close> for one packet.\<close>

definition handle_packet :: "int \<Rightarrow> bytes \<Rightarrow> ping \<Rightarrow> exn option \<times> ping" where
  "handle_packet now d s =
     (case parse_packet d of
        None \<Rightarrow> (None, s)
      | Some (t, i, ts) \<Rightarrow>
          if pg_server s then
            (if t = ping_request then
               (case make_packet (pg_size s) ping_reply i ts of
                  Inl e \<Rightarrow> (Some e, s)
                | Inr r \<Rightarrow> (None, if pg_linked s then s\<lparr>pg_out := pg_out s @ r\<rparr> else s))
             else (None, s))
          else if t = ping_reply then
            (case dget (pg_pending s) i of
               None \<Rightarrow> (None, s)
             | Some sent \<Rightarrow>
                 (None, s\<lparr>pg_pending := ddel i (pg_pending s), pg_rtts := pg_rtts s @ [now - sent],
                          pg_received := pg_received s + 1\<rparr>))
          else (None, s))"

text \<open>The loop itself, with Python's slices; it need not end.\<close>

partial_function (option) ping_loop ::
  "int \<Rightarrow> (bytes \<Rightarrow> 's \<Rightarrow> exn option \<times> 's) \<Rightarrow> bytes \<Rightarrow> 's \<Rightarrow> (exn option \<times> bytes \<times> 's) option" where
  "ping_loop sz h buf s =
     (if int (length buf) < sz then Some (None, buf, s)
      else
        (case h (pslice buf 0 sz) s of
           (Some e, s') \<Rightarrow> Some (Some e, pslice buf sz (int (length buf)), s')
         | (None, s') \<Rightarrow> ping_loop sz h (pslice buf sz (int (length buf))) s'))"

definition ping_on_data :: "int \<Rightarrow> bytes \<Rightarrow> bytes \<times> ping \<Rightarrow> (bytes \<times> ping) option" where
  "ping_on_data now chunk bs =
     map_option snd (ping_loop (pg_size (snd bs)) (handle_packet now) (fst bs @ chunk) (snd bs))"

definition ping_lost :: "ping \<Rightarrow> ping" where
  "ping_lost s = s\<lparr>pg_done := True\<rparr>"

text \<open>\<^verbatim>\<open>callback\<close> of \<^verbatim>\<open>run_client\<close> stores the connection, \<^verbatim>\<open>run_server\<close> nowhere.\<close>

definition ping_client_connected :: "ping \<Rightarrow> ping" where
  "ping_client_connected s = s\<lparr>pg_linked := True\<rparr>"

definition ping_server_connected :: "ping \<Rightarrow> ping" where
  "ping_server_connected s = s"

text \<open>One turn of the loop of \<^verbatim>\<open>run_client\<close> up to its wait, and the timeout of that wait.\<close>

definition send_ping :: "nat \<Rightarrow> int \<Rightarrow> bytes \<Rightarrow> ping \<Rightarrow> unit result \<times> ping" where
  "send_ping i now ts s =
     (let s1 = s\<lparr>pg_pending := dset i now (pg_pending s)\<rparr> in
      case make_packet (pg_size s1) ping_request i ts of
        Inl e \<Rightarrow> (Inl e, s1)
      | Inr b \<Rightarrow> (Inr (), s1\<lparr>pg_out := (if pg_linked s1 then pg_out s1 @ b else pg_out s1), pg_sent := pg_sent s1 + 1\<rparr>))"

definition ping_wait_over :: "nat \<Rightarrow> ping \<Rightarrow> bool" where
  "ping_wait_over i s \<longleftrightarrow> \<not> has_key (pg_pending s) i \<or> pg_done s"

definition ping_timeout :: "nat \<Rightarrow> ping \<Rightarrow> ping" where
  "ping_timeout i s = s\<lparr>pg_pending := ddel i (pg_pending s)\<rparr>"

text \<open>\<^verbatim>\<open>_get_statistics\<close> without the deviation, in fractions.\<close>

record ping_stats =
  ps_transmitted :: nat
  ps_received :: nat
  ps_loss :: rat
  ps_min :: int
  ps_max :: int
  ps_avg :: rat

definition get_statistics :: "ping \<Rightarrow> ping_stats" where
  "get_statistics s =
     \<lparr>ps_transmitted = pg_sent s, ps_received = pg_received s,
      ps_loss = (if 0 < pg_sent s then (of_nat (pg_sent s) - of_nat (pg_received s)) / of_nat (pg_sent s) * 100 else 0),
      ps_min = (case pg_rtts s of [] \<Rightarrow> 0 | r # rs \<Rightarrow> fold min rs r),
      ps_max = (case pg_rtts s of [] \<Rightarrow> 0 | r # rs \<Rightarrow> fold max rs r),
      ps_avg = (if pg_rtts s = [] then 0 else of_int (sum_list (pg_rtts s)) / of_nat (length (pg_rtts s)))\<rparr>"

section \<open>Whether the loop ends\<close>

definition packet_next :: "nat \<Rightarrow> bytes \<Rightarrow> bytes took" where
  "packet_next n buf = (if n = 0 \<or> length buf < n then More else Took (take n buf) (drop n buf))"

definition packet_enc :: "nat \<Rightarrow> bytes \<Rightarrow> bytes result" where
  "packet_enc n p = (if n \<noteq> 0 \<and> length p = n then Inr p else Inl ValueError)"

interpretation packets: chunked_codec "packet_next n" "packet_enc n" for n
  by unfold_locales (auto simp: packet_next_def packet_enc_def split: if_splits)

lemma ping_loop_positive:
  "0 < n \<Longrightarrow> ping_loop (int n) h buf s = Some (msg_loop (packet_next n) h buf s)"
proof (induction buf arbitrary: s rule: length_induct)
  case (1 buf)
  show ?case
  proof (cases "length buf < n")
    case True
    then show ?thesis by (subst ping_loop.simps, subst msg_loop.simps) (simp add: packet_next_def)
  next
    case False
    have p: "pslice buf 0 (int n) = take n buf" "pslice buf (int n) (int (length buf)) = drop n buf"
      using pslice_nat [of buf 0 n] pslice_nat [of buf n "length buf"] by simp_all
    have nx: "packet_next n buf = Took (take n buf) (drop n buf)" using False 1(2) by (simp add: packet_next_def)
    have l: "length (drop n buf) < length buf" using False 1(2) by auto
    show ?thesis
      using False 1(1) l 1(2) nx
      by (subst ping_loop.simps, subst msg_loop.simps) (simp add: p split: prod.split option.split)
  qed
qed

lemma handle_packet_fine: "fst (handle_packet now d s) = None"
proof -
  have "unpack_be (take 2 (drop (Suc 0) d)) < 256 ^ 2"
    using unpack_be_less [of "take 2 (drop (Suc 0) d)"] by (rule less_le_trans) (rule power_increasing, simp_all)
  then show ?thesis
    by (auto simp: handle_packet_def parse_packet_def make_packet_def ping_defs split: option.split)
qed

lemma ping_loop_some:
  assumes "ping_loop sz h buf s = Some r"
  shows "sz \<le> 0 \<longrightarrow> (\<exists>d s. fst (h d s) \<noteq> None)"
proof (rule ping_loop.raw_induct [where P = "\<lambda>sz h buf s r. sz \<le> 0 \<longrightarrow> (\<exists>d s. fst (h d s) \<noteq> None)", OF _ assms])
  fix loop sz h buf s r
  assume "\<And>sz h buf s r. loop sz h buf s = Some r \<Longrightarrow> sz \<le> 0 \<longrightarrow> (\<exists>d s. fst (h d s) \<noteq> None)"
    and "(if int (length buf) < sz then Some (None, buf, s)
      else case h (pslice buf 0 sz) s of
           (None, s') \<Rightarrow> loop sz h (pslice buf sz (int (length buf))) s'
         | (Some e, s') \<Rightarrow> Some (Some e, pslice buf sz (int (length buf)), s')) = Some r"
  then show "sz \<le> 0 \<longrightarrow> (\<exists>d s. fst (h d s) \<noteq> None)"
    by (cases "h (pslice buf 0 sz) s"; cases "fst (h (pslice buf 0 sz) s)") (auto split: if_splits, metis fst_conv)
qed

lemma ping_loop_none:
  "sz \<le> 0 \<Longrightarrow> (\<And>d s. fst (h d s) = None) \<Longrightarrow> ping_loop sz h buf s = None"
  using ping_loop_some [of sz h buf s] by (cases "ping_loop sz h buf s") auto

text \<open>
  The size of a packet decides whether the receiver ever returns: for a positive size every chunk
  is dealt with, for the size 0 and every negative one the first chunk, even an empty one, is
  never finished and the event loop stands still.
\<close>

theorem ping_returns_iff_positive_size:
  "(\<exists>r. ping_on_data now chunk (buf, s) = Some r) \<longleftrightarrow> 0 < pg_size s"
proof (cases "0 < pg_size s")
  case True
  then obtain n where n: "pg_size s = int n" "0 < n" by (metis int_nat_eq less_imp_le zero_less_nat_eq)
  then show ?thesis by (simp add: ping_on_data_def ping_loop_positive)
next
  case False
  then have "ping_loop (pg_size s) (handle_packet now) (buf @ chunk) s = None"
    by (intro ping_loop_none handle_packet_fine) simp
  then show ?thesis using False by (simp add: ping_on_data_def)
qed


section \<open>Requests and replies\<close>

lemma make_packet_parts:
  assumes "make_packet sz t i ts = Inr b" "length ts = 8"
  shows "parse_packet b = Some (t, i, ts)" "length b = max 11 (nat sz)" "i < 256 ^ 2"
proof -
  have b: "t < 256" "i < 256 ^ 2" "b = pack_be 1 t @ pack_be 2 i @ ts @ replicate (nat (max 0 (sz - 11))) 0"
    using assms(1) by (auto simp: make_packet_def ping_header_def map_sum_eq_Inr split: if_splits)
  show "parse_packet b = Some (t, i, ts)" using b assms(2) by (simp add: parse_packet_def ping_header_def)
  show "length b = max 11 (nat sz)" unfolding b(3) using assms(2) by simp
  show "i < 256 ^ 2" by (rule b(2))
qed

text \<open>One packet after another, for packets of the length that the receiver cuts off.\<close>

definition ping_feed :: "int \<Rightarrow> bytes list \<Rightarrow> bytes \<times> ping \<Rightarrow> (bytes \<times> ping) option" where
  "ping_feed now cs bs = fold (\<lambda>c r. Option.bind r (ping_on_data now c)) cs (Some bs)"

lemma handle_packet_size [simp]: "pg_size (snd (handle_packet now d s)) = pg_size s"
  by (auto simp: handle_packet_def split: option.splits sum.split)

lemma ping_on_data_loop:
  assumes "pg_size s = int n" "0 < n"
  shows "ping_on_data now c (buf, s) = Some (msg_feed (packet_next n) (handle_packet now) c (buf, s))
    \<and> pg_size (snd (msg_feed (packet_next n) (handle_packet now) c (buf, s))) = int n"
  using assms msg_loop_inv [of "\<lambda>s. pg_size s = int n" "handle_packet now" s "packet_next n" "buf @ c"]
  by (simp add: ping_on_data_def ping_loop_positive msg_feed_def)

lemma ping_feed_messages:
  assumes "pg_size s = int n" "0 < n" "\<forall>p \<in> set ps. length p = n" "concat cs = concat ps"
  shows "ping_feed now cs ([], s) = Some ([], fold (\<lambda>p s. snd (handle_packet now p s)) ps s)"
proof -
  have f: "fold (\<lambda>c r. Option.bind r (ping_on_data now c)) cs (Some (buf, s)) =
      Some (fold (msg_feed (packet_next n) (handle_packet now)) cs (buf, s))" if "pg_size s = int n" for cs buf s
    using that
  proof (induction cs arbitrary: buf s)
    case (Cons c cs)
    obtain b t where "msg_feed (packet_next n) (handle_packet now) c (buf, s) = (b, t)" by fastforce
    then show ?case using Cons.IH [of t b] ping_on_data_loop [OF Cons.prems assms(2), of now c buf] by simp
  qed simp
  have "list_all2 (\<lambda>p bs. packet_enc n p = Inr bs) ps ps"
    using assms(2,3) by (auto simp: list_all2_same packet_enc_def)
  then have "fold (msg_feed (packet_next n) (handle_packet now)) cs ([], s) =
      ([], fold (\<lambda>p s. snd (handle_packet now p s)) ps s)"
    using assms(4) by (rule packets.messages_fed [where Q = "\<lambda>_. True"]) (simp_all add: handle_packet_fine)
  then show ?thesis unfolding ping_feed_def using f [OF assms(1)] by simp
qed

definition ping_packet :: "int \<Rightarrow> nat \<Rightarrow> nat \<times> bytes \<Rightarrow> bytes" where
  "ping_packet sz t p = (case make_packet sz t (fst p) (snd p) of Inr b \<Rightarrow> b | Inl _ \<Rightarrow> [])"

lemma ping_packet_Inr:
  "fst p < 256 ^ 2 \<Longrightarrow> t < 256 \<Longrightarrow> make_packet sz t (fst p) (snd p) = Inr (ping_packet sz t p)"
  by (auto simp: ping_packet_def make_packet_def)

lemma server_replies:
  assumes "\<forall>p \<in> set ps. fst p < 256 ^ 2 \<and> length (snd p) = 8"
  shows "pg_server s \<Longrightarrow> pg_linked s \<Longrightarrow>
    fold (\<lambda>b s. snd (handle_packet now b s)) (map (ping_packet (pg_size s) ping_request) ps) s =
      s\<lparr>pg_out := pg_out s @ concat (map (ping_packet (pg_size s) ping_reply) ps)\<rparr>"
  using assms
proof (induction ps arbitrary: s)
  case (Cons p ps)
  have m: "make_packet (pg_size s) ping_request (fst p) (snd p) = Inr (ping_packet (pg_size s) ping_request p)"
    "make_packet (pg_size s) ping_reply (fst p) (snd p) = Inr (ping_packet (pg_size s) ping_reply p)"
    using Cons.prems by (auto intro!: ping_packet_Inr simp: ping_defs)
  have "handle_packet now (ping_packet (pg_size s) ping_request p) s =
      (None, s\<lparr>pg_out := pg_out s @ ping_packet (pg_size s) ping_reply p\<rparr>)"
    using make_packet_parts(1) [OF m(1)] m(2) Cons.prems by (auto simp: handle_packet_def split: prod.split)
  then show ?case using Cons.IH [of "s\<lparr>pg_out := pg_out s @ ping_packet (pg_size s) ping_reply p\<rparr>"] Cons.prems by simp
qed simp

lemma client_counts:
  assumes "\<forall>p \<in> set ps. fst p < 256 ^ 2 \<and> length (snd p) = 8" "distinct (map fst ps)"
  shows "\<not> pg_server s \<Longrightarrow> \<forall>p \<in> set ps. dget (pg_pending s) (fst p) = Some (began (fst p)) \<Longrightarrow>
    fold (\<lambda>b s. snd (handle_packet now b s)) (map (ping_packet (pg_size s) ping_reply) ps) s =
      s\<lparr>pg_pending := fold ddel (map fst ps) (pg_pending s), pg_rtts := pg_rtts s @ map (\<lambda>p. now - began (fst p)) ps,
        pg_received := pg_received s + length ps\<rparr>"
  using assms
proof (induction ps arbitrary: s)
  case (Cons p ps)
  have m: "make_packet (pg_size s) ping_reply (fst p) (snd p) = Inr (ping_packet (pg_size s) ping_reply p)"
    using Cons.prems by (auto intro!: ping_packet_Inr simp: ping_defs)
  let ?s = "s\<lparr>pg_pending := ddel (fst p) (pg_pending s), pg_rtts := pg_rtts s @ [now - began (fst p)],
      pg_received := pg_received s + 1\<rparr>"
  have h: "handle_packet now (ping_packet (pg_size s) ping_reply p) s = (None, ?s)"
    using make_packet_parts(1) [OF m] Cons.prems by (auto simp: handle_packet_def ping_defs split: prod.split)
  have "\<forall>q \<in> set ps. dget (pg_pending ?s) (fst q) = Some (began (fst q))"
  proof
    fix q assume q: "q \<in> set ps"
    then have "fst q \<noteq> fst p" using Cons.prems(4) by (auto simp: image_iff)
    then show "dget (pg_pending ?s) (fst q) = Some (began (fst q))" using q Cons.prems(2) by simp
  qed
  then show ?case using Cons.IH [of ?s] Cons.prems h by simp
qed simp

text \<open>
  Pings and their replies: for packets of at least eleven bytes, a responder that had its
  connection would answer every request once, in order, in whatever pieces the requests arrive;
  and a client that gets these replies, in whatever pieces, takes the pings off its list and counts
  a round trip for each of them.
\<close>

theorem pings_are_answered:
  assumes "11 \<le> sz" "\<forall>p \<in> set ps. fst p < 256 ^ 2 \<and> length (snd p) = 8" "distinct (map fst ps)"
    and "concat cs = concat (map (ping_packet sz ping_request) ps)"
    and "pg_server s" "pg_linked s" "pg_size s = sz" "pg_out s = []"
    and "\<not> pg_server c" "pg_size c = sz" "\<forall>p \<in> set ps. dget (pg_pending c) (fst p) = Some (began (fst p))"
  shows "\<exists>s' c'. ping_feed t cs ([], s) = Some ([], s')
    \<and> (\<forall>ds. concat ds = pg_out s' \<longrightarrow> ping_feed now ds ([], c) = Some ([], c'))
    \<and> pg_received c' = pg_received c + length ps \<and> pg_rtts c' = pg_rtts c @ map (\<lambda>p. now - began (fst p)) ps
    \<and> (\<forall>i. dget (pg_pending c') i = (if i \<in> fst ` set ps then None else dget (pg_pending c) i))"
proof -
  have n: "sz = int (nat sz)" "0 < nat sz" using assms(1) by simp_all
  have l: "length (ping_packet sz x p) = nat sz" if "p \<in> set ps" "x < 256" for x p
    using make_packet_parts(2) [OF ping_packet_Inr [of p x sz]] that assms(1,2) by simp
  have s: "ping_feed t cs ([], s) = Some ([], s\<lparr>pg_out := concat (map (ping_packet sz ping_reply) ps)\<rparr>)"
    using ping_feed_messages [of s "nat sz" "map (ping_packet sz ping_request) ps" cs t] server_replies [OF assms(2,5,6), of t]
      l n assms(4,7,8) by (simp add: ping_defs)
  let ?c = "c\<lparr>pg_pending := fold ddel (map fst ps) (pg_pending c), pg_rtts := pg_rtts c @ map (\<lambda>p. now - began (fst p)) ps,
        pg_received := pg_received c + length ps\<rparr>"
  have c: "ping_feed now ds ([], c) = Some ([], ?c)" if "concat ds = concat (map (ping_packet sz ping_reply) ps)" for ds
    using ping_feed_messages [of c "nat sz" "map (ping_packet sz ping_reply) ps" ds now]
      client_counts [OF assms(2,3,9,11), of now] l n assms(10) that by (simp add: ping_defs)
  have d: "dget (fold ddel ks d) i = (if i \<in> set ks then None else dget d i)" for ks i and d :: "(nat, int) dict"
    by (induction ks arbitrary: d) auto
  show ?thesis
    using s c by (intro exI [of _ "s\<lparr>pg_out := concat (map (ping_packet sz ping_reply) ps)\<rparr>"] exI [of _ ?c]) (simp add: d)
qed

theorem pings_are_answered_witness:
  "let ts = replicate 8 0; c = snd (send_ping 0 100 ts (ping_client_connected (new_ping False 12)));
       s = (new_ping True 12)\<lparr>pg_linked := True\<rparr>
   in (\<exists>s' c'. ping_feed 0 [pg_out c] ([], s) = Some ([], s') \<and> ping_feed 150 [pg_out s'] ([], c) = Some ([], c')
        \<and> pg_received c' = 1 \<and> pg_rtts c' = [50])"
proof -
  let ?ts = "replicate 8 0 :: bytes" and ?s = "(new_ping True 12)\<lparr>pg_linked := True\<rparr>"
  let ?c = "snd (send_ping 0 100 ?ts (ping_client_connected (new_ping False 12)))"
  have m: "make_packet 12 ping_request 0 ?ts = Inr (ping_packet 12 ping_request (0, ?ts))"
    by (simp add: ping_packet_def make_packet_def ping_defs)
  have c: "pg_out ?c = ping_packet 12 ping_request (0, ?ts)" "pg_pending ?c = [(0, 100)]" "pg_size ?c = 12" "\<not> pg_server ?c"
      "pg_received ?c = 0" "pg_rtts ?c = []"
    using m by (simp_all add: send_ping_def ping_client_connected_def new_ping_def Let_def)
  have "\<exists>s' c'. ping_feed 0 [pg_out ?c] ([], ?s) = Some ([], s')
    \<and> (\<forall>ds. concat ds = pg_out s' \<longrightarrow> ping_feed 150 ds ([], ?c) = Some ([], c'))
    \<and> pg_received c' = pg_received ?c + length [(0 :: nat, ?ts)]
    \<and> pg_rtts c' = pg_rtts ?c @ map (\<lambda>p. 150 - (\<lambda>_. 100) (fst p)) [(0 :: nat, ?ts)]
    \<and> (\<forall>i. dget (pg_pending c') i = (if i \<in> fst ` set [(0 :: nat, ?ts)] then None else dget (pg_pending ?c) i))"
    by (rule pings_are_answered [where sz = 12 and began = "\<lambda>_. 100"]) (use c in \<open>simp_all add: new_ping_def\<close>)
  then show ?thesis using c(5,6) by (auto simp: Let_def)
qed

end
