(* ===== verification/Telnet.thy ===== *)
theory Telnet
  imports Typed_Frames
begin

text \<open>
  \<^verbatim>\<open>src/wh/cli/telnet.py\<close>: one TCP connection from the network of the peer. What sockets, timers and the
  keyboard do are operations of their own; connections of the server to its targets are numbered, and
  the calls of \<^verbatim>\<open>write\<close> and \<^verbatim>\<open>close\<close> on them are recorded.
\<close>

section \<open>State\<close>

definition te_connect :: nat where "te_connect = 1"
definition te_connect_ok :: nat where "te_connect_ok = 2"
definition te_connect_fail :: nat where "te_connect_fail = 3"
definition te_data :: nat where "te_data = 4"
definition te_close :: nat where "te_close = 5"

lemmas te_types = te_connect_def te_connect_ok_def te_connect_fail_def te_data_def te_close_def

record telnet =
  te_server :: bool
  te_shows :: bool
  te_linked :: bool
  te_sent :: bytes
  te_tasks :: "bytes list"
  te_dialing :: "(string \<times> nat) list"
  te_target :: "nat option"
  te_forwards :: nat
  te_written :: "(nat \<times> bytes) list"
  te_closed :: "nat list"
  te_shown :: bytes
  te_connected :: bool
  te_result :: "bool option"
  te_error :: "string option"
  te_done :: bool

definition new_telnet :: "bool \<Rightarrow> bool \<Rightarrow> telnet" where
  "new_telnet server shows =
     \<lparr>te_server = server, te_shows = shows, te_linked = False, te_sent = [], te_tasks = [], te_dialing = [],
      te_target = None, te_forwards = 0, te_written = [], te_closed = [], te_shown = [], te_connected = False,
      te_result = None, te_error = None, te_done = False\<rparr>"

text \<open>
  The callbacks of the two endpoints: \<^verbatim>\<open>run_server\<close> does not store the connection; \<^verbatim>\<open>run_client\<close> stores it when
  the endpoint fires, and its \<^verbatim>\<open>on_connected\<close> uses the stored one.
\<close>

definition telnet_server_made :: "telnet \<Rightarrow> telnet" where
  "telnet_server_made s = s"

definition telnet_client_made :: "telnet \<Rightarrow> exn option \<times> telnet" where
  "telnet_client_made s = (if te_linked s then None else Some AttributeError, s)"

definition telnet_client_fired :: "telnet \<Rightarrow> telnet" where
  "telnet_client_fired s = s\<lparr>te_linked := True\<rparr>"

definition telnet_send :: "nat \<Rightarrow> bytes \<Rightarrow> telnet \<Rightarrow> exn option \<times> telnet" where
  "telnet_send t d s =
     (case type_send (te_linked s) t d (te_sent s) of
        Inl e \<Rightarrow> (Some e, s)
      | Inr b \<Rightarrow> (None, s\<lparr>te_sent := b\<rparr>))"

section \<open>The server\<close>

text \<open>The payload of a request: too short, a host that is not UTF-8 (which raises), or host and port.\<close>

datatype request = ShortRequest | BadHost | Target string nat

definition telnet_request :: "bytes \<Rightarrow> request" where
  "telnet_request b =
     (if length b < 3 then ShortRequest
      else
        (let n = unat (hd b) in
         if length b < 1 + n + 2 then ShortRequest
         else
           (case decode_utf8 (take n (drop 1 b)) of
              None \<Rightarrow> BadHost
            | Some host \<Rightarrow> Target host (unpack_be (take 2 (drop (1 + n) b))))))"

text \<open>\<^verbatim>\<open>_handle_connect\<close> up to \<^verbatim>\<open>open_connection\<close>, and what that gives.\<close>

definition telnet_start_connect :: "bytes \<Rightarrow> telnet \<Rightarrow> telnet" where
  "telnet_start_connect b s =
     (case telnet_request b of
        ShortRequest \<Rightarrow> snd (telnet_send te_connect_fail (lit ''Invalid request'') s)
      | BadHost \<Rightarrow> s
      | Target host port \<Rightarrow> s\<lparr>te_dialing := te_dialing s @ [(host, port)]\<rparr>)"

definition run_telnet_task :: "telnet \<Rightarrow> telnet" where
  "run_telnet_task s =
     (case te_tasks s of
        [] \<Rightarrow> s
      | b # bs \<Rightarrow> telnet_start_connect b (s\<lparr>te_tasks := bs\<rparr>))"

datatype telnet_dial = Dialed nat | DialTimeout | DialError string

definition telnet_dialed :: "string \<times> nat \<Rightarrow> telnet_dial \<Rightarrow> telnet \<Rightarrow> telnet" where
  "telnet_dialed task r s =
     (let s' = s\<lparr>te_dialing := remove1 task (te_dialing s)\<rparr> in
      case r of
        Dialed w \<Rightarrow>
          (case telnet_send te_connect_ok [] (s'\<lparr>te_target := Some w\<rparr>) of
             (_, s2) \<Rightarrow> s2\<lparr>te_forwards := te_forwards s2 + 1\<rparr>)
      | DialTimeout \<Rightarrow>
          snd (telnet_send te_connect_fail
            (encode_utf8 (''Connection to '' @ fst task @ '':'' @ show_nat (snd task) @ '' timed out'')) s')
      | DialError e \<Rightarrow> snd (telnet_send te_connect_fail (encode_utf8 e) s'))"

text \<open>One turn of \<^verbatim>\<open>_forward_from_target\<close>: what the read of the target gave, \<^verbatim>\<open>None\<close> for an exception.\<close>

definition telnet_forward_end :: "telnet \<Rightarrow> telnet" where
  "telnet_forward_end s = (snd (telnet_send te_close [] s))\<lparr>te_done := True, te_forwards := te_forwards s - 1\<rparr>"

definition telnet_target_read :: "bytes option \<Rightarrow> telnet \<Rightarrow> telnet" where
  "telnet_target_read r s =
     (if te_forwards s = 0 then s
      else
        (case r of
           None \<Rightarrow> telnet_forward_end s
         | Some d \<Rightarrow>
             if d = [] then telnet_forward_end s
             else
               (case telnet_send te_data d s of
                  (None, s') \<Rightarrow> s'
                | (Some _, s') \<Rightarrow> telnet_forward_end s')))"

section \<open>Messages\<close>

definition telnet_closes :: "telnet \<Rightarrow> telnet" where
  "telnet_closes s =
     s\<lparr>te_done := True, te_closed := te_closed s @ (case te_target s of None \<Rightarrow> [] | Some w \<Rightarrow> [w])\<rparr>"

definition telnet_got_data :: "bytes \<Rightarrow> telnet \<Rightarrow> telnet" where
  "telnet_got_data d s =
     (if te_server s then
        (case te_target s of None \<Rightarrow> s | Some w \<Rightarrow> s\<lparr>te_written := te_written s @ [(w, d)]\<rparr>)
      else if te_shows s then s\<lparr>te_shown := te_shown s @ d\<rparr>
      else s)"

text \<open>An error text that is not UTF-8 raises after the result was set.\<close>

definition telnet_refused :: "bytes \<Rightarrow> telnet \<Rightarrow> bool \<times> telnet" where
  "telnet_refused b s =
     (let s1 = s\<lparr>te_result := Some False\<rparr> in
      case (if b = [] then Some ''Connection failed'' else decode_utf8 b) of
        None \<Rightarrow> (False, s1)
      | Some e \<Rightarrow> (True, s1\<lparr>te_error := Some e, te_connected := True\<rparr>))"

definition handle_telnet :: "nat \<times> bytes \<Rightarrow> telnet \<Rightarrow> bool \<times> telnet" where
  "handle_telnet m s =
     (if fst m = te_connect then (True, s\<lparr>te_tasks := te_tasks s @ [snd m]\<rparr>)
      else if fst m = te_connect_ok then (True, s\<lparr>te_result := Some True, te_connected := True\<rparr>)
      else if fst m = te_connect_fail then telnet_refused (snd m) s
      else if fst m = te_data then (True, telnet_got_data (snd m) s)
      else if fst m = te_close then (True, telnet_closes s)
      else (True, s))"

definition telnet_on_data :: "bytes \<Rightarrow> bytes \<times> telnet \<Rightarrow> bytes \<times> telnet" where
  "telnet_on_data = feed type_header (\<lambda>f. handle_telnet (type_message f))"

definition telnet_lost :: "telnet \<Rightarrow> telnet" where
  "telnet_lost s = telnet_closes s"

section \<open>The client\<close>

text \<open>\<^verbatim>\<open>connect\<close> up to its wait, and after it.\<close>

definition telnet_payload :: "string \<Rightarrow> int \<Rightarrow> bytes result" where
  "telnet_payload host port =
     (let hb = encode_utf8 host in
      if 256 \<le> length hb then Inl ValueError
      else map_sum id (\<lambda>p. word_of_nat (length hb) # hb @ p) (pack_uint 2 port))"

definition telnet_connect :: "string \<Rightarrow> int \<Rightarrow> telnet \<Rightarrow> exn option \<times> telnet" where
  "telnet_connect host port s =
     (case telnet_payload host port of
        Inl e \<Rightarrow> (Some e, s)
      | Inr b \<Rightarrow> telnet_send te_connect b s)"

definition telnet_connect_result :: "telnet \<Rightarrow> bool option \<times> telnet" where
  "telnet_connect_result s =
     (if te_connected s then (te_result s, s)
      else (Some False, s\<lparr>te_error := Some ''Connection request timed out''\<rparr>))"

definition telnet_close :: "telnet \<Rightarrow> exn option \<times> telnet" where
  "telnet_close s =
     (case telnet_send te_close [] s of
        (Some e, s') \<Rightarrow> (Some e, s')
      | (None, s') \<Rightarrow> (None, s'\<lparr>te_done := True\<rparr>))"

text \<open>
  The escape character: \<^verbatim>\<open>ord\<close> wants one character. A turn of \<^verbatim>\<open>read_stdin\<close>, with the byte that was read
  (none at the end of the input); the result says whether the loop goes on.
\<close>

definition escape_code :: "string \<Rightarrow> int result" where
  "escape_code e =
     (case py_upper e of
        [c] \<Rightarrow> Inr (int (cp c) - 65 + 1)
      | _ \<Rightarrow> Inl TypeError)"

definition telnet_stdin :: "int \<Rightarrow> byte option \<Rightarrow> telnet \<Rightarrow> bool \<times> telnet" where
  "telnet_stdin esc x s =
     (if te_done s then (False, s)
      else
        (case x of
           None \<Rightarrow> (False, s)
         | Some b \<Rightarrow>
             if uint b = esc then (False, snd (telnet_close s))
             else (case telnet_send te_data [b] s of (e, s') \<Rightarrow> (e = None, s'))))"

section \<open>Sending\<close>

lemma telnet_send_ok:
  assumes "te_linked s" "t < 256" "length d < 256 ^ 4"
  shows "\<exists>bs. type_frame (t, d) = Inr bs \<and> telnet_send t d s = (None, s\<lparr>te_sent := te_sent s @ bs\<rparr>)"
proof -
  have "type_frame (t, d) = Inr (put_frame (pack_be 1 t) d)" using assms(2,3) by (simp add: type_frame_Inr)
  then show ?thesis using assms(1) by (simp add: telnet_send_def type_send_def)
qed

lemma telnet_send_unlinked [simp]: "\<not> te_linked s \<Longrightarrow> telnet_send t d s = (None, s)"
  by (simp add: telnet_send_def type_send_def)

lemma requested_target:
  assumes "telnet_payload host port = Inr b"
  shows "telnet_request b = Target host (nat port)"
proof -
  let ?hb = "encode_utf8 host"
  obtain p where b: "length ?hb < 256" "0 \<le> port" "port < 65536" "b = word_of_nat (length ?hb) # ?hb @ pack_be 2 (nat port)"
    using assms by (auto simp: telnet_payload_def Let_def pack_uint_def map_sum_eq_Inr split: if_splits)
  have u: "unat (word_of_nat (length ?hb) :: byte) = length ?hb" using b(1) by (simp add: unat_of_nat)
  have "nat port < 256 ^ 2" using b(2,3) by simp
  then have "unpack_be (pack_be 2 (nat port)) = nat port" by simp
  then show ?thesis unfolding b(4) telnet_request_def using u by simp
qed


section \<open>A session\<close>

text \<open>
  A server as \<^verbatim>\<open>run_server\<close> runs it. Whatever arrives, whatever its targets and timers do, in any
  order, it sends nothing.
\<close>

datatype telnet_event =
    TelnetChunk bytes
  | TelnetTask
  | TelnetDialed "string \<times> nat" telnet_dial
  | TelnetTarget "bytes option"
  | TelnetLost

fun telnet_step :: "telnet_event \<Rightarrow> bytes \<times> telnet \<Rightarrow> bytes \<times> telnet" where
  "telnet_step (TelnetChunk d) bs = telnet_on_data d bs"
| "telnet_step TelnetTask bs = apsnd run_telnet_task bs"
| "telnet_step (TelnetDialed k r) bs = apsnd (telnet_dialed k r) bs"
| "telnet_step (TelnetTarget r) bs = apsnd (telnet_target_read r) bs"
| "telnet_step TelnetLost bs = apsnd telnet_lost bs"


definition telnet_unlinked :: "telnet \<Rightarrow> bool" where
  "telnet_unlinked s \<longleftrightarrow> \<not> te_linked s \<and> te_sent s = []"

lemma handle_telnet_wire [simp]:
  "te_linked (snd (handle_telnet m s)) = te_linked s" "te_sent (snd (handle_telnet m s)) = te_sent s"
  by (simp_all add: handle_telnet_def telnet_refused_def telnet_got_data_def telnet_closes_def Let_def split: option.split)

lemma telnet_target_read_unlinked: "telnet_unlinked s \<Longrightarrow> telnet_unlinked (telnet_target_read r s)"
  by (simp add: telnet_unlinked_def telnet_target_read_def telnet_forward_end_def split: option.split)

lemma telnet_dialed_unlinked: "telnet_unlinked s \<Longrightarrow> telnet_unlinked (telnet_dialed k r s)"
  by (cases r) (simp_all add: telnet_unlinked_def telnet_dialed_def Let_def)

lemma run_telnet_task_unlinked: "telnet_unlinked s \<Longrightarrow> telnet_unlinked (run_telnet_task s)"
  by (simp add: telnet_unlinked_def run_telnet_task_def telnet_start_connect_def split: list.split request.split)

lemma telnet_unlinked_step: "telnet_unlinked (snd bs) \<Longrightarrow> telnet_unlinked (snd (telnet_step e bs))"
proof (cases e)
  case (TelnetChunk d)
  assume "telnet_unlinked (snd bs)"
  then have "telnet_unlinked (snd (feed type_header (\<lambda>f. handle_telnet (type_message f)) d bs))"
    by (intro feed_inv [where Q = telnet_unlinked]) (simp_all add: telnet_unlinked_def)
  then show ?thesis using TelnetChunk by (simp add: telnet_on_data_def)
next
  case TelnetLost
  then show "telnet_unlinked (snd bs) \<Longrightarrow> ?thesis" by (simp add: telnet_unlinked_def telnet_lost_def telnet_closes_def)
qed (simp_all add: telnet_target_read_unlinked telnet_dialed_unlinked run_telnet_task_unlinked)

theorem telnet_server_silent:
  "te_sent (snd (fold telnet_step evs ([], telnet_server_made (new_telnet True False)))) = []"
proof -
  have "telnet_unlinked (snd (fold telnet_step evs bs))" if "telnet_unlinked (snd bs)" for bs
    using that by (induction evs arbitrary: bs) (simp_all add: telnet_unlinked_step)
  then show ?thesis by (simp add: telnet_unlinked_def telnet_server_made_def new_telnet_def)
qed

text \<open>The client: a request that ends in its own dial, and what the two sides send each other.\<close>

definition telnet_sends :: "bytes list \<Rightarrow> telnet \<Rightarrow> telnet" where
  "telnet_sends ds s = fold (\<lambda>d s. snd (telnet_send te_data d s)) ds s"

lemma telnet_sends_frames:
  assumes "te_linked s" "\<forall>d \<in> set ds. length d < 256 ^ 4"
  shows "\<exists>bss. list_all2 (\<lambda>m bs. type_frame m = Inr bs) (map (Pair te_data) ds) bss
    \<and> telnet_sends ds s = s\<lparr>te_sent := te_sent s @ concat bss\<rparr>"
  using assms
proof (induction ds arbitrary: s)
  case (Cons d ds)
  obtain bs where b: "type_frame (te_data, d) = Inr bs" "telnet_send te_data d s = (None, s\<lparr>te_sent := te_sent s @ bs\<rparr>)"
    using telnet_send_ok [of s te_data d] Cons.prems by (auto simp: te_types)
  obtain bss where "list_all2 (\<lambda>m bs. type_frame m = Inr bs) (map (Pair te_data) ds) bss"
    "telnet_sends ds (s\<lparr>te_sent := te_sent s @ bs\<rparr>) = s\<lparr>te_sent := te_sent s @ bs @ concat bss\<rparr>"
    using Cons.IH [of "s\<lparr>te_sent := te_sent s @ bs\<rparr>"] Cons.prems by auto
  then show ?case using b by (intro exI [of _ "bs # bss"]) (simp add: telnet_sends_def)
qed (simp add: telnet_sends_def)

lemma telnet_data_received:
  assumes "te_linked a" "\<forall>d \<in> set ds. length d < 256 ^ 4" "te_sent (telnet_sends ds a) = te_sent a @ concat cs"
  shows "fold telnet_on_data cs ([], b) = ([], fold telnet_got_data ds b)"
proof -
  obtain bss where r: "list_all2 (\<lambda>m bs. type_frame m = Inr bs) (map (Pair te_data) ds) bss"
      "te_sent (telnet_sends ds a) = te_sent a @ concat bss"
    using telnet_sends_frames [OF assms(1,2)] by auto
  have "fold telnet_on_data cs ([], b) = ([], fold (\<lambda>m s. snd (handle_telnet m s)) (map (Pair te_data) ds) b)"
    unfolding telnet_on_data_def
    by (rule typed.messages_handled [OF r(1)]) (use r(2) assms(3) in \<open>auto simp: handle_telnet_def te_types\<close>)
  then show ?thesis by (simp add: fold_map comp_def handle_telnet_def te_types)
qed

lemma fold_got_data:
  "te_server s \<Longrightarrow> te_target s = Some w \<Longrightarrow> fold telnet_got_data ds s = s\<lparr>te_written := te_written s @ map (Pair w) ds\<rparr>"
  "\<not> te_server s \<Longrightarrow> te_shows s \<Longrightarrow> fold telnet_got_data ds s = s\<lparr>te_shown := te_shown s @ concat ds\<rparr>"
  by (induction ds arbitrary: s) (simp_all add: telnet_got_data_def)

text \<open>
  A session: if the server kept its connection as the client does, a client that asks for a host
  and a port makes it dial exactly these; once that has worked, \<^verbatim>\<open>connect\<close> returns true, what the client
  sends is written to the target call by call and in order, and what is read from the target is
  shown to the user in order, in whatever pieces the three streams arrive.
\<close>

theorem telnet_session:
  assumes "telnet_connect host port c = (None, c1)" "te_linked c" "\<not> te_server c" "te_shows c"
    and "te_linked s" "te_server s" "te_tasks s = []" "te_dialing s = []" "te_sent c1 = te_sent c @ concat cs"
    and "s1 = run_telnet_task (snd (fold telnet_on_data cs ([], s)))"
    and "s2 = telnet_dialed (host, nat port) (Dialed w) s1" "te_sent s2 = te_sent s @ concat rs"
    and "\<forall>d \<in> set ds \<union> set es. length d < 256 ^ 4"
    and "te_sent (telnet_sends ds c1) = te_sent c1 @ concat cs'" "te_sent (telnet_sends es s2) = te_sent s2 @ concat rs'"
  shows "te_dialing s1 = [(host, nat port)]
    \<and> (\<exists>c2. fold telnet_on_data rs ([], c1) = ([], c2) \<and> fst (telnet_connect_result c2) = Some True
          \<and> fold telnet_on_data rs' ([], c2) = ([], c2\<lparr>te_shown := te_shown c2 @ concat es\<rparr>))
    \<and> fold telnet_on_data cs' ([], s2) = ([], s2\<lparr>te_written := te_written s2 @ map (Pair w) ds\<rparr>)"
proof -
  obtain b where b: "telnet_payload host port = Inr b" "telnet_send te_connect b c = (None, c1)"
    using assms(1) by (auto simp: telnet_connect_def split: sum.splits)
  then obtain bs where f: "type_frame (te_connect, b) = Inr bs" "c1 = c\<lparr>te_sent := te_sent c @ bs\<rparr>"
    using assms(2) by (auto simp: telnet_send_def type_send_def split: sum.splits)
  have "fold telnet_on_data cs ([], s) = ([], s\<lparr>te_tasks := [b]\<rparr>)"
    using typed.messages_handled [of "[(te_connect, b)]" "[bs]" cs handle_telnet s] f assms(7,9)
    by (simp add: telnet_on_data_def handle_telnet_def)
  then have s1: "s1 = s\<lparr>te_dialing := [(host, nat port)]\<rparr>"
    using assms(7,8,10) requested_target [OF b(1)] by (simp add: run_telnet_task_def telnet_start_connect_def)
  obtain ok where o: "type_frame (te_connect_ok, []) = Inr ok"
    and s2: "s2 = s\<lparr>te_target := Some w, te_forwards := te_forwards s + 1, te_sent := te_sent s @ ok\<rparr>"
    using telnet_send_ok [of "s\<lparr>te_dialing := [], te_target := Some w\<rparr>" te_connect_ok "[]"] assms(5,8)
    by (auto simp: assms(11) s1 telnet_dialed_def te_types)
  define c2 where "c2 = c1\<lparr>te_result := Some True, te_connected := True\<rparr>"
  have rs: "concat rs = concat [ok]" using s2 assms(12) by simp
  have "fold telnet_on_data rs ([], c1) = ([], fold (\<lambda>m s. snd (handle_telnet m s)) [(te_connect_ok, [])] c1)"
    unfolding telnet_on_data_def by (rule typed.messages_handled [OF _ rs]) (use o in \<open>simp_all add: handle_telnet_def te_types\<close>)
  then have c2: "fold telnet_on_data rs ([], c1) = ([], c2)" by (simp add: c2_def handle_telnet_def te_types)
  have "fold telnet_on_data rs' ([], c2) = ([], fold telnet_got_data es c2)"
    by (rule telnet_data_received [OF _ _ assms(15)]) (use assms(5,13) s2 in auto)
  then have r: "fold telnet_on_data rs' ([], c2) = ([], c2\<lparr>te_shown := te_shown c2 @ concat es\<rparr>)"
    using assms(3,4) f(2) by (simp add: fold_got_data c2_def)
  have "fold telnet_on_data cs' ([], s2) = ([], fold telnet_got_data ds s2)"
    by (rule telnet_data_received [OF _ _ assms(14)]) (use assms(2,13) f(2) in auto)
  then have "fold telnet_on_data cs' ([], s2) = ([], s2\<lparr>te_written := te_written s2 @ map (Pair w) ds\<rparr>)"
    using assms(6) s2 by (simp add: fold_got_data)
  then show ?thesis using s1 c2 r by (simp add: telnet_connect_result_def c2_def)
qed

theorem telnet_session_witness:
  "let c = telnet_client_fired (new_telnet False True); s = (new_telnet True False)\<lparr>te_linked := True\<rparr>;
       c1 = snd (telnet_connect ''h'' 80 c); s1 = run_telnet_task (snd (telnet_on_data (te_sent c1) ([], s)));
       s2 = telnet_dialed (''h'', 80) (Dialed 7) s1; c2 = snd (telnet_on_data (te_sent s2) ([], c1))
   in te_dialing s1 = [(''h'', 80)] \<and> fst (telnet_connect_result c2) = Some True"
proof -
  let ?c = "telnet_client_fired (new_telnet False True)" and ?s = "(new_telnet True False)\<lparr>te_linked := True\<rparr>"
  let ?c1 = "snd (telnet_connect ''h'' 80 ?c)"
  let ?s1 = "run_telnet_task (snd (fold telnet_on_data [te_sent ?c1] ([], ?s)))"
  let ?s2 = "telnet_dialed (''h'', nat 80) (Dialed 7) ?s1"
  have "encode_utf8 ''h'' = [104]" by code_simp
  then have "fst (telnet_connect ''h'' 80 ?c) = None"
    by (simp add: telnet_connect_def telnet_payload_def telnet_send_def type_send_def type_frame_def fields_frame_def
      te_types telnet_client_fired_def pack_uint_def)
  then have e: "telnet_connect ''h'' 80 ?c = (None, ?c1)" by (simp add: prod_eq_iff)
  have c: "te_linked ?c" "\<not> te_server ?c" "te_shows ?c" "te_linked ?s" "te_server ?s" "te_tasks ?s = []" "te_dialing ?s = []"
      "te_sent ?c1 = te_sent ?c @ concat [te_sent ?c1]" "te_sent ?s2 = te_sent ?s @ concat [te_sent ?s2]"
    by (simp_all add: telnet_client_fired_def new_telnet_def)
  have n: "\<forall>d \<in> set [] \<union> set []. length (d :: bytes) < 256 ^ 4" "te_sent (telnet_sends [] ?c1) = te_sent ?c1 @ concat []"
      "te_sent (telnet_sends [] ?s2) = te_sent ?s2 @ concat []"
    by (simp_all add: telnet_sends_def)
  have "te_dialing ?s1 = [(''h'', nat 80)]
    \<and> (\<exists>c2. fold telnet_on_data [te_sent ?s2] ([], ?c1) = ([], c2) \<and> fst (telnet_connect_result c2) = Some True
          \<and> fold telnet_on_data [] ([], c2) = ([], c2\<lparr>te_shown := te_shown c2 @ concat []\<rparr>))
    \<and> fold telnet_on_data [] ([], ?s2) = ([], ?s2\<lparr>te_written := te_written ?s2 @ map (Pair 7) []\<rparr>)"
    by (rule telnet_session [OF e c(1-8) refl refl c(9) n])
  then obtain c2 where "te_dialing ?s1 = [(''h'', 80)]" "telnet_on_data (te_sent ?s2) ([], ?c1) = ([], c2)"
      "fst (telnet_connect_result c2) = Some True"
    by (elim exE conjE) simp
  then show ?thesis by (simp add: Let_def)
qed

end
