(* ===== verification/Desktop.thy ===== *)
theory Desktop
  imports Typed_Frames
begin

text \<open>
  \<^verbatim>\<open>src/wh/cli/vnc.py\<close> and \<^verbatim>\<open>rdp.py\<close>: a remote desktop over the wormhole. The two files are the same code
  with other names, ports and texts; \<^verbatim>\<open>desk_texts\<close> is what differs. Viewers of the client and
  connections of the server are numbered; the calls of \<^verbatim>\<open>write\<close> and \<^verbatim>\<open>close\<close> on them are recorded.
\<close>

section \<open>State\<close>

definition dk_connect :: nat where "dk_connect = 1"
definition dk_connect_ok :: nat where "dk_connect_ok = 2"
definition dk_connect_fail :: nat where "dk_connect_fail = 3"
definition dk_data :: nat where "dk_data = 4"
definition dk_close :: nat where "dk_close = 5"

lemmas dk_types = dk_connect_def dk_connect_ok_def dk_connect_fail_def dk_data_def dk_close_def

record desk_texts =
  dt_timeout :: string
  dt_refused :: string

definition vnc_texts :: desk_texts where
  "vnc_texts = \<lparr>dt_timeout = ''Connection to VNC server timed out'', dt_refused = ''VNC server refused connection on port ''\<rparr>"

definition rdp_texts :: desk_texts where
  "rdp_texts = \<lparr>dt_timeout = ''Connection to RDP server timed out'', dt_refused = ''RDP server refused connection on port ''\<rparr>"

text \<open>
  One side. \<^verbatim>\<open>dk_peer\<close> stands for the reader and the writer, which are always set together; \<^verbatim>\<open>dk_waiting\<close> and
  \<^verbatim>\<open>dk_viewing\<close> are the tasks of the viewers before and after the confirmation.
\<close>

record desktop =
  dk_texts :: desk_texts
  dk_host :: string
  dk_port :: int
  dk_server :: bool
  dk_linked :: bool
  dk_sent :: bytes
  dk_tasks :: nat
  dk_peer :: "nat option"
  dk_forwards :: nat
  dk_up :: bool
  dk_waiting :: "nat list"
  dk_viewing :: "nat list"
  dk_written :: "(nat \<times> bytes) list"
  dk_closed :: "nat list"
  dk_done :: bool

definition new_desktop :: "desk_texts \<Rightarrow> bool \<Rightarrow> string \<Rightarrow> int \<Rightarrow> desktop" where
  "new_desktop texts server host port =
     \<lparr>dk_texts = texts, dk_host = host, dk_port = port, dk_server = server, dk_linked = False, dk_sent = [],
      dk_tasks = 0, dk_peer = None, dk_forwards = 0, dk_up = False, dk_waiting = [], dk_viewing = [],
      dk_written = [], dk_closed = [], dk_done = False\<rparr>"

definition new_vnc :: "bool \<Rightarrow> string \<Rightarrow> int \<Rightarrow> int \<Rightarrow> desktop" where
  "new_vnc server host port display = new_desktop vnc_texts server host (port + display)"

definition new_rdp :: "bool \<Rightarrow> string \<Rightarrow> int \<Rightarrow> desktop" where
  "new_rdp server host port = new_desktop rdp_texts server host port"

text \<open>\<^verbatim>\<open>run_server\<close> does not store the connection, \<^verbatim>\<open>callback\<close> of \<^verbatim>\<open>run_client\<close> does.\<close>

definition desk_server_made :: "desktop \<Rightarrow> desktop" where
  "desk_server_made s = s"

definition desk_client_fired :: "desktop \<Rightarrow> desktop" where
  "desk_client_fired s = s\<lparr>dk_linked := True\<rparr>"

definition desk_send :: "nat \<Rightarrow> bytes \<Rightarrow> desktop \<Rightarrow> exn option \<times> desktop" where
  "desk_send t d s =
     (case type_send (dk_linked s) t d (dk_sent s) of
        Inl e \<Rightarrow> (Some e, s)
      | Inr b \<Rightarrow> (None, s\<lparr>dk_sent := b\<rparr>))"

section \<open>The server\<close>

datatype desk_dial = DeskDialed nat | DeskTimeout | DeskRefused | DeskError string

definition desk_dialed :: "desk_dial \<Rightarrow> desktop \<Rightarrow> desktop" where
  "desk_dialed r s0 =
     (if dk_tasks s0 = 0 then s0
      else
        (let s = s0\<lparr>dk_tasks := dk_tasks s0 - 1\<rparr> in
         case r of
           DeskDialed w \<Rightarrow>
             (case desk_send dk_connect_ok [] (s\<lparr>dk_peer := Some w\<rparr>) of
                (_, s2) \<Rightarrow> s2\<lparr>dk_up := True, dk_forwards := dk_forwards s2 + 1\<rparr>)
         | DeskTimeout \<Rightarrow> snd (desk_send dk_connect_fail (encode_utf8 (dt_timeout (dk_texts s))) s)
         | DeskRefused \<Rightarrow>
             snd (desk_send dk_connect_fail (encode_utf8 (dt_refused (dk_texts s) @ show_int (dk_port s))) s)
         | DeskError e \<Rightarrow> snd (desk_send dk_connect_fail (encode_utf8 e) s)))"

text \<open>One turn of the task that forwards from the desktop: what its read gave, then the test of the loop.\<close>

definition desk_forward_end :: "desktop \<Rightarrow> desktop" where
  "desk_forward_end s = (snd (desk_send dk_close [] s))\<lparr>dk_done := True, dk_forwards := dk_forwards s - 1\<rparr>"

definition desk_server_read :: "bytes option \<Rightarrow> desktop \<Rightarrow> desktop" where
  "desk_server_read r s =
     (if dk_forwards s = 0 then s
      else
        (case r of
           None \<Rightarrow> desk_forward_end s
         | Some d \<Rightarrow>
             if d = [] then desk_forward_end s
             else
               (case desk_send dk_data d s of
                  (None, s') \<Rightarrow> (if dk_done s' then desk_forward_end s' else s')
                | (Some _, s') \<Rightarrow> desk_forward_end s')))"

section \<open>Messages\<close>

definition desk_closes :: "desktop \<Rightarrow> desktop" where
  "desk_closes s =
     s\<lparr>dk_done := True, dk_closed := dk_closed s @ (case dk_peer s of None \<Rightarrow> [] | Some w \<Rightarrow> [w])\<rparr>"

text \<open>\<^verbatim>\<open>_handle_data\<close>: both of its branches write to the current writer.\<close>

definition desk_got_data :: "bytes \<Rightarrow> desktop \<Rightarrow> desktop" where
  "desk_got_data d s =
     (case dk_peer s of None \<Rightarrow> s | Some w \<Rightarrow> s\<lparr>dk_written := dk_written s @ [(w, d)]\<rparr>)"

text \<open>\<^verbatim>\<open>_handle_connect_fail\<close>: a text that is not UTF-8 raises before anything is set.\<close>

definition desk_failed :: "bytes \<Rightarrow> desktop \<Rightarrow> bool \<times> desktop" where
  "desk_failed b s = (if b \<noteq> [] \<and> decode_utf8 b = None then (False, s) else (True, s\<lparr>dk_done := True\<rparr>))"

definition handle_desk :: "nat \<times> bytes \<Rightarrow> desktop \<Rightarrow> bool \<times> desktop" where
  "handle_desk m s =
     (if fst m = dk_connect then (True, s\<lparr>dk_tasks := dk_tasks s + 1\<rparr>)
      else if fst m = dk_connect_ok then (True, s\<lparr>dk_up := True\<rparr>)
      else if fst m = dk_connect_fail then desk_failed (snd m) s
      else if fst m = dk_data then (True, desk_got_data (snd m) s)
      else if fst m = dk_close then (True, desk_closes s)
      else (True, s))"

definition desk_on_data :: "bytes \<Rightarrow> bytes \<times> desktop \<Rightarrow> bytes \<times> desktop" where
  "desk_on_data = feed type_header (\<lambda>f. handle_desk (type_message f))"

definition desk_lost :: "desktop \<Rightarrow> desktop" where
  "desk_lost s = desk_closes s"

section \<open>The client\<close>

text \<open>
  A viewer connects: it becomes the reader and writer of the side, the request is sent, and the task
  waits for the confirmation, at most 15 seconds.
\<close>

definition desk_viewer :: "nat \<Rightarrow> desktop \<Rightarrow> desktop" where
  "desk_viewer w s =
     (case desk_send dk_connect [] (s\<lparr>dk_peer := Some w\<rparr>) of
        (None, s') \<Rightarrow> s'\<lparr>dk_waiting := dk_waiting s' @ [w]\<rparr>
      | (Some _, s') \<Rightarrow> s')"

definition desk_viewer_end :: "nat \<Rightarrow> desktop \<Rightarrow> desktop" where
  "desk_viewer_end w s =
     (case desk_send dk_close [] s of
        (None, s') \<Rightarrow> s'\<lparr>dk_closed := dk_closed s' @ [w], dk_viewing := remove1 w (dk_viewing s')\<rparr>
      | (Some _, s') \<Rightarrow> s'\<lparr>dk_viewing := remove1 w (dk_viewing s')\<rparr>)"

definition desk_viewer_ready :: "nat \<Rightarrow> desktop \<Rightarrow> desktop" where
  "desk_viewer_ready w s =
     (if w \<in> set (dk_waiting s) \<and> dk_up s then
        (let s' = s\<lparr>dk_waiting := remove1 w (dk_waiting s), dk_viewing := dk_viewing s @ [w]\<rparr> in
         if dk_done s' then desk_viewer_end w s' else s')
      else s)"

definition desk_viewer_timeout :: "nat \<Rightarrow> desktop \<Rightarrow> desktop" where
  "desk_viewer_timeout w s =
     (if w \<in> set (dk_waiting s) then s\<lparr>dk_waiting := remove1 w (dk_waiting s), dk_closed := dk_closed s @ [w]\<rparr> else s)"

definition desk_viewer_read :: "nat \<Rightarrow> bytes option \<Rightarrow> desktop \<Rightarrow> desktop" where
  "desk_viewer_read w r s =
     (if w \<notin> set (dk_viewing s) then s
      else
        (case r of
           None \<Rightarrow> desk_viewer_end w s
         | Some d \<Rightarrow>
             if d = [] then desk_viewer_end w s
             else
               (case desk_send dk_data d s of
                  (None, s') \<Rightarrow> (if dk_done s' then desk_viewer_end w s' else s')
                | (Some _, s') \<Rightarrow> desk_viewer_end w s')))"


section \<open>Sending\<close>

lemma desk_send_ok:
  assumes "dk_linked s" "t < 256" "length d < 256 ^ 4"
  shows "\<exists>bs. type_frame (t, d) = Inr bs \<and> desk_send t d s = (None, s\<lparr>dk_sent := dk_sent s @ bs\<rparr>)"
proof -
  have "type_frame (t, d) = Inr (put_frame (pack_be 1 t) d)" using assms(2,3) by (simp add: type_frame_Inr)
  then show ?thesis using assms(1) by (simp add: desk_send_def type_send_def)
qed

text \<open>One task that reads chunks and sends each of them, on either side.\<close>

definition data_chunk :: "bytes \<Rightarrow> bool" where
  "data_chunk d \<longleftrightarrow> d \<noteq> [] \<and> length d < 256 ^ 4"

definition desk_frames :: "bytes list \<Rightarrow> bytes" where
  "desk_frames ds = concat (map (put_frame (pack_be 1 dk_data)) ds)"

lemma desk_send_data:
  assumes "dk_linked s" "data_chunk d"
  shows "desk_send dk_data d s = (None, s\<lparr>dk_sent := dk_sent s @ desk_frames [d]\<rparr>)"
proof -
  have "type_frame (dk_data, d) = Inr (desk_frames [d])"
    using assms(2) by (simp add: type_frame_Inr desk_frames_def data_chunk_def dk_types)
  then show ?thesis using assms(1) by (simp add: desk_send_def type_send_def)
qed

lemma desk_frames_list: "\<forall>d \<in> set ds. data_chunk d \<Longrightarrow>
    list_all2 (\<lambda>m bs. type_frame m = Inr bs) (map (Pair dk_data) ds) (map (put_frame (pack_be 1 dk_data)) ds)"
  by (auto simp: list_all2_conv_all_nth type_frame_Inr data_chunk_def dk_types)

definition desk_viewer_reads :: "nat \<Rightarrow> bytes list \<Rightarrow> desktop \<Rightarrow> desktop" where
  "desk_viewer_reads w ds s = fold (\<lambda>d. desk_viewer_read w (Some d)) ds s"

definition desk_server_reads :: "bytes list \<Rightarrow> desktop \<Rightarrow> desktop" where
  "desk_server_reads ds s = fold (\<lambda>d. desk_server_read (Some d)) ds s"

lemma desk_viewer_reads_sent:
  "dk_linked s \<Longrightarrow> \<not> dk_done s \<Longrightarrow> w \<in> set (dk_viewing s) \<Longrightarrow> \<forall>d \<in> set ds. data_chunk d \<Longrightarrow>
    desk_viewer_reads w ds s = s\<lparr>dk_sent := dk_sent s @ desk_frames ds\<rparr>"
proof (induction ds arbitrary: s)
  case (Cons d ds)
  have "desk_viewer_read w (Some d) s = s\<lparr>dk_sent := dk_sent s @ desk_frames [d]\<rparr>"
    using Cons.prems desk_send_data [of s d] by (simp add: desk_viewer_read_def data_chunk_def)
  then show ?case using Cons by (simp add: desk_viewer_reads_def desk_frames_def)
qed (simp add: desk_viewer_reads_def desk_frames_def)

lemma desk_server_reads_sent:
  "dk_linked s \<Longrightarrow> \<not> dk_done s \<Longrightarrow> 0 < dk_forwards s \<Longrightarrow> \<forall>d \<in> set ds. data_chunk d \<Longrightarrow>
    desk_server_reads ds s = s\<lparr>dk_sent := dk_sent s @ desk_frames ds\<rparr>"
proof (induction ds arbitrary: s)
  case (Cons d ds)
  have "desk_server_read (Some d) s = s\<lparr>dk_sent := dk_sent s @ desk_frames [d]\<rparr>"
    using Cons.prems desk_send_data [of s d] by (simp add: desk_server_read_def data_chunk_def)
  then show ?case using Cons by (simp add: desk_server_reads_def desk_frames_def)
qed (simp add: desk_server_reads_def desk_frames_def)

lemma desk_data_received:
  assumes "\<forall>d \<in> set ds. data_chunk d" "concat cs = desk_frames ds" "dk_peer b = Some w"
  shows "fold desk_on_data cs ([], b) = ([], b\<lparr>dk_written := dk_written b @ map (Pair w) ds\<rparr>)"
proof -
  have "fold desk_on_data cs ([], b) = ([], fold (\<lambda>m s. snd (handle_desk m s)) (map (Pair dk_data) ds) b)"
    unfolding desk_on_data_def
    by (rule typed.messages_handled [OF desk_frames_list [OF assms(1)]])
      (use assms(2) in \<open>auto simp: desk_frames_def handle_desk_def dk_types\<close>)
  moreover have "dk_peer b = Some w \<Longrightarrow> fold (\<lambda>m s. snd (handle_desk m s)) (map (Pair dk_data) ds) b
      = b\<lparr>dk_written := dk_written b @ map (Pair w) ds\<rparr>" for b
    by (induction ds arbitrary: b) (simp_all add: handle_desk_def desk_got_data_def dk_types)
  ultimately show ?thesis using assms(3) by simp
qed

section \<open>One viewer and two\<close>

text \<open>
  A session of one viewer: if the server kept its connection as the client does, the connection of
  the viewer makes it dial the desktop, the confirmation starts the task of the viewer, and from then
  on the chunks of the viewer are written to the desktop and the chunks of the desktop to the
  viewer, each in order, in whatever pieces the streams arrive.
\<close>

theorem desktop_session:
  assumes "dk_linked c" "dk_waiting c = []" "dk_viewing c = []" "\<not> dk_done c" "c1 = desk_viewer w c"
    and "dk_linked s" "dk_tasks s = 0" "\<not> dk_done s" "dk_sent c1 = dk_sent c @ concat cs"
    and "s1 = desk_dialed (DeskDialed v) (snd (fold desk_on_data cs ([], s)))" "dk_sent s1 = dk_sent s @ concat rs"
    and "c2 = desk_viewer_ready w (snd (fold desk_on_data rs ([], c1)))"
    and "\<forall>d \<in> set ds \<union> set es. data_chunk d"
    and "dk_sent (desk_viewer_reads w ds c2) = dk_sent c2 @ concat cs'"
    and "dk_sent (desk_server_reads es s1) = dk_sent s1 @ concat rs'"
  shows "dk_viewing c2 = [w]
    \<and> fold desk_on_data cs' ([], s1) = ([], s1\<lparr>dk_written := dk_written s1 @ map (Pair v) ds\<rparr>)
    \<and> fold desk_on_data rs' ([], c2) = ([], c2\<lparr>dk_written := dk_written c2 @ map (Pair w) es\<rparr>)"
proof -
  obtain req where q: "type_frame (dk_connect, []) = Inr req"
    and c1: "c1 = c\<lparr>dk_peer := Some w, dk_sent := dk_sent c @ req, dk_waiting := [w]\<rparr>"
    using desk_send_ok [of "c\<lparr>dk_peer := Some w\<rparr>" dk_connect "[]"] assms(1,2,5) by (auto simp: desk_viewer_def dk_types)
  have cs: "concat cs = concat [req]" using assms(9) c1 by simp
  have "fold desk_on_data cs ([], s) = ([], fold (\<lambda>m s. snd (handle_desk m s)) [(dk_connect, [])] s)"
    unfolding desk_on_data_def by (rule typed.messages_handled [OF _ cs]) (use q in \<open>simp_all add: handle_desk_def dk_types\<close>)
  then have "fold desk_on_data cs ([], s) = ([], s\<lparr>dk_tasks := 1\<rparr>)" using assms(7) by (simp add: handle_desk_def dk_types)
  then obtain ok where o: "type_frame (dk_connect_ok, []) = Inr ok"
    and s1: "s1 = s\<lparr>dk_tasks := 0, dk_peer := Some v, dk_sent := dk_sent s @ ok, dk_up := True, dk_forwards := dk_forwards s + 1\<rparr>"
    using desk_send_ok [of "s\<lparr>dk_tasks := 0, dk_peer := Some v\<rparr>" dk_connect_ok "[]"] assms(6,10)
    by (auto simp: desk_dialed_def Let_def dk_types)
  have rs: "concat rs = concat [ok]" using s1 assms(11) by simp
  have "fold desk_on_data rs ([], c1) = ([], fold (\<lambda>m s. snd (handle_desk m s)) [(dk_connect_ok, [])] c1)"
    unfolding desk_on_data_def by (rule typed.messages_handled [OF _ rs]) (use o in \<open>simp_all add: handle_desk_def dk_types\<close>)
  then have "snd (fold desk_on_data rs ([], c1)) = c1\<lparr>dk_up := True\<rparr>" by (simp add: handle_desk_def dk_types)
  then have c2: "c2 = c1\<lparr>dk_up := True, dk_waiting := [], dk_viewing := [w]\<rparr>"
    using assms(3,4,12) c1 by (simp add: desk_viewer_ready_def Let_def)
  have sends: "concat cs' = desk_frames ds" "concat rs' = desk_frames es"
    using desk_viewer_reads_sent [of c2 w ds] desk_server_reads_sent [of s1 es] assms(1,4,6,8,13-15) c1 c2 s1 by simp_all
  have "fold desk_on_data cs' ([], s1) = ([], s1\<lparr>dk_written := dk_written s1 @ map (Pair v) ds\<rparr>)"
    by (rule desk_data_received [OF _ sends(1)]) (use assms(13) s1 in simp_all)
  moreover have "fold desk_on_data rs' ([], c2) = ([], c2\<lparr>dk_written := dk_written c2 @ map (Pair w) es\<rparr>)"
    by (rule desk_data_received [OF _ sends(2)]) (use assms(13) c1 c2 in simp_all)
  ultimately show ?thesis using c2 by simp
qed

theorem desktop_session_witness:
  "let c = desk_client_fired (new_vnc False ''localhost'' 5900 0);
       s = (new_vnc True ''localhost'' 5900 1)\<lparr>dk_linked := True\<rparr>; c1 = desk_viewer 3 c;
       s1 = desk_dialed (DeskDialed 7) (snd (desk_on_data (dk_sent c1) ([], s)));
       c2 = desk_viewer_ready 3 (snd (desk_on_data (dk_sent s1) ([], c1)))
   in dk_viewing c2 = [3]"
proof -
  let ?c = "desk_client_fired (new_vnc False ''localhost'' 5900 0)"
  let ?s = "(new_vnc True ''localhost'' 5900 1)\<lparr>dk_linked := True\<rparr>"
  let ?c1 = "desk_viewer 3 ?c"
  have q: "desk_send dk_connect [] (?c\<lparr>dk_peer := Some 3\<rparr>) =
      (None, (?c\<lparr>dk_peer := Some 3\<rparr>)\<lparr>dk_sent := put_frame (pack_be 1 1) []\<rparr>)"
    by (simp add: desk_send_def type_send_def desk_client_fired_def type_frame_def fields_frame_def put_frame_def dk_types
      new_vnc_def new_desktop_def)
  have c: "dk_linked ?c" "dk_waiting ?c = []" "dk_viewing ?c = []" "\<not> dk_done ?c" "dk_linked ?s" "dk_tasks ?s = 0" "\<not> dk_done ?s"
      "dk_sent ?c1 = dk_sent ?c @ concat [dk_sent ?c1]"
      "dk_sent (desk_dialed (DeskDialed 7) (snd (fold desk_on_data [dk_sent ?c1] ([], ?s)))) =
        dk_sent ?s @ concat [dk_sent (desk_dialed (DeskDialed 7) (snd (fold desk_on_data [dk_sent ?c1] ([], ?s))))]"
    by (simp_all add: desk_client_fired_def new_vnc_def new_desktop_def)
  have n: "\<forall>d \<in> set [] \<union> set []. data_chunk d" "dk_sent (desk_viewer_reads w [] x) = dk_sent x @ concat []"
      "dk_sent (desk_server_reads [] y) = dk_sent y @ concat []" for w x y
    by (simp_all add: desk_viewer_reads_def desk_server_reads_def)
  show ?thesis
    using desktop_session [OF c(1-4) refl c(5-8) refl c(9) refl n] by (simp add: Let_def)
qed

text \<open>
  Two viewers. There is one reader and writer for all of them, so the second viewer takes over the picture
  of the first, whose input still goes into the same stream.
\<close>

theorem second_viewer_takes_over:
  assumes "dk_linked s" "\<not> dk_done s" "dk_up s" "v \<in> set (dk_viewing s)" "v \<noteq> w"
    and "s1 = desk_viewer_ready w (desk_viewer w s)"
    and "data_chunk x" "data_chunk y" "\<forall>d \<in> set ds. data_chunk d" "concat cs = desk_frames ds"
  shows "fold desk_on_data cs ([], s1) = ([], s1\<lparr>dk_written := dk_written s1 @ map (Pair w) ds\<rparr>)
    \<and> dk_sent (desk_viewer_read w (Some y) (desk_viewer_read v (Some x) s1)) = dk_sent s1 @ desk_frames [x, y]"
proof -
  obtain req where c: "desk_viewer w s = s\<lparr>dk_peer := Some w, dk_sent := dk_sent s @ req, dk_waiting := dk_waiting s @ [w]\<rparr>"
    using desk_send_ok [of "s\<lparr>dk_peer := Some w\<rparr>" dk_connect "[]"] assms(1) by (auto simp: desk_viewer_def dk_types)
  then have s1: "dk_linked s1" "\<not> dk_done s1" "v \<in> set (dk_viewing s1)" "w \<in> set (dk_viewing s1)" "dk_peer s1 = Some w"
    using assms(1-6) by (simp_all add: desk_viewer_ready_def Let_def)
  have "desk_viewer_reads v [x] s1 = s1\<lparr>dk_sent := dk_sent s1 @ desk_frames [x]\<rparr>"
    by (rule desk_viewer_reads_sent) (use s1 assms(7) in simp_all)
  moreover have "desk_viewer_reads w [y] (s1\<lparr>dk_sent := dk_sent s1 @ desk_frames [x]\<rparr>) =
      s1\<lparr>dk_sent := dk_sent s1 @ desk_frames [x] @ desk_frames [y]\<rparr>"
    using desk_viewer_reads_sent [of "s1\<lparr>dk_sent := dk_sent s1 @ desk_frames [x]\<rparr>" w "[y]"] s1 assms(8) by simp
  ultimately have "dk_sent (desk_viewer_read w (Some y) (desk_viewer_read v (Some x) s1)) = dk_sent s1 @ desk_frames [x, y]"
    by (simp add: desk_viewer_reads_def desk_frames_def)
  then show ?thesis using desk_data_received [OF assms(9,10) s1(5)] by blast
qed

end
