(* ===== verification/Http.thy ===== *)
theory Http
  imports Json_Text Posix_Path
begin

text \<open>
  \<^verbatim>\<open>src/wh/http/\<close>: HTTP requests over the wormhole (\<^verbatim>\<open>client.py\<close>: the client and the proxy that makes the
  requests) and the file server that the browser extension talks to (\<^verbatim>\<open>server.py\<close>). The HTTP library,
  the file system and the texts of exceptions are parameters.
\<close>

section \<open>Searching in bytes\<close>

fun bfind :: "bytes \<Rightarrow> bytes \<Rightarrow> nat option" where
  "bfind [] p = (if p = [] then Some 0 else None)"
| "bfind (x # s) p = (if take (length p) (x # s) = p then Some 0 else map_option Suc (bfind s p))"

definition http_newline :: bytes where
  "http_newline = [10]"

definition end_marker :: bytes where
  "end_marker = http_newline @ lit ''---END---'' @ http_newline"

text \<open>The first line and what follows it; without a line break all of it is the first line.\<close>

definition first_line :: "bytes \<Rightarrow> bytes \<times> bytes" where
  "first_line data =
     (case bfind data http_newline of
        None \<Rightarrow> (data, [])
      | Some n \<Rightarrow> (take n data, drop (n + 1) data))"

definition json_of_bytes :: "bytes \<Rightarrow> jval result" where
  "json_of_bytes b = (case decode_utf8 b of None \<Rightarrow> Inl ValueError | Some t \<Rightarrow> json_loads t)"

definition bytes_of_json :: "jval \<Rightarrow> bytes" where
  "bytes_of_json v = encode_utf8 (json_dumps None v)"

section \<open>The client\<close>

type_synonym header_dict = "(string, string) dict"

definition headers_json :: "header_dict \<Rightarrow> jval" where
  "headers_json h = JObj (map (\<lambda>(k, v). (k, JStr v)) h)"

definition request_json :: "string \<Rightarrow> string \<Rightarrow> header_dict option \<Rightarrow> bytes option \<Rightarrow> jval" where
  "request_json meth url headers body =
     JObj [(''type'', JStr ''http_request''), (''method'', JStr meth), (''url'', JStr url),
       (''headers'', headers_json (case headers of None \<Rightarrow> [] | Some h \<Rightarrow> h)),
       (''body_length'', JInt (case body of None \<Rightarrow> 0 | Some b \<Rightarrow> int (length b)))]"

text \<open>The calls of \<^verbatim>\<open>send\<close>.\<close>

definition request_sends :: "jval \<Rightarrow> bytes option \<Rightarrow> bytes list" where
  "request_sends request body =
     [bytes_of_json request @ http_newline]
     @ (case body of None \<Rightarrow> [] | Some b \<Rightarrow> if b = [] then [] else [b])
     @ [end_marker]"

text \<open>The closures \<^verbatim>\<open>on_data\<close> and \<^verbatim>\<open>on_connection_lost\<close> of one request.\<close>

record http_wait =
  hw_parts :: "bytes list"
  hw_complete :: bool
  hw_error :: "exn option"

definition new_http_wait :: http_wait where
  "new_http_wait = \<lparr>hw_parts = [], hw_complete = False, hw_error = None\<rparr>"

definition http_part :: "bytes \<Rightarrow> http_wait \<Rightarrow> http_wait" where
  "http_part d h = h\<lparr>hw_parts := hw_parts h @ [d]\<rparr>"

definition http_lost :: "exn option \<Rightarrow> http_wait \<Rightarrow> http_wait" where
  "http_lost e h = h\<lparr>hw_error := (if e = None then hw_error h else e), hw_complete := True\<rparr>"

text \<open>\<^verbatim>\<open>_parse_response\<close>: the metadata must be an object, as \<^verbatim>\<open>body\<close> is assigned in it.\<close>

definition parse_response :: "bytes \<Rightarrow> (jdict \<times> bytes) result" where
  "parse_response data =
     (case first_line data of (line, body) \<Rightarrow>
        (case json_of_bytes line of
           Inl e \<Rightarrow> Inl e
         | Inr (JObj d) \<Rightarrow> Inr (d, body)
         | Inr _ \<Rightarrow> Inl TypeError))"

record client_response =
  rs_status :: jval
  rs_reason :: jval
  rs_headers :: jval
  rs_body :: bytes

definition get_or :: "jdict \<Rightarrow> string \<Rightarrow> jval \<Rightarrow> jval" where
  "get_or d k v = (case dget d k of None \<Rightarrow> v | Some x \<Rightarrow> x)"

text \<open>The end of \<^verbatim>\<open>_send_request\<close> and of \<^verbatim>\<open>request\<close>, once the response is complete; \<^verbatim>\<open>None\<close> while it waits.\<close>

definition http_response_of :: "jdict \<times> bytes \<Rightarrow> client_response result" where
  "http_response_of r =
     (case dget (fst r) ''status_code'' of
        None \<Rightarrow> Inl KeyError
      | Some s \<Rightarrow>
          Inr \<lparr>rs_status = s, rs_reason = get_or (fst r) ''reason'' (JStr []),
               rs_headers = get_or (fst r) ''headers'' (JObj []), rs_body = snd r\<rparr>)"

definition http_outcome :: "http_wait \<Rightarrow> client_response result option" where
  "http_outcome h =
     (if \<not> hw_complete h then None
      else
        Some (case hw_error h of
                Some e \<Rightarrow> Inl e
              | None \<Rightarrow>
                  (case parse_response (concat (hw_parts h)) of
                     Inl e \<Rightarrow> Inl e
                   | Inr r \<Rightarrow> http_response_of r)))"

text \<open>\<^verbatim>\<open>request\<close> up to its wait.\<close>

definition http_request :: "bool \<Rightarrow> string \<Rightarrow> string \<Rightarrow> header_dict option \<Rightarrow> bytes option \<Rightarrow> bytes list result" where
  "http_request dilated meth url headers body =
     (if \<not> dilated then Inl RuntimeError
      else Inr (request_sends (request_json meth url headers body) body))"

section \<open>The proxy\<close>

text \<open>\<^verbatim>\<open>dataReceived\<close>: the buffer and the requests that were handed to \<^verbatim>\<open>_handle_request\<close>.\<close>

definition proxy_received :: "bytes \<Rightarrow> bytes \<times> bytes list \<Rightarrow> bytes \<times> bytes list" where
  "proxy_received d s =
     (let buf = fst s @ d in
      if bfind buf end_marker \<noteq> None then ([], snd s @ [buf]) else (buf, snd s))"

text \<open>What the HTTP library gives: a response, or an exception with its text.\<close>

record fetched =
  ft_status :: int
  ft_reason :: string
  ft_headers :: header_dict
  ft_content :: bytes

record http_env =
  ht_fetch :: "jval \<Rightarrow> jval \<Rightarrow> jval \<Rightarrow> bytes option \<Rightarrow> string + fetched"
  ht_text :: "exn \<Rightarrow> string"

definition request_parts :: "bytes \<Rightarrow> bytes \<times> bytes" where
  "request_parts data = first_line (case bfind data end_marker of None \<Rightarrow> data | Some n \<Rightarrow> take n data)"

text \<open>\<^verbatim>\<open>_handle_request\<close> up to the response.\<close>

definition proxy_fetch :: "http_env \<Rightarrow> bytes \<Rightarrow> string + fetched" where
  "proxy_fetch env data =
     (case request_parts data of (line, body) \<Rightarrow>
        (case json_of_bytes line of
           Inl e \<Rightarrow> Inl (ht_text env e)
         | Inr (JObj d) \<Rightarrow>
             (case (dget d ''method'', dget d ''url'') of
                (Some m, Some u) \<Rightarrow>
                  ht_fetch env m u (get_or d ''headers'' (JObj [])) (if body = [] then None else Some body)
              | _ \<Rightarrow> Inl (ht_text env KeyError))
         | Inr _ \<Rightarrow> Inl (ht_text env TypeError)))"

definition fetched_json :: "int \<Rightarrow> string \<Rightarrow> header_dict \<Rightarrow> jval" where
  "fetched_json status reason headers =
     JObj [(''status_code'', JInt status), (''reason'', JStr reason), (''headers'', headers_json headers)]"

text \<open>The two calls of \<^verbatim>\<open>send\<close> before the connection is closed.\<close>

definition proxy_response :: "http_env \<Rightarrow> bytes \<Rightarrow> bytes list" where
  "proxy_response env data =
     (case proxy_fetch env data of
        Inr f \<Rightarrow> [bytes_of_json (fetched_json (ft_status f) (ft_reason f) (ft_headers f)) @ http_newline, ft_content f]
      | Inl t \<Rightarrow> [bytes_of_json (fetched_json 502 ''Bad Gateway'' []) @ http_newline, encode_utf8 (''Error: '' @ t)])"

section \<open>Lines and markers\<close>

lemma bfind_append: "bfind s p = Some n \<Longrightarrow> bfind (s @ t) p = Some n"
proof (induction s arbitrary: n)
  case Nil
  then show ?case by (cases t) (auto split: if_splits)
next
  case (Cons x s)
  show ?case
  proof (cases "take (length p) (x # s) = p")
    case True
    then have "length p \<le> length (x # s)" by (metis length_take min.cobounded1)
    then have "take (length p) (x # s @ t) = p" using True take_append [of "length p" "x # s" t] by simp
    then show ?thesis using True Cons.prems by simp
  next
    case False
    then obtain m where m: "bfind s p = Some m" "n = Suc m" using Cons.prems by auto
    then have b: "bfind (s @ t) p = Some m" using Cons.IH by simp
    have "length p \<le> length s"
      using m(1) by (induction s arbitrary: m) (auto split: if_splits, metis length_Cons length_take min.cobounded1)
    then have "take (length p) (x # s @ t) \<noteq> p"
      using False take_append [of "length p" "x # s" t] by simp
    then show ?thesis using b m(2) by simp
  qed
qed

lemma bfind_length: "bfind s p = Some n \<Longrightarrow> n + length p \<le> length s"
proof (induction s arbitrary: n)
  case (Cons x s)
  show ?case
  proof (cases "take (length p) (x # s) = p")
    case True
    then have "length p \<le> length (x # s)" by (metis length_take min.cobounded1)
    then show ?thesis using True Cons.prems by simp
  qed (use Cons in auto)
qed (simp split: if_splits)

lemma bfind_skip: "hd p \<notin> set s \<Longrightarrow> p \<noteq> [] \<Longrightarrow> bfind (s @ t) p = map_option ((+) (length s)) (bfind t p)"
proof (induction s)
  case Nil
  then show ?case by (simp add: option.map_ident)
next
  case (Cons x s)
  have "take (length p) (x # s @ t) \<noteq> p" using Cons.prems by (cases p) auto
  then show ?case using Cons by (simp add: option.map_comp comp_def)
qed

lemma first_line_line: "10 \<notin> set line \<Longrightarrow> first_line (line @ http_newline @ body) = (line, body)"
  using bfind_skip [of http_newline line "http_newline @ body"] by (simp add: first_line_def http_newline_def)

lemma bytes_of_json_line: "json_ok v \<Longrightarrow> 10 \<notin> set (bytes_of_json v)"
proof -
  have "b \<noteq> 10" if "b \<in> set (utf8_char c)" "c \<noteq> CHR 0x0A" for b c
  proof -
    have "cp c \<noteq> 10" using that(2) cp_inject [of c "CHR 0x0A"] by (simp add: cp_def)
    moreover have u: "unat (word_of_nat n :: byte) = n" if "n < 256" for n using that by (simp add: unat_of_nat)
    have d: "192 + cp c div 64 < 256" "128 + cp c mod 64 < 256"
      using less_mult_imp_div_less [of "cp c" 4 64] mod_less_divisor [of 64 "cp c"] cp_less [of c] by simp_all
    have "map unat (utf8_char c) = (if cp c < 128 then [cp c] else [192 + cp c div 64, 128 + cp c mod 64])"
      by (simp add: utf8_char_def u [OF d(1)] u [OF d(2)] del: of_nat_add of_nat_numeral)
    then have "unat b \<in> set (if cp c < 128 then [cp c] else [192 + cp c div 64, 128 + cp c mod 64])"
      using imageI [OF that(1), of unat] unfolding set_map [symmetric] by simp
    ultimately have "unat b \<noteq> 10" by (auto split: if_splits)
    then show ?thesis by auto
  qed
  then show "json_ok v \<Longrightarrow> 10 \<notin> set (bytes_of_json v)"
    using json_line(1) [of v 0] by (fastforce simp: bytes_of_json_def json_dumps_def encode_utf8_def)
qed

lemma json_of_bytes_of_json: "json_ok v \<Longrightarrow> json_of_bytes (bytes_of_json v) = Inr v"
  by (simp add: json_of_bytes_def bytes_of_json_def json_roundtrip)


lemma headers_json_ok: "distinct (dkeys h) \<Longrightarrow> json_ok (headers_json h)"
  by (auto simp: headers_json_def comp_def split_def)

lemma request_json_ok: "distinct (dkeys h) \<Longrightarrow> json_ok (request_json m u (Some h) b)"
  using headers_json_ok by (auto simp: request_json_def simp del: json_ok.simps(7), auto simp: request_json_def)

lemma fetched_json_ok: "distinct (dkeys h) \<Longrightarrow> json_ok (fetched_json s r h)"
  using headers_json_ok by (auto simp: fetched_json_def simp del: json_ok.simps(7), auto simp: fetched_json_def)

text \<open>A stream that ends with its first marker is one request, however it is cut.\<close>

lemma proxy_received_stream:
  assumes "concat cs = stream" "bfind stream end_marker = Some n" "n + length end_marker = length stream"
  shows "fold proxy_received cs ([], []) = ([], [stream])"
proof -
  have p: "end_marker \<noteq> []" by (simp add: end_marker_def http_newline_def)
  have none: "bfind s end_marker = None" if "s @ t = stream" "t \<noteq> []" for s t
  proof (rule ccontr)
    assume "bfind s end_marker \<noteq> None"
    then obtain m where "bfind s end_marker = Some m" by blast
    then have "m = n" "m + length end_marker \<le> length s"
      using bfind_append [of s end_marker m t] bfind_length [of s end_marker m] that(1) assms(2) by auto
    then show False using assms(3) that by auto
  qed
  have quiet: "concat cs = [] \<Longrightarrow> fold proxy_received cs ([], ts) = ([], ts)" for cs ts
    using p by (induction cs) (auto simp: proxy_received_def)
  have "concat cs = t \<Longrightarrow> s @ t = stream \<Longrightarrow> t \<noteq> [] \<Longrightarrow> fold proxy_received cs (s, []) = ([], [stream])" for s t
  proof (induction cs arbitrary: s t)
    case (Cons c cs)
    show ?case
    proof (cases "concat cs = []")
      case True
      have "s @ c = stream" using Cons.prems(1,2) True by (simp del: concat_eq_Nil_conv)
      then have "proxy_received c (s, []) = ([], [stream])" using assms(2) by (simp add: proxy_received_def)
      then show ?thesis using quiet True by simp
    next
      case False
      have "bfind (s @ c) end_marker = None" by (rule none [of _ "concat cs"]) (use Cons.prems False in auto)
      then have "proxy_received c (s, []) = (s @ c, [])" by (simp add: proxy_received_def)
      then show ?thesis using Cons.IH [of "concat cs" "s @ c"] Cons.prems False by simp
    qed
  qed simp
  moreover have "stream \<noteq> []" using assms(3) p by auto
  ultimately show ?thesis using assms(1) by simp
qed

text \<open>
  C28. HTTP over the wormhole: a request in whose stream the end marker occurs at the end only reaches the
  proxy as one request, with its method, URL, headers and body, however the stream is cut; and the client gets
  the status, the reason, the headers and the content that the HTTP library gave, unchanged.
\<close>

theorem http_roundtrip:
  assumes "http_request True meth url (Some headers) body = Inr sends" "distinct (dkeys headers)"
    and "b = (case body of None \<Rightarrow> [] | Some x \<Rightarrow> x)" "bfind (http_newline @ b @ end_marker) end_marker = Some (length b + 1)"
    and "concat cs = concat sends"
    and "ht_fetch env (JStr meth) (JStr url) (headers_json headers) (if b = [] then None else Some b) = Inr f"
    and "distinct (dkeys (ft_headers f))" "concat rs = concat (proxy_response env (concat sends))"
  shows "fold proxy_received cs ([], []) = ([], [concat sends])
    \<and> http_outcome (http_lost None (fold http_part rs new_http_wait)) =
        Some (Inr \<lparr>rs_status = JInt (ft_status f), rs_reason = JStr (ft_reason f), rs_headers = headers_json (ft_headers f),
                   rs_body = ft_content f\<rparr>)"
proof -
  let ?r = "request_json meth url (Some headers) body"
  let ?line = "bytes_of_json ?r"
  have l: "10 \<notin> set ?line" by (rule bytes_of_json_line [OF request_json_ok [OF assms(2)]])
  have st: "concat sends = ?line @ http_newline @ b @ end_marker"
    using assms(1,3) by (auto simp: http_request_def request_sends_def split: option.splits if_splits)
  have p: "hd end_marker = 10" "end_marker \<noteq> []" "length end_marker = 11"
    by (simp_all add: end_marker_def http_newline_def)
  have m: "bfind (concat sends) end_marker = Some (length ?line + length b + 1)"
    using bfind_skip [of end_marker ?line "http_newline @ b @ end_marker"] l p assms(4) st by simp
  have "fold proxy_received cs ([], []) = ([], [concat sends])"
    by (rule proxy_received_stream [OF assms(5) m]) (use st p in \<open>simp add: http_newline_def\<close>)
  moreover have "request_parts (concat sends) = (?line, b)"
  proof -
    have "take (length ?line + length b + 1) (concat sends) = ?line @ http_newline @ b"
      using st by (simp add: http_newline_def)
    then show ?thesis using m l by (simp add: request_parts_def first_line_line)
  qed
  then have "proxy_fetch env (concat sends) = Inr f"
    using assms(6) json_of_bytes_of_json [OF request_json_ok [OF assms(2)], of meth url body]
    by (simp add: proxy_fetch_def request_json_def get_or_def)
  then have r: "concat rs = bytes_of_json (fetched_json (ft_status f) (ft_reason f) (ft_headers f)) @ http_newline @ ft_content f"
    using assms(8) by (simp add: proxy_response_def)
  have "parse_response (concat rs) = Inr ([(''status_code'', JInt (ft_status f)), (''reason'', JStr (ft_reason f)),
      (''headers'', headers_json (ft_headers f))], ft_content f)"
    using first_line_line [OF bytes_of_json_line [OF fetched_json_ok [OF assms(7)]]]
      json_of_bytes_of_json [OF fetched_json_ok [OF assms(7)]]
    by (simp add: r parse_response_def fetched_json_def)
  moreover have "fold http_part rs h = h\<lparr>hw_parts := hw_parts h @ rs\<rparr>" for rs h
    by (induction rs arbitrary: h) (simp_all add: http_part_def)
  ultimately show ?thesis
    by (simp add: http_outcome_def http_lost_def new_http_wait_def http_response_of_def get_or_def)
qed

theorem http_roundtrip_witness:
  "let env = \<lparr>ht_fetch = \<lambda>m u h b. Inr \<lparr>ft_status = 200, ft_reason = ''OK'', ft_headers = [], ft_content = [1]\<rparr>,
              ht_text = \<lambda>e. []\<rparr>;
       sends = request_sends (request_json ''GET'' ''http://h/'' (Some []) (Some [7])) (Some [7])
   in fold proxy_received sends ([], []) = ([], [concat sends])
    \<and> http_outcome (http_lost None (fold http_part (proxy_response env (concat sends)) new_http_wait)) =
        Some (Inr \<lparr>rs_status = JInt 200, rs_reason = JStr ''OK'', rs_headers = headers_json [], rs_body = [1]\<rparr>)"
proof -
  let ?env = "\<lparr>ht_fetch = \<lambda>m u h b. Inr \<lparr>ft_status = 200, ft_reason = ''OK'', ft_headers = [], ft_content = [1]\<rparr>,
              ht_text = \<lambda>e. []\<rparr>"
  let ?sends = "request_sends (request_json ''GET'' ''http://h/'' (Some []) (Some [7])) (Some [7])"
  have "http_request True ''GET'' ''http://h/'' (Some []) (Some [7]) = Inr ?sends" by (simp add: http_request_def)
  moreover have "bfind (http_newline @ [7] @ end_marker) end_marker = Some (length [7 :: byte] + 1)" by code_simp
  ultimately show ?thesis
    using http_roundtrip [of "''GET''" "''http://h/''" "[]" "Some [7]" ?sends "[7]" ?sends ?env _ "proxy_response ?env (concat ?sends)"]
    by (simp add: Let_def)
qed

end
