(* ===== verification/File_Server.thy ===== *)
theory File_Server
  imports Http Posix_Path
begin

text \<open>
  \<^verbatim>\<open>src/wh/http/server.py\<close>: the file server that the browser extension talks to. A path is its text; the
  file system, the MIME table and the texts of exceptions are parameters.
\<close>

section \<open>The server\<close>

text \<open>
  \<^verbatim>\<open>pathlib\<close>: the parts of a relative path are what is between its slashes, without empty parts and dots,
  and \<^verbatim>\<open>/\<close> appends them to a directory.
\<close>

definition path_parts :: "string \<Rightarrow> string list" where
  "path_parts p = filter (\<lambda>c. c \<noteq> [] \<and> c \<noteq> ''.'') (split_on (CHR ''/'') p)"

definition below :: "string \<Rightarrow> string list \<Rightarrow> string" where
  "below d parts = (if parts = [] then d else path_join d (join_with ''/'' parts))"

record file_env =
  fe_is_file :: "string \<Rightarrow> bool"
  fe_exists :: "string \<Rightarrow> bool"
  fe_resolve :: "string \<Rightarrow> string result"
  fe_read :: "string \<Rightarrow> string result"
  fe_mime :: "string \<Rightarrow> string option"
  fe_text :: "exn \<Rightarrow> string"

definition page :: "int \<Rightarrow> (string \<times> jval) list \<Rightarrow> string \<Rightarrow> jval" where
  "page status headers body =
     JObj [(''status_code'', JInt status), (''headers'', JObj headers), (''body'', JStr body)]"

definition error_page :: "int \<Rightarrow> string \<Rightarrow> string \<Rightarrow> jval" where
  "error_page status reason message =
     page status [(''Content-Type'', JStr ''text/html'')]
       (''<html><body><h1>'' @ show_int status @ '' '' @ reason @ ''</h1><p>'' @ message @ ''</p></body></html>'')"

text \<open>The candidates for a path, in their order; the path itself when none of them is a file.\<close>

definition clean_path :: "string \<Rightarrow> string" where
  "clean_path path =
     (let p = dropWhile (\<lambda>c. c = CHR ''/'') (hd (split_on (CHR ''?'') path)) in if p = [] then ''index.html'' else p)"

definition requested_file :: "file_env \<Rightarrow> string \<Rightarrow> string \<Rightarrow> string" where
  "requested_file env root path =
     (let p = clean_path path; exact = below root (path_parts p); html = below root (path_parts (p @ ''.html''));
          index = below root (path_parts p @ [''index.html''])
      in if fe_is_file env exact then exact
         else if fe_is_file env html then html
         else if fe_is_file env index then index
         else exact)"

definition serve_path :: "file_env \<Rightarrow> string \<Rightarrow> string \<Rightarrow> jval result" where
  "serve_path env root path =
     (case fe_resolve env (requested_file env root path) of
        Inl e \<Rightarrow> Inl e
      | Inr f \<Rightarrow>
          if \<not> startswith f root then Inr (error_page 403 ''Forbidden'' ''Path traversal not allowed'')
          else if \<not> fe_exists env f then Inr (error_page 404 ''Not Found'' (''File not found: '' @ path))
          else if \<not> fe_is_file env f then Inr (error_page 403 ''Forbidden'' ''Not a file'')
          else
            (case fe_read env f of
               Inl e \<Rightarrow> Inl e
             | Inr content \<Rightarrow>
                 Inr (page 200
                   [(''Content-Type'', JStr (case fe_mime env f of None \<Rightarrow> ''text/html'' | Some t \<Rightarrow> t)),
                    (''Content-Length'', JStr (show_int (int (length content))))] content)))"

text \<open>\<^verbatim>\<open>_handle_http_request\<close>: a path that is no text has no \<^verbatim>\<open>split\<close>.\<close>

definition handle_http_request :: "file_env \<Rightarrow> string \<Rightarrow> jdict \<Rightarrow> jval" where
  "handle_http_request env root request =
     (case (case get_or request ''path'' (JStr ''/'') of
              JStr path \<Rightarrow> serve_path env root path
            | _ \<Rightarrow> Inl AttributeError) of
        Inr r \<Rightarrow> r
      | Inl e \<Rightarrow> error_page 500 ''Internal Server Error'' (fe_text env e))"

text \<open>
  One turn of \<^verbatim>\<open>run\<close> with what \<^verbatim>\<open>receive_message\<close> gave: the message that is sent, if any, and whether the loop
  goes on.
\<close>

definition file_server_reply :: "file_env \<Rightarrow> string \<Rightarrow> bytes \<Rightarrow> jval" where
  "file_server_reply env root msg =
     (case decode_utf8 msg of
        None \<Rightarrow> error_page 500 ''Internal Server Error'' (fe_text env ValueError)
      | Some t \<Rightarrow>
          (case json_loads t of
             Inl e \<Rightarrow> error_page 400 ''Bad Request'' (''Invalid JSON: '' @ fe_text env e)
           | Inr (JObj request) \<Rightarrow>
               if dget request ''type'' = Some (JStr ''http_request'') then handle_http_request env root request
               else error_page 400 ''Bad Request'' ''Unknown request type''
           | Inr _ \<Rightarrow> error_page 500 ''Internal Server Error'' (fe_text env AttributeError)))"

definition file_server_turn :: "file_env \<Rightarrow> string \<Rightarrow> bytes option result \<Rightarrow> bytes option \<times> bool" where
  "file_server_turn env root r =
     (case r of
        Inl e \<Rightarrow> (Some (bytes_of_json (error_page 500 ''Internal Server Error'' (fe_text env e))), True)
      | Inr None \<Rightarrow> (None, False)
      | Inr (Some msg) \<Rightarrow> (Some (bytes_of_json (file_server_reply env root msg)), True))"

section \<open>What is served\<close>

text \<open>The status of a page.\<close>

definition page_field :: "string \<Rightarrow> jval \<Rightarrow> jval option" where
  "page_field k v = (case v of JObj d \<Rightarrow> dget d k | _ \<Rightarrow> None)"

lemma page_fields [simp]:
  "page_field ''status_code'' (page s h b) = Some (JInt s)" "page_field ''body'' (page s h b) = Some (JStr b)"
  "page_field ''headers'' (page s h b) = Some (JObj h)" "page_field ''status_code'' (error_page s r m) = Some (JInt s)"
  by (simp_all add: page_field_def page_def error_page_def)

lemma error_page_ok [simp]: "json_ok (error_page s r m)"
  by (simp add: error_page_def page_def)

text \<open>
  What a served file must be: the path that the message asks for, its candidate resolved to \<^verbatim>\<open>f\<close>, with the
  text of the root at the start of the resolved path, a regular file, and \<^verbatim>\<open>content\<close> read from there.
\<close>

definition asked_path :: "bytes \<Rightarrow> string option" where
  "asked_path msg =
     (case decode_utf8 msg of
        None \<Rightarrow> None
      | Some t \<Rightarrow>
          (case json_loads t of
             Inr (JObj request) \<Rightarrow>
               if dget request ''type'' = Some (JStr ''http_request'') then
                 (case get_or request ''path'' (JStr ''/'') of JStr path \<Rightarrow> Some path | _ \<Rightarrow> None)
               else None
           | _ \<Rightarrow> None))"

definition served_from :: "file_env \<Rightarrow> string \<Rightarrow> bytes \<Rightarrow> string \<Rightarrow> string \<Rightarrow> bool" where
  "served_from env root msg f content \<longleftrightarrow>
     (\<exists>path. asked_path msg = Some path \<and> fe_resolve env (requested_file env root path) = Inr f)
     \<and> startswith f root \<and> fe_exists env f \<and> fe_is_file env f \<and> fe_read env f = Inr content"

definition file_page :: "file_env \<Rightarrow> string \<Rightarrow> string \<Rightarrow> jval" where
  "file_page env f content =
     page 200
       [(''Content-Type'', JStr (case fe_mime env f of None \<Rightarrow> ''text/html'' | Some t \<Rightarrow> t)),
        (''Content-Length'', JStr (show_int (int (length content))))] content"

definition is_error :: "jval \<Rightarrow> bool" where
  "is_error v \<longleftrightarrow> json_ok v \<and> page_field ''status_code'' v \<noteq> Some (JInt 200)"

lemma error_page_is_error [simp]: "is_error (error_page s r m) \<longleftrightarrow> s \<noteq> 200"
  by (simp add: is_error_def)

lemma serve_path_page:
  assumes "serve_path env root path = Inr v" "asked_path msg = Some path"
  shows "is_error v \<and> \<not> (\<exists>f content. served_from env root msg f content)
     \<or> (\<exists>f content. v = file_page env f content \<and> served_from env root msg f content)"
  using assms
  by (auto simp: serve_path_def served_from_def file_page_def split: sum.splits if_splits)

lemma serve_path_fails:
  "serve_path env root path = Inl e \<Longrightarrow> asked_path msg = Some path \<Longrightarrow> \<not> served_from env root msg f content"
  by (auto simp: serve_path_def served_from_def split: sum.splits if_splits)

lemma reply_of_request:
  "asked_path msg = Some path \<Longrightarrow>
   file_server_reply env root msg =
     (case serve_path env root path of Inr v \<Rightarrow> v | Inl e \<Rightarrow> error_page 500 ''Internal Server Error'' (fe_text env e))"
  by (auto simp: asked_path_def file_server_reply_def handle_http_request_def
      split: option.splits sum.splits jval.splits if_splits)

lemma reply_of_no_request: "asked_path msg = None \<Longrightarrow> is_error (file_server_reply env root msg)"
  by (auto simp: asked_path_def file_server_reply_def handle_http_request_def
      split: option.splits sum.splits jval.splits if_splits)

text \<open>Every reply is an error page or the page of the file that the message asks for.\<close>

lemma file_server_reply_cases:
  "is_error (file_server_reply env root msg) \<and> \<not> (\<exists>f content. served_from env root msg f content)
   \<or> (\<exists>f content. file_server_reply env root msg = file_page env f content \<and> served_from env root msg f content)"
proof (cases "asked_path msg")
  case None
  then show ?thesis using reply_of_no_request [OF None] by (auto simp: served_from_def)
next
  case (Some path)
  show ?thesis
  proof (cases "serve_path env root path")
    case (Inl e)
    then show ?thesis using serve_path_fails [OF Inl Some] reply_of_request [OF Some] Inl by auto
  next
    case (Inr v)
    then show ?thesis using serve_path_page [OF Inr Some] reply_of_request [OF Some] by auto
  qed
qed

lemma file_page_ok [simp]: "json_ok (file_page env f content)"
  by (simp add: file_page_def page_def)

text \<open>
  C23. Whatever bytes arrive, the file server answers them with exactly one JSON text, which reads back,
  and goes on. The answer is a page with status 200 exactly when the message is a request for a path whose
  candidate under the root resolves to a path that begins with the text of the root and is a regular file
  that can be read; and then its body is what is read at the resolved path, with its MIME type and its length.
\<close>

theorem file_server_confined:
  "\<exists>v. file_server_turn env root (Inr (Some msg)) = (Some (bytes_of_json v), True)
     \<and> json_of_bytes (bytes_of_json v) = Inr v
     \<and> (page_field ''status_code'' v = Some (JInt 200) \<longleftrightarrow> (\<exists>f content. served_from env root msg f content))
     \<and> (\<forall>f content. served_from env root msg f content \<longrightarrow> v = file_page env f content)"
proof -
  let ?v = "file_server_reply env root msg"
  have unique: "f' = f \<and> c' = c" if "served_from env root msg f c" "served_from env root msg f' c'" for f c f' c'
    using that by (auto simp: served_from_def)
  have "json_ok ?v" using file_server_reply_cases [of env root msg] by (auto simp: is_error_def)
  then have "json_of_bytes (bytes_of_json ?v) = Inr ?v" by (rule json_of_bytes_of_json)
  moreover have "page_field ''status_code'' ?v = Some (JInt 200) \<longleftrightarrow> (\<exists>f content. served_from env root msg f content)"
    using file_server_reply_cases [of env root msg] by (auto simp: file_page_def is_error_def)
  moreover have "\<forall>f content. served_from env root msg f content \<longrightarrow> ?v = file_page env f content"
    using file_server_reply_cases [of env root msg] unique by metis
  ultimately show ?thesis by (auto simp: file_server_turn_def)
qed

text \<open>A file system for examples: texts by path, no links.\<close>

definition plain_files :: "(string, string) dict \<Rightarrow> file_env" where
  "plain_files fs =
     \<lparr>fe_is_file = \<lambda>p. has_key fs (normpath p), fe_exists = \<lambda>p. has_key fs (normpath p), fe_resolve = \<lambda>p. Inr (normpath p),
      fe_read = \<lambda>p. (case dget fs (normpath p) of None \<Rightarrow> Inl OSError | Some t \<Rightarrow> Inr t), fe_mime = \<lambda>p. None,
      fe_text = \<lambda>e. []\<rparr>"

theorem file_server_confined_witness:
  "file_server_turn (plain_files [(''/s/a.html'', ''hi'')]) ''/s''
      (Inr (Some (lit ''{\"type\": \"http_request\", \"path\": \"/a?x\"}'')))
    = (Some (bytes_of_json (page 200 [(''Content-Type'', JStr ''text/html''), (''Content-Length'', JStr ''2'')] ''hi'')), True)
  \<and> page_field ''status_code'' (file_server_reply (plain_files [(''/etc/a'', ''hi'')]) ''/s''
      (lit ''{\"type\": \"http_request\", \"path\": \"/../etc/a\"}'')) \<noteq> Some (JInt 200)"
proof -
  let ?env = "plain_files [(''/s/a.html'', ''hi'')]" and ?env' = "plain_files [(''/etc/a'', ''hi'')]"
  let ?msg = "lit ''{\"type\": \"http_request\", \"path\": \"/a?x\"}''"
  let ?msg' = "lit ''{\"type\": \"http_request\", \"path\": \"/../etc/a\"}''"
  have a: "asked_path ?msg = Some ''/a?x''" "fe_resolve ?env (requested_file ?env ''/s'' ''/a?x'') = Inr ''/s/a.html''"
    "startswith ''/s/a.html'' ''/s''" "fe_exists ?env ''/s/a.html''" "fe_is_file ?env ''/s/a.html''"
    "fe_read ?env ''/s/a.html'' = Inr ''hi''" "show_int (int (length ''hi'')) = ''2''" "fe_mime ?env ''/s/a.html'' = None"
    by code_simp+
  then have s: "served_from ?env ''/s'' ?msg ''/s/a.html'' ''hi''" unfolding served_from_def by blast
  have "file_server_turn ?env ''/s'' (Inr (Some ?msg)) = (Some (bytes_of_json (file_page ?env ''/s/a.html'' ''hi'')), True)"
    using file_server_confined [of ?env "''/s''" ?msg] s by blast
  moreover have b: "asked_path ?msg' = Some ''/../etc/a''"
    "fe_resolve ?env' (requested_file ?env' ''/s'' ''/../etc/a'') = Inr ''/etc/a''" "\<not> startswith ''/etc/a'' ''/s''"
    by code_simp+
  then have n: "\<not> (\<exists>f content. served_from ?env' ''/s'' ?msg' f content)" by (auto simp: served_from_def)
  have "page_field ''status_code'' (file_server_reply ?env' ''/s'' ?msg') \<noteq> Some (JInt 200)"
    using file_server_reply_cases [of ?env' "''/s''" ?msg'] n by (auto simp: is_error_def)
  ultimately show ?thesis using a(7,8) by (simp add: file_page_def)
qed

text \<open>Its own directory is served; so is a neighbour whose name begins with the name of the root.\<close>

lemma neighbour_served:
  "serve_path (plain_files [(''/srv/public/x'', ''secret'')]) ''/srv/pub'' ''/../public/x'' =
    Inr (page 200 [(''Content-Type'', JStr ''text/html''), (''Content-Length'', JStr ''6'')] ''secret'')"
  by code_simp

end
