(* ===== verification/Console.thy ===== *)
theory Console
  imports Json_Text
begin

text \<open>
  What the commands of the program have in common: the lines they print (the progress messages on standard
  error are left out), and the ways they end.
\<close>

text \<open>
  A command returns, raises a \<^verbatim>\<open>ClickException\<close> with its message, prints an error and leaves with status 1,
  or ends with another exception.
\<close>

datatype ending = Completed | ClickError string | ExitError string | Crashed exn

type_synonym console = "string list \<times> ending"

definition says :: "string list \<Rightarrow> 's \<Rightarrow> console \<times> 's" where
  "says ls s = ((ls, Completed), s)"

definition fails :: "string \<Rightarrow> 's \<Rightarrow> console \<times> 's" where
  "fails msg s = (([], ClickError msg), s)"

definition crashes :: "exn \<Rightarrow> 's \<Rightarrow> console \<times> 's" where
  "crashes e s = (([], Crashed e), s)"

definition exits :: "string \<Rightarrow> 's \<Rightarrow> console \<times> 's" where
  "exits msg s = (([], ExitError msg), s)"

lemmas console_defs = says_def fails_def crashes_def exits_def

definition ljust :: "nat \<Rightarrow> string \<Rightarrow> string" where
  "ljust n s = s @ replicate (n - length s) (CHR '' '')"

definition or_text :: "string option \<Rightarrow> string \<Rightarrow> string" where
  "or_text x d = (if truthy x then the x else d)"

definition opt_line :: "string \<Rightarrow> string option \<Rightarrow> string list" where
  "opt_line label x = (if truthy x then [label @ the x] else [])"

definition quoted :: "string \<Rightarrow> string" where
  "quoted s = CHR 0x27 # s @ [CHR 0x27]"

definition name_line :: "string option \<Rightarrow> string list" where
  "name_line x = (if truthy x then [''Name: '' @ the x] else [])"

end
