(* ===== verification/Wns_Cli.thy ===== *)
theory Wns_Cli
  imports Discovery Aliases Console
begin

text \<open>
  \<^verbatim>\<open>src/wh/wns/cli.py\<close>: the commands for identities, global names and aliases. A command is a function
  of the files below \<^verbatim>\<open>~/.wh\<close>; its result is what it prints, how it ends, and the files after it. The
  answer to a question, the clock and the random seed are arguments.
\<close>

section \<open>Identities\<close>

text \<open>Nearly all commands start with an identity that must exist.\<close>

definition with_identity ::
  "nacl \<Rightarrow> string \<Rightarrow> (identity \<Rightarrow> wh_home \<Rightarrow> console \<times> wh_home) \<Rightarrow> wh_home \<Rightarrow> console \<times> wh_home" where
  "with_identity nc a k home =
     (case load_identity nc (hm_ids home) a of
        Inl e \<Rightarrow> crashes e home
      | Inr None \<Rightarrow> fails (''Identity not found: '' @ a) home
      | Inr (Some i) \<Rightarrow> k i home)"

definition set_ids :: "identity_store \<Rightarrow> wh_home \<Rightarrow> wh_home" where
  "set_ids s home = home\<lparr>hm_ids := s\<rparr>"

definition identity_create :: "nacl \<Rightarrow> string \<Rightarrow> bytes \<Rightarrow> string option \<Rightarrow> wh_home \<Rightarrow> console \<times> wh_home" where
  "identity_create nc base seed name home =
     (case generate_identity nc seed name of
        Inl e \<Rightarrow> crashes e home
      | Inr i \<Rightarrow>
          says ([''Created: '' @ id_full_address i] @ name_line name
              @ [''Keys saved to: '' @ base @ ''/identity/'' @ id_address i @ ''/'', [],
                 ''Share this address with clients who want to connect to you.'',
                 ''Keep your private key safe - it cannot be recovered if lost.''])
            (set_ids (save_identity i (hm_ids home)) home))"

definition no_identities :: "string list" where
  "no_identities = [''No identities found.'', ''Create one with: wh identity create'']"

definition identity_row :: "string option \<Rightarrow> identity \<Rightarrow> string" where
  "identity_row dflt i =
     (let d = (Some (id_address i) = dflt) in
      (if d then ''*'' else '' '') @ '' '' @ ljust 28 (id_address i) @ '' '' @ or_text (id_name i) ''(unnamed)''
        @ (if d then '' (default)'' else []))"

definition identity_list :: "nacl \<Rightarrow> wh_home \<Rightarrow> console \<times> wh_home" where
  "identity_list nc home =
     (case list_identities nc (hm_ids home) of
        Inl e \<Rightarrow> crashes e home
      | Inr is \<Rightarrow>
          if is = [] then says no_identities home
          else
            says ([''  '' @ ljust 28 ''ADDRESS'' @ '' NAME'', replicate 52 (CHR ''-'')]
              @ map (identity_row (get_default_identity_address (hm_ids home))) is) home)"

definition identity_default :: "nacl \<Rightarrow> wh_home \<Rightarrow> console \<times> wh_home" where
  "identity_default nc home =
     (case get_default_identity nc (hm_ids home) of
        Inl e \<Rightarrow> crashes e home
      | Inr None \<Rightarrow> says no_identities home
      | Inr (Some i) \<Rightarrow>
          if truthy (get_default_identity_address (hm_ids home))
          then says ([''Default identity: '' @ id_full_address i] @ name_line (id_name i)) home
          else says ([''No default identity set (using first identity)'', ''Current: '' @ id_full_address i]
                 @ name_line (id_name i) @ [[], ''Set a default with: wh identity set-default <address>'']) home)"

definition identity_set_default :: "nacl \<Rightarrow> string \<Rightarrow> wh_home \<Rightarrow> console \<times> wh_home" where
  "identity_set_default nc a home =
     (case set_default_identity nc a (hm_ids home) of
        Inl e \<Rightarrow> crashes e home
      | Inr (False, _) \<Rightarrow> fails (''Identity not found: '' @ a) home
      | Inr (True, s) \<Rightarrow>
          (case load_identity nc s a of
             Inl e \<Rightarrow> crashes e (set_ids s home)
           | Inr None \<Rightarrow> crashes AttributeError (set_ids s home)
           | Inr (Some i) \<Rightarrow>
               says ([''Default set: '' @ id_full_address i] @ name_line (id_name i)) (set_ids s home)))"

definition identity_clear_default :: "wh_home \<Rightarrow> console \<times> wh_home" where
  "identity_clear_default home =
     says [''Default cleared. First identity will be used.''] (set_ids (clear_default_identity (hm_ids home)) home)"

definition identity_show :: "nacl \<Rightarrow> string \<Rightarrow> wh_home \<Rightarrow> console \<times> wh_home" where
  "identity_show nc a =
     with_identity nc a (\<lambda>i.
       says ([''Address: '' @ id_full_address i]
         @ (case id_full_scoped_address i of None \<Rightarrow> [] | Some u \<Rightarrow> [''Scoped address: '' @ u])
         @ [''Name: '' @ or_text (id_name i) ''(unnamed)'']
         @ (if truthy (id_scoped i) then [''Scoped name: '' @ the (id_scoped i)] else [])
         @ [''Public key: '' @ b64encode (public_key i),
            ''Has private key: '' @ (if can_sign i then ''yes'' else ''no'')]))"

text \<open>The question is asked unless \<^verbatim>\<open>--yes\<close> is given.\<close>

definition identity_delete :: "nacl \<Rightarrow> bool \<Rightarrow> bool \<Rightarrow> string \<Rightarrow> wh_home \<Rightarrow> console \<times> wh_home" where
  "identity_delete nc yes answer a =
     with_identity nc a (\<lambda>i home.
       let ask = (if yes then []
                  else [''WARNING: This will permanently delete the identity and private key.'',
                        ''Address: '' @ id_full_address i])
       in if \<not> yes \<and> \<not> answer then says (ask @ [''Cancelled.'']) home
          else
            (case delete_identity a (hm_ids home) of
               (True, s) \<Rightarrow> says (ask @ [''Deleted.'']) (set_ids s home)
             | (False, s) \<Rightarrow> ((ask, ClickError ''Failed to delete identity''), set_ids s home)))"

definition export_json :: "identity \<Rightarrow> jval" where
  "export_json i =
     JObj [(''address'', JStr (id_address i)), (''full_address'', JStr (id_full_address i)),
       (''public_key'', JStr (b64encode (public_key i))), (''name'', opt_jstr (id_name i))]"

text \<open>
  The text goes to the console or to a file; the second result is the file that was written. An
  exception of \<^verbatim>\<open>open\<close> or \<^verbatim>\<open>write\<close> is given as an argument.
\<close>

definition identity_export ::
  "nacl \<Rightarrow> string option \<Rightarrow> exn option \<Rightarrow> string \<Rightarrow> wh_home \<Rightarrow> (console \<times> wh_home) \<times> (string \<times> string) option" where
  "identity_export nc output broken a home =
     (case load_identity nc (hm_ids home) a of
        Inr (Some i) \<Rightarrow>
          (let text = json_dumps (Some 2) (export_json i) in
           if truthy output then
             (case broken of
                Some e \<Rightarrow> (crashes e home, None)
              | None \<Rightarrow> (says [''Exported to: '' @ the output] home, Some (the output, text)))
           else (says [text] home, None))
      | _ \<Rightarrow> (with_identity nc a (\<lambda>i. says []) home, None))"

definition identity_set_name :: "nacl \<Rightarrow> string \<Rightarrow> string \<Rightarrow> wh_home \<Rightarrow> console \<times> wh_home" where
  "identity_set_name nc a scoped =
     with_identity nc a (\<lambda>i home.
       if \<not> dashed_alnum scoped then
         fails ''Invalid scoped name. Use alphanumeric characters, dashes, or underscores.'' home
       else if 32 < length scoped then fails ''Scoped name must be 32 characters or less.'' home
       else
         (let j = i\<lparr>id_scoped := Some (lower scoped)\<rparr> in
          says [''Scoped name set: '' @ or_text (id_full_scoped_address j) ''None'', [],
              ''Clients can now connect using this address.'',
              ''The scoped name will be published in your code advertisements.'']
            (set_ids (save_identity j (hm_ids home)) home)))"

text \<open>\<^verbatim>\<open>import\<close>, given the text of the file.\<close>

definition identity_import :: "string \<Rightarrow> string \<Rightarrow> wh_home \<Rightarrow> console \<times> wh_home" where
  "identity_import base text home =
     (case json_loads text of
        Inl e \<Rightarrow> crashes e home
      | Inr (JObj d) \<Rightarrow>
          (case jbytes d ''public_key'' of
             Inl e \<Rightarrow> crashes e home
           | Inr vk \<Rightarrow>
               (case from_public_key vk of
                  Inl e \<Rightarrow> crashes e home
                | Inr i0 \<Rightarrow>
                    (let i = i0\<lparr>id_name := jopt_str d ''name''\<rparr> in
                     says ([''Added to known hosts: '' @ id_full_address i] @ name_line (id_name i)
                         @ [''Saved to: '' @ base @ ''/known_hosts/'' @ id_address i @ ''.json''])
                       (set_ids (save_known_host i (hm_ids home)) home))))
      | Inr _ \<Rightarrow> crashes TypeError home)"

section \<open>Global names\<close>

definition claim_lines :: "name_claim \<Rightarrow> string list" where
  "claim_lines c =
     [''Claimed: wh://'' @ cl_name c @ ''.wns -> '' @ cl_address c, [],
      ''Note: This claim is stored locally. To publish it to the DHT,'',
      ''run '' @ [CHR 0x27] @ ''wh serve'' @ [CHR 0x27] @ '' which will automatically publish your name claims.'', [],
      ''Claim expires: '' @ isoformat (cl_expires c), ''Run this command again to renew the claim before expiry.'']"

definition claim_with :: "nacl \<Rightarrow> datetime \<Rightarrow> string \<Rightarrow> identity \<Rightarrow> wh_home \<Rightarrow> console \<times> wh_home" where
  "claim_with nc now nm i home =
     (case create_claim nc now i nm name_claim_ttl_seconds of
        Inl e \<Rightarrow> crashes e home
      | Inr c \<Rightarrow> says (claim_lines c) (home\<lparr>hm_claims := save_claim c (hm_claims home)\<rparr>))"

definition identity_claim_name ::
  "nacl \<Rightarrow> datetime \<Rightarrow> string \<Rightarrow> string option \<Rightarrow> wh_home \<Rightarrow> console \<times> wh_home" where
  "identity_claim_name nc now nm a home =
     (if \<not> is_valid_global_name nm then
        fails (''Invalid name: '' @ nm @ ''. Use alphanumeric characters, dashes, or underscores. ''
          @ ''Max 32 characters. Cannot be a reserved name.'') home
      else if truthy a then with_identity nc (the a) (claim_with nc now nm) home
      else
        (case get_default_identity nc (hm_ids home) of
           Inl e \<Rightarrow> crashes e home
         | Inr None \<Rightarrow> fails ''No identity found. Create one with: wh identity create'' home
         | Inr (Some i) \<Rightarrow> claim_with nc now nm i home))"

text \<open>The rows of \<^verbatim>\<open>list-names\<close> up to a claim whose time cannot be compared; \<^verbatim>\<open>days\<close> prints seconds as days.\<close>

fun claim_rows :: "(int \<Rightarrow> string) \<Rightarrow> datetime \<Rightarrow> name_claim list \<Rightarrow> console" where
  "claim_rows days now [] = ([], Completed)"
| "claim_rows days now (c # cs) =
     (case claim_is_expired now c of
        Inl e \<Rightarrow> ([], Crashed e)
      | Inr expired \<Rightarrow>
          (case (if expired then Inr ''EXPIRED''
                 else map_sum id (\<lambda>s. days s @ '' days remaining'') (claim_time_remaining now c)) of
             Inl e \<Rightarrow> ([], Crashed e)
           | Inr status \<Rightarrow>
               apfst ((#) (ljust 16 (cl_name c) @ '' '' @ ljust 28 (cl_address c) @ '' '' @ status)) (claim_rows days now cs)))"

definition identity_list_names :: "(int \<Rightarrow> string) \<Rightarrow> datetime \<Rightarrow> wh_home \<Rightarrow> console \<times> wh_home" where
  "identity_list_names days now home =
     (let cs = list_claims (hm_claims home) in
      if cs = [] then says [''No names claimed.'', ''Claim one with: wh identity claim-name <name>''] home
      else
        (apfst (\<lambda>ls. [ljust 16 ''NAME'' @ '' '' @ ljust 28 ''ADDRESS'' @ '' STATUS'', replicate 60 (CHR ''-'')] @ ls)
           (claim_rows days now cs), home))"

definition identity_release_name :: "bool \<Rightarrow> bool \<Rightarrow> string \<Rightarrow> wh_home \<Rightarrow> console \<times> wh_home" where
  "identity_release_name yes answer nm home =
     (case load_claim (hm_claims home) nm of
        Inl e \<Rightarrow> crashes e home
      | Inr None \<Rightarrow> fails (''Name not found: '' @ nm) home
      | Inr (Some c) \<Rightarrow>
          (let ask = (if yes then [] else [''This will release the name claim for: wh://'' @ cl_name c @ ''.wns'']) in
           if \<not> yes \<and> \<not> answer then says (ask @ [''Cancelled.'']) home
           else says (ask @ [''Released: '' @ nm]) (home\<lparr>hm_claims := snd (delete_claim nm (hm_claims home))\<rparr>)))"

section \<open>Aliases\<close>

text \<open>The text of the \<^verbatim>\<open>ValueError\<close> that \<^verbatim>\<open>add\<close> raises.\<close>

definition alias_error :: "string \<Rightarrow> string \<Rightarrow> string" where
  "alias_error name address =
     (if \<not> dashed_alnum name then ''Invalid alias name: '' @ name @ ''. Use alphanumeric, dash, or underscore.''
      else if parse_wns_address (full_wns address) = None then ''Invalid WNS address: '' @ full_wns address
      else ''Alias '' @ [CHR 0x27] @ name @ [CHR 0x27] @ '' already exists. Use --force to overwrite.'')"

definition alias_add ::
  "string \<Rightarrow> string \<Rightarrow> string option \<Rightarrow> string option \<Rightarrow> bool \<Rightarrow> alias_store \<Rightarrow> console \<times> alias_store" where
  "alias_add name address desc user force s =
     (case add_alias name address desc user force s of
        (Inl _, s') \<Rightarrow> fails (alias_error name address) s'
      | (Inr _, s') \<Rightarrow>
          (case get_alias s' name of
             None \<Rightarrow> crashes AttributeError s'
           | Some a \<Rightarrow>
               says ([''Added: '' @ name @ '' -> '' @ al_address a] @ opt_line ''Description: '' desc
                 @ opt_line ''Default username: '' user) s'))"

definition alias_remove :: "string \<Rightarrow> alias_store \<Rightarrow> console \<times> alias_store" where
  "alias_remove name s =
     (case remove_alias name s of
        (False, s') \<Rightarrow> fails (''Alias not found: '' @ name) s'
      | (True, s') \<Rightarrow> says [''Removed: '' @ name] s')"

definition alias_desc :: "wns_alias \<Rightarrow> string" where
  "alias_desc a =
     (let d = or_text (al_description a) [] in
      if truthy (al_username a) then strip (''['' @ the (al_username a) @ ''@] '' @ d) else d)"

definition alias_list :: "alias_store \<Rightarrow> console \<times> alias_store" where
  "alias_list s =
     (let as = dvalues (aliases s) in
      if as = [] then says [''No aliases defined.'', ''Add one with: wh alias add <name> <address>''] s
      else
        (let nw = fold max (map (\<lambda>a. length (al_name a)) as) 4; aw = fold max (map (\<lambda>a. length (al_address a)) as) 7 in
         says ([ljust nw ''NAME'' @ ''  '' @ ljust aw ''ADDRESS'' @ ''  DESCRIPTION'', replicate (nw + aw + 20) (CHR ''-'')]
           @ map (\<lambda>a. ljust nw (al_name a) @ ''  '' @ ljust aw (al_address a) @ ''  '' @ alias_desc a) as) s))"

definition alias_show :: "string \<Rightarrow> alias_store \<Rightarrow> console \<times> alias_store" where
  "alias_show name s =
     (case get_alias s name of
        None \<Rightarrow> fails (''Alias not found: '' @ name) s
      | Some a \<Rightarrow>
          says ([''Name: '' @ al_name a, ''Address: '' @ al_address a] @ opt_line ''Description: '' (al_description a)
            @ opt_line ''Default username: '' (al_username a)) s)"

definition alias_resolve :: "string \<Rightarrow> alias_store \<Rightarrow> console \<times> alias_store" where
  "alias_resolve name s =
     (let r = resolve_alias s name in
      if truthy r then says [the r] s else fails (''Could not resolve: '' @ name) s)"

section \<open>What the commands keep\<close>

text \<open>A command line of this file that changes the files below \<^verbatim>\<open>~/.wh\<close>, with the answers it is given.\<close>

datatype wns_command =
    CreateCmd string bytes "string option"
  | SetDefaultCmd string
  | ClearDefaultCmd
  | DeleteCmd bool bool string
  | SetNameCmd string string
  | ImportCmd string string
  | ClaimCmd datetime string "string option"
  | ReleaseCmd bool bool string

fun run_wns_command :: "nacl \<Rightarrow> wns_command \<Rightarrow> wh_home \<Rightarrow> console \<times> wh_home" where
  "run_wns_command nc (CreateCmd base seed name) home = identity_create nc base seed name home"
| "run_wns_command nc (SetDefaultCmd a) home = identity_set_default nc a home"
| "run_wns_command nc ClearDefaultCmd home = identity_clear_default home"
| "run_wns_command nc (DeleteCmd yes answer a) home = identity_delete nc yes answer a home"
| "run_wns_command nc (SetNameCmd a nm) home = identity_set_name nc a nm home"
| "run_wns_command nc (ImportCmd base text) home = identity_import base text home"
| "run_wns_command nc (ClaimCmd now nm a) home = identity_claim_name nc now nm a home"
| "run_wns_command nc (ReleaseCmd yes answer nm) home = identity_release_name yes answer nm home"

text \<open>Every identity file holds a well-formed identity of its own address, and every known host its own key.\<close>

definition home_ok :: "nacl \<Rightarrow> wh_home \<Rightarrow> bool" where
  "home_ok nc home \<longleftrightarrow> store_ok nc (hm_ids home) \<and> hosts_ok (hm_ids home)"

lemma hosts_ok_same: "known_hosts s' = known_hosts s \<Longrightarrow> hosts_ok s' = hosts_ok s"
  by (simp add: hosts_ok_def load_known_host_def)

lemma hosts_ok_save [simp]: "hosts_ok (save_identity i s) = hosts_ok s"
  by (rule hosts_ok_same) (simp add: save_identity_def)

lemma store_ok_same: "identity_files s' = identity_files s \<Longrightarrow> store_ok nc s' = store_ok nc s"
  by (simp add: store_ok_def)

lemma config_ok [simp]:
  "store_ok nc (s\<lparr>id_config := c\<rparr>) = store_ok nc s" "hosts_ok (s\<lparr>id_config := c\<rparr>) = hosts_ok s"
  by (simp_all add: store_ok_def hosts_ok_def load_known_host_def)

lemma files_hosts_ok [simp]: "hosts_ok (s\<lparr>identity_files := f\<rparr>) = hosts_ok s"
  by (simp add: hosts_ok_def load_known_host_def)

lemma loaded_wf:
  assumes "store_ok nc s" "load_identity nc s a = Inr (Some i)"
  shows "wf_identity nc i \<and> id_address i = a"
proof -
  have "dget (identity_files s) a \<noteq> None" using assms(2) by (auto simp: load_identity_def split: option.splits)
  then have "a \<in> set (dkeys (identity_files s))" by (simp add: map_of_eq_None_iff)
  then show ?thesis using store_ok_load [OF assms(1)] assms(2) by (metis Inr_inject option.inject)
qed

lemma load_named_host:
  assumes "from_public_key vk = Inr i"
  shows "load_known_host (save_known_host (i\<lparr>id_name := n\<rparr>) s) a =
     (if a = derive_address vk then Inr (Some (i\<lparr>id_name := n\<rparr>)) else load_known_host s a)"
  using assms
  by (cases n) (auto simp: load_known_host_def save_known_host_def from_public_key_def jbytes_def jstr_def jopt_str_def
      public_key_def opt_jstr_def split: if_splits)

lemma hosts_ok_import:
  assumes "hosts_ok s" "from_public_key vk = Inr i"
  shows "hosts_ok (save_known_host (i\<lparr>id_name := n\<rparr>) s)"
proof -
  have a: "id_address i = derive_address vk" "public_key i = vk"
    using assms(2) by (auto simp: from_public_key_def public_key_def split: if_splits)
  have k: "has_key (known_hosts (save_known_host (i\<lparr>id_name := n\<rparr>) s)) b \<longleftrightarrow> b = derive_address vk \<or> has_key (known_hosts s) b" for b
    using a by (auto simp: save_known_host_def has_key_iff)
  show ?thesis
    unfolding hosts_ok_iff
  proof (intro allI impI)
    fix b assume "has_key (known_hosts (save_known_host (i\<lparr>id_name := n\<rparr>) s)) b"
    then have "b = derive_address vk \<or> has_key (known_hosts s) b" using k by blast
    then show "\<exists>k. load_known_host (save_known_host (i\<lparr>id_name := n\<rparr>) s) b = Inr (Some k) \<and> derive_address (public_key k) = b"
      using assms(1) load_named_host [OF assms(2), of n s b] a unfolding hosts_ok_iff
      by (cases "b = derive_address vk") (auto simp: public_key_def)
  qed
qed

lemma with_identity_cases:
  "with_identity nc a k home = (case load_identity nc (hm_ids home) a of Inr (Some i) \<Rightarrow> k i home
     | Inr None \<Rightarrow> fails (''Identity not found: '' @ a) home | Inl e \<Rightarrow> crashes e home)"
  by (auto simp: with_identity_def split: sum.split option.split)

text \<open>A command that does not finish leaves the files as they were.\<close>

lemma unfinished_command:
  assumes "store_ok nc (hm_ids home)" "run_wns_command nc c home = ((ls, e), home')" "e \<noteq> Completed"
  shows "home' = home"
proof (cases c)
  case (SetDefaultCmd a)
  then show ?thesis
    using assms by (auto simp: identity_set_default_def set_default_identity_def load_identity_def set_ids_def console_defs
      split: sum.splits option.splits bool.splits)
next
  case (DeleteCmd yes answer a)
  then show ?thesis
    using assms by (auto simp: identity_delete_def with_identity_cases delete_identity_def load_identity_def set_ids_def
      console_defs Let_def has_key_iff split: sum.splits option.splits if_splits)
qed (use assms in \<open>auto simp: identity_create_def identity_clear_default_def identity_set_name_def identity_import_def
    identity_claim_name_def claim_with_def identity_release_name_def with_identity_cases console_defs Let_def
    split: sum.splits option.splits if_splits jval.splits\<close>)

lemma import_cases:
  obtains "snd (identity_import base text home) = home"
  | vk i n where "from_public_key vk = Inr i"
      "snd (identity_import base text home) = set_ids (save_known_host (i\<lparr>id_name := n\<rparr>) (hm_ids home)) home"
proof (cases "\<exists>d vk i. json_loads text = Inr (JObj d) \<and> jbytes d ''public_key'' = Inr vk \<and> from_public_key vk = Inr i")
  case True
  then obtain d vk i where "json_loads text = Inr (JObj d)" "jbytes d ''public_key'' = Inr vk" "from_public_key vk = Inr i"
    by blast
  then show ?thesis using that(2) by (simp add: identity_import_def console_defs Let_def)
next
  case False
  then have "snd (identity_import base text home) = home"
    by (auto simp: identity_import_def console_defs split: sum.split jval.split)
  then show ?thesis by (rule that(1))
qed

lemma home_ok_command:
  assumes "nacl_ok nc" "home_ok nc home" "\<And>base seed. c \<noteq> CreateCmd base seed (Some [])"
  shows "home_ok nc (snd (run_wns_command nc c home))"
proof (cases c)
  case (CreateCmd base seed name)
  have "wf_identity nc i" if "generate_identity nc seed name = Inr i" for i
    by (rule wf_from_private_key [OF assms(1)]) (use that assms(3) CreateCmd in \<open>auto simp: generate_identity_def\<close>)
  then have "store_ok nc (save_identity i (hm_ids home))" if "generate_identity nc seed name = Inr i" for i
    using that assms(2) store_ok_save unfolding home_ok_def by blast
  then show ?thesis
    using assms(2) CreateCmd by (simp add: home_ok_def identity_create_def set_ids_def console_defs split: sum.split)
next
  case (SetNameCmd a nm)
  have "wf_identity nc (i\<lparr>id_scoped := Some (lower nm)\<rparr>)"
    if "load_identity nc (hm_ids home) a = Inr (Some i)" "dashed_alnum nm" for i
  proof -
    have "nm \<noteq> []" using that(2) dashed_alnum_nonempty by blast
    then have "lower nm \<noteq> []" by (metis length_lower length_0_conv)
    then show ?thesis using loaded_wf [OF _ that(1)] assms(2) by (simp add: home_ok_def wf_identity_def split: option.splits)
  qed
  then have "store_ok nc (save_identity (i\<lparr>id_scoped := Some (lower nm)\<rparr>) (hm_ids home))"
    if "load_identity nc (hm_ids home) a = Inr (Some i)" "dashed_alnum nm" for i
    using that assms(2) store_ok_save unfolding home_ok_def by blast
  then show ?thesis
    using assms(2) SetNameCmd
    by (simp add: home_ok_def identity_set_name_def with_identity_cases set_ids_def console_defs Let_def
        split: sum.split option.split)
next
  case (ImportCmd base content)
  consider "snd (identity_import base content home) = home"
    | vk i n where "from_public_key vk = Inr i"
        "snd (identity_import base content home) = set_ids (save_known_host (i\<lparr>id_name := n\<rparr>) (hm_ids home)) home"
    by (rule import_cases)
  then show ?thesis
  proof cases
    case 1
    then show ?thesis using assms(2) ImportCmd by simp
  next
    case 2
    then show ?thesis
      using assms(2) ImportCmd hosts_ok_import [OF _ 2(1)]
        store_ok_same [of "save_known_host (i\<lparr>id_name := n\<rparr>) (hm_ids home)" "hm_ids home" nc]
      by (simp add: home_ok_def set_ids_def save_known_host_def)
  qed
next
  case (SetDefaultCmd a)
  show ?thesis
  proof (cases "set_default_identity nc a (hm_ids home)")
    case (Inl e)
    then show ?thesis using SetDefaultCmd assms(2) by (simp add: identity_set_default_def console_defs)
  next
    case (Inr r)
    obtain ok s where r: "r = (ok, s)" by (cases r)
    have "store_ok nc s" "hosts_ok s"
      using assms(2) Inr r by (auto simp: home_ok_def set_default_identity_def split: sum.splits option.splits)
    then show ?thesis
      using SetDefaultCmd assms(2) Inr r
      by (cases ok) (simp_all add: identity_set_default_def console_defs home_ok_def set_ids_def split: sum.split option.split)
  qed
next
  case ClearDefaultCmd
  then show ?thesis
    using assms(2) by (simp add: home_ok_def identity_clear_default_def clear_default_identity_def set_ids_def console_defs)
next
  case (DeleteCmd yes answer a)
  then show ?thesis
    using assms(2) store_ok_delete [of nc "hm_ids home" a]
    by (auto simp: home_ok_def identity_delete_def with_identity_cases delete_identity_def set_ids_def console_defs Let_def
      split: sum.split option.split if_splits)
qed (use assms(2) in \<open>auto simp: home_ok_def identity_claim_name_def claim_with_def identity_release_name_def
    with_identity_cases console_defs Let_def split: sum.split option.split\<close>)


text \<open>
  C13. Whatever sequence of these commands runs, with whatever answers and files to import, the files stay
  in order: every identity file holds a well-formed identity whose address is its name, and every
  known host the key whose address it is named by. A command that does not finish changes nothing.
\<close>

theorem wns_commands_keep_files:
  assumes "nacl_ok nc" "home_ok nc home" "\<forall>c \<in> set cs. \<forall>base seed. c \<noteq> CreateCmd base seed (Some [])"
    and "home' = fold (\<lambda>c h. snd (run_wns_command nc c h)) cs home"
  shows "home_ok nc home'
    \<and> (\<forall>c ls e home''. run_wns_command nc c home' = ((ls, e), home'') \<and> e \<noteq> Completed \<longrightarrow> home'' = home')"
proof -
  have "home_ok nc (fold (\<lambda>c h. snd (run_wns_command nc c h)) cs home)" using assms(2,3)
  proof (induction cs arbitrary: home)
    case (Cons c cs)
    then show ?case using home_ok_command [OF assms(1)] by simp
  qed simp
  then show ?thesis using assms(4) unfinished_command unfolding home_ok_def by blast
qed

theorem wns_commands_keep_files_witness:
  "home_ok toy_nacl (snd (run_wns_command toy_nacl ClearDefaultCmd
     (snd (run_wns_command toy_nacl (CreateCmd ''/h/.wh'' (replicate 32 1) (Some ''srv'')) empty_home))))"
proof -
  have "home_ok toy_nacl empty_home" by (simp add: home_ok_def empty_home_def store_ok_def hosts_ok_def)
  then show ?thesis
    using wns_commands_keep_files [OF toy_nacl_ok _ _ refl, of empty_home "[CreateCmd ''/h/.wh'' (replicate 32 1) (Some ''srv''), ClearDefaultCmd]"]
    by simp
qed

text \<open>
  C20. Exporting an identity on one machine and importing the text on another pins its key there: the
  address is among the known hosts with this very key and name, and from then on the discovery that
  checks known hosts accepts for this address advertisements with this key only.
\<close>

theorem exported_key_pins:
  assumes "store_ok nc (hm_ids home)" "identity_export nc None broken a home = (((lines, Completed), home1), f)"
    and "identity_import base (hd lines) other = (out, other')"
  shows "snd out = Completed
    \<and> (\<exists>i. load_identity nc (hm_ids home) a = Inr (Some i)
         \<and> load_known_host (hm_ids other') a =
             Inr (Some (i\<lparr>signing_key := None, id_scoped := None\<rparr>))
         \<and> (\<forall>ad. trusted other' True a ad = (ad_public_key ad = public_key i)))"
proof -
  obtain i where i: "load_identity nc (hm_ids home) a = Inr (Some i)" "lines = [json_dumps (Some 2) (export_json i)]"
    using assms(2) by (auto simp: identity_export_def with_identity_def console_defs Let_def split: sum.splits option.splits)
  have w: "length (verify_key i) = 32" "id_address i = derive_address (verify_key i)" "id_address i = a"
    using loaded_wf [OF assms(1) i(1)] by (auto simp: wf_identity_def)
  have "json_ok (export_json i)" by (simp add: export_json_def opt_jstr_def split: option.split)
  then have j: "json_loads (hd lines) = Inr (export_json i)" by (simp add: i(2) json_roundtrip)
  let ?i0 = "\<lparr>signing_key = None, verify_key = verify_key i, id_address = derive_address (verify_key i), id_name = None,
    id_scoped = None\<rparr>"
  have v: "from_public_key (verify_key i) = Inr ?i0" using w(1) by (simp add: from_public_key_def)
  have "other' = set_ids (save_known_host (?i0\<lparr>id_name := id_name i\<rparr>) (hm_ids other)) other" "snd out = Completed"
    using assms(3) j v by (auto simp: identity_import_def export_json_def jbytes_def jstr_def jopt_str_def opt_jstr_def
      public_key_def console_defs Let_def split: option.splits)
  moreover have "?i0\<lparr>id_name := id_name i\<rparr> = i\<lparr>signing_key := None, id_scoped := None\<rparr>" using w by simp
  ultimately have k: "snd out = Completed"
      "load_known_host (hm_ids other') a = Inr (Some (i\<lparr>signing_key := None, id_scoped := None\<rparr>))"
    using load_named_host [OF v, of "id_name i" "hm_ids other" a] w by (simp_all add: set_ids_def)
  then have "\<forall>ad. trusted other' True a ad = (ad_public_key ad = public_key i)"
    by (auto simp: trusted_def public_key_def)
  then show ?thesis using i(1) k by blast
qed

theorem exported_key_pins_witness:
  "let home = set_ids (save_identity toy_identity (hm_ids empty_home)) empty_home; a = id_address toy_identity;
       lines = fst (fst (fst (identity_export toy_nacl None None a home)));
       other = snd (identity_import ''/h/.wh'' (hd lines) empty_home)
   in \<exists>i. load_known_host (hm_ids other) a = Inr (Some i) \<and> public_key i = replicate 32 1"
proof -
  let ?home = "set_ids (save_identity toy_identity (hm_ids empty_home)) empty_home" and ?a = "id_address toy_identity"
  have s: "store_ok toy_nacl (hm_ids ?home)"
    using store_ok_save [OF _ wf_toy_identity, of "hm_ids empty_home"] by (simp add: set_ids_def store_ok_def empty_home_def)
  have l: "load_identity toy_nacl (hm_ids ?home) ?a = Inr (Some toy_identity)"
    using load_save [OF wf_toy_identity] by (simp add: set_ids_def)
  let ?lines = "[json_dumps (Some 2) (export_json toy_identity)]"
  have e: "identity_export toy_nacl None None ?a ?home = (((?lines, Completed), ?home), None)"
    using l by (simp add: identity_export_def console_defs)
  obtain out other where o: "identity_import ''/h/.wh'' (hd ?lines) empty_home = (out, other)" by fastforce
  have "public_key toy_identity = replicate 32 1" by (simp add: public_key_def toy_identity_def)
  then show ?thesis
    using exported_key_pins [OF s e o] l o e by (auto simp: Let_def public_key_def)
qed

text \<open>
  A name that \<^verbatim>\<open>set-name\<close> accepts makes an address that reads back: the command prints the scoped URI of
  the identity, which parses to the name in lower case and the address, and the identity in the
  store has this name from then on.
\<close>

theorem scoped_name_resolves:
  assumes "store_ok nc (hm_ids home)" "is_base32_address a"
    and "identity_set_name nc a nm home = ((lines, Completed), home')"
  shows "(\<exists>u. hd lines = ''Scoped name set: '' @ u \<and> parse_scoped_wns_address u = Some (Some (lower nm), a))
    \<and> (\<exists>i. load_identity nc (hm_ids home) a = Inr (Some i)
          \<and> load_identity nc (hm_ids home') a = Inr (Some (i\<lparr>id_scoped := Some (lower nm)\<rparr>)))"
proof -
  obtain i where i: "load_identity nc (hm_ids home) a = Inr (Some i)" "dashed_alnum nm"
    and l: "hd lines = ''Scoped name set: '' @ or_text (id_full_scoped_address (i\<lparr>id_scoped := Some (lower nm)\<rparr>)) ''None''"
    and h: "home' = set_ids (save_identity (i\<lparr>id_scoped := Some (lower nm)\<rparr>) (hm_ids home)) home"
    using assms(3) by (auto simp: identity_set_name_def with_identity_cases console_defs Let_def split: sum.splits option.splits if_splits)
  let ?j = "i\<lparr>id_scoped := Some (lower nm)\<rparr>"
  have w: "wf_identity nc i" "id_address i = a" using loaded_wf [OF assms(1) i(1)] by auto
  have d: "dashed_alnum (lower nm)" using i(2) by (simp add: dashed_alnum_lower)
  then have n: "lower nm \<noteq> []" using dashed_alnum_nonempty by blast
  have "wf_identity nc ?j" using w(1) n by (simp add: wf_identity_def split: option.splits)
  then have "load_identity nc (hm_ids home') a = Inr (Some ?j)" using load_save h w(2) by (simp add: set_ids_def)
  moreover obtain u where u: "id_full_scoped_address ?j = Some u" "u \<noteq> []"
    using n by (auto simp: id_full_scoped_address_def)
  moreover have "parse_scoped_wns_address u = Some (Some (lower nm), a)"
    using uri_core_full(1) [OF scoped_chars [OF assms(2) d]] parse_core_scoped [OF _ assms(2) d, of u] u(1) n w(2)
    by (auto simp: id_full_scoped_address_def)
  ultimately show ?thesis using i(1) l by (auto simp: or_text_def)
qed

theorem scoped_name_resolves_witness:
  "let a = id_address toy_identity; home = set_ids (save_identity toy_identity (hm_ids empty_home)) empty_home
   in \<exists>u. hd (fst (fst (identity_set_name toy_nacl a ''Laptop'' home))) = ''Scoped name set: '' @ u
     \<and> parse_scoped_wns_address u = Some (Some ''laptop'', a)"
proof -
  let ?home = "set_ids (save_identity toy_identity (hm_ids empty_home)) empty_home" and ?a = "id_address toy_identity"
  have s: "store_ok toy_nacl (hm_ids ?home)"
    using store_ok_save [OF _ wf_toy_identity, of "hm_ids empty_home"] by (simp add: set_ids_def store_ok_def empty_home_def)
  have l: "load_identity toy_nacl (hm_ids ?home) ?a = Inr (Some toy_identity)"
    using load_save [OF wf_toy_identity] by (simp add: set_ids_def)
  have b: "is_base32_address ?a" using derive_address_base32 [of "replicate 32 1"] by (simp add: toy_identity_def)
  have d: "dashed_alnum ''Laptop''" "lower ''Laptop'' = ''laptop''" by code_simp+
  obtain lines home' where o: "identity_set_name toy_nacl ?a ''Laptop'' ?home = ((lines, Completed), home')"
    using l d by (auto simp: identity_set_name_def with_identity_cases console_defs Let_def)
  show ?thesis using scoped_name_resolves [OF s b o] o d by (auto simp: Let_def)
qed

end
