(* ===== verification/Relay_Cli.thy ===== *)
theory Relay_Cli
  imports Relay_Config Console Mailbox Transit Dht_Node
begin

text \<open>
  \<^verbatim>\<open>src/wh/cli/relay.py\<close>: the commands for relays, over the manager of \<^verbatim>\<open>Relay_Config\<close>, and \<^verbatim>\<open>RelayServer\<close> of
  \<^verbatim>\<open>src/wh/relay/server.py\<close>. The answer to a question, the texts of exceptions, what the wormhole
  carries and what mDNS finds are arguments.
\<close>

section \<open>The configured relays\<close>

definition relay_lines :: "string \<Rightarrow> relay_config \<Rightarrow> string list" where
  "relay_lines dflt r =
     [rl_name r @ (if rl_name r = dflt then '' (default)'' else []), ''  Mailbox: '' @ rl_mailbox_url r,
      ''  Transit: '' @ rl_transit_url r]
     @ opt_line ''  Description: '' (rl_description r)
     @ (if truthy (rl_namespace_key r) then [''  Namespace: encrypted''] else [])
     @ [ [] ]"

definition cmd_list_relays :: "bool \<Rightarrow> relay_manager \<Rightarrow> console \<times> relay_manager" where
  "cmd_list_relays as_json m =
     (case load_config m of
        (Inl e, m') \<Rightarrow> crashes e m'
      | (Inr c, m') \<Rightarrow>
          (let rs = dvalues (rf_relays c) in
           if as_json then
             says [json_dumps (Some 2) (JObj [(''default'', JStr (rf_default c)),
               (''relays'', JList (map (\<lambda>r. JObj (relay_to_dict r)) rs))])] m'
           else if rs = [] then says [''No relays configured''] m'
           else says (concat (map (relay_lines (rf_default c)) rs)) m'))"

text \<open>The look-up that most commands start with.\<close>

definition on_relay ::
  "string \<Rightarrow> (relay_config option \<Rightarrow> relay_manager \<Rightarrow> console \<times> relay_manager) \<Rightarrow> relay_manager \<Rightarrow> console \<times> relay_manager"
  where
  "on_relay name k m =
     (case get_relay (Some name) m of
        (Inl e, m') \<Rightarrow> crashes e m'
      | (Inr r, m') \<Rightarrow> k r m')"

definition cmd_add_relay :: "relay_config \<Rightarrow> bool \<Rightarrow> relay_manager \<Rightarrow> console \<times> relay_manager" where
  "cmd_add_relay r set_dflt =
     on_relay (rl_name r) (\<lambda>x m.
       if x \<noteq> None then
         exits (''Error: Relay '' @ quoted (rl_name r) @ '' already exists. Remove it first with ''
           @ quoted (''wh relay remove '' @ rl_name r)) m
       else
         (case add_relay r set_dflt m of
            (Inl e, m') \<Rightarrow> crashes e m'
          | (Inr _, m') \<Rightarrow>
              says ([''Added relay '' @ quoted (rl_name r)] @ (if set_dflt then [''Set as default relay''] else [])) m'))"

definition not_found :: "string \<Rightarrow> string" where
  "not_found name = ''Error: Relay '' @ quoted name @ '' not found''"

definition cmd_remove_relay :: "bool \<Rightarrow> bool \<Rightarrow> string \<Rightarrow> relay_manager \<Rightarrow> console \<times> relay_manager" where
  "cmd_remove_relay force answer name =
     on_relay name (\<lambda>x m.
       if x = None then exits (not_found name) m
       else if \<not> force \<and> \<not> answer then says [] m
       else
         (case remove_relay name m of
            (Inl ValueError, m') \<Rightarrow> exits (''Error: Cannot remove the '' @ quoted ''public'' @ '' relay'') m'
          | (Inl e, m') \<Rightarrow> crashes e m'
          | (Inr _, m') \<Rightarrow> says [''Removed relay '' @ quoted name] m'))"

definition cmd_set_default :: "string \<Rightarrow> relay_manager \<Rightarrow> console \<times> relay_manager" where
  "cmd_set_default name m =
     (case set_default name m of
        (Inl ValueError, m') \<Rightarrow> exits (not_found name) m'
      | (Inl e, m') \<Rightarrow> crashes e m'
      | (Inr _, m') \<Rightarrow> says [''Default relay set to '' @ quoted name] m')"

section \<open>Sharing\<close>

text \<open>The message that the sender puts into the wormhole, once the receiver is there.\<close>

definition share_message :: "string \<Rightarrow> relay_manager \<Rightarrow> (bytes option \<times> console) \<times> relay_manager" where
  "share_message name m =
     (case get_relay (Some name) m of
        (Inl e, m') \<Rightarrow> ((None, [], Crashed e), m')
      | (Inr None, m') \<Rightarrow> ((None, [], ExitError (not_found name)), m')
      | (Inr (Some _), m') \<Rightarrow>
          (case export_relay name m' of
             (Inl e, m2) \<Rightarrow> ((None, [], Crashed e), m2)
           | (Inr d, m2) \<Rightarrow>
               ((Some (encode_utf8 (json_dumps None (JObj d))),
                 [''Relay '' @ quoted name @ '' configuration sent successfully''], Completed), m2)))"

text \<open>The receiver: every exception after the connection ends it with its text.\<close>

definition received_relay :: "bytes \<Rightarrow> string \<Rightarrow> bool \<Rightarrow> relay_manager \<Rightarrow> relay_config result \<times> relay_manager" where
  "received_relay msg name set_dflt m =
     (case decode_utf8 msg of
        None \<Rightarrow> (Inl ValueError, m)
      | Some t \<Rightarrow>
          (case json_loads t of
             Inl e \<Rightarrow> (Inl e, m)
           | Inr (JObj d) \<Rightarrow> import_relay d (Some name) set_dflt m
           | Inr _ \<Rightarrow> (Inl AttributeError, m)))"

definition share_receive ::
  "(exn \<Rightarrow> string) \<Rightarrow> string option \<Rightarrow> string \<Rightarrow> bool \<Rightarrow> bytes result \<Rightarrow> relay_manager \<Rightarrow> console \<times> relay_manager" where
  "share_receive txt code name set_dflt msg m =
     (if \<not> truthy code then exits ''Error: --code required when receiving'' m
      else
        (case (case msg of Inl e \<Rightarrow> (Inl e, m) | Inr b \<Rightarrow> received_relay b name set_dflt m) of
           (Inl e, m') \<Rightarrow> exits (''Error: '' @ txt e) m'
         | (Inr r, m') \<Rightarrow>
             says ([''Added relay '' @ quoted (rl_name r), ''  Mailbox: '' @ rl_mailbox_url r,
                 ''  Transit: '' @ rl_transit_url r] @ (if set_dflt then [''Set as default relay''] else [])) m'))"

section \<open>Discovery on the local network\<close>

record service_info =
  si_addresses :: "bytes list"
  si_port :: int
  si_props :: "(bytes, bytes) dict"

record found_relay =
  fr_name :: string
  fr_host :: string
  fr_mailbox_port :: int
  fr_transit_port :: int

text \<open>\<^verbatim>\<open>add_service\<close>: an exception there is lost in the thread of the library.\<close>

definition prop_text :: "service_info \<Rightarrow> string \<Rightarrow> bytes \<Rightarrow> string option" where
  "prop_text i k d = decode_utf8 (case dget (si_props i) (lit k) of None \<Rightarrow> d | Some v \<Rightarrow> v)"

definition found_service :: "string \<Rightarrow> service_info option \<Rightarrow> found_relay option" where
  "found_service name info =
     (case info of
        None \<Rightarrow> None
      | Some i \<Rightarrow>
          if si_addresses i = [] then None
          else
            (case (inet_ntoa (hd (si_addresses i)), prop_text i ''transit_port'' (lit ''4001''),
                   prop_text i ''name'' (encode_utf8 (hd (split_on (CHR ''.'') name)))) of
               (Inr host, Some t, Some nm) \<Rightarrow>
                 map_option (\<lambda>p. \<lparr>fr_name = nm, fr_host = host, fr_mailbox_port = si_port i, fr_transit_port = p\<rparr>) (py_int t)
             | _ \<Rightarrow> None))"

definition found_config :: "found_relay \<Rightarrow> relay_config" where
  "found_config r =
     \<lparr>rl_name = fr_name r, rl_mailbox_url = ''ws://'' @ fr_host r @ '':'' @ show_int (fr_mailbox_port r) @ ''/v1'',
      rl_transit_url = ''tcp:'' @ fr_host r @ '':'' @ show_int (fr_transit_port r), rl_namespace_key = None,
      rl_description = Some ''Discovered via mDNS''\<rparr>"

fun add_found :: "found_relay list \<Rightarrow> relay_manager \<Rightarrow> string list \<times> relay_manager" where
  "add_found [] m = ([], m)"
| "add_found (r # rs) m =
     (case add_relay (found_config r) False m of
        (Inl _, m') \<Rightarrow> add_found rs m'
      | (Inr _, m') \<Rightarrow> apfst ((#) (''Added relay '' @ quoted (fr_name r))) (add_found rs m'))"

definition cmd_discover :: "int \<Rightarrow> bool \<Rightarrow> (string \<times> service_info option) list \<Rightarrow> relay_manager \<Rightarrow> console \<times> relay_manager" where
  "cmd_discover timeout add services m =
     (let found = List.map_filter (\<lambda>(n, i). found_service n i) services;
          start = [''Searching for wormhole relays (timeout: '' @ show_int timeout @ ''s)...'']
            @ map (\<lambda>r. ''Found: '' @ fr_name r @ '' at '' @ fr_host r) found
      in if found = [] then says (start @ [''No relays found on local network'']) m
         else
           (let ls = start @ [ [], ''Found '' @ show_nat (length found) @ '' relay(s):'']
                  @ map (\<lambda>r. ''  '' @ fr_name r @ '': '' @ rl_mailbox_url (found_config r)) found
            in if add then (case add_found found m of (as, m') \<Rightarrow> says (ls @ as) m') else says ls m))"

section \<open>The server of both relays\<close>

record relay_server =
  rv_mailbox :: mailbox_server
  rv_transit :: transit
  rv_mailbox_up :: bool
  rv_transit_up :: bool
  rv_running :: bool

definition new_relay_server :: "mailbox_server \<Rightarrow> transit \<Rightarrow> relay_server" where
  "new_relay_server mb tr =
     \<lparr>rv_mailbox = mb, rv_transit = tr, rv_mailbox_up = False, rv_transit_up = False, rv_running = False\<rparr>"

text \<open>\<^verbatim>\<open>start\<close>, given what starting the two servers raises.\<close>

definition start_relay_server :: "exn option \<Rightarrow> exn option \<Rightarrow> relay_server \<Rightarrow> exn option \<times> relay_server" where
  "start_relay_server mb_exn tr_exn s =
     (case mb_exn of
        Some e \<Rightarrow> (Some e, s)
      | None \<Rightarrow>
          (let s1 = s\<lparr>rv_mailbox_up := True\<rparr> in
           case tr_exn of
             Some e \<Rightarrow> (Some e, s1)
           | None \<Rightarrow> (None, s1\<lparr>rv_transit_up := True, rv_running := True\<rparr>)))"

definition stop_relay_server :: "relay_server \<Rightarrow> relay_server" where
  "stop_relay_server s = s\<lparr>rv_running := False, rv_mailbox_up := False, rv_transit_up := False\<rparr>"

text \<open>\<^verbatim>\<open>serve_forever\<close>, with what the two servers did until the signal: the servers are stopped only if both started.\<close>

definition serve_relays ::
  "exn option \<Rightarrow> exn option \<Rightarrow> (mailbox_server \<Rightarrow> mailbox_server) \<Rightarrow> (transit \<Rightarrow> transit) \<Rightarrow> relay_server
   \<Rightarrow> exn option \<times> relay_server" where
  "serve_relays mb_exn tr_exn mb_work tr_work s =
     (case start_relay_server mb_exn tr_exn s of
        (Some e, s') \<Rightarrow> (Some e, s')
      | (None, s') \<Rightarrow>
          (None, stop_relay_server (s'\<lparr>rv_mailbox := mb_work (rv_mailbox s'), rv_transit := tr_work (rv_transit s')\<rparr>)))"

definition relay_stats :: "relay_server \<Rightarrow> (nat \<times> nat \<times> nat) \<times> nat \<times> nat \<times> nat" where
  "relay_stats s =
     ((length (nameplates (rv_mailbox s)), length (mailboxes (rv_mailbox s)), length (clients (rv_mailbox s))),
      tr_connections (rv_transit s), tr_bytes_relayed (rv_transit s), tr_pairs_matched (rv_transit s))"

text \<open>The servers that \<^verbatim>\<open>wh relay serve\<close> runs, or the message with which it ends.\<close>

datatype relay_choice = MailboxOnly | TransitOnly | BothRelays

definition relay_serve_choice :: "bool \<Rightarrow> bool \<Rightarrow> bool \<Rightarrow> string + relay_choice" where
  "relay_serve_choice websockets mailbox_only transit_only =
     (if \<not> websockets then
        Inl (''Error: websockets package required for relay server.'' @ [CHR 0x0A]
          @ ''Install with: pip install '' @ quoted ''wh[relay]'')
      else if mailbox_only \<and> transit_only then Inl ''Error: Cannot specify both --mailbox-only and --transit-only''
      else Inr (if mailbox_only then MailboxOnly else if transit_only then TransitOnly else BothRelays))"

definition relay_serve_lines :: "relay_choice \<Rightarrow> string \<Rightarrow> int \<Rightarrow> int \<Rightarrow> string list" where
  "relay_serve_lines c host mp tp =
     (let mb = ''ws://'' @ host @ '':'' @ show_int mp @ ''/v1''; tr = host @ '':'' @ show_int tp in
      case c of
        MailboxOnly \<Rightarrow> [''Starting mailbox server on '' @ mb, ''Press Ctrl+C to stop'']
      | TransitOnly \<Rightarrow> [''Starting transit relay on tcp://'' @ tr, ''Press Ctrl+C to stop'']
      | BothRelays \<Rightarrow>
          [''Starting wormhole relay server:'', ''  Mailbox: '' @ mb, ''  Transit: tcp://'' @ tr, [],
           ''Configure clients with:'', ''  export WH_RELAY='' @ mb, ''  export WH_TRANSIT=tcp:'' @ tr, [],
           ''Or add to your relay config:'', ''  wh relay add myrelay '' @ mb @ '' tcp:'' @ tr, [],
           ''Press Ctrl+C to stop''])"

section \<open>What the commands do\<close>

lemma load_config_some: "rm_config m = Some c \<Longrightarrow> load_config m = (Inr c, m)"
  by (simp add: load_config_def)

lemma rm_ok_config:
  assumes "rm_ok m"
  obtains c where "load_config m = (Inr c, m\<lparr>rm_config := Some c\<rparr>)" "Relay_Config.relays_ok c" "rm_ok (m\<lparr>rm_config := Some c\<rparr>)"
  using rm_ok_load [OF assms] by blast

text \<open>The relay of a name, as \<^verbatim>\<open>get_relay\<close> gives it.\<close>

definition relay_named :: "relay_manager \<Rightarrow> string \<Rightarrow> relay_config option" where
  "relay_named m name = (case fst (get_relay (Some name) m) of Inr x \<Rightarrow> x | Inl _ \<Rightarrow> None)"

lemma relay_named_load: "load_config m = (Inr c, m') \<Longrightarrow> relay_named m name = dget (rf_relays c) name"
  by (simp add: relay_named_def get_relay_def with_config_def)

lemma relay_dict_ok: "json_ok (JObj [(''version'', JInt 1), (''relay'', JObj (relay_to_dict r))])"
  by (cases "rl_namespace_key r"; cases "rl_description r") (simp_all add: relay_to_dict_def some_entry_def)

lemma relay_from_renamed:
  "relay_from_dict (dset ''name'' (JStr n) (relay_to_dict r)) = Inr (r\<lparr>rl_name := n\<rparr>)"
  by (cases "rl_namespace_key r"; cases "rl_description r")
    (simp_all add: relay_from_dict_def relay_to_dict_def some_entry_def jstr_def jopt_str_def)

text \<open>
  C30. Sharing a relay: what one machine sends for a relay of its configuration, the other stores under
  the new name with the same URLs, description and namespace key, as the default if asked for, and every
  other relay stays as it was.
\<close>

theorem shared_relay_arrives:
  assumes "rm_ok a" "relay_named a name = Some r" "share_message name a = ((Some msg, out), a')"
    and "rm_ok b" "new \<noteq> []" "truthy code" "share_receive txt code new dflt (Inr msg) b = ((lines, e), b')"
  shows "snd out = Completed \<and> e = Completed \<and> rm_ok b'
    \<and> relay_named b' new = Some (r\<lparr>rl_name := new\<rparr>) \<and> (\<forall>n. n = new \<or> relay_named b' n = relay_named b n)
    \<and> (dflt \<longrightarrow> fst (get_default_relay b') = Inr (r\<lparr>rl_name := new\<rparr>))"
proof -
  obtain ca where ca: "load_config a = (Inr ca, a\<lparr>rm_config := Some ca\<rparr>)" by (rule rm_ok_config [OF assms(1)])
  have g: "dget (rf_relays ca) name = Some r" using assms(2) relay_named_load [OF ca] by simp
  have l: "load_config (a\<lparr>rm_config := Some ca\<rparr>) = (Inr ca, a\<lparr>rm_config := Some ca\<rparr>)" by (simp add: load_config_def)
  let ?d = "JObj [(''version'', JInt 1), (''relay'', JObj (relay_to_dict r))]"
  have m: "msg = encode_utf8 (json_dumps None ?d)" "snd out = Completed"
    using assms(3) ca l g by (auto simp: share_message_def export_relay_def get_relay_def with_config_def)
  have j: "json_loads (json_dumps None ?d) = Inr ?d" by (rule json_roundtrip [OF relay_dict_ok])
  obtain cb where cb: "load_config b = (Inr cb, b\<lparr>rm_config := Some cb\<rparr>)" "Relay_Config.relays_ok cb" by (rule rm_ok_config [OF assms(4)])
  define r' where "r' = r\<lparr>rl_name := new\<rparr>"
  define cb' where "cb' = cb\<lparr>rf_relays := dset new r' (rf_relays cb), rf_default := (if dflt then new else rf_default cb)\<rparr>"
  have "received_relay msg new dflt b = add_relay r' dflt b"
    using assms(5) j by (simp add: m(1) received_relay_def import_relay_def relay_from_renamed r'_def)
  also have "\<dots> = (Inr r', put_config cb' (b\<lparr>rm_config := Some cb\<rparr>))"
    using cb(1) by (simp add: add_relay_def with_config_def cb'_def r'_def)
  finally have b': "b' = put_config cb' (b\<lparr>rm_config := Some cb\<rparr>)" "e = Completed"
    using assms(6,7) by (auto simp: share_receive_def console_defs)
  have lb: "load_config b' = (Inr cb', b')" by (simp add: b'(1) put_config_def save_config_def load_config_def)
  have "rl_name r' = new" by (simp add: r'_def)
  then have "Relay_Config.relays_ok cb'"
    using relays_ok_dset [OF cb(2), where r = r' and b = dflt] unfolding cb'_def by metis
  then have "rm_ok b'" unfolding b'(1) by (rule rm_ok_put)
  moreover have "relay_named b' n = (if n = new then Some r' else relay_named b n)" for n
    using relay_named_load [OF lb] relay_named_load [OF cb(1)] by (simp add: cb'_def)
  moreover have "fst (get_default_relay b') = Inr r'" if dflt
    using lb that by (simp add: get_default_relay_def with_config_def cb'_def)
  ultimately show ?thesis using m(2) b'(2) by (simp add: r'_def)
qed

definition empty_manager :: relay_manager where
  "empty_manager = \<lparr>rm_config = None, rm_file = None\<rparr>"

theorem shared_relay_arrives_witness:
  "relay_named (snd (share_receive (\<lambda>e. []) (Some ''7-a'') ''work'' True
      (Inr (the (fst (fst (share_message ''public'' empty_manager))))) empty_manager)) ''work''
   = Some (public_relay\<lparr>rl_name := ''work''\<rparr>)"
proof -
  have ok: "rm_ok empty_manager" by (simp add: rm_ok_def empty_manager_def)
  have n: "relay_named empty_manager ''public'' = Some public_relay"
    by (simp add: relay_named_def get_relay_def with_config_def load_config_def empty_manager_def make_relay_file_def has_key_def)
  obtain msg out a' where s: "share_message ''public'' empty_manager = ((Some msg, out), a')"
    by (simp add: share_message_def export_relay_def get_relay_def with_config_def load_config_def empty_manager_def
      make_relay_file_def has_key_def)
  obtain lines e b' where r: "share_receive (\<lambda>e. []) (Some ''7-a'') ''work'' True (Inr msg) empty_manager = ((lines, e), b')"
    by (metis prod.exhaust)
  show ?thesis using shared_relay_arrives [OF ok n s ok _ _ r] s r by simp
qed

text \<open>
  Discovery with \<^verbatim>\<open>--add\<close> asks nobody: whoever advertises a relay under the name of the default one in the
  local network becomes the relay that every later command of the machine uses.
\<close>

theorem discovered_relay_replaces_default:
  assumes "rm_ok m" "load_config m = (Inr c, m1)" "found_service svc info = Some r" "fr_name r = rf_default c"
    and "cmd_discover t True [(svc, info)] m = ((lines, e), m')"
  shows "e = Completed \<and> rm_ok m' \<and> fst (get_default_relay m') = Inr (found_config r)"
proof -
  obtain c0 where c0: "load_config m = (Inr c0, m\<lparr>rm_config := Some c0\<rparr>)" "Relay_Config.relays_ok c0" by (rule rm_ok_config [OF assms(1)])
  then have c: "load_config m = (Inr c, m\<lparr>rm_config := Some c\<rparr>)" "Relay_Config.relays_ok c" using assms(2) by simp_all
  define c' where "c' = c\<lparr>rf_relays := dset (rf_default c) (found_config r) (rf_relays c)\<rparr>"
  have n: "rl_name (found_config r) = rf_default c" using assms(4) by (simp add: found_config_def)
  have "add_relay (found_config r) False m = (Inr (found_config r), put_config c' (m\<lparr>rm_config := Some c\<rparr>))"
    using c(1) n by (simp add: add_relay_def with_config_def c'_def)
  then have m': "m' = put_config c' (m\<lparr>rm_config := Some c\<rparr>)" "e = Completed"
    using assms(3,5) by (auto simp: cmd_discover_def List.map_filter_def console_defs Let_def)
  have "Relay_Config.relays_ok c'" using relays_ok_dset [OF c(2), where r = "found_config r" and b = False] n by (simp add: c'_def)
  then have "rm_ok m'" unfolding m'(1) by (rule rm_ok_put)
  moreover have "load_config m' = (Inr c', m')" by (simp add: m'(1) put_config_def save_config_def load_config_def)
  then have "fst (get_default_relay m') = Inr (found_config r)" by (simp add: get_default_relay_def with_config_def c'_def)
  ultimately show ?thesis using m'(2) by simp
qed

theorem discovered_relay_replaces_default_witness:
  "map_sum id rl_mailbox_url (fst (get_default_relay (snd (cmd_discover 5 True
     [(''public._wormhole-relay._tcp.local.'',
       Some \<lparr>si_addresses = [ [10, 0, 0, 66] ], si_port = 80, si_props = []\<rparr>)] empty_manager))))
   = Inr ''ws://10.0.0.66:80/v1''"
proof -
  let ?svc = "''public._wormhole-relay._tcp.local.''"
  let ?info = "Some \<lparr>si_addresses = [ [10, 0, 0, 66] ], si_port = 80, si_props = []\<rparr>"
  let ?r = "\<lparr>fr_name = ''public'', fr_host = ''10.0.0.66'', fr_mailbox_port = 80, fr_transit_port = 4001\<rparr>"
  have ok: "rm_ok empty_manager" by (simp add: rm_ok_def empty_manager_def)
  have l: "load_config empty_manager = (Inr (make_relay_file ''public'' []), empty_manager\<lparr>rm_config := Some (make_relay_file ''public'' [])\<rparr>)"
    by (simp add: load_config_def empty_manager_def)
  have f: "found_service ?svc ?info = Some ?r" by code_simp
  have d: "fr_name ?r = rf_default (make_relay_file ''public'' [])" by (simp add: make_relay_file_def)
  obtain lines e m' where c: "cmd_discover 5 True [(?svc, ?info)] empty_manager = ((lines, e), m')" by (metis prod.exhaust)
  have "show_int 80 = ''80''" by code_simp
  then have u: "rl_mailbox_url (found_config ?r) = ''ws://10.0.0.66:80/v1''" by (simp add: found_config_def)
  show ?thesis using discovered_relay_replaces_default [OF ok l f d c] c u by simp
qed

text \<open>A relay server whose transit relay cannot start leaves its mailbox server running.\<close>

lemma half_started_server:
  "serve_relays None (Some e) mb_work tr_work (new_relay_server mb tr) =
     (Some e, (new_relay_server mb tr)\<lparr>rv_mailbox_up := True\<rparr>)"
  by (simp add: serve_relays_def start_relay_server_def)

end
