(* ===== verification/Namespace_Cli.thy ===== *)
theory Namespace_Cli
  imports Ent_Namespace Console
begin

text \<open>
  \<^verbatim>\<open>src/wh/cli/namespace.py\<close>: the commands for enterprise namespaces. Every command is a process of its own:
  it builds a manager from the files, makes one call and leaves the files behind.
\<close>

section \<open>Commands\<close>

definition with_manager ::
  "string \<Rightarrow> (ns_manager \<Rightarrow> console \<times> ns_manager) \<Rightarrow> (string, jdict) dict \<Rightarrow> console \<times> (string, jdict) dict" where
  "with_manager now f files = apsnd nm_files (f (new_manager now files))"

text \<open>The results of the calls; \<^verbatim>\<open>bad\<close> is the text of a \<^verbatim>\<open>ValueError\<close>.\<close>

definition ns_report ::
  "string \<Rightarrow> string \<Rightarrow> ('a \<Rightarrow> string list) \<Rightarrow> 'a result \<times> ns_manager \<Rightarrow> console \<times> ns_manager" where
  "ns_report name bad ok rm =
     (case rm of
        (Inr x, m) \<Rightarrow> says (ok x) m
      | (Inl NamespaceNotFoundError, m) \<Rightarrow> fails (''Namespace '' @ quoted name @ '' not found'') m
      | (Inl NamespaceExistsError, m) \<Rightarrow> fails (''Namespace '' @ quoted name @ '' already exists'') m
      | (Inl ValueError, m) \<Rightarrow> fails bad m
      | (Inl e, m) \<Rightarrow> crashes e m)"

definition max_lines :: "string \<Rightarrow> int option \<Rightarrow> string list" where
  "max_lines label x = (case x of None \<Rightarrow> [] | Some n \<Rightarrow> if n = 0 then [] else [label @ show_int n])"

definition created_lines :: "namespace \<Rightarrow> string list" where
  "created_lines ns =
     [''Created namespace: '' @ ns_name ns, ''  DHT prefix: '' @ ns_dht_prefix ns]
     @ opt_line ''  Description: '' (ns_description ns)
     @ (if ns_public ns then [''  Access: public''] else [])
     @ max_lines ''  Max members: '' (ns_max_members ns)"

definition cmd_create ::
  "string \<Rightarrow> string option \<Rightarrow> bool \<Rightarrow> int option \<Rightarrow> string list \<Rightarrow> string \<Rightarrow> ns_manager \<Rightarrow> console \<times> ns_manager" where
  "cmd_create name desc public max_members admins now m =
     ns_report name (''Invalid namespace name: '' @ name) created_lines
       (ns_create now name desc (Some admins) public max_members m)"

definition list_lines :: "namespace \<Rightarrow> string list" where
  "list_lines ns =
     [ns_name ns @ '' ('' @ (if ns_public ns then ''public'' else ''private'') @ '') - ''
        @ show_nat (length (ns_members ns) + length (ns_admins ns)) @ '' members'']
     @ opt_line ''  '' (ns_description ns)"

definition cmd_list_namespaces :: "bool \<Rightarrow> ns_manager \<Rightarrow> console \<times> ns_manager" where
  "cmd_list_namespaces as_json m =
     (let nss = dvalues (nm_namespaces m) in
      if as_json then says [json_dumps (Some 2) (JList (map (\<lambda>ns. JObj (ns_to_dict ns)) nss))] m
      else if nss = [] then says [''No namespaces found''] m
      else says (concat (map list_lines nss)) m)"

definition or_none :: "string list \<Rightarrow> string" where
  "or_none xs = (if xs = [] then ''none'' else join_with '', '' xs)"

definition show_lines :: "namespace \<Rightarrow> string list" where
  "show_lines ns =
     [''Name: '' @ ns_name ns, ''DHT Prefix: '' @ ns_dht_prefix ns, ''Created: '' @ ns_created_at ns]
     @ opt_line ''Description: '' (ns_description ns)
     @ [''Public: '' @ (if ns_public ns then ''yes'' else ''no'')]
     @ max_lines ''Max Members: '' (ns_max_members ns)
     @ [''Admins: '' @ or_none (ns_admins ns), ''Members: '' @ or_none (ns_members ns)]"

definition cmd_show :: "string \<Rightarrow> bool \<Rightarrow> ns_manager \<Rightarrow> console \<times> ns_manager" where
  "cmd_show name as_json m =
     ns_report name [] (\<lambda>ns. if as_json then [json_dumps (Some 2) (JObj (ns_to_dict ns))] else show_lines ns)
       (ns_get m name, m)"

text \<open>\<^verbatim>\<open>delete\<close> is confirmed before the function runs; a refusal ends with \<^verbatim>\<open>Aborted!\<close>.\<close>

definition delete_error :: "string \<Rightarrow> ns_manager \<Rightarrow> string" where
  "delete_error name m =
     (if name = default_namespace then ''Cannot delete default namespace''
      else ''Namespace has ''
        @ (case ns_get m name of Inr ns \<Rightarrow> show_nat (length (ns_members ns)) | Inl _ \<Rightarrow> [])
        @ '' members. Use force=True to delete.'')"

definition cmd_delete :: "bool \<Rightarrow> string \<Rightarrow> bool \<Rightarrow> ns_manager \<Rightarrow> console \<times> ns_manager" where
  "cmd_delete confirmed name force m =
     (if \<not> confirmed then exits ''Aborted!'' m
      else ns_report name (delete_error name m) (\<lambda>_. [''Deleted namespace: '' @ name]) (ns_delete name force m))"

definition changed_line :: "string \<Rightarrow> string \<Rightarrow> string \<Rightarrow> string \<Rightarrow> string list" where
  "changed_line verb i prep name = [verb @ quoted i @ prep @ quoted name]"

definition cmd_add_admin :: "string \<Rightarrow> string \<Rightarrow> ns_manager \<Rightarrow> console \<times> ns_manager" where
  "cmd_add_admin name i m =
     ns_report name [] (\<lambda>_. changed_line ''Added admin '' i '' to namespace '' name) (add_admin name i m)"

definition cmd_remove_admin :: "string \<Rightarrow> string \<Rightarrow> ns_manager \<Rightarrow> console \<times> ns_manager" where
  "cmd_remove_admin name i m =
     ns_report name [] (\<lambda>_. changed_line ''Removed admin '' i '' from namespace '' name) (remove_admin name i m)"

definition member_limit_text :: "string \<Rightarrow> ns_manager \<Rightarrow> string" where
  "member_limit_text name m =
     ''Namespace has reached member limit: ''
       @ (case ns_get m name of
            Inr ns \<Rightarrow> (case ns_max_members ns of None \<Rightarrow> ''None'' | Some n \<Rightarrow> show_int n)
          | Inl _ \<Rightarrow> [])"

definition cmd_add_member :: "string \<Rightarrow> string \<Rightarrow> ns_manager \<Rightarrow> console \<times> ns_manager" where
  "cmd_add_member name i m =
     ns_report name (member_limit_text name m) (\<lambda>_. changed_line ''Added member '' i '' to namespace '' name)
       (add_member name i m)"

definition cmd_remove_member :: "string \<Rightarrow> string \<Rightarrow> ns_manager \<Rightarrow> console \<times> ns_manager" where
  "cmd_remove_member name i m =
     ns_report name [] (\<lambda>_. changed_line ''Removed member '' i '' from namespace '' name) (remove_member name i m)"

section \<open>The commands and a running manager\<close>

text \<open>A command line that changes a namespace, and the call of the manager it stands for.\<close>

datatype ns_command =
    CreateNs string "string option" bool "int option" "string list"
  | DeleteNs string bool
  | AddAdminNs string string
  | RemoveAdminNs string string
  | AddMemberNs string string
  | RemoveMemberNs string string

fun apply_ns_command :: "string \<Rightarrow> ns_command \<Rightarrow> ns_manager \<Rightarrow> console \<times> ns_manager" where
  "apply_ns_command now (CreateNs n d p mx as) m = cmd_create n d p mx as now m"
| "apply_ns_command now (DeleteNs n f) m = cmd_delete True n f m"
| "apply_ns_command now (AddAdminNs n i) m = cmd_add_admin n i m"
| "apply_ns_command now (RemoveAdminNs n i) m = cmd_remove_admin n i m"
| "apply_ns_command now (AddMemberNs n i) m = cmd_add_member n i m"
| "apply_ns_command now (RemoveMemberNs n i) m = cmd_remove_member n i m"

definition run_ns_command :: "string \<Rightarrow> ns_command \<Rightarrow> (string, jdict) dict \<Rightarrow> console \<times> (string, jdict) dict" where
  "run_ns_command now c = with_manager now (apply_ns_command now c)"

fun command_op :: "ns_command \<Rightarrow> ns_op" where
  "command_op (CreateNs n d p mx as) = NsCreate n d (Some as) p mx"
| "command_op (DeleteNs n f) = NsDelete n f"
| "command_op (AddAdminNs n i) = NsAddAdmin n i"
| "command_op (RemoveAdminNs n i) = NsRemoveAdmin n i"
| "command_op (AddMemberNs n i) = NsAddMember n i"
| "command_op (RemoveMemberNs n i) = NsRemoveMember n i"

lemma ns_report_manager [simp]: "snd (ns_report name bad ok rm) = snd rm"
  by (auto simp: ns_report_def console_defs split: prod.split sum.split exn.split)

lemma ns_command_apply: "snd (apply_ns_command now c m) = ns_apply now (command_op c) m"
  by (cases c) (simp_all add: cmd_create_def cmd_delete_def cmd_add_admin_def cmd_remove_admin_def cmd_add_member_def
    cmd_remove_member_def)

lemma run_ns_command_files: "snd (run_ns_command now c files) = nm_files (ns_apply now (command_op c) (new_manager now files))"
  by (simp add: run_ns_command_def with_manager_def ns_command_apply)

text \<open>Two managers with the same namespaces, the default one aside.\<close>

definition same_namespaces :: "ns_manager \<Rightarrow> ns_manager \<Rightarrow> bool" where
  "same_namespaces m m' \<longleftrightarrow>
     manager_ok m \<and> manager_ok m' \<and> (\<forall>k. k \<noteq> default_namespace \<longrightarrow> dget (nm_namespaces m) k = dget (nm_namespaces m') k)"

lemma default_present: "manager_ok m \<Longrightarrow> has_key (nm_namespaces m) default_namespace"
  by (simp add: manager_ok_def has_key_def)

lemma manager_ok_restart: "manager_ok m \<Longrightarrow> manager_ok (new_manager now (nm_files m))"
proof -
  assume ok: "manager_ok m"
  have d: "dget (nm_namespaces (new_manager now (nm_files m))) default_namespace \<noteq> None"
    using default_present [OF ok] restart_dget [OF ok, of now default_namespace] by (simp add: has_key_iff)
  have "\<forall>k d. dget (nm_files m) k = Some d \<longrightarrow>
      (\<exists>ns. dget (nm_namespaces (new_manager now (nm_files m))) k = Some ns \<and> d = ns_to_dict ns)"
  proof (intro allI impI)
    fix k d
    assume f: "dget (nm_files m) k = Some d"
    then obtain ns where "dget (nm_namespaces m) k = Some ns" "d = ns_to_dict ns"
      using ok unfolding manager_ok_def by blast
    moreover have "k \<in> set (dkeys (nm_files m))" using f map_of_eq_None_iff [of "nm_files m" k] by simp
    ultimately show "\<exists>ns. dget (nm_namespaces (new_manager now (nm_files m))) k = Some ns \<and> d = ns_to_dict ns"
      using restart_dget [OF ok, of now k] by simp
  qed
  moreover have "\<forall>k ns. dget (nm_namespaces (new_manager now (nm_files m))) k = Some ns \<longrightarrow>
      ns_name ns = k \<and> ns_dht_prefix ns \<noteq> [] \<and> (k = default_namespace \<or> k \<in> set (dkeys (nm_files m)))"
    using restart_dget [OF ok, of now] manager_okD(1,2) [OF ok] by (simp add: make_namespace_def)
  moreover have "distinct (dkeys (nm_files m))" using ok by (simp add: manager_ok_def)
  ultimately show ?thesis
    using d by (simp add: manager_ok_def new_manager_def map_of_eq_None_iff)
qed

lemma same_restart: "same_namespaces m m' \<Longrightarrow> same_namespaces (new_manager now (nm_files m)) m'"
proof -
  assume s: "same_namespaces m m'"
  then have ok: "manager_ok m" by (simp add: same_namespaces_def)
  have "dget (nm_namespaces (new_manager now (nm_files m))) k = dget (nm_namespaces m) k" if "k \<noteq> default_namespace" for k
    using restart_dget [OF ok, of now k] manager_okD(3) [OF ok, of k] that
    by (cases "dget (nm_namespaces m) k") auto
  then show ?thesis using s manager_ok_restart [OF ok] by (simp add: same_namespaces_def)
qed

text \<open>A call changes the namespace of its name only, by what it finds under that name.\<close>

lemma on_namespace_dget:
  assumes "manager_ok m" "\<forall>ns ns'. f ns = Inr (Some ns') \<longrightarrow> ns_name ns' = ns_name ns"
  shows "dget (nm_namespaces (snd (on_namespace name f m))) k =
    (if k = name then
       (case dget (nm_namespaces m) k of
          None \<Rightarrow> None
        | Some ns \<Rightarrow> (case f ns of Inr (Some ns') \<Rightarrow> Some ns' | _ \<Rightarrow> Some ns))
     else dget (nm_namespaces m) k)"
  using assms manager_okD(1) [OF assms(1)]
  by (auto simp: on_namespace_def ns_get_def save_namespace_def split: option.split sum.split)

lemma same_on_namespace:
  assumes "same_namespaces m m'" "k \<noteq> default_namespace"
    and "\<forall>ns ns'. f ns = Inr (Some ns') \<longrightarrow> ns_name ns' = ns_name ns"
  shows "dget (nm_namespaces (snd (on_namespace name f m))) k = dget (nm_namespaces (snd (on_namespace name f m'))) k"
proof -
  have ok: "manager_ok m" "manager_ok m'" and e: "dget (nm_namespaces m) k = dget (nm_namespaces m') k"
    using assms(1,2) by (auto simp: same_namespaces_def)
  show ?thesis unfolding on_namespace_dget [OF ok(1) assms(3)] on_namespace_dget [OF ok(2) assms(3)] e ..
qed

lemma same_create:
  assumes s: "same_namespaces m m'" and k: "k \<noteq> default_namespace"
  shows "dget (nm_namespaces (snd (ns_create now n d a p mx m))) k =
    dget (nm_namespaces (snd (ns_create now n d a p mx m'))) k"
proof -
  have "has_key (nm_namespaces m) n = has_key (nm_namespaces m') n"
    using s default_present by (cases "n = default_namespace") (auto simp: same_namespaces_def has_key_iff)
  then show ?thesis
    using s k by (auto simp: ns_create_def save_namespace_def make_namespace_def same_namespaces_def Let_def)
qed

lemma same_delete:
  assumes s: "same_namespaces m m'" and k: "k \<noteq> default_namespace"
  shows "dget (nm_namespaces (snd (ns_delete n f m))) k = dget (nm_namespaces (snd (ns_delete n f m'))) k"
proof (cases "n = default_namespace")
  case False
  then have "ns_get m n = ns_get m' n" using s by (simp add: same_namespaces_def ns_get_def)
  then show ?thesis using s k by (auto simp: ns_delete_def same_namespaces_def split: sum.split)
qed (use assms in \<open>simp add: ns_delete_def same_namespaces_def\<close>)

lemma same_apply:
  assumes "same_namespaces m m'"
  shows "same_namespaces (ns_apply now (command_op c) m) (ns_apply now (command_op c) m')"
proof -
  have ok: "manager_ok (ns_apply now (command_op c) m)" "manager_ok (ns_apply now (command_op c) m')"
    using assms by (simp_all add: same_namespaces_def manager_ok_apply)
  have "dget (nm_namespaces (ns_apply now (command_op c) m)) k = dget (nm_namespaces (ns_apply now (command_op c) m')) k"
    if k: "k \<noteq> default_namespace" for k
    by (cases c)
      (auto simp: add_admin_def remove_admin_def add_member_def remove_member_def same_create [OF assms k]
        same_delete [OF assms k] split: if_splits intro!: same_on_namespace [OF assms k])
  then show ?thesis using ok by (simp add: same_namespaces_def)
qed

text \<open>Commands one after the other, each with the time it runs at, on the files of an empty directory.\<close>

definition run_ns_commands :: "(string \<times> ns_command) list \<Rightarrow> (string, jdict) dict" where
  "run_ns_commands cs = fold (\<lambda>(now, c) files. snd (run_ns_command now c files)) cs []"

definition ns_calls :: "(string \<times> ns_command) list \<Rightarrow> (string \<times> ns_op) list" where
  "ns_calls cs = map (apsnd command_op) cs"

lemma same_run_commands:
  "same_namespaces m m' \<Longrightarrow>
   \<exists>n. nm_files n = fold (\<lambda>(now, c) files. snd (run_ns_command now c files)) cs (nm_files m)
     \<and> same_namespaces n (fold (\<lambda>(t, op). ns_apply t op) (ns_calls cs) m')"
proof (induction cs arbitrary: m m')
  case Nil
  then show ?case by (auto simp: ns_calls_def)
next
  case (Cons p cs)
  obtain t c where p: "p = (t, c)" by (cases p)
  let ?n = "ns_apply t (command_op c) (new_manager t (nm_files m))"
  have "same_namespaces ?n (ns_apply t (command_op c) m')"
    by (rule same_apply) (rule same_restart [OF Cons.prems])
  from Cons.IH [OF this] show ?case by (simp add: p ns_calls_def run_ns_command_files)
qed

text \<open>
  C33. However many commands have run, each a process that loads the files and ends, a manager started on what
  they left behind knows, under every name but the default one, exactly what one manager that took all those
  calls itself would know: nothing is lost or added between the processes.
\<close>

theorem commands_like_running_manager:
  "k = default_namespace \<or>
   ns_get (new_manager now (run_ns_commands cs)) k = ns_get (ns_run t0 (ns_calls cs)) k"
proof -
  have "same_namespaces (new_manager t0 []) (new_manager t0 [])" by (simp add: same_namespaces_def manager_ok_new)
  then obtain n where n: "nm_files n = run_ns_commands cs"
      "same_namespaces n (ns_run t0 (ns_calls cs))"
    using same_run_commands [of "new_manager t0 []" "new_manager t0 []" cs]
    by (auto simp: run_ns_commands_def ns_run_def new_manager_def)
  have "same_namespaces (new_manager now (nm_files n)) (ns_run t0 (ns_calls cs))"
    by (rule same_restart) (rule n(2))
  then show ?thesis by (auto simp: n(1) same_namespaces_def ns_get_def)
qed

end
