(* ===== verification/Sftp.thy ===== *)
theory Sftp
  imports Posix_Path
begin

text \<open>
  \<^verbatim>\<open>src/wh/transfer/sftp.py\<close>: the interactive SFTP client, from a line that is typed to the calls of the SFTP
  session and the lines that are printed. The session itself (\<^verbatim>\<open>asyncssh\<close>) and the local file system are
  parameters; what they answer may depend on all calls so far. The prompt is left out.
\<close>

section \<open>The client\<close>

text \<open>The calls of the session, in their order; the paths are those the client computes.\<close>

datatype sftp_call =
    AskList string
  | AskStat string
  | AskGet string string
  | AskPut string string
  | AskMkdir string
  | AskRemove string
  | AskRmdir string

record sftp_entry =
  sy_name :: string
  sy_size :: "int option"
  sy_perms :: "int option"

text \<open>Answers: an exception with its text, or the result; \<^verbatim>\<open>sv_stat\<close> gives the permissions.\<close>

record sftp_env =
  sv_list :: "sftp_call list \<Rightarrow> string \<Rightarrow> string + sftp_entry list"
  sv_stat :: "sftp_call list \<Rightarrow> string \<Rightarrow> string + int option"
  sv_call :: "sftp_call list \<Rightarrow> sftp_call \<Rightarrow> string option"
  sv_isdir :: "sftp_call list \<Rightarrow> string \<Rightarrow> bool"
  sv_home :: string

record sftp =
  sf_open :: bool
  sf_cwd :: string
  sf_lcwd :: string
  sf_calls :: "sftp_call list"

definition new_sftp :: "string \<Rightarrow> sftp" where
  "new_sftp local_cwd = \<lparr>sf_open = False, sf_cwd = ''/'', sf_lcwd = local_cwd, sf_calls = []\<rparr>"

text \<open>\<^verbatim>\<open>connect\<close>, given what \<^verbatim>\<open>getcwd\<close> of the new session answers.\<close>

definition sftp_connected :: "string + string option \<Rightarrow> sftp \<Rightarrow> (string + unit) \<times> sftp" where
  "sftp_connected cwd s =
     (let s1 = s\<lparr>sf_open := True\<rparr> in
      case cwd of
        Inl e \<Rightarrow> (Inl e, s1)
      | Inr c \<Rightarrow> (Inr (), s1\<lparr>sf_cwd := (if truthy c then the c else ''/'')\<rparr>))"

definition sftp_closed :: "sftp \<Rightarrow> sftp" where
  "sftp_closed s = s\<lparr>sf_open := False\<rparr>"

definition asked :: "sftp_call \<Rightarrow> sftp \<Rightarrow> sftp" where
  "asked c s = s\<lparr>sf_calls := sf_calls s @ [c]\<rparr>"

definition remote_path :: "sftp \<Rightarrow> string \<Rightarrow> string" where
  "remote_path s p = (if \<not> startswith p ''/'' then path_join (sf_cwd s) p else p)"

definition local_path :: "sftp \<Rightarrow> string \<Rightarrow> string" where
  "local_path s p = (if \<not> startswith p ''/'' then path_join (sf_lcwd s) p else p)"

text \<open>\<^verbatim>\<open>stat.S_ISDIR\<close> and \<^verbatim>\<open>stat.S_ISLNK\<close>: the bits \<^verbatim>\<open>0o170000\<close> of a mode.\<close>

definition file_type :: "int \<Rightarrow> int" where
  "file_type mode = mode div 4096 mod 16"

definition is_directory :: "int option \<Rightarrow> bool" where
  "is_directory perms = (case perms of None \<Rightarrow> False | Some m \<Rightarrow> m \<noteq> 0 \<and> file_type m = 4)"

definition sftp_ls :: "sftp_env \<Rightarrow> string \<Rightarrow> sftp \<Rightarrow> (string + sftp_entry list) \<times> sftp" where
  "sftp_ls env path s =
     (if \<not> sf_open s then (Inl ''Not connected'', s)
      else (let p = remote_path s path in (sv_list env (sf_calls s) p, asked (AskList p) s)))"

definition sftp_cd :: "sftp_env \<Rightarrow> string \<Rightarrow> sftp \<Rightarrow> (string + string) \<times> sftp" where
  "sftp_cd env path s =
     (if \<not> sf_open s then (Inl ''Not connected'', s)
      else
        (let p = normpath (remote_path s path); s1 = asked (AskStat p) s in
         case sv_stat env (sf_calls s) p of
           Inl e \<Rightarrow> (Inl e, s1)
         | Inr perms \<Rightarrow>
             if \<not> is_directory perms then (Inl (''Not a directory: '' @ p), s1)
             else (Inr p, s1\<lparr>sf_cwd := p\<rparr>)))"

definition sftp_lcd :: "sftp_env \<Rightarrow> string \<Rightarrow> sftp \<Rightarrow> (string + string) \<times> sftp" where
  "sftp_lcd env path s =
     (let p = normpath (local_path s path) in
      if \<not> sv_isdir env (sf_calls s) p then (Inl (''Not a directory: '' @ p), s)
      else (Inr p, s\<lparr>sf_lcwd := p\<rparr>))"

text \<open>A call of the session that gives nothing back.\<close>

definition sftp_do :: "sftp_env \<Rightarrow> (sftp \<Rightarrow> sftp_call) \<Rightarrow> sftp \<Rightarrow> (string + unit) \<times> sftp" where
  "sftp_do env call s =
     (if \<not> sf_open s then (Inl ''Not connected'', s)
      else
        ((case sv_call env (sf_calls s) (call s) of Some e \<Rightarrow> Inl e | None \<Rightarrow> Inr ()), asked (call s) s))"

definition sftp_get :: "sftp_env \<Rightarrow> string \<Rightarrow> string option \<Rightarrow> sftp \<Rightarrow> (string + unit) \<times> sftp" where
  "sftp_get env remote local =
     sftp_do env (\<lambda>s.
       let r = remote_path s remote in
       AskGet r (case local of None \<Rightarrow> path_join (sf_lcwd s) (path_basename r) | Some l \<Rightarrow> local_path s l))"

definition sftp_put :: "sftp_env \<Rightarrow> string \<Rightarrow> string option \<Rightarrow> sftp \<Rightarrow> (string + unit) \<times> sftp" where
  "sftp_put env local remote =
     sftp_do env (\<lambda>s.
       let l = local_path s local in
       AskPut l (case remote of None \<Rightarrow> path_join (sf_cwd s) (path_basename l) | Some r \<Rightarrow> remote_path s r))"

definition sftp_mkdir :: "sftp_env \<Rightarrow> string \<Rightarrow> sftp \<Rightarrow> (string + unit) \<times> sftp" where
  "sftp_mkdir env path = sftp_do env (\<lambda>s. AskMkdir (remote_path s path))"

definition sftp_rm :: "sftp_env \<Rightarrow> string \<Rightarrow> sftp \<Rightarrow> (string + unit) \<times> sftp" where
  "sftp_rm env path = sftp_do env (\<lambda>s. AskRemove (remote_path s path))"

definition sftp_rmdir :: "sftp_env \<Rightarrow> string \<Rightarrow> sftp \<Rightarrow> (string + unit) \<times> sftp" where
  "sftp_rmdir env path = sftp_do env (\<lambda>s. AskRmdir (remote_path s path))"

section \<open>Lines\<close>

text \<open>\<^verbatim>\<open>str.split()\<close>: the words between runs of white space.\<close>

fun split_words :: "string \<Rightarrow> string \<Rightarrow> string list" where
  "split_words w [] = (if w = [] then [] else [w])"
| "split_words w (c # s) =
     (if is_space c then (if w = [] then [] else [w]) @ split_words [] s else split_words (w @ [c]) s)"

definition type_char :: "int option \<Rightarrow> string" where
  "type_char perms =
     (case perms of
        None \<Rightarrow> ''?''
      | Some m \<Rightarrow> if m = 0 then ''?'' else if file_type m = 4 then ''d'' else if file_type m = 10 then ''l'' else ''-'')"

definition format_entry :: "sftp_entry \<Rightarrow> string" where
  "format_entry x =
     (let size_text = show_int (case sy_size x of None \<Rightarrow> 0 | Some n \<Rightarrow> n) in
      type_char (sy_perms x) @ '' '' @ replicate (10 - length size_text) (CHR '' '') @ size_text @ ''  '' @ sy_name x)"

definition help_lines :: "string list" where
  "help_lines =
     [''Available commands:'', ''  ls [path]           List directory'',
      ''  cd <path>           Change remote directory'', ''  pwd                 Print remote working directory'',
      ''  lcd <path>          Change local directory'', ''  lpwd                Print local working directory'',
      ''  get <remote> [local]  Download file'', ''  put <local> [remote]  Upload file'',
      ''  mkdir <path>        Create directory'', ''  rm <path>           Remove file'',
      ''  rmdir <path>        Remove directory'', ''  help                Show this help'',
      ''  quit/exit/bye       Close session'']"

definition reported :: "('a \<Rightarrow> string list) \<Rightarrow> (string + 'a) \<times> sftp \<Rightarrow> string list \<times> sftp" where
  "reported f r = (case fst r of Inl e \<Rightarrow> [''Error: '' @ e] | Inr x \<Rightarrow> f x, snd r)"

definition usage_or ::
  "string \<Rightarrow> string list \<Rightarrow> (string \<Rightarrow> string option \<Rightarrow> sftp \<Rightarrow> string list \<times> sftp) \<Rightarrow> sftp \<Rightarrow> string list \<times> sftp" where
  "usage_or usage args f s =
     (case args of
        [] \<Rightarrow> ([''Usage: '' @ usage], s)
      | a # others \<Rightarrow> f a (case others of [] \<Rightarrow> None | b # _ \<Rightarrow> Some b) s)"

definition run_sftp :: "sftp_env \<Rightarrow> string \<Rightarrow> string list \<Rightarrow> sftp \<Rightarrow> string list \<times> sftp" where
  "run_sftp env cmd args s =
     (if cmd = ''ls'' then
        reported (map format_entry) (sftp_ls env (case args of [] \<Rightarrow> ''.'' | a # _ \<Rightarrow> a) s)
      else if cmd = ''cd'' then
        reported (\<lambda>d. [''Changed to: '' @ d]) (sftp_cd env (case args of [] \<Rightarrow> ''/'' | a # _ \<Rightarrow> a) s)
      else if cmd = ''pwd'' then ([sf_cwd s], s)
      else if cmd = ''lpwd'' then ([sf_lcwd s], s)
      else if cmd = ''lcd'' then
        reported (\<lambda>d. [''Local directory: '' @ d]) (sftp_lcd env (case args of [] \<Rightarrow> sv_home env | a # _ \<Rightarrow> a) s)
      else if cmd = ''get'' then
        usage_or ''get <remote_path> [local_path]'' args
          (\<lambda>a b s. reported (\<lambda>_. [''Downloaded: '' @ a]) (sftp_get env a b s)) s
      else if cmd = ''put'' then
        usage_or ''put <local_path> [remote_path]'' args
          (\<lambda>a b s. reported (\<lambda>_. [''Uploaded: '' @ a]) (sftp_put env a b s)) s
      else if cmd = ''mkdir'' then
        usage_or ''mkdir <path>'' args (\<lambda>a b s. reported (\<lambda>_. [''Created: '' @ a]) (sftp_mkdir env a s)) s
      else if cmd = ''rm'' then
        usage_or ''rm <path>'' args (\<lambda>a b s. reported (\<lambda>_. [''Removed: '' @ a]) (sftp_rm env a s)) s
      else if cmd = ''rmdir'' then
        usage_or ''rmdir <path>'' args (\<lambda>a b s. reported (\<lambda>_. [''Removed directory: '' @ a]) (sftp_rmdir env a s)) s
      else if cmd = ''help'' then (help_lines, s)
      else ([''Unknown command: '' @ cmd, ''Type '' @ [CHR 0x27] @ ''help'' @ [CHR 0x27] @ '' for available commands''], s))"

text \<open>\<^verbatim>\<open>execute_command\<close>: whether the session goes on, what is printed, and the new state.\<close>

definition line_words :: "string \<Rightarrow> string list" where
  "line_words line = split_words [] (strip line)"

definition execute_command :: "sftp_env \<Rightarrow> string \<Rightarrow> sftp \<Rightarrow> bool \<times> string list \<times> sftp" where
  "execute_command env line s =
     (case line_words line of
        [] \<Rightarrow> (True, [], s)
      | w # args \<Rightarrow>
          (let cmd = lower w in
           if cmd \<in> {''quit'', ''exit'', ''bye''} then (False, [], s)
           else (True, run_sftp env cmd args s)))"

text \<open>\<^verbatim>\<open>interactive_loop\<close> on the lines that are typed before the end of the input.\<close>

fun sftp_lines :: "sftp_env \<Rightarrow> string list \<Rightarrow> sftp \<Rightarrow> string list \<times> sftp" where
  "sftp_lines env [] s = ([], s)"
| "sftp_lines env (l # ls) s =
     (case execute_command env l s of
        (False, out, s') \<Rightarrow> (out, s')
      | (True, out, s') \<Rightarrow> apfst ((@) out) (sftp_lines env ls s'))"

definition interactive_loop :: "sftp_env \<Rightarrow> string list \<Rightarrow> sftp \<Rightarrow> string list \<times> sftp" where
  "interactive_loop env ls s =
     apfst (\<lambda>out. (''SFTP session started. Type '' @ [CHR 0x27] @ ''help'' @ [CHR 0x27] @ '' for commands.'') # out @ [''Goodbye!''])
       (sftp_lines env ls s)"

section \<open>Where a session goes\<close>

fun call_absolute :: "sftp_call \<Rightarrow> bool" where
  "call_absolute (AskList p) = isabs p"
| "call_absolute (AskStat p) = isabs p"
| "call_absolute (AskGet r l) = (isabs r \<and> isabs l)"
| "call_absolute (AskPut l r) = (isabs l \<and> isabs r)"
| "call_absolute (AskMkdir p) = isabs p"
| "call_absolute (AskRemove p) = isabs p"
| "call_absolute (AskRmdir p) = isabs p"

text \<open>The directory is the first one, or one that the server called a directory.\<close>

definition confirmed_dir :: "sftp_env \<Rightarrow> string \<Rightarrow> sftp \<Rightarrow> bool" where
  "confirmed_dir env d0 s \<longleftrightarrow>
     sf_cwd s = d0 \<or> (\<exists>h t m. sf_calls s = h @ AskStat (sf_cwd s) # t \<and> sv_stat env h (sf_cwd s) = Inr m \<and> is_directory m)"

definition sftp_ok :: "sftp_env \<Rightarrow> string \<Rightarrow> sftp \<Rightarrow> bool" where
  "sftp_ok env d0 s \<longleftrightarrow>
     isabs (sf_cwd s) \<and> isabs (sf_lcwd s) \<and> (\<forall>c \<in> set (sf_calls s). call_absolute c) \<and> confirmed_dir env d0 s"

lemma isabs_join: "isabs a \<Longrightarrow> isabs (path_join a b)"
  by (cases a) (auto simp: isabs_def path_join_def startswith_def)

lemma isabs_normpath: "isabs p \<Longrightarrow> isabs (normpath p)"
  by (auto simp: isabs_def normpath_def initial_slashes_def startswith_def Let_def numeral_2_eq_2)

lemma isabs_remote: "isabs (sf_cwd s) \<Longrightarrow> isabs (remote_path s p)"
  using isabs_join by (auto simp: remote_path_def isabs_def)

lemma isabs_local: "isabs (sf_lcwd s) \<Longrightarrow> isabs (local_path s p)"
  using isabs_join by (auto simp: local_path_def isabs_def)

lemmas isabs_paths = isabs_join isabs_normpath isabs_remote isabs_local

lemma sftp_ok_asked: "sftp_ok env d0 s \<Longrightarrow> call_absolute c \<Longrightarrow> sftp_ok env d0 (asked c s)"
  unfolding sftp_ok_def confirmed_dir_def asked_def by fastforce

lemma sftp_ok_do:
  "sftp_ok env d0 s \<Longrightarrow> call_absolute (call s) \<Longrightarrow> sftp_ok env d0 (snd (sftp_do env call s))"
  by (auto simp: sftp_do_def intro: sftp_ok_asked)

lemma sftp_ok_ls: "sftp_ok env d0 s \<Longrightarrow> sftp_ok env d0 (snd (sftp_ls env p s))"
  using isabs_remote [of s p] by (auto simp: sftp_ls_def Let_def sftp_ok_def [of env d0 s] intro!: sftp_ok_asked)

lemma sftp_ok_cd:
  assumes ok: "sftp_ok env d0 s"
  shows "sftp_ok env d0 (snd (sftp_cd env path s))"
proof -
  let ?p = "normpath (remote_path s path)"
  have p: "isabs ?p" using ok by (simp add: sftp_ok_def isabs_paths)
  then have a: "sftp_ok env d0 (asked (AskStat ?p) s)" using ok by (simp add: sftp_ok_asked)
  have "sftp_ok env d0 (asked (AskStat ?p) s\<lparr>sf_cwd := ?p\<rparr>)" if "sv_stat env (sf_calls s) ?p = Inr m" "is_directory m" for m
    using a p that by (auto simp: sftp_ok_def confirmed_dir_def asked_def)
  then show ?thesis using ok a by (auto simp: sftp_cd_def Let_def split: sum.split)
qed

lemma sftp_ok_lcd: "sftp_ok env d0 s \<Longrightarrow> sftp_ok env d0 (snd (sftp_lcd env p s))"
  by (auto simp: sftp_lcd_def Let_def sftp_ok_def confirmed_dir_def isabs_paths)

lemma snd_reported [simp]: "snd (reported f r) = snd r"
  by (simp add: reported_def)

lemma sftp_ok_usage:
  "sftp_ok env d0 s \<Longrightarrow> (\<And>a b. sftp_ok env d0 (snd (f a b s))) \<Longrightarrow> sftp_ok env d0 (snd (usage_or u args f s))"
  by (simp add: usage_or_def split: list.split)

lemma sftp_ok_get: "sftp_ok env d0 s \<Longrightarrow> sftp_ok env d0 (snd (sftp_get env r l s))"
  unfolding sftp_get_def by (rule sftp_ok_do) (auto simp: sftp_ok_def isabs_paths Let_def split: option.split)

lemma sftp_ok_put: "sftp_ok env d0 s \<Longrightarrow> sftp_ok env d0 (snd (sftp_put env l r s))"
  unfolding sftp_put_def by (rule sftp_ok_do) (auto simp: sftp_ok_def isabs_paths Let_def split: option.split)

lemma sftp_ok_paths:
  assumes "sftp_ok env d0 s"
  shows "sftp_ok env d0 (snd (sftp_mkdir env p s))" "sftp_ok env d0 (snd (sftp_rm env p s))"
    "sftp_ok env d0 (snd (sftp_rmdir env p s))"
  unfolding sftp_mkdir_def sftp_rm_def sftp_rmdir_def
  using assms by (auto simp: sftp_ok_def [of env d0 s] isabs_paths intro!: sftp_ok_do)

lemma sftp_ok_if: "sftp_ok env d0 (snd x) \<Longrightarrow> sftp_ok env d0 (snd y) \<Longrightarrow> sftp_ok env d0 (snd (if b then x else y))"
  by simp

lemma sftp_ok_run: "sftp_ok env d0 s \<Longrightarrow> sftp_ok env d0 (snd (run_sftp env cmd args s))"
  unfolding run_sftp_def
  by (intro sftp_ok_if sftp_ok_usage; (simp only: snd_reported snd_conv)?)
    (simp_all add: sftp_ok_ls sftp_ok_cd sftp_ok_lcd sftp_ok_get sftp_ok_put sftp_ok_paths)

text \<open>The words that end a session.\<close>

definition quits :: "string \<Rightarrow> bool" where
  "quits line = (case line_words line of [] \<Rightarrow> False | w # _ \<Rightarrow> lower w \<in> {''quit'', ''exit'', ''bye''})"

lemma execute_command_goes_on: "fst (execute_command env l s) = (\<not> quits l)"
  by (simp add: execute_command_def quits_def Let_def split: list.split)

lemma execute_command_ok: "sftp_ok env d0 s \<Longrightarrow> sftp_ok env d0 (snd (snd (execute_command env l s)))"
  by (auto simp: execute_command_def Let_def sftp_ok_run split: list.split)

lemma sftp_lines_ok: "sftp_ok env d0 s \<Longrightarrow> sftp_ok env d0 (snd (sftp_lines env ls s))"
proof (induction ls arbitrary: s)
  case (Cons l ls)
  have "sftp_ok env d0 (snd (snd (execute_command env l s)))" by (rule execute_command_ok [OF Cons.prems])
  then show ?case using Cons.IH by (auto split: prod.split bool.split)
qed simp

lemma sftp_lines_until_quit: "sftp_lines env ls s = sftp_lines env (takeWhile (\<lambda>l. \<not> quits l) ls) s"
proof (induction ls arbitrary: s)
  case (Cons l ls)
  obtain g out s' where e: "execute_command env l s = (g, out, s')" by (cases "execute_command env l s") auto
  then have g: "g = (\<not> quits l)" using execute_command_goes_on [of env l s] by simp
  show ?case
  proof (cases "quits l")
    case True
    then have "out = [] \<and> s' = s" using e by (auto simp: execute_command_def quits_def Let_def split: list.splits)
    then show ?thesis using True e g by simp
  next
    case False
    then show ?thesis using e g Cons.IH [of s'] by simp
  qed
qed simp

text \<open>
  C40. An interactive session: whatever is typed and whatever the server and the disk answer, every call names
  absolute paths only, the two current directories stay absolute, the remote one is the first one or one
  that the server has called a directory, and no error ends the session: what is typed counts up to the
  first \<^verbatim>\<open>quit\<close>, \<^verbatim>\<open>exit\<close> or \<^verbatim>\<open>bye\<close>.
\<close>

theorem sftp_session_confined:
  assumes "sftp_connected (Inr cwd) (new_sftp home) = (Inr (), s0)" "isabs (sf_cwd s0)" "isabs home"
    and "interactive_loop env typed s0 = (out, s)"
  shows "isabs (sf_cwd s) \<and> isabs (sf_lcwd s) \<and> (\<forall>c \<in> set (sf_calls s). call_absolute c)
    \<and> confirmed_dir env (sf_cwd s0) s
    \<and> interactive_loop env (takeWhile (\<lambda>l. \<not> quits l) typed) s0 = (out, s)"
proof -
  have "sftp_ok env (sf_cwd s0) s0"
    using assms(1-3) by (auto simp: sftp_connected_def new_sftp_def sftp_ok_def confirmed_dir_def Let_def)
  then have "sftp_ok env (sf_cwd s0) s"
    using sftp_lines_ok [of env "sf_cwd s0" s0 typed] assms(4) by (auto simp: interactive_loop_def apfst_def map_prod_def split: prod.splits)
  moreover have "interactive_loop env (takeWhile (\<lambda>l. \<not> quits l) typed) s0 = (out, s)"
    using assms(4) sftp_lines_until_quit [of env typed s0] by (simp add: interactive_loop_def)
  ultimately show ?thesis by (simp add: sftp_ok_def)
qed

theorem sftp_session_confined_witness:
  "let env = \<lparr>sv_list = \<lambda>_ _. Inr [], sv_stat = \<lambda>_ p. Inr (Some 16877), sv_call = \<lambda>_ _. None, sv_isdir = \<lambda>_ _. True, sv_home = ''/h''\<rparr>;
       s0 = snd (sftp_connected (Inr None) (new_sftp ''/w''));
       s = snd (interactive_loop env [''cd a'', ''put f'', ''bye'', ''rm x''] s0)
   in sf_calls s = [AskStat ''/a'', AskPut ''/w/f'' ''/a/f''] \<and> isabs (sf_cwd s)"
proof -
  define env where "env = \<lparr>sv_list = \<lambda>_ _. Inr [], sv_stat = \<lambda>_ p. Inr (Some 16877), sv_call = \<lambda>_ _. None, sv_isdir = \<lambda>_ _. True, sv_home = ''/h''\<rparr>"
  define s0 where "s0 = snd (sftp_connected (Inr None) (new_sftp ''/w''))"
  let ?r = "interactive_loop env [''cd a'', ''put f'', ''bye'', ''rm x''] s0"
  have c: "sf_calls (snd ?r) = [AskStat ''/a'', AskPut ''/w/f'' ''/a/f'']" unfolding env_def s0_def by code_simp
  have a: "isabs (sf_cwd s0)" "isabs ''/w''" unfolding s0_def by code_simp+
  have k: "sftp_connected (Inr None) (new_sftp ''/w'') = (Inr (), s0)" by (simp add: s0_def sftp_connected_def Let_def)
  have "isabs (sf_cwd (snd ?r))" using sftp_session_confined [OF k a, of env _ "fst ?r" "snd ?r"] by simp
  then show ?thesis using c by (simp add: Let_def env_def s0_def)
qed

end
