(* ===== verification/Traceroute.thy ===== *)
theory Traceroute
  imports Typed_Frames Py_Text
begin

text \<open>
  \<^verbatim>\<open>src/wh/cli/traceroute.py\<close>: both sides of the command. A time is kept as the four bytes that it is packed
  into; what is measured, looked up and reached is a parameter.
\<close>

section \<open>One side\<close>

definition trace_request_msg :: nat where "trace_request_msg = 1"
definition trace_hop_msg :: nat where "trace_hop_msg = 2"
definition trace_complete_msg :: nat where "trace_complete_msg = 3"

lemmas trace_types = trace_request_msg_def trace_hop_msg_def trace_complete_msg_def

record hop =
  hp_num :: nat
  hp_name :: string
  hp_ip :: string
  hp_rtts :: "bytes list"

record tracer =
  tc_queries :: nat
  tc_linked :: bool
  tc_sent :: bytes
  tc_tasks :: "bytes list"
  tc_hops :: "hop list"
  tc_complete :: bool
  tc_done :: bool

definition new_tracer :: "nat \<Rightarrow> tracer" where
  "new_tracer queries =
     \<lparr>tc_queries = queries, tc_linked = False, tc_sent = [], tc_tasks = [], tc_hops = [], tc_complete = False,
      tc_done = False\<rparr>"

text \<open>\<^verbatim>\<open>on_connected\<close> of \<^verbatim>\<open>run_server\<close> does not store the connection, \<^verbatim>\<open>callback\<close> of \<^verbatim>\<open>run_client\<close> does.\<close>

definition trace_server_made :: "tracer \<Rightarrow> tracer" where
  "trace_server_made s = s"

definition trace_client_fired :: "tracer \<Rightarrow> tracer" where
  "trace_client_fired s = s\<lparr>tc_linked := True\<rparr>"

definition trace_send :: "nat \<Rightarrow> bytes \<Rightarrow> tracer \<Rightarrow> unit result \<times> tracer" where
  "trace_send t d s =
     (case type_send (tc_linked s) t d (tc_sent s) of
        Inl e \<Rightarrow> (Inl e, s)
      | Inr b \<Rightarrow> (Inr (), s\<lparr>tc_sent := b\<rparr>))"

definition hop_data :: "hop \<Rightarrow> bytes result" where
  "hop_data h =
     (let name = encode_utf8 (hp_name h); ip = encode_utf8 (hp_ip h) in
      case pack_fields [(1, hp_num h), (1, length name), (1, length ip)] of
        Inl e \<Rightarrow> Inl e
      | Inr front \<Rightarrow>
          (case pack_fields [(1, length (hp_rtts h))] of
             Inl e \<Rightarrow> Inl e
           | Inr count \<Rightarrow> Inr (front @ name @ ip @ count @ concat (hp_rtts h))))"

definition send_hop :: "hop \<Rightarrow> tracer \<Rightarrow> unit result \<times> tracer" where
  "send_hop h s = (case hop_data h of Inl e \<Rightarrow> (Inl e, s) | Inr d \<Rightarrow> trace_send trace_hop_msg d s)"

text \<open>
  What the server measures: the time of a short sleep with 10 or 25 milliseconds added, for the hop and
  the query; the address of a host; and for each query of the host the time to connect, unless that fails.
\<close>

record trace_env =
  ev_sleep :: "nat \<Rightarrow> nat \<Rightarrow> bytes"
  ev_lookup :: "string \<Rightarrow> string option"
  ev_connect :: "string \<Rightarrow> nat \<Rightarrow> bytes option"

definition traced_host :: "bytes \<Rightarrow> string option" where
  "traced_host b =
     (if length b < 1 then None
      else if length b < 1 + unat (hd b) then None
      else decode_utf8 (take (unat (hd b)) (drop 1 b)))"

definition sleep_hop :: "trace_env \<Rightarrow> nat \<Rightarrow> nat \<Rightarrow> string \<Rightarrow> string \<Rightarrow> hop" where
  "sleep_hop env q n name ip = \<lparr>hp_num = n, hp_name = name, hp_ip = ip, hp_rtts = map (ev_sleep env n) [0..<q]\<rparr>"

definition relay_hop :: "trace_env \<Rightarrow> nat \<Rightarrow> hop" where
  "relay_hop env q = sleep_hop env q 1 ''wormhole-relay'' ''relay.magic-wormhole.io''"

definition peer_hop :: "trace_env \<Rightarrow> nat \<Rightarrow> hop" where
  "peer_hop env q = sleep_hop env q 2 ''wormhole-peer'' ''peer''"

definition unknown_hop :: "string \<Rightarrow> hop" where
  "unknown_hop host = \<lparr>hp_num = 3, hp_name = host, hp_ip = ''*'', hp_rtts = []\<rparr>"

definition host_hop :: "trace_env \<Rightarrow> nat \<Rightarrow> string \<Rightarrow> string \<Rightarrow> hop" where
  "host_hop env q host ip =
     \<lparr>hp_num = 3, hp_name = host, hp_ip = ip, hp_rtts = List.map_filter (ev_connect env host) [0..<q]\<rparr>"

text \<open>The third hop, whose exceptions are caught.\<close>

definition send_host_hop :: "trace_env \<Rightarrow> string \<Rightarrow> tracer \<Rightarrow> unit result \<times> tracer" where
  "send_host_hop env host s =
     (case ev_lookup env host of
        None \<Rightarrow> send_hop (unknown_hop host) s
      | Some ip \<Rightarrow>
          (case send_hop (host_hop env (tc_queries s) host ip) s of
             (Inl _, s') \<Rightarrow> send_hop (unknown_hop host) s'
           | r \<Rightarrow> r))"

definition after_hop :: "(tracer \<Rightarrow> unit result \<times> tracer) \<Rightarrow> unit result \<times> tracer \<Rightarrow> unit result \<times> tracer" where
  "after_hop f r = (case r of (Inl e, s) \<Rightarrow> (Inl e, s) | (Inr _, s) \<Rightarrow> f s)"

definition handle_trace_request :: "trace_env \<Rightarrow> bytes \<Rightarrow> tracer \<Rightarrow> tracer" where
  "handle_trace_request env b s =
     (case traced_host b of
        None \<Rightarrow> s
      | Some host \<Rightarrow>
          snd (after_hop (trace_send trace_complete_msg [])
            (after_hop (send_host_hop env host)
              (after_hop (send_hop (peer_hop env (tc_queries s))) (send_hop (relay_hop env (tc_queries s)) s)))))"

text \<open>The times of a hop, as many as the payload has.\<close>

fun read_rtts :: "nat \<Rightarrow> bytes \<Rightarrow> bytes list" where
  "read_rtts 0 b = []"
| "read_rtts (Suc k) b = (if length b < 4 then [] else take 4 b # read_rtts k (drop 4 b))"

definition handle_hop_result :: "bytes \<Rightarrow> tracer \<Rightarrow> exn option \<times> tracer" where
  "handle_hop_result b s =
     (if length b < 3 then (None, s)
      else
        (let n = unat (b ! 1); k = unat (b ! 2) in
         if length b < 3 + n + k + 1 then (None, s)
         else
           (case (decode_utf8 (take n (drop 3 b)), decode_utf8 (take k (drop (3 + n) b))) of
              (Some name, Some ip) \<Rightarrow>
                (None, s\<lparr>tc_hops := tc_hops s @
                   [\<lparr>hp_num = unat (b ! 0), hp_name = name, hp_ip = ip,
                     hp_rtts = read_rtts (unat (b ! (3 + n + k))) (drop (3 + n + k + 1) b)\<rparr>]\<rparr>)
            | _ \<Rightarrow> (Some ValueError, s))))"

definition handle_trace :: "nat \<times> bytes \<Rightarrow> tracer \<Rightarrow> bool \<times> tracer" where
  "handle_trace m s =
     (if fst m = trace_request_msg then (True, s\<lparr>tc_tasks := tc_tasks s @ [snd m]\<rparr>)
      else if fst m = trace_hop_msg then (case handle_hop_result (snd m) s of (e, s') \<Rightarrow> (e = None, s'))
      else if fst m = trace_complete_msg then (True, s\<lparr>tc_complete := True\<rparr>)
      else (True, s))"

definition trace_on_data :: "bytes \<Rightarrow> bytes \<times> tracer \<Rightarrow> bytes \<times> tracer" where
  "trace_on_data = feed type_header (\<lambda>f. handle_trace (type_message f))"

definition run_trace_task :: "trace_env \<Rightarrow> tracer \<Rightarrow> tracer" where
  "run_trace_task env s =
     (case tc_tasks s of
        [] \<Rightarrow> s
      | b # bs \<Rightarrow> handle_trace_request env b (s\<lparr>tc_tasks := bs\<rparr>))"

definition trace_lost :: "tracer \<Rightarrow> tracer" where
  "trace_lost s = s\<lparr>tc_done := True, tc_complete := True\<rparr>"

text \<open>\<^verbatim>\<open>trace\<close> up to its wait, and its result once the trace is complete or 120 seconds have passed.\<close>

definition start_trace :: "string \<Rightarrow> tracer \<Rightarrow> unit result \<times> tracer" where
  "start_trace host s =
     (let hb = encode_utf8 host; s1 = s\<lparr>tc_hops := [], tc_complete := False\<rparr> in
      if 256 \<le> length hb then (Inl ValueError, s1)
      else trace_send trace_request_msg (word_of_nat (length hb) # hb) s1)"

definition trace_result :: "tracer \<Rightarrow> hop list" where
  "trace_result s = sort_key hp_num (tc_hops s)"

section \<open>Hops and their data\<close>

definition hop_ok :: "hop \<Rightarrow> bool" where
  "hop_ok h \<longleftrightarrow> hp_num h < 256 \<and> length (encode_utf8 (hp_name h)) < 256 \<and> length (encode_utf8 (hp_ip h)) < 256
     \<and> length (hp_rtts h) < 256 \<and> (\<forall>r \<in> set (hp_rtts h). length r = 4)"

lemma read_rtts_concat: "\<forall>r \<in> set rs. length r = 4 \<Longrightarrow> read_rtts (length rs) (concat rs) = rs"
  by (induction rs) simp_all

lemma pack_be_1: "pack_be 1 n = [word_of_nat (n mod 256)]"
  by (simp add: pack_be_def)

lemma hop_data_ok:
  assumes "hop_ok h"
  shows "hop_data h = Inr (word_of_nat (hp_num h) # word_of_nat (length (encode_utf8 (hp_name h)))
    # word_of_nat (length (encode_utf8 (hp_ip h))) # encode_utf8 (hp_name h) @ encode_utf8 (hp_ip h)
    @ word_of_nat (length (hp_rtts h)) # concat (hp_rtts h))"
  using assms unfolding hop_ok_def by (simp add: hop_data_def Let_def pack_be_1 [unfolded One_nat_def])

lemma hop_data_read:
  assumes ok: "hop_ok h" and d: "hop_data h = Inr d"
  shows "handle_hop_result d s = (None, s\<lparr>tc_hops := tc_hops s @ [h]\<rparr>)"
proof -
  let ?n = "encode_utf8 (hp_name h)" and ?k = "encode_utf8 (hp_ip h)"
  define rest where "rest = word_of_nat (length (hp_rtts h)) # concat (hp_rtts h)"
  have u: "unat (word_of_nat (hp_num h) :: byte) = hp_num h" "unat (word_of_nat (length ?n) :: byte) = length ?n"
    "unat (word_of_nat (length ?k) :: byte) = length ?k" "unat (word_of_nat (length (hp_rtts h)) :: byte) = length (hp_rtts h)"
    using ok by (simp_all add: hop_ok_def unat_of_nat)
  have e: "d = [word_of_nat (hp_num h), word_of_nat (length ?n), word_of_nat (length ?k)] @ ?n @ ?k @ rest"
    using hop_data_ok [OF ok] d by (simp add: rest_def)
  have p: "d ! 0 = word_of_nat (hp_num h)" "d ! 1 = word_of_nat (length ?n)" "d ! 2 = word_of_nat (length ?k)"
    "take (length ?n) (drop 3 d) = ?n" "drop (3 + length ?n) d = ?k @ rest" "drop (3 + length ?n + length ?k) d = rest"
    unfolding e by (simp_all add: eval_nat_numeral)
  have q: "d ! (3 + length ?n + length ?k) = word_of_nat (length (hp_rtts h))"
    using p(6) nth_via_drop [of "3 + length ?n + length ?k" d] by (simp add: rest_def)
  have t: "drop (3 + length ?n + length ?k + 1) d = concat (hp_rtts h)"
    using p(6) by (metis drop_drop drop_Suc_Cons drop0 rest_def One_nat_def add.commute)
  have l: "\<not> length d < 3" "\<not> length d < 3 + length ?n + length ?k + 1" unfolding e by (simp_all add: rest_def)
  have r: "read_rtts (length (hp_rtts h)) (concat (hp_rtts h)) = hp_rtts h"
    using ok read_rtts_concat by (simp add: hop_ok_def)
  show ?thesis
    unfolding handle_hop_result_def Let_def p(1-3) u p(4,5) q t r using l by simp
qed

lemma send_hop_ok:
  assumes "hop_ok h" "tc_linked s"
  shows "\<exists>d bs. hop_data h = Inr d \<and> type_frame (trace_hop_msg, d) = Inr bs
    \<and> send_hop h s = (Inr (), s\<lparr>tc_sent := tc_sent s @ bs\<rparr>)"
proof -
  obtain d where d: "hop_data h = Inr d" using hop_data_ok [OF assms(1)] by blast
  have "length (concat rs) = 4 * length rs" if "\<forall>r \<in> set rs. length r = 4" for rs :: "bytes list"
    using that by (induction rs) simp_all
  then have "length (concat (hp_rtts h)) < 1024" using assms(1) by (auto simp: hop_ok_def)
  then have "length d < 256 ^ 4" using d hop_data_ok [OF assms(1)] assms(1) by (auto simp: hop_ok_def)
  then obtain bs where "type_frame (trace_hop_msg, d) = Inr bs"
    using type_frame_Inr [of "(trace_hop_msg, d)"] by (auto simp: trace_types)
  then show ?thesis using d assms(2) by (simp add: send_hop_def trace_send_def type_send_def)
qed

text \<open>The hops of a trace.\<close>

definition traced_hops :: "trace_env \<Rightarrow> nat \<Rightarrow> string \<Rightarrow> hop list" where
  "traced_hops env q host =
     [relay_hop env q, peer_hop env q, (case ev_lookup env host of None \<Rightarrow> unknown_hop host | Some ip \<Rightarrow> host_hop env q host ip)]"

definition trace_env_ok :: "trace_env \<Rightarrow> string \<Rightarrow> bool" where
  "trace_env_ok env host \<longleftrightarrow>
     (\<forall>n i. length (ev_sleep env n i) = 4) \<and> (\<forall>i r. ev_connect env host i = Some r \<longrightarrow> length r = 4)
     \<and> (\<forall>ip. ev_lookup env host = Some ip \<longrightarrow> length (encode_utf8 ip) < 256)"

lemma encode_utf8_at_most: "length (encode_utf8 s) \<le> 2 * length s"
  by (induction s) (auto simp: encode_utf8_def utf8_char_def)

lemma length_map_filter_le: "length (List.map_filter f xs) \<le> length xs"
  by (simp add: List.map_filter_def)

lemma traced_hops_ok:
  assumes "trace_env_ok env host" "q < 256" "length (encode_utf8 host) < 256"
  shows "\<forall>h \<in> set (traced_hops env q host). hop_ok h"
proof -
  have a: "length (encode_utf8 s) < 256" if "length s < 128" for s
    using that encode_utf8_at_most [of s] by simp
  have "hop_ok (relay_hop env q)" "hop_ok (peer_hop env q)" "hop_ok (unknown_hop host)"
    using assms a by (auto simp: hop_ok_def relay_hop_def peer_hop_def sleep_hop_def unknown_hop_def trace_env_ok_def)
  moreover have "hop_ok (host_hop env q host ip)" if "ev_lookup env host = Some ip" for ip
    using assms that length_map_filter_le [of "ev_connect env host" "[0..<q]"]
    by (auto simp: hop_ok_def host_hop_def trace_env_ok_def List.map_filter_def)
  ultimately show ?thesis by (auto simp: traced_hops_def split: option.splits)
qed

lemma handled_hops:
  assumes "\<forall>h \<in> set hs. hop_ok h \<and> hop_data h = Inr (d h)"
  shows "fold (\<lambda>m s. snd (handle_trace m s)) (map (\<lambda>h. (trace_hop_msg, d h)) hs) s = s\<lparr>tc_hops := tc_hops s @ hs\<rparr>"
  using assms
proof (induction hs arbitrary: s)
  case (Cons h hs)
  have "handle_hop_result (d h) s = (None, s\<lparr>tc_hops := tc_hops s @ [h]\<rparr>)"
    using Cons.prems by (intro hop_data_read) simp_all
  then have "snd (handle_trace (trace_hop_msg, d h) s) = s\<lparr>tc_hops := tc_hops s @ [h]\<rparr>"
    by (simp add: handle_trace_def trace_types)
  then show ?case using Cons by simp
qed simp

text \<open>
  A trace, if the server had its connection: the client gets the hops in their order, whatever the
  cut of the streams, and the first two name no machine: they are fixed texts with times that the server
  makes up.
\<close>

theorem trace_arrives:
  assumes "start_trace host c = (Inr (), c1)" "tc_linked c" "tc_sent c1 = tc_sent c @ concat cs"
    and "tc_linked s" "tc_tasks s = []" "tc_queries s < 256" "trace_env_ok env host"
    and "run_trace_task env (snd (fold trace_on_data cs ([], s))) = s1" "tc_sent s1 = tc_sent s @ concat ds"
    and "fold trace_on_data ds ([], c1) = (rest, c2)"
  shows "rest = [] \<and> tc_complete c2 \<and> trace_result c2 = traced_hops env (tc_queries s) host"
proof -
  let ?hb = "encode_utf8 host" and ?q = "tc_queries s"
  let ?b = "word_of_nat (length ?hb) # ?hb"
  have l: "length ?hb < 256" and st: "trace_send trace_request_msg ?b (c\<lparr>tc_hops := [], tc_complete := False\<rparr>) = (Inr (), c1)"
    using assms(1) by (auto simp: start_trace_def Let_def split: if_splits)
  then obtain bs where f: "type_frame (trace_request_msg, ?b) = Inr bs"
      "c1 = c\<lparr>tc_hops := [], tc_complete := False, tc_sent := tc_sent c @ bs\<rparr>"
    using assms(2) by (auto simp: trace_send_def type_send_def split: sum.splits)
  have srv: "fold trace_on_data cs ([], s) = ([], s\<lparr>tc_tasks := [?b]\<rparr>)"
    using typed.messages_handled [of "[(trace_request_msg, ?b)]" "[bs]" cs handle_trace s] f assms(3,5)
    by (simp add: trace_on_data_def handle_trace_def)
  have u: "unat (word_of_nat (length ?hb) :: byte) = length ?hb" using l by (simp add: unat_of_nat)
  have h: "traced_host ?b = Some host" unfolding traced_host_def using u by simp
  define s0 where "s0 = s\<lparr>tc_tasks := []\<rparr>"
  obtain h3 where h3: "traced_hops env ?q host = [relay_hop env ?q, peer_hop env ?q, h3]"
      "\<And>t. tc_queries t = ?q \<Longrightarrow> hop_ok h3 \<Longrightarrow> tc_linked t \<Longrightarrow> send_host_hop env host t = send_hop h3 t"
    using send_hop_ok by (cases "ev_lookup env host") (fastforce simp: traced_hops_def send_host_hop_def)+
  have ok: "hop_ok (relay_hop env ?q)" "hop_ok (peer_hop env ?q)" "hop_ok h3"
    using traced_hops_ok [OF assms(7,6) l] h3(1) by simp_all
  define e where "e h = projr (hop_data h)" for h
  have e: "hop_data h = Inr (e h)" if "hop_ok h" for h using hop_data_ok [OF that] by (simp add: e_def)
  have s: "\<exists>bs. type_frame (trace_hop_msg, e h) = Inr bs \<and> send_hop h t = (Inr (), t\<lparr>tc_sent := tc_sent t @ bs\<rparr>)"
    if "hop_ok h" "tc_linked t" for h t using send_hop_ok [OF that] e [OF that(1)] by auto
  obtain b1 where b1: "type_frame (trace_hop_msg, e (relay_hop env ?q)) = Inr b1"
      "send_hop (relay_hop env ?q) s0 = (Inr (), s0\<lparr>tc_sent := tc_sent s0 @ b1\<rparr>)"
    using s [OF ok(1), of s0] assms(4) by (auto simp: s0_def)
  obtain b2 where b2: "type_frame (trace_hop_msg, e (peer_hop env ?q)) = Inr b2"
      "send_hop (peer_hop env ?q) (s0\<lparr>tc_sent := tc_sent s0 @ b1\<rparr>) = (Inr (), s0\<lparr>tc_sent := tc_sent s0 @ b1 @ b2\<rparr>)"
    using s [OF ok(2), of "s0\<lparr>tc_sent := tc_sent s0 @ b1\<rparr>"] assms(4) by (auto simp: s0_def)
  obtain b3 where b3: "type_frame (trace_hop_msg, e h3) = Inr b3"
      "send_hop h3 (s0\<lparr>tc_sent := tc_sent s0 @ b1 @ b2\<rparr>) = (Inr (), s0\<lparr>tc_sent := tc_sent s0 @ b1 @ b2 @ b3\<rparr>)"
    using s [OF ok(3), of "s0\<lparr>tc_sent := tc_sent s0 @ b1 @ b2\<rparr>"] assms(4) by (auto simp: s0_def)
  obtain b4 where b4: "type_frame (trace_complete_msg, []) = Inr b4"
    using type_frame_Inr [of "(trace_complete_msg, [])"] by (auto simp: trace_types)
  have "s1 = s0\<lparr>tc_sent := tc_sent s0 @ b1 @ b2 @ b3 @ b4\<rparr>"
    using assms(4,8) srv h b1(2) b2(2) b3(2) b4 h3(2) [of "s0\<lparr>tc_sent := tc_sent s0 @ b1 @ b2\<rparr>"] ok(3)
    by (simp add: run_trace_task_def handle_trace_request_def after_hop_def s0_def trace_send_def type_send_def)
  then have cc: "concat ds = concat [b1, b2, b3, b4]" using assms(9) by (simp add: s0_def)
  let ?hs = "[relay_hop env ?q, peer_hop env ?q, h3]"
  let ?ms = "map (\<lambda>h. (trace_hop_msg, e h)) ?hs @ [(trace_complete_msg, [])]"
  have fine: "fst (handle_trace m t)" if m: "m \<in> set ?ms" for m t
    using m ok e hop_data_read by (auto simp: handle_trace_def trace_types)
  have "fold trace_on_data ds ([], c1) = ([], fold (\<lambda>m s. snd (handle_trace m s)) ?ms c1)"
    unfolding trace_on_data_def
    by (rule typed.messages_handled [of ?ms "[b1, b2, b3, b4]"]) (use b1(1) b2(1) b3(1) b4 cc fine in auto)
  also have "\<dots> = ([], c1\<lparr>tc_hops := ?hs, tc_complete := True\<rparr>)"
  proof -
    have "\<forall>h \<in> set ?hs. hop_ok h \<and> hop_data h = Inr (e h)" using ok e by auto
    from handled_hops [OF this, of c1] show ?thesis by (simp add: f(2) handle_trace_def trace_types)
  qed
  finally have c2: "rest = []" "c2 = c1\<lparr>tc_hops := ?hs, tc_complete := True\<rparr>" using assms(10) by simp_all
  have "sorted (map hp_num ?hs)"
    using h3(1) by (auto simp: relay_hop_def peer_hop_def sleep_hop_def traced_hops_def unknown_hop_def host_hop_def split: option.splits)
  then have "sort_key hp_num ?hs = ?hs" by (rule sort_key_id_if_sorted)
  then show ?thesis using c2 h3(1) by (simp add: trace_result_def)
qed

end
