(* ===== verification/Ssh.thy ===== *)
theory Ssh
  imports Auth Console
begin

text \<open>
  SSH over the wormhole: \<^verbatim>\<open>src/wh/ssh/server.py\<close> (who is let in, the forwarding to the local SSH server, the
  processes), the bridge of \<^verbatim>\<open>src/wh/ssh/tunnel.py\<close>, the options of \<^verbatim>\<open>src/wh/cli/listen.py\<close>, and the addresses
  of \<^verbatim>\<open>cli/scp.py\<close> and \<^verbatim>\<open>cli/ssh.py\<close>. \<^verbatim>\<open>asyncssh\<close>, sockets and processes are parameters.
\<close>

section \<open>Who is let in\<close>

record ssh_server =
  sh_keys_path :: "string option"
  sh_passwords :: "(string, string) dict"

definition new_ssh_server :: "string option \<Rightarrow> (string, string) dict option \<Rightarrow> ssh_server" where
  "new_ssh_server keys pws = \<lparr>sh_keys_path = keys, sh_passwords = (case pws of None \<Rightarrow> [] | Some d \<Rightarrow> d)\<rparr>"

definition begin_auth :: "ssh_server \<Rightarrow> string \<Rightarrow> bool" where
  "begin_auth s user = True"

definition password_auth_supported :: "ssh_server \<Rightarrow> bool" where
  "password_auth_supported s = True"

definition validate_password :: "ssh_server \<Rightarrow> string \<Rightarrow> string \<Rightarrow> bool" where
  "validate_password s user pw = (case dget (sh_passwords s) user of Some p \<Rightarrow> p = pw | None \<Rightarrow> True)"

definition public_key_auth_supported :: "ssh_server \<Rightarrow> bool" where
  "public_key_auth_supported s = (sh_keys_path s \<noteq> None)"

text \<open>\<^verbatim>\<open>read\<close> reads an \<^verbatim>\<open>authorized_keys\<close> file and gives its \<^verbatim>\<open>validate\<close>.\<close>

definition validate_public_key ::
  "(string \<Rightarrow> ('k \<Rightarrow> string \<Rightarrow> bool result) result) \<Rightarrow> ssh_server \<Rightarrow> string \<Rightarrow> 'k \<Rightarrow> bool" where
  "validate_public_key read s user key =
     (if \<not> truthy (sh_keys_path s) then False
      else
        (case read (the (sh_keys_path s)) of
           Inl e \<Rightarrow> False
         | Inr validate \<Rightarrow> (case validate key user of Inl e \<Rightarrow> False | Inr b \<Rightarrow> b)))"

text \<open>\<^verbatim>\<open>SSHServerHandler\<close>: without host keys it makes its own.\<close>

record ssh_handler =
  hn_host_keys :: "string list"
  hn_generates :: bool
  hn_keys_path :: "string option"
  hn_passwords :: "(string, string) dict option"

definition new_ssh_handler :: "string list option \<Rightarrow> string option \<Rightarrow> (string, string) dict option \<Rightarrow> ssh_handler" where
  "new_ssh_handler host_keys keys pws =
     (let hs = (case host_keys of None \<Rightarrow> [] | Some ks \<Rightarrow> ks) in
      \<lparr>hn_host_keys = hs, hn_generates = (hs = []), hn_keys_path = keys, hn_passwords = pws\<rparr>)"

definition server_of :: "ssh_handler \<Rightarrow> ssh_server" where
  "server_of h = new_ssh_server (hn_keys_path h) (hn_passwords h)"

section \<open>The options of listen\<close>

record listen_opts =
  lo_port :: "int option"
  lo_ssh :: bool
  lo_http :: bool
  lo_serve :: "string option"
  lo_method :: auth_method
  lo_keys :: "string option"
  lo_ldap_server :: "string option"
  lo_ldap_base :: "string option"

datatype listen_mode = ServeFiles string | SshMode ssh_handler | HttpMode | PortMode int | GenericMode

text \<open>The authenticator that the options describe.\<close>

definition listen_authenticator :: "(string \<Rightarrow> string list option) \<Rightarrow> bytes \<Rightarrow> listen_opts \<Rightarrow> authenticator result" where
  "listen_authenticator files rnd o1 =
     create_authenticator files rnd (lo_method o1) (if lo_method o1 = AuthPubkey then lo_keys o1 else None) None
       (if lo_method o1 = AuthLdap then lo_ldap_server o1 else None) (if lo_method o1 = AuthLdap then lo_ldap_base o1 else None)
       None None ''(uid={username})'' None"

text \<open>It is made, a line about it is printed, and it is dropped.\<close>

definition listen_auth :: "(string \<Rightarrow> string list option) \<Rightarrow> bytes \<Rightarrow> listen_opts \<Rightarrow> ending + string list" where
  "listen_auth files rnd o1 =
     (case lo_method o1 of
        AuthNone \<Rightarrow> Inr []
      | AuthPubkey \<Rightarrow>
          if \<not> truthy (lo_keys o1) then Inl (ClickError ''--authorized-keys required for pubkey auth'')
          else
            (case listen_authenticator files rnd o1 of
               Inl e \<Rightarrow> Inl (Crashed e)
             | Inr _ \<Rightarrow> Inr [''Authentication: pubkey (authorized_keys: '' @ the (lo_keys o1) @ '')''])
      | AuthLdap \<Rightarrow>
          if \<not> truthy (lo_ldap_server o1) \<or> \<not> truthy (lo_ldap_base o1) then
            Inl (ClickError ''--ldap-server and --ldap-base-dn required for ldap auth'')
          else
            (case listen_authenticator files rnd o1 of
               Inl e \<Rightarrow> Inl (Crashed e)
             | Inr _ \<Rightarrow> Inr [''Authentication: LDAP ('' @ the (lo_ldap_server o1) @ '')''])
      | AuthPassword \<Rightarrow> Inl (ClickError ''Password auth requires --password-file (not yet implemented in CLI)''))"

definition mode_of :: "listen_opts \<Rightarrow> listen_mode" where
  "mode_of o1 =
     (if truthy (lo_serve o1) then ServeFiles (the (lo_serve o1))
      else if lo_ssh o1 then SshMode (new_ssh_handler None None None)
      else if lo_http o1 then HttpMode
      else (case lo_port o1 of None \<Rightarrow> GenericMode | Some p \<Rightarrow> if p = 0 then GenericMode else PortMode p))"

definition listen_setup :: "(string \<Rightarrow> string list option) \<Rightarrow> bytes \<Rightarrow> listen_opts \<Rightarrow> ending + string list \<times> listen_mode" where
  "listen_setup files rnd o1 = map_sum id (\<lambda>ls. (ls, mode_of o1)) (listen_auth files rnd o1)"

section \<open>Forwarding\<close>

text \<open>
  \<^verbatim>\<open>ForwardProtocol\<close>: one connection of the wormhole and one to the local SSH server. While the latter is
  opened, what arrives is kept.
\<close>

record ssh_forward =
  fw_connecting :: bool
  fw_writer :: bool
  fw_closing :: bool
  fw_pending :: "bytes list"
  fw_flushing :: bool
  fw_task :: bool
  fw_local :: "bytes list"
  fw_remote :: "bytes list"
  fw_dropped :: bool

definition new_forward :: ssh_forward where
  "new_forward =
     \<lparr>fw_connecting = True, fw_writer = False, fw_closing = False, fw_pending = [], fw_flushing = False, fw_task = False,
      fw_local = [], fw_remote = [], fw_dropped = False\<rparr>"

text \<open>\<^verbatim>\<open>_connect_local\<close> up to the end of \<^verbatim>\<open>open_connection\<close>, and from its \<^verbatim>\<open>drain\<close> on.\<close>

definition forward_connected :: "bool \<Rightarrow> ssh_forward \<Rightarrow> ssh_forward" where
  "forward_connected worked s =
     (if \<not> fw_connecting s then s
      else
        (let s1 = s\<lparr>fw_connecting := False\<rparr> in
         if \<not> worked then s1\<lparr>fw_dropped := True\<rparr>
         else if fw_pending s = [] then s1\<lparr>fw_writer := True, fw_task := True\<rparr>
         else s1\<lparr>fw_writer := True, fw_local := fw_local s @ fw_pending s, fw_flushing := True\<rparr>))"

definition forward_drained :: "bool \<Rightarrow> ssh_forward \<Rightarrow> ssh_forward" where
  "forward_drained worked s =
     (if \<not> fw_flushing s then s
      else if worked then s\<lparr>fw_flushing := False, fw_pending := [], fw_task := True\<rparr>
      else s\<lparr>fw_flushing := False, fw_dropped := True\<rparr>)"

definition forward_data :: "bytes \<Rightarrow> ssh_forward \<Rightarrow> ssh_forward" where
  "forward_data d s =
     (if fw_writer s \<and> \<not> fw_closing s then s\<lparr>fw_local := fw_local s @ [d]\<rparr>
      else s\<lparr>fw_pending := fw_pending s @ [d]\<rparr>)"

text \<open>One turn of \<^verbatim>\<open>_forward_local_to_wormhole\<close>: an exception, the end, or data.\<close>

definition forward_read :: "bytes option \<Rightarrow> ssh_forward \<Rightarrow> ssh_forward" where
  "forward_read r s =
     (if \<not> fw_task s then s
      else
        (case r of
           Some (b # bs) \<Rightarrow> s\<lparr>fw_remote := fw_remote s @ [b # bs]\<rparr>
         | _ \<Rightarrow> s\<lparr>fw_task := False, fw_dropped := True\<rparr>))"

definition forward_lost :: "ssh_forward \<Rightarrow> ssh_forward" where
  "forward_lost s = s\<lparr>fw_task := False, fw_closing := (fw_closing s \<or> fw_writer s)\<rparr>"

datatype ssh_forward_event =
    FwConnected bool
  | FwDrained bool
  | FwData bytes
  | FwRead "bytes option"
  | FwClosing
  | FwLost

fun ssh_forward_step :: "ssh_forward_event \<Rightarrow> ssh_forward \<Rightarrow> ssh_forward" where
  "ssh_forward_step (FwConnected w) s = forward_connected w s"
| "ssh_forward_step (FwDrained w) s = forward_drained w s"
| "ssh_forward_step (FwData d) s = forward_data d s"
| "ssh_forward_step (FwRead r) s = forward_read r s"
| "ssh_forward_step FwClosing s = s\<lparr>fw_closing := fw_writer s\<rparr>"
| "ssh_forward_step FwLost s = forward_lost s"

section \<open>The bridge of the client\<close>

text \<open>
  \<^verbatim>\<open>BridgeProtocol.dataReceived\<close>: the socket is non-blocking, so \<^verbatim>\<open>send\<close> takes some bytes from the front and
  says how many, or raises; the number is not looked at.
\<close>

definition bridge_received :: "(bytes \<times> nat option) \<Rightarrow> bytes \<Rightarrow> bytes" where
  "bridge_received dn sock = (case snd dn of None \<Rightarrow> sock | Some n \<Rightarrow> sock @ take n (fst dn))"

section \<open>Processes\<close>

text \<open>The loops that read until the end or an exception.\<close>

definition pump_reads :: "bytes option list \<Rightarrow> bytes list" where
  "pump_reads rs = map the (takeWhile (\<lambda>r. r \<noteq> None \<and> r \<noteq> Some []) rs)"

definition latin1_text :: "bytes \<Rightarrow> string" where
  "latin1_text bs = map char_of_byte bs"

text \<open>\<^verbatim>\<open>_run_command\<close>: standard output, standard error and the exit status.\<close>

record ssh_result =
  cr_stdout :: "bytes option list"
  cr_stderr :: "bytes option list"
  cr_code :: int

definition ssh_command :: "string + ssh_result \<Rightarrow> string list \<times> string list \<times> int" where
  "ssh_command r =
     (case r of
        Inl e \<Rightarrow> ([], [''Error: '' @ e @ [CHR 0x0A]], 1)
      | Inr c \<Rightarrow> (map latin1_text (pump_reads (cr_stdout c)), map latin1_text (pump_reads (cr_stderr c)), cr_code c))"

text \<open>What SSH gives to read: a text, unless the library was asked for bytes.\<close>

datatype ssh_data = SshText string | SshBytes bytes

definition no_data :: "ssh_data \<Rightarrow> bool" where
  "no_data d = (case d of SshText t \<Rightarrow> t = [] | SshBytes b \<Rightarrow> b = [])"

text \<open>\<^verbatim>\<open>forward_stdin\<close> of a command converts a text; \<^verbatim>\<open>write_master\<close> of a shell gives it to \<^verbatim>\<open>os.write\<close>, which raises.\<close>

definition latin1_bytes :: "string \<Rightarrow> bytes" where
  "latin1_bytes t = map (\<lambda>c. word_of_nat (cp c)) t"

definition command_input :: "ssh_data list \<Rightarrow> bytes list" where
  "command_input ds =
     map (\<lambda>d. case d of SshText t \<Rightarrow> latin1_bytes t | SshBytes b \<Rightarrow> b) (takeWhile (\<lambda>d. \<not> no_data d) ds)"

fun shell_input :: "ssh_data list \<Rightarrow> bytes list" where
  "shell_input [] = []"
| "shell_input (SshText t # ds) = []"
| "shell_input (SshBytes b # ds) = (if b = [] then [] else b # shell_input ds)"

section \<open>Addresses on the command line\<close>

fun text_find :: "string \<Rightarrow> string \<Rightarrow> nat option" where
  "text_find [] p = (if p = [] then Some 0 else None)"
| "text_find (c # s) p = (if startswith (c # s) p then Some 0 else map_option Suc (text_find s p))"

text \<open>\<^verbatim>\<open>parse_remote\<close> of \<^verbatim>\<open>scp\<close>: user, code and path; a local path has neither user nor code.\<close>

definition user_and_code :: "string \<Rightarrow> string option \<times> string" where
  "user_and_code r = (if CHR ''@'' \<in> set r then apfst Some (rsplit1 CHR ''@'' r) else (None, r))"

definition parse_remote :: "string \<Rightarrow> string option \<times> string option \<times> string" where
  "parse_remote path =
     (let remote = (\<lambda>(r, p). case user_and_code r of (u, c) \<Rightarrow> (u, Some c, p)) in
      if CHR '':'' \<notin> set path then (None, None, path)
      else if contains path ''wh://'' then
        (case text_find path ''.wns'' of
           None \<Rightarrow> (None, None, path)
         | Some k \<Rightarrow>
             (case text_find (drop k path) '':'' of
                None \<Rightarrow> (None, None, path)
              | Some j \<Rightarrow> remote (take (k + j) path, drop (k + j + 1) path)))
      else remote (split1 CHR '':'' path))"

text \<open>What \<^verbatim>\<open>scp\<close> is to do: download or upload, with the code, the user if one is named, and the two paths.\<close>

definition scp_plan ::
  "string \<Rightarrow> string \<Rightarrow> string option \<Rightarrow> string + bool \<times> string \<times> string option \<times> string \<times> string" where
  "scp_plan source dest login =
     (case (parse_remote source, parse_remote dest) of
        ((su, sc, sp), (du, dc, dp)) \<Rightarrow>
          if truthy sc \<and> truthy dc then Inl ''Cannot copy between two remote hosts''
          else if \<not> truthy sc \<and> \<not> truthy dc then Inl ''At least one path must be remote (code:path)''
          else
            Inr (sc \<noteq> None, (if truthy sc then the sc else the dc),
                 (if truthy su then su else if truthy du then du else login), sp, dp))"

definition ssh_destination :: "string \<Rightarrow> string option \<Rightarrow> string option \<times> string" where
  "ssh_destination dest login =
     (if CHR ''@'' \<in> set dest then apfst Some (rsplit1 CHR ''@'' dest) else (login, dest))"

section \<open>Properties\<close>

text \<open>
  C9. Whatever authentication \<^verbatim>\<open>listen --ssh\<close> is started with, the authenticator it describes is made and not
  used: every server of the handler takes every password of every user, and no public key.
\<close>

theorem listen_ssh_admits_everyone:
  assumes "listen_setup files rnd o1 = Inr (lines, SshMode h)"
  shows "(\<exists>a. listen_authenticator files rnd o1 = Inr a)
    \<and> begin_auth (server_of h) user \<and> password_auth_supported (server_of h) \<and> validate_password (server_of h) user pw
    \<and> \<not> public_key_auth_supported (server_of h) \<and> \<not> validate_public_key read (server_of h) user key"
proof -
  have l: "listen_auth files rnd o1 = Inr lines \<and> mode_of o1 = SshMode h"
    using assms by (cases "listen_auth files rnd o1") (simp_all add: listen_setup_def)
  then have "h = new_ssh_handler None None None" by (auto simp: mode_of_def split: if_splits option.splits)
  moreover have "\<exists>a. listen_authenticator files rnd o1 = Inr a"
    using conjunct1 [OF l]
    by (cases "lo_method o1") (auto simp: listen_auth_def listen_authenticator_def create_authenticator_def split: if_splits)
  ultimately show ?thesis
    by (simp add: server_of_def new_ssh_handler_def new_ssh_server_def begin_auth_def password_auth_supported_def
      validate_password_def public_key_auth_supported_def validate_public_key_def)
qed

theorem listen_ssh_admits_everyone_witness:
  "let o1 = \<lparr>lo_port = None, lo_ssh = True, lo_http = False, lo_serve = None, lo_method = AuthPubkey,
              lo_keys = Some ''/etc/wh/authorized_keys'', lo_ldap_server = None, lo_ldap_base = None\<rparr>;
       h = (case listen_setup (\<lambda>_. Some []) [] o1 of Inr (_, SshMode h) \<Rightarrow> h | _ \<Rightarrow> new_ssh_handler None (Some ''k'') None)
   in hn_keys_path h = None \<and> validate_password (server_of h) ''root'' ''x''"
proof -
  let ?o = "\<lparr>lo_port = None, lo_ssh = True, lo_http = False, lo_serve = None, lo_method = AuthPubkey,
    lo_keys = Some ''/etc/wh/authorized_keys'', lo_ldap_server = None, lo_ldap_base = None\<rparr>"
  obtain lines where s: "listen_setup (\<lambda>_. Some []) [] ?o = Inr (lines, SshMode (new_ssh_handler None None None))"
    by (simp add: listen_setup_def listen_auth_def listen_authenticator_def create_authenticator_def mode_of_def)
  then show ?thesis
    using listen_ssh_admits_everyone [OF s, of "''root''" "''x''" "\<lambda>_. Inl OSError" "0 :: nat"] by (simp add: new_ssh_handler_def Let_def)
qed

text \<open>What the forwarder holds for the local server, in order.\<close>

definition forward_stream :: "ssh_forward \<Rightarrow> bytes" where
  "forward_stream s = concat (fw_local s) @ (if fw_writer s then [] else concat (fw_pending s))"

fun event_bytes :: "ssh_forward_event \<Rightarrow> bytes" where
  "event_bytes (FwData d) = d"
| "event_bytes e = []"

fun read_bytes :: "ssh_forward_event \<Rightarrow> bytes" where
  "read_bytes (FwRead (Some d)) = d"
| "read_bytes e = []"

definition forward_ok :: "ssh_forward \<Rightarrow> bool" where
  "forward_ok s \<longleftrightarrow> \<not> fw_closing s \<and> (fw_connecting s \<longrightarrow> \<not> fw_writer s) \<and> (fw_flushing s \<longrightarrow> fw_writer s)
     \<and> (\<not> fw_writer s \<longrightarrow> \<not> fw_task s) \<and> (fw_local s \<noteq> [] \<longrightarrow> fw_writer s)"

lemma forward_step_stream:
  assumes "forward_ok s" "e \<noteq> FwClosing" "e \<noteq> FwLost"
  shows "forward_ok (ssh_forward_step e s) \<and> forward_stream (ssh_forward_step e s) = forward_stream s @ event_bytes e"
  using assms
proof (cases e)
  case (FwConnected w)
  then show ?thesis using assms(1) by (auto simp: forward_ok_def forward_stream_def forward_connected_def Let_def)
next
  case (FwDrained w)
  then show ?thesis using assms(1) by (auto simp: forward_ok_def forward_stream_def forward_drained_def)
next
  case (FwData d)
  then show ?thesis using assms(1) by (auto simp: forward_ok_def forward_stream_def forward_data_def)
next
  case (FwRead r)
  then show ?thesis
    using assms(1) by (auto simp: forward_ok_def forward_stream_def forward_read_def split: option.split list.split)
qed (use assms in simp_all)

text \<open>
  C31. The forwarding of the SSH server: as long as neither connection is closed, what the local SSH server has been
  sent is, in order and without a gap, everything that came out of the wormhole, however early it came:
  what is not there yet waits for the local connection.
\<close>

theorem ssh_forward_in_order:
  assumes "FwClosing \<notin> set evs" "FwLost \<notin> set evs" "s = fold ssh_forward_step evs new_forward"
  shows "concat (fw_local s) @ (if fw_writer s then [] else concat (fw_pending s)) = concat (map event_bytes evs)
    \<and> (fw_writer s \<or> fw_local s = [])"
proof -
  have "forward_ok (fold ssh_forward_step evs t) \<and>
      forward_stream (fold ssh_forward_step evs t) = forward_stream t @ concat (map event_bytes evs)"
    if "forward_ok t" "FwClosing \<notin> set evs" "FwLost \<notin> set evs" for t
    using that
  proof (induction evs arbitrary: t)
    case (Cons e evs)
    then show ?case using forward_step_stream [of t e] by auto
  qed simp
  moreover have "forward_ok new_forward" "forward_stream new_forward = []"
    by (simp_all add: forward_ok_def forward_stream_def new_forward_def)
  ultimately have "forward_ok s" "forward_stream s = concat (map event_bytes evs)" using assms by simp_all
  then show ?thesis unfolding forward_stream_def forward_ok_def by blast
qed

theorem ssh_forward_in_order_witness:
  "fw_local (fold ssh_forward_step [FwData [1], FwData [2], FwConnected True, FwData [3], FwDrained True, FwData [4]] new_forward)
   = [ [1], [2], [3], [4] ]"
proof -
  let ?evs = "[FwData [1], FwData [2], FwConnected True, FwData [3], FwDrained True, FwData [4]]"
  have "concat (fw_local (fold ssh_forward_step ?evs new_forward)) @ (if fw_writer (fold ssh_forward_step ?evs new_forward) then []
      else concat (fw_pending (fold ssh_forward_step ?evs new_forward))) = concat (map event_bytes ?evs)"
    using ssh_forward_in_order [OF _ _ refl, of ?evs] by simp
  then show ?thesis
    by (simp add: new_forward_def forward_data_def forward_connected_def forward_drained_def Let_def)
qed

text \<open>A connection of the wormhole that ends while the local one is still opened leaves the latter open for good.\<close>

lemma lost_while_connecting:
  "let s = fold ssh_forward_step [FwLost, FwConnected True] new_forward in fw_writer s \<and> fw_task s \<and> \<not> fw_closing s"
  by (simp add: new_forward_def forward_lost_def forward_connected_def Let_def)

text \<open>
  The bridge of the client keeps a stream only if the socket takes every piece whole at once: the rest of
  a piece is never sent again, so one full buffer damages the stream.
\<close>

theorem bridge_complete_iff:
  "fold bridge_received dns [] = concat (map fst dns) \<longleftrightarrow>
   (\<forall>(d, n) \<in> set dns. d = [] \<or> (\<exists>k. n = Some k \<and> length d \<le> k))"
proof -
  have f: "fold bridge_received dns sock =
      sock @ concat (map (\<lambda>(d, n). case n of None \<Rightarrow> [] | Some k \<Rightarrow> take k d) dns)" for sock dns
    by (induction dns arbitrary: sock) (auto simp: bridge_received_def split: option.split)
  let ?g = "\<lambda>(d, n). case n of None \<Rightarrow> [] | Some k \<Rightarrow> take k (d :: bytes)"
  have le: "length (concat (map ?g dns)) \<le> length (concat (map fst dns))" for dns
    by (induction dns) (auto split: option.split)
  have "concat (map ?g dns) = concat (map fst dns) \<longleftrightarrow> (\<forall>(d, n) \<in> set dns. d = [] \<or> (\<exists>k. n = Some k \<and> length d \<le> k))"
  proof (induction dns)
    case (Cons x dns)
    obtain d n where x: "x = (d, n)" by (cases x)
    have len: "length (?g x) \<le> length d" by (simp add: x split: option.split)
    have "concat (map ?g (x # dns)) = concat (map fst (x # dns)) \<longleftrightarrow> ?g x = d \<and> concat (map ?g dns) = concat (map fst dns)"
    proof
      assume e: "concat (map ?g (x # dns)) = concat (map fst (x # dns))"
      then have "length (?g x) + length (concat (map ?g dns)) = length d + length (concat (map fst dns))"
        by (metis (no_types, lifting) concat.simps(2) fst_conv length_append list.simps(9) x)
      then have "length (?g x) = length d" using len le [of dns] by linarith
      then show "?g x = d \<and> concat (map ?g dns) = concat (map fst dns)" using e x by simp
    qed (use x in auto)
    moreover have "?g x = d \<longleftrightarrow> d = [] \<or> (\<exists>k. n = Some k \<and> length d \<le> k)"
      by (cases n) (auto simp: x)
    ultimately show ?case using Cons.IH x by auto
  qed simp
  then show ?thesis by (simp add: f)
qed

theorem bridge_complete_iff_witness:
  "fold bridge_received [([1, 2], Some 2), ([3, 4], Some 1), ([5], Some 1)] [] \<noteq> [1, 2, 3, 4, 5]"
  using bridge_complete_iff [of "[([1, 2], Some 2), ([3, 4], Some 1), ([5], Some 1)]"] by auto

text \<open>A shell gets nothing of what is typed as long as the library gives texts; a command gets every byte of it.\<close>

lemma shell_ignores_text: "\<forall>d \<in> set ds. \<exists>t. d = SshText t \<Longrightarrow> shell_input ds = []"
  by (cases ds) auto

lemma latin1_text_bytes: "latin1_bytes (latin1_text b) = b"
  by (induction b) (simp_all add: latin1_bytes_def latin1_text_def char_of_byte_def)

lemma text_find_skip: "c \<notin> set pre \<Longrightarrow> startswith rest (c # p) \<Longrightarrow> text_find (pre @ rest) (c # p) = Some (length pre)"
proof (induction pre)
  case Nil
  then show ?case by (cases rest) (simp_all add: startswith_def)
next
  case (Cons x pre)
  then have "\<not> startswith (x # pre @ rest) (c # p)" by (auto simp: startswith_def)
  then show ?case using Cons by simp
qed

text \<open>
  The addresses of \<^verbatim>\<open>scp\<close>: \<^verbatim>\<open>user@code:path\<close> and \<^verbatim>\<open>user@wh://address.wns:path\<close> are read as what they
  were put together from.
\<close>

theorem scp_remote_parses:
  assumes "list_all (\<lambda>c. c \<noteq> CHR '':'' \<and> c \<noteq> CHR ''@'' \<and> c \<noteq> CHR ''.'') (user @ code)"
  shows "parse_remote (user @ ''@wh://'' @ code @ ''.wns:'' @ path) = (Some user, Some (''wh://'' @ code @ ''.wns''), path)
    \<and> (contains (user @ ''@'' @ code @ '':'' @ path) ''wh://''
       \<or> parse_remote (user @ ''@'' @ code @ '':'' @ path) = (Some user, Some code, path))"
proof
  have n: "CHR '':'' \<notin> set (user @ code)" "CHR ''@'' \<notin> set (user @ code)" "CHR ''.'' \<notin> set (user @ code)"
    using assms by (auto simp: list_all_iff)
  let ?w = "user @ ''@wh://'' @ code" and ?all = "user @ ''@wh://'' @ code @ ''.wns:'' @ path"
  have w: "?all = ?w @ ''.wns:'' @ path" by simp
  have c: "contains ?all ''wh://''" unfolding contains_iff by (rule exI [of _ "user @ ''@''"], rule exI [of _ "code @ ''.wns:'' @ path"]) simp
  have k: "text_find ?all ''.wns'' = Some (length ?w)"
    unfolding w using n by (intro text_find_skip) (auto simp: startswith_def)
  have d: "drop (length ?w) ?all = ''.wns:'' @ path" unfolding w by (rule append_eq_conv_conj [THEN iffD1, THEN conjunct2, symmetric, OF refl])
  have j: "text_find (''.wns:'' @ path) '':'' = Some 4"
    using text_find_skip [of "CHR '':''" "''.wns''" "'':'' @ path" "[]"] by (simp add: startswith_def)
  have t: "take (length ?w + 4) ?all = user @ CHR ''@'' # (''wh://'' @ code @ ''.wns'')" "drop (length ?w + 4 + 1) ?all = path"
    unfolding w by (simp_all only: append_assoc take_append drop_append length_append) simp_all
  have "CHR ''@'' \<notin> set (''wh://'' @ code @ ''.wns'')" using n by simp
  then have r: "rsplit1 CHR ''@'' (user @ CHR ''@'' # (''wh://'' @ code @ ''.wns'')) = (user, ''wh://'' @ code @ ''.wns'')"
    by (rule rsplit1_append)
  have "CHR '':'' \<in> set ?all" by simp
  then show "parse_remote ?all = (Some user, Some (''wh://'' @ code @ ''.wns''), path)"
    unfolding parse_remote_def Let_def using c by (simp only: if_False if_True k option.case d j t) (simp add: user_and_code_def r del: append_Cons)
  have s: "split1 CHR '':'' (user @ ''@'' @ code @ '':'' @ path) = (user @ CHR ''@'' # code, path)"
    using split1_append [of "CHR '':''" "user @ CHR ''@'' # code" path] n by simp
  have "rsplit1 CHR ''@'' (user @ CHR ''@'' # code) = (user, code)" using n by (intro rsplit1_append) simp
  then show "contains (user @ ''@'' @ code @ '':'' @ path) ''wh://''
      \<or> parse_remote (user @ ''@'' @ code @ '':'' @ path) = (Some user, Some code, path)"
    using s unfolding parse_remote_def user_and_code_def Let_def by simp
qed

theorem scp_remote_parses_witness:
  "parse_remote ''me@wh://abc.wns:/f'' = (Some ''me'', Some ''wh://abc.wns'', ''/f'')"
  using scp_remote_parses [of "''me''" "''abc''" "''/f''"] by simp

end
