(* ===== verification/Spec2Isabelle.thy ===== *)
theory Spec2Isabelle
  imports Prelude Py_Text Py_Bytes Py_Base Py_Time Py_Json Json_Text Sha256 Sha1 Bencode Dht_Node Identity
    Advertisement Names Mailbox Transit Aliases Relay_Config Ent_Namespace Wns_Namespace Policy Dht_Service
    Rate_Limiter Audit_Log Auth Discovery Wormhole_Manager Wns_Server Framing Proxy Posix_Path Os_Files Ftp Mount Daemon
    Stream_Core Chunked Tunnel Typed_Frames Rsync Dns Ldap_Client Port_Scan Ping Telnet Desktop Http File_Server Console
    Wns_Cli Relay_Cli Namespace_Cli Sftp Traceroute Ssh
begin

text \<open>
  Critical Wormhole Tools: the program and its model.

  \<^bold>\<open>The program.\<close> \<^verbatim>\<open>src/wh\<close> is a set of commands that run over Magic Wormhole. A \<^emph>\<open>code\<close> joins two
  machines. Around the codes there is the naming system WNS: an Ed25519 identity has an address that
  is derived from its key, a server signs the code under which it can be reached and publishes the
  advertisement, and a client that knows the address finds the code again in the DHT, in a file, over
  HTTP or in the local network. Relays (a mailbox server and a transit relay) bring the two ends
  together, enterprise installations put authentication, policies, limits, namespaces and an audit
  log around them, and every command speaks a small protocol of its own over the channel.

  \<^bold>\<open>How a component is modelled.\<close> The fields of an object are a record, an enumeration is a datatype,
  and a method is a function from the state and its arguments to its result and the new state. An
  exception is the left value of a sum (\<^verbatim>\<open>exn\<close> of Prelude has the exceptions the sources raise or
  catch). A dictionary is an association list in the order of insertion, a string is the list of its
  Latin-1 characters, bytes are lists of 8-bit words, Python integers are unbounded, and hashes and
  distances are words or numbers of their width. What a coroutine does between two points where it
  waits is one step. Network, clock, operating system and the libraries the program only
  calls (Magic Wormhole, PyNaCl, bcrypt, ldap3, dnspython, the YAML parser) are arguments. What the program
  relies on of them is a named hypothesis of the theorem, and its witness gives a concrete instance.

  \<^bold>\<open>Theories, in the order of their imports.\<close>

  \<^item> \<^bold>\<open>Python.\<close> Prelude (results, dictionaries, sets, the locale \<^verbatim>\<open>kv_store\<close>); Py_Text, Py_Bytes, Py_Base
    (\<^verbatim>\<open>str\<close>, \<^verbatim>\<open>bytes\<close>, UTF-8, \<^verbatim>\<open>struct\<close>, base32 and base64, each with its round trip); Py_Time (\<^verbatim>\<open>datetime\<close> and its
    ISO texts); Py_Json and Json_Text (JSON values, printer and parser; the parser has fuel \<^verbatim>\<open>2 * length + 1\<close>,
    \<^verbatim>\<open>parse_fuel_enough\<close> shows that more fuel changes nothing, and \<^verbatim>\<open>json_roundtrip\<close> that every value without
    floats reads back from its text, indented or not); Sha1 and Sha256.
  \<^item> \<^bold>\<open>WNS.\<close> Bencode and Dht_Node (\<^verbatim>\<open>wns/dht.py\<close>: the codec, the routing table, queries and replies;
    the decoder takes fuel, and \<^verbatim>\<open>bdecode_returns\<close> shows when it comes to an end, \<^verbatim>\<open>negative_length_loops\<close>
    that on one input no fuel is enough; \<^verbatim>\<open>get_peers_loop\<close> is a \<^verbatim>\<open>partial_function\<close> with a proof that it
    returns). Identity (\<^verbatim>\<open>wns/identity.py\<close>), Advertisement (\<^verbatim>\<open>wns/advertisement.py\<close>) and Names (\<^verbatim>\<open>wns/names.py\<close>): keys,
    addresses, signed records; the locale \<^verbatim>\<open>signed_record\<close> is the contract of a record that verifies, with
    interpretations \<^verbatim>\<open>ad\<close> and \<^verbatim>\<open>claim\<close>. Dht_Service (\<^verbatim>\<open>wns/dht.py\<close>: advertisement server, publishing and lookup),
    Aliases, Wns_Namespace (\<^verbatim>\<open>wns/namespace.py\<close>), Discovery (\<^verbatim>\<open>wns/discovery.py\<close>; the locale
    \<^verbatim>\<open>discovery_backend\<close> is what a backend promises of the advertisements it returns, interpreted for all of
    them) and Wns_Server (\<^verbatim>\<open>wns/server.py\<close>, down to the client that finds its code).
  \<^item> \<^bold>\<open>Relays.\<close> Mailbox and Transit (\<^verbatim>\<open>relay/mailbox.py\<close>, \<^verbatim>\<open>relay/transit.py\<close>: the latter as an inductive step
    relation with its reachable states and an invariant), Relay_Config (\<^verbatim>\<open>relay/config.py\<close>).
  \<^item> \<^bold>\<open>Enterprise.\<close> Ent_Namespace, Policy, Rate_Limiter, Audit_Log, Auth, Ldap_Client (\<^verbatim>\<open>enterprise/\<close>; the pool of LDAP
    connections is a state machine).
  \<^item> \<^bold>\<open>Core.\<close> Wormhole_Manager (\<^verbatim>\<open>core/wormhole_manager.py\<close>) and Stream_Core (\<^verbatim>\<open>core/protocol.py\<close>, \<^verbatim>\<open>forwarder.py\<close>,
    \<^verbatim>\<open>transport.py\<close>).
  \<^item> \<^bold>\<open>Commands.\<close> Framing and Chunked prove once what all receivers need: a stream of messages is taken
    apart in the same way however the network cuts it (locales \<^verbatim>\<open>framed\<close>, \<^verbatim>\<open>chunked\<close>, \<^verbatim>\<open>chunked_codec\<close>). Proxy,
    Ftp, Mount, Tunnel, Ping and Typed_Frames (for Rsync, Dns, Port_Scan, Traceroute, Telnet and Desktop, the last for
    \<^verbatim>\<open>cli/vnc.py\<close> and \<^verbatim>\<open>cli/rdp.py\<close>) interpret them on their own formats. Posix_Path and Os_Files are the
    part of \<^verbatim>\<open>os\<close> the file servers call. Daemon is the HTTP daemon of the browser extension, Http and
    File_Server are \<^verbatim>\<open>http/client.py\<close> (both ends) and \<^verbatim>\<open>http/server.py\<close>.
  \<^item> \<^bold>\<open>SSH.\<close> Sftp (\<^verbatim>\<open>transfer/sftp.py\<close>) and Ssh (\<^verbatim>\<open>ssh/server.py\<close>, the bridge of \<^verbatim>\<open>ssh/tunnel.py\<close>, the options of
    \<^verbatim>\<open>cli/listen.py\<close>, the addresses of \<^verbatim>\<open>cli/scp.py\<close> and \<^verbatim>\<open>cli/ssh.py\<close>).
  \<^item> \<^bold>\<open>Command lines.\<close> Console (what a command prints and how it ends), Wns_Cli (\<^verbatim>\<open>wns/cli.py\<close>), Relay_Cli
    (\<^verbatim>\<open>cli/relay.py\<close> and \<^verbatim>\<open>relay/server.py\<close>) and Namespace_Cli (\<^verbatim>\<open>cli/namespace.py\<close>): each command from its arguments
    and the files to its output and the files it leaves.

  \<^bold>\<open>What the lemmas show.\<close> Every component has the functional behaviour of its operations on all branches;
  stores are shown to be maps (interpretations of \<^verbatim>\<open>kv_store\<close>), formats to be round trips, and record keeping to be an
  invariant of all operations. Across components: an advertisement that a client accepts was signed by the key
  its address stands for, whichever way it came (Discovery, Dht_Service); what a server publishes is
  found by a client (Dht_Node, Dht_Service, Wns_Server), except behind the bundled advertisement server, whose reply no client of
  the program reads completely; the file servers do not serve a path whose text does not begin with the root,
  but they do serve neighbours of the root (below); an advertisement lives for what it was made for, up to the end of
  Python's calendar in the year 9999; a limiter's grants are bounded in every window of a history, with one more burst
  for each reset; and several servers of the commands never answer,
  because they do not keep the protocol object of their connection (Ftp, Dns, Telnet and others). The authentication that \<^verbatim>\<open>listen --ssh\<close> is
  asked for reaches no server: Auth models what it promises, Ssh what is started. The commands are
  composed with the stores they call: an exported key that is imported elsewhere decides which
  advertisements are trusted there (Wns_Cli with Discovery), a relay that is shared arrives whole (Relay_Cli), and processes
  that each load the namespaces and end are together one running manager (Namespace_Cli).

  \<^bold>\<open>Limits of the model.\<close> Characters beyond Latin-1, the recursion and digit limits of \<^verbatim>\<open>json\<close>, rounding of
  floats (times and rates are rational numbers or whole milliseconds; an expiry is exact to the microsecond),
  values of another type than text where a JSON record of the program has a text and Python does not look, the interleaving of tasks inside one
  step (a query of the DHT client and its reply are one step), timeouts other than as an input that occurs at any moment,
  status callbacks and log output, matching of IPv6 networks (an argument), files that cannot be
  written where the source does not look at the error, and the standard deviation that \<^verbatim>\<open>ping\<close> prints.

  \<^bold>\<open>Not modelled.\<close> The parsing of command lines (Click), and the bodies of the other commands, which build these
  objects, print and start the event loop (\<^verbatim>\<open>cli/\<close> apart from the protocols and commands above); the announcement of a
  relay by mDNS; what is left of \<^verbatim>\<open>ssh/\<close> and \<^verbatim>\<open>transfer/\<close> (the client and \<^verbatim>\<open>scp.py\<close>), which
  hands connections, terminals and copies to \<^verbatim>\<open>asyncssh\<close>; the packages in other languages (the browser
  extension and discovery site in JavaScript, the Caddy and nginx modules in Go and C), tests and documents.
\<close>

text \<open>
  A fact that spans the two file servers. Their check is a comparison of texts, so a neighbour of
  the root whose name begins with the name of the root passes it.
\<close>

lemma abs_path_prefix: "abs_path (cs @ [b @ x]) = abs_path (cs @ [b]) @ x"
  by (cases "cs = []") (simp_all add: abs_path_def join_with_snoc)

lemma path_join_abs:
  assumes "list_all comp_ok (cs @ [b])" "\<not> startswith y ''/''"
  shows "path_join (abs_path (cs @ [b])) y = abs_path (cs @ [b]) @ ''/'' @ y"
proof -
  obtain z w where b: "b = z @ [w]" "w \<noteq> CHR ''/''"
    using assms(1) by (cases b rule: rev_cases) (auto simp: comp_ok_def)
  have "\<not> endswith (abs_path (cs @ [b])) ''/''"
    using b abs_path_prefix [of cs "z" "[w]"] by (auto simp: endswith_iff)
  moreover have "abs_path (cs @ [b]) \<noteq> []" by (simp add: abs_path_def)
  ultimately show ?thesis using assms(2) by (simp add: path_join_def)
qed

text \<open>
  The check of both file servers admits the neighbours of the root: for a root directory \<^verbatim>\<open>b\<close>, the
  path \<^verbatim>\<open>../bx\<close> of any directory beside it whose name only begins with the name of the root
  is resolved to that directory, outside of the root, and passes the check.
\<close>

theorem sibling_directory_admitted:
  assumes "list_all comp_ok cs" "comp_ok b" "comp_ok (b @ x)"
    and "dir = abs_path (cs @ [b])" "ft_root m = dir" "ft_cwd m = dir"
  shows "mount_resolve dir (''../'' @ b @ x) = Some (abs_path (cs @ [b @ x]))
    \<and> ftp_resolve m (''../'' @ b @ x) = Some (abs_path (cs @ [b @ x]))"
proof -
  have n: "normpath (path_join dir (''../'' @ b @ x)) = abs_path (cs @ [b @ x])"
    using path_join_abs [of cs b "''../'' @ b @ x"] normpath_dotdot [OF assms(1-3)] assms(1,2,4)
    by (simp add: startswith_one)
  have "within_root dir (abs_path (cs @ [b @ x])) = Some (abs_path (cs @ [b @ x]))"
    by (simp add: within_root_def assms(4) abs_path_prefix)
  then show ?thesis
    using n assms(5,6) by (simp add: mount_resolve_def ftp_resolve_def isabs_def startswith_one)
qed

theorem sibling_directory_admitted_witness:
  "mount_resolve ''/srv/pub'' ''../public'' = Some ''/srv/public''
   \<and> ftp_resolve (new_ftp True ''/srv/pub'') ''../public'' = Some ''/srv/public''"
  using sibling_directory_admitted [of "[''srv'']" "''pub''" "''lic''" "''/srv/pub''" "new_ftp True ''/srv/pub''"]
  by (simp add: comp_ok_def abs_path_def new_ftp_def)

end
